(* ===== verification/Prelude.thy ===== *)
theory Prelude
  imports Main "HOL-Library.Multiset" "HOL-Library.Sublist"
begin

text \<open>
  Shared vocabulary of the development.

  \<^item> A Go function that reads or writes the database and may return an error is an
    \<^emph>\<open>action\<close>: a function of the state that returns an error or a value
    together with the next state. \<open>bindE\<close> is the \<open>if err != nil { return err }\<close>
    of the source: an error stops the action and keeps the state reached so far.
  \<^item> A database table is the list of its rows; the row operations below are the SQL
    statements the repositories issue (look a row up by key, update or delete the rows
    that satisfy a condition).
  \<^item> \<open>valid\<close> is a small Hoare logic over actions. Its rules are in the collections
    \<open>act_defs\<close> (unfold an action) and \<open>valid_intros\<close> (prove a triple).
\<close>

named_theorems act_defs "defining equations of actions"
named_theorems valid_intros "introduction rules for triples"

section \<open>Actions: state and errors\<close>

type_synonym ('s, 'e, 'a) action = "'s \<Rightarrow> ('e + 'a) \<times> 's"

definition return_ok :: "'a \<Rightarrow> ('s, 'e, 'a) action" where
  "return_ok x = (\<lambda>s. (Inr x, s))"

definition fail_with :: "'e \<Rightarrow> ('s, 'e, 'a) action" where
  "fail_with e = (\<lambda>s. (Inl e, s))"

definition bindE :: "('s, 'e, 'a) action \<Rightarrow> ('a \<Rightarrow> ('s, 'e, 'b) action) \<Rightarrow> ('s, 'e, 'b) action" where
  "bindE m f = (\<lambda>s. case m s of (Inl e, t) \<Rightarrow> (Inl e, t) | (Inr x, t) \<Rightarrow> f x t)"

definition thenE :: "('s, 'e, 'a) action \<Rightarrow> ('s, 'e, 'b) action \<Rightarrow> ('s, 'e, 'b) action" where
  "thenE m k = bindE m (\<lambda>_. k)"

definition reads :: "('s \<Rightarrow> 'a) \<Rightarrow> ('s, 'e, 'a) action" where
  "reads f = (\<lambda>s. (Inr (f s), s))"

definition writes :: "('s \<Rightarrow> 's) \<Rightarrow> ('s, 'e, unit) action" where
  "writes f = (\<lambda>s. (Inr (), f s))"

definition require :: "bool \<Rightarrow> 'e \<Rightarrow> ('s, 'e, unit) action" where
  "require b e = (if b then return_ok () else fail_with e)"

definition lift_result :: "'e + 'a \<Rightarrow> ('s, 'e, 'a) action" where
  "lift_result r = (\<lambda>s. (r, s))"

text \<open>\<open>errors.As(err, ..)\<close> followed by a recovery: run the handler on an error.\<close>

definition catchE :: "('s, 'e, 'a) action \<Rightarrow> ('e \<Rightarrow> ('s, 'e, 'a) action) \<Rightarrow> ('s, 'e, 'a) action" where
  "catchE m h = (\<lambda>s. case m s of (Inl e, t) \<Rightarrow> h e t | (Inr x, t) \<Rightarrow> (Inr x, t))"

text \<open>A \<open>for\<close> loop whose body may return early with an error.\<close>

primrec forE :: "'a list \<Rightarrow> ('a \<Rightarrow> ('s, 'e, unit) action) \<Rightarrow> ('s, 'e, unit) action" where
  "forE [] f = return_ok ()"
| "forE (x # xs) f = bindE (f x) (\<lambda>_. forE xs f)"

primrec foldE :: "('b \<Rightarrow> 'a \<Rightarrow> ('s, 'e, 'b) action) \<Rightarrow> 'b \<Rightarrow> 'a list \<Rightarrow> ('s, 'e, 'b) action" where
  "foldE f b [] = return_ok b"
| "foldE f b (x # xs) = bindE (f b x) (\<lambda>b'. foldE f b' xs)"

definition is_ok :: "'e + 'a \<Rightarrow> bool" where
  "is_ok r = (case r of Inl _ \<Rightarrow> False | Inr _ \<Rightarrow> True)"

lemma is_ok_simps [simp]: "is_ok (Inr x)" "\<not> is_ok (Inl e)"
  by (simp_all add: is_ok_def)

lemma is_ok_fstE:
  assumes "is_ok (fst r)"
  obtains x t where "r = (Inr x, t)"
  using assms by (cases r; cases "fst r") auto

lemma return_ok_apply [simp]: "return_ok x s = (Inr x, s)"
  by (simp add: return_ok_def)

lemma fail_with_apply [simp]: "fail_with e s = (Inl e, s)"
  by (simp add: fail_with_def)

lemma reads_apply [simp]: "reads f s = (Inr (f s), s)"
  by (simp add: reads_def)

lemma writes_apply [simp]: "writes f s = (Inr (), f s)"
  by (simp add: writes_def)

lemma require_apply [simp]: "require b e s = (if b then Inr () else Inl e, s)"
  by (simp add: require_def)

lemma lift_result_apply [simp]: "lift_result r s = (r, s)"
  by (simp add: lift_result_def)

lemma bindE_Inr: "m s = (Inr x, t) \<Longrightarrow> bindE m f s = f x t"
  by (simp add: bindE_def)

lemma bindE_Inl: "m s = (Inl e, t) \<Longrightarrow> bindE m f s = (Inl e, t)"
  by (simp add: bindE_def)

lemma bindE_primitive [simp]:
  "bindE (return_ok x) f s = f x s"
  "bindE (fail_with e) f s = (Inl e, s)"
  "bindE (reads g) f s = f (g s) s"
  "bindE (writes h) f' s = f' () (h s)"
  "bindE (require b e) f'' s = (if b then f'' () s else (Inl e, s))"
  "bindE (lift_result r) f s = (case r of Inl e \<Rightarrow> (Inl e, s) | Inr x \<Rightarrow> f x s)"
  by (simp_all add: bindE_def split: sum.splits)

lemma bindE_assoc: "bindE (bindE m f) g = bindE m (\<lambda>x. bindE (f x) g)"
  by (auto simp: bindE_def fun_eq_iff split: prod.splits sum.splits)

lemma bindE_InrE [elim]:
  assumes "bindE m f s = (Inr y, u)"
  obtains x t where "m s = (Inr x, t)" and "f x t = (Inr y, u)"
  using assms by (auto simp: bindE_def split: prod.splits sum.splits)

lemma thenE_InrE [elim]:
  assumes "thenE m k s = (Inr y, u)"
  obtains x t where "m s = (Inr x, t)" and "k t = (Inr y, u)"
  using assms by (auto simp: thenE_def)

lemma bindE_cases [consumes 1, case_names stop go]:
  assumes "bindE m f s = (r, u)"
  obtains e where "m s = (Inl e, u)" and "r = Inl e"
    | x t where "m s = (Inr x, t)" and "f x t = (r, u)"
  using assms by (auto simp: bindE_def split: prod.splits sum.splits)

section \<open>Triples\<close>

text \<open>
  \<open>valid P m Q E\<close>: run from a state that satisfies \<open>P\<close>, the action either returns
  \<open>x\<close> in a state with \<open>Q x\<close>, or fails with \<open>e\<close> in a state with \<open>E e\<close>. An
  action is a total function, so there is no third outcome.
\<close>

definition valid ::
  "('s \<Rightarrow> bool) \<Rightarrow> ('s, 'e, 'a) action \<Rightarrow> ('a \<Rightarrow> 's \<Rightarrow> bool) \<Rightarrow> ('e \<Rightarrow> 's \<Rightarrow> bool) \<Rightarrow> bool" where
  "valid P m Q E \<longleftrightarrow>
     (\<forall>s. P s \<longrightarrow> (case m s of (Inl e, t) \<Rightarrow> E e t | (Inr x, t) \<Rightarrow> Q x t))"

definition preserves :: "('s \<Rightarrow> bool) \<Rightarrow> ('s, 'e, 'a) action \<Rightarrow> bool" where
  "preserves I m \<longleftrightarrow> (\<forall>s. I s \<longrightarrow> I (snd (m s)))"

lemma validI:
  assumes "\<And>s x t. P s \<Longrightarrow> m s = (Inr x, t) \<Longrightarrow> Q x t"
    and "\<And>s e t. P s \<Longrightarrow> m s = (Inl e, t) \<Longrightarrow> E e t"
  shows "valid P m Q E"
  using assms by (auto simp: valid_def split: prod.splits sum.splits)

lemma validD:
  assumes "valid P m Q E" "P s" "m s = (Inr x, t)"
  shows "Q x t"
  using assms by (auto simp: valid_def)

lemma validD_error:
  assumes "valid P m Q E" "P s" "m s = (Inl e, t)"
  shows "E e t"
  using assms by (auto simp: valid_def)

lemma valid_weaken:
  assumes "valid P m Q E" "\<And>s. P' s \<Longrightarrow> P s" "\<And>x s. Q x s \<Longrightarrow> Q' x s" "\<And>e s. E e s \<Longrightarrow> E' e s"
  shows "valid P' m Q' E'"
  using assms by (fastforce simp: valid_def split: prod.splits sum.splits)

lemma valid_bindE [valid_intros]:
  assumes m: "valid P m R E" and f: "\<And>x. valid (R x) (f x) Q E"
  shows "valid P (bindE m f) Q E"
proof (rule validI)
  fix s y u assume "P s" "bindE m f s = (Inr y, u)"
  then obtain x t where "m s = (Inr x, t)" "f x t = (Inr y, u)" by blast
  with \<open>P s\<close> show "Q y u" by (blast intro: validD [OF f] validD [OF m])
next
  fix s e u assume "P s" and "bindE m f s = (Inl e, u)"
  from this(2) show "E e u"
    by (cases rule: bindE_cases)
      (use \<open>P s\<close> in \<open>auto intro: validD_error [OF m] validD_error [OF f] validD [OF m]\<close>)
qed

lemma preservesI: "(\<And>s. I s \<Longrightarrow> I (snd (m s))) \<Longrightarrow> preserves I m"
  by (simp add: preserves_def)

lemma preservesD: "preserves I m \<Longrightarrow> I s \<Longrightarrow> m s = (r, t) \<Longrightarrow> I t"
  by (metis preserves_def snd_conv)

lemma preserves_bindE [valid_intros]:
  assumes "preserves I m" "\<And>x. preserves I (f x)"
  shows "preserves I (bindE m f)"
  using assms by (auto simp: preserves_def bindE_def split: prod.splits sum.splits)

lemma preserves_bindE_value:
  assumes "preserves I m" "\<And>s x t. m s = (Inr x, t) \<Longrightarrow> preserves I (f x)"
  shows "preserves I (bindE m f)"
proof (rule preservesI)
  fix s assume I: "I s"
  obtain r t where m: "m s = (r, t)" by (cases "m s")
  then have "I t" by (rule preservesD [OF assms(1) I])
  with m assms(2) [of s _ t] show "I (snd (bindE m f s))"
    by (cases r) (auto simp: bindE_def preserves_def)
qed

lemma preserves_thenE [valid_intros]:
  "preserves I m \<Longrightarrow> preserves I k \<Longrightarrow> preserves I (thenE m k)"
  by (simp add: thenE_def preserves_bindE)

lemma preserves_catchE [valid_intros]:
  assumes "preserves I m" "\<And>e. preserves I (h e)"
  shows "preserves I (catchE m h)"
  using assms by (auto simp: preserves_def catchE_def split: prod.splits sum.splits)

lemma preserves_pure [valid_intros]:
  "preserves I (return_ok x)" "preserves I (fail_with e)" "preserves I (reads f)"
  "preserves I (require b e)" "preserves I (lift_result r)"
  by (simp_all add: preserves_def)

lemma preserves_writes: "(\<And>s. I s \<Longrightarrow> I (f s)) \<Longrightarrow> preserves I (writes f)"
  by (simp add: preserves_def)

lemma preserves_if [valid_intros]:
  "preserves I m \<Longrightarrow> preserves I k \<Longrightarrow> preserves I (if b then m else k)"
  by simp

lemma preserves_case_option [valid_intros]:
  "preserves I m \<Longrightarrow> (\<And>x. preserves I (f x)) \<Longrightarrow> preserves I (case v of None \<Rightarrow> m | Some x \<Rightarrow> f x)"
  by (cases v) simp_all

lemma preserves_case_sum [valid_intros]:
  "(\<And>x. preserves I (f x)) \<Longrightarrow> (\<And>x. preserves I (g x)) \<Longrightarrow>
   preserves I (case v of Inl x \<Rightarrow> f x | Inr x \<Rightarrow> g x)"
  by (cases v) simp_all

lemma preserves_forE [valid_intros]:
  "(\<And>x. preserves I (f x)) \<Longrightarrow> preserves I (forE xs f)"
  by (induction xs) (simp_all add: preserves_pure preserves_bindE)

lemma preserves_foldE [valid_intros]:
  "(\<And>b x. preserves I (f b x)) \<Longrightarrow> preserves I (foldE f b xs)"
  by (induction xs arbitrary: b) (simp_all add: preserves_pure preserves_bindE)

section \<open>Tables\<close>

definition find_row :: "('r \<Rightarrow> 'k) \<Rightarrow> 'k \<Rightarrow> 'r list \<Rightarrow> 'r option" where
  "find_row key k rows = find (\<lambda>r. key r = k) rows"

definition update_where :: "('r \<Rightarrow> bool) \<Rightarrow> ('r \<Rightarrow> 'r) \<Rightarrow> 'r list \<Rightarrow> 'r list" where
  "update_where p f rows = map (\<lambda>r. if p r then f r else r) rows"

definition delete_where :: "('r \<Rightarrow> bool) \<Rightarrow> 'r list \<Rightarrow> 'r list" where
  "delete_where p rows = filter (\<lambda>r. \<not> p r) rows"

lemma find_row_simps [simp]:
  "find_row key k [] = None"
  "find_row key k (r # rows) = (if key r = k then Some r else find_row key k rows)"
  by (simp_all add: find_row_def)

lemma find_row_SomeD: "find_row key k rows = Some r \<Longrightarrow> r \<in> set rows \<and> key r = k"
  by (auto simp: find_row_def find_Some_iff)

lemma find_row_None: "find_row key k rows = None \<longleftrightarrow> k \<notin> key ` set rows"
  by (induction rows) auto

lemma find_row_distinct:
  "distinct (map key rows) \<Longrightarrow> r \<in> set rows \<Longrightarrow> find_row key (key r) rows = Some r"
  by (induction rows) (auto simp: rev_image_eqI)

lemma find_row_append:
  "find_row key k (rows @ [r]) =
     (case find_row key k rows of None \<Rightarrow> (if key r = k then Some r else None) | Some x \<Rightarrow> Some x)"
  by (induction rows) auto

lemma update_where_simps [simp]:
  "update_where p f [] = []"
  "update_where p f (r # rows) = (if p r then f r else r) # update_where p f rows"
  by (simp_all add: update_where_def)

lemma length_update_where [simp]: "length (update_where p f rows) = length rows"
  by (simp add: update_where_def)

lemma set_update_where:
  "set (update_where p f rows) = {r \<in> set rows. \<not> p r} \<union> f ` {r \<in> set rows. p r}"
  by (auto simp: update_where_def)

lemma update_where_keys [simp]:
  assumes "\<And>r. key (f r) = key r"
  shows "map key (update_where p f rows) = map key rows"
  using assms by (simp add: update_where_def)

lemma update_where_none: "(\<And>r. r \<in> set rows \<Longrightarrow> \<not> p r) \<Longrightarrow> update_where p f rows = rows"
  by (induction rows) auto

lemma find_row_update_where:
  assumes "\<And>r. key (f r) = key r"
  shows "find_row key k (update_where p f rows) =
    map_option (\<lambda>r. if p r then f r else r) (find_row key k rows)"
  using assms by (induction rows) auto

lemma delete_where_simps [simp]:
  "delete_where p [] = []"
  "delete_where p (r # rows) = (if p r then delete_where p rows else r # delete_where p rows)"
  by (simp_all add: delete_where_def)

lemma set_delete_where [simp]: "set (delete_where p rows) = {r \<in> set rows. \<not> p r}"
  by (auto simp: delete_where_def)

lemma distinct_map_delete_where: "distinct (map key rows) \<Longrightarrow> distinct (map key (delete_where p rows))"
  by (induction rows) auto

lemma filter_eq_length_le_one:
  assumes "length (filter p xs) \<le> 1" "x \<in> set xs" "y \<in> set xs" "p x" "p y"
  shows "x = y"
proof -
  have "x \<in> set (filter p xs)" "y \<in> set (filter p xs)" using assms by auto
  with assms(1) show ?thesis by (cases "filter p xs") auto
qed

section \<open>Stable sorting\<close>

text \<open>
  \<open>ORDER BY k\<close>, \<open>sort.SliceStable\<close> and the like: the library's \<open>sort_key\<close>, which keeps
  the order of rows with equal keys. SQL promises nothing about ties; the table order is one
  of the orders a database may return.
\<close>

lemma order_by_facts:
  "set (sort_key k xs) = set xs"
  "length (sort_key k xs) = length xs"
  "mset (sort_key k xs) = mset xs"
  "sorted (map k (sort_key k xs))"
  by simp_all

lemma insort_key_map:
  assumes "\<And>x. key (f x) = key x"
  shows "insort_key key (f x) (map f xs) = map f (insort_key key x xs)"
  by (induction xs) (simp_all add: assms)

lemma sort_key_map:
  assumes "\<And>x. key (f x) = key x"
  shows "sort_key key (map f xs) = map f (sort_key key xs)"
  by (induction xs) (simp_all add: insort_key_map [where key = key and f = f, OF assms])

lemma filter_map_keep:
  assumes "\<And>x. x \<in> set xs \<Longrightarrow> P (f x) = P x"
  shows "filter P (map f xs) = map f (filter P xs)"
  using assms by (induction xs) auto

lemma sum_list_update_int:
  fixes f :: "'a \<Rightarrow> int"
  shows "i < length xs \<Longrightarrow> (\<Sum>x\<leftarrow>xs[i := y]. f x) = (\<Sum>x\<leftarrow>xs. f x) + f y - f (xs ! i)"
  by (induction xs arbitrary: i) (auto split: nat.split)

end
