(* ===== verification/Clock.thy ===== *)
theory Clock
  imports Prelude "HOL-Library.List_Lexorder" "HOL-Library.Char_ord"
begin

text \<open>
  \<open>internal/platform/clock\<close> and the parts of Go's \<open>time\<close> package the code uses.

  An instant (\<open>time.Time\<close>) is the number of nanoseconds since the Unix epoch and a
  \<open>time.Duration\<close> a number of nanoseconds; \<open>Before\<close>, \<open>After\<close>, \<open>Equal\<close>, \<open>Add\<close> and \<open>Sub\<close>
  are the order and the arithmetic of the integers. \<open>clock.BusinessLocation\<close> is the fixed
  offset UTC+5 the source names (Asia/Dushanbe has had no other since 1991, the years any
  booking falls in). Calendar dates are computed in the proleptic Gregorian calendar, as
  \<open>Time.Date\<close> and \<open>time.Date\<close> do; the lemmas show that the two conversions are inverse, so
  day bounds, weekdays and wall-clock times are what the source's comments promise.
\<close>

type_synonym time = int
type_synonym duration = int

section \<open>Durations and local time\<close>

definition Second :: duration where "Second = 1000000000"
definition Minute :: duration where "Minute = 60 * Second"
definition Hour :: duration where "Hour = 60 * Minute"
definition Day :: duration where "Day = 24 * Hour"

lemmas duration_defs = Second_def Minute_def Hour_def Day_def

text \<open>Go's zero \<open>time.Time\<close>, 1 January of year 1 UTC.\<close>

definition ZeroTime :: time where "ZeroTime = - 62135596800 * Second"

definition BusinessLocation :: duration where
  "BusinessLocation = 5 * Hour"

definition local_day :: "time \<Rightarrow> int" where
  "local_day t = (t + BusinessLocation) div Day"

definition local_clock :: "time \<Rightarrow> duration" where
  "local_clock t = (t + BusinessLocation) mod Day"

lemma local_split: "local_day t * Day + local_clock t = t + BusinessLocation"
  by (simp add: local_day_def local_clock_def)

lemma Day_pos: "0 < Day"
  by (simp add: duration_defs)

lemma local_clock_bounds: "0 \<le> local_clock t" "local_clock t < Day"
  using Day_pos by (simp_all add: local_clock_def)

lemma local_day_of_clock:
  assumes "0 \<le> c" "c < Day"
  shows "local_day (n * Day + c - BusinessLocation) = n"
    and "local_clock (n * Day + c - BusinessLocation) = c"
  using assms by (simp_all add: local_day_def local_clock_def)

section \<open>The calendar\<close>

definition days_from_civil :: "int \<Rightarrow> int \<Rightarrow> int \<Rightarrow> int" where
  "days_from_civil y m d =
     (let y' = (if m \<le> 2 then y - 1 else y);
          era = y' div 400;
          yoe = y' mod 400;
          mp = (if m > 2 then m - 3 else m + 9);
          doy = (153 * mp + 2) div 5 + d - 1;
          doe = yoe * 365 + yoe div 4 - yoe div 100 + doy
      in era * 146097 + doe - 719468)"

definition civil_from_days :: "int \<Rightarrow> int \<times> int \<times> int" where
  "civil_from_days n =
     (let z = n + 719468;
          era = z div 146097;
          doe = z mod 146097;
          yoe = (doe - doe div 1460 + doe div 36524 - doe div 146096) div 365;
          doy = doe - (365 * yoe + yoe div 4 - yoe div 100);
          mp = (5 * doy + 2) div 153;
          d = doy - (153 * mp + 2) div 5 + 1;
          m = (if mp < 10 then mp + 3 else mp - 9);
          y = yoe + era * 400
      in (if m \<le> 2 then y + 1 else y, m, d))"

text \<open>The year of the era and the day of that year stay within their ranges.\<close>


lemma div_bounds:
  fixes x k :: int
  assumes "0 < k"
  shows "k * (x div k) \<le> x \<and> x < k * (x div k) + k"
  using assms
  by (metis add_strict_left_mono le_add_same_cancel1 mult_div_mod_eq pos_mod_bound pos_mod_sign)

lemma era_year_bounds:
  fixes doe :: int
  assumes "0 \<le> doe" "doe < 146097"
  defines "yoe \<equiv> (doe - doe div 1460 + doe div 36524 - doe div 146096) div 365"
  shows "0 \<le> yoe" "yoe < 400"
    "0 \<le> doe - (365 * yoe + yoe div 4 - yoe div 100)"
    "doe - (365 * yoe + yoe div 4 - yoe div 100) \<le> 365"
proof -
  define a b c where "a = doe div 1460" and "b = doe div 36524" and "c = doe div 146096"
  note a = div_bounds [of 1460 doe, folded a_def, simplified]
    and b = div_bounds [of 36524 doe, folded b_def, simplified]
    and c = div_bounds [of 146096 doe, folded c_def, simplified]
  have y: "365 * yoe \<le> doe - a + b - c \<and> doe - a + b - c < 365 * yoe + 365"
    using div_bounds [of 365 "doe - a + b - c"] by (simp add: yoe_def a_def b_def c_def)
  define q h where "q = yoe div 4" and "h = yoe div 100"
  note q = div_bounds [of 4 yoe, folded q_def, simplified]
    and h = div_bounds [of 100 yoe, folded h_def, simplified]
  have cb: "c = 0 \<or> c = 1" using c assms(1,2) by linarith
  have bb: "b = 0 \<or> b = 1 \<or> b = 2 \<or> b = 3 \<or> b = 4" using b assms(1,2) by linarith
  show y0: "0 \<le> yoe" using y a b c assms(1,2) cb bb by linarith
  show y4: "yoe < 400" using y a b c assms(1,2) cb bb by linarith
  have hb: "h = 0 \<or> h = 1 \<or> h = 2 \<or> h = 3" using h y0 y4 by linarith
  have "0 \<le> doe - (365 * yoe + q - h)"
    using a b c y q h cb bb hb assms(1,2) by (elim disjE; linarith)
  then show "0 \<le> doe - (365 * yoe + yoe div 4 - yoe div 100)" by (simp add: q_def h_def)
  have "doe - (365 * yoe + q - h) \<le> 365"
    using a b c y q h cb bb hb assms(1,2) by (elim disjE; linarith)
  then show "doe - (365 * yoe + yoe div 4 - yoe div 100) \<le> 365" by (simp add: q_def h_def)
qed

lemma month_of_doy:
  fixes doy :: int
  assumes "0 \<le> doy" "doy \<le> 366"
  shows "0 \<le> (5 * doy + 2) div 153" "(5 * doy + 2) div 153 \<le> 11"
    "1 \<le> doy - (153 * ((5 * doy + 2) div 153) + 2) div 5 + 1"
    "doy - (153 * ((5 * doy + 2) div 153) + 2) div 5 + 1 \<le> 31"
proof -
  define mp where "mp = (5 * doy + 2) div 153"
  note mp = div_bounds [of 153 "5 * doy + 2", folded mp_def, simplified]
  define k where "k = (153 * mp + 2) div 5"
  note k = div_bounds [of 5 "153 * mp + 2", folded k_def, simplified]
  show "0 \<le> (5 * doy + 2) div 153" "(5 * doy + 2) div 153 \<le> 11"
    using mp assms unfolding mp_def [symmetric] by linarith+
  show "1 \<le> doy - (153 * ((5 * doy + 2) div 153) + 2) div 5 + 1"
    "doy - (153 * ((5 * doy + 2) div 153) + 2) div 5 + 1 \<le> 31"
    using mp k assms unfolding mp_def [symmetric] k_def [symmetric] by linarith+
qed

text \<open>Year, month and day determine the day number: \<open>time.Date\<close> undoes \<open>Time.Date\<close>.\<close>

lemma days_civil_inverse:
  assumes "civil_from_days n = (y, m, d)"
  shows "days_from_civil y m d = n" "1 \<le> m" "m \<le> 12" "1 \<le> d" "d \<le> 31"
proof -
  define z where "z = n + 719468"
  define era doe where "era = z div 146097" and "doe = z mod 146097"
  have doe: "0 \<le> doe" "doe < 146097" by (simp_all add: doe_def)
  define yoe where "yoe = (doe - doe div 1460 + doe div 36524 - doe div 146096) div 365"
  define doy where "doy = doe - (365 * yoe + yoe div 4 - yoe div 100)"
  define mp where "mp = (5 * doy + 2) div 153"
  have yoe: "0 \<le> yoe" "yoe < 400" and doy: "0 \<le> doy" "doy \<le> 366"
    using era_year_bounds [OF doe, folded yoe_def, folded doy_def] by linarith+
  have mp: "0 \<le> mp" "mp \<le> 11" using month_of_doy(1,2) [OF doy, folded mp_def] .
  have civil: "m = (if mp < 10 then mp + 3 else mp - 9)"
    "d = doy - (153 * mp + 2) div 5 + 1"
    "y = (if m \<le> 2 then yoe + era * 400 + 1 else yoe + era * 400)"
    using assms unfolding civil_from_days_def Let_def z_def [symmetric] era_def [symmetric]
      doe_def [symmetric] yoe_def [symmetric] doy_def [symmetric] mp_def [symmetric]
    by (auto split: if_splits)
  show "1 \<le> m" "m \<le> 12" using civil(1) mp by auto
  show "1 \<le> d" "d \<le> 31" using month_of_doy(3,4) [OF doy, folded mp_def] unfolding civil(2) .
  have y': "(if m \<le> 2 then y - 1 else y) = yoe + era * 400" using civil(3) by simp
  have mp': "(if m > 2 then m - 3 else m + 9) = mp" using civil(1) mp by auto
  have "(yoe + era * 400) div 400 = era" "(yoe + era * 400) mod 400 = yoe" using yoe by simp_all
  then have "days_from_civil y m d = era * 146097 + (yoe * 365 + yoe div 4 - yoe div 100 + doy) - 719468"
    unfolding days_from_civil_def y' mp' Let_def using civil(2) by simp
  also have "\<dots> = era * 146097 + doe - 719468" by (simp add: doy_def)
  also have "\<dots> = n" by (simp add: era_def doe_def z_def)
  finally show "days_from_civil y m d = n" .
qed

lemma days_from_civil_shift: "days_from_civil y m (d + k) = days_from_civil y m d + k"
  by (simp add: days_from_civil_def Let_def)

lemma civil_example: "civil_from_days 20671 = (2026, 8, 6)"
  by code_simp

section \<open>Wall-clock instants\<close>

text \<open>\<open>time.Date(y, m, d, hour, min, 0, 0, clock.BusinessLocation)\<close>.\<close>

definition time_Date :: "int \<Rightarrow> int \<Rightarrow> int \<Rightarrow> int \<Rightarrow> int \<Rightarrow> time" where
  "time_Date y m d hour mi =
     days_from_civil y m d * Day + hour * Hour + mi * Minute - BusinessLocation"

text \<open>\<open>t.AddDate(0, 0, n)\<close> for \<open>t\<close> in \<open>clock.BusinessLocation\<close>: same wall clock, \<open>n\<close> days later.\<close>

definition AddDate_days :: "time \<Rightarrow> int \<Rightarrow> time" where
  "AddDate_days t n =
     (let (y, m, d) = civil_from_days (local_day t)
      in days_from_civil y m (d + n) * Day + local_clock t - BusinessLocation)"

text \<open>\<open>t.In(clock.BusinessLocation).Weekday()\<close>, 0 = Sunday.\<close>

definition Weekday :: "time \<Rightarrow> int" where
  "Weekday t = (local_day t + 4) mod 7"

definition local_Hour :: "time \<Rightarrow> int" where
  "local_Hour t = local_clock t div Hour"

definition DayBounds :: "time \<Rightarrow> time \<times> time" where
  "DayBounds day =
     (let (y, m, d) = civil_from_days (local_day day);
          start = time_Date y m d 0 0
      in (start, AddDate_days start 1))"

lemma time_Date_civil:
  "civil_from_days n = (y, m, d) \<Longrightarrow>
   time_Date y m d hour mi = n * Day + (hour * Hour + mi * Minute) - BusinessLocation"
  by (simp add: time_Date_def days_civil_inverse(1))

lemma AddDate_days_eq: "AddDate_days t n = t + n * Day"
proof -
  obtain y m d where c: "civil_from_days (local_day t) = (y, m, d)" by (metis prod_cases3)
  have "AddDate_days t n = (local_day t + n) * Day + local_clock t - BusinessLocation"
    by (simp add: AddDate_days_def c days_from_civil_shift days_civil_inverse(1) [OF c])
  then show ?thesis using local_split [of t] by (simp add: algebra_simps)
qed

lemma DayBounds_eq:
  "DayBounds t = (local_day t * Day - BusinessLocation, (local_day t + 1) * Day - BusinessLocation)"
proof -
  obtain y m d where c: "civil_from_days (local_day t) = (y, m, d)" by (metis prod_cases3)
  show ?thesis
    unfolding DayBounds_def c Let_def prod.case time_Date_civil [OF c] AddDate_days_eq
    by (simp add: distrib_right)
qed

lemma DayBounds_day:
  assumes "DayBounds t = (s, e)"
  shows "s \<le> t" "t < e" "e = s + Day" "local_clock s = 0" "local_day s = local_day t"
    and "s \<le> u \<Longrightarrow> u < e \<Longrightarrow> local_day u = local_day t"
proof -
  have se: "s = local_day t * Day - BusinessLocation" "e = (local_day t + 1) * Day - BusinessLocation"
    using assms by (simp_all add: DayBounds_eq)
  show "s \<le> t" "t < e"
    using se local_split [of t] local_clock_bounds [of t] by (simp_all add: algebra_simps)
  show "e = s + Day" using se by (simp add: algebra_simps)
  show "local_clock s = 0" "local_day s = local_day t"
    using local_day_of_clock [of 0 "local_day t"] Day_pos se by simp_all
  assume "s \<le> u" "u < e"
  then have "0 \<le> u - s" "u - s < Day" using \<open>e = s + Day\<close> by simp_all
  then show "local_day u = local_day t"
    using local_day_of_clock(1) [of "u - s" "local_day t"] se by simp
qed

lemma Weekday_range: "0 \<le> Weekday t \<and> Weekday t < 7"
  by (simp add: Weekday_def)

lemma Weekday_same_day: "local_day s = local_day t \<Longrightarrow> Weekday s = Weekday t"
  by (simp add: Weekday_def)

section \<open>Wall-clock strings\<close>

text \<open>
  The weekday schedules store times of day as \<open>"HH:MM"\<close>. \<open>timeFormatRegexp\<close> is
  \<open>^([01][0-9]|2[0-3]):[0-5][0-9]$\<close>; \<open>parse_15_04\<close> is \<open>time.Parse("15:04", s)\<close>, which also
  accepts a one-digit hour.
\<close>

definition digit_value :: "char \<Rightarrow> int" where
  "digit_value c = int (of_char c) - 48"

definition is_digit :: "char \<Rightarrow> bool" where
  "is_digit c \<longleftrightarrow> 0 \<le> digit_value c \<and> digit_value c \<le> 9"

fun timeFormatRegexp :: "string \<Rightarrow> bool" where
  "timeFormatRegexp [a, b, c, d, e] \<longleftrightarrow>
     is_digit a \<and> is_digit b \<and>
     (digit_value a \<le> 1 \<or> digit_value a = 2 \<and> digit_value b \<le> 3) \<and>
     c = CHR '':'' \<and> is_digit d \<and> digit_value d \<le> 5 \<and> is_digit e"
| "timeFormatRegexp _ \<longleftrightarrow> False"

fun parse_hour :: "string \<Rightarrow> (int \<times> string) option" where
  "parse_hour (a # b # rest) =
     (if \<not> is_digit a then None
      else if is_digit b
           then (let h = 10 * digit_value a + digit_value b in if h < 24 then Some (h, rest) else None)
           else Some (digit_value a, b # rest))"
| "parse_hour [a] = (if is_digit a then Some (digit_value a, []) else None)"
| "parse_hour [] = None"

fun parse_minute :: "string \<Rightarrow> int option" where
  "parse_minute [d, e] =
     (if is_digit d \<and> is_digit e \<and> 10 * digit_value d + digit_value e < 60
      then Some (10 * digit_value d + digit_value e) else None)"
| "parse_minute _ = None"

definition parse_15_04 :: "string \<Rightarrow> (int \<times> int) option" where
  "parse_15_04 s =
     (case parse_hour s of
        Some (h, c # rest) \<Rightarrow>
          (if c = CHR '':'' then map_option (\<lambda>mi. (h, mi)) (parse_minute rest) else None)
      | _ \<Rightarrow> None)"

definition clock_minutes :: "int \<times> int \<Rightarrow> int" where
  "clock_minutes hm = 60 * fst hm + snd hm"

lemma timeFormatRegexpE:
  assumes "timeFormatRegexp s"
  obtains a b d e where "s = [a, b, CHR '':'', d, e]"
    and "0 \<le> digit_value a" "0 \<le> digit_value b" "digit_value b \<le> 9"
    and "0 \<le> digit_value d" "digit_value d \<le> 5" "0 \<le> digit_value e" "digit_value e \<le> 9"
    and "10 * digit_value a + digit_value b < 24"
    and "parse_15_04 s = Some (10 * digit_value a + digit_value b, 10 * digit_value d + digit_value e)"
proof -
  from assms obtain a b d e where s: "s = [a, b, CHR '':'', d, e]"
    and f: "is_digit a" "is_digit b" "digit_value a \<le> 1 \<or> digit_value a = 2 \<and> digit_value b \<le> 3"
      "is_digit d" "digit_value d \<le> 5" "is_digit e"
    by (cases s rule: timeFormatRegexp.cases) auto
  have "10 * digit_value a + digit_value b < 24" "10 * digit_value d + digit_value e < 60"
    using f by (auto simp: is_digit_def)
  with f have "parse_15_04 s = Some (10 * digit_value a + digit_value b, 10 * digit_value d + digit_value e)"
    by (simp add: s parse_15_04_def)
  with that [OF s] f \<open>10 * digit_value a + digit_value b < 24\<close> show ?thesis
    by (simp add: is_digit_def)
qed

text \<open>A string the schedule accepts parses, to a time of day within the day.\<close>

lemma timeFormat_parses:
  assumes "timeFormatRegexp s"
  obtains h mi where "parse_15_04 s = Some (h, mi)" "0 \<le> h" "h < 24" "0 \<le> mi" "mi < 60"
  using assms
proof (rule timeFormatRegexpE)
  fix a b d e
  assume "0 \<le> digit_value a" "0 \<le> digit_value b" "0 \<le> digit_value d" "digit_value d \<le> 5"
    "0 \<le> digit_value e" "digit_value e \<le> 9" "10 * digit_value a + digit_value b < 24"
    "parse_15_04 s = Some (10 * digit_value a + digit_value b, 10 * digit_value d + digit_value e)"
  then show thesis by (intro that [of "10 * digit_value a + digit_value b" "10 * digit_value d + digit_value e"]) auto
qed

lemma char_less_digit: "c < d \<longleftrightarrow> digit_value c < digit_value d"
  by (simp add: less_char_def digit_value_def)

lemma digit_value_inject: "digit_value c = digit_value d \<longleftrightarrow> c = d"
  by (simp add: digit_value_def)

lemma lex_order_10:
  fixes a b a' b' :: int
  assumes "0 \<le> b" "b \<le> 9" "0 \<le> b'" "b' \<le> 9"
  shows "10 * a + b < 10 * a' + b' \<longleftrightarrow> a < a' \<or> a = a' \<and> b < b'"
    and "10 * a + b = 10 * a' + b' \<longleftrightarrow> a = a' \<and> b = b'"
  using assms by (cases a a' rule: linorder_cases; auto)+

lemma lex_order_60:
  fixes h m h' m' :: int
  assumes "0 \<le> m" "m < 60" "0 \<le> m'" "m' < 60"
  shows "60 * h + m < 60 * h' + m' \<longleftrightarrow> h < h' \<or> h = h' \<and> m < m'"
    and "60 * h + m = 60 * h' + m' \<longleftrightarrow> h = h' \<and> m = m'"
  using assms by (cases h h' rule: linorder_cases; auto)+

text \<open>
  The schedule compares times as strings. On well-formed strings this is the order of the
  times of day.
\<close>

lemma timeFormat_order:
  assumes "timeFormatRegexp s" "timeFormatRegexp t"
    and "parse_15_04 s = Some p" "parse_15_04 t = Some q"
  shows "s < t \<longleftrightarrow> clock_minutes p < clock_minutes q"
    and "s \<le> t \<longleftrightarrow> clock_minutes p \<le> clock_minutes q"
proof -
  obtain a b d e where s: "s = [a, b, CHR '':'', d, e]"
    and f: "0 \<le> digit_value a" "0 \<le> digit_value b" "digit_value b \<le> 9"
      "0 \<le> digit_value d" "digit_value d \<le> 5" "0 \<le> digit_value e" "digit_value e \<le> 9"
    and ps: "parse_15_04 s = Some (10 * digit_value a + digit_value b, 10 * digit_value d + digit_value e)"
    by (rule timeFormatRegexpE [OF assms(1)]) blast
  obtain a' b' d' e' where t: "t = [a', b', CHR '':'', d', e']"
    and g: "0 \<le> digit_value a'" "0 \<le> digit_value b'" "digit_value b' \<le> 9"
      "0 \<le> digit_value d'" "digit_value d' \<le> 5" "0 \<le> digit_value e'" "digit_value e' \<le> 9"
    and pt: "parse_15_04 t = Some (10 * digit_value a' + digit_value b', 10 * digit_value d' + digit_value e')"
    by (rule timeFormatRegexpE [OF assms(2)]) blast
  have m: "0 \<le> 10 * digit_value d + digit_value e" "10 * digit_value d + digit_value e < 60"
    "0 \<le> 10 * digit_value d' + digit_value e'" "10 * digit_value d' + digit_value e' < 60"
    using f g by auto
  have p: "clock_minutes p = 60 * (10 * digit_value a + digit_value b) + (10 * digit_value d + digit_value e)"
    and q: "clock_minutes q = 60 * (10 * digit_value a' + digit_value b') + (10 * digit_value d' + digit_value e')"
    using assms(3,4) unfolding ps pt by (auto simp: clock_minutes_def)
  have less: "clock_minutes p < clock_minutes q \<longleftrightarrow> s < t"
    unfolding p q lex_order_60 [OF m] lex_order_10 [OF f(2,3) g(2,3)] lex_order_10 [OF f(6,7) g(6,7)]
    by (simp add: s t char_less_digit digit_value_inject conj_disj_distribL conj_assoc)
  have eq: "clock_minutes p = clock_minutes q \<longleftrightarrow> s = t"
    unfolding p q lex_order_60 [OF m] lex_order_10 [OF f(2,3) g(2,3)] lex_order_10 [OF f(6,7) g(6,7)]
    by (simp add: s t digit_value_inject)
  show "s < t \<longleftrightarrow> clock_minutes p < clock_minutes q" using less by simp
  show "s \<le> t \<longleftrightarrow> clock_minutes p \<le> clock_minutes q" using less eq by (auto simp: le_less)
qed

end
