(* ===== verification/GoStrings.thy ===== *)
theory GoStrings
  imports Clock
begin

text \<open>
  The parts of Go's \<open>strings\<close>, \<open>strconv\<close> and \<open>fmt\<close> packages the code uses. A Go string
  is a sequence of bytes and \<open>len\<close> counts bytes, so a string is a list of 8-bit characters
  and a Cyrillic letter is the two bytes of its UTF-8 form. \<open>ToLower\<close> and \<open>ToUpper\<close>
  change the ASCII letters only, where Go's also change those beyond; the source applies them to
  login names, file extensions, sticker codes and searches. No property depends on which login names
  share a lockout key; the lower-casing of the slugs, which sees more, is in \<open>Provision\<close>.
\<close>

section \<open>Trimming\<close>

text \<open>The UTF-8 encodings of the characters \<open>unicode.IsSpace\<close> accepts.\<close>

definition space_encodings :: "string list" where
  "space_encodings =
     map (\<lambda>c. [c]) [CHR 0x09, CHR 0x0A, CHR 0x0B, CHR 0x0C, CHR 0x0D, CHR 0x20] @
     [[CHR 0xC2, CHR 0x85], [CHR 0xC2, CHR 0xA0], [CHR 0xE1, CHR 0x9A, CHR 0x80]] @
     map (\<lambda>n. [CHR 0xE2, CHR 0x80, char_of (n::nat)])
       [0x80, 0x81, 0x82, 0x83, 0x84, 0x85, 0x86, 0x87, 0x88, 0x89, 0x8A, 0xA8, 0xA9, 0xAF] @
     [[CHR 0xE2, CHR 0x81, CHR 0x9F], [CHR 0xE3, CHR 0x80, CHR 0x80]]"

definition take_space :: "string \<Rightarrow> string \<Rightarrow> bool" where
  "take_space s w \<longleftrightarrow> w \<noteq> [] \<and> take (length w) s = w"

function TrimLeftSpace :: "string list \<Rightarrow> string \<Rightarrow> string" where
  "TrimLeftSpace ws s =
     (case find (take_space s) ws of
        None \<Rightarrow> s
      | Some w \<Rightarrow> TrimLeftSpace ws (drop (length w) s))"
  by pat_completeness auto
termination
proof (relation "measure (length \<circ> snd)")
  fix ws s w
  assume "find (take_space s) ws = Some w"
  then have "take_space s w" by (auto simp: find_Some_iff)
  then show "((ws, drop (length w) s), ws, s) \<in> measure (length \<circ> snd)"
    by (cases s) (auto simp: take_space_def)
qed simp

declare TrimLeftSpace.simps [simp del]

definition TrimSpace :: "string \<Rightarrow> string" where
  "TrimSpace s = rev (TrimLeftSpace (map rev space_encodings) (rev (TrimLeftSpace space_encodings s)))"

lemma TrimLeftSpace_suffix: "suffix (TrimLeftSpace ws s) s"
proof (induction ws s rule: TrimLeftSpace.induct)
  case (1 ws s)
  show ?case
    by (subst TrimLeftSpace.simps)
      (auto split: option.splits intro: suffix_order.trans [OF "1.IH" suffix_drop])
qed

lemma TrimLeftSpace_length: "length (TrimLeftSpace ws s) \<le> length s"
  by (rule suffix_length_le [OF TrimLeftSpace_suffix])

lemma TrimLeftSpace_stop: "find (take_space (TrimLeftSpace ws s)) ws = None"
proof (induction ws s rule: TrimLeftSpace.induct)
  case (1 ws s)
  show ?case by (subst (1) TrimLeftSpace.simps) (auto split: option.splits simp: "1.IH")
qed

lemma TrimSpace_length: "length (TrimSpace s) \<le> length s"
  using TrimLeftSpace_length [of space_encodings s]
    TrimLeftSpace_length [of "map rev space_encodings" "rev (TrimLeftSpace space_encodings s)"]
  by (simp add: TrimSpace_def)

lemma TrimSpace_Nil [simp]: "TrimSpace [] = []"
  using TrimSpace_length [of "[]"] by simp

text \<open>A trimmed string does not end in a space character.\<close>

lemma TrimSpace_last: "TrimSpace s \<noteq> [] \<Longrightarrow> [last (TrimSpace s)] \<notin> set space_encodings"
proof
  assume ne: "TrimSpace s \<noteq> []" and sp: "[last (TrimSpace s)] \<in> set space_encodings"
  define r where "r = rev (TrimSpace s)"
  have "find (take_space r) (map rev space_encodings) = None"
    using TrimLeftSpace_stop by (simp add: r_def TrimSpace_def)
  moreover from ne have "r = last (TrimSpace s) # tl r"
    by (simp add: r_def hd_rev [symmetric])
  then have "take_space r [last (TrimSpace s)]"
    by (metis One_nat_def length_Cons list.distinct(1) list.size(3) take0 take_Suc_Cons take_space_def)
  moreover have "[last (TrimSpace s)] \<in> set (map rev space_encodings)"
    using sp by (force simp: image_iff)
  ultimately show False by (auto simp: find_None_iff)
qed

text \<open>A string with no space byte at either end is its own trimming.\<close>

lemma TrimLeftSpace_id:
  assumes "\<And>w. w \<in> set ws \<Longrightarrow> w \<noteq> [] \<Longrightarrow> s \<noteq> [] \<Longrightarrow> hd w \<noteq> hd s"
  shows "TrimLeftSpace ws s = s"
proof -
  have "\<not> take_space s w" if "w \<in> set ws" for w
    using assms [OF that] by (cases w; cases s) (auto simp: take_space_def)
  then have "find (take_space s) ws = None" by (auto simp: find_None_iff)
  then show ?thesis by (simp add: TrimLeftSpace.simps)
qed

definition space_bytes :: "char list" where
  "space_bytes = map hd space_encodings @ map last space_encodings"

lemma TrimSpace_id:
  assumes "s \<noteq> []" "hd s \<notin> set space_bytes" "last s \<notin> set space_bytes"
  shows "TrimSpace s = s"
proof -
  have "TrimLeftSpace space_encodings s = s"
  proof (rule TrimLeftSpace_id)
    fix w assume "w \<in> set space_encodings"
    then have "hd w \<in> set space_bytes" by (simp add: space_bytes_def)
    with assms(2) show "hd w \<noteq> hd s" by auto
  qed
  moreover have "TrimLeftSpace (map rev space_encodings) (rev s) = rev s"
  proof (rule TrimLeftSpace_id)
    fix w assume "w \<in> set (map rev space_encodings)" "w \<noteq> []"
    then have "hd w \<in> set space_bytes" by (auto simp: space_bytes_def hd_rev)
    with assms(1,3) show "hd w \<noteq> hd (rev s)" by (auto simp: hd_rev)
  qed
  ultimately show ?thesis by (simp add: TrimSpace_def)
qed

lemma not_space_bytes:
  "is_digit c \<Longrightarrow> c \<notin> set space_bytes" "CHR ''+'' \<notin> set space_bytes"
proof -
  have "list_all (\<lambda>x. \<not> is_digit x \<and> x \<noteq> CHR ''+'') space_bytes" by code_simp
  then show "is_digit c \<Longrightarrow> c \<notin> set space_bytes" "CHR ''+'' \<notin> set space_bytes"
    by (auto simp: list_all_iff)
qed

section \<open>Case and prefixes\<close>

definition lower_char :: "char \<Rightarrow> char" where
  "lower_char c = (let n = of_char c :: nat in if 65 \<le> n \<and> n \<le> 90 then char_of (n + 32) else c)"

definition upper_char :: "char \<Rightarrow> char" where
  "upper_char c = (let n = of_char c :: nat in if 97 \<le> n \<and> n \<le> 122 then char_of (n - 32) else c)"

definition ToLower :: "string \<Rightarrow> string" where
  "ToLower = map lower_char"

definition ToUpper :: "string \<Rightarrow> string" where
  "ToUpper = map upper_char"

definition HasPrefix :: "string \<Rightarrow> string \<Rightarrow> bool" where
  "HasPrefix s p \<longleftrightarrow> take (length p) s = p"

definition TrimPrefix :: "string \<Rightarrow> string \<Rightarrow> string" where
  "TrimPrefix s p = (if HasPrefix s p then drop (length p) s else s)"

lemma lower_char_idem: "lower_char (lower_char c) = lower_char c"
proof (cases "65 \<le> (of_char c :: nat) \<and> (of_char c :: nat) \<le> 90")
  case True
  then have "(of_char c :: nat) + 32 < 256" by simp
  with True show ?thesis by (simp add: lower_char_def Let_def)
qed (auto simp: lower_char_def Let_def)

lemma ToLower_idem [simp]: "ToLower (ToLower s) = ToLower s"
  by (simp add: ToLower_def lower_char_idem comp_def)

text \<open>\<open>strings.Split(s, sep)\<close> for a one-byte separator and \<open>strings.Join\<close>.\<close>

fun split_char :: "char \<Rightarrow> string \<Rightarrow> string list" where
  "split_char sep [] = [[]]"
| "split_char sep (c # cs) =
     (if c = sep then [] # split_char sep cs
      else case split_char sep cs of [] \<Rightarrow> [[c]] | p # ps \<Rightarrow> (c # p) # ps)"

fun Join :: "string list \<Rightarrow> string \<Rightarrow> string" where
  "Join [] sep = []"
| "Join [s] sep = s"
| "Join (s # t # ss) sep = s @ sep @ Join (t # ss) sep"

text \<open>
  The length of a PostgreSQL \<open>varchar\<close>: characters, where Go's \<open>len\<close> counts bytes. Every byte of
  UTF-8 text that is not a continuation byte starts a character.
\<close>

definition rune_count :: "string \<Rightarrow> nat" where
  "rune_count s = length (filter (\<lambda>c. \<not> ((128::nat) \<le> of_char c \<and> (of_char c :: nat) < 192)) s)"

lemma rune_count_length: "rune_count s \<le> length s"
  by (simp add: rune_count_def)

text \<open>A string literal outside ASCII, by its bytes.\<close>

definition utf8 :: "nat list \<Rightarrow> string" where
  "utf8 bytes = map char_of bytes"

section \<open>Decimal numbers\<close>

fun digits :: "nat \<Rightarrow> string" where
  "digits n = (if n < 10 then [char_of (48 + n)] else digits (n div 10) @ [char_of (48 + n mod 10)])"

declare digits.simps [simp del]

definition Itoa :: "int \<Rightarrow> string" where
  "Itoa n = (if n < 0 then CHR ''-'' # digits (nat (- n)) else digits (nat n))"

text \<open>\<open>fmt.Sprintf("%0wd", n)\<close> for \<open>n \<ge> 0\<close>.\<close>

definition pad_zeros :: "nat \<Rightarrow> nat \<Rightarrow> string" where
  "pad_zeros w n = replicate (w - length (digits n)) (CHR ''0'') @ digits n"

definition digits_value :: "string \<Rightarrow> int" where
  "digits_value s = foldl (\<lambda>acc c. 10 * acc + digit_value c) 0 s"

text \<open>\<open>strconv.ParseInt(s, 10, 64)\<close>; \<open>strconv.Atoi\<close> is the same on 64-bit platforms.\<close>

definition ParseInt :: "string \<Rightarrow> int option" where
  "ParseInt s =
     (let (neg, ds) = (case s of [] \<Rightarrow> (False, [])
                        | c # cs \<Rightarrow> if c = CHR ''-'' then (True, cs)
                                    else if c = CHR ''+'' then (False, cs) else (False, s));
          v = (if neg then - digits_value ds else digits_value ds)
      in if ds = [] \<or> \<not> list_all is_digit ds \<or> v < - (2 ^ 63) \<or> 2 ^ 63 \<le> v then None else Some v)"

lemma digit_value_char_of: "n < 208 \<Longrightarrow> digit_value (char_of (48 + n :: nat)) = int n"
  by (simp add: digit_value_def)

lemma is_digit_char_of: "n < 10 \<Longrightarrow> is_digit (char_of (48 + n :: nat))"
  using digit_value_char_of [of n] by (simp add: is_digit_def)

lemma digits_all: "list_all is_digit (digits n)"
proof (induction n rule: digits.induct)
  case (1 n)
  show ?case
  proof (cases "n < 10")
    case True
    then show ?thesis by (subst digits.simps) (simp add: is_digit_char_of)
  next
    case False
    with "1.IH" show ?thesis by (subst digits.simps) (simp add: is_digit_char_of)
  qed
qed

lemma digits_ne [simp]: "digits n \<noteq> []"
  by (subst digits.simps) simp

lemma digits_value_append: "digits_value (s @ [c]) = 10 * digits_value s + digit_value c"
  by (simp add: digits_value_def)

lemma digits_value_digits: "digits_value (digits n) = int n"
proof (induction n rule: digits.induct)
  case (1 n)
  show ?case
  proof (cases "n < 10")
    case True
    then show ?thesis by (subst digits.simps) (simp add: digits_value_def digit_value_char_of)
  next
    case False
    have "digits_value (digits n) = 10 * digits_value (digits (n div 10)) + int (n mod 10)"
      using False by (subst digits.simps) (simp add: digits_value_append digit_value_char_of)
    then show ?thesis using "1.IH" [OF False] by (simp add: zdiv_int zmod_int)
  qed
qed

lemma digits_inject [simp]: "digits m = digits n \<longleftrightarrow> m = n"
  by (metis digits_value_digits of_nat_eq_iff)

lemma digits_value_zeros: "digits_value (replicate k (CHR ''0'') @ s) = digits_value s"
proof -
  have "foldl (\<lambda>acc c. 10 * acc + digit_value c) 0 (replicate k (CHR ''0'')) = 0"
    by (induction k) (simp_all add: digit_value_def)
  then show ?thesis by (simp add: digits_value_def)
qed

lemma digits_value_pad: "digits_value (pad_zeros w n) = int n"
  by (simp add: pad_zeros_def digits_value_zeros digits_value_digits)

lemma pad_zeros_digits: "list_all is_digit (pad_zeros w n)"
proof -
  have "is_digit (CHR ''0'')" by (simp add: is_digit_def digit_value_def)
  then have "list_all is_digit (replicate k (CHR ''0''))" for k by (simp add: list_all_iff)
  then show ?thesis using digits_all by (simp add: pad_zeros_def)
qed

lemma pad_zeros_ne [simp]: "pad_zeros w n \<noteq> []"
  by (simp add: pad_zeros_def)

lemma digit_not_sign: "is_digit c \<Longrightarrow> c \<noteq> CHR ''-'' \<and> c \<noteq> CHR ''+'' \<and> c \<noteq> CHR '' ''"
  by (auto simp: is_digit_def digit_value_def)

text \<open>A string of digits within the 64-bit range parses to its value.\<close>

lemma ParseInt_digits:
  assumes "list_all is_digit s" "s \<noteq> []" "0 \<le> digits_value s" "digits_value s < 2 ^ 63"
  shows "ParseInt s = Some (digits_value s)"
proof -
  obtain c cs where s: "s = c # cs" using assms(2) by (cases s) auto
  with assms(1) have "c \<noteq> CHR ''-''" "c \<noteq> CHR ''+''" using digit_not_sign by auto
  then show ?thesis using assms by (simp add: ParseInt_def s)
qed

end
