(* ===== verification/Platform.thy ===== *)
theory Platform
  imports GoStrings
begin

text \<open>
  The packages every feature rests on: \<open>internal/apperror\<close> (typed errors),
  \<open>internal/platform/reqctx\<close> (the authenticated principal), \<open>internal/auth/middleware.go\<close>
  (who may call an endpoint), \<open>internal/httputil\<close> (path parameters and pagination) and the
  masking helpers of \<open>internal/platform/audit\<close>.

  Identifiers: a \<open>uuid.UUID\<close> is its 128-bit number, \<open>uuid.Nil\<close> is 0, and the canonical
  text form orders like the number. The parser of the text form belongs to
  \<open>github.com/google/uuid\<close> and is a parameter \<open>uuid_parse\<close>; so is the verification of a
  JWT. The human-readable message of an error is not part of the model.
\<close>

type_synonym uuid = nat

definition uuid_Nil :: uuid where "uuid_Nil = 0"

text \<open>Go's \<open>int\<close> has 64 bits and wraps around.\<close>

definition wrap64 :: "int \<Rightarrow> int" where
  "wrap64 x = (x + 2 ^ 63) mod 2 ^ 64 - 2 ^ 63"

lemma wrap64_id: "- (2 ^ 63) \<le> x \<Longrightarrow> x < 2 ^ 63 \<Longrightarrow> wrap64 x = x"
  by (simp add: wrap64_def)

lemma wrap64_range: "- (2 ^ 63) \<le> wrap64 x \<and> wrap64 x < 2 ^ 63"
  by (simp add: wrap64_def)

lemma wrap64_mod: "wrap64 (wrap64 a + b) = wrap64 (a + b)" "wrap64 (wrap64 a * b) = wrap64 (a * b)"
proof -
  have c: "wrap64 a mod 2 ^ 64 = a mod 2 ^ 64" for a
    unfolding wrap64_def by (subst mod_diff_left_eq) simp
  have e: "wrap64 x = wrap64 y" if "x mod 2 ^ 64 = y mod 2 ^ 64" for x y
    using mod_add_cong [OF that refl] by (simp only: wrap64_def)
  show "wrap64 (wrap64 a + b) = wrap64 (a + b)" by (rule e, rule mod_add_cong [OF c refl])
  show "wrap64 (wrap64 a * b) = wrap64 (a * b)" by (rule e, rule mod_mult_cong [OF c refl])
qed

section \<open>Errors\<close>

datatype apperror = AppError (err_status: nat) (err_code: string)

definition BadRequest :: "string \<Rightarrow> apperror" where "BadRequest code = AppError 400 code"
definition Unauthorized :: "string \<Rightarrow> apperror" where "Unauthorized code = AppError 401 code"
definition Forbidden :: "string \<Rightarrow> apperror" where "Forbidden code = AppError 403 code"
definition NotFound :: "string \<Rightarrow> apperror" where "NotFound code = AppError 404 code"
definition Conflict :: "string \<Rightarrow> apperror" where "Conflict code = AppError 409 code"
definition TooManyRequests :: "string \<Rightarrow> apperror" where "TooManyRequests code = AppError 429 code"
definition UnprocessableEntity :: "string \<Rightarrow> apperror" where
  "UnprocessableEntity code = AppError 422 code"
definition Internal :: apperror where "Internal = AppError 500 ''internal_error''"

lemmas apperror_defs = BadRequest_def Unauthorized_def Forbidden_def NotFound_def Conflict_def
  TooManyRequests_def UnprocessableEntity_def Internal_def

lemma err_status_simps [simp]:
  "err_status (BadRequest c) = 400" "err_status (Unauthorized c) = 401"
  "err_status (Forbidden c) = 403" "err_status (NotFound c) = 404"
  "err_status (Conflict c) = 409" "err_status (TooManyRequests c) = 429"
  "err_status (UnprocessableEntity c) = 422" "err_status Internal = 500"
  by (simp_all add: apperror_defs)

lemma err_code_simps [simp]:
  "err_code (BadRequest c) = c" "err_code (Unauthorized c) = c" "err_code (Forbidden c) = c"
  "err_code (NotFound c) = c" "err_code (Conflict c) = c" "err_code (TooManyRequests c) = c"
  "err_code (UnprocessableEntity c) = c" "err_code Internal = ''internal_error''"
  by (simp_all add: apperror_defs)

text \<open>\<open>httputil.WriteError\<close>: status and code of the response envelope.\<close>

definition WriteError :: "apperror \<Rightarrow> nat \<times> string" where
  "WriteError e = (err_status e, err_code e)"

section \<open>The authenticated principal\<close>

record AuthUser =
  au_id :: uuid
  au_role :: string
  au_wp :: "uuid option"

definition OwnsWashingPoint :: "AuthUser \<Rightarrow> uuid \<Rightarrow> bool" where
  "OwnsWashingPoint u washingPointID \<longleftrightarrow>
     (if au_role u = ''admin'' then True else au_wp u = Some washingPointID)"

text \<open>Staff and workers act on one point only; an admin acts on every point.\<close>

lemma owns_unique:
  "au_role u \<noteq> ''admin'' \<Longrightarrow> OwnsWashingPoint u p \<Longrightarrow> OwnsWashingPoint u q \<Longrightarrow> p = q"
  by (simp add: OwnsWashingPoint_def)

lemma owns_admin: "au_role u = ''admin'' \<Longrightarrow> OwnsWashingPoint u p"
  by (simp add: OwnsWashingPoint_def)

record claims =
  cl_uid :: string
  cl_role :: string
  cl_wpid :: "string option"

definition RequireAuth ::
  "(string \<Rightarrow> uuid option) \<Rightarrow> (string \<Rightarrow> claims option) \<Rightarrow> string \<Rightarrow> apperror + AuthUser" where
  "RequireAuth uuid_parse jwt_parse header =
     (let token = drop (length ''Bearer '') header
      in if \<not> HasPrefix header ''Bearer '' \<or> token = [] then Inl (Unauthorized ''unauthenticated'')
      else case jwt_parse token of
        None \<Rightarrow> Inl (Unauthorized ''unauthenticated'')
      | Some c \<Rightarrow>
         (case uuid_parse (cl_uid c) of
            None \<Rightarrow> Inl (Unauthorized ''unauthenticated'')
          | Some userID \<Rightarrow>
             (case cl_wpid c of
                None \<Rightarrow> Inr \<lparr>au_id = userID, au_role = cl_role c, au_wp = None\<rparr>
              | Some w \<Rightarrow>
                 (case uuid_parse w of
                    None \<Rightarrow> Inl (Unauthorized ''unauthenticated'')
                  | Some wid \<Rightarrow> Inr \<lparr>au_id = userID, au_role = cl_role c, au_wp = Some wid\<rparr>))))"

definition RequireRole :: "string list \<Rightarrow> AuthUser \<Rightarrow> apperror + AuthUser" where
  "RequireRole allowed u = (if au_role u \<in> set allowed then Inr u else Inl (Forbidden ''forbidden''))"

text \<open>\<open>httputil.AuthUser\<close>: the principal, or the standard 401.\<close>

definition AuthUserFrom :: "AuthUser option \<Rightarrow> apperror + AuthUser" where
  "AuthUserFrom ctx = (case ctx of None \<Rightarrow> Inl (Unauthorized ''unauthenticated'') | Some u \<Rightarrow> Inr u)"

lemma RequireAuth_Inr:
  assumes "RequireAuth uuid_parse jwt_parse header = Inr u"
  obtains token c where "header = ''Bearer '' @ token" "token \<noteq> []" "jwt_parse token = Some c"
    "au_role u = cl_role c" "uuid_parse (cl_uid c) = Some (au_id u)"
    "cl_wpid c = None \<longleftrightarrow> au_wp u = None"
    "\<And>w. cl_wpid c = Some w \<Longrightarrow> uuid_parse w = au_wp u"
proof -
  define token where "token = drop (length ''Bearer '') header"
  have ok: "HasPrefix header ''Bearer ''" "token \<noteq> []"
    using assms by (auto simp: RequireAuth_def token_def Let_def split: if_splits)
  then have header: "header = ''Bearer '' @ token"
    unfolding token_def HasPrefix_def by (metis append_take_drop_id)
  have r: "(case jwt_parse token of None \<Rightarrow> Inl (Unauthorized ''unauthenticated'')
      | Some c \<Rightarrow> (case uuid_parse (cl_uid c) of None \<Rightarrow> Inl (Unauthorized ''unauthenticated'')
          | Some userID \<Rightarrow> (case cl_wpid c of
                None \<Rightarrow> Inr \<lparr>au_id = userID, au_role = cl_role c, au_wp = None\<rparr>
              | Some w \<Rightarrow> (case uuid_parse w of None \<Rightarrow> Inl (Unauthorized ''unauthenticated'')
                  | Some wid \<Rightarrow> Inr \<lparr>au_id = userID, au_role = cl_role c, au_wp = Some wid\<rparr>)))) = Inr u"
    using assms ok by (simp only: RequireAuth_def token_def Let_def simp_thms if_False)
  from r obtain c where c: "jwt_parse token = Some c" by (auto split: option.splits)
  show ?thesis
    by (rule that [OF header ok(2) c]) (use r c in \<open>auto split: option.splits\<close>)
qed

section \<open>Request parameters\<close>

definition ParseUUIDParam :: "(string \<Rightarrow> uuid option) \<Rightarrow> string \<Rightarrow> apperror + uuid" where
  "ParseUUIDParam uuid_parse raw =
     (case uuid_parse raw of None \<Rightarrow> Inl (BadRequest ''invalid_id'') | Some k \<Rightarrow> Inr k)"

definition DefaultPageSize :: int where "DefaultPageSize = 20"
definition MaxPageSize :: int where "MaxPageSize = 100"

record Pagination =
  pg_page :: int
  pg_size :: int

definition parsePositiveInt :: "string \<Rightarrow> int \<Rightarrow> int" where
  "parsePositiveInt raw fallback =
     (case ParseInt raw of None \<Rightarrow> fallback | Some n \<Rightarrow> if n < 1 then fallback else n)"

definition ParsePagination :: "string \<Rightarrow> string \<Rightarrow> Pagination" where
  "ParsePagination rawPage rawSize =
     (let page = parsePositiveInt rawPage 1;
          pageSize = parsePositiveInt rawSize DefaultPageSize
      in \<lparr>pg_page = page, pg_size = (if pageSize > MaxPageSize then MaxPageSize else pageSize)\<rparr>)"

definition Offset :: "Pagination \<Rightarrow> int" where
  "Offset p = wrap64 ((pg_page p - 1) * pg_size p)"

definition Limit :: "Pagination \<Rightarrow> int" where
  "Limit p = pg_size p"

lemma ParseInt_range: "ParseInt s = Some n \<Longrightarrow> - (2 ^ 63) \<le> n \<and> n < 2 ^ 63"
  by (auto simp: ParseInt_def Let_def split: prod.splits if_splits)

lemma pagination_bounds:
  "1 \<le> pg_page (ParsePagination p s)" "pg_page (ParsePagination p s) < 2 ^ 63"
  "1 \<le> Limit (ParsePagination p s)" "Limit (ParsePagination p s) \<le> MaxPageSize"
  using ParseInt_range [of p]
  by (auto simp: ParsePagination_def parsePositiveInt_def Limit_def Let_def DefaultPageSize_def
      MaxPageSize_def split: option.splits)

text \<open>
  Every page up to \<open>2^63 div 100\<close> is read from the offset it names; the offset of a page
  number beyond that wraps around and may be negative.
\<close>

lemma pagination_offset:
  assumes "pg_page (ParsePagination p s) \<le> 2 ^ 63 div 100"
  shows "Offset (ParsePagination p s) =
      (pg_page (ParsePagination p s) - 1) * Limit (ParsePagination p s)"
    and "0 \<le> Offset (ParsePagination p s)"
proof -
  let ?g = "ParsePagination p s"
  have b: "0 \<le> pg_page ?g - 1" "1 \<le> pg_size ?g" "pg_size ?g \<le> 100"
    using pagination_bounds [of p s] by (simp_all add: Limit_def MaxPageSize_def)
  have nn: "0 \<le> (pg_page ?g - 1) * pg_size ?g" using b by simp
  have "(pg_page ?g - 1) * pg_size ?g \<le> (pg_page ?g - 1) * 100"
    using b by (intro mult_left_mono) auto
  also have "\<dots> < 2 ^ 63" using assms by simp
  finally have lt: "(pg_page ?g - 1) * pg_size ?g < 2 ^ 63" .
  have "- (2 ^ 63) \<le> (pg_page ?g - 1) * pg_size ?g" using nn by (rule order_trans [rotated]) simp
  then have w: "wrap64 ((pg_page ?g - 1) * pg_size ?g) = (pg_page ?g - 1) * pg_size ?g"
    using lt by (rule wrap64_id)
  then show "Offset ?g = (pg_page ?g - 1) * Limit ?g" by (simp add: Offset_def Limit_def)
  show "0 \<le> Offset ?g" unfolding Offset_def w by (rule nn)
qed

lemma pagination_offset_wraps:
  "Offset (ParsePagination ''9223372036854775807'' ''20'') = -40"
  by code_simp

section \<open>Masking\<close>

definition MaskPhone :: "string \<Rightarrow> string" where
  "MaskPhone phone =
     (if length phone \<le> 4 then ''***'' else ''***'' @ drop (length phone - 4) phone)"

definition Truncate :: "string \<Rightarrow> nat \<Rightarrow> string" where
  "Truncate s mx = (if length s \<le> mx then s else take mx s)"

text \<open>A masked number tells at most the last four digits.\<close>

lemma MaskPhone_length: "length (MaskPhone phone) \<le> 7"
  by (simp add: MaskPhone_def)

lemma MaskPhone_hides:
  "length p = length q \<Longrightarrow> drop (length p - 4) p = drop (length q - 4) q \<Longrightarrow> MaskPhone p = MaskPhone q"
  by (simp add: MaskPhone_def)

lemma Truncate_length: "length (Truncate s mx) \<le> mx"
  by (simp add: Truncate_def)

end
