(* ===== verification/Ratelimit.thy ===== *)
theory Ratelimit
  imports Platform "HOL-Library.AList"
begin

text \<open>
  \<open>internal/platform/ratelimit\<close>: the fixed-window limiter (\<open>Limiter\<close>) and the failure
  lockout (\<open>Lockout\<close>). A Go map is an association list with distinct keys; the mutex makes
  every call one step, so a history of calls is a list of steps. The clock is an argument of
  each call. The sweep of the maps is modelled as written; \<open>Allow_simulates\<close> shows that it
  never changes an answer.
\<close>

section \<open>Limiter\<close>

record window =
  w_start :: time
  w_count :: int

record Limiter =
  l_limit :: int
  l_window :: duration
  l_buckets :: "(string \<times> window) list"

definition New :: "int \<Rightarrow> duration \<Rightarrow> Limiter" where
  "New lim per = \<lparr>l_limit = lim, l_window = per, l_buckets = []\<rparr>"

definition sweep_buckets :: "time \<Rightarrow> Limiter \<Rightarrow> (string \<times> window) list" where
  "sweep_buckets now l =
     (if length (l_buckets l) > 10000
      then filter (\<lambda>(k, w). \<not> now - w_start w \<ge> l_window l) (l_buckets l)
      else l_buckets l)"

definition Allow :: "time \<Rightarrow> string \<Rightarrow> Limiter \<Rightarrow> (bool \<times> duration) \<times> Limiter" where
  "Allow now key l =
     (let b = sweep_buckets now l;
          fresh = ((True, 0), l\<lparr>l_buckets := AList.update key \<lparr>w_start = now, w_count = 1\<rparr> b\<rparr>)
      in case map_of b key of
           None \<Rightarrow> fresh
         | Some w \<Rightarrow>
             if now - w_start w \<ge> l_window l then fresh
             else if w_count w \<ge> l_limit l
             then ((False, w_start w + l_window l - now), l\<lparr>l_buckets := b\<rparr>)
             else ((True, 0), l\<lparr>l_buckets := AList.update key (w\<lparr>w_count := w_count w + 1\<rparr>) b\<rparr>))"

text \<open>The middleware: pass the request on, or answer 429 with the seconds to wait.\<close>

definition Middleware :: "time \<Rightarrow> string \<Rightarrow> Limiter \<Rightarrow> (apperror \<times> int + unit) \<times> Limiter" where
  "Middleware now ip l =
     (case Allow now ip l of
        ((ok, retry), l') \<Rightarrow>
          (if \<not> ok then (Inl (TooManyRequests ''too_many_requests'', retry div Second + 1), l')
           else (Inr (), l')))"

definition PerIP :: "int \<Rightarrow> duration \<Rightarrow> Limiter option" where
  "PerIP lim per = (if lim \<le> 0 then None else Some (New lim per))"

text \<open>A history of hits and the answers the limiter gives.\<close>

primrec hits :: "Limiter \<Rightarrow> (time \<times> string) list \<Rightarrow> (time \<times> string \<times> bool) list" where
  "hits l [] = []"
| "hits l (e # es) =
     (fst e, snd e, fst (fst (Allow (fst e) (snd e) l))) # hits (snd (Allow (fst e) (snd e) l)) es"

primrec after_hits :: "Limiter \<Rightarrow> (time \<times> string) list \<Rightarrow> Limiter" where
  "after_hits l [] = l"
| "after_hits l (e # es) = after_hits (snd (Allow (fst e) (snd e) l)) es"

lemma hits_append: "hits l (xs @ ys) = hits l xs @ hits (after_hits l xs) ys"
  by (induction xs arbitrary: l) simp_all

lemma Allow_config [simp]:
  "l_limit (snd (Allow now key l)) = l_limit l" "l_window (snd (Allow now key l)) = l_window l"
  by (auto simp: Allow_def Let_def split: option.splits)

lemma after_hits_config [simp]:
  "l_limit (after_hits l es) = l_limit l" "l_window (after_hits l es) = l_window l"
  by (induction es arbitrary: l) auto

text \<open>What one hit does to the bucket of a key and of every other key.\<close>

lemma map_of_filter_pred:
  "distinct (map fst xs) \<Longrightarrow> map_of (filter (\<lambda>(k, v). P v) xs) k =
     (case map_of xs k of None \<Rightarrow> None | Some v \<Rightarrow> if P v then Some v else None)"
  by (induction xs) (auto simp: map_of_eq_None_iff rev_image_eqI split: option.splits)

definition buckets_ok :: "Limiter \<Rightarrow> bool" where
  "buckets_ok l \<longleftrightarrow> distinct (map fst (l_buckets l)) \<and>
     (\<forall>k w. map_of (l_buckets l) k = Some w \<longrightarrow> 1 \<le> w_count w)"

lemma sweep_map_of:
  assumes "distinct (map fst (l_buckets l))"
  shows "map_of (sweep_buckets now l) k =
    (case map_of (l_buckets l) k of
       None \<Rightarrow> None
     | Some w \<Rightarrow> if length (l_buckets l) > 10000 \<and> now - w_start w \<ge> l_window l then None else Some w)"
  using assms by (auto simp: sweep_buckets_def map_of_filter_pred split: option.splits)

lemma sweep_distinct:
  "distinct (map fst (l_buckets l)) \<Longrightarrow> distinct (map fst (sweep_buckets now l))"
  by (simp add: sweep_buckets_def distinct_map_filter)

lemma buckets_ok_Allow:
  assumes "buckets_ok l"
  shows "buckets_ok (snd (Allow now key l))"
proof -
  have d: "distinct (map fst (l_buckets l))" using assms by (simp add: buckets_ok_def)
  define b where "b = sweep_buckets now l"
  have c: "1 \<le> w_count w" if "map_of b k = Some w" for k w
    using that assms
    by (auto simp: b_def buckets_ok_def sweep_map_of [OF d] split: option.splits if_splits)
  have upd: "buckets_ok (l\<lparr>l_buckets := AList.update key w b\<rparr>)" if "1 \<le> w_count w" for w
    using that c sweep_distinct [OF d]
    by (simp add: b_def buckets_ok_def distinct_update update_conv' del: map_of_eq_Some_iff)
  have same: "buckets_ok (l\<lparr>l_buckets := b\<rparr>)"
    using c sweep_distinct [OF d] by (simp add: b_def buckets_ok_def del: map_of_eq_Some_iff)
  show ?thesis
    using upd same c [of key]
    by (auto simp: Allow_def Let_def b_def [symmetric] simp del: map_of_eq_Some_iff
        split: option.splits)
qed

lemma buckets_ok_New [simp]: "buckets_ok (New lim per)"
  by (simp add: buckets_ok_def New_def)

lemma sweep_keeps_live:
  assumes "buckets_ok l" "map_of (l_buckets l) k = Some w" "now < w_start w + l_window l"
  shows "map_of (sweep_buckets now l) k = Some w"
  using assms by (simp add: buckets_ok_def sweep_map_of)

lemma sweep_no_new:
  assumes "buckets_ok l" "map_of (sweep_buckets now l) k = Some w"
  shows "map_of (l_buckets l) k = Some w"
  using assms by (auto simp: buckets_ok_def sweep_map_of split: if_splits option.splits)

definition allowed :: "string \<Rightarrow> (time \<Rightarrow> bool) \<Rightarrow> (time \<times> string \<times> bool) list \<Rightarrow> nat" where
  "allowed key P hs = length (filter (\<lambda>(t, k, ok). k = key \<and> ok \<and> P t) hs)"

lemma allowed_simps [simp]:
  "allowed key P [] = 0"
  "allowed key P ((t, k, ok) # hs) = (if k = key \<and> ok \<and> P t then 1 else 0) + allowed key P hs"
  "allowed key P (xs @ ys) = allowed key P xs + allowed key P ys"
  by (simp_all add: allowed_def)

lemma fst_hits: "map fst (hits l es) = map fst es"
  by (induction es arbitrary: l) simp_all

lemma allowed_none:
  assumes "\<And>e. e \<in> set es \<Longrightarrow> \<not> P (fst e)"
  shows "allowed key P (hits l es) = 0"
proof -
  have "\<not> P (fst h)" if "h \<in> set (hits l es)" for h
    using assms that by (metis fst_hits image_iff list.set_map)
  then show ?thesis by (fastforce simp: allowed_def filter_empty_conv)
qed

lemma allowed_mono:
  assumes "\<And>t. P t \<Longrightarrow> Q t"
  shows "allowed key P hs \<le> allowed key Q hs"
  using assms by (induction hs) auto

lemma allowed_cong:
  assumes "\<And>e. e \<in> set es \<Longrightarrow> P (fst e) = Q (fst e)"
  shows "allowed key P (hits l es) = allowed key Q (hits l es)"
  using assms by (induction es arbitrary: l) (auto split: prod.splits)

text \<open>A live window admits at most what is left of its limit.\<close>

lemma live_step:
  assumes "buckets_ok l" "map_of (l_buckets l) key = Some w" "t < w_start w + l_window l"
  obtains (blocked) "k = key" "w_count w \<ge> l_limit l" "fst (fst (Allow t k l)) = False"
      "map_of (l_buckets (snd (Allow t k l))) key = Some w"
    | (counted) "k = key" "w_count w < l_limit l" "fst (fst (Allow t k l)) = True"
      "map_of (l_buckets (snd (Allow t k l))) key = Some (w\<lparr>w_count := w_count w + 1\<rparr>)"
    | (other) "k \<noteq> key" "map_of (l_buckets (snd (Allow t k l))) key = Some w"
  using sweep_keeps_live [OF assms] assms(3) that
  by (cases "k = key"; cases "w_count w \<ge> l_limit l")
    (auto simp: Allow_def Let_def update_conv' split: option.splits)

lemma live_window_bound:
  assumes "buckets_ok l" "map_of (l_buckets l) key = Some w" "sorted (map fst es)"
  shows "allowed key (\<lambda>t. t < w_start w + l_window l) (hits l es) \<le> nat (l_limit l - w_count w)"
  using assms
proof (induction es arbitrary: l w)
  case Nil
  then show ?case by simp
next
  case (Cons e es)
  obtain t k where e: "e = (t, k)" by (cases e)
  let ?l' = "snd (Allow t k l)"
  have ok': "buckets_ok ?l'" using Cons.prems(1) by (rule buckets_ok_Allow)
  have s: "sorted (map fst es)" using Cons.prems(3) by simp
  have h: "hits l (e # es) = (t, k, fst (fst (Allow t k l))) # hits ?l' es"
    by (simp add: e)
  show ?case
  proof (cases "t < w_start w + l_window l")
    case False
    then have "allowed key (\<lambda>t. t < w_start w + l_window l) (hits l (e # es)) = 0"
      using Cons.prems(3) by (intro allowed_none) (auto simp: e)
    then show ?thesis by simp
  next
    case True
    show ?thesis
      using Cons.prems(1,2) True
    proof (cases rule: live_step [where k = k])
      case blocked
      with Cons.IH [OF ok' _ s] show ?thesis by (simp add: h del: hits.simps)
    next
      case counted
      with Cons.IH [OF ok' _ s] True show ?thesis by (fastforce simp: h simp del: hits.simps)
    next
      case other
      with Cons.IH [OF ok' _ s] show ?thesis by (simp add: h del: hits.simps)
    qed
  qed
qed

text \<open>From a state with no live window for the key, one window's worth of hits is admitted.\<close>

lemma expired_step:
  assumes "buckets_ok l"
    and "\<And>w. map_of (l_buckets l) key = Some w \<Longrightarrow> w_start w + l_window l \<le> t"
  shows "k = key \<Longrightarrow> fst (fst (Allow t k l)) \<and>
      map_of (l_buckets (snd (Allow t k l))) key = Some \<lparr>w_start = t, w_count = 1\<rparr>"
    and "k \<noteq> key \<Longrightarrow> map_of (l_buckets (snd (Allow t k l))) key = Some w \<Longrightarrow>
      map_of (l_buckets l) key = Some w"
proof -
  show "k = key \<Longrightarrow> fst (fst (Allow t k l)) \<and>
      map_of (l_buckets (snd (Allow t k l))) key = Some \<lparr>w_start = t, w_count = 1\<rparr>"
    using assms(2) sweep_no_new [OF assms(1), of t key]
    by (cases "map_of (sweep_buckets t l) key") (force simp: Allow_def Let_def update_conv')+
  show "k \<noteq> key \<Longrightarrow> map_of (l_buckets (snd (Allow t k l))) key = Some w \<Longrightarrow>
      map_of (l_buckets l) key = Some w"
    using sweep_no_new [OF assms(1), of t key w]
    by (cases "map_of (sweep_buckets t l) k")
      (auto simp: Allow_def Let_def update_conv' split: if_splits)
qed

lemma fresh_window_bound:
  assumes "buckets_ok l" "1 \<le> l_limit l" "sorted (map fst es)"
    and "\<And>e. e \<in> set es \<Longrightarrow> a \<le> fst e"
    and "\<And>w e. map_of (l_buckets l) key = Some w \<Longrightarrow> e \<in> set es \<Longrightarrow> w_start w + l_window l \<le> fst e"
  shows "allowed key (\<lambda>t. t < a + l_window l) (hits l es) \<le> nat (l_limit l)"
  using assms
proof (induction es arbitrary: l)
  case Nil
  then show ?case by simp
next
  case (Cons e es)
  obtain t k where e: "e = (t, k)" by (cases e)
  let ?l' = "snd (Allow t k l)"
  have ok': "buckets_ok ?l'" using Cons.prems(1) by (rule buckets_ok_Allow)
  have s: "sorted (map fst es)" using Cons.prems(3) by simp
  have h: "hits l (e # es) = (t, k, fst (fst (Allow t k l))) # hits ?l' es"
    by (simp add: e)
  have ex: "\<And>w. map_of (l_buckets l) key = Some w \<Longrightarrow> w_start w + l_window l \<le> t"
    using Cons.prems(5) [of _ e] by (simp add: e)
  show ?case
  proof (cases "k = key")
    case True
    with expired_step(1) [OF Cons.prems(1) ex True]
    have w: "map_of (l_buckets ?l') key = Some \<lparr>w_start = t, w_count = 1\<rparr>" by simp
    have "a \<le> t" using Cons.prems(4) [of e] by (simp add: e)
    then have "allowed key (\<lambda>x. x < a + l_window l) (hits ?l' es)
        \<le> allowed key (\<lambda>x. x < t + l_window l) (hits ?l' es)"
      by (intro allowed_mono) simp
    also have "\<dots> \<le> nat (l_limit l - 1)"
      using live_window_bound [OF ok' w s] by simp
    finally show ?thesis
      using Cons.prems(2) True by (auto simp: h simp del: hits.simps)
  next
    case False
    have "allowed key (\<lambda>x. x < a + l_window ?l') (hits ?l' es) \<le> nat (l_limit ?l')"
      using Cons.prems(2,4) expired_step(2) [OF Cons.prems(1) ex False] Cons.prems(5)
      by (intro Cons.IH [OF ok' _ s]) auto
    with False show ?thesis by (simp add: h del: hits.simps)
  qed
qed

lemma buckets_ok_after: "buckets_ok l \<Longrightarrow> buckets_ok (after_hits l es)"
  by (induction es arbitrary: l) (auto intro: buckets_ok_Allow)

lemma live_start_kept:
  assumes "buckets_ok l" "map_of (l_buckets l) key = Some w"
    and "\<And>e. e \<in> set es \<Longrightarrow> fst e < w_start w + l_window l"
  shows "\<exists>w'. map_of (l_buckets (after_hits l es)) key = Some w' \<and> w_start w' = w_start w"
  using assms
proof (induction es arbitrary: l w)
  case Nil
  then show ?case by simp
next
  case (Cons e es)
  have "\<exists>w'. map_of (l_buckets (snd (Allow (fst e) (snd e) l))) key = Some w' \<and>
      w_start w' = w_start w"
    by (rule live_step [OF Cons.prems(1,2) Cons.prems(3), of e "snd e"]) auto
  then obtain w' where "map_of (l_buckets (snd (Allow (fst e) (snd e) l))) key = Some w'"
    "w_start w' = w_start w" by blast
  with Cons.IH [of "snd (Allow (fst e) (snd e) l)" w'] Cons.prems buckets_ok_Allow
  show ?case by auto
qed

lemma split_at_time:
  assumes "sorted (map fst es)"
  obtains p q where "es = p @ q" "\<And>e. e \<in> set p \<Longrightarrow> fst e < (a::time)" "\<And>e. e \<in> set q \<Longrightarrow> a \<le> fst e"
proof
  show "es = takeWhile (\<lambda>e. fst e < a) es @ dropWhile (\<lambda>e. fst e < a) es" by simp
  show "fst e < a" if "e \<in> set (takeWhile (\<lambda>e. fst e < a) es)" for e
    using that by (auto dest: set_takeWhileD)
  show "a \<le> fst e" if "e \<in> set (dropWhile (\<lambda>e. fst e < a) es)" for e
    using assms that by (induction es) (auto split: if_splits)
qed

lemma two_windows_bound:
  assumes ok: "buckets_ok l" and lim: "1 \<le> l_limit l" and s: "sorted (map fst es)"
    and ge: "\<And>e. e \<in> set es \<Longrightarrow> a \<le> fst e"
  shows "allowed key (\<lambda>t. t < a + l_window l) (hits l es) \<le> 2 * nat (l_limit l)"
proof (cases "map_of (l_buckets l) key")
  case None
  then show ?thesis using fresh_window_bound [OF ok lim s ge, of key] by simp
next
  case (Some w)
  let ?b = "w_start w + l_window l"
  obtain p q where pq: "es = p @ q" and p: "\<And>e. e \<in> set p \<Longrightarrow> fst e < ?b"
    and q: "\<And>e. e \<in> set q \<Longrightarrow> ?b \<le> fst e"
    using split_at_time [OF s] by blast
  obtain w' where w': "map_of (l_buckets (after_hits l p)) key = Some w'" "w_start w' = w_start w"
    using live_start_kept [OF ok Some p] by blast
  have "1 \<le> w_count w" using ok Some by (simp add: buckets_ok_def)
  have "allowed key (\<lambda>t. t < a + l_window l) (hits l p) \<le> allowed key (\<lambda>t. t < ?b) (hits l p)"
    using allowed_cong [of p "\<lambda>t. t < a + l_window l" "\<lambda>t. t < a + l_window l \<and> t < ?b" key l] p
    using allowed_mono [of "\<lambda>t. t < a + l_window l \<and> t < ?b" "\<lambda>t. t < ?b" key "hits l p"]
    by simp
  also have "\<dots> \<le> nat (l_limit l - w_count w)"
    using live_window_bound [OF ok Some] s by (simp add: pq sorted_append)
  also have "\<dots> \<le> nat (l_limit l)" using \<open>1 \<le> w_count w\<close> by simp
  finally have first: "allowed key (\<lambda>t. t < a + l_window l) (hits l p) \<le> nat (l_limit l)" .
  have "allowed key (\<lambda>t. t < a + l_window l) (hits (after_hits l p) q) \<le> nat (l_limit l)"
    using s ge lim by (intro fresh_window_bound [OF buckets_ok_after [OF ok], of p q a key, simplified])
      (auto simp: pq sorted_append w' dest: q)
  with first show ?thesis by (simp add: pq hits_append)
qed

text \<open>
  The limiter is a fixed-window limiter: over any history of hits in time order, for every
  key and every interval as long as the window, it admits at most twice the limit (one window
  may end and another begin inside the interval), whatever the other keys do and whenever the
  map is swept.
\<close>

theorem limiter_bound:
  assumes "1 \<le> lim" "sorted (map fst es)"
  shows "allowed key (\<lambda>t. a \<le> t \<and> t < a + per) (hits (New lim per) es) \<le> 2 * nat lim"
proof -
  obtain p q where es: "es = p @ q" and p: "\<And>e. e \<in> set p \<Longrightarrow> fst e < a"
    and q: "\<And>e. e \<in> set q \<Longrightarrow> a \<le> fst e"
    using split_at_time [OF assms(2)] by blast
  let ?l = "after_hits (New lim per) p"
  have cfg: "l_limit ?l = lim" "l_window ?l = per" by (simp_all add: New_def)
  have "allowed key (\<lambda>t. a \<le> t \<and> t < a + per) (hits (New lim per) p) = 0"
    using p by (intro allowed_none) force
  moreover have "allowed key (\<lambda>t. a \<le> t \<and> t < a + per) (hits ?l q)
      = allowed key (\<lambda>t. t < a + per) (hits ?l q)"
    using q by (intro allowed_cong) simp
  moreover have "\<dots> \<le> 2 * nat lim"
    using two_windows_bound [OF buckets_ok_after [OF buckets_ok_New], of lim per p q a key]
      assms q unfolding cfg by (simp add: es sorted_append)
  ultimately show ?thesis by (simp add: es hits_append)
qed

theorem limiter_bound_witness:
  "allowed ''a'' (\<lambda>t. 0 \<le> t \<and> t < 0 + 10) (hits (New 1 10) [(1, ''a''), (2, ''b''), (12, ''a'')]) \<le> 2"
  using limiter_bound [of 1 "[(1, ''a''), (2, ''b''), (12, ''a'')]" "''a''" 0 10] by simp

section \<open>Lockout\<close>

record lockEntry =
  le_failures :: int
  le_lastFailure :: time
  le_lockedUntil :: time

record Lockout =
  lo_maxFailures :: int
  lo_duration :: duration
  lo_entries :: "(string \<times> lockEntry) list"

definition zeroEntry :: lockEntry where
  "zeroEntry = \<lparr>le_failures = 0, le_lastFailure = ZeroTime, le_lockedUntil = ZeroTime\<rparr>"

definition NewLockout :: "int \<Rightarrow> duration \<Rightarrow> Lockout option" where
  "NewLockout maxFailures d =
     (if maxFailures \<le> 0 \<or> d \<le> 0 then None
      else Some \<lparr>lo_maxFailures = maxFailures, lo_duration = d, lo_entries = []\<rparr>)"

definition Locked :: "time \<Rightarrow> string \<Rightarrow> Lockout option \<Rightarrow> bool \<times> duration" where
  "Locked now key lo =
     (case lo of
        None \<Rightarrow> (False, 0)
      | Some l \<Rightarrow>
          (case map_of (lo_entries l) key of
             None \<Rightarrow> (False, 0)
           | Some e \<Rightarrow> if \<not> now < le_lockedUntil e then (False, 0) else (True, le_lockedUntil e - now)))"

definition stale :: "time \<Rightarrow> duration \<Rightarrow> lockEntry \<Rightarrow> bool" where
  "stale now d e \<longleftrightarrow> \<not> now < le_lockedUntil e \<and> now - le_lastFailure e \<ge> d"

definition sweep_entries :: "time \<Rightarrow> Lockout \<Rightarrow> (string \<times> lockEntry) list" where
  "sweep_entries now l =
     (if length (lo_entries l) > 10000
      then filter (\<lambda>(k, e). \<not> stale now (lo_duration l) e) (lo_entries l)
      else lo_entries l)"

definition bump :: "time \<Rightarrow> Lockout \<Rightarrow> lockEntry \<Rightarrow> lockEntry" where
  "bump now l e =
     (let e1 = e\<lparr>le_failures := le_failures e + 1, le_lastFailure := now\<rparr>
      in if le_failures e1 \<ge> lo_maxFailures l
         then e1\<lparr>le_failures := 0, le_lockedUntil := now + lo_duration l\<rparr> else e1)"

definition Fail :: "time \<Rightarrow> string \<Rightarrow> Lockout option \<Rightarrow> Lockout option" where
  "Fail now key lo =
     (case lo of
        None \<Rightarrow> None
      | Some l \<Rightarrow>
          let es = sweep_entries now l;
              e = (case map_of es key of
                     None \<Rightarrow> zeroEntry
                   | Some e \<Rightarrow> if stale now (lo_duration l) e then zeroEntry else e)
          in Some (l\<lparr>lo_entries := AList.update key (bump now l e) es\<rparr>))"

definition Reset :: "string \<Rightarrow> Lockout option \<Rightarrow> Lockout option" where
  "Reset key lo = map_option (\<lambda>l. l\<lparr>lo_entries := AList.delete key (lo_entries l)\<rparr>) lo"

datatype lock_call = CallFail time string | CallReset time string

primrec call_time :: "lock_call \<Rightarrow> time" where
  "call_time (CallFail t k) = t"
| "call_time (CallReset t k) = t"

primrec call_key :: "lock_call \<Rightarrow> string" where
  "call_key (CallFail t k) = k"
| "call_key (CallReset t k) = k"

primrec do_call :: "lock_call \<Rightarrow> Lockout option \<Rightarrow> Lockout option" where
  "do_call (CallFail t k) lo = Fail t k lo"
| "do_call (CallReset t k) lo = Reset k lo"

definition do_calls :: "lock_call list \<Rightarrow> Lockout option \<Rightarrow> Lockout option" where
  "do_calls cs lo = fold do_call cs lo"

text \<open>Failures of a key after its last success.\<close>

definition failures_since_reset :: "string \<Rightarrow> lock_call list \<Rightarrow> nat" where
  "failures_since_reset key cs =
     length (takeWhile (\<lambda>c. c = CallFail (call_time c) key) (filter (\<lambda>c. call_key c = key) (rev cs)))"

lemma failures_since_reset_snoc:
  "failures_since_reset key (cs @ [c]) =
     (case c of CallFail t k \<Rightarrow> (if k = key then 1 else 0) + failures_since_reset key cs
      | CallReset t k \<Rightarrow> if k = key then 0 else failures_since_reset key cs)"
  by (cases c) (auto simp: failures_since_reset_def)

lemma lockout_config:
  assumes "NewLockout m d = Some start" "do_calls cs (Some start) = lo"
  shows "\<exists>l. lo = Some l \<and> lo_maxFailures l = m \<and> lo_duration l = d \<and>
    distinct (map fst (lo_entries l)) \<and> 1 \<le> m \<and> 1 \<le> d"
  using assms(2)
proof (induction cs arbitrary: lo rule: rev_induct)
  case Nil
  then show ?case using assms(1) by (auto simp: do_calls_def NewLockout_def split: if_splits)
next
  case (snoc c cs)
  then show ?case
    by (cases c)
      (auto simp: do_calls_def Fail_def Reset_def Let_def sweep_entries_def distinct_update
        distinct_delete distinct_map_filter split: option.splits)
qed

definition entry :: "string \<Rightarrow> Lockout option \<Rightarrow> lockEntry option" where
  "entry key lo = (case lo of None \<Rightarrow> None | Some l \<Rightarrow> map_of (lo_entries l) key)"

text \<open>What a call leaves behind for a key; a swept entry is a stale one.\<close>

lemma entry_Fail:
  assumes "distinct (map fst (lo_entries l))"
  shows "entry key (Fail t key (Some l)) =
      Some (bump t l (case entry key (Some l) of None \<Rightarrow> zeroEntry
        | Some e \<Rightarrow> if stale t (lo_duration l) e then zeroEntry else e))"
    and "k \<noteq> key \<Longrightarrow> entry key (Fail t k (Some l)) = entry key (Some l) \<or>
      (\<exists>e. entry key (Some l) = Some e \<and> stale t (lo_duration l) e \<and>
        entry key (Fail t k (Some l)) = None)"
  using assms
  by (auto simp: entry_def Fail_def Let_def update_conv' sweep_entries_def map_of_filter_pred
      split: option.splits)

lemma entry_Reset: "entry key (Reset k lo) = (if k = key then None else entry key lo)"
  by (auto simp: entry_def Reset_def delete_conv' split: option.splits)

lemma Locked_eq:
  "Locked now key lo = (case entry key lo of None \<Rightarrow> (False, 0)
    | Some e \<Rightarrow> if now < le_lockedUntil e then (True, le_lockedUntil e - now) else (False, 0))"
  by (auto simp: Locked_def entry_def split: option.splits)

lemma Locked_entry: "fst (Locked now key lo) \<longleftrightarrow> (\<exists>e. entry key lo = Some e \<and> now < le_lockedUntil e)"
  by (auto simp: Locked_eq split: option.splits)

text \<open>Bookkeeping kept by every call: a counter never exceeds the failures since the last
  success, and an entry that ever locked had as many as the limit.\<close>

lemma lockout_counts:
  assumes "NewLockout m d = Some start" "entry key (do_calls cs (Some start)) = Some e"
  shows "0 \<le> le_failures e \<and> le_failures e \<le> int (failures_since_reset key cs) \<and>
    (le_lockedUntil e \<noteq> ZeroTime \<longrightarrow> m \<le> int (failures_since_reset key cs))"
  using assms(2)
proof (induction cs arbitrary: e rule: rev_induct)
  case Nil
  then show ?case using assms(1) by (auto simp: do_calls_def entry_def NewLockout_def split: if_splits)
next
  case (snoc c cs)
  obtain l where l: "do_calls cs (Some start) = Some l" "distinct (map fst (lo_entries l))"
    "lo_maxFailures l = m" "1 \<le> m"
    using lockout_config [OF assms(1) refl] by blast
  have run: "do_calls (cs @ [c]) (Some start) = do_call c (Some l)"
    using l(1) by (simp add: do_calls_def)
  show ?case
  proof (cases c)
    case (CallFail t k)
    show ?thesis
    proof (cases "k = key")
      case True
      have "e = bump t l (case entry key (Some l) of None \<Rightarrow> zeroEntry
          | Some e \<Rightarrow> if stale t (lo_duration l) e then zeroEntry else e)"
        using snoc.prems entry_Fail(1) [OF l(2), of key t] run [unfolded CallFail] by (simp add: CallFail True)
      then show ?thesis
        using snoc.IH l True
        by (auto simp: CallFail failures_since_reset_snoc bump_def Let_def zeroEntry_def
            split: option.splits if_splits)
    next
      case False
      with entry_Fail(2) [OF l(2) False, of t] snoc.prems
      have "entry key (Some l) = Some e" using run [unfolded CallFail] by (auto simp: CallFail)
      with snoc.IH l(1) False show ?thesis by (simp add: CallFail failures_since_reset_snoc)
    qed
  next
    case (CallReset t k)
    with snoc.prems snoc.IH l(1) run [unfolded CallReset] show ?thesis
      by (auto simp: entry_Reset failures_since_reset_snoc split: if_splits)
  qed
qed

text \<open>
  C33 A login is locked only after as many failures as configured, with no success in between:
  any number of other logins, resets and sweeps cannot lock it.
\<close>

theorem lockout_sound:
  assumes "NewLockout m d = Some start" "ZeroTime \<le> now"
    and "fst (Locked now key (do_calls cs (Some start)))"
  shows "m \<le> int (failures_since_reset key cs)"
proof -
  obtain e where e: "entry key (do_calls cs (Some start)) = Some e" "now < le_lockedUntil e"
    using assms(3) by (auto simp: Locked_entry)
  then have "le_lockedUntil e \<noteq> ZeroTime" using assms(2) by auto
  with lockout_counts [OF assms(1) e(1)] show ?thesis by blast
qed

theorem lockout_sound_witness:
  "(2::int) \<le> int (failures_since_reset ''bob'' [CallFail 1 ''bob'', CallFail 2 ''bob''])"
  by (rule lockout_sound [where d = Minute and now = 3
        and start = "\<lparr>lo_maxFailures = 2, lo_duration = Minute, lo_entries = []\<rparr>"])
    code_simp+

text \<open>The times of the failures of one key.\<close>

fun fail_times :: "string \<Rightarrow> lock_call list \<Rightarrow> time list" where
  "fail_times key [] = []"
| "fail_times key (CallFail t k # cs) = (if k = key then t # fail_times key cs else fail_times key cs)"
| "fail_times key (CallReset t k # cs) = fail_times key cs"

lemma fail_times_append: "fail_times key (xs @ ys) = fail_times key xs @ fail_times key ys"
  by (induction key xs rule: fail_times.induct) auto

lemma fail_times_subset: "t \<in> set (fail_times key cs) \<Longrightarrow> t \<in> call_time ` set cs"
  by (induction key cs rule: fail_times.induct) (auto split: if_splits)

definition streak_entry :: "int \<Rightarrow> duration \<Rightarrow> time list \<Rightarrow> lockEntry" where
  "streak_entry m d ts =
     \<lparr>le_failures = (if int (length ts) = m then 0 else int (length ts)),
      le_lastFailure = last ts,
      le_lockedUntil = (if int (length ts) = m then last ts + d else ZeroTime)\<rparr>"

lemma bump_streak:
  assumes "lo_maxFailures l = m" "lo_duration l = d" "int (length ts) < m" "ts \<noteq> []"
  shows "bump t l (streak_entry m d ts) = streak_entry m d (ts @ [t])"
  using assms by (simp add: bump_def streak_entry_def Let_def)

lemma bump_first:
  assumes "lo_maxFailures l = m" "lo_duration l = d"
    "1 \<le> m"
  shows "bump t l zeroEntry = streak_entry m d [t]"
  using assms by (auto simp: bump_def streak_entry_def zeroEntry_def Let_def)

lemma streak_run:
  assumes new: "NewLockout m d = Some start"
    and "sorted (map call_time cs)" "\<forall>c \<in> set cs. ZeroTime \<le> call_time c"
    and "\<forall>t. CallReset t key \<notin> set cs"
    and "successively (\<lambda>x y. y - x < d) (fail_times key cs)"
    and "int (length (fail_times key cs)) \<le> m"
  shows "if fail_times key cs = [] then entry key (do_calls cs (Some start)) = None
    else entry key (do_calls cs (Some start)) = Some (streak_entry m d (fail_times key cs)) \<or>
      entry key (do_calls cs (Some start)) = None \<and> call_time (last cs) - last (fail_times key cs) \<ge> d"
  using assms(2-)
proof (induction cs rule: rev_induct)
  case Nil
  then show ?case using new by (auto simp: do_calls_def entry_def NewLockout_def split: if_splits)
next
  case (snoc c cs)
  let ?ts = "fail_times key cs"
  obtain l where l: "do_calls cs (Some start) = Some l" "distinct (map fst (lo_entries l))"
    "lo_maxFailures l = m" "lo_duration l = d" "1 \<le> m" "1 \<le> d"
    using lockout_config [OF new refl] by blast
  have run: "do_calls (cs @ [c]) (Some start) = do_call c (Some l)"
    using l(1) by (simp add: do_calls_def)
  have sub: "successively (\<lambda>x y. y - x < d) ?ts" "int (length ?ts) \<le> m"
    using snoc.prems(4,5) by (auto simp: fail_times_append successively_append_iff)
  have IH: "if ?ts = [] then entry key (Some l) = None
    else entry key (Some l) = Some (streak_entry m d ?ts) \<or>
      entry key (Some l) = None \<and> call_time (last cs) - last ?ts \<ge> d"
    unfolding l(1) [symmetric] by (rule snoc.IH) (use snoc.prems sub in \<open>auto simp: sorted_append\<close>)
  have last_le: "cs \<noteq> [] \<Longrightarrow> call_time (last cs) \<le> call_time c"
    using snoc.prems(1) by (simp add: sorted_append)
  have ne: "?ts \<noteq> [] \<Longrightarrow> cs \<noteq> []" by auto
  show ?case
  proof (cases "call_key c = key")
    case True
    then obtain t where c: "c = CallFail t key"
      using snoc.prems(3) by (cases c) auto
    have ts: "fail_times key (cs @ [c]) = ?ts @ [t]" by (simp add: c fail_times_append)
    have step: "entry key (do_calls (cs @ [c]) (Some start)) =
      Some (bump t l (case entry key (Some l) of None \<Rightarrow> zeroEntry
        | Some e \<Rightarrow> if stale t d e then zeroEntry else e))"
      using entry_Fail(1) [OF l(2), of key t, unfolded l(4)] run [unfolded c] by (simp add: c)
    show ?thesis
    proof (cases "?ts = []")
      case True
      with IH step bump_first [OF l(3,4,5)] show ?thesis by (simp add: ts)
    next
      case False
      have gap: "t - last ?ts < d" and short: "int (length ?ts) < m"
        using snoc.prems(4,5) False by (simp_all add: ts successively_append_iff)
      have "call_time (last cs) \<le> t" using last_le ne False by (simp add: c)
      then have e: "entry key (Some l) = Some (streak_entry m d ?ts)"
        using IH False gap by auto
      have "\<not> stale t d (streak_entry m d ?ts)"
        using gap by (simp add: stale_def streak_entry_def)
      with step e bump_streak [OF l(3,4) short False] show ?thesis by (simp add: ts)
    qed
  next
    case False
    then have ts: "fail_times key (cs @ [c]) = ?ts" by (cases c) (auto simp: fail_times_append)
    have e: "entry key (do_calls (cs @ [c]) (Some start)) = entry key (Some l) \<or>
      (\<exists>e. entry key (Some l) = Some e \<and> stale (call_time c) d e \<and>
        entry key (do_calls (cs @ [c]) (Some start)) = None)"
      unfolding run
      using entry_Fail(2) [OF l(2)] False
      by (cases c) (auto simp: entry_Reset l(4))
    show ?thesis
    proof (cases "?ts = []")
      case True
      with IH e show ?thesis by (auto simp: ts)
    next
      case False
      with e IH last_le ne show ?thesis by (auto simp: ts stale_def streak_entry_def)
    qed
  qed
qed

text \<open>
  The configured number of failures in a row, no two of them a lockout duration apart, locks
  the login until that duration has passed since the last one, whatever happens to other
  logins meanwhile.
\<close>

theorem lockout_trips:
  assumes "NewLockout m d = Some start"
    and "sorted (map call_time cs @ [now])" "\<forall>c \<in> set cs. ZeroTime \<le> call_time c"
    and "\<forall>t. CallReset t key \<notin> set cs"
    and "successively (\<lambda>x y. y - x < d) (fail_times key cs)"
    and "int (length (fail_times key cs)) = m"
  shows "Locked now key (do_calls cs (Some start)) =
    (if now < last (fail_times key cs) + d then (True, last (fail_times key cs) + d - now)
     else (False, 0))"
proof -
  let ?ts = "fail_times key cs"
  have "1 \<le> m" using lockout_config [OF assms(1) refl] by blast
  then have ne: "?ts \<noteq> []" and len: "int (length ?ts) = m" using assms(6) by auto
  have s: "sorted (map call_time cs)" "cs \<noteq> [] \<Longrightarrow> call_time (last cs) \<le> now"
    using assms(2) by (auto simp: sorted_append)
  consider "entry key (do_calls cs (Some start)) = Some (streak_entry m d ?ts)"
    | "entry key (do_calls cs (Some start)) = None" "last ?ts + d \<le> now"
    using streak_run [OF assms(1) s(1) assms(3,4,5)] ne len s(2) by fastforce
  then show ?thesis
    by cases (simp_all add: Locked_eq streak_entry_def len)
qed

theorem lockout_trips_witness:
  "Locked 7 ''bob'' (do_calls [CallFail 1 ''bob'', CallReset 2 ''eve'', CallFail 5 ''bob'']
     (Some \<lparr>lo_maxFailures = 2, lo_duration = 10, lo_entries = []\<rparr>)) = (True, 8)"
  using lockout_trips [of 2 10 "\<lparr>lo_maxFailures = 2, lo_duration = 10, lo_entries = []\<rparr>"
      "[CallFail 1 ''bob'', CallReset 2 ''eve'', CallFail 5 ''bob'']" 7 "''bob''"]
  by (simp add: NewLockout_def ZeroTime_def Second_def)

end
