(* ===== verification/Model.thy ===== *)
theory Model
  imports Platform Complex_Main
begin

text \<open>
  The data model (the \<open>model.go\<close> files of the feature packages and the tables of
  \<open>migrations/\<close>) and the database the repositories talk to.

  A \<open>world\<close> holds the tables as lists of rows in insertion order, the names of the stored
  files, the sequence of the sticker numbers, the next identifier, the
  clock of the request being served, the washing points \<open>eventbus.Publish\<close> was called for, the
  messages handed to the push provider and the SMS gateway, and a schedule of database faults: every statement first takes the next entry of \<open>w_faults\<close>,
  and fails with an internal error, changing nothing, when it is \<open>True\<close>. An empty schedule is
  a database that answers every call. A theorem about an arbitrary world thus covers a failure
  at every statement of the operation.

  \<open>BeforeCreate\<close> gives a row a version 7 UUID: the model hands out the next unused number.
  Constraints of the tables (unique indexes, checks, the EXCLUDE constraint of \<open>queue\<close>) are
  part of the operation that inserts or updates.
\<close>

section \<open>Rows\<close>

record User =
  u_ID :: uuid
  u_PhoneNumber :: "string option"
  u_Name :: "string option"
  u_Role :: string
  u_WashingPointID :: "uuid option"
  u_LastLoginAt :: "time option"
  u_Username :: "string option"
  u_PasswordHash :: "string option"
  u_CreatedAt :: time

definition RoleCustomer :: string where "RoleCustomer = ''customer''"
definition RoleStaff :: string where "RoleStaff = ''staff''"
definition RoleAdmin :: string where "RoleAdmin = ''admin''"
definition RoleWorker :: string where "RoleWorker = ''worker''"

definition PhoneOrEmpty :: "User \<Rightarrow> string" where
  "PhoneOrEmpty u = (case u_PhoneNumber u of None \<Rightarrow> [] | Some p \<Rightarrow> p)"

record Car =
  car_ID :: uuid
  car_UserID :: uuid
  car_Name :: string
  car_Plate :: "string option"
  car_CreatedAt :: time

datatype wp_status = WpActive | WpPaused | WpPendingReview

record WashingPoint =
  wp_ID :: uuid
  wp_OwnerID :: "uuid option"
  wp_Name :: string
  wp_Address :: string
  wp_Latitude :: rat
  wp_Longitude :: rat
  wp_BoxesCount :: int
  wp_OpenTime :: string
  wp_CloseTime :: string
  wp_Status :: wp_status
  wp_Description :: "string option"
  wp_Amenities :: "string list"
  wp_CreatedAt :: time

record ServicePriceOption =
  po_ID :: uuid
  po_ServiceID :: uuid
  po_Name :: string
  po_PriceCents :: int
  po_IsDefault :: bool
  po_CreatedAt :: time

record Service =
  sv_ID :: uuid
  sv_WashingPointID :: uuid
  sv_Name :: string
  sv_Description :: "string option"
  sv_DurationMinutes :: int
  sv_QueueMinutes :: "int option"
  sv_PictureURL :: "string option"
  sv_IsActive :: bool
  sv_CreatedAt :: time

definition EffectiveQueueMinutes :: "Service \<Rightarrow> int" where
  "EffectiveQueueMinutes s = (case sv_QueueMinutes s of Some m \<Rightarrow> m | None \<Rightarrow> sv_DurationMinutes s)"

record Box =
  bx_ID :: uuid
  bx_WashingPointID :: uuid
  bx_Number :: int
  bx_Label :: "string option"
  bx_IsOpen :: bool

record WashingPointSchedule =
  sch_ID :: uuid
  sch_WashingPointID :: uuid
  sch_Weekday :: int
  sch_IsOpen :: bool
  sch_OpenTime :: "string option"
  sch_CloseTime :: "string option"
  sch_BreakStart :: "string option"
  sch_BreakEnd :: "string option"

datatype Status =
  StatusQueue | StatusWaiting | StatusWashing | StatusReady | StatusCanceled | StatusNoShow

definition all_statuses :: "Status list" where
  "all_statuses =
     [StatusQueue, StatusWaiting, StatusWashing, StatusReady, StatusCanceled, StatusNoShow]"

lemma all_statuses: "s \<in> set all_statuses"
  by (cases s) (simp_all add: all_statuses_def)

primrec status_string :: "Status \<Rightarrow> string" where
  "status_string StatusQueue = ''queue''"
| "status_string StatusWaiting = ''waiting''"
| "status_string StatusWashing = ''washing''"
| "status_string StatusReady = ''ready''"
| "status_string StatusCanceled = ''canceled''"
| "status_string StatusNoShow = ''no_show''"

lemma status_string_inject [simp]: "status_string s = status_string t \<longleftrightarrow> s = t"
  by (cases s; cases t) simp_all

datatype Source = SourceApp | SourceQR | SourceManual

record QueueItem =
  qi_ID :: uuid
  qi_QueueID :: uuid
  qi_ServiceID :: uuid
  qi_PriceOptionID :: uuid
  qi_Position :: int

record Queue =
  q_ID :: uuid
  q_Status :: Status
  q_UserID :: uuid
  q_CarID :: "uuid option"
  q_ServiceID :: uuid
  q_PriceOptionID :: uuid
  q_WashingPointID :: uuid
  q_BoxNumber :: int
  q_IsOverflow :: bool
  q_ScheduledStartAt :: time
  q_ScheduledEndAt :: time
  q_Notes :: "string option"
  q_Source :: Source
  q_CanceledAt :: "time option"
  q_PausedAt :: "time option"
  q_CreatedAt :: time
  q_Items :: "QueueItem list"

record OTPCode =
  otp_ID :: uuid
  otp_PhoneNumber :: string
  otp_CodeHash :: string
  otp_ExpiresAt :: time
  otp_Attempts :: int
  otp_ConsumedAt :: "time option"
  otp_CreatedAt :: time

record RefreshToken =
  rt_ID :: uuid
  rt_UserID :: uuid
  rt_TokenHash :: string
  rt_ExpiresAt :: time
  rt_RevokedAt :: "time option"
  rt_CreatedAt :: time

datatype qr_status = QrFree | QrAssigned | QrDisabled

record QRCode =
  qr_ID :: uuid
  qr_Seq :: int
  qr_Token :: string
  qr_BatchLabel :: string
  qr_Status :: qr_status
  qr_WashingPointID :: "uuid option"
  qr_AssignedAt :: "time option"
  qr_DisabledAt :: "time option"
  qr_ReplacementRequestedAt :: "time option"
  qr_CreatedAt :: time

record QRScan =
  scan_ID :: uuid
  scan_QRCodeID :: uuid
  scan_ScannedAt :: time

record Photo =
  ph_ID :: uuid
  ph_WashingPointID :: uuid
  ph_URL :: string
  ph_IsCover :: bool
  ph_SortOrder :: int
  ph_CreatedAt :: time

record Owner =
  ow_ID :: uuid
  ow_Name :: string
  ow_ContactName :: "string option"
  ow_ContactPhone :: "string option"
  ow_ContactEmail :: "string option"
  ow_CreatedAt :: time

datatype request_status = ReqNew | ReqApproved | ReqRejected

record ConnectionRequest =
  cr_ID :: uuid
  cr_BusinessName :: string
  cr_ContactName :: "string option"
  cr_ContactPhone :: string
  cr_Address :: "string option"
  cr_BoxesCount :: "int option"
  cr_Note :: "string option"
  cr_Status :: request_status
  cr_ReviewedBy :: "uuid option"
  cr_ReviewedAt :: "time option"
  cr_CreatedAt :: time

record BookingPhoto =
  bp_ID :: uuid
  bp_QueueID :: uuid
  bp_URL :: string
  bp_CreatedAt :: time

record DeviceToken =
  dt_ID :: uuid
  dt_UserID :: uuid
  dt_Token :: string
  dt_Platform :: string
  dt_CreatedAt :: time

datatype notification_status = NotPending | NotSent | NotFailed
datatype notification_channel = ChannelSMS | ChannelPush
datatype notification_kind = KindReminder | KindLate | KindStarted | KindFinished

record Notification =
  nt_ID :: uuid
  nt_UserID :: uuid
  nt_QueueID :: "uuid option"
  nt_Status :: notification_status
  nt_Channel :: notification_channel
  nt_Kind :: "notification_kind option"
  nt_Text :: string
  nt_SendAt :: time
  nt_SentAt :: "time option"
  nt_CreatedAt :: time

text \<open>
  What the program hands to the outside: a push to a device token, whose data names the type, the
  kind and the booking, or an SMS to a phone number.
\<close>

record push_message =
  pm_Title :: string
  pm_Body :: string
  pm_Type :: string
  pm_Kind :: string
  pm_QueueID :: uuid

datatype outbound = Push string push_message | Sms string string

section \<open>The world\<close>

record world =
  w_users :: "User list"
  w_cars :: "Car list"
  w_points :: "WashingPoint list"
  w_services :: "Service list"
  w_options :: "ServicePriceOption list"
  w_boxes :: "Box list"
  w_schedules :: "WashingPointSchedule list"
  w_queue :: "Queue list"
  w_items :: "QueueItem list"
  w_otps :: "OTPCode list"
  w_tokens :: "RefreshToken list"
  w_qrcodes :: "QRCode list"
  w_scans :: "QRScan list"
  w_photos :: "Photo list"
  w_owners :: "Owner list"
  w_requests :: "ConnectionRequest list"
  w_bphotos :: "BookingPhoto list"
  w_devices :: "DeviceToken list"
  w_notifications :: "Notification list"
  w_files :: "string list"
  w_seq :: int
  w_next :: uuid
  w_now :: time
  w_faults :: "bool list"
  w_published :: "uuid list"
  w_outbox :: "outbound list"

type_synonym 'a db = "(world, apperror, 'a) action"

definition empty_world :: "time \<Rightarrow> world" where
  "empty_world now =
     \<lparr>w_users = [], w_cars = [], w_points = [], w_services = [], w_options = [], w_boxes = [],
      w_schedules = [], w_queue = [], w_items = [], w_otps = [], w_tokens = [], w_qrcodes = [],
      w_scans = [], w_photos = [], w_owners = [], w_requests = [], w_bphotos = [], w_devices = [],
      w_notifications = [], w_files = [], w_seq = 1, w_next = 1, w_now = now, w_faults = [], w_published = [],
      w_outbox = []\<rparr>"

text \<open>One statement: take the next fault, then run.\<close>

definition statement :: "'a db \<Rightarrow> 'a db" where
  "statement m =
     (\<lambda>w. case w_faults w of
            [] \<Rightarrow> m w
          | f # fs \<Rightarrow> if f then (Inl Internal, w\<lparr>w_faults := fs\<rparr>) else m (w\<lparr>w_faults := fs\<rparr>))"

definition query :: "(world \<Rightarrow> 'a) \<Rightarrow> 'a db" where
  "query f = statement (reads f)"

definition exec :: "(world \<Rightarrow> world) \<Rightarrow> unit db" where
  "exec f = statement (writes f)"

text \<open>\<open>First\<close> with \<open>ErrRecordNotFound\<close> turned into a typed error.\<close>

definition first_or :: "apperror \<Rightarrow> (world \<Rightarrow> 'a option) \<Rightarrow> 'a db" where
  "first_or e f = bindE (query f) (\<lambda>r. case r of None \<Rightarrow> fail_with e | Some x \<Rightarrow> return_ok x)"

text \<open>
  \<open>db.Transaction\<close>: BEGIN, the body, COMMIT; an error of any of them rolls the tables back. The
  identifiers handed out and the faults that occurred are not undone.
\<close>

definition rollback :: "world \<Rightarrow> world \<Rightarrow> world" where
  "rollback before after =
     before\<lparr>w_faults := w_faults after, w_next := max (w_next before) (w_next after)\<rparr>"

definition transaction :: "'a db \<Rightarrow> 'a db" where
  "transaction m =
     (\<lambda>w. case bindE (query (\<lambda>_. ())) (\<lambda>_. bindE m (\<lambda>x. bindE (query (\<lambda>_. ())) (\<lambda>_. return_ok x))) w of
            (Inr x, w') \<Rightarrow> (Inr x, w')
          | (Inl e, w') \<Rightarrow> (Inl e, rollback w w'))"

text \<open>\<open>uuid.NewV7()\<close> in \<open>BeforeCreate\<close>: never the nil UUID, never one handed out before.\<close>

definition fresh_id :: "uuid db" where
  "fresh_id = (\<lambda>w. (Inr (w_next w), w\<lparr>w_next := w_next w + 1\<rparr>))"

definition time_Now :: "time db" where
  "time_Now = reads w_now"

definition Publish :: "uuid \<Rightarrow> unit db" where
  "Publish washingPointID = writes (\<lambda>w. w\<lparr>w_published := w_published w @ [washingPointID]\<rparr>)"

subsection \<open>Rules for statements\<close>

lemma world_noop:
  "w\<lparr>w_faults := fs, w_next := w_next w\<rparr> = w\<lparr>w_faults := fs\<rparr>"
  "w\<lparr>w_faults := w_faults w, w_next := n\<rparr> = w\<lparr>w_next := n\<rparr>"
  "w_faults w = fs \<Longrightarrow> w\<lparr>w_faults := fs\<rparr> = w"
  by (cases w, simp)+

lemma statement_cases [case_names fault runs]:
  obtains fs where "w_faults w = True # fs" "statement m w = (Inl Internal, w\<lparr>w_faults := fs\<rparr>)"
    | fs where "statement m w = m (w\<lparr>w_faults := fs\<rparr>)"
      "w_faults w = [] \<and> fs = [] \<or> w_faults w = False # fs"
proof (cases "w_faults w")
  case Nil
  with that(2) [of "[]"] show ?thesis by (simp add: statement_def world_noop)
next
  case (Cons f fs)
  with that show ?thesis by (cases f) (auto simp: statement_def)
qed

lemma statement_Inr:
  assumes "statement m w = (Inr x, w')"
  obtains fs where "m (w\<lparr>w_faults := fs\<rparr>) = (Inr x, w')"
    "w_faults w = [] \<and> fs = [] \<or> w_faults w = False # fs"
  using assms that by (cases rule: statement_cases [where w = w and m = m]) auto

lemma statement_Inl:
  assumes "statement m w = (Inl e, w')"
  obtains fs where "e = Internal" "w' = w\<lparr>w_faults := fs\<rparr>"
    | fs where "m (w\<lparr>w_faults := fs\<rparr>) = (Inl e, w')"
  using assms that by (cases rule: statement_cases [where w = w and m = m]) auto

lemma statement_no_fault [simp]: "w_faults w = [] \<Longrightarrow> statement m w = m w"
  by (simp add: statement_def)

lemma query_no_fault [simp]: "w_faults w = [] \<Longrightarrow> query f w = (Inr (f w), w)"
  by (simp add: query_def)

lemma exec_no_fault [simp]: "w_faults w = [] \<Longrightarrow> exec f w = (Inr (), f w)"
  by (simp add: exec_def)

lemma first_or_no_fault [simp]:
  "w_faults w = [] \<Longrightarrow>
   first_or e f w = (case f w of None \<Rightarrow> (Inl e, w) | Some x \<Rightarrow> (Inr x, w))"
  by (simp add: first_or_def bindE_def split: option.splits)

lemma bindE_no_fault:
  "w_faults w = [] \<Longrightarrow> bindE (query f) g w = g (f w) w"
  "w_faults w = [] \<Longrightarrow> bindE (exec h) g' w = g' () (h w)"
  by (simp_all add: bindE_def)

lemma query_Inr:
  assumes "query f w = (Inr x, w')"
  obtains fs where "w' = w\<lparr>w_faults := fs\<rparr>" "x = f (w\<lparr>w_faults := fs\<rparr>)"
    "w_faults w = [] \<and> fs = [] \<or> w_faults w = False # fs"
  using assms that by (cases rule: statement_cases [where w = w and m = "reads f :: _ db"]) (auto simp: query_def)

text \<open>A query that does not look at the faults returns its value on the state before.\<close>

lemma query_eq:
  assumes "query f w = (Inr x, w')" "\<And>fs. f (w\<lparr>w_faults := fs\<rparr>) = f w"
  shows "x = f w" "\<exists>fs. w' = w\<lparr>w_faults := fs\<rparr>"
  using query_Inr [OF assms(1)] assms(2) by metis+

lemma exec_Inr:
  assumes "exec f w = (Inr x, w')"
  obtains fs where "w' = f (w\<lparr>w_faults := fs\<rparr>)"
    "w_faults w = [] \<and> fs = [] \<or> w_faults w = False # fs"
  using assms that by (cases rule: statement_cases [where w = w and m = "writes f :: _ db"]) (auto simp: exec_def)

lemma query_Inl:
  assumes "query f w = (Inl e, w')"
  obtains fs where "w' = w\<lparr>w_faults := fs\<rparr>" "e = Internal" "w_faults w = True # fs"
  using assms that by (cases rule: statement_cases [where w = w and m = "reads f :: _ db"]) (auto simp: query_def)

lemma first_or_Inr:
  assumes "first_or e f w = (Inr x, w')"
  obtains fs where "w' = w\<lparr>w_faults := fs\<rparr>" "f (w\<lparr>w_faults := fs\<rparr>) = Some x"
    "w_faults w = [] \<and> fs = [] \<or> w_faults w = False # fs"
  using assms that
  by (auto simp: first_or_def elim!: bindE_InrE query_Inr split: option.splits)

text \<open>A property of the tables: it does not look at the faults or the identifier counter.\<close>

definition table_property :: "(world \<Rightarrow> bool) \<Rightarrow> bool" where
  "table_property I \<longleftrightarrow> (\<forall>w fs n. I w \<longrightarrow> n \<ge> w_next w \<longrightarrow> I (w\<lparr>w_faults := fs, w_next := n\<rparr>))"

lemma table_propertyI:
  "(\<And>w fs n. I w \<Longrightarrow> n \<ge> w_next w \<Longrightarrow> I (w\<lparr>w_faults := fs, w_next := n\<rparr>)) \<Longrightarrow> table_property I"
  by (simp add: table_property_def)

lemma table_property_faults: "table_property I \<Longrightarrow> I w \<Longrightarrow> I (w\<lparr>w_faults := fs\<rparr>)"
  by (metis order_refl table_property_def world_noop(1))

lemma table_property_next: "table_property I \<Longrightarrow> I w \<Longrightarrow> n \<ge> w_next w \<Longrightarrow> I (w\<lparr>w_next := n\<rparr>)"
  by (metis table_property_def world_noop(2))

lemma preserves_statement:
  assumes "table_property I" "preserves I m"
  shows "preserves I (statement m)"
proof (rule preservesI)
  fix w assume "I w"
  then have "I (w\<lparr>w_faults := fs\<rparr>)" for fs using assms(1) by (simp add: table_property_faults)
  with assms(2) show "I (snd (statement m w))"
    by (cases rule: statement_cases [where w = w and m = m]) (auto simp: preserves_def)
qed

lemma preserves_query: "table_property I \<Longrightarrow> preserves I (query f)"
  by (simp add: query_def preserves_statement preserves_pure)

lemma preserves_exec: "table_property I \<Longrightarrow> (\<And>w. I w \<Longrightarrow> I (f w)) \<Longrightarrow> preserves I (exec f)"
  by (simp add: exec_def preserves_statement preserves_writes)

lemma preserves_first_or: "table_property I \<Longrightarrow> preserves I (first_or e f)"
  by (simp add: first_or_def preserves_bindE preserves_query preserves_case_option preserves_pure)

lemma preserves_fresh_id: "table_property I \<Longrightarrow> preserves I fresh_id"
  by (auto simp: preserves_def fresh_id_def table_property_next)

lemma preserves_transaction:
  assumes "table_property I" "preserves I m"
  shows "preserves I (transaction m)"
proof (rule preservesI)
  fix w assume I: "I w"
  let ?m = "bindE (query (\<lambda>_. ())) (\<lambda>_. bindE m (\<lambda>x. bindE (query (\<lambda>_. ())) (\<lambda>_. return_ok x)))"
  have p: "preserves I ?m"
    using assms by (intro preserves_bindE preserves_query preserves_pure)
  obtain r w' where r: "?m w = (r, w')" by (cases "?m w")
  show "I (snd (transaction m w))"
  proof (cases r)
    case (Inl e)
    have "I (w\<lparr>w_faults := w_faults w', w_next := max (w_next w) (w_next w')\<rparr>)"
      using assms(1) I by (simp add: table_property_def)
    then show ?thesis using r Inl by (simp add: transaction_def rollback_def)
  next
    case (Inr x)
    then show ?thesis using preservesD [OF p I r] r by (simp add: transaction_def)
  qed
qed

lemma transaction_no_fault:
  assumes "w_faults w = []" "m w = (r, w')" "\<And>x. r = Inr x \<Longrightarrow> w_faults w' = []"
  shows "transaction m w = (case r of Inl e \<Rightarrow> (Inl e, rollback w w') | Inr x \<Rightarrow> (Inr x, w'))"
proof (cases r)
  case (Inl e)
  then show ?thesis using assms by (simp add: transaction_def bindE_no_fault bindE_Inl)
next
  case (Inr x)
  then show ?thesis
    using assms by (simp add: transaction_def bindE_no_fault bindE_Inr)
qed

lemma transaction_ok:
  "w_faults w = [] \<Longrightarrow> m w = (Inr x, w') \<Longrightarrow> w_faults w' = [] \<Longrightarrow> transaction m w = (Inr x, w')"
  using transaction_no_fault [where m = m and w = w and r = "Inr x" and w' = w'] by simp

lemma transaction_Inr:
  assumes "transaction m w = (Inr x, w')"
  obtains u v where "query (\<lambda>_. ()) w = (Inr (), u)" "m u = (Inr x, v)" "query (\<lambda>_. ()) v = (Inr (), w')"
  using assms
  by (auto simp: transaction_def split: prod.splits sum.splits elim!: bindE_InrE)

text \<open>A transaction that fails leaves every table as it was.\<close>

definition same_tables :: "world \<Rightarrow> world \<Rightarrow> bool" where
  "same_tables v w \<longleftrightarrow>
     v\<lparr>w_faults := [], w_next := 0\<rparr> = w\<lparr>w_faults := [], w_next := 0\<rparr>"

lemma same_tables_refl [simp]: "same_tables w w"
  by (simp add: same_tables_def)

lemma same_tables_trans: "same_tables u v \<Longrightarrow> same_tables v w \<Longrightarrow> same_tables u w"
  by (simp add: same_tables_def)

lemma same_tables_update [simp]:
  "same_tables (w\<lparr>w_faults := fs\<rparr>) w" "same_tables w (w\<lparr>w_faults := fs\<rparr>)"
  "same_tables (w\<lparr>w_next := n\<rparr>) w" "same_tables w (w\<lparr>w_next := n\<rparr>)"
  by (simp_all add: same_tables_def)

lemma same_tablesD:
  assumes "same_tables v w"
  shows "w_users v = w_users w"
    "w_cars v = w_cars w"
    "w_points v = w_points w"
    "w_services v = w_services w"
    "w_options v = w_options w"
    "w_boxes v = w_boxes w"
    "w_schedules v = w_schedules w"
    "w_queue v = w_queue w"
    "w_items v = w_items w"
    "w_otps v = w_otps w"
    "w_tokens v = w_tokens w"
    "w_qrcodes v = w_qrcodes w"
    "w_scans v = w_scans w"
    "w_photos v = w_photos w"
    "w_now v = w_now w"
    "w_published v = w_published w"
    "w_outbox v = w_outbox w"
    "w_owners v = w_owners w"
    "w_requests v = w_requests w"
    "w_bphotos v = w_bphotos w"
    "w_devices v = w_devices w"
    "w_notifications v = w_notifications w"
    "w_files v = w_files w"
    "w_seq v = w_seq w"
proof -
  have eq: "v\<lparr>w_faults := [], w_next := 0\<rparr> = w\<lparr>w_faults := [], w_next := 0\<rparr>"
    using assms by (simp add: same_tables_def)
  show "w_users v = w_users w" using arg_cong [OF eq, of w_users] by simp
  show "w_cars v = w_cars w" using arg_cong [OF eq, of w_cars] by simp
  show "w_points v = w_points w" using arg_cong [OF eq, of w_points] by simp
  show "w_services v = w_services w" using arg_cong [OF eq, of w_services] by simp
  show "w_options v = w_options w" using arg_cong [OF eq, of w_options] by simp
  show "w_boxes v = w_boxes w" using arg_cong [OF eq, of w_boxes] by simp
  show "w_schedules v = w_schedules w" using arg_cong [OF eq, of w_schedules] by simp
  show "w_queue v = w_queue w" using arg_cong [OF eq, of w_queue] by simp
  show "w_items v = w_items w" using arg_cong [OF eq, of w_items] by simp
  show "w_otps v = w_otps w" using arg_cong [OF eq, of w_otps] by simp
  show "w_tokens v = w_tokens w" using arg_cong [OF eq, of w_tokens] by simp
  show "w_qrcodes v = w_qrcodes w" using arg_cong [OF eq, of w_qrcodes] by simp
  show "w_scans v = w_scans w" using arg_cong [OF eq, of w_scans] by simp
  show "w_photos v = w_photos w" using arg_cong [OF eq, of w_photos] by simp
  show "w_now v = w_now w" using arg_cong [OF eq, of w_now] by simp
  show "w_published v = w_published w" using arg_cong [OF eq, of w_published] by simp
  show "w_outbox v = w_outbox w" using arg_cong [OF eq, of w_outbox] by simp
  show "w_owners v = w_owners w" using arg_cong [OF eq, of w_owners] by simp
  show "w_requests v = w_requests w" using arg_cong [OF eq, of w_requests] by simp
  show "w_bphotos v = w_bphotos w" using arg_cong [OF eq, of w_bphotos] by simp
  show "w_devices v = w_devices w" using arg_cong [OF eq, of w_devices] by simp
  show "w_notifications v = w_notifications w" using arg_cong [OF eq, of w_notifications] by simp
  show "w_files v = w_files w" using arg_cong [OF eq, of w_files] by simp
  show "w_seq v = w_seq w" using arg_cong [OF eq, of w_seq] by simp
qed

lemma transaction_atomic:
  assumes "transaction m w = (Inl e, w')"
  shows "same_tables w w'"
  using assms
  by (auto simp: transaction_def rollback_def same_tables_def split: prod.splits sum.splits)

text \<open>Actions that only read: they may consume faults and identifiers, no more.\<close>

definition read_only :: "'a db \<Rightarrow> bool" where
  "read_only m \<longleftrightarrow> (\<forall>w. same_tables w (snd (m w)))"

lemma read_onlyD: "read_only m \<Longrightarrow> m w = (r, w') \<Longrightarrow> same_tables w w'"
  by (metis read_only_def snd_conv)

lemma read_only_bindE:
  assumes "read_only m" "\<And>x. read_only (f x)"
  shows "read_only (bindE m f)"
  using assms
  by (auto simp: read_only_def bindE_def split: prod.splits sum.splits)
    (metis same_tables_trans snd_conv)+

lemma read_only_query: "read_only (query f)"
proof -
  have "same_tables w (snd (query f w))" for w
    by (cases rule: statement_cases [where w = w and m = "reads f :: _ db"]) (auto simp: query_def)
  then show ?thesis by (simp add: read_only_def)
qed

lemma read_only_pure:
  "read_only (return_ok x)" "read_only (fail_with e)" "read_only (reads f)"
  "read_only (require b e)" "read_only (lift_result r)" "read_only time_Now"
  by (simp_all add: read_only_def time_Now_def)

lemma read_only_if: "read_only m \<Longrightarrow> read_only k \<Longrightarrow> read_only (if b then m else k)"
  by simp

lemma read_only_case_option:
  "read_only m \<Longrightarrow> (\<And>x. read_only (f x)) \<Longrightarrow> read_only (case v of None \<Rightarrow> m | Some x \<Rightarrow> f x)"
  by (cases v) simp_all

lemma read_only_case_sum:
  "(\<And>x. read_only (f x)) \<Longrightarrow> (\<And>x. read_only (g x)) \<Longrightarrow>
   read_only (case v of Inl x \<Rightarrow> f x | Inr x \<Rightarrow> g x)"
  by (cases v) simp_all

lemma read_only_case_prod:
  "(\<And>x y. read_only (f x y)) \<Longrightarrow> read_only (case p of (x, y) \<Rightarrow> f x y)"
  by (cases p) simp

lemma read_only_first_or: "read_only (first_or e f)"
  by (simp add: first_or_def read_only_bindE read_only_query read_only_case_option read_only_pure)

lemma read_only_forE: "(\<And>x. read_only (f x)) \<Longrightarrow> read_only (forE xs f)"
  by (induction xs) (simp_all add: read_only_pure read_only_bindE)

lemma read_only_foldE: "(\<And>b x. read_only (f b x)) \<Longrightarrow> read_only (foldE f b xs)"
  by (induction xs arbitrary: b) (simp_all add: read_only_pure read_only_bindE)

lemmas read_only_intros = read_only_bindE read_only_query read_only_pure read_only_if
  read_only_case_option read_only_case_sum read_only_case_prod read_only_first_or
  read_only_forE read_only_foldE

lemma bindE_read_only:
  assumes "read_only m" "bindE m f w = (r, w')"
  obtains e where "m w = (Inl e, w')" "r = Inl e" "same_tables w w'"
    | x u where "m w = (Inr x, u)" "same_tables w u" "f x u = (r, w')"
  using assms(2)
proof (cases rule: bindE_cases)
  case (stop e)
  with read_onlyD [OF assms(1) stop(1)] that(1) show ?thesis by blast
next
  case (go x u)
  with read_onlyD [OF assms(1) go(1)] that(2) show ?thesis by blast
qed

text \<open>Actions that leave the tables alone when they fail.\<close>

definition atomic :: "'a db \<Rightarrow> bool" where
  "atomic m \<longleftrightarrow> (\<forall>w e w'. m w = (Inl e, w') \<longrightarrow> same_tables w w')"

definition never_fails :: "'a db \<Rightarrow> bool" where
  "never_fails m \<longleftrightarrow> (\<forall>w. is_ok (fst (m w)))"

lemma atomicD: "atomic m \<Longrightarrow> m w = (Inl e, w') \<Longrightarrow> same_tables w w'"
  by (simp add: atomic_def)

lemma atomic_read_only: "read_only m \<Longrightarrow> atomic m"
  by (auto simp: atomic_def dest: read_onlyD)

lemma atomic_transaction: "atomic (transaction m)"
  by (auto simp: atomic_def dest: transaction_atomic)

lemma atomic_after_reads:
  assumes "read_only m" "\<And>x. atomic (f x)"
  shows "atomic (bindE m f)"
  unfolding atomic_def
proof (intro allI impI)
  fix w e w' assume "bindE m f w = (Inl e, w')"
  from assms(1) this show "same_tables w w'"
  proof (cases rule: bindE_read_only)
    case (2 x u)
    with atomicD [OF assms(2) 2(3)] show ?thesis by (blast intro: same_tables_trans)
  qed
qed

lemma atomic_then_total:
  assumes "atomic m" "\<And>x. never_fails (f x)"
  shows "atomic (bindE m f)"
  unfolding atomic_def
proof (intro allI impI)
  fix w e w' assume "bindE m f w = (Inl e, w')"
  then show "same_tables w w'"
  proof (cases rule: bindE_cases)
    case (stop e')
    with assms(1) show ?thesis by (auto dest: atomicD)
  next
    case (go x u)
    with assms(2) [of x] show ?thesis by (metis fst_conv is_ok_simps(2) never_fails_def)
  qed
qed

lemma never_fails_intros:
  "never_fails (return_ok x)" "never_fails (reads f)" "never_fails (writes g)"
  "never_fails (Publish pid)"
  by (simp_all add: never_fails_def Publish_def)

lemma never_fails_bindE: "never_fails m \<Longrightarrow> (\<And>x. never_fails (f x)) \<Longrightarrow> never_fails (bindE m f)"
  by (auto simp: never_fails_def bindE_def is_ok_def split: prod.splits sum.splits)
    (metis (no_types, lifting) fst_conv sum.case(1))+

lemma never_fails_case_option:
  "never_fails m \<Longrightarrow> (\<And>x. never_fails (f x)) \<Longrightarrow> never_fails (case v of None \<Rightarrow> m | Some x \<Rightarrow> f x)"
  by (cases v) simp_all

lemma preserves_require:
  "(b \<Longrightarrow> preserves I (f ())) \<Longrightarrow> preserves I (bindE (require b e) f)"
  by (cases b) (simp_all add: preserves_def)

lemma preserves_case_prod:
  "(\<And>x y. preserves I (f x y)) \<Longrightarrow> preserves I (case p of (x, y) \<Rightarrow> f x y)"
  by (cases p) simp

lemma preserves_time_Now: "preserves I time_Now"
  by (simp add: time_Now_def preserves_pure)

lemma preserves_Publish: "(\<And>w p. I w \<Longrightarrow> I (w\<lparr>w_published := p\<rparr>)) \<Longrightarrow> preserves I (Publish pid)"
  by (simp add: Publish_def preserves_writes)

lemmas db_preserves = valid_intros preserves_query preserves_first_or preserves_fresh_id
  preserves_transaction preserves_case_prod preserves_time_Now

end
