(* ===== verification/Availability.thy ===== *)
theory Availability
  imports Model "HOL-Library.Product_Lexorder"
begin

text \<open>
  \<open>internal/queue/availability.go\<close> and the day-schedule helpers of
  \<open>internal/queue/handler.go\<close>: candidate slots, the sweep that counts busy boxes, free boxes,
  the open windows of a day and the check that a booking fits one of them.

  The loop over candidate start times is \<open>slot_starts\<close>; it ends because every step moves the
  start 15 minutes towards the closing time.
\<close>

record TimeRange =
  tr_Start :: time
  tr_End :: time

definition AvailabilitySlotStep :: duration where
  "AvailabilitySlotStep = 15 * Minute"

lemma AvailabilitySlotStep_pos: "0 < AvailabilitySlotStep"
  by (simp add: AvailabilitySlotStep_def duration_defs)

text \<open>The candidate starts: \<open>for start := dayOpen; !start.Add(duration).After(dayClose); start += step\<close>.\<close>

function slot_starts :: "time \<Rightarrow> time \<Rightarrow> duration \<Rightarrow> time list" where
  "slot_starts start dayClose d =
     (if start + d > dayClose then []
      else start # slot_starts (start + AvailabilitySlotStep) dayClose d)"
  by pat_completeness auto
termination
  by (relation "measure (\<lambda>(start, dayClose, d). nat (dayClose - d - start + 1))")
    (use AvailabilitySlotStep_pos in auto)

declare slot_starts.simps [simp del]

lemma slot_starts_iff:
  "s \<in> set (slot_starts start dayClose d) \<longleftrightarrow>
     (\<exists>k::nat. s = start + int k * AvailabilitySlotStep) \<and> s + d \<le> dayClose"
proof (induction start dayClose d rule: slot_starts.induct)
  case (1 start dayClose d)
  have step: "(\<exists>k::nat. s = start + int k * AvailabilitySlotStep) \<longleftrightarrow>
      s = start \<or> (\<exists>k::nat. s = start + AvailabilitySlotStep + int k * AvailabilitySlotStep)" (is "?L = ?R")
  proof
    assume ?L
    then obtain k :: nat where k: "s = start + int k * AvailabilitySlotStep" ..
    then show ?R
    proof (cases k)
      case (Suc j)
      then show ?thesis using k by (auto simp: algebra_simps)
    qed simp
  next
    assume ?R
    then show ?L
    proof
      assume "s = start"
      then show ?L by (intro exI [of _ 0]) simp
    next
      assume "\<exists>k::nat. s = start + AvailabilitySlotStep + int k * AvailabilitySlotStep"
      then obtain k :: nat where "s = start + AvailabilitySlotStep + int k * AvailabilitySlotStep" ..
      then show ?L by (intro exI [of _ "Suc k"]) (simp add: algebra_simps)
    qed
  qed
  show ?case
  proof (cases "start + d > dayClose")
    case True
    have "\<not> s + d \<le> dayClose" if "s = start + int k * AvailabilitySlotStep" for k :: nat
    proof -
      have "0 \<le> int k * AvailabilitySlotStep" using AvailabilitySlotStep_pos by simp
      with that True show ?thesis by linarith
    qed
    with True show ?thesis by (auto simp: slot_starts.simps [of start])
  next
    case False
    then have eq: "slot_starts start dayClose d =
        start # slot_starts (start + AvailabilitySlotStep) dayClose d"
      by (simp add: slot_starts.simps [of start])
    from 1 [OF False] False show ?thesis unfolding step eq list.set insert_iff by auto
  qed
qed

lemma slot_starts_sorted: "sorted_wrt (<) (slot_starts start dayClose d)"
proof (induction start dayClose d rule: slot_starts.induct)
  case (1 start dayClose d)
  have "start < s" if "s \<in> set (slot_starts (start + AvailabilitySlotStep) dayClose d)" for s
  proof -
    from that obtain k :: nat where "s = start + AvailabilitySlotStep + int k * AvailabilitySlotStep"
      by (auto simp: slot_starts_iff)
    moreover have "0 \<le> int k * AvailabilitySlotStep" using AvailabilitySlotStep_pos by simp
    ultimately show ?thesis using AvailabilitySlotStep_pos by linarith
  qed
  with 1 show ?case by (simp add: slot_starts.simps [of start])
qed

section \<open>Counting busy boxes\<close>

text \<open>
  The events of the sweep: +1 at the clipped start and -1 at the clipped end of every busy
  interval that overlaps the candidate. Pairs are ordered by time and then by delta, which is
  the source's comparison; equal events are interchangeable, so the instability of \<open>sort.Slice\<close>
  does not show.
\<close>

fun sweep_events :: "time \<Rightarrow> time \<Rightarrow> TimeRange list \<Rightarrow> (time \<times> int) list" where
  "sweep_events start fin [] = []"
| "sweep_events start fin (b # busy) =
     (if \<not> tr_Start b < fin \<or> \<not> tr_End b > start then sweep_events start fin busy
      else (if tr_Start b < start then start else tr_Start b, 1) #
           (if tr_End b > fin then fin else tr_End b, -1) # sweep_events start fin busy)"

fun sweep :: "int \<Rightarrow> int \<Rightarrow> (time \<times> int) list \<Rightarrow> int" where
  "sweep occupied mx [] = mx"
| "sweep occupied mx ((tm, delta) # es) =
     (let occupied' = occupied + delta
      in sweep occupied' (if occupied' > mx then occupied' else mx) es)"

definition maxOverlap :: "time \<Rightarrow> time \<Rightarrow> TimeRange list \<Rightarrow> int" where
  "maxOverlap start fin busy = sweep 0 0 (sort (sweep_events start fin busy))"

definition busy_at :: "time \<Rightarrow> TimeRange list \<Rightarrow> int" where
  "busy_at t busy = int (length (filter (\<lambda>b. tr_Start b \<le> t \<and> t < tr_End b) busy))"

text \<open>The sweep computes the largest prefix sum.\<close>

lemma sweep_ge: "mx \<le> sweep occupied mx es"
proof (induction occupied mx es rule: sweep.induct)
  case (2 occupied mx tm delta es)
  then show ?case by (simp add: Let_def split: if_splits)
qed simp

lemma sweep_prefix:
  "prefix ps es \<Longrightarrow> ps \<noteq> [] \<Longrightarrow> occupied + sum_list (map snd ps) \<le> sweep occupied mx es"
proof (induction occupied mx es arbitrary: ps rule: sweep.induct)
  case (1 occupied mx)
  then show ?case by simp
next
  case (2 occupied mx tm delta es)
  then obtain qs where ps: "ps = (tm, delta) # qs" "prefix qs es" by (cases ps) auto
  let ?mx = "if occupied + delta > mx then occupied + delta else mx"
  show ?case
  proof (cases "qs = []")
    case True
    have "occupied + delta \<le> ?mx" by simp
    also have "\<dots> \<le> sweep (occupied + delta) ?mx es" by (rule sweep_ge)
    finally show ?thesis by (simp add: ps True Let_def)
  next
    case False
    from "2.IH" [OF refl ps(2) False] show ?thesis by (simp add: ps Let_def add.assoc)
  qed
qed

lemma sweep_attained:
  "sweep occupied mx es = mx \<or>
   (\<exists>ps. prefix ps es \<and> ps \<noteq> [] \<and> sweep occupied mx es = occupied + sum_list (map snd ps))"
proof (induction occupied mx es rule: sweep.induct)
  case (1 occupied mx)
  then show ?case by simp
next
  case (2 occupied mx tm delta es)
  let ?o = "occupied + delta"
  let ?mx = "if ?o > mx then ?o else mx"
  have eq: "sweep occupied mx ((tm, delta) # es) = sweep ?o ?mx es" by (simp add: Let_def)
  from "2.IH" [OF refl] consider "sweep ?o ?mx es = ?mx"
    | ps where "prefix ps es" "sweep ?o ?mx es = ?o + sum_list (map snd ps)" by blast
  then show ?case
  proof cases
    case 1
    have "prefix [(tm, delta)] ((tm, delta) # es)" by simp
    with 1 show ?thesis unfolding eq
      by (cases "?o > mx") (auto intro!: exI [of _ "[(tm, delta)]"])
  next
    case 2
    then have "prefix ((tm, delta) # ps) ((tm, delta) # es)" by simp
    with 2 show ?thesis unfolding eq by (intro disjI2 exI [of _ "(tm, delta) # ps"]) simp
  qed
qed

definition balance :: "time \<Rightarrow> (time \<times> int) list \<Rightarrow> int" where
  "balance t es = sum_list (map snd (filter (\<lambda>e. fst e \<le> t) es))"

lemma balance_sort: "balance t (sort es) = balance t es"
proof -
  have "mset (map snd (filter (\<lambda>e. fst e \<le> t) (sort es))) = mset (map snd (filter (\<lambda>e. fst e \<le> t) es))"
    by (simp add: mset_filter)
  then show ?thesis unfolding balance_def by (metis sum_mset_sum_list)
qed

lemma balance_sweep_events:
  assumes "s \<le> t" "t < e" "\<And>b. b \<in> set busy \<Longrightarrow> tr_Start b < tr_End b"
  shows "balance t (sweep_events s e busy) = busy_at t busy"
  using assms(3)
proof (induction busy)
  case (Cons b busy)
  have "tr_Start b < tr_End b" "balance t (sweep_events s e busy) = busy_at t busy"
    using Cons by simp_all
  with assms(1,2) show ?case by (auto simp: balance_def busy_at_def)
qed (simp add: balance_def busy_at_def)

lemma sorted_prefix_balance:
  assumes "sorted es"
  shows "\<exists>ps. prefix ps es \<and> sum_list (map snd ps) = balance t es"
  using assms
proof (induction es)
  case Nil
  then show ?case by (simp add: balance_def)
next
  case (Cons e es)
  show ?case
  proof (cases "fst e \<le> t")
    case True
    from Cons obtain ps where "prefix ps es" "sum_list (map snd ps) = balance t es" by auto
    with True show ?thesis by (intro exI [of _ "e # ps"]) (simp add: balance_def)
  next
    case False
    have "\<not> fst x \<le> t" if "x \<in> set es" for x
      using Cons.prems that False by (force simp: less_eq_prod_def)
    then have "filter (\<lambda>x. fst x \<le> t) (e # es) = []" using False by (auto simp: filter_empty_conv)
    then show ?thesis by (intro exI [of _ "[]"]) (simp add: balance_def)
  qed
qed

text \<open>A prefix that ends with a start is at most the balance at that start.\<close>

lemma sorted_prefix_start:
  assumes "sorted es" "es = ps @ (a, 1) # qs" "\<And>x. x \<in> set es \<Longrightarrow> snd x = 1 \<or> snd x = -1"
  shows "sum_list (map snd (ps @ [(a, 1)])) \<le> balance a es"
proof -
  have ps: "fst x \<le> a" if "x \<in> set ps" for x
    using assms(1,2) that by (auto simp: sorted_append less_eq_prod_def)
  have "0 \<le> sum_list (map snd (filter (\<lambda>e. fst e \<le> a) qs))"
  proof (rule sum_list_nonneg)
    fix v assume "v \<in> set (map snd (filter (\<lambda>e. fst e \<le> a) qs))"
    then obtain x where x: "x \<in> set qs" "fst x \<le> a" "v = snd x" by auto
    have "(a, 1) \<le> x" using assms(1,2) x(1) by (auto simp: sorted_append)
    with x(2) have "1 \<le> snd x" by (auto simp: less_eq_prod_def)
    with x(3) show "0 \<le> v" by simp
  qed
  moreover have "filter (\<lambda>e. fst e \<le> a) ps = ps" using ps by (simp add: filter_id_conv)
  ultimately show ?thesis by (simp add: balance_def assms(2))
qed

lemma sweep_events_delta: "x \<in> set (sweep_events s e busy) \<Longrightarrow> snd x = 1 \<or> snd x = -1"
  by (induction s e busy rule: sweep_events.induct) (auto split: if_splits)

lemma sweep_events_starts:
  "(a, 1) \<in> set (sweep_events s e busy) \<Longrightarrow> s < e \<Longrightarrow> s \<le> a \<and> a < e"
  by (induction s e busy rule: sweep_events.induct) (auto split: if_splits)

lemma prefix_sum_le:
  assumes s: "sorted es" and d: "\<And>x. x \<in> set es \<Longrightarrow> snd x = 1 \<or> snd x = (-1::int)"
    and "prefix ps es"
  shows "sum_list (map snd ps) \<le> 0 \<or>
    (\<exists>a. (a, 1) \<in> set es \<and> sum_list (map snd ps) \<le> balance a es)"
  using assms(3)
proof (induction ps rule: rev_induct)
  case (snoc p ps)
  then have p: "prefix ps es" "p \<in> set es"
    using append_prefixD set_mono_prefix by fastforce+
  show ?case
  proof (cases "snd p = 1")
    case True
    then obtain a where a: "p = (a, 1)" by (cases p) auto
    obtain qs where "es = ps @ (a, 1) # qs" using snoc.prems by (auto simp: prefix_def a)
    from sorted_prefix_start [OF s this d] p(2) show ?thesis by (auto simp: a)
  next
    case False
    then have "snd p = -1" using d [OF p(2)] by blast
    with snoc.IH [OF p(1)] show ?thesis by fastforce
  qed
qed simp

lemma sweep_criterion:
  assumes "s < e" "\<And>b. b \<in> set busy \<Longrightarrow> tr_Start b < tr_End b" "1 \<le> n"
  shows "maxOverlap s e busy < n \<longleftrightarrow> (\<forall>t. s \<le> t \<and> t < e \<longrightarrow> busy_at t busy < n)"
proof -
  let ?es = "sort (sweep_events s e busy)"
  have bal: "balance t ?es = busy_at t busy" if "s \<le> t" "t < e" for t
    using balance_sweep_events [OF that assms(2)] by (simp add: balance_sort)
  have le: "busy_at t busy \<le> maxOverlap s e busy" if t: "s \<le> t" "t < e" for t
  proof -
    obtain ps where ps: "prefix ps ?es" "sum_list (map snd ps) = busy_at t busy"
      using sorted_prefix_balance [of ?es t] bal [OF t] by auto
    show ?thesis
    proof (cases "ps = []")
      case True
      then show ?thesis using ps sweep_ge [of 0 0 ?es] by (simp add: maxOverlap_def)
    next
      case False
      then show ?thesis using sweep_prefix [OF ps(1), of 0 0] ps(2) by (simp add: maxOverlap_def)
    qed
  qed
  have "maxOverlap s e busy < n" if all: "\<forall>t. s \<le> t \<and> t < e \<longrightarrow> busy_at t busy < n"
  proof -
    consider "maxOverlap s e busy = 0"
      | ps where "prefix ps ?es" "maxOverlap s e busy = sum_list (map snd ps)"
      using sweep_attained [of 0 0 ?es] by (auto simp: maxOverlap_def)
    then show ?thesis
    proof cases
      case 2
      from prefix_sum_le [OF _ _ 2(1)]
      consider "sum_list (map snd ps) \<le> 0"
        | a where "(a, 1) \<in> set (sweep_events s e busy)" "sum_list (map snd ps) \<le> balance a ?es"
        using sweep_events_delta by auto
      then show ?thesis
      proof cases
        case 1
        with 2 assms(3) show ?thesis by simp
      next
        case (2 a)
        from sweep_events_starts [OF this(1) assms(1)] have "s \<le> a" "a < e" by auto
        with bal [of a] all 2(2) \<open>maxOverlap s e busy = sum_list (map snd ps)\<close> show ?thesis
          by fastforce
      qed
    qed (use assms(3) in simp)
  qed
  with le show ?thesis by force
qed

text \<open>
  The sweep computes what its comment says: for well-formed busy intervals, fewer than \<open>n\<close>
  of them overlap anywhere in the candidate window if and only if at no instant of the window
  are \<open>n\<close> or more of them active; an interval that ends when another begins does not overlap it.
\<close>

theorem maxOverlap_less_iff:
  assumes "s < e" "\<And>b. b \<in> set busy \<Longrightarrow> tr_Start b < tr_End b" "1 \<le> n"
  shows "maxOverlap s e busy < n \<longleftrightarrow> (\<forall>t. s \<le> t \<and> t < e \<longrightarrow> busy_at t busy < n)"
  using assms by (rule sweep_criterion)

theorem maxOverlap_less_iff_witness:
  "maxOverlap 0 10 [\<lparr>tr_Start = 0, tr_End = 5\<rparr>, \<lparr>tr_Start = 5, tr_End = 12\<rparr>] < 2 \<longleftrightarrow>
   (\<forall>t. 0 \<le> t \<and> t < 10 \<longrightarrow> busy_at t [\<lparr>tr_Start = 0, tr_End = 5\<rparr>, \<lparr>tr_Start = 5, tr_End = 12\<rparr>] < 2)"
  by (rule maxOverlap_less_iff) auto

section \<open>Candidate slots\<close>

definition ComputeAvailableSlots ::
  "time \<Rightarrow> time \<Rightarrow> int \<Rightarrow> duration \<Rightarrow> TimeRange list \<Rightarrow> TimeRange list" where
  "ComputeAvailableSlots dayOpen dayClose boxesCount d busy =
     (if d \<le> 0 \<or> boxesCount \<le> 0 \<or> \<not> dayClose > dayOpen then []
      else map (\<lambda>start. \<lparr>tr_Start = start, tr_End = start + d\<rparr>)
             (filter (\<lambda>start. maxOverlap start (start + d) busy < boxesCount)
               (slot_starts dayOpen dayClose d)))"

text \<open>
  \<open>ComputeAvailableSlots\<close> returns exactly the 15-minute candidates inside the operating
  hours during which, at every instant, fewer than \<open>boxesCount\<close> bookings are active.
\<close>

theorem ComputeAvailableSlots_exact:
  assumes "0 < d" "0 < boxesCount" "dayOpen < dayClose"
    and "\<And>b. b \<in> set busy \<Longrightarrow> tr_Start b < tr_End b"
  shows "\<lparr>tr_Start = s, tr_End = e\<rparr> \<in> set (ComputeAvailableSlots dayOpen dayClose boxesCount d busy) \<longleftrightarrow>
    (\<exists>k::nat. s = dayOpen + int k * AvailabilitySlotStep) \<and> e = s + d \<and> e \<le> dayClose \<and>
    (\<forall>t. s \<le> t \<and> t < e \<longrightarrow> busy_at t busy < boxesCount)"
proof -
  have "maxOverlap s (s + d) busy < boxesCount \<longleftrightarrow>
      (\<forall>t. s \<le> t \<and> t < s + d \<longrightarrow> busy_at t busy < boxesCount)"
    using sweep_criterion [of s "s + d" busy boxesCount] assms by simp
  then show ?thesis
    using assms(1-3) by (auto simp: ComputeAvailableSlots_def slot_starts_iff)
qed

theorem ComputeAvailableSlots_exact_witness:
  "\<lparr>tr_Start = 0, tr_End = 900000000000\<rparr>
     \<in> set (ComputeAvailableSlots 0 900000000000 2 900000000000 [\<lparr>tr_Start = 5, tr_End = 9\<rparr>])"
  by (subst ComputeAvailableSlots_exact) (auto simp: busy_at_def intro: exI [of _ 0])

record BusyBoxInterval =
  bb_Box :: int
  bb_Start :: time
  bb_End :: time

record SlotWithBoxes =
  sl_Start :: time
  sl_End :: time
  sl_AvailableBoxes :: "int list"

definition occupied_boxes :: "time \<Rightarrow> time \<Rightarrow> BusyBoxInterval list \<Rightarrow> int list" where
  "occupied_boxes start fin busy =
     map bb_Box (filter (\<lambda>b. bb_Start b < fin \<and> bb_End b > start) busy)"

definition freeBoxes :: "time \<Rightarrow> time \<Rightarrow> int \<Rightarrow> BusyBoxInterval list \<Rightarrow> int list" where
  "freeBoxes start fin boxesCount busy =
     filter (\<lambda>box. box \<notin> set (occupied_boxes start fin busy)) [1..boxesCount]"

definition ComputeAvailableSlotsWithBoxes ::
  "time \<Rightarrow> time \<Rightarrow> int \<Rightarrow> duration \<Rightarrow> BusyBoxInterval list \<Rightarrow> SlotWithBoxes list" where
  "ComputeAvailableSlotsWithBoxes dayOpen dayClose boxesCount d busy =
     (if d \<le> 0 \<or> boxesCount \<le> 0 \<or> \<not> dayClose > dayOpen then []
      else map (\<lambda>start. \<lparr>sl_Start = start, sl_End = start + d,
                         sl_AvailableBoxes = freeBoxes start (start + d) boxesCount busy\<rparr>)
             (filter (\<lambda>start. freeBoxes start (start + d) boxesCount busy \<noteq> [])
               (slot_starts dayOpen dayClose d)))"

definition overlaps :: "time \<Rightarrow> time \<Rightarrow> time \<Rightarrow> time \<Rightarrow> bool" where
  "overlaps s1 e1 s2 e2 \<longleftrightarrow> s1 < e2 \<and> s2 < e1"

lemma freeBoxes_iff:
  "box \<in> set (freeBoxes s e n busy) \<longleftrightarrow>
     1 \<le> box \<and> box \<le> n \<and>
     (\<forall>b \<in> set busy. bb_Box b = box \<longrightarrow> \<not> overlaps (bb_Start b) (bb_End b) s e)"
  by (auto simp: freeBoxes_def occupied_boxes_def overlaps_def)

lemma freeBoxes_sorted: "sorted_wrt (<) (freeBoxes s e n busy)"
proof -
  have "sorted_wrt (<) [1..n]" by (simp add: strict_sorted_iff)
  then show ?thesis unfolding freeBoxes_def by (rule sorted_wrt_filter)
qed

text \<open>
  A slot with a box free for the whole window is a slot of the counting version too; the
  converse fails (two bookings in two boxes, one after the other, leave no box free for both
  halves although one box is free at every instant).
\<close>

lemma slots_with_boxes_counted:
  assumes wf: "\<And>b. b \<in> set busy \<Longrightarrow> bb_Start b < bb_End b \<and> 1 \<le> bb_Box b \<and> bb_Box b \<le> n"
    and excl: "\<And>t. distinct (map bb_Box (filter (\<lambda>b. bb_Start b \<le> t \<and> t < bb_End b) busy))"
    and se: "s < e" and free: "freeBoxes s e n busy \<noteq> []"
  shows "maxOverlap s e (map (\<lambda>b. \<lparr>tr_Start = bb_Start b, tr_End = bb_End b\<rparr>) busy) < n"
proof -
  obtain box where box: "box \<in> set (freeBoxes s e n busy)" using free by (cases "freeBoxes s e n busy") auto
  let ?ranges = "map (\<lambda>b. \<lparr>tr_Start = bb_Start b, tr_End = bb_End b\<rparr>) busy"
  have "busy_at t ?ranges < n" if t: "s \<le> t" "t < e" for t
  proof -
    let ?act = "filter (\<lambda>b. bb_Start b \<le> t \<and> t < bb_End b) busy"
    have sub: "set (map bb_Box ?act) \<subseteq> {1..n} - {box}"
      using wf box t by (fastforce simp: freeBoxes_iff overlaps_def)
    have "length ?act = card (set (map bb_Box ?act))"
      using distinct_card [OF excl [of t]] by simp
    also have "\<dots> \<le> card ({1..n} - {box})" by (rule card_mono [OF _ sub]) simp
    also have "\<dots> = nat n - 1" using box by (simp add: freeBoxes_iff card_Diff_singleton)
    finally have "length ?act \<le> nat n - 1" .
    moreover have "1 \<le> n" using box by (auto simp: freeBoxes_iff)
    moreover have "busy_at t ?ranges = int (length ?act)"
      by (simp add: busy_at_def filter_map o_def)
    ultimately show ?thesis by linarith
  qed
  moreover have "1 \<le> n" using box by (auto simp: freeBoxes_iff)
  moreover have "tr_Start r < tr_End r" if "r \<in> set ?ranges" for r
    using that wf by auto
  ultimately show ?thesis using sweep_criterion [of s e ?ranges n] se by blast
qed

lemma counting_is_weaker:
  "maxOverlap 0 60 [\<lparr>tr_Start = 0, tr_End = 30\<rparr>, \<lparr>tr_Start = 30, tr_End = 60\<rparr>] < 2 \<and>
   freeBoxes 0 60 2 [\<lparr>bb_Box = 1, bb_Start = 0, bb_End = 30\<rparr>, \<lparr>bb_Box = 2, bb_Start = 30, bb_End = 60\<rparr>] = []"
  by code_simp

section \<open>The operating windows of a day\<close>

record DaySchedule =
  ds_IsOpen :: bool
  ds_Open :: time
  ds_Close :: time
  ds_BreakStart :: "time option"
  ds_BreakEnd :: "time option"

definition closed_day :: DaySchedule where
  "closed_day = \<lparr>ds_IsOpen = False, ds_Open = ZeroTime, ds_Close = ZeroTime,
     ds_BreakStart = None, ds_BreakEnd = None\<rparr>"

definition Windows :: "DaySchedule \<Rightarrow> TimeRange list" where
  "Windows d =
     (if \<not> ds_IsOpen d \<or> \<not> ds_Close d > ds_Open d then []
      else case (ds_BreakStart d, ds_BreakEnd d) of
        (Some bs, Some be) \<Rightarrow>
          (let breakStart = (if bs < ds_Open d then ds_Open d else bs);
               breakEnd = (if be > ds_Close d then ds_Close d else be)
           in if \<not> breakEnd > breakStart then [\<lparr>tr_Start = ds_Open d, tr_End = ds_Close d\<rparr>]
              else (if breakStart > ds_Open d then [\<lparr>tr_Start = ds_Open d, tr_End = breakStart\<rparr>] else []) @
                   (if breakEnd < ds_Close d then [\<lparr>tr_Start = breakEnd, tr_End = ds_Close d\<rparr>] else []))
      | _ \<Rightarrow> [\<lparr>tr_Start = ds_Open d, tr_End = ds_Close d\<rparr>])"

definition Contains :: "DaySchedule \<Rightarrow> time \<Rightarrow> time \<Rightarrow> bool" where
  "Contains d start fin \<longleftrightarrow>
     (\<exists>w \<in> set (Windows d). \<not> start < tr_Start w \<and> \<not> fin > tr_End w)"

definition ComputeAvailableSlotsForDay ::
  "DaySchedule \<Rightarrow> int \<Rightarrow> duration \<Rightarrow> BusyBoxInterval list \<Rightarrow> SlotWithBoxes list" where
  "ComputeAvailableSlotsForDay day boxesCount d busy =
     concat (map (\<lambda>w. ComputeAvailableSlotsWithBoxes (tr_Start w) (tr_End w) boxesCount d busy)
       (Windows day))"

text \<open>What the schedule means: the point is open at an instant.\<close>

definition open_at :: "DaySchedule \<Rightarrow> time \<Rightarrow> bool" where
  "open_at d t \<longleftrightarrow> ds_IsOpen d \<and> ds_Open d \<le> t \<and> t < ds_Close d \<and>
     \<not> (\<exists>bs be. ds_BreakStart d = Some bs \<and> ds_BreakEnd d = Some be \<and> bs \<le> t \<and> t < be)"

lemma Windows_wf: "w \<in> set (Windows d) \<Longrightarrow> tr_Start w < tr_End w"
  by (auto simp: Windows_def Let_def split: option.splits if_splits)

lemma Windows_bounds: "w \<in> set (Windows d) \<Longrightarrow> ds_Open d \<le> tr_Start w \<and> tr_End w \<le> ds_Close d"
  by (auto simp: Windows_def Let_def split: option.splits if_splits)

lemma Windows_disjoint: "sorted_wrt (\<lambda>v w. tr_End v < tr_Start w) (Windows d)"
  by (auto simp: Windows_def Let_def split: option.splits)

lemma Windows_open_at: "(\<exists>w \<in> set (Windows d). tr_Start w \<le> t \<and> t < tr_End w) \<longleftrightarrow> open_at d t"
  by (auto simp: Windows_def open_at_def Let_def split: option.splits)

text \<open>
  The operating-hours check of a booking is exact: a window passes it if and only if the point
  is open (in its hours and not on its break) at every instant of the window.
\<close>

theorem Contains_iff_open:
  assumes "s < e"
  shows "Contains d s e \<longleftrightarrow> (\<forall>t. s \<le> t \<and> t < e \<longrightarrow> open_at d t)"
proof
  assume "Contains d s e"
  then obtain w where "w \<in> set (Windows d)" "tr_Start w \<le> s" "e \<le> tr_End w"
    by (auto simp: Contains_def)
  then show "\<forall>t. s \<le> t \<and> t < e \<longrightarrow> open_at d t"
    by (auto simp: Windows_open_at [symmetric] intro!: bexI [of _ w])
next
  assume all: "\<forall>t. s \<le> t \<and> t < e \<longrightarrow> open_at d t"
  then have o: "open_at d s" "open_at d (e - 1)" using assms by auto
  show "Contains d s e"
  proof (cases "\<exists>bs be. ds_BreakStart d = Some bs \<and> ds_BreakEnd d = Some be")
    case False
    then have "Windows d = [\<lparr>tr_Start = ds_Open d, tr_End = ds_Close d\<rparr>]"
      using o(1) by (auto simp: Windows_def open_at_def split: option.splits)
    with o show ?thesis by (auto simp: Contains_def open_at_def)
  next
    case True
    then obtain bs be where b: "ds_BreakStart d = Some bs" "ds_BreakEnd d = Some be" by blast
    have "e \<le> bs \<or> be \<le> s \<or> be \<le> bs"
    proof (rule ccontr)
      assume "\<not> ?thesis"
      then have "s \<le> max s bs" "max s bs < e" "bs \<le> max s bs" "max s bs < be" using assms by auto
      with all [rule_format, of "max s bs"] b show False by (simp add: open_at_def)
    qed
    with o b assms show ?thesis by (auto simp: Contains_def Windows_def open_at_def Let_def)
  qed
qed

theorem Contains_iff_open_witness:
  "Contains \<lparr>ds_IsOpen = True, ds_Open = 0, ds_Close = 100, ds_BreakStart = Some 40, ds_BreakEnd = Some 60\<rparr> 0 30
   \<longleftrightarrow> (\<forall>t. 0 \<le> t \<and> t < 30 \<longrightarrow>
     open_at \<lparr>ds_IsOpen = True, ds_Open = 0, ds_Close = 100, ds_BreakStart = Some 40, ds_BreakEnd = Some 60\<rparr> t)"
  by (rule Contains_iff_open) simp

text \<open>
  C30 The slots of a day are exactly the candidates that lie in an open window of the day and for
  which some box is free from start to end; every slot lists, in order, exactly the boxes that
  no busy interval touches, and the slots come in order of time.
\<close>

theorem slots_for_day_exact:
  assumes "0 < d" "0 < boxesCount"
  shows "\<lparr>sl_Start = s, sl_End = e, sl_AvailableBoxes = bs\<rparr>
      \<in> set (ComputeAvailableSlotsForDay day boxesCount d busy) \<longleftrightarrow>
    (\<exists>w \<in> set (Windows day). (\<exists>k::nat. s = tr_Start w + int k * AvailabilitySlotStep) \<and> e \<le> tr_End w) \<and>
    e = s + d \<and> bs \<noteq> [] \<and> sorted_wrt (<) bs \<and>
    (\<forall>box. box \<in> set bs \<longleftrightarrow> 1 \<le> box \<and> box \<le> boxesCount \<and>
      (\<forall>b \<in> set busy. bb_Box b = box \<longrightarrow> \<not> overlaps (bb_Start b) (bb_End b) s e))"
    (is "?L \<longleftrightarrow> ?R")
proof -
  have uniq: "bs = freeBoxes s e boxesCount busy \<longleftrightarrow> sorted_wrt (<) bs \<and>
    (\<forall>box. box \<in> set bs \<longleftrightarrow> 1 \<le> box \<and> box \<le> boxesCount \<and>
      (\<forall>b \<in> set busy. bb_Box b = box \<longrightarrow> \<not> overlaps (bb_Start b) (bb_End b) s e))"
    (is "_ \<longleftrightarrow> _ \<and> ?boxes")
  proof
    assume "bs = freeBoxes s e boxesCount busy"
    then show "sorted_wrt (<) bs \<and> ?boxes" by (simp add: freeBoxes_sorted freeBoxes_iff)
  next
    assume r: "sorted_wrt (<) bs \<and> ?boxes"
    then have "set bs = set (freeBoxes s e boxesCount busy)" by (auto simp: freeBoxes_iff)
    with r show "bs = freeBoxes s e boxesCount busy"
      using strict_sorted_equal [of bs] freeBoxes_sorted by blast
  qed
  have "?L \<longleftrightarrow> (\<exists>w \<in> set (Windows day). s \<in> set (slot_starts (tr_Start w) (tr_End w) d) \<and> e = s + d \<and>
      bs \<noteq> [] \<and> bs = freeBoxes s e boxesCount busy)"
    using assms Windows_wf [of _ day]
    by (fastforce simp: ComputeAvailableSlotsForDay_def ComputeAvailableSlotsWithBoxes_def)
  also have "\<dots> \<longleftrightarrow> ?R" unfolding uniq slot_starts_iff by auto
  finally show ?thesis .
qed

theorem slots_for_day_exact_witness:
  "\<lparr>sl_Start = 0, sl_End = 900000000000, sl_AvailableBoxes = [2]\<rparr>
     \<in> set (ComputeAvailableSlotsForDay
          \<lparr>ds_IsOpen = True, ds_Open = 0, ds_Close = 900000000000, ds_BreakStart = None, ds_BreakEnd = None\<rparr>
          2 900000000000 [\<lparr>bb_Box = 1, bb_Start = 5, bb_End = 9\<rparr>])"
  by (subst slots_for_day_exact)
    (auto simp: Windows_def overlaps_def sorted_wrt.simps intro: exI [of _ 0])

lemma slots_for_day_sorted:
  "sorted_wrt (\<lambda>a b. sl_Start a < sl_Start b) (ComputeAvailableSlotsForDay day boxesCount d busy)"
proof -
  have each: "sorted_wrt (\<lambda>a b. sl_Start a < sl_Start b)
      (ComputeAvailableSlotsWithBoxes o' c boxesCount d busy)" for o' c
    using slot_starts_sorted [of o' c d]
    by (simp add: ComputeAvailableSlotsWithBoxes_def sorted_wrt_map sorted_wrt_filter)
  have inside: "o' \<le> sl_Start a \<and> sl_Start a < c"
    if "a \<in> set (ComputeAvailableSlotsWithBoxes o' c boxesCount d busy)" for a o' c
    using that AvailabilitySlotStep_pos
    by (auto simp: ComputeAvailableSlotsWithBoxes_def slot_starts_iff split: if_splits)
  have "sorted_wrt (\<lambda>a b. sl_Start a < sl_Start b)
      (concat (map (\<lambda>w. ComputeAvailableSlotsWithBoxes (tr_Start w) (tr_End w) boxesCount d busy) ws))"
    if "sorted_wrt (\<lambda>v w. tr_End v < tr_Start w) ws" for ws
    using that
  proof (induction ws)
    case (Cons w ws)
    then show ?case
      by (auto simp: sorted_wrt_append each dest!: inside)
  qed simp
  from this [OF Windows_disjoint] show ?thesis by (simp add: ComputeAvailableSlotsForDay_def)
qed

end
