(* ===== verification/WpRepo.thy ===== *)
theory WpRepo
  imports Model
begin

text \<open>
  \<open>internal/washingpoint/repository.go\<close>: the rows of the washing points. A row is found by its
  identifier, \<open>Save\<close> rewrites every column of an existing row (and inserts one that is gone),
  and a point is never deleted, only paused.
\<close>

definition point_by_id :: "uuid \<Rightarrow> world \<Rightarrow> WashingPoint option" where
  "point_by_id pid w = find_row wp_ID pid (w_points w)"

definition WpRepo_List :: "WashingPoint list db" where
  "WpRepo_List = query (\<lambda>w. sort_key wp_Name (w_points w))"

definition WpRepo_CountByStatus :: "(wp_status \<Rightarrow> nat) db" where
  "WpRepo_CountByStatus =
     query (\<lambda>w st. length (filter (\<lambda>p. wp_Status p = st) (w_points w)))"

definition WpRepo_FindByID :: "uuid \<Rightarrow> WashingPoint db" where
  "WpRepo_FindByID pid = first_or (NotFound ''washing_point_not_found'') (point_by_id pid)"

text \<open>
  The checks of the table: a positive box count that fits the 32-bit column, well-formed and ordered
  hours, and the foreign key to the owners.
\<close>

definition point_row_ok :: "WashingPoint \<Rightarrow> bool" where
  "point_row_ok p \<longleftrightarrow> 0 < wp_BoxesCount p \<and> wp_BoxesCount p < 2 ^ 31 \<and> timeFormatRegexp (wp_OpenTime p) \<and>
     timeFormatRegexp (wp_CloseTime p) \<and> wp_CloseTime p > wp_OpenTime p"

definition owner_known :: "uuid option \<Rightarrow> world \<Rightarrow> bool" where
  "owner_known oid w = (case oid of None \<Rightarrow> True | Some k \<Rightarrow> k \<in> ow_ID ` set (w_owners w))"

definition WpRepo_Create :: "WashingPoint \<Rightarrow> WashingPoint db" where
  "WpRepo_Create p =
     statement (bindE fresh_id (\<lambda>pid. bindE time_Now (\<lambda>now.
       let row = p\<lparr>wp_ID := pid, wp_CreatedAt := now\<rparr>
       in bindE (reads (owner_known (wp_OwnerID row))) (\<lambda>known.
          bindE (require (point_row_ok row \<and> known) Internal) (\<lambda>_.
          bindE (writes (\<lambda>w. w\<lparr>w_points := w_points w @ [row]\<rparr>)) (\<lambda>_. return_ok row))))))"

definition WpRepo_Update :: "WashingPoint \<Rightarrow> unit db" where
  "WpRepo_Update p =
     statement (bindE (reads (owner_known (wp_OwnerID p))) (\<lambda>known.
       bindE (require (point_row_ok p \<and> known) Internal) (\<lambda>_.
       writes (\<lambda>w. if wp_ID p \<in> wp_ID ` set (w_points w)
         then w\<lparr>w_points := update_where (\<lambda>r. wp_ID r = wp_ID p) (\<lambda>_. p) (w_points w)\<rparr>
         else w\<lparr>w_points := w_points w @ [p]\<rparr>))))"

definition WpRepo_Deactivate :: "uuid \<Rightarrow> unit db" where
  "WpRepo_Deactivate pid =
     exec (\<lambda>w. w\<lparr>w_points := update_where (\<lambda>r. wp_ID r = pid) (\<lambda>r. r\<lparr>wp_Status := WpPaused\<rparr>) (w_points w)\<rparr>)"

text \<open>Every stored point passes the table's checks, and identifiers are unique.\<close>

definition points_ok :: "world \<Rightarrow> bool" where
  "points_ok w \<longleftrightarrow> distinct (map wp_ID (w_points w)) \<and>
     (\<forall>p \<in> set (w_points w). wp_ID p < w_next w \<and> point_row_ok p)"

lemma points_ok_table: "table_property points_ok"
  by (rule table_propertyI) (auto simp: points_ok_def)

lemma point_row_ok_simps [simp]:
  "point_row_ok (p\<lparr>wp_ID := i, wp_CreatedAt := t\<rparr>) = point_row_ok p"
  "point_row_ok (p\<lparr>wp_Status := s\<rparr>) = point_row_ok p"
  by (simp_all add: point_row_ok_def)

lemma WpRepo_Create_ok: "preserves points_ok (WpRepo_Create p)"
  unfolding WpRepo_Create_def
proof (rule preserves_statement [OF points_ok_table], rule preservesI)
  fix w assume "points_ok w"
  then show "points_ok (snd (bindE fresh_id (\<lambda>pid. bindE time_Now (\<lambda>now.
      let row = p\<lparr>wp_ID := pid, wp_CreatedAt := now\<rparr>
      in bindE (reads (owner_known (wp_OwnerID row))) (\<lambda>known.
        bindE (require (point_row_ok row \<and> known) Internal) (\<lambda>_.
        bindE (writes (\<lambda>w. w\<lparr>w_points := w_points w @ [row]\<rparr>)) (\<lambda>_. return_ok row))))) w))"
    by (auto simp: points_ok_def bindE_def fresh_id_def time_Now_def Let_def less_Suc_eq)
qed

lemma update_points_ok:
  assumes "points_ok w" "\<And>p. wp_ID (f p) = wp_ID p"
    "\<And>p. p \<in> set (w_points w) \<Longrightarrow> c p \<Longrightarrow> point_row_ok (f p)"
  shows "points_ok (w\<lparr>w_points := update_where c f (w_points w)\<rparr>)"
  using assms by (auto simp: points_ok_def set_update_where)

lemma WpRepo_Deactivate_ok: "preserves points_ok (WpRepo_Deactivate pid)"
  unfolding WpRepo_Deactivate_def
  by (rule preserves_exec [OF points_ok_table], rule update_points_ok) (auto simp: points_ok_def)

end
