(* ===== verification/Schedule.thy ===== *)
theory Schedule
  imports Availability WpRepo
begin

text \<open>
  \<open>internal/schedule\<close> (the weekly operating hours of a point: repository, manager, handler) and
  the three functions of \<open>internal/queue/handler.go\<close> that turn a stored row into the instants of
  a day (\<open>combineDayAndTime\<close>, \<open>weekdayIndex\<close>, \<open>resolveDaySchedule\<close>).
\<close>

section \<open>Repository\<close>

definition ScheduleRepo_ListByWashingPoint :: "uuid \<Rightarrow> WashingPointSchedule list db" where
  "ScheduleRepo_ListByWashingPoint pid =
     query (\<lambda>w. sort_key sch_Weekday (filter (\<lambda>r. sch_WashingPointID r = pid) (w_schedules w)))"

definition schedule_row :: "uuid \<Rightarrow> int \<Rightarrow> world \<Rightarrow> WashingPointSchedule option" where
  "schedule_row pid weekday w =
     find (\<lambda>r. sch_WashingPointID r = pid \<and> sch_Weekday r = weekday) (w_schedules w)"

definition FindByWeekday :: "uuid \<Rightarrow> int \<Rightarrow> WashingPointSchedule option db" where
  "FindByWeekday pid weekday = query (schedule_row pid weekday)"

text \<open>The checks of the table: a weekday 0..6 and well-formed times.\<close>

definition opt_time_ok :: "string option \<Rightarrow> bool" where
  "opt_time_ok t = (case t of None \<Rightarrow> True | Some s \<Rightarrow> timeFormatRegexp s)"

definition schedule_row_ok :: "WashingPointSchedule \<Rightarrow> bool" where
  "schedule_row_ok r \<longleftrightarrow> 0 \<le> sch_Weekday r \<and> sch_Weekday r \<le> 6 \<and>
     opt_time_ok (sch_OpenTime r) \<and> opt_time_ok (sch_CloseTime r) \<and>
     opt_time_ok (sch_BreakStart r) \<and> opt_time_ok (sch_BreakEnd r)"

definition schedule_key :: "WashingPointSchedule \<Rightarrow> uuid \<times> int" where
  "schedule_key r = (sch_WashingPointID r, sch_Weekday r)"

text \<open>One multi-row INSERT: identifiers in order, all rows or none.\<close>

primrec number_rows :: "uuid \<Rightarrow> WashingPointSchedule list \<Rightarrow> WashingPointSchedule list" where
  "number_rows n [] = []"
| "number_rows n (r # rs) = r\<lparr>sch_ID := n\<rparr> # number_rows (n + 1) rs"

definition insert_schedules :: "WashingPointSchedule list \<Rightarrow> unit db" where
  "insert_schedules rows =
     statement (\<lambda>w.
       let new = number_rows (w_next w) rows;
           all = w_schedules w @ new
       in if distinct (map schedule_key all) \<and> (\<forall>r \<in> set new. schedule_row_ok r)
          then (Inr (), w\<lparr>w_schedules := all, w_next := w_next w + length rows\<rparr>)
          else (Inl Internal, w\<lparr>w_next := w_next w + length rows\<rparr>))"

definition ReplaceAll :: "uuid \<Rightarrow> WashingPointSchedule list \<Rightarrow> unit db" where
  "ReplaceAll pid rows =
     (let rows' = map (\<lambda>r. r\<lparr>sch_ID := uuid_Nil, sch_WashingPointID := pid\<rparr>) rows
      in transaction (bindE
           (exec (\<lambda>w. w\<lparr>w_schedules := delete_where (\<lambda>r. sch_WashingPointID r = pid) (w_schedules w)\<rparr>))
           (\<lambda>_. insert_schedules rows')))"

section \<open>Manager\<close>

record Input =
  in_Weekday :: int
  in_IsOpen :: bool
  in_OpenTime :: "string option"
  in_CloseTime :: "string option"
  in_BreakStart :: "string option"
  in_BreakEnd :: "string option"

definition zero_row :: WashingPointSchedule where
  "zero_row = \<lparr>sch_ID = uuid_Nil, sch_WashingPointID = uuid_Nil, sch_Weekday = 0, sch_IsOpen = False,
     sch_OpenTime = None, sch_CloseTime = None, sch_BreakStart = None, sch_BreakEnd = None\<rparr>"

definition validateHours ::
  "WashingPointSchedule \<Rightarrow> Input \<Rightarrow> apperror + WashingPointSchedule" where
  "validateHours row inp =
     (case (in_OpenTime inp, in_CloseTime inp) of
        (Some openT, Some closeT) \<Rightarrow>
          if \<not> timeFormatRegexp openT \<or> \<not> timeFormatRegexp closeT then Inl (BadRequest ''invalid_hours'')
          else if closeT \<le> openT then Inl (BadRequest ''invalid_hours'')
          else let row = row\<lparr>sch_OpenTime := Some openT, sch_CloseTime := Some closeT\<rparr>
               in (case (in_BreakStart inp, in_BreakEnd inp) of
                     (None, None) \<Rightarrow> Inr row
                   | (Some bs, Some be) \<Rightarrow>
                       if \<not> timeFormatRegexp bs \<or> \<not> timeFormatRegexp be then Inl (BadRequest ''invalid_break'')
                       else if be \<le> bs then Inl (BadRequest ''invalid_break'')
                       else if bs < openT \<or> be > closeT then Inl (BadRequest ''invalid_break'')
                       else Inr (row\<lparr>sch_BreakStart := Some bs, sch_BreakEnd := Some be\<rparr>)
                   | _ \<Rightarrow> Inl (BadRequest ''invalid_break''))
      | _ \<Rightarrow> Inl (BadRequest ''invalid_hours''))"

text \<open>The loop of \<open>Replace\<close>: the weekdays seen so far and the rows filled in.\<close>

fun fill_rows ::
  "Input list \<Rightarrow> int list \<Rightarrow> WashingPointSchedule list \<Rightarrow> apperror + WashingPointSchedule list" where
  "fill_rows [] seen rows = Inr rows"
| "fill_rows (inp # inputs) seen rows =
     (if in_Weekday inp < 0 \<or> in_Weekday inp > 6 then Inl (BadRequest ''invalid_weekday'')
      else if in_Weekday inp \<in> set seen then Inl (BadRequest ''duplicate_weekday'')
      else let row = zero_row\<lparr>sch_Weekday := in_Weekday inp, sch_IsOpen := in_IsOpen inp\<rparr>
           in (case (if in_IsOpen inp then validateHours row inp else Inr row) of
                 Inl e \<Rightarrow> Inl e
               | Inr row' \<Rightarrow> fill_rows inputs (in_Weekday inp # seen) (rows[nat (in_Weekday inp) := row'])))"

definition Replace :: "uuid \<Rightarrow> Input list \<Rightarrow> WashingPointSchedule list db" where
  "Replace pid inputs =
     bindE (require (length inputs = 7) (BadRequest ''invalid_schedule'')) (\<lambda>_.
     bindE (lift_result (fill_rows inputs [] (replicate 7 zero_row))) (\<lambda>rows.
     bindE (ReplaceAll pid rows) (\<lambda>_.
     return_ok rows)))"

definition Schedule_SeedDefault :: "uuid \<Rightarrow> string \<Rightarrow> string \<Rightarrow> unit db" where
  "Schedule_SeedDefault pid openTime closeTime =
     ReplaceAll pid
       (map (\<lambda>weekday. zero_row\<lparr>sch_Weekday := weekday, sch_IsOpen := True,
                sch_OpenTime := Some openTime, sch_CloseTime := Some closeTime\<rparr>) [0..6])"

section \<open>Handler\<close>

record schedule_response =
  sr_weekday :: int
  sr_is_open :: bool
  sr_open_time :: "string option"
  sr_close_time :: "string option"
  sr_break_start :: "string option"
  sr_break_end :: "string option"

definition schedule_toResponse :: "WashingPointSchedule \<Rightarrow> schedule_response" where
  "schedule_toResponse s =
     \<lparr>sr_weekday = sch_Weekday s, sr_is_open = sch_IsOpen s, sr_open_time = sch_OpenTime s,
      sr_close_time = sch_CloseTime s, sr_break_start = sch_BreakStart s, sr_break_end = sch_BreakEnd s\<rparr>"

definition schedule_list :: "(string \<Rightarrow> uuid option) \<Rightarrow> string \<Rightarrow> schedule_response list db" where
  "schedule_list uuid_parse rawID =
     bindE (lift_result (ParseUUIDParam uuid_parse rawID)) (\<lambda>pid.
     bindE (ScheduleRepo_ListByWashingPoint pid) (\<lambda>rows.
     return_ok (map schedule_toResponse rows)))"

definition schedule_replace ::
  "(string \<Rightarrow> uuid option) \<Rightarrow> AuthUser option \<Rightarrow> string \<Rightarrow> apperror + Input list \<Rightarrow>
   schedule_response list db" where
  "schedule_replace uuid_parse ctx rawID body =
     bindE (lift_result (AuthUserFrom ctx)) (\<lambda>authUser.
     bindE (lift_result (ParseUUIDParam uuid_parse rawID)) (\<lambda>pid.
     bindE (WpRepo_FindByID pid) (\<lambda>_.
     bindE (require (OwnsWashingPoint authUser pid) (NotFound ''washing_point_not_found'')) (\<lambda>_.
     bindE (lift_result body) (\<lambda>inputs.
     bindE (Replace pid inputs) (\<lambda>rows.
     return_ok (map schedule_toResponse rows)))))))"

section \<open>A stored row on a given day\<close>

definition combineDayAndTime :: "time \<Rightarrow> string \<Rightarrow> time option" where
  "combineDayAndTime day hhmm =
     (case parse_15_04 hhmm of
        None \<Rightarrow> None
      | Some (h, mi) \<Rightarrow> (let (y, m, d) = civil_from_days (local_day day) in Some (time_Date y m d h mi)))"

definition weekdayIndex :: "time \<Rightarrow> int" where
  "weekdayIndex t = (Weekday t + 6) mod 7"

definition resolveDaySchedule :: "time \<Rightarrow> WashingPointSchedule option \<Rightarrow> DaySchedule option" where
  "resolveDaySchedule day row =
     (case row of
        None \<Rightarrow> Some closed_day
      | Some r \<Rightarrow>
          if \<not> sch_IsOpen r then Some closed_day
          else (case (sch_OpenTime r, sch_CloseTime r) of
             (Some ot, Some ct) \<Rightarrow>
               (case combineDayAndTime day ot of
                  None \<Rightarrow> None
                | Some openI \<Rightarrow>
                  (case combineDayAndTime day ct of
                     None \<Rightarrow> None
                   | Some closeI \<Rightarrow>
                     (let ds = \<lparr>ds_IsOpen = True, ds_Open = openI, ds_Close = closeI,
                                ds_BreakStart = None, ds_BreakEnd = None\<rparr>
                      in case (sch_BreakStart r, sch_BreakEnd r) of
                           (Some bs, Some be) \<Rightarrow>
                             (case combineDayAndTime day bs of
                                None \<Rightarrow> None
                              | Some bsI \<Rightarrow>
                                (case combineDayAndTime day be of
                                   None \<Rightarrow> None
                                 | Some beI \<Rightarrow> Some (ds\<lparr>ds_BreakStart := Some bsI, ds_BreakEnd := Some beI\<rparr>)))
                         | _ \<Rightarrow> Some ds)))
           | _ \<Rightarrow> Some closed_day))"

text \<open>A well-formed time of day names an instant of the local day, in the order of the strings.\<close>

lemma weekdayIndex_range: "0 \<le> weekdayIndex t \<and> weekdayIndex t \<le> 6"
  by (simp add: weekdayIndex_def)

lemma combineDayAndTime_eq:
  assumes "parse_15_04 s = Some p"
  shows "combineDayAndTime day s = Some (local_day day * Day + clock_minutes p * Minute - BusinessLocation)"
proof -
  obtain y m d where c: "civil_from_days (local_day day) = (y, m, d)" by (metis prod_cases3)
  obtain h mi where p: "p = (h, mi)" by (cases p)
  have "h * Hour + mi * Minute = clock_minutes p * Minute"
    unfolding p clock_minutes_def Hour_def fst_conv snd_conv by algebra
  then have "time_Date y m d h mi = local_day day * Day + clock_minutes p * Minute - BusinessLocation"
    unfolding time_Date_civil [OF c] by (rule arg_cong)
  then show ?thesis unfolding combineDayAndTime_def assms c p by simp
qed

lemma combineDayAndTime_ok:
  assumes "timeFormatRegexp s"
  obtains t where "combineDayAndTime day s = Some t" "local_day t = local_day day"
    "parse_15_04 s \<noteq> None"
proof -
  obtain h mi where p: "parse_15_04 s = Some (h, mi)" and b: "0 \<le> h" "h < 24" "0 \<le> mi" "mi < 60"
    by (rule timeFormat_parses [OF assms])
  let ?c = "clock_minutes (h, mi) * Minute"
  have "clock_minutes (h, mi) < 24 * 60" "0 \<le> clock_minutes (h, mi)"
    using b by (simp_all add: clock_minutes_def)
  then have c: "0 \<le> ?c" "?c < Day" by (simp_all add: duration_defs)
  show ?thesis
    by (rule that [OF combineDayAndTime_eq [OF p]])
      (use local_day_of_clock(1) [OF c, of "local_day day"] p in \<open>simp_all add: algebra_simps\<close>)
qed

lemma combineDayAndTime_order:
  assumes "timeFormatRegexp s" "timeFormatRegexp t"
    and "combineDayAndTime day s = Some x" "combineDayAndTime day t = Some y"
  shows "x < y \<longleftrightarrow> s < t" "x \<le> y \<longleftrightarrow> s \<le> t"
proof -
  obtain p where p: "parse_15_04 s = Some p"
    by (rule combineDayAndTime_ok [OF assms(1), of day]) auto
  obtain q where q: "parse_15_04 t = Some q"
    by (rule combineDayAndTime_ok [OF assms(2), of day]) auto
  define b where "b = local_day day * Day - BusinessLocation"
  have x: "x = clock_minutes p * Minute + b"
    using assms(3) unfolding combineDayAndTime_eq [OF p] by (simp add: b_def)
  have y: "y = clock_minutes q * Minute + b"
    using assms(4) unfolding combineDayAndTime_eq [OF q] by (simp add: b_def)
  have M: "0 < Minute" by (simp add: duration_defs)
  show "x < y \<longleftrightarrow> s < t" "x \<le> y \<longleftrightarrow> s \<le> t"
    unfolding x y timeFormat_order [OF assms(1,2) p q] using M by simp_all
qed

text \<open>The hours of a row that passed \<open>validateHours\<close>.\<close>

definition hours_ok :: "WashingPointSchedule \<Rightarrow> bool" where
  "hours_ok r \<longleftrightarrow>
     (sch_IsOpen r \<longrightarrow>
       (\<exists>ot ct. sch_OpenTime r = Some ot \<and> sch_CloseTime r = Some ct \<and>
          timeFormatRegexp ot \<and> timeFormatRegexp ct \<and> ot < ct \<and>
          (sch_BreakStart r = None \<and> sch_BreakEnd r = None \<or>
           (\<exists>bs be. sch_BreakStart r = Some bs \<and> sch_BreakEnd r = Some be \<and>
              timeFormatRegexp bs \<and> timeFormatRegexp be \<and> ot \<le> bs \<and> bs < be \<and> be \<le> ct)))) \<and>
     (\<not> sch_IsOpen r \<longrightarrow> sch_OpenTime r = None \<and> sch_CloseTime r = None \<and>
        sch_BreakStart r = None \<and> sch_BreakEnd r = None)"

lemma validateHours_ok:
  assumes "validateHours (zero_row\<lparr>sch_Weekday := d, sch_IsOpen := True\<rparr>) inp = Inr r"
  shows "hours_ok r \<and> sch_IsOpen r \<and> sch_Weekday r = d"
  using assms
  by (auto simp: validateHours_def zero_row_def hours_ok_def Let_def not_le
      split: option.splits if_splits)

text \<open>
  \<open>day_schedule_ok\<close>: what the booking code relies on. A day is closed, or its opening instant
  precedes its closing instant, both lie on the same local day, and a break lies within them.
\<close>

definition day_schedule_ok :: "time \<Rightarrow> DaySchedule \<Rightarrow> bool" where
  "day_schedule_ok day ds \<longleftrightarrow>
     (ds_IsOpen ds \<longrightarrow> ds_Open ds < ds_Close ds \<and>
        local_day (ds_Open ds) = local_day day \<and> local_day (ds_Close ds) = local_day day \<and>
        (ds_BreakStart ds = None \<and> ds_BreakEnd ds = None \<or>
         (\<exists>bs be. ds_BreakStart ds = Some bs \<and> ds_BreakEnd ds = Some be \<and>
            ds_Open ds \<le> bs \<and> bs < be \<and> be \<le> ds_Close ds)))"

lemma resolve_hours_ok:
  assumes "hours_ok r"
  obtains ds where "resolveDaySchedule day (Some r) = Some ds" "ds_IsOpen ds = sch_IsOpen r"
    "day_schedule_ok day ds"
proof (cases "sch_IsOpen r")
  case False
  then show ?thesis
    by (intro that [of closed_day]) (simp_all add: resolveDaySchedule_def closed_day_def day_schedule_ok_def)
next
  case True
  with assms obtain ot ct where o: "sch_OpenTime r = Some ot" "sch_CloseTime r = Some ct"
    "timeFormatRegexp ot" "timeFormatRegexp ct" "ot < ct" by (auto simp: hours_ok_def)
  obtain io ic where i: "combineDayAndTime day ot = Some io" "combineDayAndTime day ct = Some ic"
    "local_day io = local_day day" "local_day ic = local_day day"
    using combineDayAndTime_ok [OF o(3)] combineDayAndTime_ok [OF o(4)] by metis
  have lt: "io < ic" using combineDayAndTime_order [OF o(3,4) i(1,2)] o(5) by simp
  consider "sch_BreakStart r = None" "sch_BreakEnd r = None"
    | bs be where "sch_BreakStart r = Some bs" "sch_BreakEnd r = Some be" "timeFormatRegexp bs"
      "timeFormatRegexp be" "ot \<le> bs" "bs < be" "be \<le> ct"
    using assms True o by (auto simp: hours_ok_def)
  then show ?thesis
  proof cases
    case 1
    with o i lt True show ?thesis
      by (intro that [of "\<lparr>ds_IsOpen = True, ds_Open = io, ds_Close = ic,
            ds_BreakStart = None, ds_BreakEnd = None\<rparr>"])
        (simp_all add: resolveDaySchedule_def day_schedule_ok_def)
  next
    case 2
    obtain ib ie where b: "combineDayAndTime day bs = Some ib" "combineDayAndTime day be = Some ie"
      using combineDayAndTime_ok [OF 2(3)] combineDayAndTime_ok [OF 2(4)] by metis
    have "io \<le> ib" "ib < ie" "ie \<le> ic"
      using combineDayAndTime_order [OF o(3) 2(3) i(1) b(1)] combineDayAndTime_order [OF 2(3,4) b]
        combineDayAndTime_order [OF 2(4) o(4) b(2) i(2)] 2(5-7) by simp_all
    with 2 o i b lt True show ?thesis
      by (intro that [of "\<lparr>ds_IsOpen = True, ds_Open = io, ds_Close = ic,
            ds_BreakStart = Some ib, ds_BreakEnd = Some ie\<rparr>"])
        (simp_all add: resolveDaySchedule_def day_schedule_ok_def Let_def)
  qed
qed

section \<open>Replacing the week\<close>

text \<open>What a completed loop has filled in: the row of every weekday seen.\<close>

definition filled :: "int list \<Rightarrow> WashingPointSchedule list \<Rightarrow> bool" where
  "filled seen rows \<longleftrightarrow> length rows = 7 \<and> distinct seen \<and> set seen \<subseteq> {0..6} \<and>
     (\<forall>d \<in> set seen. sch_Weekday (rows ! nat d) = d \<and> hours_ok (rows ! nat d))"

lemma filled_step:
  assumes "filled seen rows" "0 \<le> d" "d \<le> 6" "d \<notin> set seen" "sch_Weekday r = d" "hours_ok r"
  shows "filled (d # seen) (rows[nat d := r])"
proof -
  have "nat d < length rows" using assms(1,3) by (simp add: filled_def)
  moreover have "rows[nat d := r] ! nat x = rows ! nat x" if "x \<in> set seen" for x
  proof -
    have "0 \<le> x" "x \<noteq> d" using that assms(1,4) by (auto simp: filled_def)
    then show ?thesis using assms(2) by simp
  qed
  ultimately show ?thesis using assms by (auto simp: filled_def)
qed

lemma fill_rows_filled:
  "fill_rows inputs seen rows = Inr rows' \<Longrightarrow> filled seen rows \<Longrightarrow>
   filled (rev (map in_Weekday inputs) @ seen) rows'"
proof (induction inputs seen rows rule: fill_rows.induct)
  case (2 inp inputs seen rows)
  let ?d = "in_Weekday inp"
  let ?row = "zero_row\<lparr>sch_Weekday := ?d, sch_IsOpen := in_IsOpen inp\<rparr>"
  have g: "\<not> (?d < 0 \<or> ?d > 6)" "?d \<notin> set seen"
    using "2.prems"(1) by (auto split: if_splits)
  from "2.prems"(1) g obtain r where
    r: "(if in_IsOpen inp then validateHours ?row inp else Inr ?row) = Inr r"
    and rest: "fill_rows inputs (?d # seen) (rows[nat ?d := r]) = Inr rows'"
    by (auto simp: Let_def split: sum.splits)
  have "sch_Weekday r = ?d \<and> hours_ok r"
  proof (cases "in_IsOpen inp")
    case True
    with r validateHours_ok [of ?d inp r] show ?thesis by simp
  next
    case False
    with r show ?thesis by (auto simp: hours_ok_def zero_row_def)
  qed
  with filled_step [OF "2.prems"(2), of ?d r] g have "filled (?d # seen) (rows[nat ?d := r])" by auto
  from "2.IH" [OF g refl r rest this] show ?case by simp
qed simp

lemma filled_week:
  assumes "filled ds rows" "length ds = 7"
  shows "map sch_Weekday rows = [0..6]" "\<forall>r \<in> set rows. hours_ok r"
proof -
  have "card (set ds) = 7" using assms by (simp add: filled_def distinct_card)
  moreover have sub: "set ds \<subseteq> {0..6}" using assms(1) by (simp add: filled_def)
  ultimately have "set ds = {0..6}" by (intro card_subset_eq) simp_all
  have all: "sch_Weekday (rows ! i) = int i \<and> hours_ok (rows ! i)" if "i < 7" for i
  proof -
    have "int i \<in> set ds" using that \<open>set ds = {0..6}\<close> by simp
    with assms(1) have "sch_Weekday (rows ! nat (int i)) = int i \<and> hours_ok (rows ! nat (int i))"
      unfolding filled_def by blast
    then show ?thesis by simp
  qed
  have len: "length rows = 7" using assms(1) by (simp add: filled_def)
  show "map sch_Weekday rows = [0..6]"
    by (rule nth_equalityI) (use len all in simp_all)
  show "\<forall>r \<in> set rows. hours_ok r" using len all by (metis in_set_conv_nth)
qed

lemma fill_rows_week:
  assumes "fill_rows inputs [] (replicate 7 zero_row) = Inr rows" "length inputs = 7"
  shows "map sch_Weekday rows = [0..6]" "\<forall>r \<in> set rows. hours_ok r"
proof -
  have "filled [] (replicate 7 zero_row)" by (simp add: filled_def)
  from fill_rows_filled [OF assms(1) this]
  have f: "filled (rev (map in_Weekday inputs)) rows" by simp
  have len: "length (rev (map in_Weekday inputs)) = 7" using assms(2) by simp
  show "map sch_Weekday rows = [0..6]" by (rule filled_week(1) [OF f len])
  show "\<forall>r \<in> set rows. hours_ok r" by (rule filled_week(2) [OF f len])
qed

text \<open>The rows of a point after \<open>ReplaceAll\<close>.\<close>

lemma set_number_rows: "r \<in> set (number_rows n rs) \<Longrightarrow> \<exists>r0 \<in> set rs. \<exists>k. r = r0\<lparr>sch_ID := k\<rparr>"
  by (induction rs arbitrary: n) auto

lemma map_number_rows:
  assumes "\<And>r k. f (r\<lparr>sch_ID := k\<rparr>) = f r"
  shows "map f (number_rows n rs) = map f rs"
  using assms by (induction rs arbitrary: n) auto

lemma length_number_rows [simp]: "length (number_rows n rs) = length rs"
  by (induction rs arbitrary: n) auto

lemma number_rows_nth: "i < length rs \<Longrightarrow> number_rows n rs ! i = (rs ! i)\<lparr>sch_ID := n + i\<rparr>"
  by (induction rs arbitrary: n i) (auto simp: less_Suc_eq_0_disj)

definition point_rows :: "uuid \<Rightarrow> world \<Rightarrow> WashingPointSchedule list" where
  "point_rows pid w = filter (\<lambda>r. sch_WashingPointID r = pid) (w_schedules w)"

lemma ReplaceAll_Inr:
  assumes "ReplaceAll pid rows w = (Inr (), w')"
  obtains n where "w_schedules w' = delete_where (\<lambda>r. sch_WashingPointID r = pid) (w_schedules w) @
      number_rows n (map (\<lambda>r. r\<lparr>sch_ID := uuid_Nil, sch_WashingPointID := pid\<rparr>) rows)"
    "w_queue w' = w_queue w" "w_points w' = w_points w" "w_boxes w' = w_boxes w"
    "w_users w' = w_users w"
proof -
  obtain u v where t: "query (\<lambda>_. ()) w = (Inr (), u)"
    "bindE (exec (\<lambda>w. w\<lparr>w_schedules := delete_where (\<lambda>r. sch_WashingPointID r = pid) (w_schedules w)\<rparr>))
       (\<lambda>_. insert_schedules (map (\<lambda>r. r\<lparr>sch_ID := uuid_Nil, sch_WashingPointID := pid\<rparr>) rows)) u
     = (Inr (), v)" "query (\<lambda>_. ()) v = (Inr (), w')"
    using assms by (auto simp: ReplaceAll_def Let_def elim!: transaction_Inr)
  obtain x where x: "exec (\<lambda>w. w\<lparr>w_schedules := delete_where (\<lambda>r. sch_WashingPointID r = pid) (w_schedules w)\<rparr>) u
      = (Inr (), x)"
    "insert_schedules (map (\<lambda>r. r\<lparr>sch_ID := uuid_Nil, sch_WashingPointID := pid\<rparr>) rows) x = (Inr (), v)"
    using t(2) by (auto elim!: bindE_InrE)
  have v: "\<exists>n. w_schedules v = w_schedules x @
      number_rows n (map (\<lambda>r. r\<lparr>sch_ID := uuid_Nil, sch_WashingPointID := pid\<rparr>) rows) \<and>
      w_queue v = w_queue x \<and> w_points v = w_points x \<and> w_boxes v = w_boxes x \<and> w_users v = w_users x"
    using x(2)
    by (auto simp: insert_schedules_def statement_def Let_def split: list.splits if_splits)
  show ?thesis
    using v t(1,3) x(1) that by (auto elim!: query_Inr exec_Inr)
qed

text \<open>
  A complete week: one row per weekday with usable hours. This is the shape the booking code
  reads; \<open>complete_week_resolves\<close> is all it needs to know about it.
\<close>

definition complete_week :: "uuid \<Rightarrow> world \<Rightarrow> bool" where
  "complete_week pid w \<longleftrightarrow> map sch_Weekday (point_rows pid w) = [0..6] \<and>
     (\<forall>r \<in> set (point_rows pid w). hours_ok r)"

lemma find_filter: "find (\<lambda>x. P x \<and> Q x) xs = find Q (filter P xs)"
  by (induction xs) auto

lemma complete_week_row:
  assumes "complete_week pid w"
  obtains r where "schedule_row pid (weekdayIndex t) w = Some r" "r \<in> set (point_rows pid w)"
    "sch_Weekday r = weekdayIndex t" "hours_ok r"
proof -
  have "weekdayIndex t \<in> set (map sch_Weekday (point_rows pid w))"
    using assms weekdayIndex_range [of t] by (simp add: complete_week_def)
  then have "find (\<lambda>r. sch_Weekday r = weekdayIndex t) (point_rows pid w) \<noteq> None"
    by (auto simp: find_None_iff)
  then obtain r where "find (\<lambda>r. sch_Weekday r = weekdayIndex t) (point_rows pid w) = Some r" by blast
  moreover from this have "r \<in> set (point_rows pid w)" "sch_Weekday r = weekdayIndex t"
    by (auto simp: find_Some_iff)
  ultimately show ?thesis
    using that assms by (auto simp: complete_week_def schedule_row_def point_rows_def find_filter)
qed

lemma complete_week_resolves:
  assumes "complete_week pid w"
  obtains ds where "resolveDaySchedule t (schedule_row pid (weekdayIndex t) w) = Some ds"
    "day_schedule_ok t ds"
  using assms by (metis complete_week_row resolve_hours_ok)

lemma ReplaceAll_week:
  assumes "ReplaceAll pid rows w = (Inr (), w')"
    and "map sch_Weekday rows = [0..6]" "\<forall>r \<in> set rows. hours_ok r"
  shows "complete_week pid w'" "q \<noteq> pid \<Longrightarrow> point_rows q w' = point_rows q w"
    "map schedule_toResponse (point_rows pid w') = map schedule_toResponse rows"
proof -
  let ?rows = "map (\<lambda>r. r\<lparr>sch_ID := uuid_Nil, sch_WashingPointID := pid\<rparr>) rows"
  obtain n where n: "w_schedules w' =
      delete_where (\<lambda>r. sch_WashingPointID r = pid) (w_schedules w) @ number_rows n ?rows"
    by (rule ReplaceAll_Inr [OF assms(1)])
  have pid: "sch_WashingPointID r = pid" if "r \<in> set (number_rows n ?rows)" for r
    using set_number_rows [OF that] by auto
  have "filter (\<lambda>r. sch_WashingPointID r = pid) (delete_where (\<lambda>r. sch_WashingPointID r = pid) xs) = []"
    for xs by (simp add: filter_empty_conv)
  then have pr: "point_rows pid w' = number_rows n ?rows"
    unfolding point_rows_def n using pid by (simp add: filter_id_conv)
  have "map sch_Weekday (number_rows n ?rows) = [0..6]"
    using assms(2) by (subst map_number_rows) (simp_all add: o_def)
  moreover have "hours_ok r" if r: "r \<in> set (number_rows n ?rows)" for r
  proof -
    obtain r0 k where "r0 \<in> set rows" "r = r0\<lparr>sch_ID := uuid_Nil, sch_WashingPointID := pid\<rparr>\<lparr>sch_ID := k\<rparr>"
      using set_number_rows [OF r] by auto
    then show ?thesis using assms(3) by (auto simp: hours_ok_def)
  qed
  ultimately show "complete_week pid w'" by (simp add: complete_week_def pr)
  show "map schedule_toResponse (point_rows pid w') = map schedule_toResponse rows"
    unfolding pr by (subst map_number_rows) (simp_all add: o_def schedule_toResponse_def)
  assume "q \<noteq> pid"
  then have "filter (\<lambda>r. sch_WashingPointID r = q) (number_rows n ?rows) = []"
    using pid by (auto simp: filter_empty_conv)
  moreover have "filter (\<lambda>r. sch_WashingPointID r = q) (delete_where (\<lambda>r. sch_WashingPointID r = pid) xs) =
      filter (\<lambda>r. sch_WashingPointID r = q) xs" for xs
    using \<open>q \<noteq> pid\<close> by (induction xs) auto
  ultimately show "point_rows q w' = point_rows q w" unfolding point_rows_def n by simp
qed

text \<open>
  C31 A successful schedule replacement leaves the point with exactly one row per weekday and
  hours the booking code can use: whatever the day, the stored row resolves without an error
  to a day that is closed, or opens before it closes on that local day with its break inside
  the hours. The rows of every other point stay as they were.
\<close>

theorem Replace_complete_week:
  assumes "Replace pid inputs w = (Inr rows, w')"
  shows "complete_week pid w' \<and>
    (\<forall>t. \<exists>ds. resolveDaySchedule t (schedule_row pid (weekdayIndex t) w') = Some ds \<and> day_schedule_ok t ds) \<and>
    (\<forall>q. q \<noteq> pid \<longrightarrow> point_rows q w' = point_rows q w)"
proof (intro conjI allI impI)
  from assms have "length inputs = 7" "fill_rows inputs [] (replicate 7 zero_row) = Inr rows"
    "ReplaceAll pid rows w = (Inr (), w')"
    by (auto simp: Replace_def split: if_splits sum.splits elim!: bindE_InrE)
  note facts = this and week = fill_rows_week [OF this(2,1)]
  show cw: "complete_week pid w'" by (rule ReplaceAll_week(1) [OF facts(3) week])
  show "\<exists>ds. resolveDaySchedule t (schedule_row pid (weekdayIndex t) w') = Some ds \<and> day_schedule_ok t ds"
    for t by (rule complete_week_resolves [OF cw]) blast
  show "point_rows q w' = point_rows q w" if "q \<noteq> pid" for q
    by (rule ReplaceAll_week(2) [OF facts(3) week that])
qed

definition week_example :: "Input list" where
  "week_example = map (\<lambda>d. \<lparr>in_Weekday = d, in_IsOpen = d \<noteq> 6, in_OpenTime = Some ''09:00'',
     in_CloseTime = Some ''20:00'', in_BreakStart = Some ''13:00'', in_BreakEnd = Some ''14:00''\<rparr>) [0..6]"

theorem Replace_complete_week_witness:
  "complete_week 1 (snd (Replace 1 week_example (empty_world 0)))"
proof -
  have "is_ok (fst (Replace 1 week_example (empty_world 0)))" by code_simp
  then obtain rows w' where r: "Replace 1 week_example (empty_world 0) = (Inr rows, w')"
    by (cases "Replace 1 week_example (empty_world 0)") (auto simp: is_ok_def split: sum.splits)
  from Replace_complete_week [OF this] r show ?thesis by simp
qed

lemma SeedDefault_week:
  assumes "Schedule_SeedDefault pid openTime closeTime w = (Inr (), w')"
    and "timeFormatRegexp openTime" "timeFormatRegexp closeTime" "openTime < closeTime"
  shows "complete_week pid w'" "q \<noteq> pid \<Longrightarrow> point_rows q w' = point_rows q w"
proof -
  let ?row = "\<lambda>weekday. zero_row\<lparr>sch_Weekday := weekday, sch_IsOpen := True,
    sch_OpenTime := Some openTime, sch_CloseTime := Some closeTime\<rparr>"
  have run: "ReplaceAll pid (map ?row [0..6]) w = (Inr (), w')"
    using assms(1) by (simp add: Schedule_SeedDefault_def)
  have wd: "map sch_Weekday (map ?row [0..6]) = [0..6]" by (simp add: o_def)
  have ok: "\<forall>r \<in> set (map ?row [0..6]). hours_ok r"
    using assms(2-4) by (auto simp: hours_ok_def zero_row_def)
  show "complete_week pid w'" by (rule ReplaceAll_week(1) [OF run wd ok])
  show "q \<noteq> pid \<Longrightarrow> point_rows q w' = point_rows q w" by (rule ReplaceAll_week(2) [OF run wd ok])
qed

text \<open>A rejected or failed replacement changes no row.\<close>

lemma Replace_atomic:
  assumes "Replace pid inputs w = (Inl e, w')"
  shows "same_tables w w'"
  using assms
  by (auto simp: Replace_def ReplaceAll_def Let_def split: if_splits sum.splits
      elim!: bindE_cases dest: transaction_atomic)

end
