(* ===== verification/Boxes.thy ===== *)
theory Boxes
  imports Model
begin

text \<open>
  \<open>internal/box\<close>: the boxes of a point. The number of a new box is the highest number of the
  point plus one; the table's UNIQUE (washing_point_id, number) index rejects a duplicate.
\<close>

section \<open>Repository\<close>

definition point_boxes :: "uuid \<Rightarrow> world \<Rightarrow> Box list" where
  "point_boxes pid w = filter (\<lambda>b. bx_WashingPointID b = pid) (w_boxes w)"

definition BoxRepo_ListByWashingPoint :: "uuid \<Rightarrow> Box list db" where
  "BoxRepo_ListByWashingPoint pid = query (\<lambda>w. sort_key bx_Number (point_boxes pid w))"

definition BoxRepo_FindByID :: "uuid \<Rightarrow> Box db" where
  "BoxRepo_FindByID boxID = first_or (NotFound ''box_not_found'') (\<lambda>w. find_row bx_ID boxID (w_boxes w))"

definition box_numbered :: "uuid \<Rightarrow> int \<Rightarrow> world \<Rightarrow> Box option" where
  "box_numbered pid number w =
     find (\<lambda>b. bx_WashingPointID b = pid \<and> bx_Number b = number) (w_boxes w)"

definition FindByNumber :: "uuid \<Rightarrow> int \<Rightarrow> Box option db" where
  "FindByNumber pid number = query (box_numbered pid number)"

definition max_number :: "uuid \<Rightarrow> world \<Rightarrow> int" where
  "max_number pid w =
     (case map bx_Number (point_boxes pid w) of [] \<Rightarrow> 0 | n # ns \<Rightarrow> foldl max n ns)"

definition MaxNumber :: "uuid \<Rightarrow> int db" where
  "MaxNumber pid = query (max_number pid)"

definition box_row_ok :: "Box \<Rightarrow> world \<Rightarrow> bool" where
  "box_row_ok b w \<longleftrightarrow> 0 < bx_Number b \<and> box_numbered (bx_WashingPointID b) (bx_Number b) w = None"

definition BoxRepo_Create :: "Box \<Rightarrow> Box db" where
  "BoxRepo_Create b =
     statement (bindE fresh_id (\<lambda>boxID.
       let row = b\<lparr>bx_ID := boxID\<rparr>
       in bindE (reads (box_row_ok row)) (\<lambda>ok.
          bindE (require ok Internal) (\<lambda>_.
          bindE (writes (\<lambda>w. w\<lparr>w_boxes := w_boxes w @ [row]\<rparr>)) (\<lambda>_.
          return_ok row)))))"

definition BoxRepo_Update :: "Box \<Rightarrow> unit db" where
  "BoxRepo_Update b =
     exec (\<lambda>w. w\<lparr>w_boxes := update_where (\<lambda>r. bx_ID r = bx_ID b)
       (\<lambda>r. r\<lparr>bx_Label := bx_Label b, bx_IsOpen := bx_IsOpen b\<rparr>) (w_boxes w)\<rparr>)"

definition BoxRepo_Delete :: "uuid \<Rightarrow> unit db" where
  "BoxRepo_Delete boxID = exec (\<lambda>w. w\<lparr>w_boxes := delete_where (\<lambda>r. bx_ID r = boxID) (w_boxes w)\<rparr>)"

section \<open>Manager\<close>

definition new_box :: "uuid \<Rightarrow> int \<Rightarrow> string option \<Rightarrow> Box" where
  "new_box pid number label =
     \<lparr>bx_ID = uuid_Nil, bx_WashingPointID = pid, bx_Number = number, bx_Label = label, bx_IsOpen = True\<rparr>"

definition BoxManager_Create :: "uuid \<Rightarrow> string option \<Rightarrow> Box db" where
  "BoxManager_Create pid label =
     bindE (MaxNumber pid) (\<lambda>mx. BoxRepo_Create (new_box pid (mx + 1) label))"

definition seed_box :: "uuid \<Rightarrow> int \<Rightarrow> unit db" where
  "seed_box pid n = bindE (BoxRepo_Create (new_box pid n None)) (\<lambda>_. return_ok ())"

definition Box_SeedDefault :: "uuid \<Rightarrow> int \<Rightarrow> unit db" where
  "Box_SeedDefault pid cnt = forE [1..cnt] (seed_box pid)"

section \<open>Handler\<close>

record box_response =
  br_id :: uuid
  br_number :: int
  br_label :: "string option"
  br_is_open :: bool

definition box_toResponse :: "Box \<Rightarrow> box_response" where
  "box_toResponse b =
     \<lparr>br_id = bx_ID b, br_number = bx_Number b, br_label = bx_Label b, br_is_open = bx_IsOpen b\<rparr>"

definition normalizeLabel :: "string option \<Rightarrow> apperror + string option" where
  "normalizeLabel label =
     (case label of
        None \<Rightarrow> Inr None
      | Some l \<Rightarrow>
          (let trimmed = TrimSpace l
           in if trimmed = [] then Inr None
              else if length trimmed > 255 then Inl (BadRequest ''invalid_label'')
              else Inr (Some trimmed)))"

definition box_list :: "(string \<Rightarrow> uuid option) \<Rightarrow> string \<Rightarrow> box_response list db" where
  "box_list uuid_parse rawID =
     bindE (lift_result (ParseUUIDParam uuid_parse rawID)) (\<lambda>pid.
     bindE (BoxRepo_ListByWashingPoint pid) (\<lambda>boxes.
     return_ok (map box_toResponse boxes)))"

definition box_create ::
  "(string \<Rightarrow> uuid option) \<Rightarrow> AuthUser option \<Rightarrow> string \<Rightarrow> apperror + string option \<Rightarrow> box_response db" where
  "box_create uuid_parse ctx rawID body =
     bindE (lift_result (AuthUserFrom ctx)) (\<lambda>authUser.
     bindE (lift_result (ParseUUIDParam uuid_parse rawID)) (\<lambda>pid.
     bindE (require (OwnsWashingPoint authUser pid) (NotFound ''washing_point_not_found'')) (\<lambda>_.
     bindE (lift_result body) (\<lambda>rawLabel.
     bindE (lift_result (normalizeLabel rawLabel)) (\<lambda>label.
     bindE (BoxManager_Create pid label) (\<lambda>b.
     return_ok (box_toResponse b)))))))"

definition box_findOwned ::
  "(string \<Rightarrow> uuid option) \<Rightarrow> AuthUser \<Rightarrow> string \<Rightarrow> string \<Rightarrow> Box db" where
  "box_findOwned uuid_parse authUser rawID rawBoxID =
     bindE (lift_result (ParseUUIDParam uuid_parse rawID)) (\<lambda>pid.
     bindE (lift_result (ParseUUIDParam uuid_parse rawBoxID)) (\<lambda>boxID.
     bindE (require (OwnsWashingPoint authUser pid) (NotFound ''box_not_found'')) (\<lambda>_.
     bindE (BoxRepo_FindByID boxID) (\<lambda>b.
     bindE (require (bx_WashingPointID b = pid) (NotFound ''box_not_found'')) (\<lambda>_.
     return_ok b)))))"

record box_update_request =
  bu_label :: "string option"
  bu_is_open :: "bool option"

definition box_update ::
  "(string \<Rightarrow> uuid option) \<Rightarrow> AuthUser option \<Rightarrow> string \<Rightarrow> string \<Rightarrow>
   apperror + box_update_request \<Rightarrow> box_response db" where
  "box_update uuid_parse ctx rawID rawBoxID body =
     bindE (lift_result (AuthUserFrom ctx)) (\<lambda>authUser.
     bindE (box_findOwned uuid_parse authUser rawID rawBoxID) (\<lambda>b.
     bindE (lift_result body) (\<lambda>req.
     bindE (case bu_label req of
              None \<Rightarrow> return_ok b
            | Some l \<Rightarrow> bindE (lift_result (normalizeLabel (Some l))) (\<lambda>label.
                return_ok (b\<lparr>bx_Label := label\<rparr>))) (\<lambda>b1.
     let openChanged = (case bu_is_open req of None \<Rightarrow> False | Some v \<Rightarrow> v \<noteq> bx_IsOpen b1);
         b2 = (case bu_is_open req of None \<Rightarrow> b1 | Some v \<Rightarrow> b1\<lparr>bx_IsOpen := v\<rparr>)
     in bindE (BoxRepo_Update b2) (\<lambda>_.
        bindE (if openChanged then Publish (bx_WashingPointID b2) else return_ok ()) (\<lambda>_.
        return_ok (box_toResponse b2)))))))"

definition box_delete ::
  "(string \<Rightarrow> uuid option) \<Rightarrow> AuthUser option \<Rightarrow> string \<Rightarrow> string \<Rightarrow> unit db" where
  "box_delete uuid_parse ctx rawID rawBoxID =
     bindE (lift_result (AuthUserFrom ctx)) (\<lambda>authUser.
     bindE (box_findOwned uuid_parse authUser rawID rawBoxID) (\<lambda>b.
     BoxRepo_Delete (bx_ID b)))"

section \<open>Numbering\<close>

text \<open>Boxes have distinct identifiers and, within a point, distinct positive numbers.\<close>

definition box_key :: "Box \<Rightarrow> uuid \<times> int" where
  "box_key b = (bx_WashingPointID b, bx_Number b)"

definition boxes_ok :: "world \<Rightarrow> bool" where
  "boxes_ok w \<longleftrightarrow> distinct (map bx_ID (w_boxes w)) \<and> distinct (map box_key (w_boxes w)) \<and>
     (\<forall>b \<in> set (w_boxes w). bx_ID b < w_next w \<and> 0 < bx_Number b)"

lemma boxes_ok_table: "table_property boxes_ok"
  by (rule table_propertyI) (auto simp: boxes_ok_def)

lemma box_numbered_None:
  "box_numbered pid n w = None \<longleftrightarrow> (pid, n) \<notin> box_key ` set (w_boxes w)"
  by (auto simp: box_numbered_def find_None_iff box_key_def)

lemma BoxRepo_Create_ok: "preserves boxes_ok (BoxRepo_Create b)"
  unfolding BoxRepo_Create_def
proof (rule preserves_statement [OF boxes_ok_table], rule preservesI)
  fix w assume ok: "boxes_ok w"
  have key: "box_key (b\<lparr>bx_ID := i\<rparr>) = (bx_WashingPointID b, bx_Number b)" for i
    by (simp add: box_key_def)
  show "boxes_ok (snd (bindE fresh_id (\<lambda>boxID.
       let row = b\<lparr>bx_ID := boxID\<rparr>
       in bindE (reads (box_row_ok row)) (\<lambda>ok.
          bindE (require ok Internal) (\<lambda>_.
          bindE (writes (\<lambda>w. w\<lparr>w_boxes := w_boxes w @ [row]\<rparr>)) (\<lambda>_.
          return_ok row)))) w))"
    using ok
    by (auto simp: boxes_ok_def bindE_def fresh_id_def Let_def key box_row_ok_def box_numbered_None
        less_Suc_eq box_numbered_def [symmetric])
qed

lemma update_boxes_ok:
  assumes "boxes_ok w" "\<And>b. bx_ID (f b) = bx_ID b" "\<And>b. box_key (f b) = box_key b"
  shows "boxes_ok (w\<lparr>w_boxes := update_where c f (w_boxes w)\<rparr>)"
proof -
  have "bx_Number (f b) = bx_Number b" for b using assms(3) [of b] by (simp add: box_key_def)
  with assms show ?thesis by (auto simp: boxes_ok_def set_update_where)
qed

lemma BoxRepo_Update_ok: "preserves boxes_ok (BoxRepo_Update b)"
  unfolding BoxRepo_Update_def
  by (rule preserves_exec [OF boxes_ok_table], erule update_boxes_ok) (simp_all add: box_key_def)

lemma BoxRepo_Delete_ok: "preserves boxes_ok (BoxRepo_Delete boxID)"
  unfolding BoxRepo_Delete_def
  by (rule preserves_exec [OF boxes_ok_table]) (auto simp: boxes_ok_def distinct_map_delete_where)

lemmas box_preserves = db_preserves preserves_query [OF boxes_ok_table]
  preserves_first_or [OF boxes_ok_table] BoxRepo_Create_ok BoxRepo_Update_ok BoxRepo_Delete_ok

lemma BoxManager_Create_ok: "preserves boxes_ok (BoxManager_Create pid label)"
  unfolding BoxManager_Create_def MaxNumber_def by (intro box_preserves)

lemma Box_SeedDefault_ok: "preserves boxes_ok (Box_SeedDefault pid n)"
  unfolding Box_SeedDefault_def seed_box_def by (intro box_preserves)

lemma Publish_boxes_ok: "preserves boxes_ok (Publish pid)"
  unfolding Publish_def by (rule preserves_writes) (simp add: boxes_ok_def)

lemma box_findOwned_ok: "preserves boxes_ok (box_findOwned uuid_parse u a b)"
  unfolding box_findOwned_def BoxRepo_FindByID_def by (intro box_preserves)

text \<open>
  Every box endpoint, whatever its request and whichever database statement fails, keeps the
  boxes' identifiers distinct and, within a point, their numbers positive and distinct.
\<close>

theorem box_endpoints_keep_numbers_distinct:
  "preserves boxes_ok (box_create uuid_parse ctx rawID cbody) \<and>
   preserves boxes_ok (box_update uuid_parse ctx rawID rawBoxID ubody) \<and>
   preserves boxes_ok (box_delete uuid_parse ctx rawID rawBoxID) \<and>
   preserves boxes_ok (Box_SeedDefault pid n)"
  unfolding box_create_def box_update_def box_delete_def Let_def
  by (intro conjI box_preserves BoxManager_Create_ok Box_SeedDefault_ok box_findOwned_ok
      Publish_boxes_ok)

lemma foldl_max_ge: "x \<in> set (n # ns) \<Longrightarrow> x \<le> foldl max (n::int) ns"
proof (induction ns arbitrary: n x)
  case (Cons m ns)
  from Cons.prems consider "x \<le> max n m" | "x \<in> set ns" by auto
  then show ?case
  proof cases
    case 1
    also have "max n m \<le> foldl max (max n m) ns" by (rule Cons.IH) simp
    finally show ?thesis by simp
  next
    case 2
    then have "x \<le> foldl max (max n m) ns" by (intro Cons.IH) simp
    then show ?thesis by simp
  qed
qed simp

lemma max_number_ge: "b \<in> set (w_boxes w) \<Longrightarrow> bx_WashingPointID b = pid \<Longrightarrow> bx_Number b \<le> max_number pid w"
proof -
  assume "b \<in> set (w_boxes w)" "bx_WashingPointID b = pid"
  then have mem: "bx_Number b \<in> set (map bx_Number (point_boxes pid w))" by (simp add: point_boxes_def)
  show "bx_Number b \<le> max_number pid w"
  proof (cases "map bx_Number (point_boxes pid w)")
    case (Cons n ns)
    with mem foldl_max_ge [of "bx_Number b" n ns] show ?thesis by (simp add: max_number_def)
  qed (use mem in simp)
qed

lemma foldl_max_mem: "foldl max (n::int) ns \<in> set (n # ns)"
proof (induction ns arbitrary: n)
  case (Cons m ns)
  have "foldl max (max n m) ns \<in> set (max n m # ns)" by (rule Cons)
  then show ?case by (cases "n \<le> m") (auto simp: max_absorb1 max_absorb2)
qed simp

lemma max_number_nonneg:
  assumes "boxes_ok w"
  shows "0 \<le> max_number pid w"
proof (cases "map bx_Number (point_boxes pid w)")
  case (Cons n ns)
  have "foldl max n ns \<in> set (map bx_Number (point_boxes pid w))"
    unfolding Cons by (rule foldl_max_mem)
  then obtain b where "b \<in> set (w_boxes w)" "foldl max n ns = bx_Number b"
    unfolding point_boxes_def by auto
  with assms Cons show ?thesis by (fastforce simp: max_number_def boxes_ok_def)
qed (simp add: max_number_def)

text \<open>
  With a database that answers, creating a box always succeeds: the new box is open, carries
  the point's highest number plus one, and is the only change.
\<close>

theorem BoxManager_Create_next_number:
  assumes "boxes_ok w" "w_faults w = []"
  shows "\<exists>b. BoxManager_Create pid label w =
      (Inr b, w\<lparr>w_boxes := w_boxes w @ [b], w_next := w_next w + 1\<rparr>) \<and>
    b = \<lparr>bx_ID = w_next w, bx_WashingPointID = pid, bx_Number = max_number pid w + 1,
         bx_Label = label, bx_IsOpen = True\<rparr> \<and>
    (\<forall>o' \<in> set (w_boxes w). bx_WashingPointID o' = pid \<longrightarrow> bx_Number o' < bx_Number b)"
proof -
  let ?n = "max_number pid w + 1"
  have free: "box_numbered pid ?n w = None"
    using max_number_ge [of _ w pid] by (force simp: box_numbered_def find_None_iff)
  have pos: "0 < ?n" using max_number_nonneg [OF assms(1)] by (simp add: less_add_one order_le_less_trans)
  have free': "box_numbered pid ?n (w\<lparr>w_next := m\<rparr>) = None" for m
    using free by (simp add: box_numbered_def)
  have run: "BoxManager_Create pid label w =
      (Inr ((new_box pid ?n label)\<lparr>bx_ID := w_next w\<rparr>),
       w\<lparr>w_boxes := w_boxes w @ [(new_box pid ?n label)\<lparr>bx_ID := w_next w\<rparr>], w_next := w_next w + 1\<rparr>)"
    using pos free' assms(2)
    by (simp add: BoxManager_Create_def MaxNumber_def BoxRepo_Create_def bindE_def fresh_id_def
        new_box_def box_row_ok_def Let_def)
  show ?thesis
    by (rule exI [of _ "(new_box pid ?n label)\<lparr>bx_ID := w_next w\<rparr>"])
      (use run max_number_ge [of _ w pid] in \<open>fastforce simp: new_box_def\<close>)
qed

theorem BoxManager_Create_next_number_witness:
  "fst (BoxManager_Create 7 None (empty_world 0)) =
     Inr \<lparr>bx_ID = 1, bx_WashingPointID = 7, bx_Number = 1, bx_Label = None, bx_IsOpen = True\<rparr>"
  using BoxManager_Create_next_number [of "empty_world 0" 7 None]
  by (auto simp: boxes_ok_def empty_world_def max_number_def point_boxes_def)

text \<open>Seeding a point without boxes gives it the numbers 1 to \<open>n\<close>, all open.\<close>

lemma BoxRepo_Create_Inr:
  assumes "BoxRepo_Create b w = (Inr r, w')"
  obtains i where "r = b\<lparr>bx_ID := i\<rparr>" "w_boxes w' = w_boxes w @ [r]" "w_schedules w' = w_schedules w"
    "w_points w' = w_points w" "w_queue w' = w_queue w" "w_users w' = w_users w"
  using assms that
  by (auto simp: BoxRepo_Create_def statement_def bindE_def fresh_id_def Let_def
      split: list.splits if_splits)

lemma seed_numbers:
  "forE ns (seed_box pid) w = (Inr (), w') \<Longrightarrow>
   map (\<lambda>b. (bx_Number b, bx_IsOpen b)) (point_boxes pid w') =
     map (\<lambda>b. (bx_Number b, bx_IsOpen b)) (point_boxes pid w) @ map (\<lambda>n. (n, True)) ns \<and>
   w_schedules w' = w_schedules w \<and> w_points w' = w_points w \<and> w_queue w' = w_queue w \<and>
   w_users w' = w_users w"
proof (induction ns arbitrary: w)
  case (Cons n ns)
  from Cons.prems obtain u where s: "seed_box pid n w = (Inr (), u)" and rest: "forE ns (seed_box pid) u = (Inr (), w')"
    unfolding forE.simps by (rule bindE_InrE) simp
  from s obtain r where r: "BoxRepo_Create (new_box pid n None) w = (Inr r, u)"
    unfolding seed_box_def by (rule bindE_InrE) simp
  show ?case
    by (rule BoxRepo_Create_Inr [OF r])
      (use Cons.IH [OF rest] in \<open>simp add: point_boxes_def new_box_def\<close>)
qed simp

lemma Box_SeedDefault_numbers:
  assumes "Box_SeedDefault pid n w = (Inr (), w')" "point_boxes pid w = []"
  shows "map bx_Number (point_boxes pid w') = [1..n]" "\<forall>b \<in> set (point_boxes pid w'). bx_IsOpen b"
proof -
  from seed_numbers [OF assms(1) [unfolded Box_SeedDefault_def]] assms(2)
  have eq: "map (\<lambda>b. (bx_Number b, bx_IsOpen b)) (point_boxes pid w') = map (\<lambda>n. (n, True)) [1..n]"
    by simp
  from arg_cong [OF eq, of "map fst"] show "map bx_Number (point_boxes pid w') = [1..n]"
    by (simp add: o_def)
  from arg_cong [OF eq, of "map snd"]
  have "map bx_IsOpen (point_boxes pid w') = map (\<lambda>_. True) [1..n]" by (simp add: o_def)
  then have "set (map bx_IsOpen (point_boxes pid w')) \<subseteq> {True}" by auto
  then show "\<forall>b \<in> set (point_boxes pid w'). bx_IsOpen b" by auto
qed

end
