(* ===== verification/SingleFlag.thy ===== *)
theory SingleFlag
  imports Model
begin

text \<open>
  The contract two components share: rows of a table belong to a group and at most one row of a
  group carries a flag (the default price option of a service, the cover photo of a point). The
  operations unset the flag for the group and then set it on one row. The locale states what the
  rows must provide and proves once what the two statements do; it is interpreted on the rows of
  both tables.
\<close>

definition flagged :: "('r \<Rightarrow> uuid) \<Rightarrow> ('r \<Rightarrow> bool) \<Rightarrow> uuid \<Rightarrow> 'r list \<Rightarrow> 'r list" where
  "flagged grp flag g rows = filter (\<lambda>r. grp r = g \<and> flag r) rows"

definition unset_flags ::
  "('r \<Rightarrow> uuid) \<Rightarrow> ('r \<Rightarrow> bool) \<Rightarrow> (bool \<Rightarrow> 'r \<Rightarrow> 'r) \<Rightarrow> uuid \<Rightarrow> 'r list \<Rightarrow> 'r list" where
  "unset_flags grp flag put g rows = update_where (\<lambda>r. grp r = g \<and> flag r) (put False) rows"

definition at_most_one_flag :: "('r \<Rightarrow> uuid) \<Rightarrow> ('r \<Rightarrow> bool) \<Rightarrow> 'r list \<Rightarrow> bool" where
  "at_most_one_flag grp flag rows \<longleftrightarrow> (\<forall>g. length (flagged grp flag g rows) \<le> 1)"

lemma flagged_simps [simp]:
  "flagged grp flag g [] = []"
  "flagged grp flag g (r # rows) =
     (if grp r = g \<and> flag r then r # flagged grp flag g rows else flagged grp flag g rows)"
  "flagged grp flag g (xs @ ys) = flagged grp flag g xs @ flagged grp flag g ys"
  by (simp_all add: flagged_def)

lemma set_flagged: "set (flagged grp flag g rows) = {r \<in> set rows. grp r = g \<and> flag r}"
  by (auto simp: flagged_def)

lemma flagged_empty: "flagged grp flag g rows = [] \<longleftrightarrow> (\<forall>r \<in> set rows. grp r = g \<longrightarrow> \<not> flag r)"
  by (auto simp: flagged_def filter_empty_conv)

locale single_flag =
  fixes rid :: "'r \<Rightarrow> uuid" and grp :: "'r \<Rightarrow> uuid" and flag :: "'r \<Rightarrow> bool"
    and put :: "bool \<Rightarrow> 'r \<Rightarrow> 'r"
  assumes put_rid: "rid (put b r) = rid r"
    and put_grp: "grp (put b r) = grp r"
    and put_flag: "flag (put b r) = b"
begin

lemma unset_clears: "flagged grp flag g (unset_flags grp flag put g rows) = []"
  by (auto simp: flagged_empty unset_flags_def set_update_where put_flag)

lemma unset_other:
  "h \<noteq> g \<Longrightarrow> flagged grp flag h (unset_flags grp flag put g rows) = flagged grp flag h rows"
  by (induction rows) (auto simp: unset_flags_def put_grp put_flag)

lemma unset_keys: "map rid (unset_flags grp flag put g rows) = map rid rows"
  unfolding unset_flags_def by (rule update_where_keys) (rule put_rid)

lemma unset_at_most_one:
  "at_most_one_flag grp flag rows \<Longrightarrow> at_most_one_flag grp flag (unset_flags grp flag put g rows)"
  by (metis at_most_one_flag_def le0 list.size(3) unset_clears unset_other)

lemma unset_mem:
  "r \<in> set (unset_flags grp flag put g rows) \<Longrightarrow>
   \<exists>r0 \<in> set rows. r = r0 \<or> r = put False r0"
  by (auto simp: unset_flags_def set_update_where)

text \<open>Rewriting one row of the group, keeping its identity and group.\<close>

lemma rewrite_other:
  assumes "\<And>r. rid r = i \<Longrightarrow> r \<in> set rows \<Longrightarrow> grp r = g \<and> grp (f r) = g" "h \<noteq> g"
  shows "flagged grp flag h (update_where (\<lambda>r. rid r = i) f rows) = flagged grp flag h rows"
  using assms(1) by (induction rows) (use assms(2) in auto)

lemma rewrite_set:
  assumes "flagged grp flag g rows = []" "distinct (map rid rows)" "r0 \<in> set rows" "rid r0 = i"
    and "grp (f r0) = g" "flag (f r0)"
  shows "length (flagged grp flag g (update_where (\<lambda>r. rid r = i) f rows)) = 1"
  using assms
proof (induction rows)
  case (Cons r rows)
  show ?case
  proof (cases "r = r0")
    case True
    have "rid x \<noteq> i" if "x \<in> set rows" for x
      using Cons.prems(2,4) that True by (auto simp: rev_image_eqI)
    then have "update_where (\<lambda>r. rid r = i) f rows = rows" by (rule update_where_none)
    then show ?thesis using Cons.prems True by (auto split: if_splits)
  next
    case False
    then have "r0 \<in> set rows" using Cons.prems(3) by simp
    then have "rid r \<noteq> i" using Cons.prems(2,4) by (auto simp: rev_image_eqI)
    then show ?thesis using Cons False by (auto split: if_splits)
  qed
qed simp

lemma rewrite_same:
  assumes "\<And>r. rid r = i \<Longrightarrow> r \<in> set rows \<Longrightarrow> grp (f r) = grp r \<and> flag (f r) = flag r"
  shows "length (flagged grp flag g (update_where (\<lambda>r. rid r = i) f rows)) =
    length (flagged grp flag g rows)"
  using assms by (induction rows) auto

lemma delete_unflagged:
  assumes "\<And>r. r \<in> set rows \<Longrightarrow> rid r = i \<Longrightarrow> \<not> flag r"
  shows "flagged grp flag g (delete_where (\<lambda>r. rid r = i) rows) = flagged grp flag g rows"
  using assms by (induction rows) auto

lemma delete_at_most_one:
  "at_most_one_flag grp flag rows \<Longrightarrow> at_most_one_flag grp flag (delete_where p rows)"
proof -
  have "length (flagged grp flag g (delete_where p rows)) \<le> length (flagged grp flag g rows)" for g
    by (induction rows) auto
  then show "at_most_one_flag grp flag rows \<Longrightarrow> ?thesis" by (meson at_most_one_flag_def le_trans)
qed

lemma delete_flagged:
  assumes "length (flagged grp flag g rows) = 1" "r0 \<in> set rows" "rid r0 = i" "grp r0 = g" "flag r0"
  shows "flagged grp flag g (delete_where (\<lambda>r. rid r = i) rows) = []"
proof -
  have "\<not> flag r" if "r \<in> set rows" "rid r \<noteq> i" "grp r = g" for r
    using filter_eq_length_le_one [of "\<lambda>r. grp r = g \<and> flag r" rows r r0] assms that
    by (auto simp: flagged_def)
  then show ?thesis by (auto simp: flagged_empty)
qed

lemma delete_other:
  assumes "\<And>r. r \<in> set rows \<Longrightarrow> rid r = i \<Longrightarrow> grp r = g" "h \<noteq> g"
  shows "flagged grp flag h (delete_where (\<lambda>r. rid r = i) rows) = flagged grp flag h rows"
  using assms(1) by (induction rows) (use assms(2) in auto)

end

end
