(* ===== verification/Services.thy ===== *)
theory Services
  imports SingleFlag WpRepo
begin

text \<open>
  \<open>internal/service\<close>: services and their price options (repository, manager, handler). The
  manager keeps "exactly one default price option per service"; the database backs "at most one"
  with a partial unique index. \<open>FindByID\<close> returns a service with its preloaded options, in
  order of creation, as a pair.
\<close>

section \<open>Repository\<close>

definition options_of :: "uuid \<Rightarrow> world \<Rightarrow> ServicePriceOption list" where
  "options_of sid w = sort_key po_CreatedAt (filter (\<lambda>o'. po_ServiceID o' = sid) (w_options w))"

definition ServiceRepo_ListByWashingPoint :: "uuid \<Rightarrow> (Service \<times> ServicePriceOption list) list db" where
  "ServiceRepo_ListByWashingPoint pid =
     bindE (query (\<lambda>w. sort_key sv_Name (filter (\<lambda>s. sv_WashingPointID s = pid) (w_services w)))) (\<lambda>services.
     if services = [] then return_ok []
     else query (\<lambda>w. map (\<lambda>s. (s, options_of (sv_ID s) w)) services))"

definition CountActiveByWashingPointIDs :: "uuid list \<Rightarrow> (uuid \<Rightarrow> nat) db" where
  "CountActiveByWashingPointIDs pids =
     (if pids = [] then return_ok (\<lambda>_. 0)
      else query (\<lambda>w pid. length (filter
        (\<lambda>s. sv_WashingPointID s = pid \<and> pid \<in> set pids \<and> sv_IsActive s) (w_services w))))"

definition ServiceRepo_FindByIDs :: "uuid list \<Rightarrow> Service list db" where
  "ServiceRepo_FindByIDs ids =
     (if ids = [] then return_ok [] else query (\<lambda>w. filter (\<lambda>s. sv_ID s \<in> set ids) (w_services w)))"

definition service_by_id :: "uuid \<Rightarrow> world \<Rightarrow> Service option" where
  "service_by_id sid w = find_row sv_ID sid (w_services w)"

definition ServiceRepo_FindByID :: "uuid \<Rightarrow> (Service \<times> ServicePriceOption list) db" where
  "ServiceRepo_FindByID sid =
     bindE (first_or (NotFound ''service_not_found'') (service_by_id sid)) (\<lambda>svc.
     bindE (query (options_of sid)) (\<lambda>opts.
     return_ok (svc, opts)))"

text \<open>
  The names are bounded text, which PostgreSQL stores without NUL, and the numbers 32-bit integers,
  with the checks of the tables.
\<close>

definition varchar :: "nat \<Rightarrow> string \<Rightarrow> bool" where
  "varchar n s \<longleftrightarrow> rune_count s \<le> n \<and> list_all (\<lambda>c. c \<noteq> CHR 0x00) s"

definition int4 :: "int \<Rightarrow> bool" where
  "int4 n \<longleftrightarrow> - (2 ^ 31) \<le> n \<and> n < 2 ^ 31"

definition service_row_ok :: "Service \<Rightarrow> bool" where
  "service_row_ok s \<longleftrightarrow> varchar 255 (sv_Name s) \<and>
     (case sv_PictureURL s of None \<Rightarrow> True | Some u \<Rightarrow> varchar 500 u) \<and>
     (case sv_Description s of None \<Rightarrow> True | Some d \<Rightarrow> list_all (\<lambda>c. c \<noteq> CHR 0x00) d) \<and>
     0 < sv_DurationMinutes s \<and> int4 (sv_DurationMinutes s) \<and>
     (case sv_QueueMinutes s of None \<Rightarrow> True | Some m \<Rightarrow> 0 < m \<and> int4 m)"

definition option_row_ok :: "ServicePriceOption \<Rightarrow> bool" where
  "option_row_ok o' \<longleftrightarrow> varchar 255 (po_Name o') \<and> 0 \<le> po_PriceCents o' \<and> int4 (po_PriceCents o')"

definition one_default_each :: "ServicePriceOption list \<Rightarrow> bool" where
  "one_default_each rows \<longleftrightarrow>
     (\<forall>o' \<in> set rows. length (flagged po_ServiceID po_IsDefault (po_ServiceID o') rows) \<le> 1)"

primrec number_options :: "uuid \<Rightarrow> uuid \<Rightarrow> time \<Rightarrow> ServicePriceOption list \<Rightarrow> ServicePriceOption list" where
  "number_options n sid now [] = []"
| "number_options n sid now (o' # os) =
     o'\<lparr>po_ID := n, po_ServiceID := sid, po_CreatedAt := now\<rparr> # number_options (n + 1) sid now os"

text \<open>One INSERT of several options: all of them, or none when a constraint fails.\<close>

definition insert_options :: "uuid \<Rightarrow> ServicePriceOption list \<Rightarrow> ServicePriceOption list db" where
  "insert_options sid opts =
     statement (\<lambda>w.
       let new = number_options (w_next w) sid (w_now w) opts;
           all = w_options w @ new
       in if (\<forall>o' \<in> set new. option_row_ok o') \<and> one_default_each all
          then (Inr new, w\<lparr>w_options := all, w_next := w_next w + length opts\<rparr>)
          else (Inl Internal, w\<lparr>w_next := w_next w + length opts\<rparr>))"

definition ServiceRepo_Create ::
  "Service \<Rightarrow> ServicePriceOption list \<Rightarrow> (Service \<times> ServicePriceOption list) db" where
  "ServiceRepo_Create svc opts =
     transaction (
       bindE (statement (bindE fresh_id (\<lambda>sid. bindE time_Now (\<lambda>now.
         let row = svc\<lparr>sv_ID := sid, sv_CreatedAt := now\<rparr>
         in bindE (require (service_row_ok row) Internal) (\<lambda>_.
            bindE (writes (\<lambda>w. w\<lparr>w_services := w_services w @ [row]\<rparr>)) (\<lambda>_.
            return_ok row)))))) (\<lambda>row.
       bindE (if opts = [] then return_ok [] else insert_options (sv_ID row) opts) (\<lambda>new.
       return_ok (row, new))))"

definition ServiceRepo_Update :: "Service \<Rightarrow> unit db" where
  "ServiceRepo_Update svc =
     statement (bindE (require (service_row_ok svc) Internal) (\<lambda>_.
       writes (\<lambda>w. w\<lparr>w_services := update_where (\<lambda>r. sv_ID r = sv_ID svc)
         (\<lambda>r. r\<lparr>sv_Name := sv_Name svc, sv_Description := sv_Description svc,
                sv_DurationMinutes := sv_DurationMinutes svc, sv_QueueMinutes := sv_QueueMinutes svc,
                sv_PictureURL := sv_PictureURL svc, sv_IsActive := sv_IsActive svc\<rparr>) (w_services w)\<rparr>)))"

definition ServiceRepo_Deactivate :: "uuid \<Rightarrow> unit db" where
  "ServiceRepo_Deactivate sid =
     exec (\<lambda>w. w\<lparr>w_services := update_where (\<lambda>r. sv_ID r = sid) (\<lambda>r. r\<lparr>sv_IsActive := False\<rparr>) (w_services w)\<rparr>)"

definition FindPriceOptionByID :: "uuid \<Rightarrow> ServicePriceOption db" where
  "FindPriceOptionByID oid =
     first_or (NotFound ''price_option_not_found'') (\<lambda>w. find_row po_ID oid (w_options w))"

definition FindPriceOptionsByIDs :: "uuid list \<Rightarrow> ServicePriceOption list db" where
  "FindPriceOptionsByIDs ids =
     (if ids = [] then return_ok [] else query (\<lambda>w. filter (\<lambda>o'. po_ID o' \<in> set ids) (w_options w)))"

definition CreatePriceOption :: "ServicePriceOption \<Rightarrow> ServicePriceOption db" where
  "CreatePriceOption opt =
     bindE (insert_options (po_ServiceID opt) [opt]) (\<lambda>new. return_ok (hd new))"

definition option_update :: "ServicePriceOption \<Rightarrow> ServicePriceOption \<Rightarrow> ServicePriceOption" where
  "option_update opt r =
     r\<lparr>po_Name := po_Name opt, po_PriceCents := po_PriceCents opt, po_IsDefault := po_IsDefault opt\<rparr>"

definition ServiceRepo_UpdatePriceOption :: "ServicePriceOption \<Rightarrow> unit db" where
  "ServiceRepo_UpdatePriceOption opt =
     statement (bindE (reads (\<lambda>w. update_where (\<lambda>r. po_ID r = po_ID opt) (option_update opt) (w_options w))) (\<lambda>rows.
       bindE (require (option_row_ok opt \<and> one_default_each rows) Internal) (\<lambda>_.
       writes (\<lambda>w. w\<lparr>w_options := rows\<rparr>))))"

definition ServiceRepo_DeletePriceOption :: "uuid \<Rightarrow> unit db" where
  "ServiceRepo_DeletePriceOption oid =
     exec (\<lambda>w. w\<lparr>w_options := delete_where (\<lambda>r. po_ID r = oid) (w_options w)\<rparr>)"

definition CountPriceOptionsByService :: "uuid \<Rightarrow> nat db" where
  "CountPriceOptionsByService sid =
     query (\<lambda>w. length (filter (\<lambda>o'. po_ServiceID o' = sid) (w_options w)))"

definition set_default :: "bool \<Rightarrow> ServicePriceOption \<Rightarrow> ServicePriceOption" where
  "set_default b o' = o'\<lparr>po_IsDefault := b\<rparr>"

definition UnsetDefaultPriceOptions :: "uuid \<Rightarrow> unit db" where
  "UnsetDefaultPriceOptions sid =
     exec (\<lambda>w. w\<lparr>w_options := unset_flags po_ServiceID po_IsDefault set_default sid (w_options w)\<rparr>)"

definition first_option_except :: "uuid \<Rightarrow> uuid \<Rightarrow> world \<Rightarrow> ServicePriceOption option" where
  "first_option_except sid exclude w =
     (case filter (\<lambda>o'. po_ID o' \<noteq> exclude) (options_of sid w) of [] \<Rightarrow> None | o' # _ \<Rightarrow> Some o')"

definition FirstPriceOptionExcept :: "uuid \<Rightarrow> uuid \<Rightarrow> ServicePriceOption option db" where
  "FirstPriceOptionExcept sid exclude = query (first_option_except sid exclude)"

definition CountQueueUsingPriceOption :: "uuid \<Rightarrow> nat db" where
  "CountQueueUsingPriceOption oid =
     query (\<lambda>w. length (filter (\<lambda>i. qi_PriceOptionID i = oid) (w_items w)))"

section \<open>Manager\<close>

record PriceOptionInput =
  pi_Name :: string
  pi_PriceCents :: int
  pi_IsDefault :: bool

definition new_option :: "uuid \<Rightarrow> string \<Rightarrow> int \<Rightarrow> bool \<Rightarrow> ServicePriceOption" where
  "new_option sid name cents dflt =
     \<lparr>po_ID = uuid_Nil, po_ServiceID = sid, po_Name = name, po_PriceCents = cents,
      po_IsDefault = dflt, po_CreatedAt = ZeroTime\<rparr>"

definition CreateService ::
  "uuid \<Rightarrow> string \<Rightarrow> string option \<Rightarrow> int \<Rightarrow> int option \<Rightarrow> string option \<Rightarrow> PriceOptionInput list \<Rightarrow>
   (Service \<times> ServicePriceOption list) db" where
  "CreateService pid name description durationMinutes queueMinutes pictureURL priceOptions =
     (let opts = map (\<lambda>po. new_option uuid_Nil (pi_Name po) (pi_PriceCents po) (pi_IsDefault po)) priceOptions;
          svc = \<lparr>sv_ID = uuid_Nil, sv_WashingPointID = pid, sv_Name = name, sv_Description = description,
                 sv_DurationMinutes = durationMinutes, sv_QueueMinutes = queueMinutes,
                 sv_PictureURL = pictureURL, sv_IsActive = True, sv_CreatedAt = ZeroTime\<rparr>
      in ServiceRepo_Create svc opts)"

definition AddPriceOption :: "uuid \<Rightarrow> string \<Rightarrow> int \<Rightarrow> bool \<Rightarrow> ServicePriceOption db" where
  "AddPriceOption sid name priceCents isDefault =
     bindE (ServiceRepo_FindByID sid) (\<lambda>_.
     bindE (if isDefault then UnsetDefaultPriceOptions sid else return_ok ()) (\<lambda>_.
     CreatePriceOption (new_option sid name priceCents isDefault)))"

definition UpdatePriceOption ::
  "uuid \<Rightarrow> string option \<Rightarrow> int option \<Rightarrow> bool option \<Rightarrow> ServicePriceOption db" where
  "UpdatePriceOption oid name priceCents isDefault =
     bindE (FindPriceOptionByID oid) (\<lambda>opt0.
     let opt1 = (case name of None \<Rightarrow> opt0 | Some n \<Rightarrow> opt0\<lparr>po_Name := n\<rparr>);
         opt2 = (case priceCents of None \<Rightarrow> opt1 | Some c \<Rightarrow> opt1\<lparr>po_PriceCents := c\<rparr>)
     in bindE (case isDefault of
                 None \<Rightarrow> return_ok opt2
               | Some True \<Rightarrow>
                   bindE (UnsetDefaultPriceOptions (po_ServiceID opt2)) (\<lambda>_.
                   return_ok (opt2\<lparr>po_IsDefault := True\<rparr>))
               | Some False \<Rightarrow>
                   if po_IsDefault opt2 then fail_with (BadRequest ''cannot_unset_default'')
                   else return_ok opt2) (\<lambda>opt.
        bindE (ServiceRepo_UpdatePriceOption opt) (\<lambda>_.
        return_ok opt)))"

definition DeletePriceOption :: "uuid \<Rightarrow> unit db" where
  "DeletePriceOption oid =
     bindE (FindPriceOptionByID oid) (\<lambda>opt.
     bindE (CountPriceOptionsByService (po_ServiceID opt)) (\<lambda>cnt.
     bindE (require (\<not> cnt \<le> 1) (Conflict ''last_price_option'')) (\<lambda>_.
     bindE (CountQueueUsingPriceOption oid) (\<lambda>inUse.
     bindE (require (\<not> inUse > 0) (Conflict ''price_option_in_use'')) (\<lambda>_.
     bindE (ServiceRepo_DeletePriceOption oid) (\<lambda>_.
     if po_IsDefault opt
     then bindE (FirstPriceOptionExcept (po_ServiceID opt) oid) (\<lambda>next.
          case next of
            None \<Rightarrow> return_ok ()
          | Some o' \<Rightarrow> ServiceRepo_UpdatePriceOption (o'\<lparr>po_IsDefault := True\<rparr>))
     else return_ok ()))))))"

section \<open>At most one default\<close>

interpretation default_option: single_flag po_ID po_ServiceID po_IsDefault set_default
  by unfold_locales (simp_all add: set_default_def)

definition options_ok :: "world \<Rightarrow> bool" where
  "options_ok w \<longleftrightarrow> distinct (map po_ID (w_options w)) \<and>
     (\<forall>o' \<in> set (w_options w). po_ID o' < w_next w \<and> option_row_ok o') \<and>
     at_most_one_flag po_ServiceID po_IsDefault (w_options w)"

lemma one_default_each_iff: "one_default_each rows \<longleftrightarrow> at_most_one_flag po_ServiceID po_IsDefault rows"
proof
  assume one: "one_default_each rows"
  have "length (flagged po_ServiceID po_IsDefault g rows) \<le> 1" for g
  proof (cases "flagged po_ServiceID po_IsDefault g rows")
    case (Cons o' os)
    then have "o' \<in> set (flagged po_ServiceID po_IsDefault g rows)" by simp
    then have "o' \<in> set rows" "po_ServiceID o' = g" by (auto simp: set_flagged)
    with one show ?thesis by (auto simp: one_default_each_def)
  qed simp
  then show "at_most_one_flag po_ServiceID po_IsDefault rows" by (simp add: at_most_one_flag_def)
qed (simp add: one_default_each_def at_most_one_flag_def)

lemma options_ok_table: "table_property options_ok"
  by (rule table_propertyI) (auto simp: options_ok_def)

lemma number_options_ids: "map po_ID (number_options n sid now os) = [n..<n + length os]"
proof (induction os arbitrary: n)
  case (Cons o' os)
  have eq: "[n..<n + length (o' # os)] = n # [Suc n..<Suc n + length os]"
    using upt_conv_Cons [of n "n + length (o' # os)"] by (simp del: upt_Suc)
  show ?case unfolding eq using Cons [of "Suc n"] by simp
qed simp

lemma number_options_ids_set: "po_ID ` set (number_options n sid now os) = {n..<n + length os}"
  using arg_cong [OF number_options_ids, of set n sid now os] by simp

lemma insert_options_ok: "preserves options_ok (insert_options sid opts)"
  unfolding insert_options_def
proof (rule preserves_statement [OF options_ok_table], rule preservesI)
  fix w assume ok: "options_ok w"
  let ?new = "number_options (w_next w) sid (w_now w) opts"
  have "distinct (map po_ID (w_options w @ ?new))"
    using ok by (fastforce simp: options_ok_def number_options_ids number_options_ids_set)
  moreover have "po_ID o' < w_next w + length opts" if "o' \<in> set (w_options w @ ?new)" for o'
    using ok that number_options_ids_set [of "w_next w" sid "w_now w" opts]
    by (auto simp: options_ok_def)
  ultimately show "options_ok (snd (let new = number_options (w_next w) sid (w_now w) opts;
           all = w_options w @ new
       in if (\<forall>o' \<in> set new. option_row_ok o') \<and> one_default_each all
          then (Inr new, w\<lparr>w_options := all, w_next := w_next w + length opts\<rparr>)
          else (Inl Internal, w\<lparr>w_next := w_next w + length opts\<rparr>)))"
    using ok by (auto simp: options_ok_def Let_def one_default_each_iff)
qed

lemma UpdatePriceOption_row_ok: "preserves options_ok (ServiceRepo_UpdatePriceOption opt)"
  unfolding ServiceRepo_UpdatePriceOption_def
proof (rule preserves_statement [OF options_ok_table], rule preservesI)
  fix w assume "options_ok w"
  moreover have "po_ID (option_update opt r) = po_ID r" for r by (simp add: option_update_def)
  moreover have "option_row_ok (option_update opt r) = option_row_ok opt" for r
    by (simp add: option_update_def option_row_ok_def)
  ultimately show "options_ok (snd (bindE (reads (\<lambda>w. update_where (\<lambda>r. po_ID r = po_ID opt)
      (option_update opt) (w_options w))) (\<lambda>rows.
       bindE (require (option_row_ok opt \<and> one_default_each rows) Internal) (\<lambda>_.
       writes (\<lambda>w. w\<lparr>w_options := rows\<rparr>))) w))"
    by (auto simp: options_ok_def one_default_each_iff set_update_where)
qed

lemma unset_options_ok:
  assumes ok: "options_ok w"
  shows "options_ok (w\<lparr>w_options := unset_flags po_ServiceID po_IsDefault set_default sid (w_options w)\<rparr>)"
proof -
  have "po_ID o' < w_next w \<and> option_row_ok o'"
    if "o' \<in> set (unset_flags po_ServiceID po_IsDefault set_default sid (w_options w))" for o'
    using default_option.unset_mem [OF that] ok
    by (auto simp: options_ok_def set_default_def option_row_ok_def)
  with ok show ?thesis
    by (simp add: options_ok_def default_option.unset_keys default_option.unset_at_most_one)
qed

lemma UnsetDefault_ok: "preserves options_ok (UnsetDefaultPriceOptions sid)"
  unfolding UnsetDefaultPriceOptions_def
  by (rule preserves_exec [OF options_ok_table]) (rule unset_options_ok)

lemma DeletePriceOption_row_ok: "preserves options_ok (ServiceRepo_DeletePriceOption oid)"
  unfolding ServiceRepo_DeletePriceOption_def
  by (rule preserves_exec [OF options_ok_table])
    (auto simp: options_ok_def distinct_map_delete_where default_option.delete_at_most_one)

lemma options_ok_services:
  "options_ok w \<Longrightarrow> w_next w \<le> n \<Longrightarrow> options_ok (w\<lparr>w_next := n, w_services := s\<rparr>)"
  "options_ok w \<Longrightarrow> options_ok (w\<lparr>w_services := s\<rparr>)"
  by (auto simp: options_ok_def)

lemma time_Now_ok: "preserves I time_Now"
  unfolding time_Now_def by (rule preserves_pure)

lemmas option_preserves = db_preserves preserves_query [OF options_ok_table] time_Now_ok
  preserves_first_or [OF options_ok_table] preserves_transaction [OF options_ok_table]
  preserves_statement [OF options_ok_table] preserves_fresh_id [OF options_ok_table]
  insert_options_ok UpdatePriceOption_row_ok UnsetDefault_ok DeletePriceOption_row_ok
  preserves_writes options_ok_services(2)

lemma CreateService_ok: "preserves options_ok (CreateService p n d m q u os)"
  unfolding CreateService_def ServiceRepo_Create_def Let_def
  by (intro option_preserves)

lemma AddPriceOption_ok: "preserves options_ok (AddPriceOption sid name c d)"
  unfolding AddPriceOption_def ServiceRepo_FindByID_def CreatePriceOption_def
  by (intro option_preserves)

lemma UpdatePriceOption_ok: "preserves options_ok (UpdatePriceOption oid name c d)"
proof -
  have flag: "preserves options_ok (case d of
                 None \<Rightarrow> return_ok o2
               | Some True \<Rightarrow>
                   bindE (UnsetDefaultPriceOptions (po_ServiceID o2)) (\<lambda>_.
                   return_ok (o2\<lparr>po_IsDefault := True\<rparr>))
               | Some False \<Rightarrow>
                   if po_IsDefault o2 then fail_with (BadRequest ''cannot_unset_default'')
                   else return_ok o2)" for o2
    by (cases d; cases "the d") (simp_all add: option_preserves)
  show ?thesis
    unfolding UpdatePriceOption_def FindPriceOptionByID_def Let_def
    by (intro option_preserves flag)
qed

lemma DeletePriceOption_ok: "preserves options_ok (DeletePriceOption oid)"
  unfolding DeletePriceOption_def FindPriceOptionByID_def CountPriceOptionsByService_def
    CountQueueUsingPriceOption_def FirstPriceOptionExcept_def
  by (intro option_preserves)

text \<open>
  No operation on price options can leave a service with two defaults: starting from a table
  with at most one default per service, every operation ends in such a table, whatever its
  arguments and whichever of its database statements fails.
\<close>

theorem at_most_one_default:
  "preserves options_ok (CreateService pid name description m q pic pos) \<and>
   preserves options_ok (AddPriceOption sid name c d) \<and>
   preserves options_ok (UpdatePriceOption oid n' c' d') \<and>
   preserves options_ok (DeletePriceOption oid)"
  by (intro conjI CreateService_ok AddPriceOption_ok UpdatePriceOption_ok DeletePriceOption_ok)

section \<open>Exactly one default\<close>

text \<open>The defaults of a service.\<close>

definition defaults :: "uuid \<Rightarrow> world \<Rightarrow> nat" where
  "defaults sid w = length (flagged po_ServiceID po_IsDefault sid (w_options w))"

lemma defaults_le_one: "options_ok w \<Longrightarrow> defaults sid w \<le> 1"
  by (simp add: options_ok_def at_most_one_flag_def defaults_def)

lemma flagged_number_options:
  "length (flagged po_ServiceID po_IsDefault g (number_options n sid now os)) =
     (if g = sid then length (filter po_IsDefault os) else 0)"
  by (induction os arbitrary: n) auto

lemma insert_options_defaults:
  assumes "insert_options sid opts w = (Inr new, w')"
  shows "defaults g w' = defaults g w + (if g = sid then length (filter po_IsDefault opts) else 0)"
  using assms
  by (auto simp: insert_options_def statement_def Let_def defaults_def flagged_number_options
      split: list.splits if_splits)

lemma defaults_unset:
  "defaults g (w\<lparr>w_options := unset_flags po_ServiceID po_IsDefault set_default sid (w_options w)\<rparr>) =
     (if g = sid then 0 else defaults g w)"
  by (simp add: defaults_def default_option.unset_clears default_option.unset_other)

lemma ServiceRepo_FindByID_no_fault:
  "w_faults w = [] \<Longrightarrow> ServiceRepo_FindByID sid w =
     (case service_by_id sid w of None \<Rightarrow> (Inl (NotFound ''service_not_found''), w)
      | Some s \<Rightarrow> (Inr (s, options_of sid w), w))"
  by (simp add: ServiceRepo_FindByID_def bindE_def split: option.splits)

text \<open>The values the columns of an option hold; a partial update keeps the stored ones.\<close>

definition option_fits :: "string \<Rightarrow> int \<Rightarrow> bool" where
  "option_fits name c \<longleftrightarrow> varchar 255 name \<and> 0 \<le> c \<and> c < 2 ^ 31"

definition update_fits :: "string option \<Rightarrow> int option \<Rightarrow> bool" where
  "update_fits name c \<longleftrightarrow> (case name of None \<Rightarrow> True | Some n \<Rightarrow> varchar 255 n) \<and>
     (case c of None \<Rightarrow> True | Some x \<Rightarrow> 0 \<le> x \<and> x < 2 ^ 31)"

text \<open>An option the columns hold joins a group that has room for its flag; another is refused.\<close>

lemma insert_option_no_fault:
  assumes "w_faults w = []" "options_ok w" "option_fits name c" "d \<longrightarrow> defaults sid w = 0"
  shows "\<exists>o' w'. CreatePriceOption (new_option sid name c d) w = (Inr o', w') \<and>
    (\<forall>g. defaults g w' = defaults g w + (if g = sid \<and> d then 1 else 0))"
proof -
  let ?o = "(new_option sid name c d)\<lparr>po_ID := w_next w, po_ServiceID := sid, po_CreatedAt := w_now w\<rparr>"
  have "one_default_each (w_options w @ [?o])"
    using assms(2,4) defaults_le_one [OF assms(2)]
    by (auto simp: one_default_each_iff at_most_one_flag_def defaults_def new_option_def)
  moreover have "option_row_ok ?o"
    using assms(3) by (simp add: option_fits_def option_row_ok_def int4_def new_option_def)
  ultimately show ?thesis
    using assms(1)
    by (simp add: CreatePriceOption_def insert_options_def bindE_def Let_def defaults_def new_option_def)
qed

lemma insert_option_refused:
  assumes "w_faults w = []" "\<not> option_fits name c"
  shows "CreatePriceOption (new_option sid name c d) w = (Inl Internal, w\<lparr>w_next := w_next w + 1\<rparr>)"
  using assms
  by (auto simp: CreatePriceOption_def insert_options_def bindE_def Let_def option_fits_def option_row_ok_def
      int4_def new_option_def)

lemma defaults_next [simp]: "defaults g (w\<lparr>w_next := n\<rparr>) = defaults g w"
  by (simp add: defaults_def)

lemma AddPriceOption_defaults:
  assumes "w_faults w = []" "options_ok w" "defaults g w = 1"
  shows "defaults g (snd (AddPriceOption sid name c d w)) =
    (if d \<and> \<not> option_fits name c \<and> sid = g \<and> service_by_id sid w \<noteq> None then 0 else 1)"
proof (cases "service_by_id sid w")
  case None
  then show ?thesis
    using assms by (simp add: AddPriceOption_def bindE_def ServiceRepo_FindByID_no_fault)
next
  case (Some s)
  let ?u = "if d then w\<lparr>w_options := unset_flags po_ServiceID po_IsDefault set_default sid (w_options w)\<rparr>
    else w"
  have u: "w_faults ?u = []" "options_ok ?u" "d \<longrightarrow> defaults sid ?u = 0"
    using assms(1,2) by (simp_all add: defaults_unset unset_options_ok)
  have run: "AddPriceOption sid name c d w = CreatePriceOption (new_option sid name c d) ?u"
    using assms(1) Some
    by (simp add: AddPriceOption_def bindE_def ServiceRepo_FindByID_no_fault UnsetDefaultPriceOptions_def
        split: sum.split prod.split)
  have unset: "defaults g ?u = (if d \<and> sid = g then 0 else 1)" using assms(3) by (simp add: defaults_unset)
  show ?thesis
  proof (cases "option_fits name c")
    case True
    obtain o' v where "CreatePriceOption (new_option sid name c d) ?u = (Inr o', v)"
      "\<forall>g. defaults g v = defaults g ?u + (if g = sid \<and> d then 1 else 0)"
      using insert_option_no_fault [OF u(1,2) True u(3)] by blast
    with run unset True show ?thesis by auto
  next
    case False
    with run unset insert_option_refused [OF u(1) False] Some show ?thesis by simp
  qed
qed

text \<open>Rewriting an option in place.\<close>

lemma update_row_no_fault:
  assumes "w_faults w = []" "option_row_ok opt"
    and "at_most_one_flag po_ServiceID po_IsDefault
      (update_where (\<lambda>r. po_ID r = po_ID opt) (option_update opt) (w_options w))"
  shows "ServiceRepo_UpdatePriceOption opt w = (Inr (),
    w\<lparr>w_options := update_where (\<lambda>r. po_ID r = po_ID opt) (option_update opt) (w_options w)\<rparr>)"
  using assms by (simp add: ServiceRepo_UpdatePriceOption_def one_default_each_iff)

lemma options_same_row:
  assumes "options_ok w" "o' \<in> set (w_options w)" "r \<in> set (w_options w)" "po_ID r = po_ID o'"
  shows "r = o'"
  using assms by (auto simp: options_ok_def distinct_map inj_on_def)

lemma promote_no_fault:
  assumes "w_faults w = []" "options_ok w" "o' \<in> set (w_options w)" "option_row_ok opt"
    and "po_ID opt = po_ID o'" "po_ServiceID opt = po_ServiceID o'" "po_IsDefault opt"
    and "defaults (po_ServiceID o') w = 0"
  shows "\<exists>w'. ServiceRepo_UpdatePriceOption opt w = (Inr (), w') \<and>
    (\<forall>g. defaults g w' = (if g = po_ServiceID o' then 1 else defaults g w))"
proof -
  let ?rows = "update_where (\<lambda>r. po_ID r = po_ID opt) (option_update opt) (w_options w)"
  have same: "r = o'" if "r \<in> set (w_options w)" "po_ID r = po_ID opt" for r
    using options_same_row [OF assms(2,3)] that assms(5) by simp
  have one: "length (flagged po_ServiceID po_IsDefault (po_ServiceID o') ?rows) = 1"
    using assms by (intro default_option.rewrite_set [where ?r0.0 = o'])
      (auto simp: defaults_def options_ok_def option_update_def)
  have other: "flagged po_ServiceID po_IsDefault g ?rows = flagged po_ServiceID po_IsDefault g (w_options w)"
    if "g \<noteq> po_ServiceID o'" for g
    using same that by (intro default_option.rewrite_other [where g = "po_ServiceID o'"])
      (auto simp: option_update_def)
  have "at_most_one_flag po_ServiceID po_IsDefault ?rows"
    unfolding at_most_one_flag_def
  proof
    fix g show "length (flagged po_ServiceID po_IsDefault g ?rows) \<le> 1"
      using one other [of g] defaults_le_one [OF assms(2), of g]
      by (cases "g = po_ServiceID o'") (simp_all add: defaults_def)
  qed
  from update_row_no_fault [OF assms(1,4) this] one other show ?thesis
    by (auto simp: defaults_def)
qed

lemma keep_flag_no_fault:
  assumes "w_faults w = []" "options_ok w" "o' \<in> set (w_options w)" "option_row_ok opt"
    and "po_ID opt = po_ID o'" "po_IsDefault opt = po_IsDefault o'"
  shows "\<exists>w'. ServiceRepo_UpdatePriceOption opt w = (Inr (), w') \<and> (\<forall>g. defaults g w' = defaults g w)"
proof -
  let ?rows = "update_where (\<lambda>r. po_ID r = po_ID opt) (option_update opt) (w_options w)"
  have same: "r = o'" if "r \<in> set (w_options w)" "po_ID r = po_ID opt" for r
    using options_same_row [OF assms(2,3)] that assms(5) by simp
  have eq: "length (flagged po_ServiceID po_IsDefault g ?rows) =
      length (flagged po_ServiceID po_IsDefault g (w_options w))" for g
    using same assms(6) by (intro default_option.rewrite_same) (auto simp: option_update_def)
  then have "at_most_one_flag po_ServiceID po_IsDefault ?rows"
    using assms(2) by (simp add: at_most_one_flag_def options_ok_def)
  from update_row_no_fault [OF assms(1,4) this] eq show ?thesis by (auto simp: defaults_def)
qed

lemma FindPriceOptionByID_no_fault:
  "w_faults w = [] \<Longrightarrow> FindPriceOptionByID oid w =
     (case find_row po_ID oid (w_options w) of None \<Rightarrow> (Inl (NotFound ''price_option_not_found''), w)
      | Some o' \<Rightarrow> (Inr o', w))"
  by (simp add: FindPriceOptionByID_def)

text \<open>The fields a partial update changes.\<close>

definition apply_update ::
  "string option \<Rightarrow> int option \<Rightarrow> ServicePriceOption \<Rightarrow> ServicePriceOption" where
  "apply_update name c opt0 =
     (let opt1 = (case name of None \<Rightarrow> opt0 | Some n \<Rightarrow> opt0\<lparr>po_Name := n\<rparr>)
      in case c of None \<Rightarrow> opt1 | Some x \<Rightarrow> opt1\<lparr>po_PriceCents := x\<rparr>)"

lemma apply_update_simps [simp]:
  "po_ID (apply_update name c o') = po_ID o'" "po_ServiceID (apply_update name c o') = po_ServiceID o'"
  "po_IsDefault (apply_update name c o') = po_IsDefault o'"
  by (simp_all add: apply_update_def Let_def split: option.splits)

lemma apply_update_ok:
  assumes "option_row_ok o'"
  shows "option_row_ok ((apply_update name c o')\<lparr>po_IsDefault := b\<rparr>) \<longleftrightarrow> update_fits name c"
    "option_row_ok (apply_update name c o') \<longleftrightarrow> update_fits name c"
  using assms
  by (auto simp: apply_update_def update_fits_def option_row_ok_def int4_def Let_def split: option.splits)

lemma update_row_refused:
  "w_faults w = [] \<Longrightarrow> \<not> option_row_ok opt \<Longrightarrow> ServiceRepo_UpdatePriceOption opt w = (Inl Internal, w)"
  by (simp add: ServiceRepo_UpdatePriceOption_def)

lemma UpdatePriceOption_defaults:
  assumes "w_faults w = []" "options_ok w" "defaults g w = 1"
  shows "defaults g (snd (UpdatePriceOption oid name c d w)) =
    (if d = Some True \<and> \<not> update_fits name c \<and>
       (\<exists>o' \<in> set (w_options w). po_ID o' = oid \<and> po_ServiceID o' = g) then 0 else 1)"
proof (cases "find_row po_ID oid (w_options w)")
  case None
  then have "snd (UpdatePriceOption oid name c d w) = w"
    using assms(1) by (simp add: UpdatePriceOption_def bindE_def FindPriceOptionByID_no_fault)
  moreover have "\<not> (\<exists>o' \<in> set (w_options w). po_ID o' = oid \<and> po_ServiceID o' = g)"
    using None by (auto simp: find_row_None)
  ultimately show ?thesis using assms(3) by simp
next
  case (Some o')
  then have o': "o' \<in> set (w_options w)" "po_ID o' = oid" by (auto dest: find_row_SomeD)
  have row: "option_row_ok o'" using assms(2) o'(1) by (simp add: options_ok_def)
  let ?opt = "apply_update name c o'"
  have run: "UpdatePriceOption oid name c d w = bindE (case d of
                 None \<Rightarrow> return_ok ?opt
               | Some True \<Rightarrow> bindE (UnsetDefaultPriceOptions (po_ServiceID ?opt)) (\<lambda>_.
                   return_ok (?opt\<lparr>po_IsDefault := True\<rparr>))
               | Some False \<Rightarrow> if po_IsDefault ?opt then fail_with (BadRequest ''cannot_unset_default'')
                   else return_ok ?opt)
         (\<lambda>opt. bindE (ServiceRepo_UpdatePriceOption opt) (\<lambda>_. return_ok opt)) w"
  proof -
    have find: "FindPriceOptionByID oid w = (Inr o', w)"
      by (simp add: FindPriceOptionByID_no_fault assms(1) Some)
    show ?thesis unfolding UpdatePriceOption_def bindE_Inr [where m = "FindPriceOptionByID oid", OF find] apply_update_def Let_def ..
  qed
  have hit: "(\<exists>r \<in> set (w_options w). po_ID r = oid \<and> po_ServiceID r = g) \<longleftrightarrow> po_ServiceID o' = g"
    using options_same_row [OF assms(2) o'(1)] o' by metis
  consider (keep) "d = None \<or> d = Some False \<and> \<not> po_IsDefault ?opt"
    | (refuse) "d = Some False" "po_IsDefault ?opt" | (promote) "d = Some True" by (cases d) auto
  then show ?thesis
  proof cases
    case keep
    have step: "snd (UpdatePriceOption oid name c d w) = snd (ServiceRepo_UpdatePriceOption ?opt w)"
      using keep unfolding run by (auto simp: bindE_def split: sum.split prod.split)
    show ?thesis
    proof (cases "update_fits name c")
      case True
      obtain v where "ServiceRepo_UpdatePriceOption ?opt w = (Inr (), v)" "\<forall>g. defaults g v = defaults g w"
        using keep_flag_no_fault [OF assms(1,2) o'(1), of ?opt] True apply_update_ok(2) [OF row] by auto
      with keep assms(3) step True show ?thesis by auto
    next
      case False
      with update_row_refused [OF assms(1)] apply_update_ok(2) [OF row] keep assms(3) step
      show ?thesis by auto
    qed
  next
    case refuse
    with assms(3) run show ?thesis by (auto simp: bindE_def)
  next
    case promote
    let ?sid = "po_ServiceID o'"
    let ?u = "w\<lparr>w_options := unset_flags po_ServiceID po_IsDefault set_default ?sid (w_options w)\<rparr>"
    have unset: "defaults g ?u = (if ?sid = g then 0 else 1)" using assms(3) by (simp add: defaults_unset)
    have step: "snd (UpdatePriceOption oid name c d w) =
        snd (ServiceRepo_UpdatePriceOption (?opt\<lparr>po_IsDefault := True\<rparr>) ?u)"
      unfolding run using promote assms(1)
      by (simp add: bindE_def UnsetDefaultPriceOptions_def split: sum.split prod.split)
    show ?thesis
    proof (cases "update_fits name c")
      case True
      obtain o2 where o2: "o2 \<in> set (w_options ?u)" "po_ID o2 = oid" "po_ServiceID o2 = ?sid"
      proof (cases "po_IsDefault o'")
        case True
        then show ?thesis using o' that [of "set_default False o'"]
          by (auto simp: unset_flags_def set_update_where set_default_def)
      next
        case False
        then show ?thesis using o' that [of o'] by (auto simp: unset_flags_def set_update_where)
      qed
      obtain v where "ServiceRepo_UpdatePriceOption (?opt\<lparr>po_IsDefault := True\<rparr>) ?u = (Inr (), v)"
        "\<forall>g. defaults g v = (if g = ?sid then 1 else defaults g ?u)"
        using promote_no_fault [OF _ unset_options_ok [OF assms(2)] o2(1), of "?opt\<lparr>po_IsDefault := True\<rparr>"]
          apply_update_ok(1) [OF row] True assms(1) o2 o'(2) by (auto simp: defaults_unset)
      with step unset True show ?thesis by auto
    next
      case False
      have "ServiceRepo_UpdatePriceOption (?opt\<lparr>po_IsDefault := True\<rparr>) ?u = (Inl Internal, ?u)"
        using False apply_update_ok(1) [OF row] assms(1) by (intro update_row_refused) simp_all
      with step unset False promote hit show ?thesis by simp
    qed
  qed
qed

lemma length_filter_Suc:
  assumes "distinct (map key xs)" "x \<in> set xs" "P x"
  shows "length (filter P xs) = Suc (length (filter P (delete_where (\<lambda>y. key y = key x) xs)))"
  using assms
proof (induction xs)
  case (Cons y ys)
  show ?case
  proof (cases "y = x")
    case True
    have "key z \<noteq> key x" if "z \<in> set ys" for z
      using Cons.prems(1) that True by (auto simp: rev_image_eqI)
    then have "delete_where (\<lambda>z. key z = key x) ys = ys" by (simp add: delete_where_def filter_id_conv)
    then show ?thesis using True Cons.prems(3) by simp
  next
    case False
    then have "x \<in> set ys" using Cons.prems(2) by simp
    moreover from this have "key y \<noteq> key x" using Cons.prems(1) by (auto simp: rev_image_eqI)
    ultimately show ?thesis using Cons by simp
  qed
qed simp

lemma delete_options_ok:
  "options_ok w \<Longrightarrow> options_ok (w\<lparr>w_options := delete_where (\<lambda>r. po_ID r = oid) (w_options w)\<rparr>)"
  by (auto simp: options_ok_def distinct_map_delete_where default_option.delete_at_most_one)

lemma DeletePriceOption_defaults:
  assumes "w_faults w = []" "options_ok w"
    and "DeletePriceOption oid w = (r, w')" "defaults g w = 1"
  shows "defaults g w' = 1"
proof (cases "find_row po_ID oid (w_options w)")
  case None
  then show ?thesis
    using assms by (simp add: DeletePriceOption_def bindE_def FindPriceOptionByID_no_fault)
next
  case (Some o')
  then have o': "o' \<in> set (w_options w)" "po_ID o' = oid" by (auto dest: find_row_SomeD)
  let ?sid = "po_ServiceID o'"
  let ?cnt = "length (filter (\<lambda>x. po_ServiceID x = ?sid) (w_options w))"
  let ?u = "w\<lparr>w_options := delete_where (\<lambda>r. po_ID r = oid) (w_options w)\<rparr>"
  let ?busy = "length (filter (\<lambda>i. qi_PriceOptionID i = oid) (w_items w)) > 0"
  have sid: "po_ServiceID r = ?sid" if "r \<in> set (w_options w)" "po_ID r = oid" for r
    using options_same_row [OF assms(2) o'(1) that(1)] that(2) o'(2) by simp
  have run: "DeletePriceOption oid w =
      (if \<not> \<not> ?cnt \<le> 1 then (Inl (Conflict ''last_price_option''), w)
       else if ?busy then (Inl (Conflict ''price_option_in_use''), w)
       else if po_IsDefault o'
       then (case first_option_except ?sid oid ?u of None \<Rightarrow> (Inr (), ?u)
             | Some o2 \<Rightarrow> ServiceRepo_UpdatePriceOption (o2\<lparr>po_IsDefault := True\<rparr>) ?u)
       else (Inr (), ?u))"
    using assms(1) Some
    by (simp add: DeletePriceOption_def bindE_def FindPriceOptionByID_no_fault
        CountPriceOptionsByService_def CountQueueUsingPriceOption_def ServiceRepo_DeletePriceOption_def
        FirstPriceOptionExcept_def split: option.split)
  consider (stay) "w' = w" | (plain) "\<not> po_IsDefault o'" "w' = ?u"
    | (dflt) "?cnt > 1" "po_IsDefault o'" "(case first_option_except ?sid oid ?u of None \<Rightarrow> (Inr (), ?u)
         | Some o2 \<Rightarrow> ServiceRepo_UpdatePriceOption (o2\<lparr>po_IsDefault := True\<rparr>) ?u) = (r, w')"
    using run assms(3) by (auto split: if_splits)
  then show ?thesis
  proof cases
    case stay
    with assms(4) show ?thesis by simp
  next
    case plain
    have "\<not> po_IsDefault r" if "r \<in> set (w_options w)" "po_ID r = oid" for r
      using options_same_row [OF assms(2) o'(1) that(1)] that(2) o'(2) plain(1) by simp
    then show ?thesis using plain(2) assms(4) by (simp add: defaults_def default_option.delete_unflagged)
  next
    case dflt
    have other: "defaults h ?u = defaults h w" if "h \<noteq> ?sid" for h
      using default_option.delete_other [OF sid that] by (simp add: defaults_def)
    have u: "options_ok ?u" "w_faults ?u = []" using assms(1,2) by (simp_all add: delete_options_ok)
    have "defaults ?sid w = 1"
    proof -
      have "o' \<in> set (flagged po_ServiceID po_IsDefault ?sid (w_options w))"
        using o'(1) dflt(2) by (simp add: set_flagged)
      then have "defaults ?sid w \<noteq> 0" by (auto simp: defaults_def)
      with defaults_le_one [OF assms(2), of ?sid] show ?thesis by simp
    qed
    then have gone: "defaults ?sid ?u = 0"
      using default_option.delete_flagged [of ?sid "w_options w" o' oid] o' dflt(2)
      by (simp add: defaults_def)
    have "?cnt = Suc (length (filter (\<lambda>x. po_ServiceID x = ?sid) (w_options ?u)))"
      using length_filter_Suc [of po_ID "w_options w" o' "\<lambda>x. po_ServiceID x = ?sid"] assms(2) o'
      by (simp add: options_ok_def)
    then have "filter (\<lambda>x. po_ServiceID x = ?sid) (w_options ?u) \<noteq> []" using dflt(1) by auto
    then have "options_of ?sid ?u \<noteq> []"
      by (metis options_of_def set_empty set_sort)
    moreover have "po_ID x \<noteq> oid" if "x \<in> set (options_of ?sid ?u)" for x
      using that by (simp add: options_of_def)
    ultimately obtain o2 where o2: "first_option_except ?sid oid ?u = Some o2" "o2 \<in> set (options_of ?sid ?u)"
      by (cases "options_of ?sid ?u") (auto simp: first_option_except_def)
    then have o2': "o2 \<in> set (w_options ?u)" "po_ServiceID o2 = ?sid" by (simp_all add: options_of_def)
    have "option_row_ok (o2\<lparr>po_IsDefault := True\<rparr>)"
      using u(1) o2'(1) by (auto simp: options_ok_def option_row_ok_def)
    then obtain v where "ServiceRepo_UpdatePriceOption (o2\<lparr>po_IsDefault := True\<rparr>) ?u = (Inr (), v)"
      "\<forall>g. defaults g v = (if g = ?sid then 1 else defaults g ?u)"
      using promote_no_fault [OF u(2,1) o2'(1), of "o2\<lparr>po_IsDefault := True\<rparr>"] gone o2'(2) by auto
    with dflt(3) o2(1) other assms(4) show ?thesis by (auto split: if_splits)
  qed
qed

text \<open>
  C32 The default price of a service, with a database that answers: a service with exactly one default
  price option still has exactly one after an option is added, updated or deleted, whether the request
  succeeds or is refused, except in one case. When the request makes an option the default whose name
  or price the table refuses, the old default is already gone and the service is left with none.
\<close>

theorem exactly_one_default:
  assumes "w_faults w = []" "options_ok w" "defaults g w = 1"
  shows "defaults g (snd (AddPriceOption sid name c d w)) =
      (if d \<and> \<not> option_fits name c \<and> sid = g \<and> service_by_id sid w \<noteq> None then 0 else 1) \<and>
    defaults g (snd (UpdatePriceOption oid name' c' d' w)) =
      (if d' = Some True \<and> \<not> update_fits name' c' \<and>
         (\<exists>o' \<in> set (w_options w). po_ID o' = oid \<and> po_ServiceID o' = g) then 0 else 1) \<and>
    defaults g (snd (DeletePriceOption oid' w)) = 1"
  by (intro conjI AddPriceOption_defaults UpdatePriceOption_defaults
      DeletePriceOption_defaults [OF assms(1,2) surjective_pairing assms(3)] assms)

definition shop_world :: world where
  "shop_world = (empty_world 0)\<lparr>w_next := 10,
     w_services := [\<lparr>sv_ID = 1, sv_WashingPointID = 5, sv_Name = ''wash'', sv_Description = None,
       sv_DurationMinutes = 30, sv_QueueMinutes = None, sv_PictureURL = None, sv_IsActive = True,
       sv_CreatedAt = 0\<rparr>],
     w_options := [\<lparr>po_ID = 2, po_ServiceID = 1, po_Name = ''sedan'', po_PriceCents = 500,
         po_IsDefault = True, po_CreatedAt = 0\<rparr>,
       \<lparr>po_ID = 3, po_ServiceID = 1, po_Name = ''jeep'', po_PriceCents = 700,
         po_IsDefault = False, po_CreatedAt = 0\<rparr>]\<rparr>"

lemma shop_world_ok: "options_ok shop_world"
  by (simp add: options_ok_def shop_world_def empty_world_def option_row_ok_def varchar_def rune_count_def int4_def
      at_most_one_flag_def)

theorem exactly_one_default_witness:
  "defaults 1 (snd (AddPriceOption 1 ''van'' 900 True shop_world)) = 1 \<and>
   defaults 1 (snd (UpdatePriceOption 3 None (Some 3000000000) (Some True) shop_world)) = 0 \<and>
   defaults 1 (snd (DeletePriceOption 2 shop_world)) = 1"
proof -
  have f: "w_faults shop_world = []" "defaults 1 shop_world = 1" by code_simp+
  have v: "option_fits ''van'' 900" "\<not> update_fits None (Some 3000000000)"
    "\<exists>o' \<in> set (w_options shop_world). po_ID o' = 3 \<and> po_ServiceID o' = 1"
    by code_simp+
  from exactly_one_default [OF f(1) shop_world_ok f(2), of 1 "''van''" 900 True 3 None "Some 3000000000" "Some True" 2] v
  show ?thesis by simp
qed

text \<open>
  Unsetting the old default and inserting the new one are separate statements outside any
  transaction. A price the handler accepts but the integer column cannot hold makes the insert
  fail after the old default is gone: the request is answered with an internal error and the
  service is left with no default price option.
\<close>

theorem failed_add_loses_default:
  "fst (AddPriceOption 1 ''van'' 3000000000 True shop_world) = Inl Internal \<and>
   defaults 1 shop_world = 1 \<and>
   defaults 1 (snd (AddPriceOption 1 ''van'' 3000000000 True shop_world)) = 0"
  by code_simp

section \<open>Handler\<close>

record price_option_response =
  por_id :: uuid
  por_name :: string
  por_price_cents :: int
  por_is_default :: bool

definition toPriceOptionResponse :: "ServicePriceOption \<Rightarrow> price_option_response" where
  "toPriceOptionResponse opt =
     \<lparr>por_id = po_ID opt, por_name = po_Name opt, por_price_cents = po_PriceCents opt,
      por_is_default = po_IsDefault opt\<rparr>"

record service_response =
  svr_id :: uuid
  svr_washing_point_id :: uuid
  svr_name :: string
  svr_description :: "string option"
  svr_duration_minutes :: int
  svr_queue_minutes :: "int option"
  svr_picture_url :: "string option"
  svr_is_active :: bool
  svr_price_options :: "price_option_response list"

definition service_toResponse :: "Service \<times> ServicePriceOption list \<Rightarrow> service_response" where
  "service_toResponse p =
     (case p of (svc, opts) \<Rightarrow>
       \<lparr>svr_id = sv_ID svc, svr_washing_point_id = sv_WashingPointID svc, svr_name = sv_Name svc,
        svr_description = sv_Description svc, svr_duration_minutes = sv_DurationMinutes svc,
        svr_queue_minutes = sv_QueueMinutes svc, svr_picture_url = sv_PictureURL svc,
        svr_is_active = sv_IsActive svc, svr_price_options = map toPriceOptionResponse opts\<rparr>)"

definition service_listByWashingPoint ::
  "(string \<Rightarrow> uuid option) \<Rightarrow> string \<Rightarrow> service_response list db" where
  "service_listByWashingPoint uuid_parse rawID =
     bindE (lift_result (ParseUUIDParam uuid_parse rawID)) (\<lambda>pid.
     bindE (ServiceRepo_ListByWashingPoint pid) (\<lambda>services.
     return_ok (map service_toResponse services)))"

definition service_get :: "(string \<Rightarrow> uuid option) \<Rightarrow> string \<Rightarrow> service_response db" where
  "service_get uuid_parse rawID =
     bindE (lift_result (ParseUUIDParam uuid_parse rawID)) (\<lambda>sid.
     bindE (ServiceRepo_FindByID sid) (\<lambda>svc.
     return_ok (service_toResponse svc)))"

record service_create_request =
  scr_name :: string
  scr_description :: "string option"
  scr_duration_minutes :: int
  scr_queue_minutes :: "int option"
  scr_picture_url :: "string option"
  scr_price_options :: "PriceOptionInput list"

text \<open>The loop over the requested options: validated inputs and the number of defaults.\<close>

fun option_inputs :: "PriceOptionInput list \<Rightarrow> apperror + PriceOptionInput list \<times> nat" where
  "option_inputs [] = Inr ([], 0)"
| "option_inputs (po # pos) =
     (let poName = TrimSpace (pi_Name po)
      in if poName = [] \<or> length poName > 255 then Inl (BadRequest ''invalid_price_option_name'')
         else if pi_PriceCents po < 0 then Inl (BadRequest ''invalid_price_cents'')
         else case option_inputs pos of
                Inl e \<Rightarrow> Inl e
              | Inr (ins, n) \<Rightarrow> Inr (po\<lparr>pi_Name := poName\<rparr> # ins, (if pi_IsDefault po then 1 else 0) + n))"

definition validate_service :: "service_create_request \<Rightarrow> apperror + string \<times> string option \<times> PriceOptionInput list" where
  "validate_service req =
     (let name = TrimSpace (scr_name req)
      in if name = [] \<or> length name > 255 then Inl (BadRequest ''invalid_name'')
         else if scr_duration_minutes req \<le> 0 then Inl (BadRequest ''invalid_duration'')
         else if (case scr_queue_minutes req of None \<Rightarrow> False | Some m \<Rightarrow> m \<le> 0)
           then Inl (BadRequest ''invalid_queue_minutes'')
         else if (case scr_picture_url req of None \<Rightarrow> False | Some u \<Rightarrow> length u > 500)
           then Inl (BadRequest ''invalid_picture_url'')
         else if scr_price_options req = [] then Inl (BadRequest ''price_options_required'')
         else case option_inputs (scr_price_options req) of
                Inl e \<Rightarrow> Inl e
              | Inr (inputs, defaultCount) \<Rightarrow>
                  if defaultCount > 1 then Inl (BadRequest ''multiple_default_price_options'')
                  else let inputs' = (if defaultCount = 0
                             then inputs[0 := (hd inputs)\<lparr>pi_IsDefault := True\<rparr>] else inputs)
                       in (case scr_description req of
                             None \<Rightarrow> Inr (name, None, inputs')
                           | Some raw \<Rightarrow>
                               if length (TrimSpace raw) > 2000 then Inl (BadRequest ''invalid_description'')
                               else Inr (name, Some (TrimSpace raw), inputs')))"

definition service_create ::
  "(string \<Rightarrow> uuid option) \<Rightarrow> AuthUser option \<Rightarrow> string \<Rightarrow> apperror + service_create_request \<Rightarrow>
   service_response db" where
  "service_create uuid_parse ctx rawID body =
     bindE (lift_result (AuthUserFrom ctx)) (\<lambda>authUser.
     bindE (lift_result (ParseUUIDParam uuid_parse rawID)) (\<lambda>pid.
     bindE (WpRepo_FindByID pid) (\<lambda>_.
     bindE (require (OwnsWashingPoint authUser pid) (NotFound ''washing_point_not_found'')) (\<lambda>_.
     bindE (lift_result body) (\<lambda>req.
     bindE (lift_result (validate_service req)) (\<lambda>(name, description, inputs).
     bindE (CreateService pid name description (scr_duration_minutes req) (scr_queue_minutes req)
       (scr_picture_url req) inputs) (\<lambda>svc.
     return_ok (service_toResponse svc))))))))"

text \<open>The guard every endpoint below shares: load the service, check who may act on its point.\<close>

definition owned_service :: "AuthUser \<Rightarrow> uuid \<Rightarrow> (Service \<times> ServicePriceOption list) db" where
  "owned_service authUser sid =
     bindE (ServiceRepo_FindByID sid) (\<lambda>p.
     bindE (require (OwnsWashingPoint authUser (sv_WashingPointID (fst p))) (NotFound ''service_not_found'')) (\<lambda>_.
     return_ok p))"

record service_update_request =
  sur_name :: "string option"
  sur_description :: "string option"
  sur_duration_minutes :: "int option"
  sur_queue_minutes :: "int option"
  sur_picture_url :: "string option"
  sur_is_active :: "bool option"

definition patch_service :: "service_update_request \<Rightarrow> Service \<Rightarrow> apperror + Service" where
  "patch_service req svc =
     (case (case sur_name req of
              None \<Rightarrow> Inr svc
            | Some raw \<Rightarrow> if TrimSpace raw = [] \<or> length (TrimSpace raw) > 255
                then Inl (BadRequest ''invalid_name'') else Inr (svc\<lparr>sv_Name := TrimSpace raw\<rparr>)) of
        Inl e \<Rightarrow> Inl e
      | Inr s1 \<Rightarrow>
      case (case sur_description req of
              None \<Rightarrow> Inr s1
            | Some raw \<Rightarrow> if length (TrimSpace raw) > 2000 then Inl (BadRequest ''invalid_description'')
                else Inr (s1\<lparr>sv_Description := Some (TrimSpace raw)\<rparr>)) of
        Inl e \<Rightarrow> Inl e
      | Inr s2 \<Rightarrow>
      case (case sur_duration_minutes req of
              None \<Rightarrow> Inr s2
            | Some m \<Rightarrow> if m \<le> 0 then Inl (BadRequest ''invalid_duration'')
                else Inr (s2\<lparr>sv_DurationMinutes := m\<rparr>)) of
        Inl e \<Rightarrow> Inl e
      | Inr s3 \<Rightarrow>
      case (case sur_queue_minutes req of
              None \<Rightarrow> Inr s3
            | Some m \<Rightarrow> if m < 0 then Inl (BadRequest ''invalid_queue_minutes'')
                else if m = 0 then Inr (s3\<lparr>sv_QueueMinutes := None\<rparr>)
                else Inr (s3\<lparr>sv_QueueMinutes := Some m\<rparr>)) of
        Inl e \<Rightarrow> Inl e
      | Inr s4 \<Rightarrow>
      case (case sur_picture_url req of
              None \<Rightarrow> Inr s4
            | Some u \<Rightarrow> if length u > 500 then Inl (BadRequest ''invalid_picture_url'')
                else Inr (s4\<lparr>sv_PictureURL := Some u\<rparr>)) of
        Inl e \<Rightarrow> Inl e
      | Inr s5 \<Rightarrow>
      Inr (case sur_is_active req of None \<Rightarrow> s5 | Some b \<Rightarrow> s5\<lparr>sv_IsActive := b\<rparr>))"

definition service_update ::
  "(string \<Rightarrow> uuid option) \<Rightarrow> AuthUser option \<Rightarrow> string \<Rightarrow> apperror + service_update_request \<Rightarrow>
   service_response db" where
  "service_update uuid_parse ctx rawID body =
     bindE (lift_result (AuthUserFrom ctx)) (\<lambda>authUser.
     bindE (lift_result (ParseUUIDParam uuid_parse rawID)) (\<lambda>sid.
     bindE (owned_service authUser sid) (\<lambda>p.
     bindE (lift_result body) (\<lambda>req.
     bindE (lift_result (patch_service req (fst p))) (\<lambda>svc.
     bindE (ServiceRepo_Update svc) (\<lambda>_.
     return_ok (service_toResponse (svc, snd p))))))))"

definition service_deactivate ::
  "(string \<Rightarrow> uuid option) \<Rightarrow> AuthUser option \<Rightarrow> string \<Rightarrow> unit db" where
  "service_deactivate uuid_parse ctx rawID =
     bindE (lift_result (AuthUserFrom ctx)) (\<lambda>authUser.
     bindE (lift_result (ParseUUIDParam uuid_parse rawID)) (\<lambda>sid.
     bindE (owned_service authUser sid) (\<lambda>_.
     ServiceRepo_Deactivate sid)))"

definition service_addPriceOption ::
  "(string \<Rightarrow> uuid option) \<Rightarrow> AuthUser option \<Rightarrow> string \<Rightarrow> apperror + PriceOptionInput \<Rightarrow>
   price_option_response db" where
  "service_addPriceOption uuid_parse ctx rawID body =
     bindE (lift_result (AuthUserFrom ctx)) (\<lambda>authUser.
     bindE (lift_result (ParseUUIDParam uuid_parse rawID)) (\<lambda>sid.
     bindE (owned_service authUser sid) (\<lambda>_.
     bindE (lift_result body) (\<lambda>req.
     let name = TrimSpace (pi_Name req)
     in bindE (require (\<not> (name = [] \<or> length name > 255)) (BadRequest ''invalid_price_option_name'')) (\<lambda>_.
        bindE (require (\<not> pi_PriceCents req < 0) (BadRequest ''invalid_price_cents'')) (\<lambda>_.
        bindE (AddPriceOption sid name (pi_PriceCents req) (pi_IsDefault req)) (\<lambda>opt.
        return_ok (toPriceOptionResponse opt))))))))"

definition checkOwnsPriceOption :: "AuthUser \<Rightarrow> uuid \<Rightarrow> unit db" where
  "checkOwnsPriceOption authUser oid =
     bindE (FindPriceOptionByID oid) (\<lambda>opt.
     bindE (ServiceRepo_FindByID (po_ServiceID opt)) (\<lambda>p.
     require (OwnsWashingPoint authUser (sv_WashingPointID (fst p))) (NotFound ''price_option_not_found'')))"

record price_option_update_request =
  pou_name :: "string option"
  pou_price_cents :: "int option"
  pou_is_default :: "bool option"

definition service_updatePriceOption ::
  "(string \<Rightarrow> uuid option) \<Rightarrow> AuthUser option \<Rightarrow> string \<Rightarrow> apperror + price_option_update_request \<Rightarrow>
   price_option_response db" where
  "service_updatePriceOption uuid_parse ctx rawID body =
     bindE (lift_result (AuthUserFrom ctx)) (\<lambda>authUser.
     bindE (lift_result (ParseUUIDParam uuid_parse rawID)) (\<lambda>oid.
     bindE (checkOwnsPriceOption authUser oid) (\<lambda>_.
     bindE (lift_result body) (\<lambda>req.
     bindE (case pou_name req of
              None \<Rightarrow> return_ok None
            | Some raw \<Rightarrow>
                bindE (require (\<not> (TrimSpace raw = [] \<or> length (TrimSpace raw) > 255))
                  (BadRequest ''invalid_price_option_name'')) (\<lambda>_. return_ok (Some (TrimSpace raw)))) (\<lambda>name.
     bindE (require (\<not> (case pou_price_cents req of None \<Rightarrow> False | Some c \<Rightarrow> c < 0))
       (BadRequest ''invalid_price_cents'')) (\<lambda>_.
     bindE (UpdatePriceOption oid name (pou_price_cents req) (pou_is_default req)) (\<lambda>opt.
     return_ok (toPriceOptionResponse opt))))))))"

definition service_deletePriceOption ::
  "(string \<Rightarrow> uuid option) \<Rightarrow> AuthUser option \<Rightarrow> string \<Rightarrow> unit db" where
  "service_deletePriceOption uuid_parse ctx rawID =
     bindE (lift_result (AuthUserFrom ctx)) (\<lambda>authUser.
     bindE (lift_result (ParseUUIDParam uuid_parse rawID)) (\<lambda>oid.
     bindE (checkOwnsPriceOption authUser oid) (\<lambda>_.
     DeletePriceOption oid)))"

text \<open>A request that passes the validation carries exactly one default.\<close>

lemma option_inputs_count:
  "option_inputs pos = Inr (ins, n) \<Longrightarrow> n = length (filter pi_IsDefault ins) \<and> length ins = length pos"
proof (induction pos arbitrary: ins n)
  case (Cons po pos)
  from Cons.prems obtain ins' n' where "option_inputs pos = Inr (ins', n')"
    "ins = po\<lparr>pi_Name := TrimSpace (pi_Name po)\<rparr> # ins'" "n = (if pi_IsDefault po then 1 else 0) + n'"
    by (auto simp: Let_def split: if_splits sum.splits)
  with Cons.IH show ?case by auto
qed simp

lemma validate_service_one_default:
  assumes "validate_service req = Inr (name, description, inputs)"
  shows "length (filter pi_IsDefault inputs) = 1"
proof -
  obtain ins n where i: "option_inputs (scr_price_options req) = Inr (ins, n)" "scr_price_options req \<noteq> []"
    "n \<le> 1" "inputs = (if n = 0 then ins[0 := (hd ins)\<lparr>pi_IsDefault := True\<rparr>] else ins)"
    using assms by (auto simp: validate_service_def Let_def split: if_splits sum.splits option.splits)
  from option_inputs_count [OF i(1)] i(2) have n: "n = length (filter pi_IsDefault ins)" "ins \<noteq> []" by auto
  show ?thesis
  proof (cases "n = 0")
    case True
    then have none: "filter pi_IsDefault ins = []" using n(1) by simp
    from n(2) obtain x xs where "ins = x # xs" by (cases ins) auto
    with none True i(4) show ?thesis by (auto split: if_splits)
  next
    case False
    then have "n = 1" "inputs = ins" using i(3,4) by simp_all
    with n(1) show ?thesis by simp
  qed
qed

lemma defaults_cong: "w_options w' = w_options w \<Longrightarrow> defaults g w' = defaults g w"
  by (simp add: defaults_def)

lemma query_same_options: "query f w = (r, w') \<Longrightarrow> w_options w' = w_options w"
  using read_onlyD [OF read_only_query, THEN same_tablesD(5)] by metis

lemma service_create_Inr:
  assumes "service_create uuid_parse ctx rawID body w = (Inr resp, w')"
  obtains pid req name description inputs svc opts u where
    "validate_service req = Inr (name, description, inputs)"
    "CreateService pid name description (scr_duration_minutes req) (scr_queue_minutes req)
      (scr_picture_url req) inputs u = (Inr (svc, opts), w')"
    "resp = service_toResponse (svc, opts)" "same_tables w u"
proof -
  from assms obtain u1 pid req u v u2 svc where
    "WpRepo_FindByID pid w = (Inr u1, u)" and v: "validate_service req = Inr v"
    and c: "(case v of (name, description, inputs) \<Rightarrow> \<lambda>u. bindE (CreateService pid name description
       (scr_duration_minutes req) (scr_queue_minutes req) (scr_picture_url req) inputs)
       (\<lambda>svc. return_ok (service_toResponse svc)) u) u = (Inr resp, w')"
    unfolding service_create_def
    by (elim bindE_InrE) (auto split: if_splits simp del: return_ok_apply)
  then have "same_tables w u" using read_onlyD read_only_first_or unfolding WpRepo_FindByID_def by metis
  moreover obtain name description inputs where "v = (name, description, inputs)" by (cases v)
  ultimately show ?thesis using that v c by (auto elim!: bindE_InrE)
qed

definition insert_service :: "Service \<Rightarrow> Service db" where
  "insert_service svc =
     statement (bindE fresh_id (\<lambda>sid. bindE time_Now (\<lambda>now.
         let row = svc\<lparr>sv_ID := sid, sv_CreatedAt := now\<rparr>
         in bindE (require (service_row_ok row) Internal) (\<lambda>_.
            bindE (writes (\<lambda>w. w\<lparr>w_services := w_services w @ [row]\<rparr>)) (\<lambda>_.
            return_ok row)))))"

lemma insert_service_Inr:
  "insert_service svc w = (Inr row, w') \<Longrightarrow> w_options w' = w_options w"
  by (auto simp: insert_service_def statement_def bindE_def fresh_id_def time_Now_def Let_def
      split: list.splits if_splits)

lemma ServiceRepo_Create_Inr:
  assumes "ServiceRepo_Create svc opts w = (Inr (row, new), w')" "opts \<noteq> []"
  shows "defaults g w' = defaults g w + (if g = sv_ID row then length (filter po_IsDefault opts) else 0)"
proof -
  have eq: "ServiceRepo_Create svc opts = transaction (bindE (insert_service svc) (\<lambda>row.
      bindE (insert_options (sv_ID row) opts) (\<lambda>new. return_ok (row, new))))"
    using assms(2) by (simp add: ServiceRepo_Create_def insert_service_def del: return_ok_apply)
  obtain u v where q: "query (\<lambda>_. ()) w = (Inr (), u)" "query (\<lambda>_. ()) v = (Inr (), w')"
    and body: "bindE (insert_service svc) (\<lambda>row.
      bindE (insert_options (sv_ID row) opts) (\<lambda>new. return_ok (row, new))) u = (Inr (row, new), v)"
    by (rule transaction_Inr [OF assms(1) [unfolded eq]])
  obtain x where x: "insert_service svc u = (Inr row, x)" "insert_options (sv_ID row) opts x = (Inr new, v)"
    using body by (auto elim!: bindE_InrE)
  have "defaults g w' = defaults g v" "defaults g x = defaults g w"
    using query_same_options [OF q(1)] query_same_options [OF q(2)] insert_service_Inr [OF x(1)]
    by (simp_all add: defaults_def)
  with insert_options_defaults [OF x(2), of g] show ?thesis by simp
qed

text \<open>
  A service created through the endpoint has exactly one default price option, and no other
  service's defaults change.
\<close>

theorem created_service_one_default:
  assumes "service_create uuid_parse ctx rawID body w = (Inr resp, w')"
    and "defaults (svr_id resp) w = 0"
  shows "defaults (svr_id resp) w' = 1 \<and> (\<forall>g. g \<noteq> svr_id resp \<longrightarrow> defaults g w' = defaults g w)"
proof -
  from assms(1) obtain pid req name description inputs svc opts u where
    v: "validate_service req = Inr (name, description, inputs)"
    and c: "CreateService pid name description (scr_duration_minutes req) (scr_queue_minutes req)
      (scr_picture_url req) inputs u = (Inr (svc, opts), w')"
    and resp: "resp = service_toResponse (svc, opts)" and u: "same_tables w u"
    by (rule service_create_Inr)
  let ?opts = "map (\<lambda>po. new_option uuid_Nil (pi_Name po) (pi_PriceCents po) (pi_IsDefault po)) inputs"
  have one: "length (filter po_IsDefault ?opts) = 1"
    using validate_service_one_default [OF v] by (simp add: filter_map o_def new_option_def)
  then have "?opts \<noteq> []" by auto
  from ServiceRepo_Create_Inr [OF c [unfolded CreateService_def Let_def] this] one
  have "defaults g w' = defaults g u + (if g = sv_ID svc then 1 else 0)" for g by simp
  moreover have "defaults g u = defaults g w" for g
    using same_tablesD(5) [OF u] by (simp add: defaults_def)
  ultimately show ?thesis using assms(2) by (simp add: resp service_toResponse_def)
qed

definition shop_request :: service_create_request where
  "shop_request = \<lparr>scr_name = ''polish'', scr_description = None, scr_duration_minutes = 40,
     scr_queue_minutes = None, scr_picture_url = None,
     scr_price_options = [\<lparr>pi_Name = ''any'', pi_PriceCents = 100, pi_IsDefault = False\<rparr>]\<rparr>"

theorem created_service_one_default_witness:
  "defaults 10 (snd (service_create (\<lambda>_. Some 5) (Some \<lparr>au_id = 1, au_role = ''admin'', au_wp = None\<rparr>)
     ''5'' (Inr shop_request) (shop_world\<lparr>w_points := [\<lparr>wp_ID = 5, wp_OwnerID = None, wp_Name = ''p'',
       wp_Address = ''a'', wp_Latitude = 0, wp_Longitude = 0, wp_BoxesCount = 1, wp_OpenTime = ''08:00'',
       wp_CloseTime = ''20:00'', wp_Status = WpActive, wp_Description = None, wp_Amenities = [],
       wp_CreatedAt = 0\<rparr>]\<rparr>))) = 1" (is "defaults 10 (snd ?run) = 1")
proof -
  have ok: "case fst ?run of Inr resp \<Rightarrow> svr_id resp = 10 | Inl _ \<Rightarrow> False" by code_simp
  then obtain resp w' where r: "?run = (Inr resp, w')" "svr_id resp = 10"
    by (cases ?run) (auto split: sum.splits)
  from created_service_one_default [OF r(1)] r show ?thesis
    by (simp add: defaults_def shop_world_def empty_world_def)
qed

end
