(* ===== verification/Users.thy ===== *)
theory Users
  imports Model
begin

text \<open>
  \<open>internal/user/repository.go\<close> and \<open>internal/user/handler.go\<close>: accounts by phone, user name or
  identifier, and the \<open>/me\<close> endpoints. The table has unique indexes on the phone number and on
  the user name (NULLs never collide), a check on the role, and a user name has at most 50 characters.
\<close>

section \<open>Repository\<close>

definition UserRepo_FindByPhone :: "string \<Rightarrow> User db" where
  "UserRepo_FindByPhone phone =
     first_or (NotFound ''user_not_found'') (\<lambda>w. find (\<lambda>u. u_PhoneNumber u = Some phone) (w_users w))"

definition UserRepo_FindByUsername :: "string \<Rightarrow> User db" where
  "UserRepo_FindByUsername username =
     first_or (NotFound ''user_not_found'') (\<lambda>w. find (\<lambda>u. u_Username u = Some username) (w_users w))"

definition UserRepo_FindByID :: "uuid \<Rightarrow> User db" where
  "UserRepo_FindByID uid = first_or (NotFound ''user_not_found'') (\<lambda>w. find_row u_ID uid (w_users w))"

definition UserRepo_FindByIDs :: "uuid list \<Rightarrow> User list db" where
  "UserRepo_FindByIDs ids =
     (if ids = [] then return_ok [] else query (\<lambda>w. filter (\<lambda>u. u_ID u \<in> set ids) (w_users w)))"

definition FindByWashingPointAndRole :: "uuid \<Rightarrow> string \<Rightarrow> User db" where
  "FindByWashingPointAndRole pid role =
     first_or (NotFound ''user_not_found'')
       (\<lambda>w. case sort_key u_CreatedAt (filter (\<lambda>u. u_WashingPointID u = Some pid \<and> u_Role u = role \<and>
                u_Username u \<noteq> None) (w_users w)) of [] \<Rightarrow> None | u # _ \<Rightarrow> Some u)"

definition known_roles :: "string list" where
  "known_roles = [RoleCustomer, RoleStaff, RoleAdmin, RoleWorker]"

definition user_row_ok :: "User \<Rightarrow> User list \<Rightarrow> bool" where
  "user_row_ok u others \<longleftrightarrow> u_Role u \<in> set known_roles \<and>
     (case u_Username u of None \<Rightarrow> True | Some name \<Rightarrow> rune_count name \<le> 50) \<and>
     (\<forall>v \<in> set others. u_ID v \<noteq> u_ID u \<longrightarrow>
        (u_PhoneNumber u = None \<or> u_PhoneNumber v \<noteq> u_PhoneNumber u) \<and>
        (u_Username u = None \<or> u_Username v \<noteq> u_Username u))"

definition UserRepo_Create :: "User \<Rightarrow> User db" where
  "UserRepo_Create u =
     statement (\<lambda>w.
       let row = u\<lparr>u_ID := w_next w, u_CreatedAt := w_now w\<rparr>
       in if user_row_ok row (w_users w)
          then (Inr row, w\<lparr>w_users := w_users w @ [row], w_next := w_next w + 1\<rparr>)
          else (Inl Internal, w\<lparr>w_next := w_next w + 1\<rparr>))"

definition UpdateLastLogin :: "uuid \<Rightarrow> time \<Rightarrow> unit db" where
  "UpdateLastLogin uid t =
     exec (\<lambda>w. w\<lparr>w_users := update_where (\<lambda>u. u_ID u = uid) (\<lambda>u. u\<lparr>u_LastLoginAt := Some t\<rparr>) (w_users w)\<rparr>)"

definition SetCredentials :: "uuid \<Rightarrow> string \<Rightarrow> string \<Rightarrow> unit db" where
  "SetCredentials uid username passwordHash =
     statement (\<lambda>w.
       if \<exists>v \<in> set (w_users w). u_ID v \<noteq> uid \<and> u_Username v = Some username
       then (Inl Internal, w)
       else (Inr (), w\<lparr>w_users := update_where (\<lambda>u. u_ID u = uid)
              (\<lambda>u. u\<lparr>u_Username := Some username, u_PasswordHash := Some passwordHash\<rparr>) (w_users w)\<rparr>))"

definition UpdateName :: "uuid \<Rightarrow> string \<Rightarrow> User db" where
  "UpdateName uid name =
     bindE (exec (\<lambda>w. w\<lparr>w_users := update_where (\<lambda>u. u_ID u = uid) (\<lambda>u. u\<lparr>u_Name := Some name\<rparr>) (w_users w)\<rparr>)) (\<lambda>_.
     UserRepo_FindByID uid)"

section \<open>Handler\<close>

record user_response =
  ur_id :: uuid
  ur_phone_number :: "string option"
  ur_name :: "string option"
  ur_role :: string
  ur_washing_point_id :: "uuid option"
  ur_last_login_at :: "time option"

definition user_toResponse :: "User \<Rightarrow> user_response" where
  "user_toResponse u =
     \<lparr>ur_id = u_ID u, ur_phone_number = u_PhoneNumber u, ur_name = u_Name u, ur_role = u_Role u,
      ur_washing_point_id = u_WashingPointID u, ur_last_login_at = u_LastLoginAt u\<rparr>"

definition getMe :: "AuthUser option \<Rightarrow> user_response db" where
  "getMe ctx =
     bindE (lift_result (AuthUserFrom ctx)) (\<lambda>authUser.
     bindE (UserRepo_FindByID (au_id authUser)) (\<lambda>u.
     return_ok (user_toResponse u)))"

definition updateMe :: "AuthUser option \<Rightarrow> apperror + string option \<Rightarrow> user_response db" where
  "updateMe ctx body =
     bindE (lift_result (AuthUserFrom ctx)) (\<lambda>authUser.
     bindE (lift_result body) (\<lambda>reqName.
     case reqName of
       None \<Rightarrow> fail_with (BadRequest ''invalid_name'')
     | Some raw \<Rightarrow>
         bindE (require (TrimSpace raw \<noteq> []) (BadRequest ''invalid_name'')) (\<lambda>_.
         bindE (require (\<not> length (TrimSpace raw) > 255) (BadRequest ''invalid_name'')) (\<lambda>_.
         bindE (UpdateName (au_id authUser) (TrimSpace raw)) (\<lambda>u.
         return_ok (user_toResponse u))))))"

section \<open>Unique accounts\<close>

text \<open>Identifiers are unique, and so are phone numbers and user names where present.\<close>

definition users_ok :: "world \<Rightarrow> bool" where
  "users_ok w \<longleftrightarrow> distinct (map u_ID (w_users w)) \<and>
     (\<forall>u \<in> set (w_users w). u_ID u < w_next w \<and> user_row_ok u (w_users w))"

lemma users_ok_table: "table_property users_ok"
  by (rule table_propertyI) (auto simp: users_ok_def)

lemma user_row_ok_snoc:
  assumes "\<forall>u \<in> set us. user_row_ok u us" "user_row_ok r us" "\<forall>u \<in> set us. u_ID u \<noteq> u_ID r"
  shows "\<forall>u \<in> set (us @ [r]). user_row_ok u (us @ [r])"
  using assms unfolding user_row_ok_def by (auto; metis)

lemma UserRepo_Create_ok: "preserves users_ok (UserRepo_Create u)"
  unfolding UserRepo_Create_def
proof (rule preserves_statement [OF users_ok_table], rule preservesI)
  fix w assume ok: "users_ok w"
  let ?row = "u\<lparr>u_ID := w_next w, u_CreatedAt := w_now w\<rparr>"
  have ids: "\<forall>v \<in> set (w_users w). u_ID v \<noteq> u_ID ?row" using ok by (auto simp: users_ok_def)
  have "users_ok (w\<lparr>w_users := w_users w @ [?row], w_next := w_next w + 1\<rparr>)"
    if "user_row_ok ?row (w_users w)"
  proof -
    have "\<forall>v \<in> set (w_users w @ [?row]). user_row_ok v (w_users w @ [?row])"
      using ok by (intro user_row_ok_snoc [OF _ that ids]) (simp add: users_ok_def)
    moreover have "distinct (map u_ID (w_users w @ [?row]))" using ok ids by (auto simp: users_ok_def)
    moreover have "\<forall>v \<in> set (w_users w @ [?row]). u_ID v < w_next w + 1"
      using ok by (auto simp: users_ok_def less_Suc_eq)
    ultimately show ?thesis by (simp add: users_ok_def)
  qed
  moreover have "users_ok (w\<lparr>w_next := w_next w + 1\<rparr>)" using ok by (auto simp: users_ok_def)
  ultimately show "users_ok (snd (let row = u\<lparr>u_ID := w_next w, u_CreatedAt := w_now w\<rparr>
       in if user_row_ok row (w_users w)
          then (Inr row, w\<lparr>w_users := w_users w @ [row], w_next := w_next w + 1\<rparr>)
          else (Inl Internal, w\<lparr>w_next := w_next w + 1\<rparr>)))"
    by (simp add: Let_def)
qed

text \<open>The account a lookup by phone returns is the only one with that number.\<close>

lemma phone_unique:
  assumes "users_ok w" "u \<in> set (w_users w)" "v \<in> set (w_users w)"
    "u_PhoneNumber u = Some p" "u_PhoneNumber v = Some p"
  shows "u = v"
proof -
  have "u_ID u = u_ID v"
  proof (rule ccontr)
    assume "u_ID u \<noteq> u_ID v"
    moreover have "user_row_ok u (w_users w)" using assms(1,2) by (simp add: users_ok_def)
    ultimately show False using assms(3-5) unfolding user_row_ok_def by auto
  qed
  then show ?thesis using assms(1-3) by (auto simp: users_ok_def distinct_map inj_on_def)
qed

lemma find_phone_unique:
  assumes "users_ok w" "u \<in> set (w_users w)" "u_PhoneNumber u = Some p"
  shows "find (\<lambda>u. u_PhoneNumber u = Some p) (w_users w) = Some u"
proof -
  obtain v where v: "find (\<lambda>u. u_PhoneNumber u = Some p) (w_users w) = Some v"
    using assms(2,3) by (cases "find (\<lambda>u. u_PhoneNumber u = Some p) (w_users w)") (auto simp: find_None_iff)
  then have "v \<in> set (w_users w)" "u_PhoneNumber v = Some p" by (auto simp: find_Some_iff)
  with phone_unique [OF assms(1,2) this(1) assms(3)] v show ?thesis by simp
qed

lemma update_users_ok:
  assumes "users_ok w" "\<And>u. u_ID (f u) = u_ID u" "\<And>u. u_Role (f u) = u_Role u"
    "\<And>u. u_PhoneNumber (f u) = u_PhoneNumber u" "\<And>u. u_Username (f u) = u_Username u"
  shows "users_ok (w\<lparr>w_users := update_where c f (w_users w)\<rparr>)"
  using assms by (auto simp: users_ok_def set_update_where user_row_ok_def)

lemma updateMe_ok: "preserves users_ok (updateMe ctx body)"
proof -
  have "preserves users_ok (UpdateName uid name)" for uid name
    unfolding UpdateName_def UserRepo_FindByID_def
    by (intro db_preserves preserves_query [OF users_ok_table] preserves_first_or [OF users_ok_table]
        preserves_exec [OF users_ok_table] update_users_ok) simp_all
  then show ?thesis unfolding updateMe_def by (intro valid_intros)
qed

end
