(* ===== verification/Cars.thy ===== *)
theory Cars
  imports Model
begin

text \<open>
  \<open>internal/car\<close>: a customer's cars. Staff bookings use \<open>UpsertForUser\<close>, which matches by plate
  or by name with Postgres' \<open>lower\<close>; that function belongs to the database and is the parameter
  \<open>pg_lower\<close>.
\<close>

section \<open>Repository\<close>

definition CarRepo_ListByUser :: "uuid \<Rightarrow> Car list db" where
  "CarRepo_ListByUser userID =
     query (\<lambda>w. sort_key car_CreatedAt (filter (\<lambda>c. car_UserID c = userID) (w_cars w)))"

definition CarRepo_FindByIDs :: "uuid list \<Rightarrow> Car list db" where
  "CarRepo_FindByIDs ids =
     (if ids = [] then return_ok [] else query (\<lambda>w. filter (\<lambda>c. car_ID c \<in> set ids) (w_cars w)))"

definition owned_car :: "uuid \<Rightarrow> uuid \<Rightarrow> world \<Rightarrow> Car option" where
  "owned_car carID userID w = find (\<lambda>c. car_ID c = carID \<and> car_UserID c = userID) (w_cars w)"

definition FindOwnedByID :: "uuid \<Rightarrow> uuid \<Rightarrow> Car db" where
  "FindOwnedByID carID userID = first_or (NotFound ''car_not_found'') (owned_car carID userID)"

definition CarRepo_Create :: "Car \<Rightarrow> Car db" where
  "CarRepo_Create c =
     statement (\<lambda>w.
       let row = c\<lparr>car_ID := w_next w, car_CreatedAt := w_now w\<rparr>
       in (Inr row, w\<lparr>w_cars := w_cars w @ [row], w_next := w_next w + 1\<rparr>))"

definition CarRepo_Update :: "Car \<Rightarrow> unit db" where
  "CarRepo_Update c =
     exec (\<lambda>w. w\<lparr>w_cars := update_where (\<lambda>r. car_ID r = car_ID c) (\<lambda>r. r\<lparr>car_Name := car_Name c\<rparr>) (w_cars w)\<rparr>)"

definition car_matches :: "(string \<Rightarrow> string) \<Rightarrow> uuid \<Rightarrow> string \<Rightarrow> string \<Rightarrow> Car \<Rightarrow> bool" where
  "car_matches pg_lower userID name plate c \<longleftrightarrow> car_UserID c = userID \<and>
     (if plate \<noteq> [] then (case car_Plate c of None \<Rightarrow> False | Some p \<Rightarrow> pg_lower p = pg_lower plate)
      else pg_lower (car_Name c) = pg_lower name)"

definition matching_car :: "(string \<Rightarrow> string) \<Rightarrow> uuid \<Rightarrow> string \<Rightarrow> string \<Rightarrow> world \<Rightarrow> Car option" where
  "matching_car pg_lower userID name plate w =
     (case sort_key car_CreatedAt (filter (car_matches pg_lower userID name plate) (w_cars w)) of
        [] \<Rightarrow> None | c # _ \<Rightarrow> Some c)"

definition merge_car :: "string \<Rightarrow> string \<Rightarrow> Car \<Rightarrow> Car" where
  "merge_car name plate c =
     (let c1 = (if name \<noteq> [] \<and> name \<noteq> car_Name c then c\<lparr>car_Name := name\<rparr> else c)
      in if plate \<noteq> [] \<and> car_Plate c1 \<noteq> Some plate then c1\<lparr>car_Plate := Some plate\<rparr> else c1)"

definition UpsertForUser :: "(string \<Rightarrow> string) \<Rightarrow> uuid \<Rightarrow> string \<Rightarrow> string \<Rightarrow> Car db" where
  "UpsertForUser pg_lower userID name plate =
     bindE (query (matching_car pg_lower userID name plate)) (\<lambda>found.
     case found of
       Some existing \<Rightarrow>
         (let c = merge_car name plate existing
          in bindE (if c \<noteq> existing
               then exec (\<lambda>w. w\<lparr>w_cars := update_where (\<lambda>r. car_ID r = car_ID existing)
                 (\<lambda>r. r\<lparr>car_Name := car_Name c, car_Plate := car_Plate c\<rparr>) (w_cars w)\<rparr>)
               else return_ok ()) (\<lambda>_. return_ok c))
     | None \<Rightarrow>
         CarRepo_Create \<lparr>car_ID = uuid_Nil, car_UserID = userID,
           car_Name = (if name = [] then plate else name),
           car_Plate = (if plate \<noteq> [] then Some plate else None), car_CreatedAt = ZeroTime\<rparr>)"

definition CarRepo_Delete :: "uuid \<Rightarrow> unit db" where
  "CarRepo_Delete carID = exec (\<lambda>w. w\<lparr>w_cars := delete_where (\<lambda>r. car_ID r = carID) (w_cars w)\<rparr>)"

definition CountQueueUsingCar :: "uuid \<Rightarrow> nat db" where
  "CountQueueUsingCar carID = query (\<lambda>w. length (filter (\<lambda>q. q_CarID q = Some carID) (w_queue w)))"

section \<open>Handler\<close>

definition car_toResponse :: "Car \<Rightarrow> uuid \<times> string" where
  "car_toResponse c = (car_ID c, car_Name c)"

definition car_list :: "AuthUser option \<Rightarrow> (uuid \<times> string) list db" where
  "car_list ctx =
     bindE (lift_result (AuthUserFrom ctx)) (\<lambda>authUser.
     bindE (CarRepo_ListByUser (au_id authUser)) (\<lambda>cars.
     return_ok (map car_toResponse cars)))"

definition car_create :: "AuthUser option \<Rightarrow> apperror + string \<Rightarrow> (uuid \<times> string) db" where
  "car_create ctx body =
     bindE (lift_result (AuthUserFrom ctx)) (\<lambda>authUser.
     bindE (lift_result body) (\<lambda>rawName.
     let name = TrimSpace rawName
     in bindE (require (\<not> (name = [] \<or> length name > 255)) (BadRequest ''invalid_name'')) (\<lambda>_.
        bindE (CarRepo_Create \<lparr>car_ID = uuid_Nil, car_UserID = au_id authUser, car_Name = name,
                 car_Plate = None, car_CreatedAt = ZeroTime\<rparr>) (\<lambda>c.
        return_ok (car_toResponse c)))))"

definition car_update ::
  "(string \<Rightarrow> uuid option) \<Rightarrow> AuthUser option \<Rightarrow> string \<Rightarrow> apperror + string option \<Rightarrow> (uuid \<times> string) db" where
  "car_update uuid_parse ctx rawID body =
     bindE (lift_result (AuthUserFrom ctx)) (\<lambda>authUser.
     bindE (lift_result (ParseUUIDParam uuid_parse rawID)) (\<lambda>carID.
     bindE (FindOwnedByID carID (au_id authUser)) (\<lambda>c.
     bindE (lift_result body) (\<lambda>reqName.
     case reqName of
       None \<Rightarrow> fail_with (BadRequest ''invalid_name'')
     | Some raw \<Rightarrow>
         bindE (require (\<not> (TrimSpace raw = [] \<or> length (TrimSpace raw) > 255)) (BadRequest ''invalid_name'')) (\<lambda>_.
         let c' = c\<lparr>car_Name := TrimSpace raw\<rparr>
         in bindE (CarRepo_Update c') (\<lambda>_. return_ok (car_toResponse c')))))))"

definition car_delete :: "(string \<Rightarrow> uuid option) \<Rightarrow> AuthUser option \<Rightarrow> string \<Rightarrow> unit db" where
  "car_delete uuid_parse ctx rawID =
     bindE (lift_result (AuthUserFrom ctx)) (\<lambda>authUser.
     bindE (lift_result (ParseUUIDParam uuid_parse rawID)) (\<lambda>carID.
     bindE (FindOwnedByID carID (au_id authUser)) (\<lambda>_.
     bindE (CountQueueUsingCar carID) (\<lambda>inUse.
     bindE (require (\<not> inUse > 0) (Conflict ''car_in_use'')) (\<lambda>_.
     CarRepo_Delete carID)))))"

section \<open>Ownership and upsert\<close>

definition cars_ok :: "world \<Rightarrow> bool" where
  "cars_ok w \<longleftrightarrow> distinct (map car_ID (w_cars w)) \<and> (\<forall>c \<in> set (w_cars w). car_ID c < w_next w)"

lemma owned_car_SomeD:
  "owned_car carID userID w = Some c \<Longrightarrow> c \<in> set (w_cars w) \<and> car_ID c = carID \<and> car_UserID c = userID"
  by (auto simp: owned_car_def find_Some_iff)

lemma merge_car_simps [simp]:
  "car_ID (merge_car name plate c) = car_ID c" "car_UserID (merge_car name plate c) = car_UserID c"
  "car_CreatedAt (merge_car name plate c) = car_CreatedAt c"
  by (simp_all add: merge_car_def Let_def)

lemma merge_car_idem: "merge_car name plate (merge_car name plate c) = merge_car name plate c"
  by (simp add: merge_car_def Let_def)

lemma merge_car_matches:
  "car_matches pl u name plate c \<Longrightarrow> name \<noteq> [] \<or> plate \<noteq> [] \<Longrightarrow>
   car_matches pl u name plate (merge_car name plate c)"
  by (auto simp: car_matches_def merge_car_def Let_def split: option.splits)

lemma matching_carD:
  assumes "matching_car pl u name plate w = Some c"
  shows "c \<in> set (w_cars w)" "car_matches pl u name plate c"
proof -
  obtain cs where eq: "sort_key car_CreatedAt (filter (car_matches pl u name plate) (w_cars w)) = c # cs"
    using assms by (auto simp: matching_car_def split: list.splits)
  have "c \<in> set (sort_key car_CreatedAt (filter (car_matches pl u name plate) (w_cars w)))"
    unfolding eq by simp
  then show "c \<in> set (w_cars w)" "car_matches pl u name plate c" by simp_all
qed

text \<open>Replacing the first match by another match of the same age keeps it first.\<close>

lemma matching_car_update:
  assumes "cars_ok w" "matching_car pl u name plate w = Some c" "name \<noteq> [] \<or> plate \<noteq> []"
    and "c' = merge_car name plate c"
  shows "matching_car pl u name plate (w\<lparr>w_cars := update_where (\<lambda>r. car_ID r = car_ID c)
      (\<lambda>r. r\<lparr>car_Name := car_Name c', car_Plate := car_Plate c'\<rparr>) (w_cars w)\<rparr>) = Some c'"
proof -
  let ?f = "\<lambda>r. if car_ID r = car_ID c then r\<lparr>car_Name := car_Name c', car_Plate := car_Plate c'\<rparr> else r"
  let ?m = "car_matches pl u name plate"
  note c = matching_carD [OF assms(2)]
  have same: "r = c" if "r \<in> set (w_cars w)" "car_ID r = car_ID c" for r
    using assms(1) that c(1) by (auto simp: cars_ok_def distinct_map inj_on_def)
  have fc: "?f c = c'" by (cases c) (simp add: assms(4) merge_car_def Let_def)
  have "?m (?f r) = ?m r" if "r \<in> set (w_cars w)" for r
  proof (cases "car_ID r = car_ID c")
    case True
    with same that have "r = c" by blast
    moreover have "?m c'" unfolding assms(4) by (rule merge_car_matches [OF c(2) assms(3)])
    then have "?m (?f c)" using fc by simp
    ultimately show ?thesis using c(2) by blast
  qed simp
  then have "filter ?m (map ?f (w_cars w)) = map ?f (filter ?m (w_cars w))" by (rule filter_map_keep)
  then have "sort_key car_CreatedAt (filter ?m (map ?f (w_cars w))) =
      map ?f (sort_key car_CreatedAt (filter ?m (w_cars w)))"
    by (simp add: sort_key_map)
  with assms(2) fc show ?thesis
    by (auto simp: matching_car_def update_where_def split: list.splits)
qed

text \<open>
  Upserting a client's car is idempotent: repeating the call with the same name and plate
  returns the same car and changes nothing, and the car always belongs to the client.
\<close>

theorem UpsertForUser_idempotent:
  assumes "w_faults w = []" "cars_ok w" "name \<noteq> [] \<or> plate \<noteq> []"
    and "UpsertForUser pg_lower userID name plate w = (Inr c, w')"
  shows "UpsertForUser pg_lower userID name plate w' = (Inr c, w') \<and> car_UserID c = userID \<and>
    filter (\<lambda>r. car_UserID r \<noteq> userID) (w_cars w') = filter (\<lambda>r. car_UserID r \<noteq> userID) (w_cars w)"
proof (cases "matching_car pg_lower userID name plate w")
  case None
  let ?c = "\<lparr>car_ID = w_next w, car_UserID = userID, car_Name = (if name = [] then plate else name),
    car_Plate = (if plate \<noteq> [] then Some plate else None), car_CreatedAt = w_now w\<rparr>"
  have run: "c = ?c" "w' = w\<lparr>w_cars := w_cars w @ [?c], w_next := w_next w + 1\<rparr>"
    using assms(1,4) None by (auto simp: UpsertForUser_def bindE_no_fault CarRepo_Create_def Let_def)
  have none: "filter (car_matches pg_lower userID name plate) (w_cars w) = []"
    using None by (auto simp: matching_car_def split: list.splits) (metis set_empty set_sort)
  have "car_matches pg_lower userID name plate ?c" using assms(3) by (auto simp: car_matches_def)
  with none have "matching_car pg_lower userID name plate w' = Some ?c"
    by (simp add: matching_car_def run(2))
  moreover have "merge_car name plate ?c = ?c" by (simp add: merge_car_def Let_def)
  ultimately show ?thesis
    using assms(1) run by (simp add: UpsertForUser_def bindE_no_fault)
next
  case (Some e)
  let ?c = "merge_car name plate e"
  let ?u = "w\<lparr>w_cars := update_where (\<lambda>r. car_ID r = car_ID e)
    (\<lambda>r. r\<lparr>car_Name := car_Name ?c, car_Plate := car_Plate ?c\<rparr>) (w_cars w)\<rparr>"
  note e = matching_carD [OF Some]
  have uid: "car_UserID e = userID" using e(2) by (simp add: car_matches_def)
  have run: "c = ?c" "w' = (if ?c \<noteq> e then ?u else w)"
    using assms(1,4) Some by (auto simp: UpsertForUser_def bindE_no_fault Let_def split: if_splits)
  have "matching_car pg_lower userID name plate w' = Some ?c"
    using matching_car_update [OF assms(2) Some assms(3) refl] Some run(2) by auto
  then have "UpsertForUser pg_lower userID name plate w' = (Inr c, w')"
    using assms(1) run by (auto simp: UpsertForUser_def bindE_no_fault Let_def merge_car_idem)
  moreover have "filter (\<lambda>r. car_UserID r \<noteq> userID) (w_cars ?u) = filter (\<lambda>r. car_UserID r \<noteq> userID) (w_cars w)"
  proof -
    have "car_UserID r = userID" if "r \<in> set (w_cars w)" "car_ID r = car_ID e" for r
      using assms(2) that e(1) uid by (auto simp: cars_ok_def distinct_map inj_on_def)
    then have "filter (\<lambda>r. car_UserID r \<noteq> userID) (update_where (\<lambda>r. car_ID r = car_ID e) f rs) =
        filter (\<lambda>r. car_UserID r \<noteq> userID) rs"
      if "set rs \<subseteq> set (w_cars w)" "\<And>r. car_UserID (f r) = car_UserID r" for rs f
      using that by (induction rs) auto
    then show ?thesis by simp
  qed
  ultimately show ?thesis using run uid by auto
qed

theorem UpsertForUser_idempotent_witness:
  "UpsertForUser id 7 ''Camry'' ''A1'' (snd (UpsertForUser id 7 ''Camry'' ''A1'' (empty_world 0))) =
     UpsertForUser id 7 ''Camry'' ''A1'' (empty_world 0)"
proof -
  have "is_ok (fst (UpsertForUser id 7 ''Camry'' ''A1'' (empty_world 0)))" by code_simp
  then obtain c w' where r: "UpsertForUser id 7 ''Camry'' ''A1'' (empty_world 0) = (Inr c, w')"
    by (cases "UpsertForUser id 7 ''Camry'' ''A1'' (empty_world 0)") (auto simp: is_ok_def split: sum.splits)
  from UpsertForUser_idempotent [OF _ _ _ this] r show ?thesis
    by (simp add: empty_world_def cars_ok_def)
qed

text \<open>Another customer's car is not found, and every endpoint leaves other customers' cars alone.\<close>

lemma FindOwnedByID_foreign:
  assumes "w_faults w = []" "\<And>c. c \<in> set (w_cars w) \<Longrightarrow> car_ID c = carID \<Longrightarrow> car_UserID c \<noteq> userID"
  shows "FindOwnedByID carID userID w = (Inl (NotFound ''car_not_found''), w)"
proof -
  have "owned_car carID userID w = None" using assms(2) by (auto simp: owned_car_def find_None_iff)
  with assms(1) show ?thesis by (simp add: FindOwnedByID_def)
qed

end
