(* ===== verification/QueueRepo.thy ===== *)
theory QueueRepo
  imports Availability
begin

text \<open>
  \<open>internal/queue/repository.go\<close>: the bookings and their items, with the constraints of the
  \<open>queue\<close> table (migrations 8, 11, 19 and 32). A stored row has no items of its own; the finders
  attach them from \<open>queue_items\<close> in position order. A unique or exclusion violation reaches the
  repository as a Postgres error code and becomes a 409.
\<close>

section \<open>Constraints of the table\<close>

datatype pg_error = PgExclusionViolation | PgUniqueViolation | PgOther

definition active_status :: "Status \<Rightarrow> bool" where
  "active_status s \<longleftrightarrow> s \<in> {StatusQueue, StatusWaiting, StatusWashing}"

definition occupies :: "Queue \<Rightarrow> bool" where
  "occupies q \<longleftrightarrow> q_Status q \<notin> {StatusCanceled, StatusNoShow} \<and> \<not> q_IsOverflow q"

lemma active_status_simps [simp]:
  "active_status StatusQueue" "active_status StatusWaiting" "active_status StatusWashing"
  "\<not> active_status StatusReady" "\<not> active_status StatusCanceled" "\<not> active_status StatusNoShow"
  by (simp_all add: active_status_def)

text \<open>The checks: a positive interval, and box 0 exactly for overflow bookings.\<close>

definition queue_check :: "Queue \<Rightarrow> bool" where
  "queue_check q \<longleftrightarrow> q_ScheduledEndAt q > q_ScheduledStartAt q \<and>
     (q_IsOverflow q \<and> q_BoxNumber q = 0 \<or> \<not> q_IsOverflow q \<and> q_BoxNumber q > 0)"

text \<open>\<open>queue_no_overlapping_box_bookings\<close> and \<open>queue_one_active_booking_per_user\<close>.\<close>

definition box_clash :: "Queue \<Rightarrow> Queue \<Rightarrow> bool" where
  "box_clash q r \<longleftrightarrow> occupies q \<and> occupies r \<and> q_WashingPointID q = q_WashingPointID r \<and>
     q_BoxNumber q = q_BoxNumber r \<and>
     overlaps (q_ScheduledStartAt q) (q_ScheduledEndAt q) (q_ScheduledStartAt r) (q_ScheduledEndAt r)"

definition user_clash :: "Queue \<Rightarrow> Queue \<Rightarrow> bool" where
  "user_clash q r \<longleftrightarrow> active_status (q_Status q) \<and> active_status (q_Status r) \<and> q_UserID q = q_UserID r"

definition constraint_error :: "Queue \<Rightarrow> Queue list \<Rightarrow> pg_error option" where
  "constraint_error q rows =
     (let others = filter (\<lambda>r. q_ID r \<noteq> q_ID q) rows
      in if \<not> queue_check q then Some PgOther
         else if \<exists>r \<in> set others. user_clash q r then Some PgUniqueViolation
         else if \<exists>r \<in> set others. box_clash q r then Some PgExclusionViolation
         else None)"

definition item_constraint_error :: "QueueItem list \<Rightarrow> pg_error option" where
  "item_constraint_error its =
     (if distinct (map qi_ServiceID its) then None else Some PgUniqueViolation)"

section \<open>Items\<close>

definition items_of :: "uuid \<Rightarrow> world \<Rightarrow> QueueItem list" where
  "items_of qid w = sort_key qi_Position (filter (\<lambda>i. qi_QueueID i = qid) (w_items w))"

definition itemsFor :: "uuid list \<Rightarrow> (uuid \<Rightarrow> QueueItem list) db" where
  "itemsFor queueIDs =
     (if queueIDs = [] then return_ok (\<lambda>_. [])
      else query (\<lambda>w qid. if qid \<in> set queueIDs then items_of qid w else []))"

definition attachItems :: "Queue list \<Rightarrow> Queue list db" where
  "attachItems rows =
     bindE (itemsFor (map q_ID rows)) (\<lambda>items.
     return_ok (map (\<lambda>q. q\<lparr>q_Items := items (q_ID q)\<rparr>) rows))"

definition find_rows :: "(Queue \<Rightarrow> bool) \<Rightarrow> Queue list db" where
  "find_rows p = bindE (query (\<lambda>w. sort_key q_ScheduledStartAt (filter p (w_queue w)))) attachItems"

section \<open>Finders\<close>

definition FindActiveBookingsInRange :: "uuid \<Rightarrow> time \<Rightarrow> time \<Rightarrow> Queue list db" where
  "FindActiveBookingsInRange pid rangeStart rangeEnd =
     find_rows (\<lambda>q. q_WashingPointID q = pid \<and> \<not> q_IsOverflow q \<and>
       q_Status q \<notin> {StatusCanceled, StatusNoShow} \<and>
       q_ScheduledStartAt q < rangeEnd \<and> q_ScheduledEndAt q > rangeStart)"

definition FindByWashingPointAndRange :: "uuid \<Rightarrow> time \<Rightarrow> time \<Rightarrow> Queue list db" where
  "FindByWashingPointAndRange pid rangeStart rangeEnd =
     find_rows (\<lambda>q. q_WashingPointID q = pid \<and> q_ScheduledStartAt q \<ge> rangeStart \<and>
       q_ScheduledStartAt q < rangeEnd)"

definition CountActiveAhead :: "uuid \<Rightarrow> time \<Rightarrow> nat db" where
  "CountActiveAhead pid startAt =
     query (\<lambda>w. length (filter (\<lambda>q. q_WashingPointID q = pid \<and> \<not> q_IsOverflow q \<and>
       active_status (q_Status q) \<and> q_ScheduledStartAt q < startAt) (w_queue w)))"

definition has_active :: "uuid \<Rightarrow> world \<Rightarrow> bool" where
  "has_active userID w \<longleftrightarrow>
     0 < length (filter (\<lambda>q. q_UserID q = userID \<and> active_status (q_Status q)) (w_queue w))"

definition HasActiveForUser :: "uuid \<Rightarrow> bool db" where
  "HasActiveForUser userID = query (has_active userID)"

definition booking :: "uuid \<Rightarrow> world \<Rightarrow> Queue option" where
  "booking qid w = find_row q_ID qid (w_queue w)"

definition QueueRepo_FindByID :: "uuid \<Rightarrow> Queue db" where
  "QueueRepo_FindByID qid =
     bindE (first_or (NotFound ''queue_not_found'') (booking qid)) (\<lambda>q.
     bindE (itemsFor [q_ID q]) (\<lambda>items.
     return_ok (q\<lparr>q_Items := items (q_ID q)\<rparr>)))"

definition ListLive :: "uuid option \<Rightarrow> Queue list db" where
  "ListLive pid =
     find_rows (\<lambda>q. \<not> q_IsOverflow q \<and> active_status (q_Status q) \<and>
       (case pid of None \<Rightarrow> True | Some p \<Rightarrow> q_WashingPointID q = p))"

definition ListLiveByWashingPoint :: "uuid \<Rightarrow> Queue list db" where
  "ListLiveByWashingPoint pid = ListLive (Some pid)"

definition listLiveByDate :: "uuid \<Rightarrow> time \<Rightarrow> time \<Rightarrow> bool \<Rightarrow> Queue list db" where
  "listLiveByDate pid dayStart dayEnd includeOverflow =
     find_rows (\<lambda>q. q_WashingPointID q = pid \<and> active_status (q_Status q) \<and>
       q_ScheduledStartAt q \<ge> dayStart \<and> q_ScheduledStartAt q < dayEnd \<and>
       (includeOverflow \<or> \<not> q_IsOverflow q))"

definition ListLiveByWashingPointAndDate :: "uuid \<Rightarrow> time \<Rightarrow> time \<Rightarrow> Queue list db" where
  "ListLiveByWashingPointAndDate pid dayStart dayEnd = listLiveByDate pid dayStart dayEnd False"

definition ListLiveWithOverflowByWashingPointAndDate :: "uuid \<Rightarrow> time \<Rightarrow> time \<Rightarrow> Queue list db" where
  "ListLiveWithOverflowByWashingPointAndDate pid dayStart dayEnd = listLiveByDate pid dayStart dayEnd True"

text \<open>gorm leaves a non-positive OFFSET out of the statement.\<close>

definition QueueRepo_ListByUser :: "uuid \<Rightarrow> int \<Rightarrow> int \<Rightarrow> (Queue list \<times> nat) db" where
  "QueueRepo_ListByUser userID offs limt =
     bindE (query (\<lambda>w. length (filter (\<lambda>q. q_UserID q = userID) (w_queue w)))) (\<lambda>total.
     bindE (query (\<lambda>w. take (nat limt) (drop (nat offs)
       (sort_key (\<lambda>q. - q_ScheduledStartAt q) (filter (\<lambda>q. q_UserID q = userID) (w_queue w)))))) (\<lambda>rows.
     bindE (attachItems rows) (\<lambda>rows'.
     return_ok (rows', total))))"

definition FindScheduledInRangeNetworkWide :: "time \<Rightarrow> time \<Rightarrow> Queue list db" where
  "FindScheduledInRangeNetworkWide rangeStart rangeEnd =
     find_rows (\<lambda>q. q_ScheduledStartAt q < rangeEnd \<and> q_ScheduledEndAt q > rangeStart)"

fun near_range :: "duration \<Rightarrow> time list \<Rightarrow> time \<times> time \<Rightarrow> time \<times> time" where
  "near_range win [] (lo, hi) = (lo, hi)"
| "near_range win (t # ts) (lo, hi) =
     near_range win ts (if t < lo then t else lo, if t + win > hi then t + win else hi)"

definition CountCreatedNearTimes :: "uuid \<Rightarrow> time list \<Rightarrow> duration \<Rightarrow> nat db" where
  "CountCreatedNearTimes pid scanTimes win =
     (case scanTimes of
        [] \<Rightarrow> return_ok 0
      | t0 # ts \<Rightarrow>
          (case near_range win ts (t0, t0 + win) of (lo, hi) \<Rightarrow>
             bindE (query (\<lambda>w. map q_CreatedAt (filter (\<lambda>q. q_WashingPointID q = pid \<and>
               q_CreatedAt q \<ge> lo \<and> q_CreatedAt q \<le> hi) (w_queue w)))) (\<lambda>rows.
             return_ok (length (filter (\<lambda>c. \<exists>t \<in> set scanTimes. \<not> c < t \<and> \<not> c > t + win) rows)))))"

section \<open>Writers\<close>

text \<open>The INSERT of a booking: the row it stores, or the violated constraint.\<close>

definition insert_queue :: "Queue \<Rightarrow> (pg_error + Queue) db" where
  "insert_queue q =
     statement (\<lambda>w.
       let row = q\<lparr>q_ID := w_next w, q_CreatedAt := w_now w, q_Items := []\<rparr>
       in (case constraint_error row (w_queue w) of
             Some e \<Rightarrow> (Inr (Inl e), w\<lparr>w_next := w_next w + 1\<rparr>)
           | None \<Rightarrow> (Inr (Inr row), w\<lparr>w_queue := w_queue w @ [row], w_next := w_next w + 1\<rparr>)))"

primrec number_items :: "uuid \<Rightarrow> uuid \<Rightarrow> int \<Rightarrow> QueueItem list \<Rightarrow> QueueItem list" where
  "number_items n qid pos [] = []"
| "number_items n qid pos (i # is) =
     i\<lparr>qi_ID := n, qi_QueueID := qid, qi_Position := pos\<rparr> # number_items (n + 1) qid (pos + 1) is"

definition createItems :: "uuid \<Rightarrow> QueueItem list \<Rightarrow> (pg_error + QueueItem list) db" where
  "createItems qid its =
     (if its = [] then return_ok (Inr [])
      else statement (\<lambda>w.
        let new = number_items (w_next w) qid 0 its
        in (case item_constraint_error new of
              Some e \<Rightarrow> (Inr (Inl e), w\<lparr>w_next := w_next w + length its\<rparr>)
            | None \<Rightarrow> (Inr (Inr new), w\<lparr>w_items := w_items w @ new, w_next := w_next w + length its\<rparr>))))"

definition create_conflict :: "pg_error \<Rightarrow> apperror" where
  "create_conflict e =
     (case e of
        PgExclusionViolation \<Rightarrow> Conflict ''slot_unavailable''
      | PgUniqueViolation \<Rightarrow> Conflict ''active_booking_exists''
      | PgOther \<Rightarrow> Internal)"

definition QueueRepo_Create :: "Queue \<Rightarrow> Queue db" where
  "QueueRepo_Create q =
     bindE (insert_queue q) (\<lambda>r.
     case r of
       Inl e \<Rightarrow> fail_with (create_conflict e)
     | Inr row \<Rightarrow>
         bindE (createItems (q_ID row) (q_Items q)) (\<lambda>r'.
         case r' of
           Inl e \<Rightarrow> fail_with (create_conflict e)
         | Inr its \<Rightarrow> return_ok (row\<lparr>q_Items := its\<rparr>)))"

text \<open>\<open>UPDATE ... WHERE id = ? AND status = ?\<close>: the number of rows written.\<close>

definition update_queue ::
  "uuid \<Rightarrow> Status \<Rightarrow> (Queue \<Rightarrow> Queue) \<Rightarrow> (pg_error + nat) db" where
  "update_queue qid from f =
     statement (\<lambda>w.
       let hit = filter (\<lambda>r. q_ID r = qid \<and> q_Status r = from) (w_queue w);
           bad = map (\<lambda>r. constraint_error (f r) (w_queue w)) hit
       in (case find (\<lambda>e. e \<noteq> None) bad of
             Some (Some e) \<Rightarrow> (Inr (Inl e), w)
           | _ \<Rightarrow> (Inr (Inr (length hit)),
               w\<lparr>w_queue := update_where (\<lambda>r. q_ID r = qid \<and> q_Status r = from) f (w_queue w)\<rparr>)))"

definition status_update :: "Queue \<Rightarrow> Queue \<Rightarrow> Queue" where
  "status_update q r =
     (case q_Status q of
        StatusCanceled \<Rightarrow> r\<lparr>q_Status := q_Status q, q_CanceledAt := q_CanceledAt q\<rparr>
      | StatusQueue \<Rightarrow> r\<lparr>q_Status := q_Status q, q_CanceledAt := None\<rparr>
      | _ \<Rightarrow> r\<lparr>q_Status := q_Status q\<rparr>)"

definition QueueRepo_UpdateStatus :: "Queue \<Rightarrow> Status \<Rightarrow> unit db" where
  "QueueRepo_UpdateStatus q from =
     bindE (update_queue (q_ID q) from (status_update q)) (\<lambda>r.
     case r of
       Inl e \<Rightarrow> fail_with (create_conflict e)
     | Inr affected \<Rightarrow> require (affected \<noteq> 0) (Conflict ''status_changed''))"

definition UpdatePausedAt :: "Queue \<Rightarrow> unit db" where
  "UpdatePausedAt q =
     bindE (update_queue (q_ID q) StatusWashing (\<lambda>r. r\<lparr>q_PausedAt := q_PausedAt q\<rparr>)) (\<lambda>r.
     case r of
       Inl e \<Rightarrow> fail_with Internal
     | Inr affected \<Rightarrow> require (affected \<noteq> 0) (Conflict ''status_changed''))"

section \<open>The invariant of the table\<close>

text \<open>
  \<open>queue_ok\<close>: distinct identifiers, the row checks, no two bookings in one box at one time, no
  customer with two active bookings, and \<open>canceled_at\<close> set exactly on canceled bookings.
\<close>

definition queue_ok :: "world \<Rightarrow> bool" where
  "queue_ok w \<longleftrightarrow> distinct (map q_ID (w_queue w)) \<and>
     (\<forall>q \<in> set (w_queue w). q_ID q < w_next w \<and> queue_check q \<and> q_Items q = [] \<and>
        (q_CanceledAt q \<noteq> None \<longleftrightarrow> q_Status q = StatusCanceled)) \<and>
     (\<forall>q \<in> set (w_queue w). \<forall>r \<in> set (w_queue w). q_ID q \<noteq> q_ID r \<longrightarrow>
        \<not> box_clash q r \<and> \<not> user_clash q r)"

lemma queue_ok_table: "table_property queue_ok"
  by (rule table_propertyI) (auto simp: queue_ok_def)

lemma clash_sym: "box_clash q r = box_clash r q" "user_clash q r = user_clash r q"
  by (auto simp: box_clash_def user_clash_def overlaps_def)

lemma constraint_error_None:
  "constraint_error q rows = None \<longleftrightarrow> queue_check q \<and>
     (\<forall>r \<in> set rows. q_ID r \<noteq> q_ID q \<longrightarrow> \<not> user_clash q r \<and> \<not> box_clash q r)"
  by (auto simp: constraint_error_def Let_def)

lemma booking_SomeD: "booking qid w = Some q \<Longrightarrow> q \<in> set (w_queue w) \<and> q_ID q = qid"
  by (auto simp: booking_def dest: find_row_SomeD)

lemma booking_unique:
  "queue_ok w \<Longrightarrow> q \<in> set (w_queue w) \<Longrightarrow> booking (q_ID q) w = Some q"
  by (simp add: booking_def queue_ok_def find_row_distinct)

lemma queue_ok_insert:
  assumes "queue_ok w" "constraint_error row (w_queue w) = None" "q_ID row = w_next w" "q_Items row = []"
    and "q_CanceledAt row \<noteq> None \<longleftrightarrow> q_Status row = StatusCanceled"
  shows "queue_ok (w\<lparr>w_queue := w_queue w @ [row], w_next := w_next w + 1\<rparr>)"
proof -
  have lt: "q_ID q < w_next w" if "q \<in> set (w_queue w)" for q
    using assms(1) that by (simp add: queue_ok_def)
  have new: "\<not> box_clash row r \<and> \<not> user_clash row r" if "r \<in> set (w_queue w)" for r
  proof -
    have "q_ID r \<noteq> q_ID row" using lt [OF that] assms(3) by simp
    with assms(2) that show ?thesis unfolding constraint_error_None by blast
  qed
  have clash: "\<not> box_clash q r \<and> \<not> user_clash q r"
    if q: "q \<in> set (w_queue w @ [row])" and r: "r \<in> set (w_queue w @ [row])"
      and ne: "q_ID q \<noteq> q_ID r" for q r
  proof -
    consider "q \<in> set (w_queue w)" "r \<in> set (w_queue w)" | "q = row" "r \<in> set (w_queue w)"
      | "q \<in> set (w_queue w)" "r = row" using q r ne by auto
    then show ?thesis
    proof cases
      case 1
      with assms(1) ne show ?thesis by (simp add: queue_ok_def)
    next
      case 2
      with new show ?thesis by simp
    next
      case 3
      with new [of q] show ?thesis unfolding clash_sym [of q r] by simp
    qed
  qed
  have row: "q_ID q < w_next w + 1 \<and> queue_check q \<and> q_Items q = [] \<and>
      (q_CanceledAt q \<noteq> None \<longleftrightarrow> q_Status q = StatusCanceled)" if "q \<in> set (w_queue w @ [row])" for q
    using that assms lt [of q] by (auto simp: queue_ok_def constraint_error_None)
  have "distinct (map q_ID (w_queue w @ [row]))"
    using assms(1,3) lt by (force simp: queue_ok_def)
  with row clash show ?thesis unfolding queue_ok_def by simp
qed

lemma queue_ok_update:
  assumes ok: "queue_ok w" and f: "\<And>r. q_ID (f r) = q_ID r" "\<And>r. q_Items (f r) = q_Items r"
    and cond: "\<And>r. r \<in> set (w_queue w) \<Longrightarrow> p r \<Longrightarrow> constraint_error (f r) (w_queue w) = None"
    and one: "\<And>r s. r \<in> set (w_queue w) \<Longrightarrow> s \<in> set (w_queue w) \<Longrightarrow> p r \<Longrightarrow> p s \<Longrightarrow> r = s"
    and cancel: "\<And>r. r \<in> set (w_queue w) \<Longrightarrow> p r \<Longrightarrow>
      q_CanceledAt (f r) \<noteq> None \<longleftrightarrow> q_Status (f r) = StatusCanceled"
  shows "queue_ok (w\<lparr>w_queue := update_where p f (w_queue w)\<rparr>)"
proof -
  let ?rows = "update_where p f (w_queue w)"
  have row: "q_ID q < w_next w \<and> queue_check q \<and> q_Items q = [] \<and>
      (q_CanceledAt q \<noteq> None \<longleftrightarrow> q_Status q = StatusCanceled)" if "q \<in> set ?rows" for q
  proof -
    from that consider "q \<in> set (w_queue w)" | r where "r \<in> set (w_queue w)" "p r" "q = f r"
      by (auto simp: set_update_where)
    then show ?thesis
    proof cases
      case 1
      with ok show ?thesis by (simp add: queue_ok_def)
    next
      case 2
      with cond [OF 2(1,2)] cancel [OF 2(1,2)] ok f show ?thesis
        by (simp add: queue_ok_def constraint_error_None)
    qed
  qed
  have clash: "\<not> box_clash q r \<and> \<not> user_clash q r"
    if q: "q \<in> set ?rows" and r: "r \<in> set ?rows" and ne: "q_ID q \<noteq> q_ID r" for q r
  proof -
    from q consider (old) "q \<in> set (w_queue w)" "\<not> p q"
      | (new) q0 where "q0 \<in> set (w_queue w)" "p q0" "q = f q0" by (auto simp: set_update_where)
    then show ?thesis
    proof cases
      case old
      from r consider "r \<in> set (w_queue w)" | r0 where "r0 \<in> set (w_queue w)" "p r0" "r = f r0"
        by (auto simp: set_update_where)
      then show ?thesis
      proof cases
        case 1
        with ok old ne show ?thesis by (auto simp: queue_ok_def)
      next
        case 2
        with cond [OF 2(1,2)] old ne show ?thesis
          by (auto simp: constraint_error_None clash_sym(1) [of q] clash_sym(2) [of q])
      qed
    next
      case new
      have "r \<in> set (w_queue w)"
      proof -
        have "r \<noteq> f r0" if "r0 \<in> set (w_queue w)" "p r0" for r0
          using one [OF that(1) new(1) that(2) new(2)] ne new(3) by auto
        with r show ?thesis by (auto simp: set_update_where)
      qed
      with cond [OF new(1,2)] new(3) ne show ?thesis by (auto simp: constraint_error_None)
    qed
  qed
  have "distinct (map q_ID ?rows)" using ok f(1) by (simp add: queue_ok_def)
  with row clash show ?thesis unfolding queue_ok_def by simp
qed

lemma QueueRepo_Create_ok:
  assumes "q_Status q \<noteq> StatusCanceled" "q_CanceledAt q = None"
  shows "preserves queue_ok (QueueRepo_Create q)"
proof -
  have "preserves queue_ok (insert_queue q)"
    unfolding insert_queue_def
  proof (rule preserves_statement [OF queue_ok_table], rule preservesI)
    fix w assume ok: "queue_ok w"
    let ?row = "q\<lparr>q_ID := w_next w, q_CreatedAt := w_now w, q_Items := []\<rparr>"
    have "queue_ok (w\<lparr>w_next := w_next w + 1\<rparr>)" using ok by (auto simp: queue_ok_def)
    moreover have "queue_ok (w\<lparr>w_queue := w_queue w @ [?row], w_next := w_next w + 1\<rparr>)"
      if "constraint_error ?row (w_queue w) = None"
      by (rule queue_ok_insert [OF ok that]) (use assms in simp_all)
    ultimately show "queue_ok (snd (let row = q\<lparr>q_ID := w_next w, q_CreatedAt := w_now w, q_Items := []\<rparr>
       in (case constraint_error row (w_queue w) of
             Some e \<Rightarrow> (Inr (Inl e), w\<lparr>w_next := w_next w + 1\<rparr>)
           | None \<Rightarrow> (Inr (Inr row), w\<lparr>w_queue := w_queue w @ [row], w_next := w_next w + 1\<rparr>))))"
      by (simp add: Let_def split: option.split)
  qed
  moreover have "preserves queue_ok (createItems qid its)" for qid its
    unfolding createItems_def
    by (intro preserves_if preserves_pure preserves_statement [OF queue_ok_table] preservesI)
      (auto simp: Let_def queue_ok_def split: option.splits)
  ultimately show ?thesis unfolding QueueRepo_Create_def by (intro valid_intros)
qed

lemma status_update_simps [simp]:
  "q_ID (status_update q r) = q_ID r" "q_Items (status_update q r) = q_Items r"
  "q_Status (status_update q r) = q_Status q" "q_PausedAt (status_update q r) = q_PausedAt r"
  by (simp_all add: status_update_def split: Status.split)

lemma update_queue_ok:
  assumes "\<And>r. q_ID (f r) = q_ID r" "\<And>r. q_Items (f r) = q_Items r"
    and "\<And>w r. queue_ok w \<Longrightarrow> r \<in> set (w_queue w) \<Longrightarrow> q_ID r = qid \<Longrightarrow> q_Status r = from \<Longrightarrow>
      q_CanceledAt (f r) \<noteq> None \<longleftrightarrow> q_Status (f r) = StatusCanceled"
  shows "preserves queue_ok (update_queue qid from f)"
  unfolding update_queue_def
proof (rule preserves_statement [OF queue_ok_table], rule preservesI)
  fix w assume ok: "queue_ok w"
  let ?p = "\<lambda>r. q_ID r = qid \<and> q_Status r = from"
  let ?bad = "map (\<lambda>r. constraint_error (f r) (w_queue w)) (filter ?p (w_queue w))"
  show "queue_ok (snd (let hit = filter ?p (w_queue w);
           bad = map (\<lambda>r. constraint_error (f r) (w_queue w)) hit
       in (case find (\<lambda>e. e \<noteq> None) bad of
             Some (Some e) \<Rightarrow> (Inr (Inl e), w)
           | _ \<Rightarrow> (Inr (Inr (length hit)), w\<lparr>w_queue := update_where ?p f (w_queue w)\<rparr>))))"
  proof (cases "find (\<lambda>e. e \<noteq> None) ?bad")
    case None
    then have good: "constraint_error (f r) (w_queue w) = None" if "r \<in> set (w_queue w)" "?p r" for r
      using that by (force simp: find_None_iff)
    have "queue_ok (w\<lparr>w_queue := update_where ?p f (w_queue w)\<rparr>)"
    proof (rule queue_ok_update [OF ok assms(1,2)])
      fix r s assume "r \<in> set (w_queue w)" "s \<in> set (w_queue w)" "?p r" "?p s"
      then show "r = s" using ok by (auto simp: queue_ok_def distinct_map inj_on_def)
    qed (use good assms(3) [OF ok] in auto)
    with None show ?thesis by (simp add: Let_def)
  next
    case (Some e)
    then have "e \<noteq> None" by (auto simp: find_Some_iff)
    with Some ok show ?thesis by (auto simp: Let_def)
  qed
qed

lemma QueueRepo_UpdateStatus_ok:
  assumes "q_Status q = StatusCanceled \<Longrightarrow> q_CanceledAt q \<noteq> None"
    and "from = StatusCanceled \<Longrightarrow> q_Status q = StatusQueue"
  shows "preserves queue_ok (QueueRepo_UpdateStatus q from)"
proof -
  have "preserves queue_ok (update_queue (q_ID q) from (status_update q))"
  proof (rule update_queue_ok)
    fix w r assume w: "queue_ok w" "r \<in> set (w_queue w)" "q_Status r = from"
    then have "q_CanceledAt r \<noteq> None \<longleftrightarrow> from = StatusCanceled" by (auto simp: queue_ok_def)
    with assms show "q_CanceledAt (status_update q r) \<noteq> None \<longleftrightarrow> q_Status (status_update q r) = StatusCanceled"
      by (cases "q_Status q") (auto simp: status_update_def)
  qed simp_all
  then show ?thesis unfolding QueueRepo_UpdateStatus_def by (intro valid_intros)
qed

lemma UpdatePausedAt_ok: "preserves queue_ok (UpdatePausedAt q)"
proof -
  have "preserves queue_ok (update_queue (q_ID q) StatusWashing (\<lambda>r. r\<lparr>q_PausedAt := q_PausedAt q\<rparr>))"
    by (rule update_queue_ok) (auto simp: queue_ok_def)
  then show ?thesis unfolding UpdatePausedAt_def by (intro valid_intros)
qed

lemma read_only_find_rows: "read_only (find_rows p)"
  unfolding find_rows_def attachItems_def itemsFor_def by (intro read_only_intros)

lemma read_only_FindByID: "read_only (QueueRepo_FindByID qid)"
  unfolding QueueRepo_FindByID_def itemsFor_def by (intro read_only_intros)

lemma preserves_find_rows: "table_property I \<Longrightarrow> preserves I (find_rows p)"
  unfolding find_rows_def attachItems_def itemsFor_def by (intro db_preserves)

lemma preserves_QueueRepo_FindByID: "table_property I \<Longrightarrow> preserves I (QueueRepo_FindByID qid)"
  unfolding QueueRepo_FindByID_def itemsFor_def by (intro db_preserves)

text \<open>What the finders return when they succeed.\<close>

lemma read_only_itemsFor: "read_only (itemsFor ids)"
  unfolding itemsFor_def by (intro read_only_intros)

lemma attachItems_Inr:
  assumes "attachItems rows w = (Inr rows', w')"
  obtains f where "rows' = map (\<lambda>q. q\<lparr>q_Items := f (q_ID q)\<rparr>) rows" "same_tables w w'"
proof -
  obtain f u where f: "itemsFor (map q_ID rows) w = (Inr f, u)"
    and r: "rows' = map (\<lambda>q. q\<lparr>q_Items := f (q_ID q)\<rparr>) rows" "u = w'"
    using assms unfolding attachItems_def by (auto elim!: bindE_InrE)
  show ?thesis by (rule that [of f]) (use r read_onlyD [OF read_only_itemsFor f] in auto)
qed

lemma find_rows_Inr:
  assumes "find_rows p w = (Inr rows, w')"
  obtains f where "rows = map (\<lambda>q. q\<lparr>q_Items := f (q_ID q)\<rparr>)
      (sort_key q_ScheduledStartAt (filter p (w_queue w)))" "same_tables w w'"
proof -
  obtain rs u where q: "query (\<lambda>w. sort_key q_ScheduledStartAt (filter p (w_queue w))) w = (Inr rs, u)"
    and a: "attachItems rs u = (Inr rows, w')"
    using assms unfolding find_rows_def by (rule bindE_InrE) blast
  have rs: "rs = sort_key q_ScheduledStartAt (filter p (w_queue w))"
    by (rule query_Inr [OF q]) simp
  have u: "same_tables w u" by (rule query_Inr [OF q]) simp
  show ?thesis
    by (rule attachItems_Inr [OF a], rule that) (use rs u in \<open>auto intro: same_tables_trans\<close>)
qed

lemma QueueRepo_FindByID_Inr:
  assumes "QueueRepo_FindByID qid w = (Inr q, w')"
  obtains r its where "booking qid w = Some r" "q = r\<lparr>q_Items := its\<rparr>" "same_tables w w'"
proof -
  obtain r u where r: "first_or (NotFound ''queue_not_found'') (booking qid) w = (Inr r, u)"
    and rest: "bindE (itemsFor [q_ID r]) (\<lambda>items. return_ok (r\<lparr>q_Items := items (q_ID r)\<rparr>)) u = (Inr q, w')"
    using assms unfolding QueueRepo_FindByID_def by (rule bindE_InrE) blast
  obtain f v where f: "itemsFor [q_ID r] u = (Inr f, v)"
    and q: "q = r\<lparr>q_Items := f (q_ID r)\<rparr>" "v = w'"
    using rest by (auto elim!: bindE_InrE)
  have "booking qid w = Some r" by (rule first_or_Inr [OF r]) (simp add: booking_def)
  moreover have "same_tables w w'"
    using same_tables_trans [OF read_onlyD [OF read_only_first_or r] read_onlyD [OF read_only_itemsFor f]]
    by (simp only: q(2))
  ultimately show ?thesis by (rule that [OF _ q(1)])
qed

lemma QueueRepo_FindByID_no_fault:
  "w_faults w = [] \<Longrightarrow> QueueRepo_FindByID qid w =
     (case booking qid w of None \<Rightarrow> (Inl (NotFound ''queue_not_found''), w)
      | Some r \<Rightarrow> (Inr (r\<lparr>q_Items := items_of (q_ID r) w\<rparr>), w))"
  by (simp add: QueueRepo_FindByID_def itemsFor_def bindE_def split: option.split)

section \<open>What the writers do\<close>

lemma update_queue_Inr:
  assumes "update_queue qid from f w = (Inr r, w')"
  obtains e where "r = Inl e" "same_tables w w'"
    | fs where "r = Inr (length (filter (\<lambda>q. q_ID q = qid \<and> q_Status q = from) (w_queue w)))"
      "w' = w\<lparr>w_faults := fs, w_queue := update_where (\<lambda>q. q_ID q = qid \<and> q_Status q = from) f (w_queue w)\<rparr>"
  by (rule statement_Inr [OF assms [unfolded update_queue_def]])
    (use that in \<open>auto simp: Let_def split: option.splits\<close>)

lemma update_queue_Inl:
  assumes "update_queue qid from f w = (Inl e, w')"
  shows "same_tables w w'"
  by (rule statement_Inl [OF assms [unfolded update_queue_def]])
    (auto simp: Let_def split: option.splits)

text \<open>A guarded update either hits no row and fails, or rewrites the rows it hit.\<close>

lemma guarded_update:
  assumes "bindE (update_queue qid from f) (\<lambda>r. case r of Inl e \<Rightarrow> fail_with (g e)
      | Inr n \<Rightarrow> require (n \<noteq> 0) err) w = (r, w')"
  obtains e where "r = Inl e" "same_tables w w'"
    | fs q where "r = Inr ()" "q \<in> set (w_queue w)" "q_ID q = qid" "q_Status q = from"
      "w' = w\<lparr>w_faults := fs, w_queue := update_where (\<lambda>q. q_ID q = qid \<and> q_Status q = from) f (w_queue w)\<rparr>"
  using assms
proof (cases rule: bindE_cases)
  case (stop e)
  then show ?thesis using that(1) update_queue_Inl by blast
next
  case (go x u)
  from go(1) show ?thesis
  proof (cases rule: update_queue_Inr)
    case (1 e)
    with go(2) that(1) show ?thesis by auto
  next
    case (2 fs)
    show ?thesis
    proof (cases "filter (\<lambda>q. q_ID q = qid \<and> q_Status q = from) (w_queue w)")
      case Nil
      then have "update_where (\<lambda>q. q_ID q = qid \<and> q_Status q = from) f (w_queue w) = w_queue w"
        by (intro update_where_none) (auto simp: filter_empty_conv)
      then have "u = w\<lparr>w_faults := fs\<rparr>" using 2(2) by simp
      with Nil go(2) 2(1) that(1) show ?thesis by auto
    next
      case (Cons q qs)
      then have "q \<in> set (filter (\<lambda>q. q_ID q = qid \<and> q_Status q = from) (w_queue w))" by simp
      then have "q \<in> set (w_queue w)" "q_ID q = qid" "q_Status q = from" by auto
      moreover have "r = Inr ()" "u = w'" using go(2) 2(1) Cons by auto
      ultimately show ?thesis using that(2) 2(2) by blast
    qed
  qed
qed

lemma QueueRepo_UpdateStatus_cases:
  assumes "QueueRepo_UpdateStatus q from w = (r, w')"
  obtains e where "r = Inl e" "same_tables w w'"
    | fs q0 where "r = Inr ()" "q0 \<in> set (w_queue w)" "q_ID q0 = q_ID q" "q_Status q0 = from"
      "w' = w\<lparr>w_faults := fs, w_queue :=
         update_where (\<lambda>r. q_ID r = q_ID q \<and> q_Status r = from) (status_update q) (w_queue w)\<rparr>"
  by (rule guarded_update [OF assms [unfolded QueueRepo_UpdateStatus_def]])
    (erule (1) that(1), erule (4) that(2))

lemma UpdatePausedAt_cases:
  assumes "UpdatePausedAt q w = (r, w')"
  obtains e where "r = Inl e" "same_tables w w'"
    | fs q0 where "r = Inr ()" "q0 \<in> set (w_queue w)" "q_ID q0 = q_ID q" "q_Status q0 = StatusWashing"
      "w' = w\<lparr>w_faults := fs, w_queue :=
         update_where (\<lambda>r. q_ID r = q_ID q \<and> q_Status r = StatusWashing)
           (\<lambda>r. r\<lparr>q_PausedAt := q_PausedAt q\<rparr>) (w_queue w)\<rparr>"
  by (rule guarded_update [OF assms [unfolded UpdatePausedAt_def]])
    (erule (1) that(1), erule (4) that(2))

lemma atomic_status_writes: "atomic (QueueRepo_UpdateStatus q from)" "atomic (UpdatePausedAt q)"
  by (auto simp: atomic_def elim: QueueRepo_UpdateStatus_cases UpdatePausedAt_cases)

lemma insert_queue_Inr:
  assumes "insert_queue q w = (Inr (Inr row), w')"
  obtains fs where "row = q\<lparr>q_ID := w_next w, q_CreatedAt := w_now w, q_Items := []\<rparr>"
    "constraint_error row (w_queue w) = None"
    "w' = w\<lparr>w_faults := fs, w_queue := w_queue w @ [row], w_next := w_next w + 1\<rparr>"
  by (rule statement_Inr [OF assms [unfolded insert_queue_def]])
    (use that in \<open>auto simp: Let_def split: option.splits\<close>)

lemma createItems_Inr:
  assumes "createItems qid its w = (Inr (Inr new), w')"
  obtains n fs where "new = number_items n qid 0 its"
    "w' = w\<lparr>w_faults := fs, w_items := w_items w @ new, w_next := w_next w + length its\<rparr>"
proof (cases "its = []")
  case True
  with assms have "new = []" "w' = w" by (auto simp: createItems_def)
  with True show ?thesis by (intro that [of 0 "w_faults w"]) simp_all
next
  case False
  with assms have s: "statement (\<lambda>w. let new = number_items (w_next w) qid 0 its
        in (case item_constraint_error new of
              Some e \<Rightarrow> (Inr (Inl e), w\<lparr>w_next := w_next w + length its\<rparr>)
            | None \<Rightarrow> (Inr (Inr new), w\<lparr>w_items := w_items w @ new, w_next := w_next w + length its\<rparr>))) w =
      (Inr (Inr new), w')" by (simp add: createItems_def)
  show ?thesis
    by (rule statement_Inr [OF s]) (use that in \<open>auto simp: Let_def split: option.splits\<close>)
qed

lemma QueueRepo_Create_Inr:
  assumes "QueueRepo_Create q w = (Inr q', w')"
  obtains row n where "row = q\<lparr>q_ID := w_next w, q_CreatedAt := w_now w, q_Items := []\<rparr>"
    "q' = row\<lparr>q_Items := number_items n (w_next w) 0 (q_Items q)\<rparr>"
    "constraint_error row (w_queue w) = None" "w_queue w' = w_queue w @ [row]"
    "w_items w' = w_items w @ q_Items q'" "w_published w' = w_published w"
proof -
  obtain x u where x: "insert_queue q w = (Inr x, u)" and rest:
    "(case x of Inl e \<Rightarrow> fail_with (create_conflict e)
     | Inr row \<Rightarrow> bindE (createItems (q_ID row) (q_Items q)) (\<lambda>r'.
         case r' of Inl e \<Rightarrow> fail_with (create_conflict e)
         | Inr its \<Rightarrow> return_ok (row\<lparr>q_Items := its\<rparr>))) u = (Inr q', w')"
    using assms unfolding QueueRepo_Create_def by (rule bindE_InrE) blast
  then obtain row where row: "x = Inr row" by (cases x) auto
  from rest row obtain its where its: "createItems (q_ID row) (q_Items q) u = (Inr (Inr its), w')"
    "q' = row\<lparr>q_Items := its\<rparr>" by (auto elim!: bindE_InrE split: sum.splits)
  obtain fs where i: "row = q\<lparr>q_ID := w_next w, q_CreatedAt := w_now w, q_Items := []\<rparr>"
    "constraint_error row (w_queue w) = None"
    "u = w\<lparr>w_faults := fs, w_queue := w_queue w @ [row], w_next := w_next w + 1\<rparr>"
    using insert_queue_Inr [OF x [unfolded row]] by blast
  obtain n fs' where c: "its = number_items n (q_ID row) 0 (q_Items q)"
    "w' = u\<lparr>w_faults := fs', w_items := w_items u @ its, w_next := w_next u + length (q_Items q)\<rparr>"
    using createItems_Inr [OF its(1)] by metis
  show ?thesis
    by (rule that [of row n]) (use i c its(2) in simp_all)
qed

end
