(* ===== verification/Booking.thy ===== *)
theory Booking
  imports QueueRepo Schedule Boxes Services Users Cars
begin

text \<open>
  \<open>internal/queue/manager.go\<close>: creating bookings and moving them through the status machine.
  \<open>planBooking\<close> validates a request outside the lock; \<open>insertLocked\<close> is the transaction that
  locks the point, re-reads the busy bookings of the day and inserts. Postgres' \<open>lower\<close> and
  the optional \<open>StageNotifier\<close> are parameters.
\<close>

section \<open>Planning a booking\<close>

definition maxBookingItems :: nat where "maxBookingItems = 8"

record BookingItem =
  bi_ServiceID :: uuid
  bi_PriceOptionID :: uuid

record CreateBookingInput =
  cb_UserID :: uuid
  cb_CarID :: uuid
  cb_Items :: "BookingItem list"
  cb_BoxNumber :: int
  cb_ScheduledStartAt :: time
  cb_Notes :: "string option"

record bookingPlan =
  bp_wp :: WashingPoint
  bp_items :: "QueueItem list"
  bp_end :: time
  bp_dayOpen :: time
  bp_dayClose :: time

text \<open>The variables of the loop over the requested services.\<close>

record plan_state =
  ps_wp :: uuid
  ps_minutes :: int
  ps_items :: "QueueItem list"
  ps_seen :: "uuid list"

definition plan_start :: plan_state where
  "plan_start = \<lparr>ps_wp = uuid_Nil, ps_minutes = 0, ps_items = [], ps_seen = []\<rparr>"

definition plan_item_of :: "BookingItem \<Rightarrow> QueueItem" where
  "plan_item_of it = \<lparr>qi_ID = uuid_Nil, qi_QueueID = uuid_Nil, qi_ServiceID = bi_ServiceID it,
     qi_PriceOptionID = bi_PriceOptionID it, qi_Position = 0\<rparr>"

definition plan_item :: "uuid option \<Rightarrow> plan_state \<Rightarrow> BookingItem \<Rightarrow> plan_state db" where
  "plan_item expectWashingPoint st it =
     bindE (require (bi_ServiceID it \<notin> set (ps_seen st)) (BadRequest ''duplicate_service'')) (\<lambda>_.
     bindE (ServiceRepo_FindByID (bi_ServiceID it)) (\<lambda>(svc, opts).
     bindE (require (case expectWashingPoint of None \<Rightarrow> True | Some p \<Rightarrow> sv_WashingPointID svc = p)
       (NotFound ''service_not_found'')) (\<lambda>_.
     bindE (require (ps_wp st = uuid_Nil \<or> sv_WashingPointID svc = ps_wp st)
       (BadRequest ''service_not_at_washing_point'')) (\<lambda>_.
     bindE (require (sv_IsActive svc) (BadRequest ''service_inactive'')) (\<lambda>_.
     bindE (require (\<exists>po \<in> set opts. po_ID po = bi_PriceOptionID it)
       (BadRequest ''invalid_price_option'')) (\<lambda>_.
     return_ok
       \<lparr>ps_wp = (if ps_wp st = uuid_Nil then sv_WashingPointID svc else ps_wp st),
        ps_minutes = wrap64 (ps_minutes st + EffectiveQueueMinutes svc),
        ps_items = ps_items st @ [plan_item_of it],
        ps_seen = ps_seen st @ [bi_ServiceID it]\<rparr>))))))"

definition box_check :: "WashingPoint \<Rightarrow> int \<Rightarrow> unit db" where
  "box_check wp boxNumber =
     bindE (require (\<not> (boxNumber < 1 \<or> boxNumber > wp_BoxesCount wp)) (BadRequest ''invalid_box_number'')) (\<lambda>_.
     bindE (FindByNumber (wp_ID wp) boxNumber) (\<lambda>requestedBox.
     require (case requestedBox of None \<Rightarrow> True | Some b \<Rightarrow> bx_IsOpen b) (Conflict ''box_closed'')))"

definition hours_check :: "WashingPoint \<Rightarrow> QueueItem list \<Rightarrow> time \<Rightarrow> time \<Rightarrow> bookingPlan db" where
  "hours_check wp items start fin =
     bindE (FindByWeekday (wp_ID wp) (weekdayIndex start)) (\<lambda>scheduleRow.
     case resolveDaySchedule start scheduleRow of
       None \<Rightarrow> fail_with Internal
     | Some daySchedule \<Rightarrow>
         bindE (require (Contains daySchedule start fin) (BadRequest ''outside_operating_hours'')) (\<lambda>_.
         return_ok \<lparr>bp_wp = wp, bp_items = items, bp_end = fin,
           bp_dayOpen = ds_Open daySchedule, bp_dayClose = ds_Close daySchedule\<rparr>))"

definition planBooking ::
  "BookingItem list \<Rightarrow> int \<Rightarrow> time \<Rightarrow> bool \<Rightarrow> bool \<Rightarrow> uuid option \<Rightarrow> bookingPlan db" where
  "planBooking items boxNumber start requireFuture overflow expectWashingPoint =
     bindE (require (items \<noteq> []) (BadRequest ''invalid_items'')) (\<lambda>_.
     bindE (require (length items \<le> maxBookingItems) (BadRequest ''invalid_items'')) (\<lambda>_.
     bindE (foldE (plan_item expectWashingPoint) plan_start items) (\<lambda>st.
     bindE (WpRepo_FindByID (ps_wp st)) (\<lambda>wp.
     bindE (require (wp_Status wp = WpActive) (BadRequest ''washing_point_inactive'')) (\<lambda>_.
     bindE (if overflow then return_ok () else box_check wp boxNumber) (\<lambda>_.
     bindE time_Now (\<lambda>now.
     bindE (require (\<not> (requireFuture \<and> \<not> start > now)) (BadRequest ''invalid_scheduled_start_at'')) (\<lambda>_.
     hours_check wp (ps_items st) start (start + wrap64 (ps_minutes st * Minute))))))))))"

section \<open>Inserting under the lock of the washing point\<close>

definition verifyBoxAvailable :: "int \<Rightarrow> time \<Rightarrow> time \<Rightarrow> Queue list \<Rightarrow> apperror + unit" where
  "verifyBoxAvailable boxNumber start fin busy =
     (if \<exists>b \<in> set busy. q_BoxNumber b = boxNumber \<and> q_ScheduledStartAt b < fin \<and> q_ScheduledEndAt b > start
      then Inl (Conflict ''slot_unavailable'') else Inr ())"

definition insertLocked :: "bookingPlan \<Rightarrow> Queue \<Rightarrow> (Queue \<Rightarrow> Queue db) \<Rightarrow> Queue db" where
  "insertLocked plan q beforeInsert =
     transaction (
       bindE (first_or Internal (point_by_id (wp_ID (bp_wp plan)))) (\<lambda>locked.
       bindE (FindActiveBookingsInRange (wp_ID (bp_wp plan)) (bp_dayOpen plan) (bp_dayClose plan)) (\<lambda>busy.
       bindE (if q_IsOverflow q then return_ok ()
              else lift_result (verifyBoxAvailable (q_BoxNumber q) (q_ScheduledStartAt q) (q_ScheduledEndAt q) busy)) (\<lambda>_.
       bindE (beforeInsert q) (\<lambda>q'.
       QueueRepo_Create q')))))"

definition app_booking :: "CreateBookingInput \<Rightarrow> bookingPlan \<Rightarrow> Queue" where
  "app_booking inp plan =
     \<lparr>q_ID = uuid_Nil, q_Status = StatusQueue, q_UserID = cb_UserID inp, q_CarID = Some (cb_CarID inp),
      q_ServiceID = qi_ServiceID (hd (bp_items plan)), q_PriceOptionID = qi_PriceOptionID (hd (bp_items plan)),
      q_WashingPointID = wp_ID (bp_wp plan), q_BoxNumber = cb_BoxNumber inp, q_IsOverflow = False,
      q_ScheduledStartAt = cb_ScheduledStartAt inp, q_ScheduledEndAt = bp_end plan, q_Notes = cb_Notes inp,
      q_Source = SourceApp, q_CanceledAt = None, q_PausedAt = None, q_CreatedAt = ZeroTime,
      q_Items = bp_items plan\<rparr>"

definition CreateBooking :: "CreateBookingInput \<Rightarrow> Queue db" where
  "CreateBooking inp =
     bindE (FindOwnedByID (cb_CarID inp) (cb_UserID inp)) (\<lambda>_.
     bindE (HasActiveForUser (cb_UserID inp)) (\<lambda>hasActive.
     bindE (require (\<not> hasActive) (Conflict ''active_booking_exists'')) (\<lambda>_.
     bindE (planBooking (cb_Items inp) (cb_BoxNumber inp) (cb_ScheduledStartAt inp) True False None) (\<lambda>plan.
     bindE (insertLocked plan (app_booking inp plan) return_ok) (\<lambda>q.
     bindE (Publish (wp_ID (bp_wp plan))) (\<lambda>_.
     return_ok q))))))"

record CreateManualBookingInput =
  mb_WashingPointID :: uuid
  mb_Items :: "BookingItem list"
  mb_BoxNumber :: int
  mb_Overflow :: bool
  mb_ScheduledStartAt :: time
  mb_CarName :: string
  mb_Plate :: string
  mb_Phone :: string
  mb_ClientName :: string

definition manual_booking :: "CreateManualBookingInput \<Rightarrow> bookingPlan \<Rightarrow> Queue" where
  "manual_booking inp plan =
     \<lparr>q_ID = uuid_Nil, q_Status = StatusQueue, q_UserID = uuid_Nil, q_CarID = None,
      q_ServiceID = qi_ServiceID (hd (bp_items plan)), q_PriceOptionID = qi_PriceOptionID (hd (bp_items plan)),
      q_WashingPointID = wp_ID (bp_wp plan), q_BoxNumber = (if mb_Overflow inp then 0 else mb_BoxNumber inp),
      q_IsOverflow = mb_Overflow inp,
      q_ScheduledStartAt = mb_ScheduledStartAt inp, q_ScheduledEndAt = bp_end plan, q_Notes = None,
      q_Source = SourceManual, q_CanceledAt = None, q_PausedAt = None, q_CreatedAt = ZeroTime,
      q_Items = bp_items plan\<rparr>"

definition walk_in_user :: "CreateManualBookingInput \<Rightarrow> User" where
  "walk_in_user inp =
     \<lparr>u_ID = uuid_Nil, u_PhoneNumber = Some (mb_Phone inp),
      u_Name = (if mb_ClientName inp \<noteq> [] then Some (mb_ClientName inp) else None),
      u_Role = RoleCustomer, u_WashingPointID = None, u_LastLoginAt = None, u_Username = None,
      u_PasswordHash = None, u_CreatedAt = ZeroTime\<rparr>"

definition find_or_create_client :: "CreateManualBookingInput \<Rightarrow> User db" where
  "find_or_create_client inp =
     bindE (catchE (bindE (UserRepo_FindByPhone (mb_Phone inp)) (\<lambda>u. return_ok (Some u)))
              (\<lambda>e. if err_code e \<noteq> ''user_not_found'' then fail_with e else return_ok None)) (\<lambda>found.
     case found of
       None \<Rightarrow> UserRepo_Create (walk_in_user inp)
     | Some u \<Rightarrow>
         bindE (require (u_Role u = RoleCustomer) (Conflict ''phone_not_customer'')) (\<lambda>_. return_ok u))"

definition attach_client :: "(string \<Rightarrow> string) \<Rightarrow> CreateManualBookingInput \<Rightarrow> Queue \<Rightarrow> Queue db" where
  "attach_client pg_lower inp q =
     bindE (find_or_create_client inp) (\<lambda>u.
     bindE (HasActiveForUser (u_ID u)) (\<lambda>hasActive.
     bindE (require (\<not> hasActive) (Conflict ''active_booking_exists'')) (\<lambda>_.
     bindE (if mb_CarName inp \<noteq> [] \<or> mb_Plate inp \<noteq> []
            then bindE (UpsertForUser pg_lower (u_ID u) (mb_CarName inp) (mb_Plate inp)) (\<lambda>c.
                 return_ok (Some (car_ID c)))
            else return_ok (q_CarID q)) (\<lambda>carID.
     return_ok (q\<lparr>q_CarID := carID, q_UserID := u_ID u\<rparr>)))))"

definition CreateManualBooking :: "(string \<Rightarrow> string) \<Rightarrow> CreateManualBookingInput \<Rightarrow> Queue db" where
  "CreateManualBooking pg_lower inp =
     bindE (planBooking (mb_Items inp) (mb_BoxNumber inp) (mb_ScheduledStartAt inp) False
              (mb_Overflow inp) (Some (mb_WashingPointID inp))) (\<lambda>plan.
     bindE (insertLocked plan (manual_booking inp plan) (attach_client pg_lower inp)) (\<lambda>q.
     bindE (Publish (wp_ID (bp_wp plan))) (\<lambda>_.
     return_ok q)))"

section \<open>The status machine\<close>

definition CancelBooking :: "uuid \<Rightarrow> Queue db" where
  "CancelBooking qid =
     bindE (QueueRepo_FindByID qid) (\<lambda>q.
     bindE (require (q_Status q = StatusQueue \<or> q_Status q = StatusWaiting) (Conflict ''cannot_cancel'')) (\<lambda>_.
     bindE time_Now (\<lambda>now.
     let q' = q\<lparr>q_Status := StatusCanceled, q_CanceledAt := Some now\<rparr>
     in bindE (QueueRepo_UpdateStatus q' (q_Status q)) (\<lambda>_.
        bindE (Publish (q_WashingPointID q)) (\<lambda>_. return_ok q')))))"

definition Pause :: "uuid \<Rightarrow> Queue db" where
  "Pause qid =
     bindE (QueueRepo_FindByID qid) (\<lambda>q.
     bindE (require (q_Status q = StatusWashing) (Conflict ''cannot_pause'')) (\<lambda>_.
     bindE (require (q_PausedAt q = None) (Conflict ''cannot_pause'')) (\<lambda>_.
     bindE time_Now (\<lambda>now.
     let q' = q\<lparr>q_PausedAt := Some now\<rparr>
     in bindE (UpdatePausedAt q') (\<lambda>_.
        bindE (Publish (q_WashingPointID q)) (\<lambda>_. return_ok q'))))))"

definition Resume :: "uuid \<Rightarrow> Queue db" where
  "Resume qid =
     bindE (QueueRepo_FindByID qid) (\<lambda>q.
     bindE (require (q_Status q = StatusWashing) (Conflict ''cannot_resume'')) (\<lambda>_.
     bindE (require (q_PausedAt q \<noteq> None) (Conflict ''cannot_resume'')) (\<lambda>_.
     let q' = q\<lparr>q_PausedAt := None\<rparr>
     in bindE (UpdatePausedAt q') (\<lambda>_.
        bindE (Publish (q_WashingPointID q)) (\<lambda>_. return_ok q')))))"

fun staffStatusTransitions :: "Status \<Rightarrow> Status list" where
  "staffStatusTransitions StatusQueue = [StatusWaiting, StatusNoShow]"
| "staffStatusTransitions StatusWaiting = [StatusWashing, StatusNoShow]"
| "staffStatusTransitions StatusWashing = [StatusReady]"
| "staffStatusTransitions StatusNoShow = [StatusQueue]"
| "staffStatusTransitions StatusCanceled = [StatusQueue]"
| "staffStatusTransitions StatusReady = []"

definition UpdateStatus :: "(Queue \<Rightarrow> world \<Rightarrow> world) option \<Rightarrow> uuid \<Rightarrow> Status \<Rightarrow> Queue db" where
  "UpdateStatus notifier qid newStatus =
     bindE (QueueRepo_FindByID qid) (\<lambda>q.
     bindE (require (newStatus \<in> set (staffStatusTransitions (q_Status q))) (Conflict ''invalid_status_transition'')) (\<lambda>_.
     let q' = q\<lparr>q_Status := newStatus,
                q_CanceledAt := (if newStatus = StatusQueue then None else q_CanceledAt q)\<rparr>
     in bindE (QueueRepo_UpdateStatus q' (q_Status q)) (\<lambda>_.
        bindE (Publish (q_WashingPointID q)) (\<lambda>_.
        bindE (case notifier of None \<Rightarrow> return_ok () | Some notify \<Rightarrow> writes (notify q')) (\<lambda>_.
        return_ok q')))))"

section \<open>Failure leaves nothing behind; the invariant of the table\<close>

lemma read_only_ServiceRepo_FindByID: "read_only (ServiceRepo_FindByID sid)"
  unfolding ServiceRepo_FindByID_def by (intro read_only_intros)

lemma read_only_plan_item: "read_only (plan_item ex st it)"
  unfolding plan_item_def by (intro read_only_intros read_only_ServiceRepo_FindByID)

lemma read_only_box_check: "read_only (box_check wp n)"
  unfolding box_check_def FindByNumber_def by (intro read_only_intros)

lemma read_only_hours_check: "read_only (hours_check wp its s e)"
  unfolding hours_check_def FindByWeekday_def by (intro read_only_intros)

lemma read_only_planBooking: "read_only (planBooking items n s fut ov ex)"
  unfolding planBooking_def WpRepo_FindByID_def
  by (intro read_only_intros read_only_plan_item read_only_box_check read_only_hours_check)

lemma preserves_reads_only:
  "table_property I \<Longrightarrow> preserves I (planBooking items n s fut ov ex)"
  "table_property I \<Longrightarrow> preserves I (FindOwnedByID c u)"
  "table_property I \<Longrightarrow> preserves I (HasActiveForUser u)"
  "table_property I \<Longrightarrow> preserves I (FindActiveBookingsInRange pid s e)"
  "table_property I \<Longrightarrow> preserves I (UserRepo_FindByPhone ph)"
  unfolding planBooking_def WpRepo_FindByID_def plan_item_def box_check_def hours_check_def
    FindByNumber_def FindByWeekday_def ServiceRepo_FindByID_def FindOwnedByID_def HasActiveForUser_def
    FindActiveBookingsInRange_def UserRepo_FindByPhone_def
  by (intro db_preserves preserves_find_rows; assumption)+

lemma queue_ok_users: "preserves queue_ok (UserRepo_Create u)"
  unfolding UserRepo_Create_def
  by (rule preserves_statement [OF queue_ok_table], rule preservesI)
    (auto simp: queue_ok_def Let_def)

lemma queue_ok_cars: "preserves queue_ok (UpsertForUser pl u n p)"
  unfolding UpsertForUser_def CarRepo_Create_def Let_def
  by (intro db_preserves preserves_query [OF queue_ok_table] preserves_exec [OF queue_ok_table]
      preserves_statement [OF queue_ok_table] preservesI)
    (auto simp: queue_ok_def)

lemma queue_ok_Publish: "preserves queue_ok (Publish pid)"
  by (rule preserves_Publish) (simp add: queue_ok_def)

text \<open>The client's part of the transaction changes neither the status nor the cancellation.\<close>

lemma attach_client_ok: "preserves queue_ok (attach_client pl inp q)"
  unfolding attach_client_def find_or_create_client_def
  by (intro db_preserves preserves_reads_only [OF queue_ok_table] queue_ok_users queue_ok_cars)

lemma attach_client_fields:
  assumes "attach_client pl inp q w = (Inr q', w')"
  shows "q' = q\<lparr>q_CarID := q_CarID q', q_UserID := q_UserID q'\<rparr>"
    "q_Status q' = q_Status q" "q_CanceledAt q' = q_CanceledAt q"
  using assms unfolding attach_client_def by (auto elim!: bindE_InrE)

lemma insertLocked_ok:
  assumes "\<And>w q' w'. before q w = (Inr q', w') \<Longrightarrow> q_Status q' = StatusQueue \<and> q_CanceledAt q' = None"
    and "preserves queue_ok (before q)"
  shows "preserves queue_ok (insertLocked plan q before)"
proof -
  have p: "preserves queue_ok (bindE (before q) QueueRepo_Create)"
    by (rule preserves_bindE_value [OF assms(2)], rule QueueRepo_Create_ok) (use assms(1) in auto)
  show ?thesis unfolding insertLocked_def
    by (rule preserves_transaction [OF queue_ok_table],
        (rule preserves_bindE, (rule preserves_first_or [OF queue_ok_table]
          | rule preserves_reads_only [OF queue_ok_table] | (rule preserves_if; rule preserves_pure)))+, rule p)
qed

lemma CreateBooking_ok: "preserves queue_ok (CreateBooking inp)"
proof -
  have "preserves queue_ok (insertLocked plan (app_booking inp plan) return_ok)" for plan
    by (rule insertLocked_ok) (auto simp: app_booking_def preserves_pure)
  then show ?thesis unfolding CreateBooking_def
    by (intro valid_intros preserves_reads_only [OF queue_ok_table] queue_ok_Publish)
qed

lemma CreateManualBooking_ok: "preserves queue_ok (CreateManualBooking pg_lower inp)"
proof -
  have "preserves queue_ok (insertLocked plan (manual_booking inp plan) (attach_client pg_lower inp))" for plan
  proof (rule insertLocked_ok [OF _ attach_client_ok])
    fix w q' w' assume "attach_client pg_lower inp (manual_booking inp plan) w = (Inr q', w')"
    from attach_client_fields(2,3) [OF this] show "q_Status q' = StatusQueue \<and> q_CanceledAt q' = None"
      by (simp add: manual_booking_def)
  qed
  then show ?thesis unfolding CreateManualBooking_def
    by (intro valid_intros preserves_reads_only [OF queue_ok_table] queue_ok_Publish)
qed

lemma preserves_find_then:
  assumes "table_property I" "\<And>q. preserves I (f q)"
  shows "preserves I (bindE (QueueRepo_FindByID qid) f)"
  using assms by (intro preserves_bindE preserves_QueueRepo_FindByID)

lemma CancelBooking_ok: "preserves queue_ok (CancelBooking qid)"
  unfolding CancelBooking_def Let_def
  by (intro preserves_find_then [OF queue_ok_table] preserves_require valid_intros preserves_time_Now
      QueueRepo_UpdateStatus_ok queue_ok_Publish) auto

lemma Pause_ok: "preserves queue_ok (Pause qid)"
  unfolding Pause_def Let_def
  by (intro preserves_find_then [OF queue_ok_table] valid_intros preserves_time_Now
      UpdatePausedAt_ok queue_ok_Publish)

lemma Resume_ok: "preserves queue_ok (Resume qid)"
  unfolding Resume_def Let_def
  by (intro preserves_find_then [OF queue_ok_table] valid_intros preserves_time_Now
      UpdatePausedAt_ok queue_ok_Publish)

lemma staff_from_canceled: "t \<in> set (staffStatusTransitions s) \<Longrightarrow> t \<noteq> StatusCanceled \<and> (s = StatusCanceled \<longrightarrow> t = StatusQueue)"
  by (cases s) auto

lemma UpdateStatus_ok:
  assumes "\<And>notify q w. notifier = Some notify \<Longrightarrow> queue_ok w \<Longrightarrow> queue_ok (notify q w)"
  shows "preserves queue_ok (UpdateStatus notifier qid newStatus)"
  unfolding UpdateStatus_def Let_def
  by (intro preserves_find_then [OF queue_ok_table] preserves_require preserves_bindE
      QueueRepo_UpdateStatus_ok queue_ok_Publish preserves_pure)
    (use staff_from_canceled assms in \<open>auto intro!: preserves_pure preserves_writes split: option.split\<close>)

text \<open>
  C6 Every booking operation, interrupted at any database statement, keeps the invariant of the
  table: no two live bookings share a box at the same time, no customer has two active bookings,
  and \<open>canceled_at\<close> is set exactly on canceled bookings.
\<close>

theorem bookings_keep_queue_ok:
  assumes "\<And>q w. queue_ok w \<Longrightarrow> queue_ok (notify q w)"
  shows "preserves queue_ok (CreateBooking inp) \<and> preserves queue_ok (CreateManualBooking pg_lower minp) \<and>
    preserves queue_ok (CancelBooking qid) \<and> preserves queue_ok (Pause qid) \<and> preserves queue_ok (Resume qid) \<and>
    preserves queue_ok (UpdateStatus None qid st) \<and> preserves queue_ok (UpdateStatus (Some notify) qid st)"
  using assms
  by (intro conjI CreateBooking_ok CreateManualBooking_ok CancelBooking_ok Pause_ok Resume_ok UpdateStatus_ok)
    auto

theorem bookings_keep_queue_ok_witness:
  "preserves queue_ok (UpdateStatus (Some (\<lambda>q w. w\<lparr>w_published := w_published w @ [q_WashingPointID q]\<rparr>)) 1 StatusReady)"
proof -
  have "queue_ok w \<Longrightarrow> queue_ok (w\<lparr>w_published := w_published w @ [q_WashingPointID q]\<rparr>)" for q w
    by (simp add: queue_ok_def)
  from bookings_keep_queue_ok [of "\<lambda>q w. w\<lparr>w_published := w_published w @ [q_WashingPointID q]\<rparr>", OF this]
  show ?thesis by blast
qed

lemma read_only_checks:
  "read_only (FindOwnedByID c u)" "read_only (HasActiveForUser u)" "read_only (WpRepo_FindByID pid)"
  "read_only (FindActiveBookingsInRange pid s e)"
  unfolding FindOwnedByID_def HasActiveForUser_def WpRepo_FindByID_def FindActiveBookingsInRange_def
  by (intro read_only_intros read_only_find_rows)+

lemma atomic_insertLocked: "atomic (insertLocked plan q before)"
  unfolding insertLocked_def by (rule atomic_transaction)

lemmas atomic_intros = atomic_after_reads atomic_then_total atomic_insertLocked atomic_status_writes

lemma atomic_booking_ops:
  "atomic (CreateBooking inp)" "atomic (CreateManualBooking pg_lower minp)" "atomic (CancelBooking qid)"
  "atomic (Pause qid)" "atomic (Resume qid)" "atomic (UpdateStatus notifier qid st)"
proof -
  have tail: "never_fails (bindE (Publish p) (\<lambda>_. return_ok q))" for p :: uuid and q :: Queue
    by (intro never_fails_bindE never_fails_intros)
  show "atomic (CreateBooking inp)" unfolding CreateBooking_def
    by (intro atomic_after_reads read_only_checks read_only_planBooking read_only_pure
        atomic_then_total atomic_insertLocked tail)
  show "atomic (CreateManualBooking pg_lower minp)" unfolding CreateManualBooking_def
    by (intro atomic_after_reads read_only_planBooking atomic_then_total atomic_insertLocked tail)
  show "atomic (CancelBooking qid)" "atomic (Pause qid)" "atomic (Resume qid)"
    unfolding CancelBooking_def Pause_def Resume_def Let_def
    by (intro atomic_after_reads read_only_FindByID read_only_pure
        atomic_then_total atomic_status_writes tail)+
  have "never_fails (bindE (Publish p) (\<lambda>_. bindE (case notifier of None \<Rightarrow> return_ok ()
      | Some notify \<Rightarrow> writes (notify q)) (\<lambda>_. return_ok q)))" for p q
    by (intro never_fails_bindE never_fails_intros never_fails_case_option)
  then show "atomic (UpdateStatus notifier qid st)" unfolding UpdateStatus_def Let_def
    by (intro atomic_after_reads read_only_FindByID read_only_pure atomic_then_total atomic_status_writes)
qed

text \<open>
  C12 A booking operation that fails leaves every table as it was: in particular the walk-in's
  account and car that \<open>CreateManualBooking\<close> creates vanish with a booking that loses its slot.
\<close>

theorem failed_booking_ops_change_nothing:
  "atomic (CreateBooking inp) \<and> atomic (CreateManualBooking pg_lower minp) \<and> atomic (CancelBooking qid) \<and>
   atomic (Pause qid) \<and> atomic (Resume qid) \<and> atomic (UpdateStatus notifier qid st)"
  by (intro conjI atomic_booking_ops)

section \<open>When a booking is accepted\<close>

text \<open>
  The specification of a customer's booking: the request can be booked if the car is the
  customer's, the customer has no active booking, one to eight distinct active services of one
  active point are asked for with options of their own, the box exists and is not closed, the
  start is in the future, the point is open throughout, and no live booking holds the box then.
\<close>

definition total_minutes :: "BookingItem list \<Rightarrow> world \<Rightarrow> int" where
  "total_minutes items w = sum_list (map (\<lambda>it. case service_by_id (bi_ServiceID it) w of
     None \<Rightarrow> 0 | Some s \<Rightarrow> EffectiveQueueMinutes s) items)"

definition booking_end :: "BookingItem list \<Rightarrow> time \<Rightarrow> world \<Rightarrow> time" where
  "booking_end items start w = start + wrap64 (total_minutes items w * Minute)"

definition item_ok :: "uuid \<Rightarrow> world \<Rightarrow> BookingItem \<Rightarrow> bool" where
  "item_ok pid w it \<longleftrightarrow>
     (case service_by_id (bi_ServiceID it) w of
        None \<Rightarrow> False
      | Some s \<Rightarrow> sv_WashingPointID s = pid \<and> sv_IsActive s \<and>
          bi_PriceOptionID it \<in> po_ID ` set (options_of (bi_ServiceID it) w))"

definition items_ok :: "uuid \<Rightarrow> BookingItem list \<Rightarrow> world \<Rightarrow> bool" where
  "items_ok pid items w \<longleftrightarrow> items \<noteq> [] \<and> length items \<le> maxBookingItems \<and>
     distinct (map bi_ServiceID items) \<and> (\<forall>it \<in> set items. item_ok pid w it)"

definition box_usable :: "WashingPoint \<Rightarrow> int \<Rightarrow> world \<Rightarrow> bool" where
  "box_usable p n w \<longleftrightarrow> 1 \<le> n \<and> n \<le> wp_BoxesCount p \<and>
     (case box_numbered (wp_ID p) n w of None \<Rightarrow> True | Some b \<Rightarrow> bx_IsOpen b)"

definition in_hours :: "uuid \<Rightarrow> time \<Rightarrow> time \<Rightarrow> world \<Rightarrow> bool" where
  "in_hours pid start fin w \<longleftrightarrow>
     (case resolveDaySchedule start (schedule_row pid (weekdayIndex start) w) of
        None \<Rightarrow> False | Some ds \<Rightarrow> Contains ds start fin)"

definition box_free :: "uuid \<Rightarrow> int \<Rightarrow> time \<Rightarrow> time \<Rightarrow> world \<Rightarrow> bool" where
  "box_free pid n start fin w \<longleftrightarrow>
     (\<forall>r \<in> set (w_queue w). occupies r \<and> q_WashingPointID r = pid \<and> q_BoxNumber r = n \<longrightarrow>
        \<not> overlaps (q_ScheduledStartAt r) (q_ScheduledEndAt r) start fin)"

definition bookable :: "CreateBookingInput \<Rightarrow> world \<Rightarrow> bool" where
  "bookable inp w \<longleftrightarrow>
     owned_car (cb_CarID inp) (cb_UserID inp) w \<noteq> None \<and> \<not> has_active (cb_UserID inp) w \<and>
     (let s = cb_ScheduledStartAt inp; e = booking_end (cb_Items inp) s w
      in s > w_now w \<and> e > s \<and>
         (\<exists>p \<in> set (w_points w). wp_Status p = WpActive \<and> items_ok (wp_ID p) (cb_Items inp) w \<and>
            box_usable p (cb_BoxNumber inp) w \<and> in_hours (wp_ID p) s e w \<and>
            box_free (wp_ID p) (cb_BoxNumber inp) s e w))"

text \<open>What the foreign keys of the tables give: a service belongs to a point, never to the nil one.\<close>

definition services_placed :: "world \<Rightarrow> bool" where
  "services_placed w \<longleftrightarrow> (\<forall>s \<in> set (w_services w). sv_WashingPointID s \<noteq> uuid_Nil)"

lemma plan_item_Inr:
  assumes "plan_item ex st it w = (Inr st', w')"
  obtains svc where "same_tables w w'" "service_by_id (bi_ServiceID it) w = Some svc"
    "bi_ServiceID it \<notin> set (ps_seen st)" "ps_wp st = uuid_Nil \<or> sv_WashingPointID svc = ps_wp st"
    "\<And>p. ex = Some p \<Longrightarrow> sv_WashingPointID svc = p" "sv_IsActive svc"
    "bi_PriceOptionID it \<in> po_ID ` set (options_of (bi_ServiceID it) w)"
    "st' = \<lparr>ps_wp = (if ps_wp st = uuid_Nil then sv_WashingPointID svc else ps_wp st),
        ps_minutes = wrap64 (ps_minutes st + EffectiveQueueMinutes svc),
        ps_items = ps_items st @ [plan_item_of it], ps_seen = ps_seen st @ [bi_ServiceID it]\<rparr>"
proof -
  have same: "same_tables w w'" by (rule read_onlyD [OF read_only_plan_item assms])
  from assms obtain svc opts u where new: "bi_ServiceID it \<notin> set (ps_seen st)"
    and f: "ServiceRepo_FindByID (bi_ServiceID it) w = (Inr (svc, opts), u)"
    and rest: "ps_wp st = uuid_Nil \<or> sv_WashingPointID svc = ps_wp st"
      "\<And>p. ex = Some p \<Longrightarrow> sv_WashingPointID svc = p" "sv_IsActive svc"
      "bi_PriceOptionID it \<in> po_ID ` set opts"
      "st' = \<lparr>ps_wp = (if ps_wp st = uuid_Nil then sv_WashingPointID svc else ps_wp st),
        ps_minutes = wrap64 (ps_minutes st + EffectiveQueueMinutes svc),
        ps_items = ps_items st @ [plan_item_of it], ps_seen = ps_seen st @ [bi_ServiceID it]\<rparr>"
    unfolding plan_item_def
    by (auto elim!: bindE_InrE split: if_splits option.splits simp: image_iff) metis+
  from f have "service_by_id (bi_ServiceID it) w = Some svc \<and> opts = options_of (bi_ServiceID it) w"
    unfolding ServiceRepo_FindByID_def
    by (auto elim!: bindE_InrE first_or_Inr query_Inr simp: service_by_id_def options_of_def)
  with that same new rest show ?thesis by auto
qed

lemma same_tables_plan:
  assumes "same_tables w u"
  shows "item_ok pid u = item_ok pid w" "total_minutes items u = total_minutes items w"
    "services_placed u = services_placed w"
  using same_tablesD(4,5) [OF assms]
  by (simp_all add: item_ok_def total_minutes_def services_placed_def service_by_id_def options_of_def fun_eq_iff
      split: option.split)

lemma plan_fold_Inr:
  assumes "foldE (plan_item ex) st items w = (Inr st', w')" "services_placed w"
  shows "same_tables w w' \<and> ps_items st' = ps_items st @ map plan_item_of items \<and>
    ps_seen st' = ps_seen st @ map bi_ServiceID items \<and>
    (distinct (ps_seen st) \<longrightarrow> distinct (ps_seen st')) \<and>
    (items \<noteq> [] \<longrightarrow> ps_minutes st' = wrap64 (ps_minutes st + total_minutes items w)) \<and>
    (ps_wp st \<noteq> uuid_Nil \<longrightarrow> ps_wp st' = ps_wp st) \<and>
    (\<forall>it \<in> set items. item_ok (ps_wp st') w it) \<and>
    (\<forall>p. ex = Some p \<longrightarrow> items \<noteq> [] \<longrightarrow> ps_wp st' = p)"
  using assms
proof (induction items arbitrary: st w)
  case (Cons it items)
  from Cons.prems(1) obtain st1 u where one: "plan_item ex st it w = (Inr st1, u)"
    and rest: "foldE (plan_item ex) st1 items u = (Inr st', w')" by auto
  from one obtain svc where s: "same_tables w u" "service_by_id (bi_ServiceID it) w = Some svc"
    "bi_ServiceID it \<notin> set (ps_seen st)" "ps_wp st = uuid_Nil \<or> sv_WashingPointID svc = ps_wp st"
    "\<And>p. ex = Some p \<Longrightarrow> sv_WashingPointID svc = p" "sv_IsActive svc"
    "bi_PriceOptionID it \<in> po_ID ` set (options_of (bi_ServiceID it) w)"
    "st1 = \<lparr>ps_wp = (if ps_wp st = uuid_Nil then sv_WashingPointID svc else ps_wp st),
        ps_minutes = wrap64 (ps_minutes st + EffectiveQueueMinutes svc),
        ps_items = ps_items st @ [plan_item_of it], ps_seen = ps_seen st @ [bi_ServiceID it]\<rparr>"
    by (rule plan_item_Inr) blast
  note same = same_tables_plan [OF s(1)]
  have IH: "same_tables u w' \<and> ps_items st' = ps_items st1 @ map plan_item_of items \<and>
    ps_seen st' = ps_seen st1 @ map bi_ServiceID items \<and>
    (distinct (ps_seen st1) \<longrightarrow> distinct (ps_seen st')) \<and>
    (items \<noteq> [] \<longrightarrow> ps_minutes st' = wrap64 (ps_minutes st1 + total_minutes items w)) \<and>
    (ps_wp st1 \<noteq> uuid_Nil \<longrightarrow> ps_wp st' = ps_wp st1) \<and>
    (\<forall>it \<in> set items. item_ok (ps_wp st') w it) \<and>
    (\<forall>p. ex = Some p \<longrightarrow> items \<noteq> [] \<longrightarrow> ps_wp st' = p)"
    using Cons.IH [OF rest] Cons.prems(2) unfolding same by blast
  have svc: "svc \<in> set (w_services w)" using s(2) by (auto simp: service_by_id_def dest: find_row_SomeD)
  with Cons.prems(2) have nonnil: "sv_WashingPointID svc \<noteq> uuid_Nil" by (simp add: services_placed_def)
  have wp1: "ps_wp st1 = sv_WashingPointID svc" using s(4) by (auto simp: s(8))
  then have wp': "ps_wp st' = sv_WashingPointID svc" using IH nonnil by simp
  have min: "ps_minutes st' = wrap64 (ps_minutes st + total_minutes (it # items) w)"
  proof (cases "items = []")
    case True
    then have "st' = st1" using rest by simp
    then show ?thesis using True s(2) by (simp add: s(8) total_minutes_def)
  next
    case False
    then have "ps_minutes st' = wrap64 (wrap64 (ps_minutes st + EffectiveQueueMinutes svc) + total_minutes items w)"
      using IH by (simp add: s(8))
    then show ?thesis using s(2) by (simp add: wrap64_mod total_minutes_def add.assoc)
  qed
  have it: "item_ok (ps_wp st') w it" using s(2,6,7) wp' by (simp add: item_ok_def)
  have "\<forall>p. ex = Some p \<longrightarrow> ps_wp st' = p" using s(5) wp' by simp
  moreover have "ps_wp st \<noteq> uuid_Nil \<longrightarrow> ps_wp st' = ps_wp st" using s(4) wp' by auto
  moreover have "distinct (ps_seen st) \<longrightarrow> distinct (ps_seen st1)" using s(3) by (simp add: s(8))
  then have "distinct (ps_seen st) \<longrightarrow> distinct (ps_seen st')" using IH by blast
  moreover have "same_tables w w'" using IH s(1) by (blast intro: same_tables_trans)
  moreover have "ps_items st' = ps_items st @ map plan_item_of (it # items)"
    "ps_seen st' = ps_seen st @ map bi_ServiceID (it # items)" using IH by (simp_all add: s(8))
  moreover have "\<forall>i \<in> set (it # items). item_ok (ps_wp st') w i" using IH it by simp
  ultimately show ?case using min by blast
qed auto

lemma hours_check_Inr:
  assumes "hours_check wp its s e w = (Inr plan, w')"
  obtains ds where "resolveDaySchedule s (schedule_row (wp_ID wp) (weekdayIndex s) w) = Some ds"
    "Contains ds s e"
    "plan = \<lparr>bp_wp = wp, bp_items = its, bp_end = e, bp_dayOpen = ds_Open ds, bp_dayClose = ds_Close ds\<rparr>"
proof -
  from assms obtain row u where q: "query (schedule_row (wp_ID wp) (weekdayIndex s)) w = (Inr row, u)"
    and rest: "(case resolveDaySchedule s row of None \<Rightarrow> fail_with Internal
     | Some ds \<Rightarrow> bindE (require (Contains ds s e) (BadRequest ''outside_operating_hours'')) (\<lambda>_.
         return_ok \<lparr>bp_wp = wp, bp_items = its, bp_end = e,
           bp_dayOpen = ds_Open ds, bp_dayClose = ds_Close ds\<rparr>)) u = (Inr plan, w')"
    unfolding hours_check_def FindByWeekday_def by (rule bindE_InrE) blast
  have row: "row = schedule_row (wp_ID wp) (weekdayIndex s) w"
    by (rule query_Inr [OF q]) (simp add: schedule_row_def)
  show ?thesis
    using rest that unfolding row
    by (cases "resolveDaySchedule s (schedule_row (wp_ID wp) (weekdayIndex s) w)") (auto split: if_splits)
qed

lemma box_check_Inr:
  assumes "box_check wp n w = (Inr x, w')"
  shows "box_usable wp n w" "same_tables w w'"
proof -
  show "same_tables w w'" by (rule read_onlyD [OF read_only_box_check assms])
  from assms obtain row u where r: "1 \<le> n" "n \<le> wp_BoxesCount wp"
    and q: "query (box_numbered (wp_ID wp) n) w = (Inr row, u)"
    and o: "case row of None \<Rightarrow> True | Some b \<Rightarrow> bx_IsOpen b"
    unfolding box_check_def FindByNumber_def by (auto elim!: bindE_InrE split: if_splits)
  have "row = box_numbered (wp_ID wp) n w" by (rule query_Inr [OF q]) (simp add: box_numbered_def)
  with r o show "box_usable wp n w" by (simp add: box_usable_def)
qed
lemma planBooking_Inr:
  assumes "planBooking items n s fut ov ex w = (Inr plan, w')" "services_placed w"
  obtains p ds where "same_tables w w'" "point_by_id (wp_ID p) w = Some p" "wp_Status p = WpActive"
    "items_ok (wp_ID p) items w" "\<not> ov \<Longrightarrow> box_usable p n w" "fut \<Longrightarrow> s > w_now w"
    "\<And>pid. ex = Some pid \<Longrightarrow> wp_ID p = pid"
    "resolveDaySchedule s (schedule_row (wp_ID p) (weekdayIndex s) w) = Some ds"
    "Contains ds s (booking_end items s w)"
    "plan = \<lparr>bp_wp = p, bp_items = map plan_item_of items, bp_end = booking_end items s w,
       bp_dayOpen = ds_Open ds, bp_dayClose = ds_Close ds\<rparr>"
proof -
  have same: "same_tables w w'" by (rule read_onlyD [OF read_only_planBooking assms(1)])
  from assms(1) obtain st u1 p u2 u3 where ne: "items \<noteq> []" "length items \<le> maxBookingItems"
    and fold: "foldE (plan_item ex) plan_start items w = (Inr st, u1)"
    and wp: "WpRepo_FindByID (ps_wp st) u1 = (Inr p, u2)" and act: "wp_Status p = WpActive"
    and box: "(if ov then return_ok () else box_check p n) u2 = (Inr (), u3)"
    and fut: "fut \<Longrightarrow> s > w_now u3"
    and hours: "hours_check p (ps_items st) s (s + wrap64 (ps_minutes st * Minute)) u3 = (Inr plan, w')"
    unfolding planBooking_def time_Now_def by (auto elim!: bindE_InrE split: if_split_asm)
  note f = plan_fold_Inr [OF fold assms(2)]
  then have wu1: "same_tables w u1" by blast
  have u12: "same_tables u1 u2" by (rule read_onlyD [OF read_only_checks(3) wp])
  then have wu2: "same_tables w u2" using wu1 by (blast intro: same_tables_trans)
  have u23: "same_tables u2 u3" using box box_check_Inr(2) [of p n u2 _ u3] by (cases ov) auto
  then have wu3: "same_tables w u3" using wu2 by (blast intro: same_tables_trans)
  have p1: "point_by_id (ps_wp st) u1 = Some p"
    using wp unfolding WpRepo_FindByID_def by (auto elim!: first_or_Inr simp: point_by_id_def)
  then have pid: "wp_ID p = ps_wp st" by (auto simp: point_by_id_def dest: find_row_SomeD)
  have "point_by_id (wp_ID p) w = Some p"
    using p1 pid same_tablesD(3) [OF wu1] by (simp add: point_by_id_def)
  moreover have "items_ok (wp_ID p) items w"
    using f ne by (auto simp: items_ok_def pid plan_start_def)
  moreover have "box_usable p n w" if "\<not> ov"
    using box_check_Inr(1) [of p n u2] box that same_tablesD(6) [OF wu2]
    by (simp add: box_usable_def box_numbered_def)
  moreover have "s > w_now w" if fut using fut that same_tablesD(15) [OF wu3] by simp
  moreover have "wp_ID p = pid" if "ex = Some pid" for pid using f that ne pid by simp
  moreover have st: "ps_items st = map plan_item_of items"
    "s + wrap64 (ps_minutes st * Minute) = booking_end items s w"
    using f ne by (simp_all add: plan_start_def booking_end_def wrap64_mod)
  moreover have "schedule_row (wp_ID p) (weekdayIndex s) u3 = schedule_row (wp_ID p) (weekdayIndex s) w"
    using same_tablesD(7) [OF wu3] by (simp add: schedule_row_def)
  moreover obtain ds where "resolveDaySchedule s (schedule_row (wp_ID p) (weekdayIndex s) u3) = Some ds"
    "Contains ds s (booking_end items s w)"
    "plan = \<lparr>bp_wp = p, bp_items = map plan_item_of items, bp_end = booking_end items s w,
       bp_dayOpen = ds_Open ds, bp_dayClose = ds_Close ds\<rparr>"
    using hours_check_Inr [OF hours] unfolding st by blast
  ultimately show ?thesis using that [OF same _ act] by simp
qed

lemma Contains_within: "Contains ds s e \<Longrightarrow> ds_Open ds \<le> s \<and> e \<le> ds_Close ds"
  using Windows_bounds [of _ ds] by (fastforce simp: Contains_def)

text \<open>The bookings a slot could collide with are among those read under the lock.\<close>

lemma busy_rows:
  assumes "FindActiveBookingsInRange pid lo hi w = (Inr busy, w')" "lo \<le> s" "e \<le> hi"
  shows "(\<exists>b \<in> set busy. q_BoxNumber b = n \<and> q_ScheduledStartAt b < e \<and> q_ScheduledEndAt b > s) \<longleftrightarrow>
    \<not> box_free pid n s e w"
proof -
  obtain f where f: "busy = map (\<lambda>q. q\<lparr>q_Items := f (q_ID q)\<rparr>)
      (sort_key q_ScheduledStartAt (filter (\<lambda>q. q_WashingPointID q = pid \<and> \<not> q_IsOverflow q \<and>
       q_Status q \<notin> {StatusCanceled, StatusNoShow} \<and>
       q_ScheduledStartAt q < hi \<and> q_ScheduledEndAt q > lo) (w_queue w)))"
    using find_rows_Inr [OF assms(1) [unfolded FindActiveBookingsInRange_def]] by blast
  have "(\<exists>b \<in> set busy. q_BoxNumber b = n \<and> q_ScheduledStartAt b < e \<and> q_ScheduledEndAt b > s) \<longleftrightarrow>
      (\<exists>q \<in> set (w_queue w). q_WashingPointID q = pid \<and> occupies q \<and> q_BoxNumber q = n \<and>
        q_ScheduledStartAt q < e \<and> q_ScheduledEndAt q > s)"
    using assms(2,3) unfolding f by (auto simp: occupies_def)
  then show ?thesis by (auto simp: box_free_def overlaps_def)
qed

lemma insertLocked_Inr:
  assumes "insertLocked plan q before w = (Inr q', w')" "bp_dayOpen plan \<le> q_ScheduledStartAt q"
    "q_ScheduledEndAt q \<le> bp_dayClose plan"
  obtains u q2 v x where "same_tables w u" "point_by_id (wp_ID (bp_wp plan)) w \<noteq> None"
    "\<not> q_IsOverflow q \<Longrightarrow> box_free (wp_ID (bp_wp plan)) (q_BoxNumber q)
       (q_ScheduledStartAt q) (q_ScheduledEndAt q) w"
    "before q u = (Inr q2, v)" "QueueRepo_Create q2 v = (Inr q', x)" "same_tables x w'"
proof -
  obtain b x where b: "query (\<lambda>_. ()) w = (Inr (), b)" and body:
    "bindE (first_or Internal (point_by_id (wp_ID (bp_wp plan)))) (\<lambda>locked.
       bindE (FindActiveBookingsInRange (wp_ID (bp_wp plan)) (bp_dayOpen plan) (bp_dayClose plan)) (\<lambda>busy.
       bindE (if q_IsOverflow q then return_ok ()
              else lift_result (verifyBoxAvailable (q_BoxNumber q) (q_ScheduledStartAt q) (q_ScheduledEndAt q) busy)) (\<lambda>_.
       bindE (before q) (\<lambda>q'. QueueRepo_Create q')))) b = (Inr q', x)"
    and c: "query (\<lambda>_. ()) x = (Inr (), w')"
    using assms(1) unfolding insertLocked_def by (rule transaction_Inr)
  have wb: "same_tables w b" by (rule read_onlyD [OF read_only_query b])
  from body obtain locked u1 busy u2 u3 q2 v where lock: "first_or Internal (point_by_id (wp_ID (bp_wp plan))) b = (Inr locked, u1)"
    and busy: "FindActiveBookingsInRange (wp_ID (bp_wp plan)) (bp_dayOpen plan) (bp_dayClose plan) u1 = (Inr busy, u2)"
    and free: "(if q_IsOverflow q then return_ok ()
              else lift_result (verifyBoxAvailable (q_BoxNumber q) (q_ScheduledStartAt q) (q_ScheduledEndAt q) busy)) u2 = (Inr (), u3)"
    and rest: "before q u3 = (Inr q2, v)" "QueueRepo_Create q2 v = (Inr q', x)"
    by (auto elim!: bindE_InrE)
  have bu1: "same_tables b u1" by (rule read_onlyD [OF read_only_first_or lock])
  then have wu1: "same_tables w u1" using wb by (blast intro: same_tables_trans)
  have u12: "same_tables u1 u2" by (rule read_onlyD [OF read_only_checks(4) busy])
  have "u3 = u2" using free by (simp split: if_splits)
  then have u: "same_tables w u3" using wu1 u12 by (blast intro: same_tables_trans)
  have pt: "point_by_id (wp_ID (bp_wp plan)) w \<noteq> None"
    using lock same_tablesD(3) [OF wb] by (auto elim!: first_or_Inr simp: point_by_id_def)
  have "box_free (wp_ID (bp_wp plan)) (q_BoxNumber q) (q_ScheduledStartAt q) (q_ScheduledEndAt q) u1"
    if "\<not> q_IsOverflow q"
    using free that busy_rows [OF busy assms(2,3)] by (simp add: verifyBoxAvailable_def split: if_splits)
  then have "box_free (wp_ID (bp_wp plan)) (q_BoxNumber q) (q_ScheduledStartAt q) (q_ScheduledEndAt q) w"
    if "\<not> q_IsOverflow q" using that same_tablesD(8) [OF wu1] by (simp add: box_free_def)
  with u pt rest read_onlyD [OF read_only_query c] show ?thesis using that by blast
qed

lemma CreateBooking_Inr:
  assumes "CreateBooking inp w = (Inr q, w')" "services_placed w"
  obtains p where "owned_car (cb_CarID inp) (cb_UserID inp) w \<noteq> None" "\<not> has_active (cb_UserID inp) w"
    "cb_ScheduledStartAt inp > w_now w" "point_by_id (wp_ID p) w = Some p" "wp_Status p = WpActive"
    "items_ok (wp_ID p) (cb_Items inp) w" "box_usable p (cb_BoxNumber inp) w"
    "in_hours (wp_ID p) (cb_ScheduledStartAt inp) (q_ScheduledEndAt q) w"
    "box_free (wp_ID p) (cb_BoxNumber inp) (cb_ScheduledStartAt inp) (q_ScheduledEndAt q) w"
    "q_ScheduledEndAt q = booking_end (cb_Items inp) (cb_ScheduledStartAt inp) w"
    "q_Status q = StatusQueue" "q_UserID q = cb_UserID inp" "q_CarID q = Some (cb_CarID inp)"
    "q_WashingPointID q = wp_ID p" "q_BoxNumber q = cb_BoxNumber inp" "\<not> q_IsOverflow q"
    "q_ScheduledStartAt q = cb_ScheduledStartAt inp"
    "map qi_ServiceID (q_Items q) = map bi_ServiceID (cb_Items inp)"
    "w_queue w' = w_queue w @ [q\<lparr>q_Items := []\<rparr>]" "constraint_error (q\<lparr>q_Items := []\<rparr>) (w_queue w) = None"
    "w_items w' = w_items w @ q_Items q" "w_published w' = w_published w @ [wp_ID p]"
proof -
  from assms(1) obtain c u1 h u2 plan u3 u4 where car: "FindOwnedByID (cb_CarID inp) (cb_UserID inp) w = (Inr c, u1)"
    and act: "HasActiveForUser (cb_UserID inp) u1 = (Inr h, u2)" "\<not> h"
    and plan: "planBooking (cb_Items inp) (cb_BoxNumber inp) (cb_ScheduledStartAt inp) True False None u2 = (Inr plan, u3)"
    and ins: "insertLocked plan (app_booking inp plan) return_ok u3 = (Inr q, u4)"
    and fin: "w' = u4\<lparr>w_published := w_published u4 @ [wp_ID (bp_wp plan)]\<rparr>"
    unfolding CreateBooking_def Publish_def by (auto elim!: bindE_InrE split: if_split_asm)
  have t1: "same_tables w u1" by (rule read_onlyD [OF read_only_checks(1) car])
  have t2: "same_tables w u2"
    by (rule same_tables_trans [OF t1 read_onlyD [OF read_only_checks(2) act(1)]])
  have t3: "same_tables w u3"
    by (rule same_tables_trans [OF t2 read_onlyD [OF read_only_planBooking plan]])
  have owned: "owned_car (cb_CarID inp) (cb_UserID inp) w \<noteq> None"
    using car unfolding FindOwnedByID_def by (auto elim!: first_or_Inr simp: owned_car_def)
  have free: "\<not> has_active (cb_UserID inp) w"
    using act same_tablesD(8) [OF t1] unfolding HasActiveForUser_def
    by (auto elim!: query_Inr simp: has_active_def)
  let ?s = "cb_ScheduledStartAt inp"
  have placed: "services_placed u2" using assms(2) same_tables_plan(3) [OF t2] by simp
  obtain p ds where p: "point_by_id (wp_ID p) u2 = Some p" "wp_Status p = WpActive"
    "items_ok (wp_ID p) (cb_Items inp) u2" "box_usable p (cb_BoxNumber inp) u2" "?s > w_now u2"
    "resolveDaySchedule ?s (schedule_row (wp_ID p) (weekdayIndex ?s) u2) = Some ds"
    "Contains ds ?s (booking_end (cb_Items inp) ?s u2)"
    and pl: "plan = \<lparr>bp_wp = p, bp_items = map plan_item_of (cb_Items inp),
       bp_end = booking_end (cb_Items inp) ?s u2, bp_dayOpen = ds_Open ds, bp_dayClose = ds_Close ds\<rparr>"
    by (rule planBooking_Inr [OF plan placed]) blast
  have e2: "booking_end (cb_Items inp) ?s u2 = booking_end (cb_Items inp) ?s w"
    by (simp add: booking_end_def same_tables_plan(2) [OF t2])
  define e where "e = booking_end (cb_Items inp) ?s w"
  have p': "point_by_id (wp_ID p) w = Some p" "items_ok (wp_ID p) (cb_Items inp) w"
    "box_usable p (cb_BoxNumber inp) w" "?s > w_now w" "in_hours (wp_ID p) ?s e w"
    using p e2 same_tablesD(3,6,7,15) [OF t2] same_tables_plan(1) [OF t2]
    by (simp_all add: point_by_id_def items_ok_def box_usable_def box_numbered_def in_hours_def
        schedule_row_def e_def)
  have within: "ds_Open ds \<le> ?s" "e \<le> ds_Close ds"
    using Contains_within [OF p(7)] e2 by (simp_all add: e_def)
  let ?q = "app_booking inp plan"
  have b: "bp_wp plan = p" "bp_dayOpen plan = ds_Open ds" "bp_dayClose plan = ds_Close ds"
    "q_ScheduledStartAt ?q = ?s" "q_ScheduledEndAt ?q = e" "\<not> q_IsOverflow ?q"
    "q_BoxNumber ?q = cb_BoxNumber inp" "q_Items ?q = map plan_item_of (cb_Items inp)"
    "q_WashingPointID ?q = wp_ID p"
    using e2 by (simp_all add: pl app_booking_def e_def)
  obtain u5 x where i: "same_tables u3 u5"
    "box_free (wp_ID p) (cb_BoxNumber inp) ?s e u3" "QueueRepo_Create ?q u5 = (Inr q, x)" "same_tables x u4"
    by (rule insertLocked_Inr [OF ins]) (use within b in \<open>auto\<close>)
  have t5: "same_tables w u5" by (rule same_tables_trans [OF t3 i(1)])
  obtain row n where row: "row = ?q\<lparr>q_ID := w_next u5, q_CreatedAt := w_now u5, q_Items := []\<rparr>"
    "q = row\<lparr>q_Items := number_items n (w_next u5) 0 (q_Items ?q)\<rparr>"
    "constraint_error row (w_queue u5) = None" "w_queue x = w_queue u5 @ [row]"
    "w_items x = w_items u5 @ q_Items q" "w_published x = w_published u5"
    using QueueRepo_Create_Inr [OF i(3)] by blast
  have rq: "row = q\<lparr>q_Items := []\<rparr>" using row(1,2) by simp
  have ns: "map qi_ServiceID (number_items n m k its) = map qi_ServiceID its" for n m k its
    by (induction its arbitrary: n k) simp_all
  have "map qi_ServiceID (q_Items q) = map bi_ServiceID (cb_Items inp)"
    by (simp add: row(2) b(8) ns o_def plan_item_of_def)
  moreover have "box_free (wp_ID p) (cb_BoxNumber inp) ?s e w"
    using i(2) same_tablesD(8) [OF t3] by (simp add: box_free_def)
  moreover have "w_queue w' = w_queue w @ [q\<lparr>q_Items := []\<rparr>]" "w_items w' = w_items w @ q_Items q"
    "w_published w' = w_published w @ [wp_ID p]"
    using row(4-6) fin same_tablesD(8,9,16) [OF i(4)] same_tablesD(8,9,16) [OF t5] rq b(1) by simp_all
  moreover have "constraint_error (q\<lparr>q_Items := []\<rparr>) (w_queue w) = None"
    using row(3) rq same_tablesD(8) [OF t5] by simp
  moreover have "q_ScheduledEndAt q = e" "q_Status q = StatusQueue" "q_UserID q = cb_UserID inp"
    "q_CarID q = Some (cb_CarID inp)" "q_WashingPointID q = wp_ID p" "q_BoxNumber q = cb_BoxNumber inp"
    "\<not> q_IsOverflow q" "q_ScheduledStartAt q = ?s"
    using b by (simp_all add: row(1,2)) (simp_all add: app_booking_def)
  ultimately show ?thesis using that [OF owned free p'(4,1) p(2) p'(2,3)] p'(5) e_def by simp
qed

lemma plan_item_complete:
  assumes "w_faults w = []" "item_ok pid w it" "bi_ServiceID it \<notin> set (ps_seen st)"
    "ps_wp st = uuid_Nil \<or> ps_wp st = pid" "ex = None \<or> ex = Some pid"
  obtains st' where "plan_item ex st it w = (Inr st', w)" "ps_wp st' = pid"
    "ps_seen st' = ps_seen st @ [bi_ServiceID it]"
proof -
  obtain s where "service_by_id (bi_ServiceID it) w = Some s" "sv_WashingPointID s = pid" "sv_IsActive s"
    "bi_PriceOptionID it \<in> po_ID ` set (options_of (bi_ServiceID it) w)"
    using assms(2) by (auto simp: item_ok_def split: option.splits)
  note s = this
  then have f: "ServiceRepo_FindByID (bi_ServiceID it) w = (Inr (s, options_of (bi_ServiceID it) w), w)"
    using assms(1) by (simp add: ServiceRepo_FindByID_no_fault)
  let ?st = "\<lparr>ps_wp = (if ps_wp st = uuid_Nil then pid else ps_wp st),
        ps_minutes = wrap64 (ps_minutes st + EffectiveQueueMinutes s),
        ps_items = ps_items st @ [plan_item_of it], ps_seen = ps_seen st @ [bi_ServiceID it]\<rparr>"
  have "\<exists>po \<in> set (options_of (bi_ServiceID it) w). po_ID po = bi_PriceOptionID it" using s(4) by auto
  moreover have "case ex of None \<Rightarrow> True | Some p \<Rightarrow> pid = p" using assms(5) by auto
  ultimately have "plan_item ex st it w = (Inr ?st, w)"
    unfolding plan_item_def
    using assms(3,4) s(2,3) f by (simp add: bindE_Inr [where m = "ServiceRepo_FindByID (bi_ServiceID it)", OF f])
      (auto simp: uuid_Nil_def)
  then show ?thesis using that assms(4) by auto
qed

lemma plan_fold_complete:
  assumes "w_faults w = []" "\<forall>it \<in> set items. item_ok pid w it"
    "distinct (ps_seen st @ map bi_ServiceID items)" "ps_wp st = uuid_Nil \<or> ps_wp st = pid"
    "ex = None \<or> ex = Some pid"
  shows "\<exists>st'. foldE (plan_item ex) st items w = (Inr st', w) \<and> (items \<noteq> [] \<longrightarrow> ps_wp st' = pid)"
  using assms(2-4)
proof (induction items arbitrary: st)
  case (Cons it items)
  obtain st1 where one: "plan_item ex st it w = (Inr st1, w)" "ps_wp st1 = pid"
    "ps_seen st1 = ps_seen st @ [bi_ServiceID it]"
    by (rule plan_item_complete [OF assms(1) _ _ Cons.prems(3) assms(5)]) (use Cons.prems(1,2) in auto)
  obtain st' where st': "foldE (plan_item ex) st1 items w = (Inr st', w)"
    "items \<noteq> [] \<longrightarrow> ps_wp st' = pid"
    using Cons.IH [of st1] Cons.prems(1,2) one(2,3) by auto
  have "ps_wp st' = pid" using st' one(2) by (cases "items = []") auto
  with st'(1) one(1) show ?case by (simp add: bindE_def)
qed simp

lemma planBooking_complete:
  assumes "w_faults w = []" "services_placed w" "point_by_id (wp_ID p) w = Some p" "wp_Status p = WpActive"
    "items_ok (wp_ID p) items w" "ov \<or> box_usable p n w" "fut \<longrightarrow> s > w_now w"
    "in_hours (wp_ID p) s (booking_end items s w) w" "ex = None \<or> ex = Some (wp_ID p)"
  shows "\<exists>plan. planBooking items n s fut ov ex w = (Inr plan, w)"
proof -
  have items: "items \<noteq> []" "length items \<le> maxBookingItems" "distinct (map bi_ServiceID items)"
    "\<forall>it \<in> set items. item_ok (wp_ID p) w it" using assms(5) by (auto simp: items_ok_def)
  obtain st where st: "foldE (plan_item ex) plan_start items w = (Inr st, w)" "ps_wp st = wp_ID p"
    using plan_fold_complete [OF assms(1) items(4), of plan_start] items(1,3) assms(9)
    by (auto simp: plan_start_def)
  have fin: "s + wrap64 (ps_minutes st * Minute) = booking_end items s w"
    using plan_fold_Inr [OF st(1) assms(2)] items(1)
    by (simp add: plan_start_def booking_end_def wrap64_mod)
  have wp: "WpRepo_FindByID (ps_wp st) w = (Inr p, w)"
    using assms(1,3) st(2) by (simp add: WpRepo_FindByID_def)
  have box: "(if ov then return_ok () else box_check p n) w = (Inr (), w)"
    using assms(1,6) by (auto simp: box_check_def FindByNumber_def bindE_no_fault box_usable_def)
  obtain plan where hours: "hours_check p (ps_items st) s (booking_end items s w) w = (Inr plan, w)"
    using assms(1,8) by (auto simp: hours_check_def FindByWeekday_def bindE_no_fault in_hours_def
        split: option.splits)
  show ?thesis
    using items(1,2) assms(4,7) hours
    by (auto simp: planBooking_def bindE_Inr [where m = "foldE (plan_item ex) plan_start items", OF st(1)]
        bindE_Inr [where m = "WpRepo_FindByID (ps_wp st)", OF wp]
        bindE_Inr [where m = "if ov then return_ok () else box_check p n", OF box] time_Now_def fin)
qed

lemma QueueRepo_Create_no_fault:
  assumes "w_faults w = []" "distinct (map qi_ServiceID (q_Items q))"
    "constraint_error (q\<lparr>q_ID := w_next w, q_CreatedAt := w_now w, q_Items := []\<rparr>) (w_queue w) = None"
  shows "\<exists>q' w'. QueueRepo_Create q w = (Inr q', w') \<and> w_faults w' = []"
proof -
  let ?row = "q\<lparr>q_ID := w_next w, q_CreatedAt := w_now w, q_Items := []\<rparr>"
  let ?u = "w\<lparr>w_queue := w_queue w @ [?row], w_next := w_next w + 1\<rparr>"
  have i: "insert_queue q w = (Inr (Inr ?row), ?u)"
    using assms(1,3) by (simp add: insert_queue_def Let_def)
  have "map qi_ServiceID (number_items n m k its) = map qi_ServiceID its" for n m k its
    by (induction its arbitrary: n k) simp_all
  then have "\<exists>new v. createItems (q_ID ?row) (q_Items q) ?u = (Inr (Inr new), v) \<and> w_faults v = []"
    using assms(1,2) by (simp add: createItems_def Let_def item_constraint_error_def)
  then obtain new v where "createItems (q_ID ?row) (q_Items q) ?u = (Inr (Inr new), v)" "w_faults v = []"
    by blast
  then show ?thesis using i by (auto simp: QueueRepo_Create_def bindE_def)
qed

lemma find_rows_no_fault:
  "w_faults w = [] \<Longrightarrow> \<exists>rows. find_rows p w = (Inr rows, w)"
  by (simp add: find_rows_def attachItems_def itemsFor_def bindE_def)

lemma insertLocked_complete:
  assumes "w_faults w = []" "point_by_id (wp_ID (bp_wp plan)) w \<noteq> None"
    and "bp_dayOpen plan \<le> q_ScheduledStartAt q" "q_ScheduledEndAt q \<le> bp_dayClose plan"
    and "q_IsOverflow q \<or> box_free (wp_ID (bp_wp plan)) (q_BoxNumber q) (q_ScheduledStartAt q) (q_ScheduledEndAt q) w"
    and "distinct (map qi_ServiceID (q_Items q))"
    and "constraint_error (q\<lparr>q_ID := w_next w, q_CreatedAt := w_now w, q_Items := []\<rparr>) (w_queue w) = None"
  shows "\<exists>q' w'. insertLocked plan q return_ok w = (Inr q', w')"
proof -
  obtain p where p: "point_by_id (wp_ID (bp_wp plan)) w = Some p" using assms(2) by auto
  obtain busy where busy: "FindActiveBookingsInRange (wp_ID (bp_wp plan)) (bp_dayOpen plan) (bp_dayClose plan) w = (Inr busy, w)"
    using find_rows_no_fault [OF assms(1)] unfolding FindActiveBookingsInRange_def by blast
  have v: "(if q_IsOverflow q then return_ok ()
      else lift_result (verifyBoxAvailable (q_BoxNumber q) (q_ScheduledStartAt q) (q_ScheduledEndAt q) busy)) w = (Inr (), w)"
    using busy_rows [OF busy assms(3,4)] assms(5) by (auto simp: verifyBoxAvailable_def)
  obtain q' w' where c: "QueueRepo_Create q w = (Inr q', w')" "w_faults w' = []"
    using QueueRepo_Create_no_fault [OF assms(1,6,7)] by blast
  have body: "bindE (first_or Internal (point_by_id (wp_ID (bp_wp plan)))) (\<lambda>locked.
       bindE (FindActiveBookingsInRange (wp_ID (bp_wp plan)) (bp_dayOpen plan) (bp_dayClose plan)) (\<lambda>busy.
       bindE (if q_IsOverflow q then return_ok ()
              else lift_result (verifyBoxAvailable (q_BoxNumber q) (q_ScheduledStartAt q) (q_ScheduledEndAt q) busy)) (\<lambda>_.
       bindE (return_ok q) (\<lambda>q'. QueueRepo_Create q')))) w = (Inr q', w')"
    using assms(1) p busy v c(1) by (simp add: bindE_def)
  show ?thesis unfolding insertLocked_def
    by (intro exI, rule transaction_ok [OF assms(1) _ c(2)], rule body)
qed

lemma accepted_iff_bookable:
  assumes "w_faults w = []" "queue_ok w" "points_ok w" "services_placed w"
  shows "is_ok (fst (CreateBooking inp w)) \<longleftrightarrow> bookable inp w"
proof
  assume "is_ok (fst (CreateBooking inp w))"
  then obtain q w' where r: "CreateBooking inp w = (Inr q, w')"
    by (cases "CreateBooking inp w") (auto simp: is_ok_def split: sum.splits)
  show "bookable inp w"
  proof (rule CreateBooking_Inr [OF r assms(4)])
    fix p assume p: "owned_car (cb_CarID inp) (cb_UserID inp) w \<noteq> None" "\<not> has_active (cb_UserID inp) w"
      "cb_ScheduledStartAt inp > w_now w" "point_by_id (wp_ID p) w = Some p" "wp_Status p = WpActive"
      "items_ok (wp_ID p) (cb_Items inp) w" "box_usable p (cb_BoxNumber inp) w"
      "in_hours (wp_ID p) (cb_ScheduledStartAt inp) (q_ScheduledEndAt q) w"
      "box_free (wp_ID p) (cb_BoxNumber inp) (cb_ScheduledStartAt inp) (q_ScheduledEndAt q) w"
      "q_ScheduledEndAt q = booking_end (cb_Items inp) (cb_ScheduledStartAt inp) w"
      "q_ScheduledStartAt q = cb_ScheduledStartAt inp"
      "constraint_error (q\<lparr>q_Items := []\<rparr>) (w_queue w) = None"
    from p(4) have "p \<in> set (w_points w)" by (auto simp: point_by_id_def dest: find_row_SomeD)
    moreover from p(11,12) have "q_ScheduledEndAt q > cb_ScheduledStartAt inp"
      by (simp add: constraint_error_None queue_check_def)
    ultimately show ?thesis using p unfolding bookable_def Let_def by metis
  qed
next
  let ?s = "cb_ScheduledStartAt inp"
  assume b: "bookable inp w"
  define e where "e = booking_end (cb_Items inp) ?s w"
  from b obtain c p where c: "owned_car (cb_CarID inp) (cb_UserID inp) w = Some c"
    and act: "\<not> has_active (cb_UserID inp) w" and t: "?s > w_now w" "e > ?s"
    and p: "p \<in> set (w_points w)" "wp_Status p = WpActive" "items_ok (wp_ID p) (cb_Items inp) w"
      "box_usable p (cb_BoxNumber inp) w" "in_hours (wp_ID p) ?s e w"
      "box_free (wp_ID p) (cb_BoxNumber inp) ?s e w"
    unfolding bookable_def Let_def e_def by blast
  have pid: "point_by_id (wp_ID p) w = Some p"
    using assms(3) p(1) by (simp add: points_ok_def point_by_id_def find_row_distinct)
  obtain plan where plan: "planBooking (cb_Items inp) (cb_BoxNumber inp) ?s True False None w = (Inr plan, w)"
    using planBooking_complete [OF assms(1,4) pid p(2,3)] p(4,5) t(1) e_def by blast
  obtain p' ds where pl: "point_by_id (wp_ID p') w = Some p'" "items_ok (wp_ID p') (cb_Items inp) w"
    "Contains ds ?s (booking_end (cb_Items inp) ?s w)"
    "plan = \<lparr>bp_wp = p', bp_items = map plan_item_of (cb_Items inp),
       bp_end = booking_end (cb_Items inp) ?s w, bp_dayOpen = ds_Open ds, bp_dayClose = ds_Close ds\<rparr>"
    by (rule planBooking_Inr [OF plan assms(4)]) blast
  have "wp_ID p' = wp_ID p"
  proof -
    obtain it where "it \<in> set (cb_Items inp)" using p(3) by (cases "cb_Items inp") (auto simp: items_ok_def)
    then have "item_ok (wp_ID p') w it" "item_ok (wp_ID p) w it" using pl(2) p(3) by (auto simp: items_ok_def)
    then show ?thesis by (auto simp: item_ok_def split: option.splits)
  qed
  then have p': "p' = p" using pl(1) pid by (metis option.inject)
  let ?q = "app_booking inp plan"
  let ?row = "?q\<lparr>q_ID := w_next w, q_CreatedAt := w_now w, q_Items := []\<rparr>"
  have q: "q_ScheduledStartAt ?q = ?s" "q_ScheduledEndAt ?q = e" "q_BoxNumber ?q = cb_BoxNumber inp"
    "\<not> q_IsOverflow ?q" "q_WashingPointID ?q = wp_ID p" "q_UserID ?q = cb_UserID inp" "q_Status ?q = StatusQueue"
    "q_Items ?q = map plan_item_of (cb_Items inp)" "bp_wp plan = p"
    by (simp_all add: app_booking_def pl(4) e_def p')
  have within: "bp_dayOpen plan \<le> ?s" "e \<le> bp_dayClose plan"
    using Contains_within [OF pl(3)] by (simp_all add: pl(4) e_def)
  have "distinct (map qi_ServiceID (q_Items ?q))"
    using p(3) by (simp add: q(8) o_def plan_item_of_def items_ok_def)
  moreover have "constraint_error ?row (w_queue w) = None"
  proof -
    have "queue_check ?row" using t(2) p(4) q by (simp add: queue_check_def box_usable_def)
    moreover have "\<not> box_clash ?row r" if "r \<in> set (w_queue w)" for r
      using p(6) that q by (auto simp: box_free_def box_clash_def overlaps_def)
    moreover have "\<not> user_clash ?row r" if "r \<in> set (w_queue w)" for r
      using act that q by (auto simp: has_active_def user_clash_def filter_empty_conv)
    ultimately show ?thesis by (simp add: constraint_error_None)
  qed
  ultimately obtain q' w' where ins: "insertLocked plan ?q return_ok w = (Inr q', w')"
    using insertLocked_complete [OF assms(1), of plan ?q] within p(6) pid q by auto
  have car: "FindOwnedByID (cb_CarID inp) (cb_UserID inp) w = (Inr c, w)"
    using assms(1) c by (simp add: FindOwnedByID_def)
  have has: "HasActiveForUser (cb_UserID inp) w = (Inr False, w)"
    using assms(1) act by (simp add: HasActiveForUser_def)
  have "CreateBooking inp w = (Inr q', w'\<lparr>w_published := w_published w' @ [wp_ID (bp_wp plan)]\<rparr>)"
    unfolding CreateBooking_def bindE_Inr [where m = "FindOwnedByID (cb_CarID inp) (cb_UserID inp)", OF car]
      bindE_Inr [where m = "HasActiveForUser (cb_UserID inp)", OF has] bindE_primitive
    by (simp only: if_True not_False_eq_True
        bindE_Inr [where m = "planBooking (cb_Items inp) (cb_BoxNumber inp) ?s True False None", OF plan]
        bindE_Inr [where m = "insertLocked plan ?q return_ok", OF ins] Publish_def bindE_primitive return_ok_apply)
  then show "is_ok (fst (CreateBooking inp w))" by simp
qed

text \<open>
  C1 A customer's booking is accepted exactly when it is bookable: the chain of checks, the
  re-check under the lock and the constraints of the table together accept every bookable request
  and nothing else, so the EXCLUDE constraint never refuses what the lock let through.
\<close>

theorem CreateBooking_exact:
  assumes "w_faults w = []" "queue_ok w" "points_ok w" "services_placed w"
  shows "is_ok (fst (CreateBooking inp w)) \<longleftrightarrow> bookable inp w"
  by (rule accepted_iff_bookable [OF assms])

text \<open>A point with two boxes, open from nine to eight every day, and a customer with a car.\<close>

definition town_world :: world where
  "town_world = (empty_world 0)\<lparr>w_next := 100,
     w_users := [\<lparr>u_ID = 7, u_PhoneNumber = Some ''+992900000001'', u_Name = None, u_Role = ''customer'',
       u_WashingPointID = None, u_LastLoginAt = None, u_Username = None, u_PasswordHash = None, u_CreatedAt = 0\<rparr>],
     w_cars := [\<lparr>car_ID = 8, car_UserID = 7, car_Name = ''Opel'', car_Plate = None, car_CreatedAt = 0\<rparr>],
     w_points := [\<lparr>wp_ID = 5, wp_OwnerID = None, wp_Name = ''A'', wp_Address = ''B'', wp_Latitude = 0,
       wp_Longitude = 0, wp_BoxesCount = 2, wp_OpenTime = ''09:00'', wp_CloseTime = ''20:00'',
       wp_Status = WpActive, wp_Description = None, wp_Amenities = [], wp_CreatedAt = 0\<rparr>],
     w_services := [\<lparr>sv_ID = 1, sv_WashingPointID = 5, sv_Name = ''wash'', sv_Description = None,
       sv_DurationMinutes = 30, sv_QueueMinutes = None, sv_PictureURL = None, sv_IsActive = True,
       sv_CreatedAt = 0\<rparr>],
     w_options := [\<lparr>po_ID = 2, po_ServiceID = 1, po_Name = ''sedan'', po_PriceCents = 500,
         po_IsDefault = True, po_CreatedAt = 0\<rparr>],
     w_boxes := [\<lparr>bx_ID = 9, bx_WashingPointID = 5, bx_Number = 2, bx_Label = None, bx_IsOpen = False\<rparr>],
     w_schedules := map (\<lambda>d. \<lparr>sch_ID = 20 + nat d, sch_WashingPointID = 5, sch_Weekday = d, sch_IsOpen = True,
       sch_OpenTime = Some ''09:00'', sch_CloseTime = Some ''20:00'', sch_BreakStart = None,
       sch_BreakEnd = None\<rparr>) [0..6]\<rparr>"

text \<open>A booking of box 1 for ten o'clock, local time, on the first day of 1970.\<close>

definition town_request :: CreateBookingInput where
  "town_request = \<lparr>cb_UserID = 7, cb_CarID = 8, cb_Items = [\<lparr>bi_ServiceID = 1, bi_PriceOptionID = 2\<rparr>],
     cb_BoxNumber = 1, cb_ScheduledStartAt = 5 * Hour, cb_Notes = None\<rparr>"

lemma town_world_ok:
  "w_faults town_world = []" "queue_ok town_world" "points_ok town_world" "services_placed town_world"
  "users_ok town_world" "cars_ok town_world"
proof -
  show "points_ok town_world"
    by (simp add: points_ok_def town_world_def empty_world_def point_row_ok_def) code_simp
qed (simp_all add: town_world_def empty_world_def queue_ok_def services_placed_def uuid_Nil_def users_ok_def
    user_row_ok_def known_roles_def RoleCustomer_def cars_ok_def)

lemma town_bookable: "bookable town_request town_world"
  by code_simp

theorem CreateBooking_exact_witness:
  "is_ok (fst (CreateBooking town_request town_world)) \<and>
   \<not> is_ok (fst (CreateBooking (town_request\<lparr>cb_BoxNumber := 2\<rparr>) town_world))"
proof
  show "is_ok (fst (CreateBooking town_request town_world))"
    using CreateBooking_exact [OF town_world_ok(1-4)] town_bookable by blast
  have "\<not> bookable (town_request\<lparr>cb_BoxNumber := 2\<rparr>) town_world" by code_simp
  then show "\<not> is_ok (fst (CreateBooking (town_request\<lparr>cb_BoxNumber := 2\<rparr>) town_world))"
    using CreateBooking_exact [OF town_world_ok(1-4)] by blast
qed

text \<open>
  C2 What an accepted booking writes, whatever else failed before: one new row, in status queue,
  for the caller and the caller's car, in the requested box from the requested start for the sum
  of the services' minutes, with one item per service in the requested order; it shares its box
  with no live booking, and the point is announced on the event bus once.
\<close>

theorem CreateBooking_effect:
  assumes "CreateBooking inp w = (Inr q, w')" "services_placed w"
  shows "w_queue w' = w_queue w @ [q\<lparr>q_Items := []\<rparr>] \<and> w_items w' = w_items w @ q_Items q \<and>
    w_published w' = w_published w @ [q_WashingPointID q] \<and>
    q_Status q = StatusQueue \<and> q_UserID q = cb_UserID inp \<and> q_CarID q = Some (cb_CarID inp) \<and>
    q_BoxNumber q = cb_BoxNumber inp \<and> q_ScheduledStartAt q = cb_ScheduledStartAt inp \<and>
    q_ScheduledEndAt q = booking_end (cb_Items inp) (cb_ScheduledStartAt inp) w \<and>
    map qi_ServiceID (q_Items q) = map bi_ServiceID (cb_Items inp) \<and>
    (\<exists>c. owned_car (cb_CarID inp) (cb_UserID inp) w = Some c) \<and>
    (\<exists>p. point_by_id (q_WashingPointID q) w = Some p \<and> wp_Status p = WpActive \<and>
       1 \<le> q_BoxNumber q \<and> q_BoxNumber q \<le> wp_BoxesCount p) \<and>
    (\<forall>r \<in> set (w_queue w). occupies r \<and> q_WashingPointID r = q_WashingPointID q \<and> q_BoxNumber r = q_BoxNumber q \<longrightarrow>
       \<not> overlaps (q_ScheduledStartAt r) (q_ScheduledEndAt r) (q_ScheduledStartAt q) (q_ScheduledEndAt q))"
proof (rule CreateBooking_Inr [OF assms(1,2)])
  fix p assume p: "owned_car (cb_CarID inp) (cb_UserID inp) w \<noteq> None"
    "point_by_id (wp_ID p) w = Some p" "wp_Status p = WpActive" "box_usable p (cb_BoxNumber inp) w"
    "box_free (wp_ID p) (cb_BoxNumber inp) (cb_ScheduledStartAt inp) (q_ScheduledEndAt q) w"
    "q_ScheduledEndAt q = booking_end (cb_Items inp) (cb_ScheduledStartAt inp) w"
    "q_Status q = StatusQueue" "q_UserID q = cb_UserID inp" "q_CarID q = Some (cb_CarID inp)"
    "q_WashingPointID q = wp_ID p" "q_BoxNumber q = cb_BoxNumber inp"
    "q_ScheduledStartAt q = cb_ScheduledStartAt inp"
    "map qi_ServiceID (q_Items q) = map bi_ServiceID (cb_Items inp)"
    "w_queue w' = w_queue w @ [q\<lparr>q_Items := []\<rparr>]"
    "w_items w' = w_items w @ q_Items q" "w_published w' = w_published w @ [wp_ID p]"
  have "\<exists>p. point_by_id (q_WashingPointID q) w = Some p \<and> wp_Status p = WpActive \<and>
       1 \<le> q_BoxNumber q \<and> q_BoxNumber q \<le> wp_BoxesCount p"
    using p(2-4,10,11) by (auto simp: box_usable_def)
  moreover have "\<forall>r \<in> set (w_queue w). occupies r \<and> q_WashingPointID r = q_WashingPointID q \<and> q_BoxNumber r = q_BoxNumber q \<longrightarrow>
       \<not> overlaps (q_ScheduledStartAt r) (q_ScheduledEndAt r) (q_ScheduledStartAt q) (q_ScheduledEndAt q)"
    using p(5) unfolding box_free_def p(10-12) by blast
  ultimately show ?thesis using p(1,7-9) p(6,10-16) by auto
qed

theorem CreateBooking_effect_witness:
  "\<exists>q w'. CreateBooking town_request town_world = (Inr q, w') \<and> q_ScheduledEndAt q = 5 * Hour + 30 * Minute \<and>
     w_published w' = [5]"
proof -
  have "is_ok (fst (CreateBooking town_request town_world)) \<and>
     w_published (snd (CreateBooking town_request town_world)) = [5]" by code_simp
  then obtain q w' where r: "CreateBooking town_request town_world = (Inr q, w')" "w_published w' = [5]"
    by (cases "CreateBooking town_request town_world") (auto simp: is_ok_def split: sum.splits)
  have "booking_end (cb_Items town_request) (cb_ScheduledStartAt town_request) town_world = 5 * Hour + 30 * Minute"
    by code_simp
  with CreateBooking_effect [OF r(1) town_world_ok(4)] r show ?thesis by metis
qed

end
