(* ===== verification/WalkIn.thy ===== *)
theory WalkIn
  imports Booking
begin

text \<open>
  Walk-in bookings (\<open>CreateManualBooking\<close> of \<open>internal/queue/manager.go\<close>): the client found or
  created by phone, and the client's car, inside the transaction of the booking.
\<close>

lemma find_or_create_Inr:
  assumes "find_or_create_client inp w = (Inr u, w')"
  obtains "same_tables w w'" "u \<in> set (w_users w)" "u_PhoneNumber u = Some (mb_Phone inp)" "u_Role u = RoleCustomer"
    | fs n where "\<forall>v \<in> set (w_users w). u_PhoneNumber v \<noteq> Some (mb_Phone inp)"
      "u_PhoneNumber u = Some (mb_Phone inp)" "u_Role u = RoleCustomer" "u_ID u = w_next w"
      "w' = w\<lparr>w_faults := fs, w_next := n, w_users := w_users w @ [u]\<rparr>"
proof -
  let ?look = "UserRepo_FindByPhone (mb_Phone inp)"
  let ?p = "\<lambda>v. u_PhoneNumber v = Some (mb_Phone inp)"
  from assms obtain found v where c: "catchE (bindE ?look (\<lambda>u. return_ok (Some u)))
      (\<lambda>e. if err_code e \<noteq> ''user_not_found'' then fail_with e else return_ok None) w = (Inr found, v)"
    and rest: "(case found of None \<Rightarrow> UserRepo_Create (walk_in_user inp)
     | Some u \<Rightarrow> bindE (require (u_Role u = RoleCustomer) (Conflict ''phone_not_customer'')) (\<lambda>_. return_ok u)) v = (Inr u, w')"
    unfolding find_or_create_client_def by (rule bindE_InrE) blast
  obtain r v' where l: "?look w = (r, v')" by (cases "?look w")
  have same: "same_tables w v'"
    by (rule read_onlyD [where m = ?look, OF _ l]) (simp add: UserRepo_FindByPhone_def read_only_first_or)
  show ?thesis
  proof (cases r)
    case (Inr x)
    with l c have f: "found = Some x" "v = v'" by (auto simp: catchE_def bindE_def)
    from l Inr have "find ?p (w_users w) = Some x"
      unfolding UserRepo_FindByPhone_def by (auto elim!: first_or_Inr)
    then have "x \<in> set (w_users w)" "?p x" by (auto simp: find_Some_iff)
    with rest f same that(1) show ?thesis by (auto split: if_splits)
  next
    case (Inl e)
    with l c have f: "found = None" "v = v'" "err_code e = ''user_not_found''"
      by (auto simp: catchE_def bindE_def split: if_splits)
    have none: "find ?p (w_users w) = None \<and> (\<exists>fs. v' = w\<lparr>w_faults := fs\<rparr>)"
      using l [unfolded Inl UserRepo_FindByPhone_def first_or_def]
    proof (cases rule: bindE_cases)
      case (stop e')
      then have "e = Internal" by (auto elim: query_Inl)
      with f(3) show ?thesis by simp
    next
      case (go x t)
      have "x = find ?p (w_users w)" "\<exists>fs. t = w\<lparr>w_faults := fs\<rparr>"
        using query_eq [OF go(1)] by simp_all
      with go(2) show ?thesis by (auto split: option.splits)
    qed
    then obtain fs where v: "v' = w\<lparr>w_faults := fs\<rparr>" by blast
    from rest f have "UserRepo_Create (walk_in_user inp) v' = (Inr u, w')" by simp
    then obtain fs' where u: "u = (walk_in_user inp)\<lparr>u_ID := w_next w, u_CreatedAt := w_now w\<rparr>"
      "w' = w\<lparr>w_faults := fs', w_users := w_users w @ [u], w_next := w_next w + 1\<rparr>"
      unfolding UserRepo_Create_def v
      by (elim statement_Inr) (auto simp: Let_def split: if_splits)
    show ?thesis
      by (rule that(2) [where fs = fs' and n = "w_next w + 1"])
        (use none u in \<open>auto simp: find_None_iff walk_in_user_def\<close>)
  qed
qed

lemma UpsertForUser_Inr:
  assumes "UpsertForUser pl uid name plate w = (Inr c, w')"
  shows "\<exists>r \<in> set (w_cars w'). car_ID r = car_ID c \<and> car_UserID r = uid"
    "w_users w' = w_users w" "w_queue w' = w_queue w"
proof -
  let ?new = "\<lparr>car_ID = uuid_Nil, car_UserID = uid, car_Name = (if name = [] then plate else name),
    car_Plate = (if plate \<noteq> [] then Some plate else None), car_CreatedAt = ZeroTime\<rparr>"
  from assms obtain found v where q: "query (matching_car pl uid name plate) w = (Inr found, v)"
    and rest: "(case found of
       Some existing \<Rightarrow>
         (let c = merge_car name plate existing
          in bindE (if c \<noteq> existing
               then exec (\<lambda>w. w\<lparr>w_cars := update_where (\<lambda>r. car_ID r = car_ID existing)
                 (\<lambda>r. r\<lparr>car_Name := car_Name c, car_Plate := car_Plate c\<rparr>) (w_cars w)\<rparr>)
               else return_ok ()) (\<lambda>_. return_ok c))
     | None \<Rightarrow> CarRepo_Create ?new) v = (Inr c, w')"
    unfolding UpsertForUser_def by (rule bindE_InrE) blast
  have found: "found = matching_car pl uid name plate w"
    by (rule query_eq(1) [OF q]) (simp add: matching_car_def)
  have "\<exists>fs. v = w\<lparr>w_faults := fs\<rparr>"
    by (rule query_eq(2) [OF q]) (simp add: matching_car_def)
  then obtain fs where v: "v = w\<lparr>w_faults := fs\<rparr>" ..
  have "(\<exists>r \<in> set (w_cars w'). car_ID r = car_ID c \<and> car_UserID r = uid) \<and>
    w_users w' = w_users w \<and> w_queue w' = w_queue w"
  proof (cases found)
    case None
    with rest have "CarRepo_Create ?new v = (Inr c, w')" by simp
    then show ?thesis unfolding CarRepo_Create_def v
      by (elim statement_Inr) (auto simp: Let_def)
  next
    case (Some e)
    then have e: "e \<in> set (w_cars w)" "car_UserID e = uid"
      using matching_carD [of pl uid name plate w e] found by (auto simp: car_matches_def)
    let ?c = "merge_car name plate e"
    from rest Some obtain t where r: "(if ?c \<noteq> e
               then exec (\<lambda>w. w\<lparr>w_cars := update_where (\<lambda>r. car_ID r = car_ID e)
                 (\<lambda>r. r\<lparr>car_Name := car_Name ?c, car_Plate := car_Plate ?c\<rparr>) (w_cars w)\<rparr>)
               else return_ok ()) v = (Inr (), w')" "c = ?c"
      by (auto simp: Let_def elim!: bindE_InrE)
    show ?thesis
    proof (cases "?c = e")
      case True
      with r e v show ?thesis by auto
    next
      case False
      with r(1) have x: "exec (\<lambda>w. w\<lparr>w_cars := update_where (\<lambda>r. car_ID r = car_ID e)
                 (\<lambda>r. r\<lparr>car_Name := car_Name ?c, car_Plate := car_Plate ?c\<rparr>) (w_cars w)\<rparr>) v = (Inr (), w')"
        by simp
      have "\<exists>r \<in> set (update_where (\<lambda>r. car_ID r = car_ID e)
          (\<lambda>r. r\<lparr>car_Name := car_Name ?c, car_Plate := car_Plate ?c\<rparr>) (w_cars w)).
          car_ID r = car_ID e \<and> car_UserID r = uid"
        using e by (intro bexI [of _ "e\<lparr>car_Name := car_Name ?c, car_Plate := car_Plate ?c\<rparr>"])
          (auto simp: set_update_where)
      with r(2) show ?thesis by (rule_tac exec_Inr [OF x]) (simp add: v)
    qed
  qed
  then show "\<exists>r \<in> set (w_cars w'). car_ID r = car_ID c \<and> car_UserID r = uid"
    "w_users w' = w_users w" "w_queue w' = w_queue w" by blast+
qed

lemma keeps_accounts:
  "preserves (\<lambda>w. w_users w = us \<and> w_cars w = cs) (QueueRepo_Create q)"
proof -
  have t: "table_property (\<lambda>w. w_users w = us \<and> w_cars w = cs)" by (rule table_propertyI) simp
  have "preserves (\<lambda>w. w_users w = us \<and> w_cars w = cs) (insert_queue q)"
    unfolding insert_queue_def
    by (rule preserves_statement [OF t], rule preservesI) (simp add: Let_def split: option.split)
  moreover have "preserves (\<lambda>w. w_users w = us \<and> w_cars w = cs) (createItems i its)" for i its
    unfolding createItems_def
    by (intro preserves_if preserves_pure preserves_statement [OF t] preservesI)
      (simp add: Let_def split: option.split)
  ultimately show ?thesis unfolding QueueRepo_Create_def by (intro valid_intros)
qed

text \<open>
  A walk-in booking that is accepted belongs to a customer account with the given phone: the one
  already there, left as it was, or else one account added by this booking. That client had no
  active booking, a car given by name or plate is the client's, the booking is at the caller's
  point, and it sits in box 0 exactly when it is an overflow booking, else in a box free then.
\<close>

theorem CreateManualBooking_client:
  assumes "CreateManualBooking pg_lower inp w = (Inr q, w')" "services_placed w"
  shows "q_Status q = StatusQueue \<and> q_Source q = SourceManual \<and> q_WashingPointID q = mb_WashingPointID inp \<and>
    q_IsOverflow q = mb_Overflow inp \<and> q_BoxNumber q = (if mb_Overflow inp then 0 else mb_BoxNumber inp) \<and>
    (q_IsOverflow q \<or> box_free (q_WashingPointID q) (q_BoxNumber q) (q_ScheduledStartAt q) (q_ScheduledEndAt q) w) \<and>
    \<not> has_active (q_UserID q) w \<and>
    (\<exists>u. u_ID u = q_UserID q \<and> u_PhoneNumber u = Some (mb_Phone inp) \<and> u_Role u = RoleCustomer \<and>
       (u \<in> set (w_users w) \<and> w_users w' = w_users w \<or>
        (\<forall>v \<in> set (w_users w). u_PhoneNumber v \<noteq> Some (mb_Phone inp)) \<and> w_users w' = w_users w @ [u])) \<and>
    (case q_CarID q of
       None \<Rightarrow> mb_CarName inp = [] \<and> mb_Plate inp = []
     | Some k \<Rightarrow> \<exists>c \<in> set (w_cars w'). car_ID c = k \<and> car_UserID c = q_UserID q)"
proof -
  from assms(1) obtain plan u1 u2 where plan: "planBooking (mb_Items inp) (mb_BoxNumber inp) (mb_ScheduledStartAt inp)
      False (mb_Overflow inp) (Some (mb_WashingPointID inp)) w = (Inr plan, u1)"
    and ins: "insertLocked plan (manual_booking inp plan) (attach_client pg_lower inp) u1 = (Inr q, u2)"
    and fin: "w' = u2\<lparr>w_published := w_published u2 @ [wp_ID (bp_wp plan)]\<rparr>"
    unfolding CreateManualBooking_def Publish_def by (auto elim!: bindE_InrE)
  let ?s = "mb_ScheduledStartAt inp"
  obtain p ds where p: "same_tables w u1" "wp_ID p = mb_WashingPointID inp"
    "Contains ds ?s (booking_end (mb_Items inp) ?s w)"
    "plan = \<lparr>bp_wp = p, bp_items = map plan_item_of (mb_Items inp), bp_end = booking_end (mb_Items inp) ?s w,
       bp_dayOpen = ds_Open ds, bp_dayClose = ds_Close ds\<rparr>"
    by (rule planBooking_Inr [OF plan assms(2)]) blast
  let ?q = "manual_booking inp plan"
  have b: "q_ScheduledStartAt ?q = ?s" "q_ScheduledEndAt ?q = booking_end (mb_Items inp) ?s w"
    "q_IsOverflow ?q = mb_Overflow inp" "q_BoxNumber ?q = (if mb_Overflow inp then 0 else mb_BoxNumber inp)"
    "q_WashingPointID ?q = mb_WashingPointID inp" "q_CarID ?q = None" "wp_ID (bp_wp plan) = mb_WashingPointID inp"
    "q_Status ?q = StatusQueue" "q_Source ?q = SourceManual"
    by (simp_all add: manual_booking_def p(2,4))
  obtain t q2 v x where i: "same_tables u1 t"
    "\<not> q_IsOverflow ?q \<Longrightarrow> box_free (wp_ID (bp_wp plan)) (q_BoxNumber ?q) (q_ScheduledStartAt ?q) (q_ScheduledEndAt ?q) u1"
    "attach_client pg_lower inp ?q t = (Inr q2, v)" "QueueRepo_Create q2 v = (Inr q, x)" "same_tables x u2"
    by (rule insertLocked_Inr [OF ins]) (use Contains_within [OF p(3)] b p(4) in auto)
  have wt: "same_tables w t" by (rule same_tables_trans [OF p(1) i(1)])
  from i(3) obtain u t1 h t2 k t3 where c: "find_or_create_client inp t = (Inr u, t1)"
    and h: "HasActiveForUser (u_ID u) t1 = (Inr h, t2)" "\<not> h"
    and car: "(if mb_CarName inp \<noteq> [] \<or> mb_Plate inp \<noteq> []
            then bindE (UpsertForUser pg_lower (u_ID u) (mb_CarName inp) (mb_Plate inp)) (\<lambda>c. return_ok (Some (car_ID c)))
            else return_ok (q_CarID ?q)) t2 = (Inr k, v)"
    and q2: "q2 = ?q\<lparr>q_CarID := k, q_UserID := u_ID u\<rparr>"
    unfolding attach_client_def by (auto elim!: bindE_InrE split: if_split_asm)
  have t12: "same_tables t1 t2" by (rule read_onlyD [OF read_only_checks(2) h(1)])
  have carv: "w_users v = w_users t2 \<and> (case k of None \<Rightarrow> mb_CarName inp = [] \<and> mb_Plate inp = []
      | Some c \<Rightarrow> \<exists>r \<in> set (w_cars v). car_ID r = c \<and> car_UserID r = u_ID u)"
  proof (cases "mb_CarName inp \<noteq> [] \<or> mb_Plate inp \<noteq> []")
    case True
    with car obtain c where "UpsertForUser pg_lower (u_ID u) (mb_CarName inp) (mb_Plate inp) t2 = (Inr c, v)"
      "k = Some (car_ID c)" by (auto elim!: bindE_InrE)
    with UpsertForUser_Inr [OF this(1)] show ?thesis by simp
  next
    case False
    with car b(6) show ?thesis by simp
  qed
  have "w_users x = w_users v \<and> w_cars x = w_cars v"
    using preservesD [OF keeps_accounts [of "w_users v" "w_cars v"] _ i(4)] by simp
  then have tabs: "w_users w' = w_users t1" "w_cars w' = w_cars v"
    using same_tablesD(1,2) [OF i(5)] same_tablesD(1) [OF t12] carv fin by simp_all
  have user: "u_PhoneNumber u = Some (mb_Phone inp) \<and> u_Role u = RoleCustomer \<and>
       (u \<in> set (w_users w) \<and> w_users t1 = w_users w \<or>
        (\<forall>v \<in> set (w_users w). u_PhoneNumber v \<noteq> Some (mb_Phone inp)) \<and> w_users t1 = w_users w @ [u]) \<and>
      w_queue t1 = w_queue w"
    using c
  proof (cases rule: find_or_create_Inr)
    case 1
    then show ?thesis using same_tablesD(1,8) [OF wt] same_tablesD(1,8) [OF 1(1)] by simp
  next
    case (2 fs n)
    then show ?thesis using same_tablesD(1,8) [OF wt] by simp
  qed
  then have act: "\<not> has_active (u_ID u) w"
    using h unfolding HasActiveForUser_def by (auto elim!: query_Inr simp: has_active_def)
  obtain row n where row: "row = q2\<lparr>q_ID := w_next v, q_CreatedAt := w_now v, q_Items := []\<rparr>"
    "q = row\<lparr>q_Items := number_items n (w_next v) 0 (q_Items q2)\<rparr>"
    using QueueRepo_Create_Inr [OF i(4)] by blast
  have q: "q_Status q = StatusQueue" "q_Source q = SourceManual" "q_WashingPointID q = mb_WashingPointID inp"
    "q_IsOverflow q = mb_Overflow inp" "q_BoxNumber q = (if mb_Overflow inp then 0 else mb_BoxNumber inp)"
    "q_ScheduledStartAt q = ?s" "q_ScheduledEndAt q = booking_end (mb_Items inp) ?s w"
    "q_UserID q = u_ID u" "q_CarID q = k"
    using b by (simp_all add: row q2)
  have "q_IsOverflow q \<or> box_free (q_WashingPointID q) (q_BoxNumber q) (q_ScheduledStartAt q) (q_ScheduledEndAt q) w"
    using i(2) b q same_tablesD(8) [OF p(1)] by (auto simp: box_free_def)
  moreover have "case q_CarID q of None \<Rightarrow> mb_CarName inp = [] \<and> mb_Plate inp = []
     | Some k \<Rightarrow> \<exists>c \<in> set (w_cars w'). car_ID c = k \<and> car_UserID c = q_UserID q"
    using carv unfolding q tabs by blast
  moreover have "\<exists>u. u_ID u = q_UserID q \<and> u_PhoneNumber u = Some (mb_Phone inp) \<and> u_Role u = RoleCustomer \<and>
       (u \<in> set (w_users w) \<and> w_users w' = w_users w \<or>
        (\<forall>v \<in> set (w_users w). u_PhoneNumber v \<noteq> Some (mb_Phone inp)) \<and> w_users w' = w_users w @ [u])"
    using user unfolding q(8) tabs(1) by blast
  ultimately show ?thesis using q act by simp
qed

definition walk_in_request :: CreateManualBookingInput where
  "walk_in_request = \<lparr>mb_WashingPointID = 5, mb_Items = [\<lparr>bi_ServiceID = 1, bi_PriceOptionID = 2\<rparr>],
     mb_BoxNumber = 1, mb_Overflow = False, mb_ScheduledStartAt = 6 * Hour, mb_CarName = ''Opel'', mb_Plate = [],
     mb_Phone = ''+992900000002'', mb_ClientName = ''Ali''\<rparr>"

theorem CreateManualBooking_client_witness:
  "\<exists>q w'. CreateManualBooking id walk_in_request town_world = (Inr q, w') \<and>
     (\<exists>u. u_ID u = q_UserID q \<and> w_users w' = w_users town_world @ [u])"
proof -
  have "is_ok (fst (CreateManualBooking id walk_in_request town_world)) \<and>
     length (w_users (snd (CreateManualBooking id walk_in_request town_world))) = 2" by code_simp
  then obtain q w' where r: "CreateManualBooking id walk_in_request town_world = (Inr q, w')"
    and n: "length (w_users w') = 2"
    by (cases "CreateManualBooking id walk_in_request town_world") (auto simp: is_ok_def split: sum.splits)
  have "length (w_users town_world) = 1" by (simp add: town_world_def)
  with n CreateManualBooking_client [OF r town_world_ok(4)] r show ?thesis by force
qed

end
