(* ===== verification/QueueSteps.thy ===== *)
theory QueueSteps
  imports Booking
begin

text \<open>
  The life of a booking under concurrent requests. Every handler that changes a booking reads it,
  decides, and writes with a guard; between the read and the write any other request may run. The
  step relation below takes the reads and the writes of \<open>internal/queue/manager.go\<close> as separate
  steps, with the decision taken on a possibly stale row kept as a pending write, and lets bookings
  be planned and inserted in between. A transaction is one step: Postgres serializes the
  transactions of one point on the row lock that \<open>insertLocked\<close> takes.
\<close>

section \<open>The status graph\<close>

definition edge :: "Status \<Rightarrow> Status \<Rightarrow> bool" where
  "edge s t \<longleftrightarrow> t \<in> set (staffStatusTransitions s) \<or> t = StatusCanceled \<and> s \<in> {StatusQueue, StatusWaiting}"

lemma edge_cases:
  "edge StatusQueue t \<longleftrightarrow> t \<in> {StatusWaiting, StatusNoShow, StatusCanceled}"
  "edge StatusWaiting t \<longleftrightarrow> t \<in> {StatusWashing, StatusNoShow, StatusCanceled}"
  "edge StatusWashing t \<longleftrightarrow> t = StatusReady"
  "edge StatusReady t \<longleftrightarrow> False"
  "edge StatusCanceled t \<longleftrightarrow> t = StatusQueue"
  "edge StatusNoShow t \<longleftrightarrow> t = StatusQueue"
  by (auto simp: edge_def)

text \<open>Washing is entered only from waiting, and a finished or canceled wash is never resumed.\<close>

lemma edge_into_washing: "edge s StatusWashing \<longleftrightarrow> s = StatusWaiting"
  by (cases s) (auto simp: edge_cases)

section \<open>One request at a time\<close>

lemma update_hits_one:
  assumes "queue_ok w" "booking qid w = Some r" "\<And>x. q_ID (f x) = q_ID x"
  shows "booking qid (w\<lparr>w_faults := fs, w_queue := update_where (\<lambda>x. q_ID x = qid \<and> q_Status x = fromSt) f (w_queue w)\<rparr>) =
      Some (if q_Status r = fromSt then f r else r)"
    and "k \<noteq> qid \<Longrightarrow> booking k (w\<lparr>w_faults := fs, w_queue :=
      update_where (\<lambda>x. q_ID x = qid \<and> q_Status x = fromSt) f (w_queue w)\<rparr>) = booking k w"
proof -
  have "q_ID r = qid" using booking_SomeD [OF assms(2)] by simp
  then show "booking qid (w\<lparr>w_faults := fs, w_queue := update_where (\<lambda>x. q_ID x = qid \<and> q_Status x = fromSt) f (w_queue w)\<rparr>) =
      Some (if q_Status r = fromSt then f r else r)"
    using assms(2) by (simp add: booking_def find_row_update_where [where key = q_ID, OF assms(3)])
  assume k: "k \<noteq> qid"
  show "booking k (w\<lparr>w_faults := fs, w_queue :=
      update_where (\<lambda>x. q_ID x = qid \<and> q_Status x = fromSt) f (w_queue w)\<rparr>) = booking k w"
  proof (cases "booking k w")
    case None
    then show ?thesis by (simp add: booking_def find_row_update_where [where key = q_ID, OF assms(3)])
  next
    case (Some x)
    then have "q_ID x = k" using booking_SomeD by blast
    with Some k show ?thesis by (simp add: booking_def find_row_update_where [where key = q_ID, OF assms(3)])
  qed
qed

lemma booking_cong: "w_queue v = w_queue w \<Longrightarrow> booking k v = booking k w"
  by (simp add: booking_def)

lemma status_write:
  assumes "queue_ok w" "QueueRepo_UpdateStatus q from w = (r, w')"
  obtains e where "r = Inl e" "same_tables w w'"
    | r0 where "r = Inr ()" "booking (q_ID q) w = Some r0" "q_Status r0 = from"
      "booking (q_ID q) w' = Some (status_update q r0)" "\<And>k. k \<noteq> q_ID q \<Longrightarrow> booking k w' = booking k w"
      "w_published w' = w_published w"
  using assms(2)
proof (cases rule: QueueRepo_UpdateStatus_cases)
  case (2 fs q0)
  have b: "booking (q_ID q) w = Some q0" using booking_unique [OF assms(1) 2(2)] 2(3) by simp
  note hit = update_hits_one [OF assms(1) b, where f = "status_update q" and fromSt = "from" and fs = fs]
  show ?thesis
    by (rule that(2) [OF 2(1) b 2(4)]) (use hit 2(4,5) in simp_all)
qed (use that(1) in blast)

lemma pause_write:
  assumes "queue_ok w" "UpdatePausedAt q w = (r, w')"
  obtains e where "r = Inl e" "same_tables w w'"
    | r0 where "r = Inr ()" "booking (q_ID q) w = Some r0" "q_Status r0 = StatusWashing"
      "booking (q_ID q) w' = Some (r0\<lparr>q_PausedAt := q_PausedAt q\<rparr>)"
      "\<And>k. k \<noteq> q_ID q \<Longrightarrow> booking k w' = booking k w"
  using assms(2)
proof (cases rule: UpdatePausedAt_cases)
  case (2 fs q0)
  have b: "booking (q_ID q) w = Some q0" using booking_unique [OF assms(1) 2(2)] 2(3) by simp
  note hit = update_hits_one [OF assms(1) b, where f = "\<lambda>r. r\<lparr>q_PausedAt := q_PausedAt q\<rparr>"
      and fromSt = StatusWashing and fs = fs]
  show ?thesis
    by (rule that(2) [OF 2(1) b 2(4)]) (use hit 2(4,5) in simp_all)
qed (use that(1) in blast)

lemma queue_ok_same: "same_tables w u \<Longrightarrow> booking k u = booking k w"
  using same_tablesD(8) [of w u] by (simp add: booking_def)

lemma FindByID_ok: "queue_ok w \<Longrightarrow> QueueRepo_FindByID qid w = (r, u) \<Longrightarrow> queue_ok u"
  by (rule preservesD [OF preserves_QueueRepo_FindByID [OF queue_ok_table]])


definition sample_booking :: "uuid \<Rightarrow> uuid \<Rightarrow> Status \<Rightarrow> time \<Rightarrow> Queue" where
  "sample_booking i u s t = \<lparr>q_ID = i, q_Status = s, q_UserID = u, q_CarID = None, q_ServiceID = 1,
     q_PriceOptionID = 2, q_WashingPointID = 5, q_BoxNumber = 1, q_IsOverflow = False,
     q_ScheduledStartAt = t, q_ScheduledEndAt = t + 30 * Minute, q_Notes = None, q_Source = SourceApp,
     q_CanceledAt = (if s = StatusCanceled then Some 0 else None), q_PausedAt = None, q_CreatedAt = 0,
     q_Items = []\<rparr>"

definition busy_world :: world where
  "busy_world = town_world\<lparr>w_queue := [sample_booking 50 7 StatusWaiting (5 * Hour),
     sample_booking 51 8 StatusCanceled (5 * Hour), sample_booking 52 9 StatusWashing (7 * Hour)]\<rparr>"

lemma busy_world_ok: "queue_ok busy_world" "w_faults busy_world = []"
  by (simp_all add: queue_ok_def busy_world_def sample_booking_def town_world_def empty_world_def
      queue_check_def box_clash_def user_clash_def occupies_def overlaps_def duration_defs)


lemma CancelBooking_Inr:
  assumes "queue_ok w" "CancelBooking qid w = (Inr q, w')"
  obtains r where "booking qid w = Some r" "q_Status r = StatusQueue \<or> q_Status r = StatusWaiting"
    "booking qid w' = Some (r\<lparr>q_Status := StatusCanceled, q_CanceledAt := Some (w_now w)\<rparr>)"
    "\<And>k. k \<noteq> qid \<Longrightarrow> booking k w' = booking k w"
proof -
  from assms(2) obtain q0 u v where f: "QueueRepo_FindByID qid w = (Inr q0, u)"
    and st: "q_Status q0 = StatusQueue \<or> q_Status q0 = StatusWaiting"
    and q: "q = q0\<lparr>q_Status := StatusCanceled, q_CanceledAt := Some (w_now u)\<rparr>"
    and wr: "QueueRepo_UpdateStatus q (q_Status q0) u = (Inr (), v)"
    and w': "w' = v\<lparr>w_published := w_published v @ [q_WashingPointID q0]\<rparr>"
    unfolding CancelBooking_def Let_def Publish_def time_Now_def by (auto elim!: bindE_InrE split: if_split_asm)
  obtain r its where r: "booking qid w = Some r" "q0 = r\<lparr>q_Items := its\<rparr>" "same_tables w u"
    by (rule QueueRepo_FindByID_Inr [OF f])
  have id: "q_ID q = qid" using booking_SomeD [OF r(1)] by (simp add: q r(2))
  have bu: "booking k u = booking k w" for k by (rule queue_ok_same [OF r(3)])
  have now: "w_now u = w_now w" using same_tablesD(15) [OF r(3)] by simp
  show ?thesis
  proof (rule status_write [OF FindByID_ok [OF assms(1) f] wr])
    fix r0 assume a: "booking (q_ID q) u = Some r0" "booking (q_ID q) v = Some (status_update q r0)"
      "\<And>k. k \<noteq> q_ID q \<Longrightarrow> booking k v = booking k u"
    have "r0 = r" using a(1) r(1) bu id by simp
    then have "booking qid w' = Some (r\<lparr>q_Status := StatusCanceled, q_CanceledAt := Some (w_now w)\<rparr>)"
      using a(2) id now by (simp add: w' booking_def status_update_def q)
    moreover have "booking k w' = booking k w" if "k \<noteq> qid" for k
      using a(3) that id bu by (simp add: w' booking_def)
    ultimately show ?thesis using that r(1,2) st by simp
  qed simp
qed

lemma Pause_Inr:
  assumes "queue_ok w" "Pause qid w = (Inr q, w')"
  obtains r where "booking qid w = Some r" "q_Status r = StatusWashing" "q_PausedAt r = None"
    "booking qid w' = Some (r\<lparr>q_PausedAt := Some (w_now w)\<rparr>)"
    "\<And>k. k \<noteq> qid \<Longrightarrow> booking k w' = booking k w"
proof -
  from assms(2) obtain q0 u v where f: "QueueRepo_FindByID qid w = (Inr q0, u)"
    and st: "q_Status q0 = StatusWashing" "q_PausedAt q0 = None"
    and q: "q = q0\<lparr>q_PausedAt := Some (w_now u)\<rparr>"
    and wr: "UpdatePausedAt q u = (Inr (), v)"
    and w': "w' = v\<lparr>w_published := w_published v @ [q_WashingPointID q0]\<rparr>"
    unfolding Pause_def Let_def Publish_def time_Now_def by (auto elim!: bindE_InrE split: if_split_asm)
  obtain r its where r: "booking qid w = Some r" "q0 = r\<lparr>q_Items := its\<rparr>" "same_tables w u"
    by (rule QueueRepo_FindByID_Inr [OF f])
  have id: "q_ID q = qid" using booking_SomeD [OF r(1)] by (simp add: q r(2))
  have bu: "booking k u = booking k w" for k by (rule queue_ok_same [OF r(3)])
  have now: "w_now u = w_now w" using same_tablesD(15) [OF r(3)] by simp
  show ?thesis
  proof (rule pause_write [OF FindByID_ok [OF assms(1) f] wr])
    fix r0 assume a: "booking (q_ID q) u = Some r0" "booking (q_ID q) v = Some (r0\<lparr>q_PausedAt := q_PausedAt q\<rparr>)"
      "\<And>k. k \<noteq> q_ID q \<Longrightarrow> booking k v = booking k u"
    have "r0 = r" using a(1) r(1) bu id by simp
    then have "booking qid w' = Some (r\<lparr>q_PausedAt := Some (w_now w)\<rparr>)"
      using a(2) id now by (simp add: w' booking_def q)
    moreover have "booking k w' = booking k w" if "k \<noteq> qid" for k
      using a(3) that id bu by (simp add: w' booking_def)
    ultimately show ?thesis using that r(1,2) st by simp
  qed simp
qed

lemma Resume_Inr:
  assumes "queue_ok w" "Resume qid w = (Inr q, w')"
  obtains r t where "booking qid w = Some r" "q_Status r = StatusWashing" "q_PausedAt r = Some t"
    "booking qid w' = Some (r\<lparr>q_PausedAt := None\<rparr>)"
    "\<And>k. k \<noteq> qid \<Longrightarrow> booking k w' = booking k w"
proof -
  from assms(2) obtain q0 u v where f: "QueueRepo_FindByID qid w = (Inr q0, u)"
    and st: "q_Status q0 = StatusWashing" "q_PausedAt q0 \<noteq> None"
    and q: "q = q0\<lparr>q_PausedAt := None\<rparr>"
    and wr: "UpdatePausedAt q u = (Inr (), v)"
    and w': "w' = v\<lparr>w_published := w_published v @ [q_WashingPointID q0]\<rparr>"
    unfolding Resume_def Let_def Publish_def by (auto elim!: bindE_InrE split: if_split_asm)
  obtain r its where r: "booking qid w = Some r" "q0 = r\<lparr>q_Items := its\<rparr>" "same_tables w u"
    by (rule QueueRepo_FindByID_Inr [OF f])
  have id: "q_ID q = qid" using booking_SomeD [OF r(1)] by (simp add: q r(2))
  have bu: "booking k u = booking k w" for k by (rule queue_ok_same [OF r(3)])
  show ?thesis
  proof (rule pause_write [OF FindByID_ok [OF assms(1) f] wr])
    fix r0 assume a: "booking (q_ID q) u = Some r0" "booking (q_ID q) v = Some (r0\<lparr>q_PausedAt := q_PausedAt q\<rparr>)"
      "\<And>k. k \<noteq> q_ID q \<Longrightarrow> booking k v = booking k u"
    have "r0 = r" using a(1) r(1) bu id by simp
    then have "booking qid w' = Some (r\<lparr>q_PausedAt := None\<rparr>)"
      using a(2) id by (simp add: w' booking_def q)
    moreover have "booking k w' = booking k w" if "k \<noteq> qid" for k
      using a(3) that id bu by (simp add: w' booking_def)
    ultimately show ?thesis using that r(1,2) st by auto
  qed simp
qed

text \<open>
  C29 Pause and resume are inverse: whenever both succeed one after the other the booking (and every
  other one) is exactly as it was, and it was being washed the whole time.
\<close>

theorem pause_resume_roundtrip:
  assumes "queue_ok w" "Pause qid w = (Inr q, u)" "Resume qid u = (Inr q', w')"
  shows "(\<forall>k. booking k w' = booking k w) \<and> (\<exists>r. booking qid w = Some r \<and> q_Status r = StatusWashing) \<and>
    (\<exists>r. booking qid u = Some r \<and> q_PausedAt r = Some (w_now w))"
proof -
  obtain r where r: "booking qid w = Some r" "q_Status r = StatusWashing" "q_PausedAt r = None"
    "booking qid u = Some (r\<lparr>q_PausedAt := Some (w_now w)\<rparr>)" "\<And>k. k \<noteq> qid \<Longrightarrow> booking k u = booking k w"
    by (rule Pause_Inr [OF assms(1,2)]) blast
  obtain s where s: "booking qid u = Some s" "booking qid w' = Some (s\<lparr>q_PausedAt := None\<rparr>)"
    "\<And>k. k \<noteq> qid \<Longrightarrow> booking k w' = booking k u"
    by (rule Resume_Inr [OF preservesD [OF Pause_ok assms(1,2)] assms(3)]) blast
  have "s\<lparr>q_PausedAt := None\<rparr> = r" using s(1) r(3,4) by (cases r) auto
  then have "booking k w' = booking k w" for k
    using s(2,3) r(1,5) by (cases "k = qid") auto
  with r show ?thesis by auto
qed

theorem pause_resume_roundtrip_witness:
  "\<exists>q u q' w'. Pause 52 busy_world = (Inr q, u) \<and> Resume 52 u = (Inr q', w') \<and>
     booking 52 w' = booking 52 busy_world"
proof -
  have "is_ok (fst (Pause 52 busy_world)) \<and> is_ok (fst (Resume 52 (snd (Pause 52 busy_world))))" by code_simp
  then obtain q u where p: "Pause 52 busy_world = (Inr q, u)" and "is_ok (fst (Resume 52 u))"
    by (cases "Pause 52 busy_world") (auto simp: is_ok_def split: sum.splits)
  then obtain q' w' where r: "Resume 52 u = (Inr q', w')"
    by (cases "Resume 52 u") (auto simp: is_ok_def split: sum.splits)
  from pause_resume_roundtrip [OF busy_world_ok(1) p r] p r show ?thesis by blast
qed

section \<open>Interleaved requests\<close>

datatype request = ReqCancel uuid | ReqStatus uuid Status | ReqPause uuid | ReqResume uuid

primrec req_id :: "request \<Rightarrow> uuid" where
  "req_id (ReqCancel i) = i"
| "req_id (ReqStatus i st) = i"
| "req_id (ReqPause i) = i"
| "req_id (ReqResume i) = i"

datatype pending =
  PStatus Queue Status
| PPaused Queue
| PBook bookingPlan Queue
| PManual bookingPlan CreateManualBookingInput

text \<open>What a request decides to write, from the row it read.\<close>

fun decide :: "request \<Rightarrow> time \<Rightarrow> Queue \<Rightarrow> pending option" where
  "decide (ReqCancel i) now q =
     (if q_Status q = StatusQueue \<or> q_Status q = StatusWaiting
      then Some (PStatus (q\<lparr>q_Status := StatusCanceled, q_CanceledAt := Some now\<rparr>) (q_Status q)) else None)"
| "decide (ReqStatus i st) now q =
     (if st \<in> set (staffStatusTransitions (q_Status q))
      then Some (PStatus (q\<lparr>q_Status := st,
             q_CanceledAt := (if st = StatusQueue then None else q_CanceledAt q)\<rparr>) (q_Status q)) else None)"
| "decide (ReqPause i) now q =
     (if q_Status q = StatusWashing \<and> q_PausedAt q = None
      then Some (PPaused (q\<lparr>q_PausedAt := Some now\<rparr>)) else None)"
| "decide (ReqResume i) now q =
     (if q_Status q = StatusWashing \<and> q_PausedAt q \<noteq> None
      then Some (PPaused (q\<lparr>q_PausedAt := None\<rparr>)) else None)"

primrec write_pending :: "(string \<Rightarrow> string) \<Rightarrow> pending \<Rightarrow> unit db" where
  "write_pending pl (PStatus q s) = QueueRepo_UpdateStatus q s"
| "write_pending pl (PPaused q) = UpdatePausedAt q"
| "write_pending pl (PBook plan q) = bindE (insertLocked plan q return_ok) (\<lambda>_. return_ok ())"
| "write_pending pl (PManual plan inp) =
     bindE (insertLocked plan (manual_booking inp plan) (attach_client pl inp)) (\<lambda>_. return_ok ())"

primrec serve :: "request \<Rightarrow> Queue db" where
  "serve (ReqCancel i) = CancelBooking i"
| "serve (ReqStatus i st) = UpdateStatus None i st"
| "serve (ReqPause i) = Pause i"
| "serve (ReqResume i) = Resume i"

text \<open>Each operation of the manager is its read, its decision, its write and the announcement.\<close>

lemma serve_splits:
  assumes "serve req w = (Inr q, w')"
  shows "\<exists>q0 u p v. QueueRepo_FindByID (req_id req) w = (Inr q0, u) \<and> decide req (w_now u) q0 = Some p \<and>
    write_pending pl p u = (Inr (), v) \<and> w' = v\<lparr>w_published := w_published v @ [q_WashingPointID q0]\<rparr>"
proof (cases req)
  case (ReqCancel i)
  with assms obtain x t v where c: "QueueRepo_FindByID i w = (Inr x, t)"
    "q_Status x = StatusQueue \<or> q_Status x = StatusWaiting"
    "QueueRepo_UpdateStatus (x\<lparr>q_Status := StatusCanceled, q_CanceledAt := Some (w_now t)\<rparr>) (q_Status x) t = (Inr (), v)"
    "w' = v\<lparr>w_published := w_published v @ [q_WashingPointID x]\<rparr>"
    by (auto simp: CancelBooking_def Let_def Publish_def time_Now_def elim!: bindE_InrE split: if_split_asm)
  show ?thesis
    by (intro exI [of _ x] exI [of _ t] exI [of _ v]
        exI [of _ "PStatus (x\<lparr>q_Status := StatusCanceled, q_CanceledAt := Some (w_now t)\<rparr>) (q_Status x)"])
      (use c in \<open>simp add: ReqCancel\<close>)
next
  case (ReqStatus i st)
  let ?f = "\<lambda>x. x\<lparr>q_Status := st, q_CanceledAt := (if st = StatusQueue then None else q_CanceledAt x)\<rparr>"
  from assms ReqStatus obtain x t v where c: "QueueRepo_FindByID i w = (Inr x, t)"
    "st \<in> set (staffStatusTransitions (q_Status x))"
    "QueueRepo_UpdateStatus (?f x) (q_Status x) t = (Inr (), v)"
    "w' = v\<lparr>w_published := w_published v @ [q_WashingPointID x]\<rparr>"
    by (auto simp: UpdateStatus_def Let_def Publish_def elim!: bindE_InrE split: if_split_asm)
  show ?thesis
    by (intro exI [of _ x] exI [of _ t] exI [of _ v] exI [of _ "PStatus (?f x) (q_Status x)"])
      (use c in \<open>simp add: ReqStatus\<close>)
next
  case (ReqPause i)
  with assms show ?thesis
    by (fastforce simp: Pause_def Let_def Publish_def time_Now_def elim!: bindE_InrE split: if_split_asm)
next
  case (ReqResume i)
  with assms show ?thesis
    by (fastforce simp: Resume_def Let_def Publish_def elim!: bindE_InrE split: if_split_asm)
qed

type_synonym config = "world \<times> pending list"

inductive step :: "(string \<Rightarrow> string) \<Rightarrow> config \<Rightarrow> config \<Rightarrow> bool" for pl where
  step_read: "QueueRepo_FindByID (req_id req) w = (Inr q, u) \<Longrightarrow> decide req (w_now u) q = Some p \<Longrightarrow>
    step pl (w, ps) (u, p # ps)"
| step_write: "p \<in> set ps \<Longrightarrow> write_pending pl p w = (r, u) \<Longrightarrow> step pl (w, ps) (u, remove1 p ps)"
| step_plan: "planBooking (cb_Items inp) (cb_BoxNumber inp) (cb_ScheduledStartAt inp) True False None w = (Inr plan, u) \<Longrightarrow>
    step pl (w, ps) (u, PBook plan (app_booking inp plan) # ps)"
| step_plan_manual: "planBooking (mb_Items minp) (mb_BoxNumber minp) (mb_ScheduledStartAt minp) False
      (mb_Overflow minp) (Some (mb_WashingPointID minp)) w = (Inr plan, u) \<Longrightarrow>
    step pl (w, ps) (u, PManual plan minp # ps)"
| step_other: "w_queue u = w_queue w \<Longrightarrow> w_next w \<le> w_next u \<Longrightarrow> step pl (w, ps) (u, ps)"

inductive_cases stepE: "step pl (w, ps) c"

definition pend_ok :: "pending \<Rightarrow> bool" where
  "pend_ok p \<longleftrightarrow>
     (case p of
        PStatus q s \<Rightarrow> edge s (q_Status q) \<and> (q_Status q = StatusCanceled \<longrightarrow> q_CanceledAt q \<noteq> None)
      | PPaused q \<Rightarrow> True
      | PBook plan q \<Rightarrow> q_Status q = StatusQueue \<and> q_CanceledAt q = None
      | PManual plan inp \<Rightarrow> True)"

lemma decide_ok: "decide req now q = Some p \<Longrightarrow> pend_ok p"
  by (cases req) (auto simp: pend_ok_def edge_def dest: staff_from_canceled split: if_splits)

definition config_ok :: "config \<Rightarrow> bool" where
  "config_ok c \<longleftrightarrow> queue_ok (fst c) \<and> (\<forall>p \<in> set (snd c). pend_ok p)"

lemma write_pending_ok:
  assumes "pend_ok p"
  shows "preserves queue_ok (write_pending pl p)"
proof (cases p)
  case (PStatus q s)
  with assms have "edge s (q_Status q)" "q_Status q = StatusCanceled \<longrightarrow> q_CanceledAt q \<noteq> None"
    by (auto simp: pend_ok_def)
  then show ?thesis unfolding PStatus write_pending.simps
    by (intro QueueRepo_UpdateStatus_ok) (auto simp: edge_cases)
next
  case (PPaused q)
  then show ?thesis by (simp add: UpdatePausedAt_ok)
next
  case (PBook plan q)
  with assms show ?thesis unfolding PBook write_pending.simps
    by (intro preserves_bindE insertLocked_ok preserves_pure) (auto simp: pend_ok_def)
next
  case (PManual plan inp)
  have "preserves queue_ok (insertLocked plan (manual_booking inp plan) (attach_client pl inp))"
  proof (rule insertLocked_ok [OF _ attach_client_ok])
    fix w q' w' assume "attach_client pl inp (manual_booking inp plan) w = (Inr q', w')"
    from attach_client_fields(2,3) [OF this] show "q_Status q' = StatusQueue \<and> q_CanceledAt q' = None"
      by (simp add: manual_booking_def)
  qed
  then show ?thesis unfolding PManual write_pending.simps by (intro preserves_bindE preserves_pure)
qed

lemma queue_ok_other: "queue_ok w \<Longrightarrow> w_queue u = w_queue w \<Longrightarrow> w_next w \<le> w_next u \<Longrightarrow> queue_ok u"
  unfolding queue_ok_def by (metis order_less_le_trans)

lemma planBooking_ok: "queue_ok w \<Longrightarrow> planBooking its n s fut ov ex w = (r, u) \<Longrightarrow> queue_ok u"
  by (rule preservesD [OF preserves_reads_only(1) [OF queue_ok_table]])

lemma step_config_ok:
  assumes "step pl c d" "config_ok c"
  shows "config_ok d"
  using assms
proof cases
  case (step_read req w q u p ps)
  with assms(2) show ?thesis using FindByID_ok decide_ok by (fastforce simp: config_ok_def)
next
  case (step_write p ps w r u)
  with assms(2) have "pend_ok p" "queue_ok w" by (auto simp: config_ok_def)
  then have "queue_ok u" using preservesD [OF write_pending_ok _ step_write(4)] by blast
  with assms(2) step_write show ?thesis by (auto simp: config_ok_def dest: set_remove1_subset [THEN subsetD])
next
  case (step_plan inp w plan u ps)
  with assms(2) show ?thesis using planBooking_ok
    by (fastforce simp: config_ok_def pend_ok_def app_booking_def)
next
  case (step_plan_manual minp w plan u ps)
  with assms(2) show ?thesis using planBooking_ok by (fastforce simp: config_ok_def pend_ok_def)
next
  case (step_other u w ps)
  with assms(2) show ?thesis using queue_ok_other [of w u] by (simp add: config_ok_def)
qed

lemma steps_config_ok:
  assumes "(step pl)\<^sup>*\<^sup>* c d" "config_ok c"
  shows "config_ok d"
  using assms by induction (auto intro: step_config_ok)

text \<open>
  C3 No interleaving double-books. From a table without clashes, with requests planned and decided
  on rows that are stale by the time they write and any database statement failing, no reachable
  state has two live bookings in one box at one time, or a customer with two active bookings.
\<close>

theorem interleaving_never_double_books:
  assumes "(step pg_lower)\<^sup>*\<^sup>* (w0, []) (w, ps)" "queue_ok w0"
    and "q \<in> set (w_queue w)" "r \<in> set (w_queue w)" "q_ID q \<noteq> q_ID r"
  shows "\<not> (occupies q \<and> occupies r \<and> q_WashingPointID q = q_WashingPointID r \<and> q_BoxNumber q = q_BoxNumber r \<and>
      overlaps (q_ScheduledStartAt q) (q_ScheduledEndAt q) (q_ScheduledStartAt r) (q_ScheduledEndAt r)) \<and>
    \<not> (active_status (q_Status q) \<and> active_status (q_Status r) \<and> q_UserID q = q_UserID r)"
proof -
  have "config_ok (w, ps)" by (rule steps_config_ok [OF assms(1)]) (simp add: config_ok_def assms(2))
  with assms(3-5) show ?thesis
    by (simp add: config_ok_def queue_ok_def box_clash_def user_clash_def)
qed

lemma grows_table: "table_property (\<lambda>w. prefix rows (w_queue w))"
  by (rule table_propertyI) simp

lemma insert_queue_grows: "preserves (\<lambda>w. prefix rows (w_queue w)) (insert_queue q)"
  unfolding insert_queue_def
  by (rule preserves_statement [OF grows_table], rule preservesI)
    (auto simp: Let_def prefix_def split: option.split)

lemma createItems_grows: "preserves (\<lambda>w. prefix rows (w_queue w)) (createItems qid its)"
  unfolding createItems_def
  by (intro preserves_if preserves_pure preserves_statement [OF grows_table] preservesI)
    (auto simp: Let_def split: option.split)

lemma QueueRepo_Create_grows: "preserves (\<lambda>w. prefix rows (w_queue w)) (QueueRepo_Create q)"
  unfolding QueueRepo_Create_def
  by (intro valid_intros insert_queue_grows createItems_grows)

lemma attach_client_grows: "preserves (\<lambda>w. prefix rows (w_queue w)) (attach_client pl inp q)"
proof -
  have u: "preserves (\<lambda>w. prefix rows (w_queue w)) (UserRepo_Create u)" for u
    unfolding UserRepo_Create_def
    by (rule preserves_statement [OF grows_table], rule preservesI) (simp add: Let_def)
  have c: "preserves (\<lambda>w. prefix rows (w_queue w)) (UpsertForUser pl i n p)" for i n p
    unfolding UpsertForUser_def CarRepo_Create_def Let_def
    by (intro db_preserves preserves_query [OF grows_table] preserves_exec [OF grows_table]
        preserves_statement [OF grows_table] preservesI) simp_all
  show ?thesis unfolding attach_client_def find_or_create_client_def
    by (intro db_preserves preserves_reads_only [OF grows_table] u c)
qed

lemma insertLocked_grows:
  assumes "preserves (\<lambda>w. prefix rows (w_queue w)) (before q)"
  shows "preserves (\<lambda>w. prefix rows (w_queue w)) (insertLocked plan q before)"
  unfolding insertLocked_def
  by (rule preserves_transaction [OF grows_table],
      (rule preserves_bindE, (rule preserves_first_or [OF grows_table]
        | rule preserves_reads_only [OF grows_table] | (rule preserves_if; rule preserves_pure)))+,
      rule preserves_bindE [OF assms QueueRepo_Create_grows])

lemma booking_prefix: "prefix (w_queue w) (w_queue u) \<Longrightarrow> booking k w = Some r \<Longrightarrow> booking k u = Some r"
proof -
  have "find_row q_ID k rows = Some r \<Longrightarrow> find_row q_ID k (rows @ new) = Some r" for rows new
    by (induction rows) auto
  then show "prefix (w_queue w) (w_queue u) \<Longrightarrow> booking k w = Some r \<Longrightarrow> booking k u = Some r"
    by (auto simp: booking_def prefix_def)
qed

text \<open>What never changes once a booking is stored.\<close>

definition same_booking :: "Queue \<Rightarrow> Queue \<Rightarrow> bool" where
  "same_booking q r \<longleftrightarrow> r\<lparr>q_Status := q_Status q, q_CanceledAt := q_CanceledAt q, q_PausedAt := q_PausedAt q\<rparr> = q"

lemma status_update_same: "same_booking r (status_update q r)"
  by (cases r) (simp add: same_booking_def status_update_def split: Status.split)

lemma write_pending_moves:
  assumes "queue_ok w" "pend_ok p" "write_pending pl p w = (res, u)" "booking k w = Some r"
  shows "\<exists>r'. booking k u = Some r' \<and> same_booking r r' \<and> (q_Status r' = q_Status r \<or> edge (q_Status r) (q_Status r'))"
proof -
  have refl: "same_booking r r" by (simp add: same_booking_def)
  show ?thesis
  proof (cases p)
    case (PStatus q s)
    with assms(3) have wr: "QueueRepo_UpdateStatus q s w = (res, u)" by simp
    show ?thesis
    proof (rule status_write [OF assms(1) wr])
      fix e assume "same_tables w u"
      with assms(4) refl show ?thesis by (simp add: queue_ok_same)
    next
      fix r0 assume a: "booking (q_ID q) w = Some r0" "q_Status r0 = s"
        "booking (q_ID q) u = Some (status_update q r0)" "\<And>k. k \<noteq> q_ID q \<Longrightarrow> booking k u = booking k w"
      have "edge s (q_Status q)" using assms(2) PStatus by (simp add: pend_ok_def)
      with a assms(4) refl status_update_same [of r0 q] show ?thesis by (cases "k = q_ID q") auto
    qed
  next
    case (PPaused q)
    with assms(3) have wr: "UpdatePausedAt q w = (res, u)" by simp
    show ?thesis
    proof (rule pause_write [OF assms(1) wr])
      fix e assume "same_tables w u"
      with assms(4) refl show ?thesis by (simp add: queue_ok_same)
    next
      fix r0 assume a: "booking (q_ID q) w = Some r0"
        "booking (q_ID q) u = Some (r0\<lparr>q_PausedAt := q_PausedAt q\<rparr>)"
        "\<And>k. k \<noteq> q_ID q \<Longrightarrow> booking k u = booking k w"
      with assms(4) refl show ?thesis by (cases "k = q_ID q") (auto simp: same_booking_def)
    qed
  next
    case (PBook plan q)
    have "preserves (\<lambda>x. prefix (w_queue w) (w_queue x)) (write_pending pl p)"
      unfolding PBook write_pending.simps
      by (intro preserves_bindE preserves_pure insertLocked_grows)
    from preservesD [OF this _ assms(3)] assms(4) refl show ?thesis by (auto dest: booking_prefix)
  next
    case (PManual plan inp)
    have "preserves (\<lambda>x. prefix (w_queue w) (w_queue x)) (write_pending pl p)"
      unfolding PManual write_pending.simps
      by (intro preserves_bindE preserves_pure insertLocked_grows attach_client_grows)
    from preservesD [OF this _ assms(3)] assms(4) refl show ?thesis by (auto dest: booking_prefix)
  qed
qed

lemma step_moves:
  assumes "step pl (w, ps) (u, qs)" "config_ok (w, ps)" "booking k w = Some r"
  shows "\<exists>r'. booking k u = Some r' \<and> same_booking r r' \<and> (q_Status r' = q_Status r \<or> edge (q_Status r) (q_Status r'))"
proof -
  have same: ?thesis if "booking k u = booking k w"
    using that assms(3) by (simp add: same_booking_def)
  show ?thesis using assms(1)
  proof cases
    case (step_read req q p)
    from step_read(2) have "same_tables w u" by (rule read_onlyD [OF read_only_FindByID])
    then show ?thesis by (intro same queue_ok_same)
  next
    case (step_write p res)
    with assms(2) have "queue_ok w" "pend_ok p" by (auto simp: config_ok_def)
    then show ?thesis by (rule write_pending_moves [OF _ _ step_write(3) assms(3)])
  next
    case (step_plan inp plan)
    from step_plan(2) have "same_tables w u" by (rule read_onlyD [OF read_only_planBooking])
    then show ?thesis by (intro same queue_ok_same)
  next
    case (step_plan_manual minp plan)
    from step_plan_manual(2) have "same_tables w u" by (rule read_onlyD [OF read_only_planBooking])
    then show ?thesis by (intro same queue_ok_same)
  next
    case step_other
    then show ?thesis by (intro same booking_cong) simp
  qed
qed

text \<open>
  C4 In every interleaving a stored booking stays: each single step either leaves its status or
  moves it along an edge of the graph, and nothing but the status, \<open>canceled_at\<close> and \<open>paused_at\<close>
  ever changes. So a cancel racing a "start washing" cannot resurrect a canceled booking, and a
  finished wash stays finished.
\<close>

theorem interleaved_bookings_follow_graph:
  assumes "(step pg_lower)\<^sup>*\<^sup>* (w0, []) (w, ps)" "queue_ok w0" "step pg_lower (w, ps) (u, qs)"
    and "booking k w = Some r"
  shows "\<exists>r'. booking k u = Some r' \<and> same_booking r r' \<and>
    (q_Status r' = q_Status r \<or> edge (q_Status r) (q_Status r')) \<and>
    (q_Status r = StatusReady \<longrightarrow> q_Status r' = StatusReady) \<and>
    (q_Status r = StatusCanceled \<longrightarrow> q_Status r' \<in> {StatusCanceled, StatusQueue})"
proof -
  have "config_ok (w, ps)" by (rule steps_config_ok [OF assms(1)]) (simp add: config_ok_def assms(2))
  from step_moves [OF assms(3) this assms(4)] show ?thesis
    by (cases "q_Status r") (auto simp: edge_cases)
qed

text \<open>The run of one cancellation as steps: the read, then the write.\<close>

lemma cancel_run:
  obtains q u p v where "step id (busy_world, []) (u, [p])" "step id (u, [p]) (v, [])"
    "booking 50 u = booking 50 busy_world" "\<And>k. k \<noteq> 50 \<Longrightarrow> booking k v = booking k busy_world"
    "\<exists>r. booking 50 v = Some r \<and> q_Status r = StatusCanceled"
proof -
  have "is_ok (fst (CancelBooking 50 busy_world))" by code_simp
  then obtain q w' where r: "CancelBooking 50 busy_world = (Inr q, w')"
    by (cases "CancelBooking 50 busy_world") (auto simp: is_ok_def split: sum.splits)
  from serve_splits [of "ReqCancel 50" busy_world q w'] r
  obtain q0 u p v where s: "QueueRepo_FindByID 50 busy_world = (Inr q0, u)"
    "decide (ReqCancel 50) (w_now u) q0 = Some p" "write_pending id p u = (Inr (), v)"
    "w' = v\<lparr>w_published := w_published v @ [q_WashingPointID q0]\<rparr>"
    by (metis req_id.simps(1) serve.simps(1))
  have b: "booking k w' = booking k v" for k by (simp add: s(4) booking_def)
  have "step id (busy_world, []) (u, [p])"
    using step_read [of "ReqCancel 50" busy_world q0 u p id "[]"] s(1,2) by simp
  moreover have "step id (u, [p]) (v, [])" using step_write [of p "[p]" id u "Inr ()" v] s(3) by simp
  moreover have "booking 50 u = booking 50 busy_world"
    by (rule queue_ok_same [OF read_onlyD [OF read_only_FindByID s(1)]])
  moreover have "\<exists>r. booking 50 v = Some r \<and> q_Status r = StatusCanceled"
    by (rule CancelBooking_Inr [OF busy_world_ok(1) r]) (simp add: b)
  moreover have "booking k v = booking k busy_world" if "k \<noteq> 50" for k
    by (rule CancelBooking_Inr [OF busy_world_ok(1) r]) (simp add: b that)
  ultimately show ?thesis by (intro that)
qed

theorem interleaved_bookings_follow_graph_witness:
  "\<exists>u p v r'. step id (busy_world, []) (u, [p]) \<and> step id (u, [p]) (v, []) \<and> booking 50 v = Some r' \<and>
     q_Status r' = StatusCanceled \<and> same_booking (sample_booking 50 7 StatusWaiting (5 * Hour)) r'"
proof -
  obtain q u p v where s: "step id (busy_world, []) (u, [p])" "step id (u, [p]) (v, [])"
    "booking 50 u = booking 50 busy_world" "\<exists>r. booking 50 v = Some r \<and> q_Status r = StatusCanceled"
    by (rule cancel_run) blast
  have "booking 50 u = Some (sample_booking 50 7 StatusWaiting (5 * Hour))"
    unfolding s(3) by (simp add: booking_def busy_world_def sample_booking_def)
  from interleaved_bookings_follow_graph [OF r_into_rtranclp [where r = "step id", OF s(1)] busy_world_ok(1) s(2) this] s
  show ?thesis by (metis option.inject)
qed

theorem interleaving_never_double_books_witness:
  "\<exists>v q r. (step id)\<^sup>*\<^sup>* (busy_world, []) (v, []) \<and> booking 50 v = Some q \<and> q_Status q = StatusCanceled \<and>
     booking 52 v = Some r \<and> \<not> (active_status (q_Status q) \<and> active_status (q_Status r) \<and> q_UserID q = q_UserID r)"
proof -
  obtain q u p v where s: "step id (busy_world, []) (u, [p])" "step id (u, [p]) (v, [])"
    "booking 52 v = booking 52 busy_world" "\<exists>r. booking 50 v = Some r \<and> q_Status r = StatusCanceled"
    by (rule cancel_run) auto
  then obtain q where q: "booking 50 v = Some q" "q_Status q = StatusCanceled" by blast
  obtain r where r: "booking 52 v = Some r"
    using s(3) by (simp add: booking_def busy_world_def sample_booking_def)
  have run: "(step id)\<^sup>*\<^sup>* (busy_world, []) (v, [])"
    by (rule rtranclp_trans [OF r_into_rtranclp [where r = "step id", OF s(1)]
          r_into_rtranclp [where r = "step id", OF s(2)]])
  have "q \<in> set (w_queue v)" "r \<in> set (w_queue v)" "q_ID q \<noteq> q_ID r"
    using booking_SomeD [OF q(1)] booking_SomeD [OF r] by auto
  from interleaving_never_double_books [OF run busy_world_ok(1) this] run q r show ?thesis by blast
qed

end
