(* ===== verification/Phone.thy ===== *)
theory Phone
  imports Platform
begin

text \<open>
  The phone numbers of \<open>internal/auth/service.go\<close>: the E.164 check and the normalisation of what
  staff type in. Strings are their UTF-8 bytes; a byte of a multi-byte character is no digit and
  no separator, so walking the bytes takes the same branches as Go's walk over the runes.
\<close>

text \<open>\<open>^\\+[1-9]\\d{6,14}$\<close>\<close>

definition phoneRegexp :: "string \<Rightarrow> bool" where
  "phoneRegexp s =
     (case s of
        c # d # ds \<Rightarrow> c = CHR ''+'' \<and> is_digit d \<and> d \<noteq> CHR ''0'' \<and> list_all is_digit ds \<and>
          6 \<le> length ds \<and> length ds \<le> 14
      | _ \<Rightarrow> False)"

definition ValidatePhoneNumber :: "string \<Rightarrow> apperror + unit" where
  "ValidatePhoneNumber phone =
     (if phoneRegexp phone then Inr () else Inl (BadRequest ''invalid_phone_number''))"

definition DefaultCountryCode :: string where "DefaultCountryCode = ''992''"

text \<open>The loop: whether a plus came first, and the digits; \<open>None\<close> at an unexpected character.\<close>

fun phone_digits :: "bool \<Rightarrow> string \<Rightarrow> (bool \<times> string) option" where
  "phone_digits first [] = Some (False, [])"
| "phone_digits first (c # cs) =
     (if c = CHR ''+'' \<and> first then map_option (\<lambda>(p, ds). (True, ds)) (phone_digits False cs)
      else if is_digit c then map_option (\<lambda>(p, ds). (p, c # ds)) (phone_digits False cs)
      else if c \<in> set '' -().'' then phone_digits False cs
      else None)"

text \<open>On an unexpected character the source returns the empty string and the verdict on the input.\<close>

definition NormalizePhoneNumber :: "string \<Rightarrow> apperror + string" where
  "NormalizePhoneNumber raw =
     (case phone_digits True (TrimSpace raw) of
        None \<Rightarrow> (case ValidatePhoneNumber raw of Inl e \<Rightarrow> Inl e | Inr _ \<Rightarrow> Inr [])
      | Some (explicitPlus, d) \<Rightarrow>
          (let d' = (if explicitPlus then d
                     else if HasPrefix d ''00'' then drop 2 d
                     else if HasPrefix d DefaultCountryCode then d
                     else DefaultCountryCode @ TrimPrefix d ''0'');
               phone = CHR ''+'' # d'
           in case ValidatePhoneNumber phone of Inl e \<Rightarrow> Inl e | Inr _ \<Rightarrow> Inr phone))"

lemma phone_digits_later: "phone_digits False cs = Some (p, ds) \<Longrightarrow> \<not> p"
  by (induction cs arbitrary: p ds) (auto split: if_splits)

lemma phone_digits_all: "phone_digits b cs = Some (p, ds) \<Longrightarrow> list_all is_digit ds"
  by (induction cs arbitrary: b p ds) (auto split: if_splits)

lemma phone_digits_of_digits: "list_all is_digit ds \<Longrightarrow> phone_digits b ds = Some (False, ds)"
proof (induction ds arbitrary: b)
  case (Cons c ds)
  then have "c \<noteq> CHR ''+''" using digit_not_sign by auto
  with Cons show ?case by simp
qed simp

lemma phone_digits_of_phone: "list_all is_digit ds \<Longrightarrow> phone_digits True (CHR ''+'' # ds) = Some (True, ds)"
  by (simp add: phone_digits_of_digits)

lemma phoneRegexpE:
  assumes "phoneRegexp s"
  obtains ds where "s = CHR ''+'' # ds" "list_all is_digit ds" "7 \<le> length ds" "length ds \<le> 15" "hd ds \<noteq> CHR ''0''"
  using assms that [of "tl s"] by (auto simp: phoneRegexp_def split: list.splits)

text \<open>A trimmed string of printable ASCII is its own trimming.\<close>

lemma TrimSpace_phone:
  assumes "phoneRegexp s"
  shows "TrimSpace s = s"
proof -
  obtain ds where s: "s = CHR ''+'' # ds" "list_all is_digit ds" "7 \<le> length ds"
    using phoneRegexpE [OF assms] by metis
  then have "last s \<in> set ds" "ds \<noteq> []" by auto
  then have "is_digit (last s)" using s(2) by (simp add: list_all_iff)
  then show ?thesis using s(1) not_space_bytes by (intro TrimSpace_id) auto
qed

lemma phone_digits_None_invalid:
  assumes "phone_digits True (TrimSpace raw) = None"
  shows "\<not> phoneRegexp raw"
proof
  assume r: "phoneRegexp raw"
  obtain ds where "raw = CHR ''+'' # ds" "list_all is_digit ds" using phoneRegexpE [OF r] by metis
  with assms TrimSpace_phone [OF r] show False by (simp add: phone_digits_of_digits)
qed

text \<open>
  Whatever staff type, normalisation either refuses it or returns a valid E.164 number, never the
  empty string its unexpected-character branch could return; and a valid number, typed with any
  plus-prefixed spelling of itself, comes back unchanged, so normalising twice changes nothing.
\<close>

theorem NormalizePhoneNumber_sound:
  "(NormalizePhoneNumber raw = Inr phone \<longrightarrow> phoneRegexp phone \<and> NormalizePhoneNumber phone = Inr phone) \<and>
   (phoneRegexp raw \<longrightarrow> NormalizePhoneNumber raw = Inr raw)"
proof -
  have valid: "NormalizePhoneNumber p = Inr p" if p: "phoneRegexp p" for p
  proof -
    obtain ds where ds: "p = CHR ''+'' # ds" "list_all is_digit ds" using phoneRegexpE [OF p] by metis
    then have "phone_digits True (TrimSpace p) = Some (True, ds)"
      using TrimSpace_phone [OF p] phone_digits_of_phone by simp
    with p ds(1) show ?thesis by (simp add: NormalizePhoneNumber_def ValidatePhoneNumber_def)
  qed
  have "phoneRegexp phone" if "NormalizePhoneNumber raw = Inr phone"
    using that phone_digits_None_invalid [of raw]
    by (auto simp: NormalizePhoneNumber_def ValidatePhoneNumber_def Let_def
        split: option.splits if_splits)
  with valid show ?thesis by blast
qed

theorem NormalizePhoneNumber_sound_witness:
  "NormalizePhoneNumber ''(900) 00-00-01'' = Inr ''+992900000001'' \<and> phoneRegexp ''+992900000001''"
proof -
  have "NormalizePhoneNumber ''(900) 00-00-01'' = Inr ''+992900000001''" by code_simp
  with NormalizePhoneNumber_sound [of "''(900) 00-00-01''" "''+992900000001''"] show ?thesis by blast
qed

text \<open>
  A local number and the same number with the country code are different accounts only if they
  differ: both spellings normalise to one string.
\<close>

lemma local_and_international:
  assumes "list_all is_digit ds" "length ds = 9" "hd ds \<noteq> CHR ''0''" "\<not> HasPrefix ds DefaultCountryCode"
  shows "NormalizePhoneNumber ds = Inr (''+992'' @ ds) \<and> NormalizePhoneNumber (''992'' @ ds) = Inr (''+992'' @ ds) \<and>
    NormalizePhoneNumber (''0'' @ ds) = Inr (''+992'' @ ds) \<and> NormalizePhoneNumber (''00992'' @ ds) = Inr (''+992'' @ ds)"
proof -
  have ne: "ds \<noteq> []" using assms(2) by auto
  have d: "is_digit (CHR ''0'')" "is_digit (CHR ''9'')" "is_digit (CHR ''2'')" by code_simp+
  have trim: "TrimSpace s = s" if "list_all is_digit s" "s \<noteq> []" for s
    using that not_space_bytes(1) by (intro TrimSpace_id) (auto simp: list_all_iff)
  obtain c cs where c: "ds = c # cs" "c \<noteq> CHR ''0''" using ne assms(3) by (cases ds) auto
  have plus: "c \<noteq> CHR ''+''" using digit_not_sign [of c] assms(1) c(1) by simp
  have v: "phoneRegexp (''+992'' @ ds)" using assms(1,2) d by (simp add: phoneRegexp_def)
  show ?thesis
    using assms(1,4) ne c v d plus
    by (auto simp: NormalizePhoneNumber_def trim phone_digits_of_digits ValidatePhoneNumber_def HasPrefix_def
        TrimPrefix_def DefaultCountryCode_def Let_def)
qed

end
