(* ===== verification/Slots.thy ===== *)
theory Slots
  imports Booking
begin

text \<open>
  The request parsers of \<open>internal/queue\<close> and its two slot endpoints: the public
  \<open>availability\<close> and the staff's \<open>overflowSlots\<close>. The text forms of identifiers are read by
  the parameter \<open>uuid_parse\<close>; query parameters are strings, empty when absent. The last section
  connects the slots offered with the bookings accepted.
\<close>

section \<open>Parsing requests\<close>

text \<open>\<open>time.Parse("2006-01-02", s)\<close>: four, two and two digits that name a day of the calendar.\<close>

definition days_in_month :: "int \<Rightarrow> int \<Rightarrow> int" where
  "days_in_month y m =
     (if m = 2 then (if y mod 4 = 0 \<and> (y mod 100 \<noteq> 0 \<or> y mod 400 = 0) then 29 else 28)
      else if m \<in> {4, 6, 9, 11} then 30 else 31)"

definition date_fields :: "string \<Rightarrow> string \<Rightarrow> string \<Rightarrow> (int \<times> int \<times> int) option" where
  "date_fields ys ms ds =
     (let y = digits_value ys; m = digits_value ms; d = digits_value ds
      in if list_all is_digit (ys @ ms @ ds) \<and> 1 \<le> m \<and> m \<le> 12 \<and> 1 \<le> d \<and> d \<le> days_in_month y m
         then Some (y, m, d) else None)"

fun parse_date :: "string \<Rightarrow> (int \<times> int \<times> int) option" where
  "parse_date [y1, y2, y3, y4, s1, m1, m2, s2, d1, d2] =
     (if s1 = CHR ''-'' \<and> s2 = CHR ''-'' then date_fields [y1, y2, y3, y4] [m1, m2] [d1, d2] else None)"
| "parse_date _ = None"

definition utc_midnight :: "int \<times> int \<times> int \<Rightarrow> time" where
  "utc_midnight ymd = (case ymd of (y, m, d) \<Rightarrow> days_from_civil y m d * Day)"

definition local_midnight :: "int \<times> int \<times> int \<Rightarrow> time" where
  "local_midnight ymd = (case ymd of (y, m, d) \<Rightarrow> time_Date y m d 0 0)"

definition dayFromQuery :: "string \<Rightarrow> time db" where
  "dayFromQuery raw =
     (if raw = [] then time_Now
      else case parse_date raw of
        None \<Rightarrow> fail_with (BadRequest ''invalid_date'')
      | Some ymd \<Rightarrow> return_ok (local_midnight ymd))"

definition parseUUIDField :: "(string \<Rightarrow> uuid option) \<Rightarrow> string \<Rightarrow> string \<Rightarrow> apperror + uuid" where
  "parseUUIDField uuid_parse raw field =
     (case uuid_parse raw of None \<Rightarrow> Inl (BadRequest (''invalid_'' @ field)) | Some k \<Rightarrow> Inr k)"

record bookingItemRequest =
  ir_service_id :: string
  ir_price_option_id :: string

fun parse_items :: "(string \<Rightarrow> uuid option) \<Rightarrow> bookingItemRequest list \<Rightarrow> apperror + BookingItem list" where
  "parse_items uuid_parse [] = Inr []"
| "parse_items uuid_parse (it # its) =
     (case parseUUIDField uuid_parse (ir_service_id it) ''service_id'' of
        Inl e \<Rightarrow> Inl e
      | Inr sid \<Rightarrow>
        (case parseUUIDField uuid_parse (ir_price_option_id it) ''price_option_id'' of
           Inl e \<Rightarrow> Inl e
         | Inr oid \<Rightarrow>
           (case parse_items uuid_parse its of
              Inl e \<Rightarrow> Inl e
            | Inr parsed \<Rightarrow> Inr (\<lparr>bi_ServiceID = sid, bi_PriceOptionID = oid\<rparr> # parsed))))"

definition parseBookingItems ::
  "(string \<Rightarrow> uuid option) \<Rightarrow> bookingItemRequest list \<Rightarrow> string \<Rightarrow> string \<Rightarrow> apperror + BookingItem list" where
  "parseBookingItems uuid_parse items legacyServiceID legacyPriceOptionID =
     parse_items uuid_parse
       (if items = [] then [\<lparr>ir_service_id = legacyServiceID, ir_price_option_id = legacyPriceOptionID\<rparr>]
        else items)"

definition parseScheduledStart :: "(string \<Rightarrow> time option) \<Rightarrow> string \<Rightarrow> apperror + time" where
  "parseScheduledStart parse_RFC3339 raw =
     (case parse_RFC3339 raw of None \<Rightarrow> Inl (BadRequest ''invalid_scheduled_start_at'') | Some t \<Rightarrow> Inr t)"

fun parse_ids :: "(string \<Rightarrow> uuid option) \<Rightarrow> uuid list \<Rightarrow> string list \<Rightarrow> apperror + uuid list" where
  "parse_ids uuid_parse ids [] = Inr ids"
| "parse_ids uuid_parse ids (p # ps) =
     (case uuid_parse (TrimSpace p) of
        None \<Rightarrow> Inl (BadRequest ''invalid_service_ids'')
      | Some k \<Rightarrow> if k \<in> set ids then Inl (BadRequest ''invalid_service_ids'')
                  else parse_ids uuid_parse (ids @ [k]) ps)"

definition parseAvailabilityServiceIDs ::
  "(string \<Rightarrow> uuid option) \<Rightarrow> string \<Rightarrow> string \<Rightarrow> apperror + uuid list" where
  "parseAvailabilityServiceIDs uuid_parse rawList rawSingle =
     (if rawList = []
      then (case uuid_parse rawSingle of
              None \<Rightarrow> Inl (BadRequest ''invalid_service_id'') | Some k \<Rightarrow> Inr [k])
      else (let parts = split_char (CHR '','') rawList
            in if length parts > maxBookingItems then Inl (BadRequest ''invalid_service_ids'')
               else parse_ids uuid_parse [] parts))"

definition ownWashingPointID ::
  "(string \<Rightarrow> uuid option) \<Rightarrow> AuthUser option \<Rightarrow> string \<Rightarrow> uuid db" where
  "ownWashingPointID uuid_parse ctx rawID =
     bindE (lift_result (AuthUserFrom ctx)) (\<lambda>authUser.
     bindE (lift_result (ParseUUIDParam uuid_parse rawID)) (\<lambda>pid.
     bindE (require (OwnsWashingPoint authUser pid) (NotFound ''washing_point_not_found'')) (\<lambda>_.
     return_ok pid)))"

section \<open>Slots\<close>

record slotResponse =
  sr_start :: time
  sr_end :: time
  sr_available_boxes :: "int list"

definition slot_item :: "SlotWithBoxes \<Rightarrow> slotResponse" where
  "slot_item s = \<lparr>sr_start = sl_Start s, sr_end = sl_End s, sr_available_boxes = sl_AvailableBoxes s\<rparr>"

definition add_minutes :: "uuid \<Rightarrow> int \<Rightarrow> uuid \<Rightarrow> int db" where
  "add_minutes pid acc serviceID =
     bindE (ServiceRepo_FindByID serviceID) (\<lambda>(svc, opts).
     bindE (require (sv_WashingPointID svc = pid) (BadRequest ''service_not_at_washing_point'')) (\<lambda>_.
     return_ok (wrap64 (acc + EffectiveQueueMinutes svc))))"

definition daySlotInputs :: "uuid \<Rightarrow> uuid list \<Rightarrow> time \<Rightarrow> (WashingPoint \<times> DaySchedule \<times> duration) db" where
  "daySlotInputs pid serviceIDs day =
     bindE (WpRepo_FindByID pid) (\<lambda>wp.
     bindE (foldE (add_minutes pid) 0 serviceIDs) (\<lambda>totalMinutes.
     bindE (FindByWeekday pid (weekdayIndex day)) (\<lambda>scheduleRow.
     case resolveDaySchedule day scheduleRow of
       None \<Rightarrow> fail_with Internal
     | Some ds \<Rightarrow> return_ok (wp, ds, wrap64 (totalMinutes * Minute)))))"

definition busy_interval :: "Queue \<Rightarrow> BusyBoxInterval" where
  "busy_interval q = \<lparr>bb_Box = q_BoxNumber q, bb_Start = q_ScheduledStartAt q, bb_End = q_ScheduledEndAt q\<rparr>"

definition closed_interval :: "DaySchedule \<Rightarrow> Box \<Rightarrow> BusyBoxInterval" where
  "closed_interval ds b = \<lparr>bb_Box = bx_Number b, bb_Start = ds_Open ds, bb_End = ds_Close ds\<rparr>"

definition availability ::
  "(string \<Rightarrow> uuid option) \<Rightarrow> string \<Rightarrow> string \<Rightarrow> string \<Rightarrow> string \<Rightarrow> slotResponse list db" where
  "availability uuid_parse rawID rawList rawSingle rawDate =
     bindE (lift_result (ParseUUIDParam uuid_parse rawID)) (\<lambda>pid.
     bindE (lift_result (parseAvailabilityServiceIDs uuid_parse rawList rawSingle)) (\<lambda>serviceIDs.
     case parse_date rawDate of
       None \<Rightarrow> fail_with (BadRequest ''invalid_date'')
     | Some ymd \<Rightarrow>
         bindE (daySlotInputs pid serviceIDs (utc_midnight ymd)) (\<lambda>(wp, ds, d).
         if Windows ds = [] then return_ok []
         else
           bindE (FindActiveBookingsInRange pid (ds_Open ds) (ds_Close ds)) (\<lambda>busyRows.
           bindE (BoxRepo_ListByWashingPoint pid) (\<lambda>boxes.
           let busy = map busy_interval busyRows @
                 map (closed_interval ds) (filter (\<lambda>b. \<not> bx_IsOpen b) boxes)
           in return_ok (map slot_item
                (ComputeAvailableSlotsForDay ds (wp_BoxesCount wp) d busy)))))))"

definition overflowSlots ::
  "(string \<Rightarrow> uuid option) \<Rightarrow> AuthUser option \<Rightarrow> string \<Rightarrow> string \<Rightarrow> string \<Rightarrow> string \<Rightarrow> slotResponse list db" where
  "overflowSlots uuid_parse ctx rawID rawList rawSingle rawDate =
     bindE (ownWashingPointID uuid_parse ctx rawID) (\<lambda>pid.
     bindE (lift_result (parseAvailabilityServiceIDs uuid_parse rawList rawSingle)) (\<lambda>serviceIDs.
     bindE (dayFromQuery rawDate) (\<lambda>day.
     bindE (daySlotInputs pid serviceIDs day) (\<lambda>(wp, ds, d).
     return_ok (map (\<lambda>s. (slot_item s)\<lparr>sr_available_boxes := []\<rparr>)
       (ComputeAvailableSlotsForDay ds 1 d []))))))"

section \<open>What the endpoint computes\<close>

lemma read_only_slot_inputs:
  "read_only (add_minutes pid t sid)" "read_only (daySlotInputs pid ids day)"
proof -
  show a: "read_only (add_minutes pid t sid)" for t sid
    unfolding add_minutes_def by (intro read_only_intros read_only_ServiceRepo_FindByID)
  show "read_only (daySlotInputs pid ids day)"
    unfolding daySlotInputs_def FindByWeekday_def
    by (intro read_only_intros a read_only_checks)
qed

lemma read_only_dayFromQuery: "read_only (dayFromQuery raw)"
  unfolding dayFromQuery_def by (intro read_only_intros)

lemma read_only_ownWashingPointID: "read_only (ownWashingPointID uuid_parse ctx rawID)"
  unfolding ownWashingPointID_def by (intro read_only_intros)

text \<open>Looking at slots changes nothing.\<close>

lemma slot_endpoints_read_only:
  "read_only (availability uuid_parse rawID rawList rawSingle rawDate)"
  "read_only (overflowSlots uuid_parse ctx rawID rawList rawSingle rawDate)"
  unfolding availability_def overflowSlots_def FindActiveBookingsInRange_def BoxRepo_ListByWashingPoint_def Let_def
  by (intro read_only_intros read_only_slot_inputs read_only_find_rows read_only_dayFromQuery
      read_only_ownWashingPointID)+

definition minutes_of :: "uuid list \<Rightarrow> world \<Rightarrow> int" where
  "minutes_of ids w =
     sum_list (map (\<lambda>sid. case service_by_id sid w of None \<Rightarrow> 0 | Some s \<Rightarrow> EffectiveQueueMinutes s) ids)"

lemma total_minutes_of: "total_minutes items w = minutes_of (map bi_ServiceID items) w"
  by (simp add: total_minutes_def minutes_of_def o_def)

lemma add_minutes_Inr:
  assumes "add_minutes pid t sid w = (Inr t', w')"
  obtains svc where "service_by_id sid w = Some svc" "sv_WashingPointID svc = pid"
    "t' = wrap64 (t + EffectiveQueueMinutes svc)" "same_tables w w'"
proof -
  have same: "same_tables w w'" by (rule read_onlyD [OF read_only_slot_inputs(1) assms])
  from assms obtain svc opts u where f: "ServiceRepo_FindByID sid w = (Inr (svc, opts), u)"
    and r: "sv_WashingPointID svc = pid" "t' = wrap64 (t + EffectiveQueueMinutes svc)"
    unfolding add_minutes_def by (auto elim!: bindE_InrE split: if_splits)
  from f have "service_by_id sid w = Some svc"
    unfolding ServiceRepo_FindByID_def by (auto elim!: bindE_InrE first_or_Inr query_Inr simp: service_by_id_def)
  then show ?thesis using that r same by blast
qed

lemma add_minutes_fold:
  assumes "foldE (add_minutes pid) t ids w = (Inr t', w')" "ids \<noteq> []"
  shows "t' = wrap64 (t + minutes_of ids w)"
  using assms
proof (induction ids arbitrary: t w)
  case (Cons sid ids)
  from Cons.prems(1) obtain t1 u where one: "add_minutes pid t sid w = (Inr t1, u)"
    and rest: "foldE (add_minutes pid) t1 ids u = (Inr t', w')" by auto
  from one obtain svc where s: "service_by_id sid w = Some svc" "sv_WashingPointID svc = pid"
    "t1 = wrap64 (t + EffectiveQueueMinutes svc)" "same_tables w u" by (rule add_minutes_Inr)
  have m: "minutes_of ids u = minutes_of ids w"
    using same_tablesD(4) [OF s(4)] by (simp add: minutes_of_def service_by_id_def)
  show ?case
  proof (cases "ids = []")
    case True
    then show ?thesis using rest s by (simp add: minutes_of_def)
  next
    case False
    then have "t' = wrap64 (wrap64 (t + EffectiveQueueMinutes svc) + minutes_of ids w)"
      using Cons.IH [OF rest] by (simp add: m s(3))
    then show ?thesis using s(1) by (simp add: wrap64_mod minutes_of_def add.assoc)
  qed
qed simp

text \<open>The services a slot is computed for belong to the point.\<close>

lemma add_minutes_services:
  assumes "foldE (add_minutes pid) t ids w = (Inr t', w')" "sid \<in> set ids"
  shows "\<exists>svc. service_by_id sid w = Some svc \<and> sv_WashingPointID svc = pid"
  using assms
proof (induction ids arbitrary: t w)
  case (Cons k ids)
  from Cons.prems(1) obtain t1 u where one: "add_minutes pid t k w = (Inr t1, u)"
    and rest: "foldE (add_minutes pid) t1 ids u = (Inr t', w')" by auto
  from one obtain svc where s: "service_by_id k w = Some svc" "sv_WashingPointID svc = pid" "same_tables w u"
    by (rule add_minutes_Inr)
  have "service_by_id sid u = service_by_id sid w"
    using same_tablesD(4) [OF s(3)] by (simp add: service_by_id_def)
  with Cons.IH [OF rest] Cons.prems(2) s show ?case by auto
qed simp

lemma daySlotInputs_Inr:
  assumes "daySlotInputs pid ids day w = (Inr (p, ds, d), w')" "ids \<noteq> []"
  shows "point_by_id pid w = Some p" "d = wrap64 (minutes_of ids w * Minute)"
    "resolveDaySchedule day (schedule_row pid (weekdayIndex day) w) = Some ds" "same_tables w w'"
    "\<And>sid. sid \<in> set ids \<Longrightarrow> \<exists>svc. service_by_id sid w = Some svc \<and> sv_WashingPointID svc = pid"
proof -
  show "same_tables w w'" by (rule read_onlyD [OF read_only_slot_inputs(2) assms(1)])
  from assms(1) obtain u1 mins u2 row u3 where wp: "WpRepo_FindByID pid w = (Inr p, u1)"
    and fold: "foldE (add_minutes pid) 0 ids u1 = (Inr mins, u2)"
    and row: "query (schedule_row pid (weekdayIndex day)) u2 = (Inr row, u3)"
    and rest: "resolveDaySchedule day row = Some ds" "d = wrap64 (mins * Minute)"
    unfolding daySlotInputs_def FindByWeekday_def by (auto elim!: bindE_InrE split: option.splits)
  have s1: "same_tables w u1" by (rule read_onlyD [OF read_only_checks(3) wp])
  have "same_tables u1 u2"
    by (rule read_onlyD [OF read_only_foldE [OF read_only_slot_inputs(1)] fold])
  then have s2: "same_tables w u2" using s1 by (blast intro: same_tables_trans)
  show "\<exists>svc. service_by_id sid w = Some svc \<and> sv_WashingPointID svc = pid" if "sid \<in> set ids" for sid
    using add_minutes_services [OF fold that] same_tablesD(4) [OF s1] by (simp add: service_by_id_def)
  show "point_by_id pid w = Some p"
    using wp unfolding WpRepo_FindByID_def by (auto elim!: first_or_Inr simp: point_by_id_def)
  have "minutes_of ids u1 = minutes_of ids w"
    using same_tablesD(4) [OF s1] by (simp add: minutes_of_def service_by_id_def)
  then show "d = wrap64 (minutes_of ids w * Minute)"
    using add_minutes_fold [OF fold assms(2)] rest(2) by (simp add: wrap64_mod)
  have "row = schedule_row pid (weekdayIndex day) u2"
    by (rule query_Inr [OF row]) (simp add: schedule_row_def)
  then show "resolveDaySchedule day (schedule_row pid (weekdayIndex day) w) = Some ds"
    using rest(1) same_tablesD(7) [OF s2] by (simp add: schedule_row_def)
qed

text \<open>The slots of a day, box by box.\<close>

lemma day_slot_iff:
  "(\<exists>sl \<in> set (ComputeAvailableSlotsForDay ds n d busy). sl_Start sl = s \<and> box \<in> set (sl_AvailableBoxes sl)) \<longleftrightarrow>
   0 < d \<and> (\<exists>win \<in> set (Windows ds). (\<exists>k::nat. s = tr_Start win + int k * AvailabilitySlotStep) \<and> s + d \<le> tr_End win) \<and>
   1 \<le> box \<and> box \<le> n \<and> (\<forall>b \<in> set busy. bb_Box b = box \<longrightarrow> \<not> overlaps (bb_Start b) (bb_End b) s (s + d))"
  (is "?L \<longleftrightarrow> ?R")
proof
  assume ?L
  then show ?R
    by (auto simp: ComputeAvailableSlotsForDay_def ComputeAvailableSlotsWithBoxes_def freeBoxes_iff slot_starts_iff
        split: if_splits)
next
  assume r: ?R
  then have box: "box \<in> set (freeBoxes s (s + d) n busy)" by (simp add: freeBoxes_iff)
  then have ne: "freeBoxes s (s + d) n busy \<noteq> []" by auto
  from r obtain win where win: "win \<in> set (Windows ds)" "s \<in> set (slot_starts (tr_Start win) (tr_End win) d)"
    by (auto simp: slot_starts_iff)
  with Windows_wf [OF win(1)] r ne
  have "\<lparr>sl_Start = s, sl_End = s + d, sl_AvailableBoxes = freeBoxes s (s + d) n busy\<rparr>
      \<in> set (ComputeAvailableSlotsWithBoxes (tr_Start win) (tr_End win) n d busy)"
    by (auto simp: ComputeAvailableSlotsWithBoxes_def)
  with win(1) box show ?L
    by (force simp: ComputeAvailableSlotsForDay_def)
qed

lemma nat_multiple: "(\<exists>k::nat. s = a + int k * c) \<longleftrightarrow> a \<le> s \<and> (s - a) mod c = 0" if "0 < c" for s a c :: int
proof
  assume "\<exists>k::nat. s = a + int k * c"
  then show "a \<le> s \<and> (s - a) mod c = 0" using that by auto
next
  assume r: "a \<le> s \<and> (s - a) mod c = 0"
  then have "s - a = (s - a) div c * c" by (metis add.right_neutral div_mult_mod_eq)
  moreover have "0 \<le> (s - a) div c" using r that by (simp add: pos_imp_zdiv_nonneg_iff)
  ultimately have "s = a + int (nat ((s - a) div c)) * c" by simp
  then show "\<exists>k::nat. s = a + int k * c" ..
qed

text \<open>A start on the grid: a multiple of the step into the window it lies in.\<close>

definition on_grid :: "DaySchedule \<Rightarrow> time \<Rightarrow> bool" where
  "on_grid ds s \<longleftrightarrow> (\<exists>win \<in> set (Windows ds). tr_Start win \<le> s \<and> s < tr_End win \<and>
     (s - tr_Start win) mod AvailabilitySlotStep = 0)"

lemma grid_window:
  assumes "0 < d"
  shows "(\<exists>win \<in> set (Windows ds). (\<exists>k::nat. s = tr_Start win + int k * AvailabilitySlotStep) \<and> s + d \<le> tr_End win)
    \<longleftrightarrow> on_grid ds s \<and> Contains ds s (s + d)"
proof -
  have same: "v = u" if "v \<in> set (Windows ds)" "u \<in> set (Windows ds)" "tr_Start v \<le> s" "s < tr_End v"
    "tr_Start u \<le> s" "s < tr_End u" for u v
    using that by (auto simp: Windows_def Let_def split: if_splits option.splits)
  show ?thesis
    unfolding nat_multiple [OF AvailabilitySlotStep_pos] on_grid_def Contains_def not_less
    using assms same by (auto simp: not_less intro!: bexI) (smt (verit, best) same)+
qed

text \<open>The hours of a day depend on the local day only.\<close>

lemma same_day_schedule:
  assumes "local_day s = local_day t"
  shows "weekdayIndex s = weekdayIndex t" "resolveDaySchedule s row = resolveDaySchedule t row"
proof -
  show "weekdayIndex s = weekdayIndex t" using Weekday_same_day [OF assms] by (simp add: weekdayIndex_def)
  have eq: "combineDayAndTime s = combineDayAndTime t"
    by (rule ext) (simp only: combineDayAndTime_def assms)
  show "resolveDaySchedule s row = resolveDaySchedule t row" by (simp only: resolveDaySchedule_def eq)
qed

lemma local_day_utc_midnight: "local_day (utc_midnight (y, m, d)) = days_from_civil y m d"
proof -
  have "utc_midnight (y, m, d) = days_from_civil y m d * Day + BusinessLocation - BusinessLocation"
    by (simp add: utc_midnight_def)
  then show ?thesis
    using local_day_of_clock(1) [of BusinessLocation "days_from_civil y m d"]
    by (simp add: BusinessLocation_def duration_defs)
qed

lemma local_day_local_midnight: "local_day (local_midnight (y, m, d)) = days_from_civil y m d"
  using local_day_of_clock(1) [of 0 "days_from_civil y m d"] Day_pos by (simp add: local_midnight_def time_Date_def)

section \<open>The slots offered are the bookings accepted\<close>

lemma availability_Inr:
  assumes "availability uuid_parse rawID rawList rawSingle rawDate w = (Inr slots, w')"
    and "uuid_parse rawID = Some pid" "parseAvailabilityServiceIDs uuid_parse rawList rawSingle = Inr ids"
    and "parse_date rawDate = Some ymd" "ids \<noteq> []"
  obtains p ds busy where "point_by_id pid w = Some p"
    "resolveDaySchedule (utc_midnight ymd) (schedule_row pid (weekdayIndex (utc_midnight ymd)) w) = Some ds"
    "slots = map slot_item (ComputeAvailableSlotsForDay ds (wp_BoxesCount p) (wrap64 (minutes_of ids w * Minute)) busy)"
    "\<And>n s e. Windows ds \<noteq> [] \<Longrightarrow> ds_Open ds \<le> s \<Longrightarrow> s < e \<Longrightarrow> e \<le> ds_Close ds \<Longrightarrow>
       (\<forall>b \<in> set busy. bb_Box b = n \<longrightarrow> \<not> overlaps (bb_Start b) (bb_End b) s e) \<longleftrightarrow>
       box_free pid n s e w \<and> (\<forall>b \<in> set (point_boxes pid w). bx_Number b = n \<longrightarrow> bx_IsOpen b)"
    "\<And>sid. sid \<in> set ids \<Longrightarrow> \<exists>svc. service_by_id sid w = Some svc \<and> sv_WashingPointID svc = pid"
proof -
  let ?day = "utc_midnight ymd"
  from assms(1) obtain p ds d u1 where inp: "daySlotInputs pid ids ?day w = (Inr (p, ds, d), u1)"
    and rest: "(if Windows ds = [] then return_ok []
         else
           bindE (FindActiveBookingsInRange pid (ds_Open ds) (ds_Close ds)) (\<lambda>busyRows.
           bindE (BoxRepo_ListByWashingPoint pid) (\<lambda>boxes.
           return_ok (map slot_item (ComputeAvailableSlotsForDay ds (wp_BoxesCount p) d
             (map busy_interval busyRows @ map (closed_interval ds) (filter (\<lambda>b. \<not> bx_IsOpen b) boxes))))))) u1 =
        (Inr slots, w')"
    using assms(2-4) unfolding availability_def Let_def ParseUUIDParam_def by (auto elim!: bindE_InrE)
  note i = daySlotInputs_Inr [OF inp assms(5)]
  show ?thesis
  proof (cases "Windows ds = []")
    case True
    show ?thesis
      by (rule that [OF i(1,3), of "[]"]) (use rest True i(5) in \<open>simp_all add: ComputeAvailableSlotsForDay_def\<close>)
  next
    case False
    with rest obtain rows u2 boxes u3 where rows: "FindActiveBookingsInRange pid (ds_Open ds) (ds_Close ds) u1 = (Inr rows, u2)"
      and boxes: "BoxRepo_ListByWashingPoint pid u2 = (Inr boxes, u3)"
      and slots: "slots = map slot_item (ComputeAvailableSlotsForDay ds (wp_BoxesCount p) d
         (map busy_interval rows @ map (closed_interval ds) (filter (\<lambda>b. \<not> bx_IsOpen b) boxes)))"
      by (auto elim!: bindE_InrE)
    have u2: "same_tables w u2"
      using same_tables_trans [OF i(4) read_onlyD [OF read_only_checks(4) rows]] .
    have "boxes = sort_key bx_Number (point_boxes pid u2)"
      using boxes unfolding BoxRepo_ListByWashingPoint_def by (rule query_Inr) (simp add: point_boxes_def)
    then have bs: "set boxes = set (point_boxes pid w)"
      using same_tablesD(6) [OF u2] by (simp add: point_boxes_def)
    let ?busy = "map busy_interval rows @ map (closed_interval ds) (filter (\<lambda>b. \<not> bx_IsOpen b) boxes)"
    have "(\<forall>b \<in> set ?busy. bb_Box b = n \<longrightarrow> \<not> overlaps (bb_Start b) (bb_End b) s e) \<longleftrightarrow>
       box_free pid n s e w \<and> (\<forall>b \<in> set (point_boxes pid w). bx_Number b = n \<longrightarrow> bx_IsOpen b)"
      if t: "ds_Open ds \<le> s" "s < e" "e \<le> ds_Close ds" for n s e
    proof -
      have "box_free pid n s e w \<longleftrightarrow> box_free pid n s e u1"
        using same_tablesD(8) [OF i(4)] by (simp add: box_free_def)
      then have "box_free pid n s e w \<longleftrightarrow>
          (\<forall>b \<in> set (map busy_interval rows). bb_Box b = n \<longrightarrow> \<not> overlaps (bb_Start b) (bb_End b) s e)"
        using busy_rows [OF rows t(1,3), of n] by (auto simp: overlaps_def busy_interval_def)
      moreover have "(\<forall>b \<in> set (map (closed_interval ds) (filter (\<lambda>b. \<not> bx_IsOpen b) boxes)).
            bb_Box b = n \<longrightarrow> \<not> overlaps (bb_Start b) (bb_End b) s e) \<longleftrightarrow>
          (\<forall>b \<in> set (point_boxes pid w). bx_Number b = n \<longrightarrow> bx_IsOpen b)"
        using t bs by (auto simp: closed_interval_def overlaps_def)
      ultimately show ?thesis by (auto simp: Ball_def)
    qed
    with that [OF i(1,3), of ?busy] slots i(2,5) show ?thesis by blast
  qed
qed

lemma box_usable_open:
  assumes "distinct (map bx_Number (point_boxes (wp_ID p) w))"
  shows "box_usable p n w \<longleftrightarrow> 1 \<le> n \<and> n \<le> wp_BoxesCount p \<and>
    (\<forall>b \<in> set (point_boxes (wp_ID p) w). bx_Number b = n \<longrightarrow> bx_IsOpen b)"
proof -
  have uniq: "b = c" if "b \<in> set (point_boxes (wp_ID p) w)" "c \<in> set (point_boxes (wp_ID p) w)"
    "bx_Number b = bx_Number c" for b c
    using assms that by (simp add: distinct_map inj_on_def)
  have "(case box_numbered (wp_ID p) n w of None \<Rightarrow> True | Some b \<Rightarrow> bx_IsOpen b) \<longleftrightarrow>
      (\<forall>b \<in> set (point_boxes (wp_ID p) w). bx_Number b = n \<longrightarrow> bx_IsOpen b)"
  proof (cases "box_numbered (wp_ID p) n w")
    case None
    then have "\<forall>b \<in> set (point_boxes (wp_ID p) w). bx_Number b \<noteq> n"
      by (auto simp: box_numbered_def find_None_iff point_boxes_def)
    then show ?thesis using None by simp
  next
    case (Some b)
    then have b: "b \<in> set (point_boxes (wp_ID p) w)" "bx_Number b = n"
      by (auto simp: box_numbered_def find_Some_iff point_boxes_def)
    then show ?thesis using Some uniq by auto
  qed
  then show ?thesis by (simp add: box_usable_def)
qed

text \<open>For a customer who may book, the offer and the acceptance agree.\<close>

lemma offered_accepted_there:
  assumes avail: "availability uuid_parse rawID rawList rawSingle rawDate w = (Inr slots, w')"
    and request: "uuid_parse rawID = Some pid" "parse_date rawDate = Some (y, m, d)"
      "parseAvailabilityServiceIDs uuid_parse rawList rawSingle = Inr (map bi_ServiceID (cb_Items inp))"
    and day: "local_day (cb_ScheduledStartAt inp) = days_from_civil y m d"
    and world: "w_faults w = []" "queue_ok w" "points_ok w" "services_placed w"
      "distinct (map bx_Number (point_boxes pid w))"
    and point: "point_by_id pid w = Some p" "wp_Status p = WpActive" "items_ok pid (cb_Items inp) w"
    and customer: "owned_car (cb_CarID inp) (cb_UserID inp) w \<noteq> None" "\<not> has_active (cb_UserID inp) w"
      "cb_ScheduledStartAt inp > w_now w"
  shows "(\<exists>sl \<in> set slots. sr_start sl = cb_ScheduledStartAt inp \<and> cb_BoxNumber inp \<in> set (sr_available_boxes sl)) \<longleftrightarrow>
    (\<exists>ds. resolveDaySchedule (cb_ScheduledStartAt inp)
         (schedule_row pid (weekdayIndex (cb_ScheduledStartAt inp)) w) = Some ds \<and> on_grid ds (cb_ScheduledStartAt inp)) \<and>
    is_ok (fst (CreateBooking inp w))"
proof -
  let ?s = "cb_ScheduledStartAt inp" and ?n = "cb_BoxNumber inp" and ?day = "utc_midnight (y, m, d)"
  let ?dur = "wrap64 (minutes_of (map bi_ServiceID (cb_Items inp)) w * Minute)"
  have ne: "map bi_ServiceID (cb_Items inp) \<noteq> []" using point(3) by (simp add: items_ok_def)
  have same: "local_day ?s = local_day ?day" using day by (simp add: local_day_utc_midnight)
  note day_eq = same_day_schedule [OF same]
  obtain ds busy where a: "resolveDaySchedule ?s (schedule_row pid (weekdayIndex ?s) w) = Some ds"
    "slots = map slot_item (ComputeAvailableSlotsForDay ds (wp_BoxesCount p) ?dur busy)"
    "\<And>n s e. Windows ds \<noteq> [] \<Longrightarrow> ds_Open ds \<le> s \<Longrightarrow> s < e \<Longrightarrow> e \<le> ds_Close ds \<Longrightarrow>
       (\<forall>b \<in> set busy. bb_Box b = n \<longrightarrow> \<not> overlaps (bb_Start b) (bb_End b) s e) \<longleftrightarrow>
       box_free pid n s e w \<and> (\<forall>b \<in> set (point_boxes pid w). bx_Number b = n \<longrightarrow> bx_IsOpen b)"
  proof (rule availability_Inr [OF avail request(1,3,2) ne])
    fix p' ds busy
    assume p': "point_by_id pid w = Some p'"
      and ds: "resolveDaySchedule ?day (schedule_row pid (weekdayIndex ?day) w) = Some ds"
      and slots: "slots = map slot_item (ComputeAvailableSlotsForDay ds (wp_BoxesCount p') ?dur busy)"
      and busy: "\<And>n s e. Windows ds \<noteq> [] \<Longrightarrow> ds_Open ds \<le> s \<Longrightarrow> s < e \<Longrightarrow> e \<le> ds_Close ds \<Longrightarrow>
       (\<forall>b \<in> set busy. bb_Box b = n \<longrightarrow> \<not> overlaps (bb_Start b) (bb_End b) s e) \<longleftrightarrow>
       box_free pid n s e w \<and> (\<forall>b \<in> set (point_boxes pid w). bx_Number b = n \<longrightarrow> bx_IsOpen b)"
    have "p' = p" using p' point(1) by simp
    then show thesis
      by (intro that [of ds busy] busy ds [folded day_eq]) (simp_all add: slots)
  qed
  have e: "booking_end (cb_Items inp) ?s w = ?s + ?dur" by (simp add: booking_end_def total_minutes_of)
  have pid: "wp_ID p = pid" "p \<in> set (w_points w)"
    using point(1) by (auto simp: point_by_id_def dest: find_row_SomeD)
  have uniq: "q = p" if "q \<in> set (w_points w)" "items_ok (wp_ID q) (cb_Items inp) w" for q
  proof -
    obtain it where "it \<in> set (cb_Items inp)" using ne by (cases "cb_Items inp") auto
    then have "item_ok (wp_ID q) w it" "item_ok pid w it" using that(2) point(3) by (auto simp: items_ok_def)
    then have "wp_ID q = wp_ID p" using pid by (auto simp: item_ok_def split: option.splits)
    then show "q = p" using that(1) pid world(3) by (metis find_row_distinct option.inject points_ok_def)
  qed
  have book: "is_ok (fst (CreateBooking inp w)) \<longleftrightarrow>
      0 < ?dur \<and> box_usable p ?n w \<and> in_hours pid ?s (?s + ?dur) w \<and> box_free pid ?n ?s (?s + ?dur) w"
  proof
    assume "is_ok (fst (CreateBooking inp w))"
    then obtain q where q: "?s + ?dur > ?s" "q \<in> set (w_points w)" "items_ok (wp_ID q) (cb_Items inp) w"
      "box_usable q ?n w" "in_hours (wp_ID q) ?s (?s + ?dur) w" "box_free (wp_ID q) ?n ?s (?s + ?dur) w"
      unfolding accepted_iff_bookable [OF world(1-4)] bookable_def Let_def e by blast
    then have "q = p" using uniq by blast
    with q pid show "0 < ?dur \<and> box_usable p ?n w \<and> in_hours pid ?s (?s + ?dur) w \<and> box_free pid ?n ?s (?s + ?dur) w"
      by simp
  next
    assume r: "0 < ?dur \<and> box_usable p ?n w \<and> in_hours pid ?s (?s + ?dur) w \<and> box_free pid ?n ?s (?s + ?dur) w"
    have "\<exists>q \<in> set (w_points w). wp_Status q = WpActive \<and> items_ok (wp_ID q) (cb_Items inp) w \<and>
        box_usable q ?n w \<and> in_hours (wp_ID q) ?s (?s + ?dur) w \<and> box_free (wp_ID q) ?n ?s (?s + ?dur) w"
      by (rule bexI [OF _ pid(2)]) (simp only: pid(1) point(2,3) r simp_thms)
    with r show "is_ok (fst (CreateBooking inp w))"
      unfolding accepted_iff_bookable [OF world(1-4)] bookable_def Let_def e
      using customer by simp
  qed
  have hours: "in_hours pid ?s (?s + ?dur) w \<longleftrightarrow> Contains ds ?s (?s + ?dur)"
    by (simp add: in_hours_def a(1))
  have offered: "(\<exists>sl \<in> set slots. sr_start sl = ?s \<and> ?n \<in> set (sr_available_boxes sl)) \<longleftrightarrow>
      (\<exists>sl \<in> set (ComputeAvailableSlotsForDay ds (wp_BoxesCount p) ?dur busy).
         sl_Start sl = ?s \<and> ?n \<in> set (sl_AvailableBoxes sl))"
    by (simp add: a(2) slot_item_def)
  show ?thesis
  proof (cases "0 < ?dur \<and> Contains ds ?s (?s + ?dur)")
    case False
    then show ?thesis unfolding offered day_slot_iff book hours using grid_window by blast
  next
    case True
    then have within: "ds_Open ds \<le> ?s" "?s < ?s + ?dur" "?s + ?dur \<le> ds_Close ds" "Windows ds \<noteq> []"
      using Contains_within [of ds ?s "?s + ?dur"] by (auto simp: Contains_def)
    have open_box: "box_usable p ?n w \<longleftrightarrow> 1 \<le> ?n \<and> ?n \<le> wp_BoxesCount p \<and>
        (\<forall>b \<in> set (point_boxes pid w). bx_Number b = ?n \<longrightarrow> bx_IsOpen b)"
      using box_usable_open [of p w ?n] world(5) by (simp add: pid(1))
    show ?thesis
      unfolding offered day_slot_iff book hours open_box
        grid_window [OF conjunct1 [OF True]] a(3) [OF within(4,1-3)]
      using True a(1) by auto
  qed
qed

text \<open>
  What the availability endpoint leaves to the booking: the point is active, the services are, with
  price options of theirs, the customer has the car and no active booking, and the start is ahead.
\<close>

definition may_book :: "uuid \<Rightarrow> CreateBookingInput \<Rightarrow> world \<Rightarrow> bool" where
  "may_book pid inp w \<longleftrightarrow>
     (\<exists>p. point_by_id pid w = Some p \<and> wp_Status p = WpActive) \<and> items_ok pid (cb_Items inp) w \<and>
     owned_car (cb_CarID inp) (cb_UserID inp) w \<noteq> None \<and> \<not> has_active (cb_UserID inp) w \<and>
     cb_ScheduledStartAt inp > w_now w"

definition starts_on_grid :: "uuid \<Rightarrow> time \<Rightarrow> world \<Rightarrow> bool" where
  "starts_on_grid pid s w \<longleftrightarrow>
     (\<exists>ds. resolveDaySchedule s (schedule_row pid (weekdayIndex s) w) = Some ds \<and> on_grid ds s)"

lemma parse_ids_length: "parse_ids uuid_parse ids ps = Inr r \<Longrightarrow> length r = length ids + length ps"
  by (induction ps arbitrary: ids) (auto split: option.splits if_splits)

lemma split_char_not_Nil [simp]: "split_char sep s \<noteq> []"
  by (induction s) (auto split: list.split)

lemma parsed_ids_not_Nil:
  "parseAvailabilityServiceIDs uuid_parse rawList rawSingle = Inr ids \<Longrightarrow> ids \<noteq> []"
  unfolding parseAvailabilityServiceIDs_def Let_def
  by (auto split: if_splits option.splits dest: parse_ids_length)

text \<open>
  C5 The availability endpoint and the booking agree. When the endpoint answers for a list of services
  and a day, then for every start on that day: the manager accepts a booking of these services in a box
  from a start on the 15-minute grid of the opening hours if and only if the endpoint offers that box
  from that start and the checks it leaves to the booking hold (\<open>may_book\<close>: an active point, active
  services with price options of theirs, an own car, no other active booking, a start ahead).
\<close>

theorem offered_iff_accepted:
  assumes avail: "availability uuid_parse rawID rawList rawSingle rawDate w = (Inr slots, w')"
    and request: "uuid_parse rawID = Some pid" "parse_date rawDate = Some (y, m, d)"
      "parseAvailabilityServiceIDs uuid_parse rawList rawSingle = Inr (map bi_ServiceID (cb_Items inp))"
    and day: "local_day (cb_ScheduledStartAt inp) = days_from_civil y m d"
    and world: "w_faults w = []" "queue_ok w" "points_ok w" "services_placed w"
      "distinct (map bx_Number (point_boxes pid w))"
  shows "is_ok (fst (CreateBooking inp w)) \<and> starts_on_grid pid (cb_ScheduledStartAt inp) w \<longleftrightarrow>
    (\<exists>sl \<in> set slots. sr_start sl = cb_ScheduledStartAt inp \<and> cb_BoxNumber inp \<in> set (sr_available_boxes sl)) \<and>
    may_book pid inp w"
proof (cases "may_book pid inp w")
  case True
  then obtain p where "point_by_id pid w = Some p" "wp_Status p = WpActive"
    "items_ok pid (cb_Items inp) w" "owned_car (cb_CarID inp) (cb_UserID inp) w \<noteq> None"
    "\<not> has_active (cb_UserID inp) w" "cb_ScheduledStartAt inp > w_now w"
    unfolding may_book_def by blast
  from offered_accepted_there [OF avail request day world this] True show ?thesis
    unfolding starts_on_grid_def by blast
next
  case False
  have "may_book pid inp w" if "is_ok (fst (CreateBooking inp w))"
  proof -
    note ne = parsed_ids_not_Nil [OF request(3)]
    obtain p where p: "point_by_id pid w = Some p"
      and placed: "\<And>k. k \<in> set (map bi_ServiceID (cb_Items inp)) \<Longrightarrow>
        \<exists>svc. service_by_id k w = Some svc \<and> sv_WashingPointID svc = pid"
      by (rule availability_Inr [OF avail request(1,3,2) ne]) (rule that)
    from that obtain q where q: "q \<in> set (w_points w)" "wp_Status q = WpActive" "items_ok (wp_ID q) (cb_Items inp) w"
      and c: "owned_car (cb_CarID inp) (cb_UserID inp) w \<noteq> None" "\<not> has_active (cb_UserID inp) w"
        "cb_ScheduledStartAt inp > w_now w"
      unfolding accepted_iff_bookable [OF world(1-4)] bookable_def Let_def by blast
    obtain it where it: "it \<in> set (cb_Items inp)" using ne by (cases "cb_Items inp") auto
    with q(3) have "item_ok (wp_ID q) w it" by (simp add: items_ok_def)
    with placed [of "bi_ServiceID it"] it have pid: "wp_ID q = pid" by (auto simp: item_ok_def)
    have "p \<in> set (w_points w)" "wp_ID p = pid" using p by (auto simp: point_by_id_def dest: find_row_SomeD)
    with q(1) pid world(3) have "p = q" by (metis find_row_distinct option.inject points_ok_def)
    with p q pid c show ?thesis by (auto simp: may_book_def)
  qed
  with False show ?thesis by blast
qed

definition town_parse :: "string \<Rightarrow> uuid option" where
  "town_parse s = (if s = ''point'' then Some 5 else if s = ''wash'' then Some 1
     else if s = ''sedan'' then Some 2 else if s = ''car'' then Some 8 else None)"

theorem offered_iff_accepted_witness:
  "\<exists>slots w'. availability town_parse ''point'' '' wash'' [] ''1970-01-01'' town_world = (Inr slots, w') \<and>
     (\<exists>sl \<in> set slots. sr_start sl = 5 * Hour \<and> 1 \<in> set (sr_available_boxes sl)) \<and>
     \<not> (\<exists>sl \<in> set slots. sr_start sl = 5 * Hour \<and> 2 \<in> set (sr_available_boxes sl))"
proof -
  have "is_ok (fst (availability town_parse ''point'' '' wash'' [] ''1970-01-01'' town_world))" by code_simp
  then obtain slots w' where a: "availability town_parse ''point'' '' wash'' [] ''1970-01-01'' town_world = (Inr slots, w')"
    by (cases "availability town_parse ''point'' '' wash'' [] ''1970-01-01'' town_world")
      (auto simp: is_ok_def split: sum.splits)
  define p where "p = hd (w_points town_world)"
  have r: "town_parse ''point'' = Some 5" "parse_date ''1970-01-01'' = Some (1970, 1, 1)"
    "local_day (5 * Hour) = days_from_civil 1970 1 1" "distinct (map bx_Number (point_boxes 5 town_world))"
    "point_by_id 5 town_world = Some p" "wp_Status p = WpActive"
    unfolding p_def by code_simp+
  have ids: "parseAvailabilityServiceIDs town_parse '' wash'' [] = Inr (map bi_ServiceID (cb_Items town_request))"
    by code_simp
  have items: "items_ok 5 (cb_Items town_request) town_world" by code_simp
  have cust: "owned_car 8 7 town_world \<noteq> None" "\<not> has_active 7 town_world" "5 * Hour > w_now town_world"
    by code_simp+
  have f: "cb_Items (town_request\<lparr>cb_BoxNumber := n\<rparr>) = cb_Items town_request"
    "cb_ScheduledStartAt (town_request\<lparr>cb_BoxNumber := n\<rparr>) = 5 * Hour"
    "cb_CarID (town_request\<lparr>cb_BoxNumber := n\<rparr>) = 8" "cb_UserID (town_request\<lparr>cb_BoxNumber := n\<rparr>) = 7"
    "cb_BoxNumber (town_request\<lparr>cb_BoxNumber := n\<rparr>) = n" for n
    by (simp_all add: town_request_def)
  note iff = offered_iff_accepted [OF a r(1,2), of "town_request\<lparr>cb_BoxNumber := n\<rparr>" for n, unfolded f,
      OF ids r(3) town_world_ok(1-4) r(4)]
  have may: "may_book 5 (town_request\<lparr>cb_BoxNumber := n\<rparr>) town_world" for n
    unfolding may_book_def f using r(5,6) items cust by blast
  have ok: "bookable (town_request\<lparr>cb_BoxNumber := 1\<rparr>) town_world"
    "\<not> bookable (town_request\<lparr>cb_BoxNumber := 2\<rparr>) town_world"
    "case resolveDaySchedule (5 * Hour) (schedule_row 5 (weekdayIndex (5 * Hour)) town_world) of
       None \<Rightarrow> False | Some ds \<Rightarrow> on_grid ds (5 * Hour)"
    by code_simp+
  have grid: "starts_on_grid 5 (5 * Hour) town_world"
    unfolding starts_on_grid_def using ok(3) by (auto split: option.splits)
  show ?thesis
    using a iff [of 1] iff [of 2] may grid ok(1,2) accepted_iff_bookable [OF town_world_ok(1-4)] by blast
qed

end
