(* ===== verification/Endpoints.thy ===== *)
theory Endpoints
  imports Model
begin

text \<open>
  What the HTTP handlers share. Many endpoints first load a row and answer 404, not 403, when the
  caller may not see it, so that the answer does not tell a foreign row from a missing one. The
  locale \<open>ownership_guard\<close> states what such a lookup promises and proves the consequences for
  every guarded endpoint once.
\<close>

text \<open>A loop that fills a slice and may return early.\<close>

definition mapE :: "('a \<Rightarrow> 'b db) \<Rightarrow> 'a list \<Rightarrow> 'b list db" where
  "mapE f xs = foldE (\<lambda>acc x. bindE (f x) (\<lambda>y. return_ok (acc @ [y]))) [] xs"

lemma read_only_mapE: "(\<And>x. read_only (f x)) \<Longrightarrow> read_only (mapE f xs)"
  unfolding mapE_def by (intro read_only_intros)

text \<open>An error is noticed and dropped.\<close>

definition attempt :: "'a db \<Rightarrow> 'a option db" where
  "attempt m = catchE (bindE m (\<lambda>x. return_ok (Some x))) (\<lambda>_. return_ok None)"

lemma preserves_attempt: "preserves I m \<Longrightarrow> preserves I (attempt m)"
  unfolding attempt_def by (intro valid_intros)

definition guarded :: "'r db \<Rightarrow> ('r \<Rightarrow> bool) \<Rightarrow> apperror \<Rightarrow> ('r \<Rightarrow> 'a db) \<Rightarrow> 'a db" where
  "guarded load allowed missing body =
     bindE load (\<lambda>r. bindE (require (allowed r) missing) (\<lambda>_. body r))"

locale ownership_guard =
  fixes finder :: "uuid \<Rightarrow> 'r db" and lookup :: "uuid \<Rightarrow> world \<Rightarrow> 'r option" and missing :: apperror
  assumes finder_no_fault: "w_faults w = [] \<Longrightarrow>
      finder k w = (case lookup k w of None \<Rightarrow> (Inl missing, w) | Some r \<Rightarrow> (Inr r, w))"
    and finder_read_only: "read_only (finder k)"
    and finder_errors: "finder k w = (Inl e, w') \<Longrightarrow> e = missing \<or> e = Internal"
begin

lemma foreign_like_missing:
  assumes "w_faults w = []" "\<And>r. lookup k w = Some r \<Longrightarrow> \<not> allowed r"
  shows "guarded (finder k) allowed missing body w = (Inl missing, w)"
  using assms(2) by (simp add: guarded_def bindE_def finder_no_fault [OF assms(1)] split: option.split)

lemma allowed_runs:
  assumes "w_faults w = []" "lookup k w = Some r" "allowed r"
  shows "guarded (finder k) allowed missing body w = body r w"
  using assms by (simp add: guarded_def bindE_def finder_no_fault)

lemma success_was_allowed:
  assumes "guarded (finder k) allowed missing body w = (Inr x, w')"
  obtains r u where "finder k w = (Inr r, u)" "same_tables w u" "allowed r" "body r u = (Inr x, w')"
proof -
  from assms obtain r u where "finder k w = (Inr r, u)" "allowed r" "body r u = (Inr x, w')"
    unfolding guarded_def by (auto elim!: bindE_InrE split: if_splits)
  then show ?thesis using that read_onlyD [OF finder_read_only] by blast
qed

text \<open>With any fault: a caller who may not see the row learns nothing and changes nothing.\<close>

lemma foreign_under_faults:
  assumes "\<And>r u. finder k w = (Inr r, u) \<Longrightarrow> \<not> allowed r"
  obtains e w' where "guarded (finder k) allowed missing body w = (Inl e, w')"
    "e = missing \<or> e = Internal" "same_tables w w'"
proof (cases "finder k w")
  case (Pair res u)
  have same: "same_tables w u" by (rule read_onlyD [OF finder_read_only Pair])
  show ?thesis
  proof (cases res)
    case (Inl e)
    then show ?thesis
      using that [of e u] finder_errors [of k w e u] Pair same by (simp add: guarded_def bindE_def)
  next
    case (Inr r)
    then show ?thesis
      using that [of missing u] assms [of r u] Pair same by (simp add: guarded_def bindE_def)
  qed
qed

lemma guarded_preserves:
  assumes "table_property I" "\<And>r. preserves I (body r)" "preserves I (finder k)"
  shows "preserves I (guarded (finder k) allowed missing body)"
  unfolding guarded_def using assms by (intro preserves_bindE preserves_pure)

lemma guarded_atomic:
  assumes "\<And>r. atomic (body r)"
  shows "atomic (guarded (finder k) allowed missing body)"
  unfolding guarded_def using assms by (intro atomic_after_reads finder_read_only read_only_pure)

end

end
