(* ===== verification/BookingApi.thy ===== *)
theory BookingApi
  imports Slots Phone Endpoints
begin

text \<open>
  The booking endpoints of \<open>internal/queue/handler.go\<close>: create, get, cancel, pause, resume, the
  staff's status change and the customer's history. A decoded request body is a value of
  \<open>apperror + request\<close>; an identifier in a response is the number whose canonical text is sent.
\<close>

section \<open>Responses\<close>

primrec source_string :: "Source \<Rightarrow> string" where
  "source_string SourceApp = ''app''"
| "source_string SourceQR = ''qr''"
| "source_string SourceManual = ''manual''"

record bookingItemResponse =
  bir_service_id :: uuid
  bir_price_option_id :: uuid

record bookingResponse =
  bkr_id :: uuid
  bkr_status :: string
  bkr_user_id :: uuid
  bkr_car_id :: uuid
  bkr_service_id :: uuid
  bkr_price_option_id :: uuid
  bkr_items :: "bookingItemResponse list"
  bkr_washing_point_id :: uuid
  bkr_box_number :: int
  bkr_is_overflow :: bool
  bkr_scheduled_start_at :: time
  bkr_scheduled_end_at :: time
  bkr_notes :: "string option"
  bkr_source :: string
  bkr_canceled_at :: "time option"
  bkr_paused_at :: "time option"
  bkr_created_at :: time
  bkr_cars_ahead :: nat

definition carIDString :: "uuid option \<Rightarrow> uuid" where
  "carIDString c = (case c of None \<Rightarrow> uuid_Nil | Some k \<Rightarrow> k)"

definition toBookingItems :: "Queue \<Rightarrow> bookingItemResponse list" where
  "toBookingItems q =
     map (\<lambda>it. \<lparr>bir_service_id = qi_ServiceID it, bir_price_option_id = qi_PriceOptionID it\<rparr>) (q_Items q)"

definition toBookingResponse :: "Queue \<Rightarrow> bookingResponse" where
  "toBookingResponse q =
     \<lparr>bkr_id = q_ID q, bkr_status = status_string (q_Status q), bkr_user_id = q_UserID q,
      bkr_car_id = carIDString (q_CarID q), bkr_service_id = q_ServiceID q,
      bkr_price_option_id = q_PriceOptionID q, bkr_items = toBookingItems q,
      bkr_washing_point_id = q_WashingPointID q, bkr_box_number = q_BoxNumber q,
      bkr_is_overflow = q_IsOverflow q, bkr_scheduled_start_at = q_ScheduledStartAt q,
      bkr_scheduled_end_at = q_ScheduledEndAt q, bkr_notes = q_Notes q,
      bkr_source = source_string (q_Source q), bkr_canceled_at = q_CanceledAt q,
      bkr_paused_at = q_PausedAt q, bkr_created_at = q_CreatedAt q, bkr_cars_ahead = 0\<rparr>"

definition activeStatuses :: "Status \<Rightarrow> bool" where
  "activeStatuses s \<longleftrightarrow> s \<in> {StatusQueue, StatusWaiting, StatusWashing}"

definition withPosition :: "Queue \<Rightarrow> bookingResponse db" where
  "withPosition q =
     (if \<not> activeStatuses (q_Status q) then return_ok (toBookingResponse q)
      else bindE (CountActiveAhead (q_WashingPointID q) (q_ScheduledStartAt q)) (\<lambda>ahead.
           return_ok ((toBookingResponse q)\<lparr>bkr_cars_ahead := ahead\<rparr>)))"

section \<open>The customer's endpoints\<close>

record createBookingRequest =
  cr_car_id :: string
  cr_service_id :: string
  cr_price_option_id :: string
  cr_items :: "bookingItemRequest list"
  cr_box_number :: int
  cr_scheduled_start_at :: string
  cr_notes :: "string option"

definition parse_notes :: "string option \<Rightarrow> apperror + string option" where
  "parse_notes raw =
     (case raw of
        None \<Rightarrow> Inr None
      | Some s \<Rightarrow>
          (let trimmed = TrimSpace s
           in if length trimmed > 2000 then Inl (BadRequest ''invalid_notes'')
              else if trimmed \<noteq> [] then Inr (Some trimmed) else Inr None))"

definition queue_create ::
  "(string \<Rightarrow> uuid option) \<Rightarrow> (string \<Rightarrow> time option) \<Rightarrow> AuthUser option \<Rightarrow>
   apperror + createBookingRequest \<Rightarrow> bookingResponse db" where
  "queue_create uuid_parse parse_RFC3339 ctx body =
     bindE (lift_result (AuthUserFrom ctx)) (\<lambda>authUser.
     bindE (lift_result body) (\<lambda>req.
     bindE (lift_result (parseUUIDField uuid_parse (cr_car_id req) ''car_id'')) (\<lambda>carID.
     bindE (lift_result (parseBookingItems uuid_parse (cr_items req) (cr_service_id req) (cr_price_option_id req))) (\<lambda>items.
     bindE (lift_result (parseScheduledStart parse_RFC3339 (cr_scheduled_start_at req))) (\<lambda>start.
     bindE (lift_result (parse_notes (cr_notes req))) (\<lambda>notes.
     bindE (CreateBooking \<lparr>cb_UserID = au_id authUser, cb_CarID = carID, cb_Items = items,
              cb_BoxNumber = cr_box_number req, cb_ScheduledStartAt = start, cb_Notes = notes\<rparr>) (\<lambda>q.
     withPosition q)))))))"

definition sees_booking :: "AuthUser \<Rightarrow> Queue \<Rightarrow> bool" where
  "sees_booking authUser q \<longleftrightarrow> \<not> (q_UserID q \<noteq> au_id authUser \<and> \<not> OwnsWashingPoint authUser (q_WashingPointID q))"

definition queue_get :: "(string \<Rightarrow> uuid option) \<Rightarrow> AuthUser option \<Rightarrow> string \<Rightarrow> bookingResponse db" where
  "queue_get uuid_parse ctx rawID =
     bindE (lift_result (AuthUserFrom ctx)) (\<lambda>authUser.
     bindE (lift_result (ParseUUIDParam uuid_parse rawID)) (\<lambda>qid.
     guarded (QueueRepo_FindByID qid) (sees_booking authUser) (NotFound ''queue_not_found'') withPosition))"

definition queue_cancel :: "(string \<Rightarrow> uuid option) \<Rightarrow> AuthUser option \<Rightarrow> string \<Rightarrow> bookingResponse db" where
  "queue_cancel uuid_parse ctx rawID =
     bindE (lift_result (AuthUserFrom ctx)) (\<lambda>authUser.
     bindE (lift_result (ParseUUIDParam uuid_parse rawID)) (\<lambda>qid.
     guarded (QueueRepo_FindByID qid) (sees_booking authUser) (NotFound ''queue_not_found'') (\<lambda>_.
     bindE (CancelBooking qid) withPosition)))"

definition queue_history ::
  "AuthUser option \<Rightarrow> string \<Rightarrow> string \<Rightarrow> (bookingResponse list \<times> Pagination \<times> nat) db" where
  "queue_history ctx rawPage rawSize =
     bindE (lift_result (AuthUserFrom ctx)) (\<lambda>authUser.
     let pagination = ParsePagination rawPage rawSize
     in bindE (QueueRepo_ListByUser (au_id authUser) (Offset pagination) (Limit pagination)) (\<lambda>(rows, cnt).
        bindE (mapE withPosition rows) (\<lambda>items.
        return_ok (items, pagination, cnt))))"

section \<open>The staff's endpoints\<close>

definition togglePause ::
  "(string \<Rightarrow> uuid option) \<Rightarrow> AuthUser option \<Rightarrow> string \<Rightarrow> (uuid \<Rightarrow> Queue db) \<Rightarrow> bookingResponse db" where
  "togglePause uuid_parse ctx rawID action =
     bindE (lift_result (AuthUserFrom ctx)) (\<lambda>authUser.
     bindE (lift_result (ParseUUIDParam uuid_parse rawID)) (\<lambda>qid.
     guarded (QueueRepo_FindByID qid) (\<lambda>q. OwnsWashingPoint authUser (q_WashingPointID q))
       (NotFound ''queue_not_found'') (\<lambda>_.
     bindE (action qid) (\<lambda>q. return_ok (toBookingResponse q)))))"

definition queue_pause :: "(string \<Rightarrow> uuid option) \<Rightarrow> AuthUser option \<Rightarrow> string \<Rightarrow> bookingResponse db" where
  "queue_pause uuid_parse ctx rawID = togglePause uuid_parse ctx rawID Pause"

definition queue_resume :: "(string \<Rightarrow> uuid option) \<Rightarrow> AuthUser option \<Rightarrow> string \<Rightarrow> bookingResponse db" where
  "queue_resume uuid_parse ctx rawID = togglePause uuid_parse ctx rawID Resume"

definition staff_target :: "string \<Rightarrow> Status option" where
  "staff_target s =
     find (\<lambda>st. status_string st = s) [StatusWaiting, StatusWashing, StatusReady, StatusNoShow, StatusQueue]"

definition queue_updateStatus ::
  "(Queue \<Rightarrow> world \<Rightarrow> world) option \<Rightarrow> (string \<Rightarrow> uuid option) \<Rightarrow> AuthUser option \<Rightarrow> string \<Rightarrow>
   apperror + string \<Rightarrow> bookingResponse db" where
  "queue_updateStatus notifier uuid_parse ctx rawID body =
     bindE (lift_result (AuthUserFrom ctx)) (\<lambda>authUser.
     bindE (lift_result (ParseUUIDParam uuid_parse rawID)) (\<lambda>qid.
     guarded (QueueRepo_FindByID qid) (\<lambda>q. OwnsWashingPoint authUser (q_WashingPointID q))
       (NotFound ''queue_not_found'') (\<lambda>_.
     bindE (lift_result body) (\<lambda>rawStatus.
     case staff_target rawStatus of
       None \<Rightarrow> fail_with (BadRequest ''invalid_status'')
     | Some newStatus \<Rightarrow>
         bindE (UpdateStatus notifier qid newStatus) (\<lambda>q. return_ok (toBookingResponse q))))))"

section \<open>A foreign booking looks like a missing one\<close>

definition full_booking :: "uuid \<Rightarrow> world \<Rightarrow> Queue option" where
  "full_booking qid w = map_option (\<lambda>r. r\<lparr>q_Items := items_of (q_ID r) w\<rparr>) (booking qid w)"

interpretation bg: ownership_guard QueueRepo_FindByID full_booking "NotFound ''queue_not_found''"
proof
  fix w :: world and k assume "w_faults w = []"
  then show "QueueRepo_FindByID k w =
      (case full_booking k w of None \<Rightarrow> (Inl (NotFound ''queue_not_found''), w) | Some r \<Rightarrow> (Inr r, w))"
    by (simp add: QueueRepo_FindByID_no_fault full_booking_def split: option.split)
next
  show "read_only (QueueRepo_FindByID k)" for k by (rule read_only_FindByID)
next
  fix k w e w' assume "QueueRepo_FindByID k w = (Inl e, w')"
  then show "e = NotFound ''queue_not_found'' \<or> e = Internal"
    unfolding QueueRepo_FindByID_def first_or_def itemsFor_def
    by (auto elim!: bindE_cases query_Inl split: option.splits)
qed

definition town_body :: createBookingRequest where
  "town_body = \<lparr>cr_car_id = ''car'', cr_service_id = ''wash'', cr_price_option_id = ''sedan'', cr_items = [],
     cr_box_number = 1, cr_scheduled_start_at = ''ten'', cr_notes = Some '' please ''\<rparr>"

definition town_time :: "string \<Rightarrow> time option" where
  "town_time s = (if s = ''ten'' then Some (5 * Hour) else None)"

definition town_customer :: AuthUser where
  "town_customer = \<lparr>au_id = 7, au_role = ''customer'', au_wp = None\<rparr>"

definition town_booked :: world where
  "town_booked = snd (queue_create town_parse town_time (Some town_customer) (Inr town_body) town_world)"

section \<open>Errors after the commit\<close>

lemma withPosition_errors:
  "read_only (withPosition q)" "withPosition q w = (Inl e, w') \<Longrightarrow> e = Internal"
proof -
  show "read_only (withPosition q)"
    unfolding withPosition_def CountActiveAhead_def by (intro read_only_intros)
  assume "withPosition q w = (Inl e, w')"
  then show "e = Internal"
    unfolding withPosition_def CountActiveAhead_def
    by (auto elim!: bindE_cases query_Inl split: if_split_asm)
qed

text \<open>
  C13 The outcomes of the create endpoint under any faults: a successful answer means that exactly
  one booking of the caller was added; an error means that nothing was changed, unless the error
  is the internal one of the position query that runs after the booking was committed.
\<close>

theorem create_outcomes:
  assumes "queue_create uuid_parse parse_RFC3339 (Some u) body w = (r, w')" "services_placed w"
  shows "(\<exists>q. w_queue w' = w_queue w @ [q\<lparr>q_Items := []\<rparr>] \<and> w_items w' = w_items w @ q_Items q \<and>
           q_UserID q = au_id u \<and> q_Status q = StatusQueue \<and>
           (r = Inl Internal \<or> (\<exists>n. r = Inr ((toBookingResponse q)\<lparr>bkr_cars_ahead := n\<rparr>)))) \<or>
         (\<exists>e. r = Inl e \<and> same_tables w w')"
proof (cases "\<exists>req carID items start nts. body = Inr req \<and>
    parseUUIDField uuid_parse (cr_car_id req) ''car_id'' = Inr carID \<and>
    parseBookingItems uuid_parse (cr_items req) (cr_service_id req) (cr_price_option_id req) = Inr items \<and>
    parseScheduledStart parse_RFC3339 (cr_scheduled_start_at req) = Inr start \<and> parse_notes (cr_notes req) = Inr nts")
  case False
  then have "\<exists>e. r = Inl e \<and> w' = w"
    using assms(1) unfolding queue_create_def
    by (auto simp: AuthUserFrom_def split: sum.splits)
  then show ?thesis by auto
next
  case True
  then obtain req carID items start nts where p: "body = Inr req"
    "parseUUIDField uuid_parse (cr_car_id req) ''car_id'' = Inr carID"
    "parseBookingItems uuid_parse (cr_items req) (cr_service_id req) (cr_price_option_id req) = Inr items"
    "parseScheduledStart parse_RFC3339 (cr_scheduled_start_at req) = Inr start" "parse_notes (cr_notes req) = Inr nts"
    by blast
  define inp where "inp = \<lparr>cb_UserID = au_id u, cb_CarID = carID, cb_Items = items,
     cb_BoxNumber = cr_box_number req, cb_ScheduledStartAt = start, cb_Notes = nts\<rparr>"
  have "bindE (CreateBooking inp) withPosition w = (r, w')"
    using assms(1) unfolding queue_create_def inp_def by (simp add: AuthUserFrom_def p)
  then show ?thesis
  proof (cases rule: bindE_cases)
    case (stop e)
    then show ?thesis
      using atomicD [OF atomic_booking_ops(1)] by blast
  next
    case (go q v)
    have q: "q_Status q = StatusQueue" "q_UserID q = au_id u"
      "w_queue v = w_queue w @ [q\<lparr>q_Items := []\<rparr>]" "w_items v = w_items w @ q_Items q"
      by (rule CreateBooking_Inr [OF go(1) assms(2)], simp_all add: inp_def)+
    have same: "w_queue w' = w_queue v" "w_items w' = w_items v"
      using same_tablesD(8,9) [OF read_onlyD [OF withPosition_errors(1) go(2)]] by simp_all
    have r: "r = Inl Internal \<or> (\<exists>n. r = Inr ((toBookingResponse q)\<lparr>bkr_cars_ahead := n\<rparr>))"
    proof (cases r)
      case (Inl e)
      then show ?thesis using withPosition_errors(2) go(2) by blast
    next
      case (Inr resp)
      then show ?thesis using go(2) q(1)
        by (auto simp: withPosition_def activeStatuses_def elim!: bindE_InrE)
    qed
    show ?thesis using q same r by (intro disjI1 exI [of _ q]) simp
  qed
qed

theorem create_outcomes_witness:
  "\<exists>r w' q. queue_create town_parse town_time (Some town_customer) (Inr town_body)
      (town_world\<lparr>w_faults := replicate 13 False @ [True]\<rparr>) = (r, w') \<and>
    r = Inl Internal \<and> w_queue w' = [q\<lparr>q_Items := []\<rparr>] \<and> q_UserID q = 7"
proof -
  define out where "out = queue_create town_parse town_time (Some town_customer) (Inr town_body)
      (town_world\<lparr>w_faults := replicate 13 False @ [True]\<rparr>)"
  obtain r w' where o: "out = (r, w')" by (cases out)
  have "fst out = Inl Internal \<and> length (w_queue (snd out)) = 1" unfolding out_def by code_simp
  then have r: "r = Inl Internal" "length (w_queue w') = 1" by (simp_all add: o)
  have t: "services_placed (town_world\<lparr>w_faults := replicate 13 False @ [True]\<rparr>)"
    using town_world_ok(4) by (simp add: services_placed_def)
  have nil: "w_queue town_world = []" by (simp add: town_world_def empty_world_def)
  from create_outcomes [OF o [unfolded out_def] t] r obtain q where
    "w_queue w' = w_queue (town_world\<lparr>w_faults := replicate 13 False @ [True]\<rparr>) @ [q\<lparr>q_Items := []\<rparr>]"
    "q_UserID q = au_id town_customer"
    using nil by (auto dest: same_tablesD(8))
  then show ?thesis using o r nil unfolding out_def
    by (intro exI [of _ r] exI [of _ w'] exI [of _ q]) (simp add: town_customer_def)
qed

text \<open>Every endpoint keeps the invariant of the queue table.\<close>

lemma booking_endpoints_keep_queue_ok:
  assumes "\<And>q w. queue_ok w \<Longrightarrow> queue_ok (notify q w)"
  shows "preserves queue_ok (queue_create uuid_parse parse_RFC3339 ctx cbody)"
    "preserves queue_ok (queue_cancel uuid_parse ctx rawID)"
    "preserves queue_ok (queue_pause uuid_parse ctx rawID)"
    "preserves queue_ok (queue_resume uuid_parse ctx rawID)"
    "preserves queue_ok (queue_updateStatus (Some notify) uuid_parse ctx rawID sbody)"
proof -
  have pos: "preserves queue_ok (withPosition q)" for q
    unfolding withPosition_def CountActiveAhead_def
    by (intro db_preserves preserves_query queue_ok_table)
  note g = bg.guarded_preserves [OF queue_ok_table _ preserves_QueueRepo_FindByID [OF queue_ok_table]]
  note ops = CreateBooking_ok CancelBooking_ok Pause_ok Resume_ok UpdateStatus_ok
  show "preserves queue_ok (queue_create uuid_parse parse_RFC3339 ctx cbody)"
    unfolding queue_create_def by (intro preserves_bindE preserves_pure ops pos)
  show "preserves queue_ok (queue_cancel uuid_parse ctx rawID)"
    unfolding queue_cancel_def by (intro preserves_bindE preserves_pure g ops pos)
  show "preserves queue_ok (queue_pause uuid_parse ctx rawID)"
    "preserves queue_ok (queue_resume uuid_parse ctx rawID)"
    unfolding queue_pause_def queue_resume_def togglePause_def
    by (intro preserves_bindE preserves_pure g ops)+
  have "preserves queue_ok (UpdateStatus (Some notify) qid st)" for qid st
    by (rule UpdateStatus_ok) (use assms in auto)
  then show "preserves queue_ok (queue_updateStatus (Some notify) uuid_parse ctx rawID sbody)"
    unfolding queue_updateStatus_def by (intro preserves_bindE preserves_pure g preserves_case_option)
qed

end
