(* ===== verification/Board.thy ===== *)
theory Board
  imports BookingApi
begin

text \<open>
  The staff's live views of \<open>internal/queue\<close>: the network list, the day's queue, the box cards and
  the lobby display, with the batch loading of customers, cars and services behind them
  (\<open>handler.go\<close>, \<open>helpers.go\<close>).
\<close>

section \<open>Batch-loaded references\<close>

record rowRefs =
  rr_users :: "uuid \<rightharpoonup> User"
  rr_cars :: "uuid \<rightharpoonup> Car"
  rr_services :: "uuid \<rightharpoonup> Service"

definition index_by :: "('r \<Rightarrow> uuid) \<Rightarrow> 'r list \<Rightarrow> (uuid \<rightharpoonup> 'r)" where
  "index_by key rows = foldl (\<lambda>m r. m(key r \<mapsto> r)) (\<lambda>_. None) rows"

definition refs_phone :: "rowRefs \<Rightarrow> uuid \<Rightarrow> string" where
  "refs_phone r uid = (case rr_users r uid of None \<Rightarrow> [] | Some u \<Rightarrow> PhoneOrEmpty u)"

definition refs_carName :: "rowRefs \<Rightarrow> uuid option \<Rightarrow> string" where
  "refs_carName r cid =
     (case cid of None \<Rightarrow> [] | Some k \<Rightarrow> (case rr_cars r k of None \<Rightarrow> [] | Some c \<Rightarrow> car_Name c))"

definition refs_serviceName :: "rowRefs \<Rightarrow> uuid \<Rightarrow> string" where
  "refs_serviceName r sid = (case rr_services r sid of None \<Rightarrow> [] | Some s \<Rightarrow> sv_Name s)"

definition serviceLabel :: "rowRefs \<Rightarrow> Queue \<Rightarrow> string" where
  "serviceLabel r q =
     (if q_Items q = [] then refs_serviceName r (q_ServiceID q)
      else Join (map (\<lambda>it. refs_serviceName r (qi_ServiceID it)) (q_Items q)) '', '')"

definition add_unseen :: "uuid list \<Rightarrow> uuid \<Rightarrow> uuid list" where
  "add_unseen ids k = (if k \<in> set ids then ids else ids @ [k])"

definition uniqueIDs :: "Queue list \<Rightarrow> (Queue \<Rightarrow> uuid) \<Rightarrow> uuid list" where
  "uniqueIDs rows pick = foldl (\<lambda>ids row. add_unseen ids (pick row)) [] rows"

text \<open>The identifiers of the first items, then those of every item not seen yet.\<close>

definition with_item_ids :: "Queue list \<Rightarrow> (Queue \<Rightarrow> uuid) \<Rightarrow> (QueueItem \<Rightarrow> uuid) \<Rightarrow> uuid list" where
  "with_item_ids rows pick pick_item =
     foldl (\<lambda>ids row. foldl (\<lambda>ids it. add_unseen ids (pick_item it)) ids (q_Items row)) (uniqueIDs rows pick) rows"

definition loadRefs :: "Queue list \<Rightarrow> bool \<Rightarrow> rowRefs db" where
  "loadRefs rows withServices =
     bindE (UserRepo_FindByIDs (uniqueIDs rows q_UserID)) (\<lambda>users.
     bindE (CarRepo_FindByIDs (filter (\<lambda>k. k \<noteq> uuid_Nil)
              (uniqueIDs rows (\<lambda>q. case q_CarID q of None \<Rightarrow> uuid_Nil | Some c \<Rightarrow> c)))) (\<lambda>cars.
     if withServices
     then bindE (ServiceRepo_FindByIDs (with_item_ids rows q_ServiceID qi_ServiceID)) (\<lambda>services.
          return_ok \<lparr>rr_users = index_by u_ID users, rr_cars = index_by car_ID cars,
            rr_services = index_by sv_ID services\<rparr>)
     else return_ok \<lparr>rr_users = index_by u_ID users, rr_cars = index_by car_ID cars,
            rr_services = (\<lambda>_. None)\<rparr>))"

definition lastNDigits :: "string \<Rightarrow> nat \<Rightarrow> string" where
  "lastNDigits s n = (if length s \<le> n then s else drop (length s - n) s)"

section \<open>Lists of bookings\<close>

record boardItemResponse =
  bi_id :: uuid
  bi_status :: string
  bi_box_number :: int
  bi_is_overflow :: bool
  bi_scheduled_start_at :: time
  bi_scheduled_end_at :: time
  bi_paused_at :: "time option"
  bi_customer_phone_last4 :: string
  bi_car_name :: string

definition board_item :: "rowRefs \<Rightarrow> Queue \<Rightarrow> boardItemResponse" where
  "board_item refs row =
     \<lparr>bi_id = q_ID row, bi_status = status_string (q_Status row), bi_box_number = q_BoxNumber row,
      bi_is_overflow = q_IsOverflow row, bi_scheduled_start_at = q_ScheduledStartAt row,
      bi_scheduled_end_at = q_ScheduledEndAt row, bi_paused_at = q_PausedAt row,
      bi_customer_phone_last4 = lastNDigits (refs_phone refs (q_UserID row)) 4,
      bi_car_name = refs_carName refs (q_CarID row)\<rparr>"

definition toBoardItems :: "Queue list \<Rightarrow> boardItemResponse list db" where
  "toBoardItems rows =
     bindE (loadRefs rows False) (\<lambda>refs. return_ok (map (board_item refs) rows))"

definition queue_list ::
  "(string \<Rightarrow> uuid option) \<Rightarrow> AuthUser option \<Rightarrow> string \<Rightarrow> boardItemResponse list db" where
  "queue_list uuid_parse ctx rawPoint =
     bindE (lift_result (AuthUserFrom ctx)) (\<lambda>authUser.
     if au_role authUser = ''admin''
     then (if rawPoint \<noteq> []
           then (case uuid_parse rawPoint of
                   None \<Rightarrow> fail_with (BadRequest ''invalid_washing_point_id'')
                 | Some pid \<Rightarrow> bindE (ListLive (Some pid)) toBoardItems)
           else bindE (ListLive None) toBoardItems)
     else case au_wp authUser of
            Some pid \<Rightarrow> bindE (ListLive (Some pid)) toBoardItems
          | None \<Rightarrow> return_ok [])"

definition listByWashingPoint ::
  "(string \<Rightarrow> uuid option) \<Rightarrow> AuthUser option \<Rightarrow> string \<Rightarrow> string \<Rightarrow> boardItemResponse list db" where
  "listByWashingPoint uuid_parse ctx rawID rawDate =
     bindE (ownWashingPointID uuid_parse ctx rawID) (\<lambda>pid.
     bindE (dayFromQuery rawDate) (\<lambda>day.
     case DayBounds day of (dayStart, dayEnd) \<Rightarrow>
       bindE (ListLiveWithOverflowByWashingPointAndDate pid dayStart dayEnd) toBoardItems))"

section \<open>Box cards\<close>

record liveBoxBookingResponse =
  lb_id :: uuid
  lb_status :: string
  lb_service_name :: string
  lb_scheduled_start_at :: time
  lb_scheduled_end_at :: time
  lb_paused_at :: "time option"
  lb_customer_phone_last4 :: string
  lb_car_name :: string

record liveBoxResponse =
  lx_number :: int
  lx_label :: "string option"
  lx_is_open :: bool
  lx_current :: "liveBoxBookingResponse option"
  lx_next :: "liveBoxBookingResponse option"

definition live_enrich :: "rowRefs \<Rightarrow> Queue \<Rightarrow> liveBoxBookingResponse" where
  "live_enrich refs row =
     \<lparr>lb_id = q_ID row, lb_status = status_string (q_Status row), lb_service_name = serviceLabel refs row,
      lb_scheduled_start_at = q_ScheduledStartAt row, lb_scheduled_end_at = q_ScheduledEndAt row,
      lb_paused_at = q_PausedAt row, lb_customer_phone_last4 = lastNDigits (refs_phone refs (q_UserID row)) 4,
      lb_car_name = refs_carName refs (q_CarID row)\<rparr>"

text \<open>The loop that fills \<open>currentByBox\<close> (the last washing row wins) and \<open>nextByBox\<close> (the first one).\<close>

definition box_maps :: "Queue list \<Rightarrow> (int \<rightharpoonup> Queue) \<times> (int \<rightharpoonup> Queue)" where
  "box_maps rows =
     foldl (\<lambda>(cur, nxt) row.
       if q_Status row = StatusWashing then (cur(q_BoxNumber row \<mapsto> row), nxt)
       else if nxt (q_BoxNumber row) = None then (cur, nxt(q_BoxNumber row \<mapsto> row)) else (cur, nxt))
     ((\<lambda>_. None), (\<lambda>_. None)) rows"

definition live_box :: "rowRefs \<Rightarrow> (int \<rightharpoonup> Queue) \<times> (int \<rightharpoonup> Queue) \<Rightarrow> Box \<Rightarrow> liveBoxResponse" where
  "live_box refs m b =
     (let item = \<lparr>lx_number = bx_Number b, lx_label = bx_Label b, lx_is_open = bx_IsOpen b,
                  lx_current = None, lx_next = None\<rparr>
      in case fst m (bx_Number b) of
           Some cur \<Rightarrow> item\<lparr>lx_current := Some (live_enrich refs cur)\<rparr>
         | None \<Rightarrow>
             (case snd m (bx_Number b) of
                Some nxt \<Rightarrow> item\<lparr>lx_next := Some (live_enrich refs nxt)\<rparr>
              | None \<Rightarrow> item))"

definition toLiveBoxItems :: "Box list \<Rightarrow> Queue list \<Rightarrow> liveBoxResponse list db" where
  "toLiveBoxItems boxes rows =
     bindE (loadRefs rows True) (\<lambda>refs. return_ok (map (live_box refs (box_maps rows)) boxes))"

definition boxesLive ::
  "(string \<Rightarrow> uuid option) \<Rightarrow> AuthUser option \<Rightarrow> string \<Rightarrow> liveBoxResponse list db" where
  "boxesLive uuid_parse ctx rawID =
     bindE (ownWashingPointID uuid_parse ctx rawID) (\<lambda>pid.
     bindE (BoxRepo_ListByWashingPoint pid) (\<lambda>boxes.
     bindE (ListLiveByWashingPoint pid) (\<lambda>rows.
     toLiveBoxItems boxes rows)))"

section \<open>The lobby display\<close>

record boardBookingResponse =
  bb_status :: string
  bb_service_name :: string
  bb_scheduled_start_at :: time
  bb_scheduled_end_at :: time
  bb_paused_at :: "time option"
  bb_customer_phone_last4 :: string
  bb_car_name :: string

record boardBoxResponse =
  bbx_number :: int
  bbx_label :: "string option"
  bbx_is_open :: bool
  bbx_current :: "boardBookingResponse option"

record boardWaitingItemResponse =
  bw_id :: uuid
  bw_status :: string
  bw_box_number :: int
  bw_service_name :: string
  bw_scheduled_start_at :: time
  bw_customer_phone_last4 :: string
  bw_car_name :: string

record boardResponse =
  bd_boxes_active :: nat
  bd_boxes_total :: nat
  bd_boxes :: "boardBoxResponse list"
  bd_waiting :: "boardWaitingItemResponse list"

definition board_booking :: "rowRefs \<Rightarrow> Queue \<Rightarrow> boardBookingResponse" where
  "board_booking refs cur =
     \<lparr>bb_status = status_string (q_Status cur), bb_service_name = serviceLabel refs cur,
      bb_scheduled_start_at = q_ScheduledStartAt cur, bb_scheduled_end_at = q_ScheduledEndAt cur,
      bb_paused_at = q_PausedAt cur, bb_customer_phone_last4 = lastNDigits (refs_phone refs (q_UserID cur)) 4,
      bb_car_name = refs_carName refs (q_CarID cur)\<rparr>"

definition board_box :: "rowRefs \<Rightarrow> (int \<rightharpoonup> Queue) \<Rightarrow> Box \<Rightarrow> boardBoxResponse" where
  "board_box refs cur b =
     \<lparr>bbx_number = bx_Number b, bbx_label = bx_Label b, bbx_is_open = bx_IsOpen b,
      bbx_current = map_option (board_booking refs) (cur (bx_Number b))\<rparr>"

definition board_waiting :: "rowRefs \<Rightarrow> Queue \<Rightarrow> boardWaitingItemResponse" where
  "board_waiting refs row =
     \<lparr>bw_id = q_ID row, bw_status = status_string (q_Status row), bw_box_number = q_BoxNumber row,
      bw_service_name = serviceLabel refs row, bw_scheduled_start_at = q_ScheduledStartAt row,
      bw_customer_phone_last4 = lastNDigits (refs_phone refs (q_UserID row)) 4,
      bw_car_name = refs_carName refs (q_CarID row)\<rparr>"

definition buildBoardResponse :: "uuid \<Rightarrow> boardResponse db" where
  "buildBoardResponse pid =
     bindE (BoxRepo_ListByWashingPoint pid) (\<lambda>boxes.
     bindE time_Now (\<lambda>now.
     case DayBounds now of (dayStart, dayEnd) \<Rightarrow>
     bindE (ListLiveByWashingPointAndDate pid dayStart dayEnd) (\<lambda>rows.
     bindE (loadRefs rows True) (\<lambda>refs.
     let currentByBox = foldl (\<lambda>m row. if q_Status row = StatusWashing then m(q_BoxNumber row \<mapsto> row) else m)
           (\<lambda>_. None) rows;
         respBoxes = map (board_box refs currentByBox) boxes
     in return_ok
          \<lparr>bd_boxes_active = length (filter (\<lambda>b. bbx_current b \<noteq> None) respBoxes),
           bd_boxes_total = length boxes,
           bd_boxes = respBoxes,
           bd_waiting = map (board_waiting refs) (filter (\<lambda>row. q_Status row \<noteq> StatusWashing) rows)\<rparr>))))"

definition queue_board :: "(string \<Rightarrow> uuid option) \<Rightarrow> AuthUser option \<Rightarrow> string \<Rightarrow> boardResponse db" where
  "queue_board uuid_parse ctx rawID =
     bindE (ownWashingPointID uuid_parse ctx rawID) buildBoardResponse"

section \<open>Batch loading agrees with looking each row up\<close>

lemma add_unseen_set [simp]: "set (add_unseen ids k) = insert k (set ids)"
  by (auto simp: add_unseen_def)

lemma add_unseen_distinct: "distinct ids \<Longrightarrow> distinct (add_unseen ids k)"
  by (simp add: add_unseen_def)

lemma fold_unseen:
  "set (foldl (\<lambda>ids row. add_unseen ids (pick row)) ids rows) = set ids \<union> pick ` set rows"
  "distinct ids \<Longrightarrow> distinct (foldl (\<lambda>ids row. add_unseen ids (pick row)) ids rows)"
  by (induction rows arbitrary: ids) (auto simp: add_unseen_distinct)

lemma uniqueIDs_set [simp]: "set (uniqueIDs rows pick) = pick ` set rows"
  by (simp add: uniqueIDs_def fold_unseen(1))

lemma uniqueIDs_distinct: "distinct (uniqueIDs rows pick)"
  by (simp add: uniqueIDs_def fold_unseen(2))

lemma with_item_ids_set:
  "set (with_item_ids rows pick pick_item) =
     pick ` set rows \<union> (\<Union>row \<in> set rows. pick_item ` set (q_Items row))"
proof -
  have "set (foldl (\<lambda>ids row. foldl (\<lambda>ids it. add_unseen ids (pick_item it)) ids (q_Items row)) ids rs) =
      set ids \<union> (\<Union>row \<in> set rs. pick_item ` set (q_Items row))" for ids and rs :: "Queue list"
    by (induction rs arbitrary: ids) (auto simp: fold_unseen(1))
  then show ?thesis by (simp add: with_item_ids_def)
qed

lemma index_fold:
  "foldl (\<lambda>m r. m(key r \<mapsto> r)) m0 rows k =
     (case find (\<lambda>r. key r = k) (rev rows) of None \<Rightarrow> m0 k | Some r \<Rightarrow> Some r)"
  by (induction rows rule: rev_induct) (auto split: option.splits)

lemma find_SomeD: "find P xs = Some x \<Longrightarrow> x \<in> set xs \<and> P x"
  by (induction xs) (auto split: if_splits)

lemma index_by_find:
  assumes "distinct (map key rows)" "k \<in> S"
  shows "index_by key (filter (\<lambda>r. key r \<in> S) rows) k = find_row key k rows"
proof (cases "find_row key k rows")
  case None
  then have "find (\<lambda>r. key r = k) (rev (filter (\<lambda>r. key r \<in> S) rows)) = None"
    by (auto simp: find_None_iff find_row_None)
  then show ?thesis by (simp add: index_by_def index_fold None)
next
  case (Some r)
  then have r: "r \<in> set rows" "key r = k" by (auto dest: find_row_SomeD)
  have "\<exists>x. find (\<lambda>r. key r = k) (rev (filter (\<lambda>r. key r \<in> S) rows)) = Some x"
    using r assms(2) by (cases "find (\<lambda>r. key r = k) (rev (filter (\<lambda>r. key r \<in> S) rows))")
      (auto simp: find_None_iff)
  then obtain x where x: "find (\<lambda>r. key r = k) (rev (filter (\<lambda>r. key r \<in> S) rows)) = Some x" ..
  then have "x \<in> set rows" "key x = k" by (auto dest: find_SomeD)
  then have "x = r" using assms(1) r by (auto simp: distinct_map inj_on_def)
  with x Some show ?thesis by (simp add: index_by_def index_fold)
qed

lemma FindByIDs_Inr:
  "UserRepo_FindByIDs ids w = (Inr us, w') \<Longrightarrow> us = filter (\<lambda>u. u_ID u \<in> set ids) (w_users w) \<and> same_tables w w'"
  "CarRepo_FindByIDs ids w = (Inr cs, w') \<Longrightarrow> cs = filter (\<lambda>c. car_ID c \<in> set ids) (w_cars w) \<and> same_tables w w'"
  "ServiceRepo_FindByIDs ids w = (Inr ss, w') \<Longrightarrow> ss = filter (\<lambda>s. sv_ID s \<in> set ids) (w_services w) \<and> same_tables w w'"
  unfolding UserRepo_FindByIDs_def CarRepo_FindByIDs_def ServiceRepo_FindByIDs_def
  by (auto elim!: query_Inr split: if_split_asm)

lemma read_only_loadRefs: "read_only (loadRefs rows b)"
  unfolding loadRefs_def UserRepo_FindByIDs_def CarRepo_FindByIDs_def ServiceRepo_FindByIDs_def
  by (intro read_only_intros)

text \<open>
  Batch loading is an optimisation only: for every row of the batch the customer, the car and
  the services it finds are those a lookup by identifier finds, whatever rows repeat or refer to
  nothing.
\<close>

theorem loadRefs_equals_lookups:
  assumes "loadRefs rows True w = (Inr refs, w')" "row \<in> set rows"
    and "distinct (map u_ID (w_users w))" "distinct (map car_ID (w_cars w))" "distinct (map sv_ID (w_services w))"
  shows "rr_users refs (q_UserID row) = find_row u_ID (q_UserID row) (w_users w) \<and>
    (\<forall>c. q_CarID row = Some c \<and> c \<noteq> uuid_Nil \<longrightarrow> rr_cars refs c = find_row car_ID c (w_cars w)) \<and>
    rr_services refs (q_ServiceID row) = service_by_id (q_ServiceID row) w \<and>
    (\<forall>it \<in> set (q_Items row). rr_services refs (qi_ServiceID it) = service_by_id (qi_ServiceID it) w)"
proof -
  let ?cids = "filter (\<lambda>k. k \<noteq> uuid_Nil)
      (uniqueIDs rows (\<lambda>q. case q_CarID q of None \<Rightarrow> uuid_Nil | Some c \<Rightarrow> c))"
  from assms(1) obtain us u1 cs u2 ss u3 where f: "UserRepo_FindByIDs (uniqueIDs rows q_UserID) w = (Inr us, u1)"
    "CarRepo_FindByIDs ?cids u1 = (Inr cs, u2)"
    "ServiceRepo_FindByIDs (with_item_ids rows q_ServiceID qi_ServiceID) u2 = (Inr ss, u3)"
    and refs: "refs = \<lparr>rr_users = index_by u_ID us, rr_cars = index_by car_ID cs, rr_services = index_by sv_ID ss\<rparr>"
    unfolding loadRefs_def by (auto elim!: bindE_InrE)
  note us = FindByIDs_Inr(1) [OF f(1)] and cs = FindByIDs_Inr(2) [OF f(2)] and ss = FindByIDs_Inr(3) [OF f(3)]
  have w1: "same_tables w u1" and w2: "same_tables w u2"
    using us cs by (auto intro: same_tables_trans)
  have cs': "cs = filter (\<lambda>c. car_ID c \<in> set ?cids) (w_cars w)"
    using cs same_tablesD(2) [OF w1] by simp
  have ss': "ss = filter (\<lambda>s. sv_ID s \<in> set (with_item_ids rows q_ServiceID qi_ServiceID)) (w_services w)"
    using ss same_tablesD(4) [OF w2] by simp
  have "rr_users refs (q_UserID row) = find_row u_ID (q_UserID row) (w_users w)"
    unfolding refs using us index_by_find [OF assms(3), of "q_UserID row" "set (uniqueIDs rows q_UserID)"] assms(2)
    by simp
  moreover have "rr_cars refs c = find_row car_ID c (w_cars w)" if c: "q_CarID row = Some c" "c \<noteq> uuid_Nil" for c
  proof -
    have "c \<in> set ?cids" using c assms(2) by (force simp: image_iff)
    then show ?thesis unfolding refs cs' by (simp only: rowRefs.simps index_by_find [OF assms(4)])
  qed
  moreover have "rr_services refs k = service_by_id k w"
    if "k \<in> set (with_item_ids rows q_ServiceID qi_ServiceID)" for k
    unfolding refs ss' service_by_id_def by (simp only: rowRefs.simps index_by_find [OF assms(5) that])
  moreover have "qi_ServiceID it \<in> set (with_item_ids rows q_ServiceID qi_ServiceID)" if "it \<in> set (q_Items row)" for it
    using that assms(2) by (auto simp: with_item_ids_set)
  moreover have "q_ServiceID row \<in> set (with_item_ids rows q_ServiceID qi_ServiceID)"
    using assms(2) by (auto simp: with_item_ids_set)
  ultimately show ?thesis by blast
qed

text \<open>The nil identifier stands for no car: it is not asked for, so nothing is found under it.\<close>

lemma loadRefs_no_nil_car:
  assumes "loadRefs rows True w = (Inr refs, w')"
  shows "rr_cars refs uuid_Nil = None"
proof -
  let ?cids = "filter (\<lambda>k. k \<noteq> uuid_Nil)
      (uniqueIDs rows (\<lambda>q. case q_CarID q of None \<Rightarrow> uuid_Nil | Some c \<Rightarrow> c))"
  from assms obtain u1 cs u2 where cs: "CarRepo_FindByIDs ?cids u1 = (Inr cs, u2)"
    and refs: "rr_cars refs = index_by car_ID cs"
    unfolding loadRefs_def by (auto elim!: bindE_InrE)
  have "find (\<lambda>c. car_ID c = uuid_Nil) (rev cs) = None"
    using FindByIDs_Inr(2) [OF cs] by (auto simp: find_None_iff)
  then show ?thesis by (simp add: refs index_by_def index_fold)
qed

definition town_row :: Queue where
  "town_row = \<lparr>q_ID = 50, q_Status = StatusWaiting, q_UserID = 7, q_CarID = Some 8, q_ServiceID = 1,
     q_PriceOptionID = 2, q_WashingPointID = 5, q_BoxNumber = 1, q_IsOverflow = False,
     q_ScheduledStartAt = 5 * Hour, q_ScheduledEndAt = 5 * Hour + 30 * Minute, q_Notes = None,
     q_Source = SourceApp, q_CanceledAt = None, q_PausedAt = None, q_CreatedAt = 0, q_Items = []\<rparr>"

lemma town_ids:
  "distinct (map u_ID (w_users town_world))" "distinct (map car_ID (w_cars town_world))"
  "distinct (map sv_ID (w_services town_world))"
  by (simp_all add: town_world_def empty_world_def)

theorem loadRefs_equals_lookups_witness:
  "\<exists>refs w'. loadRefs [town_row] True town_world = (Inr refs, w') \<and>
     map_option u_PhoneNumber (rr_users refs 7) = Some (Some ''+992900000001'')"
proof -
  have "is_ok (fst (loadRefs [town_row] True town_world))" by code_simp
  then obtain refs w' where r: "loadRefs [town_row] True town_world = (Inr refs, w')"
    by (cases "loadRefs [town_row] True town_world") (auto simp: is_ok_def split: sum.splits)
  have "q_UserID town_row = 7" by (simp add: town_row_def)
  with loadRefs_equals_lookups [OF r _ town_ids, of town_row]
  have "rr_users refs 7 = find_row u_ID 7 (w_users town_world)" by simp
  moreover have "map_option u_PhoneNumber (find_row u_ID 7 (w_users town_world)) = Some (Some ''+992900000001'')"
    by code_simp
  ultimately show ?thesis using r by auto
qed

section \<open>What the box cards show\<close>

lemma box_maps_snoc:
  "box_maps (rows @ [row]) =
     (case box_maps rows of (cur, nxt) \<Rightarrow>
       if q_Status row = StatusWashing then (cur(q_BoxNumber row \<mapsto> row), nxt)
       else if nxt (q_BoxNumber row) = None then (cur, nxt(q_BoxNumber row \<mapsto> row)) else (cur, nxt))"
  by (simp add: box_maps_def split: prod.split)

text \<open>The current booking of a box is the last row that is washing, the next one the first that is not.\<close>

lemma box_maps_find:
  "fst (box_maps rows) n = find (\<lambda>q. q_Status q = StatusWashing \<and> q_BoxNumber q = n) (rev rows)"
  "snd (box_maps rows) n = find (\<lambda>q. q_Status q \<noteq> StatusWashing \<and> q_BoxNumber q = n) rows"
proof -
  have app: "find P (xs @ [x]) = (case find P xs of None \<Rightarrow> if P x then Some x else None | Some y \<Rightarrow> Some y)"
    for P :: "Queue \<Rightarrow> bool" and xs x by (induction xs) auto
  have "fst (box_maps rows) n = find (\<lambda>q. q_Status q = StatusWashing \<and> q_BoxNumber q = n) (rev rows) \<and>
    snd (box_maps rows) n = find (\<lambda>q. q_Status q \<noteq> StatusWashing \<and> q_BoxNumber q = n) rows"
    by (induction rows rule: rev_induct)
      (auto simp: box_maps_snoc app box_maps_def split: prod.splits option.splits)
  then show "fst (box_maps rows) n = find (\<lambda>q. q_Status q = StatusWashing \<and> q_BoxNumber q = n) (rev rows)"
    "snd (box_maps rows) n = find (\<lambda>q. q_Status q \<noteq> StatusWashing \<and> q_BoxNumber q = n) rows"
    by simp_all
qed

lemma sorted_find_first:
  "sorted (map k xs) \<Longrightarrow> find P xs = Some x \<Longrightarrow> y \<in> set xs \<Longrightarrow> P y \<Longrightarrow> k x \<le> k y"
  by (induction xs) (auto split: if_splits)

lemma sorted_find_last:
  "sorted (map k xs) \<Longrightarrow> find P (rev xs) = Some x \<Longrightarrow> y \<in> set xs \<Longrightarrow> P y \<Longrightarrow> k y \<le> k x"
proof (induction xs rule: rev_induct)
  case (snoc z zs)
  then show ?case using find_SomeD [of P "rev zs" x] by (auto simp: sorted_append split: if_splits)
qed simp

text \<open>A list query returns every row with its own items.\<close>

definition with_items :: "world \<Rightarrow> Queue \<Rightarrow> Queue" where
  "with_items w q = q\<lparr>q_Items := items_of (q_ID q) w\<rparr>"

lemma with_items_simps [simp]:
  "q_ID (with_items w q) = q_ID q" "q_Status (with_items w q) = q_Status q" "q_UserID (with_items w q) = q_UserID q"
  "q_CarID (with_items w q) = q_CarID q" "q_ServiceID (with_items w q) = q_ServiceID q"
  "q_BoxNumber (with_items w q) = q_BoxNumber q" "q_PausedAt (with_items w q) = q_PausedAt q"
  "q_ScheduledStartAt (with_items w q) = q_ScheduledStartAt q" "q_ScheduledEndAt (with_items w q) = q_ScheduledEndAt q"
  "q_Items (with_items w q) = items_of (q_ID q) w"
  by (simp_all add: with_items_def)

lemma find_rows_with_items:
  assumes "find_rows p w = (Inr rows, w')"
  shows "rows = map (with_items w) (sort_key q_ScheduledStartAt (filter p (w_queue w)))" "same_tables w w'"
proof -
  show "same_tables w w'" by (rule find_rows_Inr [OF assms])
  let ?rs = "sort_key q_ScheduledStartAt (filter p (w_queue w))"
  obtain rs u where q: "query (\<lambda>w. sort_key q_ScheduledStartAt (filter p (w_queue w))) w = (Inr rs, u)"
    and a: "attachItems rs u = (Inr rows, w')"
    using assms unfolding find_rows_def by (rule bindE_InrE) blast
  have rs: "rs = ?rs" by (rule query_Inr [OF q]) simp
  have "same_tables w u" by (rule query_Inr [OF q]) simp
  then have items: "w_items u = w_items w" using same_tablesD(9) [of w u] by simp
  obtain f v where f: "itemsFor (map q_ID rs) u = (Inr f, v)"
    and rows: "rows = map (\<lambda>q. q\<lparr>q_Items := f (q_ID q)\<rparr>) rs"
    using a unfolding attachItems_def by (auto elim!: bindE_InrE)
  have "f (q_ID q) = items_of (q_ID q) w" if "q \<in> set rs" for q
    using f that items unfolding itemsFor_def by (auto simp: items_of_def split: if_splits elim!: query_Inr)
  then show "rows = map (with_items w) ?rs" unfolding rows by (simp add: rs with_items_def)
qed

definition live_at :: "uuid \<Rightarrow> Queue \<Rightarrow> bool" where
  "live_at pid q \<longleftrightarrow> \<not> q_IsOverflow q \<and> active_status (q_Status q) \<and> q_WashingPointID q = pid"

lemma ownWashingPointID_Inr:
  assumes "ownWashingPointID uuid_parse ctx rawID w = (Inr pid, w')"
  obtains u where "ctx = Some u" "uuid_parse rawID = Some pid" "OwnsWashingPoint u pid" "w' = w"
  using assms unfolding ownWashingPointID_def AuthUserFrom_def ParseUUIDParam_def
  by (auto elim!: bindE_InrE split: option.splits if_splits)

lemma BoxRepo_List_Inr:
  assumes "BoxRepo_ListByWashingPoint pid w = (Inr boxes, w')"
  shows "boxes = sort_key bx_Number (point_boxes pid w)" "same_tables w w'"
proof -
  show "boxes = sort_key bx_Number (point_boxes pid w)"
    using assms unfolding BoxRepo_ListByWashingPoint_def by (rule query_Inr) (simp add: point_boxes_def)
  show "same_tables w w'"
    using read_onlyD [OF read_only_query assms [unfolded BoxRepo_ListByWashingPoint_def]] .
qed

lemma live_box_fields:
  "lx_number (live_box refs m b) = bx_Number b"
  "lx_current (live_box refs m b) = map_option (live_enrich refs) (fst m (bx_Number b))"
  "lx_next (live_box refs m b) =
     (if fst m (bx_Number b) = None then map_option (live_enrich refs) (snd m (bx_Number b)) else None)"
  by (auto simp: live_box_def Let_def split: option.split)

lemma find_None_Ball: "(find P xs = None) \<longleftrightarrow> (\<forall>x \<in> set xs. \<not> P x)"
  by (induction xs) auto

text \<open>What a card should say of a booking, looked up row by row in the tables.\<close>

definition customer_phone :: "world \<Rightarrow> Queue \<Rightarrow> string" where
  "customer_phone w r = (case find_row u_ID (q_UserID r) (w_users w) of None \<Rightarrow> [] | Some u \<Rightarrow> PhoneOrEmpty u)"

definition booked_car :: "world \<Rightarrow> Queue \<Rightarrow> string" where
  "booked_car w r =
     (case q_CarID r of
        None \<Rightarrow> []
      | Some k \<Rightarrow> if k = uuid_Nil then []
          else (case find_row car_ID k (w_cars w) of None \<Rightarrow> [] | Some c \<Rightarrow> car_Name c))"

definition service_title :: "world \<Rightarrow> uuid \<Rightarrow> string" where
  "service_title w k = (case service_by_id k w of None \<Rightarrow> [] | Some s \<Rightarrow> sv_Name s)"

definition booked_services :: "world \<Rightarrow> Queue \<Rightarrow> string" where
  "booked_services w r =
     (if items_of (q_ID r) w = [] then service_title w (q_ServiceID r)
      else Join (map (\<lambda>it. service_title w (qi_ServiceID it)) (items_of (q_ID r) w)) '', '')"

definition card_of :: "world \<Rightarrow> Queue \<Rightarrow> liveBoxBookingResponse" where
  "card_of w r =
     \<lparr>lb_id = q_ID r, lb_status = status_string (q_Status r), lb_service_name = booked_services w r,
      lb_scheduled_start_at = q_ScheduledStartAt r, lb_scheduled_end_at = q_ScheduledEndAt r,
      lb_paused_at = q_PausedAt r,
      lb_customer_phone_last4 = drop (length (customer_phone w r) - 4) (customer_phone w r),
      lb_car_name = booked_car w r\<rparr>"

text \<open>The live bookings of a box that are being washed, and those that are not yet.\<close>

definition box_rows :: "uuid \<Rightarrow> int \<Rightarrow> bool \<Rightarrow> world \<Rightarrow> Queue list" where
  "box_rows pid n washing w =
     filter (\<lambda>r. live_at pid r \<and> q_BoxNumber r = n \<and> (q_Status r = StatusWashing) = washing) (w_queue w)"

text \<open>The card of a box: its latest washing booking, or else its earliest queued one, or else none.\<close>

definition box_card_spec :: "uuid \<Rightarrow> world \<Rightarrow> Box \<Rightarrow> liveBoxResponse \<Rightarrow> bool" where
  "box_card_spec pid w b x \<longleftrightarrow>
     lx_number x = bx_Number b \<and> lx_label x = bx_Label b \<and> lx_is_open x = bx_IsOpen b \<and>
     (let washing = box_rows pid (bx_Number b) True w; queued = box_rows pid (bx_Number b) False w
      in case lx_current x of
           Some y \<Rightarrow> lx_next x = None \<and>
             (\<exists>r \<in> set washing. y = card_of w r \<and>
                (\<forall>s \<in> set washing. q_ScheduledStartAt s \<le> q_ScheduledStartAt r))
         | None \<Rightarrow> washing = [] \<and>
             (case lx_next x of
                None \<Rightarrow> queued = []
              | Some y \<Rightarrow> \<exists>r \<in> set queued. y = card_of w r \<and>
                  (\<forall>s \<in> set queued. q_ScheduledStartAt r \<le> q_ScheduledStartAt s)))"

lemma enriched_card:
  assumes "loadRefs rows True u = (Inr refs, u')" "with_items w r \<in> set rows" "same_tables w u"
    and "distinct (map u_ID (w_users w))" "distinct (map car_ID (w_cars w))" "distinct (map sv_ID (w_services w))"
  shows "live_enrich refs (with_items w r) = card_of w r"
proof -
  note t = same_tablesD [OF assms(3)]
  note l = loadRefs_equals_lookups [OF assms(1,2), simplified t [symmetric], OF assms(4-6), simplified]
  have sv: "service_by_id k u = service_by_id k w" for k using t(4) by (simp add: service_by_id_def)
  have "refs_phone refs (q_UserID r) = customer_phone w r"
    using l by (simp add: refs_phone_def customer_phone_def)
  moreover have "refs_carName refs (q_CarID r) = booked_car w r"
    using l loadRefs_no_nil_car [OF assms(1)]
    by (auto simp: refs_carName_def booked_car_def split: option.split)
  moreover have "serviceLabel refs (with_items w r) = booked_services w r"
  proof -
    have "map (\<lambda>it. refs_serviceName refs (qi_ServiceID it)) (items_of (q_ID r) w) =
        map (\<lambda>it. service_title w (qi_ServiceID it)) (items_of (q_ID r) w)"
      by (rule map_cong [OF refl]) (simp add: l sv refs_serviceName_def service_title_def)
    moreover have "refs_serviceName refs (q_ServiceID r) = service_title w (q_ServiceID r)"
      using l by (simp add: sv refs_serviceName_def service_title_def)
    ultimately show ?thesis by (simp only: serviceLabel_def booked_services_def with_items_simps)
  qed
  ultimately show ?thesis
    by (auto simp: live_enrich_def card_of_def lastNDigits_def)
qed

text \<open>The two maps of the loop, read off the table.\<close>

lemma box_maps_rows:
  assumes "rows = map (with_items w) (sort_key q_ScheduledStartAt (filter (live_at pid) (w_queue w)))"
  shows "case fst (box_maps rows) n of
      None \<Rightarrow> box_rows pid n True w = []
    | Some q \<Rightarrow> \<exists>r \<in> set (box_rows pid n True w). q = with_items w r \<and>
        (\<forall>s \<in> set (box_rows pid n True w). q_ScheduledStartAt s \<le> q_ScheduledStartAt r)"
    "case snd (box_maps rows) n of
      None \<Rightarrow> box_rows pid n False w = []
    | Some q \<Rightarrow> \<exists>r \<in> set (box_rows pid n False w). q = with_items w r \<and>
        (\<forall>s \<in> set (box_rows pid n False w). q_ScheduledStartAt r \<le> q_ScheduledStartAt s)"
proof -
  have sorted: "sorted (map q_ScheduledStartAt rows)" by (simp add: assms o_def)
  have mem: "with_items w r \<in> set rows" if "r \<in> set (box_rows pid n b w)" for r b
    using that by (simp add: assms box_rows_def)
  have row: "\<exists>r \<in> set (box_rows pid n b w). q = with_items w r"
    if "q \<in> set rows" "q_BoxNumber q = n" "(q_Status q = StatusWashing) = b" for q b
    using that by (auto simp: assms box_rows_def)
  have st: "q_BoxNumber r = n" "(q_Status r = StatusWashing) = b" if "r \<in> set (box_rows pid n b w)" for r b
    using that by (simp_all add: box_rows_def)
  have no_row: "box_rows pid n b w = []"
    if "\<forall>q \<in> set rows. \<not> ((q_Status q = StatusWashing) = b \<and> q_BoxNumber q = n)" for b
  proof (rule ccontr)
    assume "box_rows pid n b w \<noteq> []"
    then have "hd (box_rows pid n b w) \<in> set (box_rows pid n b w)" by (rule hd_in_set)
    with that mem st show False by fastforce
  qed
  show "case fst (box_maps rows) n of
      None \<Rightarrow> box_rows pid n True w = []
    | Some q \<Rightarrow> \<exists>r \<in> set (box_rows pid n True w). q = with_items w r \<and>
        (\<forall>s \<in> set (box_rows pid n True w). q_ScheduledStartAt s \<le> q_ScheduledStartAt r)"
  proof (cases "fst (box_maps rows) n")
    case None
    then have "box_rows pid n True w = []" by (intro no_row) (auto simp: box_maps_find find_None_Ball)
    with None show ?thesis by simp
  next
    case (Some q)
    note f = Some [unfolded box_maps_find]
    from find_SomeD [OF f] have "q \<in> set rows" "q_BoxNumber q = n" "(q_Status q = StatusWashing) = True" by auto
    from row [OF this] obtain r where r: "r \<in> set (box_rows pid n True w)" "q = with_items w r" by blast
    have "q_ScheduledStartAt s \<le> q_ScheduledStartAt r" if "s \<in> set (box_rows pid n True w)" for s
      using sorted_find_last [OF sorted f mem [OF that]] st [OF that] by (simp add: r(2))
    with Some r show ?thesis by auto
  qed
  show "case snd (box_maps rows) n of
      None \<Rightarrow> box_rows pid n False w = []
    | Some q \<Rightarrow> \<exists>r \<in> set (box_rows pid n False w). q = with_items w r \<and>
        (\<forall>s \<in> set (box_rows pid n False w). q_ScheduledStartAt r \<le> q_ScheduledStartAt s)"
  proof (cases "snd (box_maps rows) n")
    case None
    then have "box_rows pid n False w = []" by (intro no_row) (auto simp: box_maps_find find_None_Ball)
    with None show ?thesis by simp
  next
    case (Some q)
    note f = Some [unfolded box_maps_find]
    from find_SomeD [OF f] have "q \<in> set rows" "q_BoxNumber q = n" "(q_Status q = StatusWashing) = False" by auto
    from row [OF this] obtain r where r: "r \<in> set (box_rows pid n False w)" "q = with_items w r" by blast
    have "q_ScheduledStartAt r \<le> q_ScheduledStartAt s" if "s \<in> set (box_rows pid n False w)" for s
      using sorted_find_first [OF sorted f mem [OF that]] st [OF that] by (simp add: r(2))
    with Some r show ?thesis by auto
  qed
qed

text \<open>
  C34 The box cards: only a caller of the point sees them, an account bound to it or an administrator.
  There is one card per box, in the order of the numbers, with the label and the open flag of the box.
  A card shows as current the live booking that is being washed in the box, the latest start if there
  are several; only if there is none, it shows as next the live booking with the earliest start that is
  queued for the box; and only if there is none either, nothing. Everything said of the booking shown,
  identifier, status, times, pause, services, car and the last four characters of the phone, is
  what the tables hold for that booking.
\<close>

theorem boxesLive_exact:
  assumes "boxesLive uuid_parse ctx rawID w = (Inr items, w')"
    and "distinct (map u_ID (w_users w))" "distinct (map car_ID (w_cars w))" "distinct (map sv_ID (w_services w))"
  shows "\<exists>u pid. ctx = Some u \<and> uuid_parse rawID = Some pid \<and> OwnsWashingPoint u pid \<and>
    list_all2 (box_card_spec pid w) (sort_key bx_Number (point_boxes pid w)) items"
proof -
  from assms(1) obtain pid u0 boxes u1 rows u2 where o: "ownWashingPointID uuid_parse ctx rawID w = (Inr pid, u0)"
    and b: "BoxRepo_ListByWashingPoint pid u0 = (Inr boxes, u1)"
    and r: "ListLiveByWashingPoint pid u1 = (Inr rows, u2)" and it: "toLiveBoxItems boxes rows u2 = (Inr items, w')"
    unfolding boxesLive_def by (elim bindE_InrE)
  from o obtain u where u: "ctx = Some u" "uuid_parse rawID = Some pid" "OwnsWashingPoint u pid" and w0: "u0 = w"
    by (rule ownWashingPointID_Inr) blast
  note boxes = BoxRepo_List_Inr [OF b, unfolded w0]
  obtain refs where refs: "loadRefs rows True u2 = (Inr refs, w')"
    and items: "items = map (live_box refs (box_maps rows)) boxes"
    using it unfolding toLiveBoxItems_def by (auto elim!: bindE_InrE)
  have "find_rows (live_at pid) u1 = (Inr rows, u2)"
    using r unfolding ListLiveByWashingPoint_def ListLive_def option.case live_at_def [abs_def] by (simp only: conj_assoc)
  note found = find_rows_with_items [OF this]
  have "with_items u1 = with_items w" "w_queue u1 = w_queue w"
    using same_tablesD(8,9) [OF boxes(2)] by (auto simp: with_items_def items_of_def)
  then have rows: "rows = map (with_items w) (sort_key q_ScheduledStartAt (filter (live_at pid) (w_queue w)))"
    using found(1) by simp
  have u2: "same_tables w u2" using same_tables_trans [OF boxes(2) found(2)] .
  have card: "live_enrich refs (with_items w q) = card_of w q" if "q \<in> set (box_rows pid n washing w)" for q n washing
    by (rule enriched_card [OF refs _ u2 assms(2-4)]) (use that in \<open>simp add: rows box_rows_def\<close>)
  have "box_card_spec pid w b (live_box refs (box_maps rows) b)" for b
    using box_maps_rows [OF rows, of "bx_Number b"] card
    by (auto simp: box_card_spec_def live_box_def Let_def split: option.splits)
  then have "list_all2 (box_card_spec pid w) boxes items" by (simp add: items list_all2_conv_all_nth)
  with u boxes(1) show ?thesis by blast
qed

definition town_staff :: AuthUser where
  "town_staff = \<lparr>au_id = 9, au_role = ''worker'', au_wp = Some 5\<rparr>"

definition town_live :: world where
  "town_live = town_world\<lparr>w_queue := [town_row],
     w_boxes := [\<lparr>bx_ID = 9, bx_WashingPointID = 5, bx_Number = 1, bx_Label = None, bx_IsOpen = True\<rparr>]\<rparr>"

lemma loadRefs_no_fault: "w_faults w = [] \<Longrightarrow> \<exists>refs. loadRefs rows b w = (Inr refs, w)"
  by (simp add: loadRefs_def UserRepo_FindByIDs_def CarRepo_FindByIDs_def ServiceRepo_FindByIDs_def bindE_def)

lemma ownWashingPointID_no_fault:
  "uuid_parse rawID = Some pid \<Longrightarrow> OwnsWashingPoint u pid \<Longrightarrow>
   ownWashingPointID uuid_parse (Some u) rawID w = (Inr pid, w)"
  by (simp add: ownWashingPointID_def AuthUserFrom_def ParseUUIDParam_def)

lemma boxesLive_no_fault:
  assumes "w_faults w = []" "uuid_parse rawID = Some pid" "OwnsWashingPoint u pid"
  shows "\<exists>items. boxesLive uuid_parse (Some u) rawID w = (Inr items, w)"
proof -
  obtain rows where "ListLiveByWashingPoint pid w = (Inr rows, w)"
    using find_rows_no_fault [OF assms(1)] unfolding ListLiveByWashingPoint_def ListLive_def by blast
  moreover obtain refs where "loadRefs rows True w = (Inr refs, w)" using loadRefs_no_fault [OF assms(1)] by blast
  ultimately show ?thesis
    using assms(1) by (simp add: boxesLive_def ownWashingPointID_no_fault [where uuid_parse = uuid_parse and rawID = rawID, OF assms(2,3)] bindE_def
        BoxRepo_ListByWashingPoint_def toLiveBoxItems_def)
qed

theorem boxesLive_exact_witness:
  "\<exists>x w'. boxesLive town_parse (Some town_staff) ''point'' town_live = (Inr [x], w') \<and>
     lx_current x = None \<and> lx_next x = Some (card_of town_live town_row) \<and>
     lb_car_name (card_of town_live town_row) = ''Opel'' \<and> lb_customer_phone_last4 (card_of town_live town_row) = ''0001''"
proof -
  have f: "w_faults town_live = []" by (simp add: town_live_def town_world_ok(1))
  have o: "town_parse ''point'' = Some 5" "OwnsWashingPoint town_staff 5"
    by (simp_all add: town_parse_def town_staff_def OwnsWashingPoint_def)
  have ids: "distinct (map u_ID (w_users town_live))" "distinct (map car_ID (w_cars town_live))"
    "distinct (map sv_ID (w_services town_live))"
    using town_ids by (simp_all add: town_live_def)
  obtain items where r: "boxesLive town_parse (Some town_staff) ''point'' town_live = (Inr items, town_live)"
    using boxesLive_no_fault [where uuid_parse = town_parse and rawID = "''point''", OF f o] by blast
  from boxesLive_exact [OF r ids] o(1)
  have spec: "list_all2 (box_card_spec 5 town_live) (sort_key bx_Number (point_boxes 5 town_live)) items" by auto
  have boxes: "sort_key bx_Number (point_boxes 5 town_live) = w_boxes town_live"
    by (simp add: point_boxes_def town_live_def)
  from spec obtain x where x: "items = [x]" "box_card_spec 5 town_live (hd (w_boxes town_live)) x"
    unfolding boxes by (auto simp: town_live_def list_all2_Cons1)
  have n: "bx_Number (hd (w_boxes town_live)) = 1" by (simp add: town_live_def)
  have rows: "box_rows 5 1 True town_live = []" "box_rows 5 1 False town_live = [town_row]"
    by (simp_all add: box_rows_def town_live_def town_row_def live_at_def)
  have "lx_current x = None" "lx_next x = Some (card_of town_live town_row)"
    using x(2) by (auto simp: box_card_spec_def n rows split: option.splits)
  moreover have "lb_car_name (card_of town_live town_row) = ''Opel''"
    "lb_customer_phone_last4 (card_of town_live town_row) = ''0001''"
    by code_simp+
  ultimately show ?thesis using r x(1) by blast
qed

end
