(* ===== verification/DayView.thy ===== *)
theory DayView
  imports Board
begin

text \<open>
  \<open>internal/queue/handler_day.go\<close>: the cabinet's day view with its tickets and the endpoint that
  books a walk-in client. A ticket is a letter for the box and a number that counts the box's
  bookings of the day in order of creation.
\<close>

section \<open>Tickets\<close>

definition ticketNumberBase :: int where "ticketNumberBase = 10"

definition overflowTicketPrefix :: string where "overflowTicketPrefix = ''O-''"

text \<open>Go's \<open>%\<close> takes the sign of the dividend.\<close>

definition ticketPrefix :: "int \<Rightarrow> string" where
  "ticketPrefix box =
     (if box = 0 then overflowTicketPrefix
      else (let r = (if box - 1 < 0 then - ((- (box - 1)) mod 26) else (box - 1) mod 26)
            in [char_of (nat (65 + r))] @ ''-''))"

definition creation_key :: "Queue \<Rightarrow> time \<times> uuid" where
  "creation_key q = (q_CreatedAt q, q_ID q)"

definition ticket_step :: "(int \<Rightarrow> int) \<times> (uuid \<rightharpoonup> string) \<Rightarrow> Queue \<Rightarrow> (int \<Rightarrow> int) \<times> (uuid \<rightharpoonup> string)" where
  "ticket_step s row =
     (let n = fst s (q_BoxNumber row) + 1
      in ((fst s)(q_BoxNumber row := n),
          (snd s)(q_ID row \<mapsto> ticketPrefix (q_BoxNumber row) @ Itoa (ticketNumberBase + n))))"

definition ticketByID :: "Queue list \<Rightarrow> (uuid \<rightharpoonup> string)" where
  "ticketByID rows = snd (foldl ticket_step ((\<lambda>_. 0), (\<lambda>_. None)) (sort_key creation_key rows))"

section \<open>The day view\<close>

record dayItemLine =
  dl_service_id :: uuid
  dl_service_name :: string
  dl_price_option_id :: uuid
  dl_price_option_name :: string
  dl_price_cents :: int

record dayItemResponse =
  di_id :: uuid
  di_status :: string
  di_ticket :: string
  di_box_number :: int
  di_is_overflow :: bool
  di_scheduled_start_at :: time
  di_scheduled_end_at :: time
  di_paused_at :: "time option"
  di_source :: string
  di_car_name :: string
  di_plate :: string
  di_client_name :: string
  di_client_phone :: string
  di_service_name :: string
  di_price_option_name :: string
  di_price_cents :: int
  di_items :: "dayItemLine list"

definition day_line :: "rowRefs \<Rightarrow> (uuid \<rightharpoonup> ServicePriceOption) \<Rightarrow> QueueItem \<Rightarrow> dayItemLine" where
  "day_line refs options it =
     \<lparr>dl_service_id = qi_ServiceID it, dl_service_name = refs_serviceName refs (qi_ServiceID it),
      dl_price_option_id = qi_PriceOptionID it,
      dl_price_option_name = (case options (qi_PriceOptionID it) of None \<Rightarrow> [] | Some p \<Rightarrow> po_Name p),
      dl_price_cents = (case options (qi_PriceOptionID it) of None \<Rightarrow> 0 | Some p \<Rightarrow> po_PriceCents p)\<rparr>"

definition str_or_empty :: "string option \<Rightarrow> string" where
  "str_or_empty s = (case s of None \<Rightarrow> [] | Some t \<Rightarrow> t)"

definition day_item ::
  "rowRefs \<Rightarrow> (uuid \<rightharpoonup> ServicePriceOption) \<Rightarrow> (uuid \<rightharpoonup> string) \<Rightarrow> Queue \<Rightarrow> dayItemResponse" where
  "day_item refs options tickets row =
     (let u = rr_users refs (q_UserID row);
          c = (case q_CarID row of None \<Rightarrow> None | Some k \<Rightarrow> rr_cars refs k);
          lines = map (day_line refs options) (q_Items row)
      in \<lparr>di_id = q_ID row, di_status = status_string (q_Status row),
          di_ticket = str_or_empty (tickets (q_ID row)), di_box_number = q_BoxNumber row,
          di_is_overflow = q_IsOverflow row, di_scheduled_start_at = q_ScheduledStartAt row,
          di_scheduled_end_at = q_ScheduledEndAt row, di_paused_at = q_PausedAt row,
          di_source = source_string (q_Source row),
          di_car_name = (case c of None \<Rightarrow> [] | Some v \<Rightarrow> car_Name v),
          di_plate = (case c of None \<Rightarrow> [] | Some v \<Rightarrow> str_or_empty (car_Plate v)),
          di_client_name = (case u of None \<Rightarrow> [] | Some v \<Rightarrow> str_or_empty (u_Name v)),
          di_client_phone = (case u of None \<Rightarrow> [] | Some v \<Rightarrow> PhoneOrEmpty v),
          di_service_name = serviceLabel refs row,
          di_price_option_name = (case lines of [l] \<Rightarrow> dl_price_option_name l | _ \<Rightarrow> []),
          di_price_cents = foldl (\<lambda>acc l. wrap64 (acc + dl_price_cents l)) 0 lines,
          di_items = lines\<rparr>)"

definition toDayItems :: "Queue list \<Rightarrow> dayItemResponse list db" where
  "toDayItems rows =
     bindE (loadRefs rows True) (\<lambda>refs.
     bindE (FindPriceOptionsByIDs (with_item_ids rows q_PriceOptionID qi_PriceOptionID)) (\<lambda>options.
     return_ok (map (day_item refs (index_by po_ID options) (ticketByID rows)) rows)))"

definition listDay ::
  "(string \<Rightarrow> uuid option) \<Rightarrow> AuthUser option \<Rightarrow> string \<Rightarrow> string \<Rightarrow> dayItemResponse list db" where
  "listDay uuid_parse ctx rawID rawDate =
     bindE (ownWashingPointID uuid_parse ctx rawID) (\<lambda>pid.
     bindE (dayFromQuery rawDate) (\<lambda>day.
     case DayBounds day of (dayStart, dayEnd) \<Rightarrow>
       bindE (FindByWashingPointAndRange pid dayStart dayEnd) toDayItems))"

section \<open>Booking a walk-in\<close>

record createManualBookingRequest =
  mr_service_id :: string
  mr_price_option_id :: string
  mr_items :: "bookingItemRequest list"
  mr_box_number :: int
  mr_overflow :: bool
  mr_scheduled_start_at :: string
  mr_car_name :: string
  mr_plate :: string
  mr_client_phone :: string
  mr_client_name :: string

definition createManual ::
  "(string \<Rightarrow> string) \<Rightarrow> (string \<Rightarrow> uuid option) \<Rightarrow> (string \<Rightarrow> time option) \<Rightarrow> AuthUser option \<Rightarrow> string \<Rightarrow>
   apperror + createManualBookingRequest \<Rightarrow> dayItemResponse db" where
  "createManual pg_lower uuid_parse parse_RFC3339 ctx rawID body =
     bindE (ownWashingPointID uuid_parse ctx rawID) (\<lambda>pid.
     bindE (lift_result body) (\<lambda>req.
     bindE (lift_result (parseBookingItems uuid_parse (mr_items req) (mr_service_id req) (mr_price_option_id req))) (\<lambda>items.
     bindE (lift_result (parseScheduledStart parse_RFC3339 (mr_scheduled_start_at req))) (\<lambda>start.
     bindE (lift_result (NormalizePhoneNumber (mr_client_phone req))) (\<lambda>phone.
     bindE (require (\<not> length (TrimSpace (mr_car_name req)) > 255) (BadRequest ''invalid_car_name'')) (\<lambda>_.
     bindE (require (\<not> length (TrimSpace (mr_plate req)) > 32) (BadRequest ''invalid_plate'')) (\<lambda>_.
     bindE (require (\<not> length (TrimSpace (mr_client_name req)) > 255) (BadRequest ''invalid_client_name'')) (\<lambda>_.
     bindE (CreateManualBooking pg_lower
              \<lparr>mb_WashingPointID = pid, mb_Items = items, mb_BoxNumber = mr_box_number req,
               mb_Overflow = mr_overflow req, mb_ScheduledStartAt = start,
               mb_CarName = TrimSpace (mr_car_name req), mb_Plate = TrimSpace (mr_plate req),
               mb_Phone = phone, mb_ClientName = TrimSpace (mr_client_name req)\<rparr>) (\<lambda>q.
     bindE (toDayItems [q]) (\<lambda>items.
     return_ok (hd items)))))))))))"

section \<open>What a ticket says\<close>

text \<open>The place of a booking among the bookings of its box, in order of creation.\<close>

definition ticket_rank :: "Queue list \<Rightarrow> Queue \<Rightarrow> nat" where
  "ticket_rank rows q =
     length (filter (\<lambda>r. q_BoxNumber r = q_BoxNumber q \<and> creation_key r \<le> creation_key q) rows)"

definition ticket :: "Queue list \<Rightarrow> Queue \<Rightarrow> string" where
  "ticket rows q = ticketPrefix (q_BoxNumber q) @ Itoa (ticketNumberBase + int (ticket_rank rows q))"

lemma ticket_fold_counts:
  "fst (foldl ticket_step s rows) n = fst s n + int (length (filter (\<lambda>r. q_BoxNumber r = n) rows))"
  by (induction rows arbitrary: s) (auto simp: ticket_step_def Let_def)

lemma ticket_fold_other:
  "k \<notin> q_ID ` set rows \<Longrightarrow> snd (foldl ticket_step s rows) k = snd s k"
  by (induction rows arbitrary: s) (auto simp: ticket_step_def Let_def)

lemma ticketByID_eq:
  assumes "distinct (map q_ID rows)" "q \<in> set rows"
  shows "ticketByID rows (q_ID q) = Some (ticket rows q)"
proof -
  let ?s = "sort_key creation_key rows"
  have q: "q \<in> set ?s" using assms(2) by simp
  then obtain xs ys where s: "?s = xs @ q # ys" by (meson split_list)
  have "mset (map q_ID ?s) = mset (map q_ID rows)" by (metis mset_map order_by_facts(3))
  then have d: "distinct (map q_ID ?s)" using assms(1) by (metis mset_eq_imp_distinct_iff)
  have srt: "sorted (map creation_key (xs @ q # ys))" using order_by_facts(4) s by metis
  have keys: "creation_key x \<le> creation_key q" if "x \<in> set xs" for x
    using srt that by (auto simp: sorted_append)
  have later: "\<not> creation_key y \<le> creation_key q" if "y \<in> set ys" for y
  proof -
    have "creation_key q \<le> creation_key y" using srt that by (auto simp: sorted_append)
    moreover have "q_ID q \<notin> q_ID ` set ys" using d by (auto simp: s)
    then have "q_ID y \<noteq> q_ID q" using that by (metis imageI)
    then have "creation_key y \<noteq> creation_key q" by (auto simp: creation_key_def)
    ultimately show ?thesis by auto
  qed
  have "ticket_rank rows q = length (filter (\<lambda>r. q_BoxNumber r = q_BoxNumber q \<and> creation_key r \<le> creation_key q) ?s)"
  proof -
    have "mset (filter P ?s) = mset (filter P rows)" for P by simp
    then show ?thesis unfolding ticket_rank_def by (metis (no_types, lifting) size_mset)
  qed
  also have "\<dots> = length (filter (\<lambda>r. q_BoxNumber r = q_BoxNumber q) xs) + 1"
  proof -
    have "filter (\<lambda>r. q_BoxNumber r = q_BoxNumber q \<and> creation_key r \<le> creation_key q) xs =
        filter (\<lambda>r. q_BoxNumber r = q_BoxNumber q) xs"
      using keys by (intro filter_cong) auto
    moreover have "filter (\<lambda>r. q_BoxNumber r = q_BoxNumber q \<and> creation_key r \<le> creation_key q) ys = []"
      using later by (auto simp: filter_empty_conv)
    ultimately show ?thesis by (simp add: s)
  qed
  finally have rank: "ticket_rank rows q = length (filter (\<lambda>r. q_BoxNumber r = q_BoxNumber q) xs) + 1" .
  let ?s0 = "((\<lambda>_. 0), (\<lambda>_. None)) :: (int \<Rightarrow> int) \<times> (uuid \<rightharpoonup> string)"
  have "q_ID q \<notin> q_ID ` set ys" using d by (auto simp: s)
  then have "ticketByID rows (q_ID q) = snd (ticket_step (foldl ticket_step ?s0 xs) q) (q_ID q)"
    unfolding ticketByID_def s by (simp add: ticket_fold_other)
  also have "\<dots> = Some (ticket rows q)"
    by (simp add: ticket_step_def Let_def ticket_fold_counts ticket_def rank algebra_simps)
  finally show ?thesis .
qed

definition ticket_key :: "Queue \<Rightarrow> uuid \<times> int \<times> time" where
  "ticket_key q = (q_ID q, q_BoxNumber q, q_CreatedAt q)"

lemma ticket_rank_mset:
  "ticket_rank rows q = size (filter_mset (\<lambda>(i, b, c). b = q_BoxNumber q \<and> (c, i) \<le> creation_key q)
     (mset (map ticket_key rows)))"
proof -
  have eq: "filter_mset (\<lambda>(i, b, c). b = q_BoxNumber q \<and> (c, i) \<le> creation_key q) (mset (map ticket_key rows)) =
      mset (map ticket_key (filter (\<lambda>r. q_BoxNumber r = q_BoxNumber q \<and> creation_key r \<le> creation_key q) rows))"
    by (induction rows) (auto simp: ticket_key_def creation_key_def)
  show ?thesis unfolding eq ticket_rank_def by (simp only: size_mset length_map)
qed

text \<open>
  Tickets are never renumbered: when bookings are added to the day after those it has, and
  the ones it has change in anything but their identifier, box and time of creation (their status,
  their car, their customer), every one of them keeps its ticket.
\<close>

theorem tickets_never_renumbered:
  assumes "distinct (map q_ID rows)" "distinct (map q_ID rows')"
    and "mset (map ticket_key rows') = mset (map ticket_key rows) + mset (map ticket_key new)"
    and "\<And>n q. n \<in> set new \<Longrightarrow> q \<in> set rows \<Longrightarrow> creation_key q < creation_key n"
    and "q \<in> set rows"
  shows "ticketByID rows' (q_ID q) = ticketByID rows (q_ID q) \<and> ticketByID rows (q_ID q) \<noteq> None"
proof -
  have "ticket_key q \<in># mset (map ticket_key rows')" using assms(3,5) by auto
  then obtain q' where q': "q' \<in> set rows'" "ticket_key q' = ticket_key q" by auto
  then have f: "q_ID q' = q_ID q" "q_BoxNumber q' = q_BoxNumber q" "creation_key q' = creation_key q"
    by (auto simp: ticket_key_def creation_key_def)
  have "\<not> (case x of (i, b, c) \<Rightarrow> b = q_BoxNumber q \<and> (c, i) \<le> creation_key q)"
    if x: "x \<in># mset (map ticket_key new)" for x
  proof -
    from x obtain n where "n \<in> set new" "x = ticket_key n" by auto
    with assms(4) [OF _ assms(5)] have "creation_key q < creation_key n" by blast
    then show ?thesis using \<open>x = ticket_key n\<close> by (simp add: ticket_key_def creation_key_def [of n] not_le)
  qed
  then have "filter_mset (\<lambda>(i, b, c). b = q_BoxNumber q \<and> (c, i) \<le> creation_key q) (mset (map ticket_key new)) = {#}"
    using filter_mset_cong [OF refl, of "mset (map ticket_key new)" _ "\<lambda>_. False"] by (metis (no_types, lifting) filter_mset_False)
  then have "ticket_rank rows' q' = ticket_rank rows q"
    unfolding ticket_rank_mset f assms(3) by simp
  then have "ticket rows' q' = ticket rows q" by (simp add: ticket_def f(2))
  then show ?thesis
    using ticketByID_eq [OF assms(2) q'(1)] ticketByID_eq [OF assms(1,5)] f(1) by simp
qed

lemma ticket_letter:
  assumes "0 \<le> a" "a \<le> 26" "a \<noteq> 15" "0 \<le> b" "b \<le> 26" "b \<noteq> 15" "ticketPrefix a @ s = ticketPrefix b @ t"
  shows "a = b \<and> s = t"
proof -
  have code: "ticketPrefix n = [char_of (nat (if n = 0 then 79 else 64 + n))] @ ''-''" if "0 \<le> n" "n \<le> 26" for n
  proof (cases "n = 0")
    case False
    then have "(n - 1) mod 26 = n - 1" using that by simp
    then show ?thesis using False that by (simp add: ticketPrefix_def Let_def add.commute)
  next
    case True
    moreover have "ticketPrefix 0 = [char_of (79 :: nat)] @ ''-''" by code_simp
    ultimately show ?thesis by simp
  qed
  have inj: "m = n" if "char_of m = (char_of n :: char)" "m < 256" "n < 256" for m n :: nat
    using that by (metis of_char_of mod_less)
  let ?c = "\<lambda>n :: int. nat (if n = 0 then 79 else 64 + n)"
  have "char_of (?c a) = (char_of (?c b) :: char) \<and> s = t"
    using assms(7) by (simp add: code [OF assms(1,2)] code [OF assms(4,5)])
  then have "?c a = ?c b" "s = t" using inj [of "?c a" "?c b"] assms(2,5) by auto
  then show ?thesis using assms(1-6) by (auto split: if_splits)
qed

lemma ticket_letter_clash: "ticketPrefix 15 = ticketPrefix 0" "ticketPrefix 27 = ticketPrefix 1"
  by code_simp+

lemma length_filter_mono: "(\<And>x. P x \<Longrightarrow> Q x) \<Longrightarrow> length (filter P xs) \<le> length (filter Q xs)"
  by (induction xs) auto

lemma ticket_rank_less:
  assumes "q \<in> set rows" "q_BoxNumber r = q_BoxNumber q" "creation_key r < creation_key q"
  shows "ticket_rank rows r < ticket_rank rows q"
proof -
  let ?P = "\<lambda>k x. q_BoxNumber x = q_BoxNumber q \<and> creation_key x \<le> k"
  obtain xs ys where s: "rows = xs @ q # ys" using assms(1) by (meson split_list)
  have imp: "?P (creation_key r) x \<Longrightarrow> ?P (creation_key q) x" for x using assms(3) by auto
  have le: "length (filter (?P (creation_key r)) xs) \<le> length (filter (?P (creation_key q)) xs)"
    "length (filter (?P (creation_key r)) ys) \<le> length (filter (?P (creation_key q)) ys)"
    by (rule length_filter_mono, rule imp, assumption)+
  have "\<not> creation_key q \<le> creation_key r" using assms(3) by auto
  then have "filter (?P (creation_key r)) rows = filter (?P (creation_key r)) xs @ filter (?P (creation_key r)) ys"
    by (simp add: s)
  moreover have "filter (?P (creation_key q)) rows = filter (?P (creation_key q)) xs @ q # filter (?P (creation_key q)) ys"
    by (simp add: s)
  ultimately show ?thesis using le by (simp only: ticket_rank_def assms(2) length_append list.size)
qed

text \<open>
  A ticket names one booking of the day, as long as the boxes are numbered up to 26 and the
  fifteenth, whose letter is that of the out-of-queue box, is not used.
\<close>

theorem tickets_distinct:
  assumes "distinct (map q_ID rows)" "q \<in> set rows" "r \<in> set rows" "q_ID q \<noteq> q_ID r"
    and "\<And>x. x \<in> set rows \<Longrightarrow> 0 \<le> q_BoxNumber x \<and> q_BoxNumber x \<le> 26 \<and> q_BoxNumber x \<noteq> 15"
  shows "ticketByID rows (q_ID q) \<noteq> ticketByID rows (q_ID r)"
proof
  assume "ticketByID rows (q_ID q) = ticketByID rows (q_ID r)"
  then have "ticket rows q = ticket rows r"
    using ticketByID_eq [OF assms(1,2)] ticketByID_eq [OF assms(1,3)] by simp
  then have "q_BoxNumber q = q_BoxNumber r \<and>
      Itoa (ticketNumberBase + int (ticket_rank rows q)) = Itoa (ticketNumberBase + int (ticket_rank rows r))"
    unfolding ticket_def using assms(5) [OF assms(2)] assms(5) [OF assms(3)] by (intro ticket_letter) auto
  then have box: "q_BoxNumber q = q_BoxNumber r" and n: "ticket_rank rows q = ticket_rank rows r"
    by (simp_all add: Itoa_def ticketNumberBase_def nat_add_distrib)
  have "creation_key q \<noteq> creation_key r" using assms(4) by (auto simp: creation_key_def)
  then consider "creation_key q < creation_key r" | "creation_key r < creation_key q" by (meson not_less_iff_gr_or_eq)
  then show False
    using ticket_rank_less [OF assms(3), of q] ticket_rank_less [OF assms(2), of r] box n by cases auto
qed

theorem tickets_distinct_witness:
  "ticketByID [town_row, town_row\<lparr>q_ID := 51\<rparr>] 50 \<noteq> ticketByID [town_row, town_row\<lparr>q_ID := 51\<rparr>] 51"
  using tickets_distinct [of "[town_row, town_row\<lparr>q_ID := 51\<rparr>]" town_row "town_row\<lparr>q_ID := 51\<rparr>"]
  by (simp add: town_row_def) force

theorem tickets_never_renumbered_witness:
  "ticketByID [town_row\<lparr>q_Status := StatusReady\<rparr>, town_row\<lparr>q_ID := 51\<rparr>] 50 = ticketByID [town_row] 50"
proof -
  have "ticketByID [town_row\<lparr>q_Status := StatusReady\<rparr>, town_row\<lparr>q_ID := 51\<rparr>] (q_ID town_row) =
      ticketByID [town_row] (q_ID town_row) \<and> ticketByID [town_row] (q_ID town_row) \<noteq> None"
    by (rule tickets_never_renumbered [where new = "[town_row\<lparr>q_ID := 51\<rparr>]"])
      (simp_all add: ticket_key_def creation_key_def town_row_def)
  then show ?thesis by (simp add: town_row_def)
qed

end
