(* ===== verification/Auth.thy ===== *)
theory Auth
  imports Users Ratelimit Phone Availability
begin

text \<open>
  \<open>internal/auth\<close>: one-time codes, password logins and rotating refresh tokens
  (\<open>repository.go\<close>, \<open>service.go\<close>, \<open>handler.go\<close>) and the token lifetimes of
  \<open>internal/platform/jwt\<close>. The third-party primitives (bcrypt, the signature of a JWT, HMAC, the
  random source, the SMS gateway) are the fields of \<open>auth_env\<close>; a \<open>None\<close> or \<open>False\<close> is an
  error of theirs. The service keeps the reviewer lock and the login lockout in memory, so its
  state is \<open>auth_mem\<close> beside the tables.
\<close>

section \<open>Repository\<close>

definition CreateOTPCode :: "OTPCode \<Rightarrow> OTPCode db" where
  "CreateOTPCode o' =
     statement (\<lambda>w. let row = o'\<lparr>otp_ID := w_next w, otp_CreatedAt := w_now w\<rparr>
       in (Inr row, w\<lparr>w_otps := w_otps w @ [row], w_next := w_next w + 1\<rparr>))"

definition latest_otp :: "string \<Rightarrow> world \<Rightarrow> OTPCode option" where
  "latest_otp phone w =
     (case sort_key (\<lambda>c. (- otp_CreatedAt c, otp_ID c))
             (filter (\<lambda>c. otp_PhoneNumber c = phone \<and> otp_ConsumedAt c = None) (w_otps w)) of
        [] \<Rightarrow> None | c # _ \<Rightarrow> Some c)"

definition LatestActiveOTPCode :: "string \<Rightarrow> OTPCode option db" where
  "LatestActiveOTPCode phone = query (latest_otp phone)"

text \<open>\<open>Save\<close> writes every column of the row.\<close>

definition SaveOTPCode :: "OTPCode \<Rightarrow> unit db" where
  "SaveOTPCode c = exec (\<lambda>w. w\<lparr>w_otps := update_where (\<lambda>r. otp_ID r = otp_ID c) (\<lambda>_. c) (w_otps w)\<rparr>)"

text \<open>The unique index on \<open>token_hash\<close> rejects a duplicate.\<close>

definition CreateRefreshToken :: "RefreshToken \<Rightarrow> RefreshToken db" where
  "CreateRefreshToken t =
     statement (\<lambda>w. let row = t\<lparr>rt_ID := w_next w, rt_CreatedAt := w_now w\<rparr>
       in if \<exists>r \<in> set (w_tokens w). rt_TokenHash r = rt_TokenHash t
          then (Inl Internal, w\<lparr>w_next := w_next w + 1\<rparr>)
          else (Inr row, w\<lparr>w_tokens := w_tokens w @ [row], w_next := w_next w + 1\<rparr>))"

definition active_token :: "string \<Rightarrow> world \<Rightarrow> RefreshToken option" where
  "active_token hash w =
     find (\<lambda>t. rt_TokenHash t = hash \<and> rt_RevokedAt t = None \<and> rt_ExpiresAt t > w_now w) (w_tokens w)"

definition FindActiveRefreshTokenByHash :: "string \<Rightarrow> RefreshToken option db" where
  "FindActiveRefreshTokenByHash hash = query (active_token hash)"

definition FindRefreshTokenByHash :: "string \<Rightarrow> RefreshToken option db" where
  "FindRefreshTokenByHash hash = query (\<lambda>w. find (\<lambda>t. rt_TokenHash t = hash) (w_tokens w))"

definition revoke_where :: "(RefreshToken \<Rightarrow> bool) \<Rightarrow> world \<Rightarrow> world" where
  "revoke_where p w = w\<lparr>w_tokens := update_where (\<lambda>t. p t \<and> rt_RevokedAt t = None)
     (\<lambda>t. t\<lparr>rt_RevokedAt := Some (w_now w)\<rparr>) (w_tokens w)\<rparr>"

definition RevokeRefreshTokenIfActive :: "uuid \<Rightarrow> bool db" where
  "RevokeRefreshTokenIfActive tid =
     statement (\<lambda>w. (Inr (length (filter (\<lambda>t. rt_ID t = tid \<and> rt_RevokedAt t = None) (w_tokens w)) = 1),
       revoke_where (\<lambda>t. rt_ID t = tid) w))"

definition RevokeRefreshToken :: "uuid \<Rightarrow> unit db" where
  "RevokeRefreshToken tid = exec (revoke_where (\<lambda>t. rt_ID t = tid))"

definition RevokeAllRefreshTokensForUser :: "uuid \<Rightarrow> unit db" where
  "RevokeAllRefreshTokensForUser uid = exec (revoke_where (\<lambda>t. rt_UserID t = uid))"

section \<open>Configuration, environment and memory\<close>

record AuthConfig =
  ac_AccessTokenTTL :: duration
  ac_StaffAccessTokenTTL :: duration
  ac_RefreshTokenTTL :: duration
  ac_OTPTTL :: duration
  ac_OTPCooldown :: duration
  ac_OTPMaxAttempts :: int
  ac_ReviewPhone :: string
  ac_ReviewOTP :: string

record auth_env =
  ae_compare :: "string \<Rightarrow> string \<Rightarrow> bool"
  ae_hash :: "string \<Rightarrow> string option"
  ae_sign :: "claims \<Rightarrow> time \<Rightarrow> time \<Rightarrow> string option"
  ae_hmac :: "string \<Rightarrow> string"
  ae_uuid_string :: "uuid \<Rightarrow> string"
  ae_random_code :: "nat option"
  ae_random_token :: "string option"
  ae_sms :: "string \<Rightarrow> string \<Rightarrow> bool"

record auth_mem =
  am_reviewFailures :: int
  am_reviewLockedUntil :: time
  am_loginLockout :: "Lockout option"

type_synonym 'a auth = "(auth_mem \<times> world, apperror, 'a) action"

definition on_db :: "'a db \<Rightarrow> 'a auth" where
  "on_db m = (\<lambda>(s, w). case m w of (r, w') \<Rightarrow> (r, (s, w')))"

definition auth_now :: "time auth" where
  "auth_now = reads (\<lambda>(s, w). w_now w)"

definition set_mem :: "(auth_mem \<Rightarrow> auth_mem) \<Rightarrow> unit auth" where
  "set_mem f = writes (\<lambda>(s, w). (f s, w))"

text \<open>An error that the caller inspects instead of returning.\<close>

definition attempt :: "'a auth \<Rightarrow> (apperror + 'a) auth" where
  "attempt m = (\<lambda>s. case m s of (r, t) \<Rightarrow> (Inr r, t))"

section \<open>Tokens\<close>

record TokenPair =
  tp_AccessToken :: string
  tp_AccessTokenExpiresAt :: time
  tp_RefreshToken :: string
  tp_RefreshTokenExpiresAt :: time
  tp_User :: User

definition customerRole :: string where "customerRole = ''customer''"

text \<open>\<open>jwt.Manager.Generate\<close>: claims and expiry of an access token.\<close>

definition Generate :: "AuthConfig \<Rightarrow> auth_env \<Rightarrow> time \<Rightarrow> claims \<Rightarrow> (string \<times> time) option" where
  "Generate cfg env now c =
     (let ttl = (if cl_role c \<noteq> customerRole \<and> ac_StaffAccessTokenTTL cfg > 0
                 then ac_StaffAccessTokenTTL cfg else ac_AccessTokenTTL cfg);
          expiresAt = now + ttl
      in map_option (\<lambda>signed. (signed, expiresAt)) (ae_sign env c now expiresAt))"

definition user_claims :: "auth_env \<Rightarrow> User \<Rightarrow> claims" where
  "user_claims env u =
     \<lparr>cl_uid = ae_uuid_string env (u_ID u), cl_role = u_Role u,
      cl_wpid = map_option (ae_uuid_string env) (u_WashingPointID u)\<rparr>"

definition issueTokenPair :: "AuthConfig \<Rightarrow> auth_env \<Rightarrow> User \<Rightarrow> TokenPair auth" where
  "issueTokenPair cfg env u =
     bindE auth_now (\<lambda>now.
     case Generate cfg env now (user_claims env u) of
       None \<Rightarrow> fail_with Internal
     | Some (accessToken, accessExpiresAt) \<Rightarrow>
         (case ae_random_token env of
            None \<Rightarrow> fail_with Internal
          | Some refreshToken \<Rightarrow>
              bindE (on_db (CreateRefreshToken
                \<lparr>rt_ID = uuid_Nil, rt_UserID = u_ID u, rt_TokenHash = ae_hmac env refreshToken,
                 rt_ExpiresAt = now + ac_RefreshTokenTTL cfg, rt_RevokedAt = None, rt_CreatedAt = ZeroTime\<rparr>)) (\<lambda>_.
              return_ok \<lparr>tp_AccessToken = accessToken, tp_AccessTokenExpiresAt = accessExpiresAt,
                tp_RefreshToken = refreshToken, tp_RefreshTokenExpiresAt = now + ac_RefreshTokenTTL cfg,
                tp_User = u\<rparr>)))"

section \<open>One-time codes\<close>

definition isReviewPhone :: "AuthConfig \<Rightarrow> string \<Rightarrow> bool" where
  "isReviewPhone cfg phone \<longleftrightarrow>
     ac_ReviewPhone cfg \<noteq> [] \<and> ac_ReviewOTP cfg \<noteq> [] \<and> phone = ac_ReviewPhone cfg"

definition otpCodeRegexp :: "string \<Rightarrow> bool" where
  "otpCodeRegexp code \<longleftrightarrow> length code = 6 \<and> list_all is_digit code"

definition verifyReviewOTP :: "AuthConfig \<Rightarrow> string \<Rightarrow> unit auth" where
  "verifyReviewOTP cfg code =
     bindE auth_now (\<lambda>now.
     bindE (reads (\<lambda>(s, w). am_reviewLockedUntil s)) (\<lambda>lockedUntil.
     bindE (require (\<not> now < lockedUntil) (TooManyRequests ''otp_locked'')) (\<lambda>_.
     if code \<noteq> ac_ReviewOTP cfg
     then bindE (set_mem (\<lambda>s. let s1 = s\<lparr>am_reviewFailures := am_reviewFailures s + 1\<rparr>
            in if am_reviewFailures s1 \<ge> ac_OTPMaxAttempts cfg
               then s1\<lparr>am_reviewFailures := 0, am_reviewLockedUntil := now + ac_OTPCooldown cfg\<rparr> else s1)) (\<lambda>_.
          fail_with (BadRequest ''otp_invalid''))
     else set_mem (\<lambda>s. s\<lparr>am_reviewFailures := 0\<rparr>))))"

definition RequestOTP :: "AuthConfig \<Rightarrow> auth_env \<Rightarrow> string \<Rightarrow> unit auth" where
  "RequestOTP cfg env phone =
     bindE (lift_result (ValidatePhoneNumber phone)) (\<lambda>_.
     if isReviewPhone cfg phone then return_ok ()
     else
       bindE (on_db (LatestActiveOTPCode phone)) (\<lambda>latest.
       bindE auth_now (\<lambda>now.
       bindE (require (\<not> (case latest of None \<Rightarrow> False | Some c \<Rightarrow> now - otp_CreatedAt c < ac_OTPCooldown cfg))
         (TooManyRequests ''otp_cooldown'')) (\<lambda>_.
       case ae_random_code env of
         None \<Rightarrow> fail_with Internal
       | Some n \<Rightarrow>
           (let code = pad_zeros 6 n
            in case ae_hash env code of
                 None \<Rightarrow> fail_with Internal
               | Some hash \<Rightarrow>
                   bindE (on_db (CreateOTPCode \<lparr>otp_ID = uuid_Nil, otp_PhoneNumber = phone, otp_CodeHash = hash,
                     otp_ExpiresAt = now + ac_OTPTTL cfg, otp_Attempts = 0, otp_ConsumedAt = None,
                     otp_CreatedAt = ZeroTime\<rparr>)) (\<lambda>_.
                   require (ae_sms env phone code) Internal))))))"

definition findOrCreateUser :: "string \<Rightarrow> User db" where
  "findOrCreateUser phone =
     catchE (UserRepo_FindByPhone phone)
       (\<lambda>e. if err_code e \<noteq> ''user_not_found'' then fail_with e
            else UserRepo_Create \<lparr>u_ID = uuid_Nil, u_PhoneNumber = Some phone, u_Name = None,
              u_Role = RoleCustomer, u_WashingPointID = None, u_LastLoginAt = None, u_Username = None,
              u_PasswordHash = None, u_CreatedAt = ZeroTime\<rparr>)"

definition loginByPhone :: "AuthConfig \<Rightarrow> auth_env \<Rightarrow> string \<Rightarrow> time \<Rightarrow> TokenPair auth" where
  "loginByPhone cfg env phone now =
     bindE (on_db (findOrCreateUser phone)) (\<lambda>u.
     bindE (on_db (UpdateLastLogin (u_ID u) now)) (\<lambda>_.
     issueTokenPair cfg env (u\<lparr>u_LastLoginAt := Some now\<rparr>)))"

text \<open>The part of \<open>VerifyOTP\<close> after the read of the latest code.\<close>

definition check_code :: "AuthConfig \<Rightarrow> auth_env \<Rightarrow> string \<Rightarrow> string \<Rightarrow> OTPCode option \<Rightarrow> TokenPair auth" where
  "check_code cfg env phone code latest =
     (case latest of
        None \<Rightarrow> fail_with (BadRequest ''otp_invalid'')
      | Some c \<Rightarrow>
          bindE auth_now (\<lambda>now.
          bindE (require (\<not> now > otp_ExpiresAt c) (BadRequest ''otp_expired'')) (\<lambda>_.
          bindE (require (\<not> otp_Attempts c \<ge> ac_OTPMaxAttempts cfg) (TooManyRequests ''otp_locked'')) (\<lambda>_.
          let c1 = c\<lparr>otp_Attempts := otp_Attempts c + 1\<rparr>
          in if \<not> ae_compare env (otp_CodeHash c) code
             then bindE (on_db (SaveOTPCode c1)) (\<lambda>_. fail_with (BadRequest ''otp_invalid''))
             else bindE (on_db (SaveOTPCode (c1\<lparr>otp_ConsumedAt := Some now\<rparr>))) (\<lambda>_.
                  loginByPhone cfg env phone now)))))"

definition VerifyOTP :: "AuthConfig \<Rightarrow> auth_env \<Rightarrow> string \<Rightarrow> string \<Rightarrow> TokenPair auth" where
  "VerifyOTP cfg env phone code =
     bindE (lift_result (ValidatePhoneNumber phone)) (\<lambda>_.
     bindE (require (otpCodeRegexp code) (BadRequest ''invalid_code'')) (\<lambda>_.
     if isReviewPhone cfg phone
     then bindE (verifyReviewOTP cfg code) (\<lambda>_. bindE auth_now (\<lambda>now. loginByPhone cfg env phone now))
     else bindE (on_db (LatestActiveOTPCode phone)) (check_code cfg env phone code)))"

section \<open>Passwords\<close>

text \<open>
  The policy's classes \<open>[A-Z\<close> or Cyrillic capitals\<open>]\<close> and \<open>[a-z\<close> or Cyrillic small letters\<open>]\<close> on
  UTF-8 text: the capitals are the byte D0 followed by 90 to AF, the small letters D0 followed
  by B0 to BF or D1 followed by 80 to 8F.
\<close>

definition char_between :: "nat \<Rightarrow> nat \<Rightarrow> char \<Rightarrow> bool" where
  "char_between lo hi c \<longleftrightarrow> lo \<le> (of_char c :: nat) \<and> of_char c \<le> hi"

fun has_pair :: "(char \<Rightarrow> char \<Rightarrow> bool) \<Rightarrow> string \<Rightarrow> bool" where
  "has_pair p (a # b # cs) \<longleftrightarrow> p a b \<or> has_pair p (b # cs)"
| "has_pair p _ \<longleftrightarrow> False"

definition passwordUpperRegexp :: "string \<Rightarrow> bool" where
  "passwordUpperRegexp s \<longleftrightarrow> list_ex (char_between 65 90) s \<or>
     has_pair (\<lambda>a b. a = CHR 0xD0 \<and> char_between 0x90 0xAF b) s"

definition passwordLowerRegexp :: "string \<Rightarrow> bool" where
  "passwordLowerRegexp s \<longleftrightarrow> list_ex (char_between 97 122) s \<or>
     has_pair (\<lambda>a b. a = CHR 0xD0 \<and> char_between 0xB0 0xBF b \<or> a = CHR 0xD1 \<and> char_between 0x80 0x8F b) s"

definition passwordDigitRegexp :: "string \<Rightarrow> bool" where
  "passwordDigitRegexp s \<longleftrightarrow> list_ex is_digit s"

definition ValidatePasswordPolicy :: "string \<Rightarrow> apperror + unit" where
  "ValidatePasswordPolicy p =
     (if length p < 8 then Inl (BadRequest ''invalid_password'')
      else if \<not> passwordDigitRegexp p then Inl (BadRequest ''invalid_password'')
      else if \<not> passwordUpperRegexp p \<or> \<not> passwordLowerRegexp p then Inl (BadRequest ''invalid_password'')
      else Inr ())"

definition lock_fail :: "time \<Rightarrow> string \<Rightarrow> unit auth" where
  "lock_fail now key = set_mem (\<lambda>s. s\<lparr>am_loginLockout := Fail now key (am_loginLockout s)\<rparr>)"

definition lock_reset :: "string \<Rightarrow> unit auth" where
  "lock_reset key = set_mem (\<lambda>s. s\<lparr>am_loginLockout := Reset key (am_loginLockout s)\<rparr>)"

definition invalidCredentials :: apperror where
  "invalidCredentials = Unauthorized ''invalid_credentials''"

definition LoginWithPassword :: "AuthConfig \<Rightarrow> auth_env \<Rightarrow> string \<Rightarrow> string \<Rightarrow> TokenPair auth" where
  "LoginWithPassword cfg env username password =
     (let lockKey = ToLower username
      in bindE auth_now (\<lambda>now.
         bindE (reads (\<lambda>(s, w). fst (Locked now lockKey (am_loginLockout s)))) (\<lambda>locked.
         bindE (require (\<not> locked) (TooManyRequests ''login_locked'')) (\<lambda>_.
         bindE (attempt (on_db (UserRepo_FindByUsername username))) (\<lambda>r.
         case r of
           Inl e \<Rightarrow>
             if err_code e = ''user_not_found''
             then bindE (lock_fail now lockKey) (\<lambda>_. fail_with invalidCredentials)
             else fail_with e
         | Inr u \<Rightarrow>
             if (case u_PasswordHash u of None \<Rightarrow> True | Some h \<Rightarrow> \<not> ae_compare env h password)
             then bindE (lock_fail now lockKey) (\<lambda>_. fail_with invalidCredentials)
             else
               bindE (lock_reset lockKey) (\<lambda>_.
               bindE (require (\<not> (u_Role u \<noteq> RoleStaff \<and> u_Role u \<noteq> RoleAdmin \<and> u_Role u \<noteq> RoleWorker))
                 (Forbidden ''forbidden'')) (\<lambda>_.
               bindE (on_db (UpdateLastLogin (u_ID u) now)) (\<lambda>_.
               issueTokenPair cfg env (u\<lparr>u_LastLoginAt := Some now\<rparr>)))))))))"

text \<open>A user with a password hash has a user name: the two columns are only written together.\<close>

definition ChangePassword :: "AuthConfig \<Rightarrow> auth_env \<Rightarrow> uuid \<Rightarrow> string \<Rightarrow> string \<Rightarrow> TokenPair auth" where
  "ChangePassword cfg env userID currentPassword newPassword =
     bindE (on_db (UserRepo_FindByID userID)) (\<lambda>u.
     case u_PasswordHash u of
       None \<Rightarrow> fail_with (Forbidden ''forbidden'')
     | Some h \<Rightarrow>
         bindE (require (ae_compare env h currentPassword) invalidCredentials) (\<lambda>_.
         bindE (lift_result (ValidatePasswordPolicy newPassword)) (\<lambda>_.
         case ae_hash env newPassword of
           None \<Rightarrow> fail_with Internal
         | Some hash \<Rightarrow>
             bindE (on_db (SetCredentials (u_ID u) (case u_Username u of None \<Rightarrow> [] | Some n \<Rightarrow> n) hash)) (\<lambda>_.
             bindE (on_db (RevokeAllRefreshTokensForUser (u_ID u))) (\<lambda>_.
             issueTokenPair cfg env u)))))"

section \<open>Refresh and logout\<close>

definition logRevokedRefreshReuse :: "string \<Rightarrow> unit auth" where
  "logRevokedRefreshReuse hash =
     bindE (attempt (on_db (FindRefreshTokenByHash hash))) (\<lambda>_. return_ok ())"

definition Refresh :: "AuthConfig \<Rightarrow> auth_env \<Rightarrow> string \<Rightarrow> TokenPair auth" where
  "Refresh cfg env refreshToken =
     (let hash = ae_hmac env refreshToken
      in bindE (on_db (FindActiveRefreshTokenByHash hash)) (\<lambda>existing.
         case existing of
           None \<Rightarrow> bindE (logRevokedRefreshReuse hash) (\<lambda>_. fail_with (Unauthorized ''invalid_refresh_token''))
         | Some t \<Rightarrow>
             bindE (on_db (RevokeRefreshTokenIfActive (rt_ID t))) (\<lambda>revoked.
             bindE (require revoked (Unauthorized ''invalid_refresh_token'')) (\<lambda>_.
             bindE (on_db (UserRepo_FindByID (rt_UserID t))) (\<lambda>u.
             issueTokenPair cfg env u)))))"

definition Logout :: "auth_env \<Rightarrow> uuid \<Rightarrow> string \<Rightarrow> unit auth" where
  "Logout env userID refreshToken =
     (if refreshToken = [] then on_db (RevokeAllRefreshTokensForUser userID)
      else bindE (on_db (FindActiveRefreshTokenByHash (ae_hmac env refreshToken))) (\<lambda>existing.
           case existing of
             None \<Rightarrow> return_ok ()
           | Some t \<Rightarrow> if rt_UserID t \<noteq> userID then return_ok ()
                       else on_db (RevokeRefreshToken (rt_ID t))))"

section \<open>Handlers\<close>

record tokenPairResponse =
  tr_access_token :: string
  tr_access_token_expires_at :: time
  tr_refresh_token :: string
  tr_refresh_token_expires_at :: time
  tr_user :: user_response

definition toTokenPairResponse :: "TokenPair \<Rightarrow> tokenPairResponse" where
  "toTokenPairResponse pair =
     \<lparr>tr_access_token = tp_AccessToken pair, tr_access_token_expires_at = tp_AccessTokenExpiresAt pair,
      tr_refresh_token = tp_RefreshToken pair, tr_refresh_token_expires_at = tp_RefreshTokenExpiresAt pair,
      tr_user = user_toResponse (tp_User pair)\<rparr>"

definition auth_requestOTP :: "AuthConfig \<Rightarrow> auth_env \<Rightarrow> apperror + string \<Rightarrow> unit auth" where
  "auth_requestOTP cfg env body = bindE (lift_result body) (RequestOTP cfg env)"

definition auth_verifyOTP :: "AuthConfig \<Rightarrow> auth_env \<Rightarrow> apperror + string \<times> string \<Rightarrow> tokenPairResponse auth" where
  "auth_verifyOTP cfg env body =
     bindE (lift_result body) (\<lambda>(phone, code).
     bindE (VerifyOTP cfg env phone code) (\<lambda>pair. return_ok (toTokenPairResponse pair)))"

definition auth_login :: "AuthConfig \<Rightarrow> auth_env \<Rightarrow> apperror + string \<times> string \<Rightarrow> tokenPairResponse auth" where
  "auth_login cfg env body =
     bindE (lift_result body) (\<lambda>(rawUsername, password).
     let username = TrimSpace rawUsername
     in bindE (require (\<not> (username = [] \<or> password = [])) (BadRequest ''invalid_credentials'')) (\<lambda>_.
        bindE (LoginWithPassword cfg env username password) (\<lambda>pair. return_ok (toTokenPairResponse pair))))"

definition auth_refresh :: "AuthConfig \<Rightarrow> auth_env \<Rightarrow> apperror + string \<Rightarrow> tokenPairResponse auth" where
  "auth_refresh cfg env body =
     bindE (lift_result body) (\<lambda>refreshToken.
     bindE (require (refreshToken \<noteq> []) (BadRequest ''refresh_token_required'')) (\<lambda>_.
     bindE (Refresh cfg env refreshToken) (\<lambda>pair. return_ok (toTokenPairResponse pair))))"

definition auth_changePassword ::
  "AuthConfig \<Rightarrow> auth_env \<Rightarrow> AuthUser option \<Rightarrow> apperror + string \<times> string \<Rightarrow> tokenPairResponse auth" where
  "auth_changePassword cfg env ctx body =
     bindE (lift_result (AuthUserFrom ctx)) (\<lambda>authUser.
     bindE (lift_result body) (\<lambda>(current, new).
     bindE (require (\<not> (current = [] \<or> new = [])) (BadRequest ''invalid_password'')) (\<lambda>_.
     bindE (ChangePassword cfg env (au_id authUser) current new) (\<lambda>pair. return_ok (toTokenPairResponse pair)))))"

text \<open>Logout ignores a body that does not decode.\<close>

definition auth_logout :: "auth_env \<Rightarrow> AuthUser option \<Rightarrow> apperror + string \<Rightarrow> unit auth" where
  "auth_logout env ctx body =
     bindE (lift_result (AuthUserFrom ctx)) (\<lambda>authUser.
     Logout env (au_id authUser) (case body of Inl _ \<Rightarrow> [] | Inr t \<Rightarrow> t))"

end
