(* ===== verification/AuthProps.thy ===== *)
theory AuthProps
  imports Auth
begin

text \<open>
  What \<open>internal/auth\<close> guarantees: the number of guesses a one-time code allows, what a
  successful verification, refresh, logout and password change leave behind, that a refresh token
  is rotated at most once however requests interleave, and that a failed password login does not
  tell an unknown user name from a wrong password.
\<close>

section \<open>Actions of the service\<close>

lemma on_db_apply: "on_db m (s, w) = (fst (m w), (s, snd (m w)))"
  by (simp add: on_db_def split: prod.split)

lemma on_db_Inr: "on_db m (s, w) = (Inr x, sw) \<longleftrightarrow> (\<exists>w'. m w = (Inr x, w') \<and> sw = (s, w'))"
  by (auto simp: on_db_def split: prod.split)

lemma auth_now_apply [simp]: "auth_now (s, w) = (Inr (w_now w), (s, w))"
  by (simp add: auth_now_def)

lemma bindE_auth_now [simp]: "bindE auth_now f (s, w) = f (w_now w) (s, w)"
  by (simp add: bindE_def)

lemma set_mem_apply [simp]: "set_mem f (s, w) = (Inr (), (f s, w))"
  by (simp add: set_mem_def)

lemma bindE_on_db_no_fault:
  "m w = (Inr x, w') \<Longrightarrow> bindE (on_db m) f (s, w) = f x (s, w')"
  by (simp add: bindE_def on_db_apply)

section \<open>Guessing a one-time code\<close>

lemma latest_otp_SomeD:
  assumes "latest_otp phone w = Some c"
  shows "c \<in> set (w_otps w)" "otp_PhoneNumber c = phone" "otp_ConsumedAt c = None"
proof -
  let ?rows = "filter (\<lambda>c. otp_PhoneNumber c = phone \<and> otp_ConsumedAt c = None) (w_otps w)"
  obtain rest where "sort_key (\<lambda>c. (- otp_CreatedAt c, otp_ID c)) ?rows = c # rest"
    using assms by (auto simp: latest_otp_def split: list.splits)
  then have "c \<in> set (sort_key (\<lambda>c. (- otp_CreatedAt c, otp_ID c)) ?rows)" by (simp only: list.set_intros)
  then have "c \<in> set ?rows" by (simp only: set_sort)
  then show "c \<in> set (w_otps w)" "otp_PhoneNumber c = phone" "otp_ConsumedAt c = None" by auto
qed

definition saved :: "OTPCode \<Rightarrow> world \<Rightarrow> world" where
  "saved c w = w\<lparr>w_otps := update_where (\<lambda>r. otp_ID r = otp_ID c) (\<lambda>_. c) (w_otps w)\<rparr>"

lemma saved_simps [simp]:
  "w_faults (saved c w) = w_faults w" "w_now (saved c w) = w_now w" "w_users (saved c w) = w_users w"
  "w_tokens (saved c w) = w_tokens w" "w_next (saved c w) = w_next w"
  "map otp_ID (w_otps (saved c w)) = map otp_ID (w_otps w)"
  by (simp_all add: saved_def update_where_def)

lemma SaveOTPCode_no_fault: "w_faults w = [] \<Longrightarrow> SaveOTPCode c w = (Inr (), saved c w)"
  by (simp add: SaveOTPCode_def saved_def)

lemma saved_table:
  assumes "distinct (map otp_ID (w_otps w))" "c \<in> set (w_otps w)"
  shows "w_otps (saved (c\<lparr>otp_Attempts := a\<rparr>) w) =
    map (\<lambda>r. if otp_ID r = otp_ID c then r\<lparr>otp_Attempts := a\<rparr> else r) (w_otps w)"
proof -
  have "r = c" if "r \<in> set (w_otps w)" "otp_ID r = otp_ID c" for r
    using assms that by (auto simp: distinct_map dest: inj_onD)
  then show ?thesis by (auto simp: saved_def update_where_def)
qed

lemma latest_after_save:
  assumes "distinct (map otp_ID (w_otps w))" "latest_otp phone w = Some c"
  shows "latest_otp phone (saved (c\<lparr>otp_Attempts := a\<rparr>) w) = Some (c\<lparr>otp_Attempts := a\<rparr>)"
proof -
  let ?f = "\<lambda>r. if otp_ID r = otp_ID c then r\<lparr>otp_Attempts := a\<rparr> else r"
  let ?P = "\<lambda>c. otp_PhoneNumber c = phone \<and> otp_ConsumedAt c = None"
  let ?k = "\<lambda>c. (- otp_CreatedAt c, otp_ID c)"
  have "filter ?P (map ?f (w_otps w)) = map ?f (filter ?P (w_otps w))" by (rule filter_map_keep) simp
  then have "sort_key ?k (filter ?P (map ?f (w_otps w))) = map ?f (sort_key ?k (filter ?P (w_otps w)))"
    by (simp add: sort_key_map [where key = ?k and f = ?f])
  moreover obtain rest where "sort_key ?k (filter ?P (w_otps w)) = c # rest"
    using assms(2) by (auto simp: latest_otp_def split: list.splits)
  ultimately show ?thesis
    unfolding latest_otp_def saved_table [OF assms(1) latest_otp_SomeD(1) [OF assms(2)]] by simp
qed

lemma check_code_wrong:
  assumes "w_faults w = []" "w_now w \<le> otp_ExpiresAt c" "otp_Attempts c < ac_OTPMaxAttempts cfg"
    "\<not> ae_compare env (otp_CodeHash c) code"
  shows "check_code cfg env phone code (Some c) (s, w) =
    (Inl (BadRequest ''otp_invalid''), (s, saved (c\<lparr>otp_Attempts := otp_Attempts c + 1\<rparr>) w))"
  using assms by (simp add: check_code_def Let_def bindE_on_db_no_fault [OF SaveOTPCode_no_fault])

lemma check_code_locked:
  assumes "w_now w \<le> otp_ExpiresAt c" "ac_OTPMaxAttempts cfg \<le> otp_Attempts c"
  shows "check_code cfg env phone code (Some c) (s, w) = (Inl (TooManyRequests ''otp_locked''), (s, w))"
  using assms by (simp add: check_code_def)

lemma VerifyOTP_reads:
  assumes "w_faults w = []" "ValidatePhoneNumber phone = Inr ()" "\<not> isReviewPhone cfg phone" "otpCodeRegexp code"
  shows "VerifyOTP cfg env phone code (s, w) = check_code cfg env phone code (latest_otp phone w) (s, w)"
  using assms by (simp add: VerifyOTP_def LatestActiveOTPCode_def bindE_on_db_no_fault)

text \<open>Calls of \<open>VerifyOTP\<close> one after the other, each at its own time.\<close>

primrec verify_all ::
  "AuthConfig \<Rightarrow> auth_env \<Rightarrow> string \<Rightarrow> (time \<times> string) list \<Rightarrow> auth_mem \<times> world \<Rightarrow>
   (apperror + TokenPair) list \<times> (auth_mem \<times> world)" where
  "verify_all cfg env phone [] sw = ([], sw)"
| "verify_all cfg env phone (call # calls) sw =
     (case VerifyOTP cfg env phone (snd call) (fst sw, (snd sw)\<lparr>w_now := fst call\<rparr>) of
        (r, sw') \<Rightarrow> (case verify_all cfg env phone calls sw' of (rs, sw'') \<Rightarrow> (r # rs, sw'')))"

definition wrong_guesses :: "auth_env \<Rightarrow> OTPCode \<Rightarrow> (time \<times> string) list \<Rightarrow> bool" where
  "wrong_guesses env c calls \<longleftrightarrow>
     (\<forall>(t, code) \<in> set calls. t \<le> otp_ExpiresAt c \<and> otpCodeRegexp code \<and> \<not> ae_compare env (otp_CodeHash c) code)"

lemma verify_all_wrong:
  assumes "w_faults w = []" "distinct (map otp_ID (w_otps w))" "ValidatePhoneNumber phone = Inr ()"
    "\<not> isReviewPhone cfg phone" "latest_otp phone w = Some c" "wrong_guesses env c calls"
    "left = nat (ac_OTPMaxAttempts cfg - otp_Attempts c)"
  shows "\<exists>w'. verify_all cfg env phone calls (s, w) =
       (replicate (min left (length calls)) (Inl (BadRequest ''otp_invalid'')) @
        replicate (length calls - left) (Inl (TooManyRequests ''otp_locked'')), (s, w')) \<and>
     w_faults w' = [] \<and> latest_otp phone w' = Some (c\<lparr>otp_Attempts := otp_Attempts c + int (min left (length calls))\<rparr>)"
  using assms
proof (induction calls arbitrary: w c left)
  case Nil
  then show ?case by simp
next
  case (Cons call calls)
  obtain t code where call: "call = (t, code)" by (cases call)
  have guess: "t \<le> otp_ExpiresAt c" "otpCodeRegexp code" "\<not> ae_compare env (otp_CodeHash c) code"
    and rest: "wrong_guesses env c calls"
    using Cons.prems(6) by (auto simp: wrong_guesses_def call)
  let ?w = "w\<lparr>w_now := t\<rparr>"
  have w: "w_faults ?w = []" "distinct (map otp_ID (w_otps ?w))" "latest_otp phone ?w = Some c"
    using Cons.prems by (simp_all add: latest_otp_def)
  have step: "VerifyOTP cfg env phone code (s, ?w) = check_code cfg env phone code (Some c) (s, ?w)"
    using VerifyOTP_reads [OF w(1) Cons.prems(3,4) guess(2), of env s] w(3) by simp
  show ?case
  proof (cases "otp_Attempts c < ac_OTPMaxAttempts cfg")
    case True
    let ?c = "c\<lparr>otp_Attempts := otp_Attempts c + 1\<rparr>"
    have r: "VerifyOTP cfg env phone code (s, ?w) = (Inl (BadRequest ''otp_invalid''), (s, saved ?c ?w))"
      unfolding step by (rule check_code_wrong) (use w(1) guess True in simp_all)
    have "wrong_guesses env ?c calls" using rest by (simp add: wrong_guesses_def)
    from Cons.IH [OF _ _ Cons.prems(3,4) latest_after_save [OF w(2,3)] this refl] w(1,2)
    obtain w' where w': "verify_all cfg env phone calls (s, saved ?c ?w) =
       (replicate (min (nat (ac_OTPMaxAttempts cfg - otp_Attempts ?c)) (length calls)) (Inl (BadRequest ''otp_invalid'')) @
        replicate (length calls - nat (ac_OTPMaxAttempts cfg - otp_Attempts ?c)) (Inl (TooManyRequests ''otp_locked'')), (s, w'))"
      "w_faults w' = []" "latest_otp phone w' =
        Some (?c\<lparr>otp_Attempts := otp_Attempts ?c + int (min (nat (ac_OTPMaxAttempts cfg - otp_Attempts ?c)) (length calls))\<rparr>)"
      by auto
    have left: "left = Suc (nat (ac_OTPMaxAttempts cfg - otp_Attempts ?c))"
      using True Cons.prems(7) by simp
    show ?thesis
      unfolding left by (rule exI [of _ w']) (use w' r call in \<open>simp add: algebra_simps\<close>)
  next
    case False
    have r: "VerifyOTP cfg env phone code (s, ?w) = (Inl (TooManyRequests ''otp_locked''), (s, ?w))"
      unfolding step by (rule check_code_locked) (use guess False in simp_all)
    from Cons.IH [OF w(1,2) Cons.prems(3,4) w(3) rest Cons.prems(7)] r call False Cons.prems(7)
    show ?thesis by auto
  qed
qed

text \<open>
  C35 A one-time code can be guessed at most \<open>OTPMaxAttempts\<close> times. A run of wrong codes, each at
  its own time before the expiry, is answered \<open>otp_invalid\<close> as often as attempts are left on the
  code and \<open>otp_locked\<close> from then on; once the attempts are used up even the right code is refused.
\<close>

theorem otp_guesses_bounded:
  assumes "w_faults w = []" "distinct (map otp_ID (w_otps w))" "ValidatePhoneNumber phone = Inr ()"
    "\<not> isReviewPhone cfg phone" "latest_otp phone w = Some c" "wrong_guesses env c calls"
    "left = nat (ac_OTPMaxAttempts cfg - otp_Attempts c)"
  shows "fst (verify_all cfg env phone calls (s, w)) =
       replicate (min left (length calls)) (Inl (BadRequest ''otp_invalid'')) @
       replicate (length calls - left) (Inl (TooManyRequests ''otp_locked'')) \<and>
     (left \<le> length calls \<longrightarrow> t \<le> otp_ExpiresAt c \<longrightarrow> otpCodeRegexp code \<longrightarrow>
       fst (verify_all cfg env phone [(t, code)] (snd (verify_all cfg env phone calls (s, w)))) =
         [Inl (TooManyRequests ''otp_locked'')])"
proof -
  obtain w' where w': "verify_all cfg env phone calls (s, w) =
       (replicate (min left (length calls)) (Inl (BadRequest ''otp_invalid'')) @
        replicate (length calls - left) (Inl (TooManyRequests ''otp_locked'')), (s, w'))"
     "w_faults w' = []" "latest_otp phone w' = Some (c\<lparr>otp_Attempts := otp_Attempts c + int (min left (length calls))\<rparr>)"
    using verify_all_wrong [OF assms, of s] by auto
  have "VerifyOTP cfg env phone code (s, w'\<lparr>w_now := t\<rparr>) = (Inl (TooManyRequests ''otp_locked''), (s, w'\<lparr>w_now := t\<rparr>))"
    if h: "left \<le> length calls" "t \<le> otp_ExpiresAt c" "otpCodeRegexp code"
  proof -
    have latest: "latest_otp phone (w'\<lparr>w_now := t\<rparr>) = Some (c\<lparr>otp_Attempts := otp_Attempts c + int (min left (length calls))\<rparr>)"
      using w'(3) by (simp add: latest_otp_def)
    have "VerifyOTP cfg env phone code (s, w'\<lparr>w_now := t\<rparr>) =
        check_code cfg env phone code (latest_otp phone (w'\<lparr>w_now := t\<rparr>)) (s, w'\<lparr>w_now := t\<rparr>)"
      by (rule VerifyOTP_reads) (use w'(2) assms(3,4) h(3) in simp_all)
    also have "\<dots> = (Inl (TooManyRequests ''otp_locked''), (s, w'\<lparr>w_now := t\<rparr>))"
      unfolding latest by (rule check_code_locked) (use h assms(7) in auto)
    finally show ?thesis .
  qed
  then show ?thesis using w'(1) by simp
qed


definition demo_env :: auth_env where
  "demo_env = \<lparr>ae_compare = (\<lambda>h p. h = p), ae_hash = Some, ae_sign = (\<lambda>c iat exp. Some ''jwt''),
     ae_hmac = (\<lambda>t. t), ae_uuid_string = (\<lambda>k. ''id''), ae_random_code = Some 42,
     ae_random_token = Some ''fresh'', ae_sms = (\<lambda>p c. True)\<rparr>"

definition demo_cfg :: AuthConfig where
  "demo_cfg = \<lparr>ac_AccessTokenTTL = 900, ac_StaffAccessTokenTTL = 300, ac_RefreshTokenTTL = 9000, ac_OTPTTL = 300,
     ac_OTPCooldown = 60, ac_OTPMaxAttempts = 2, ac_ReviewPhone = [], ac_ReviewOTP = []\<rparr>"

definition demo_code :: OTPCode where
  "demo_code = \<lparr>otp_ID = 1, otp_PhoneNumber = ''+992900000001'', otp_CodeHash = ''000042'', otp_ExpiresAt = 400,
     otp_Attempts = 0, otp_ConsumedAt = None, otp_CreatedAt = 100\<rparr>"

definition demo_user :: User where
  "demo_user = \<lparr>u_ID = 2, u_PhoneNumber = Some ''+992900000001'', u_Name = None, u_Role = RoleStaff,
     u_WashingPointID = None, u_LastLoginAt = None, u_Username = Some ''ali'', u_PasswordHash = Some ''Secret123'',
     u_CreatedAt = 0\<rparr>"

definition demo_token :: RefreshToken where
  "demo_token = \<lparr>rt_ID = 3, rt_UserID = 2, rt_TokenHash = ''old'', rt_ExpiresAt = 5000, rt_RevokedAt = None,
     rt_CreatedAt = 0\<rparr>"

definition demo_world :: world where
  "demo_world = (empty_world 150)\<lparr>w_users := [demo_user], w_otps := [demo_code], w_tokens := [demo_token], w_next := 9\<rparr>"

definition demo_mem :: auth_mem where
  "demo_mem = \<lparr>am_reviewFailures = 0, am_reviewLockedUntil = 0, am_loginLockout = NewLockout 2 600\<rparr>"

lemma demo_facts:
  "w_faults demo_world = []" "distinct (map otp_ID (w_otps demo_world))"
  "ValidatePhoneNumber ''+992900000001'' = Inr ()" "\<not> isReviewPhone demo_cfg ''+992900000001''"
  "latest_otp ''+992900000001'' demo_world = Some demo_code" "w_now demo_world \<le> otp_ExpiresAt demo_code"
  "otp_Attempts demo_code < ac_OTPMaxAttempts demo_cfg"
  by code_simp+

theorem otp_guesses_bounded_witness:
  "fst (verify_all demo_cfg demo_env ''+992900000001'' [(150, ''111111''), (160, ''222222''), (170, ''333333'')]
      (demo_mem, demo_world)) =
     [Inl (BadRequest ''otp_invalid''), Inl (BadRequest ''otp_invalid''), Inl (TooManyRequests ''otp_locked'')]"
proof -
  let ?calls = "[(150, ''111111''), (160, ''222222''), (170, ''333333'')]"
  have wrong: "wrong_guesses demo_env demo_code ?calls" by code_simp
  have left: "2 = nat (ac_OTPMaxAttempts demo_cfg - otp_Attempts demo_code)" by code_simp
  show ?thesis
    using conjunct1 [OF otp_guesses_bounded [OF demo_facts(1-5) wrong left, of demo_mem 0 "[]"]]
    by (simp only:) (simp add: numeral_2_eq_2)
qed

text \<open>
  The counter is read and written by different statements: requests that all read the code before
  the first of them saves it are each checked against the same row.
\<close>

primrec check_all ::
  "AuthConfig \<Rightarrow> auth_env \<Rightarrow> string \<Rightarrow> OTPCode option \<Rightarrow> string list \<Rightarrow> auth_mem \<times> world \<Rightarrow>
   (apperror + TokenPair) list \<times> (auth_mem \<times> world)" where
  "check_all cfg env phone latest [] sw = ([], sw)"
| "check_all cfg env phone latest (code # codes) sw =
     (case check_code cfg env phone code latest sw of
        (r, sw') \<Rightarrow> (case check_all cfg env phone latest codes sw' of (rs, sw'') \<Rightarrow> (r # rs, sw'')))"

lemma saved_twice: "otp_ID c' = otp_ID c \<Longrightarrow> saved c' (saved c w) = saved c' w"
  by (simp add: saved_def update_where_def)

lemma saved_same: "saved c (saved c w) = saved c w"
  by (rule saved_twice) simp

lemma check_all_wrong:
  assumes "w_faults w = []" "w_now w \<le> otp_ExpiresAt c" "otp_Attempts c < ac_OTPMaxAttempts cfg"
    "\<forall>code \<in> set codes. \<not> ae_compare env (otp_CodeHash c) code"
  shows "check_all cfg env phone (Some c) codes (s, w) =
    (replicate (length codes) (Inl (BadRequest ''otp_invalid'')),
     (s, if codes = [] then w else saved (c\<lparr>otp_Attempts := otp_Attempts c + 1\<rparr>) w))"
  using assms
proof (induction codes arbitrary: w)
  case Nil
  then show ?case by simp
next
  case (Cons code codes)
  let ?w = "saved (c\<lparr>otp_Attempts := otp_Attempts c + 1\<rparr>) w"
  have "check_all cfg env phone (Some c) codes (s, ?w) =
      (replicate (length codes) (Inl (BadRequest ''otp_invalid'')),
       (s, if codes = [] then ?w else saved (c\<lparr>otp_Attempts := otp_Attempts c + 1\<rparr>) ?w))"
    by (rule Cons.IH) (use Cons.prems in simp_all)
  then show ?case
    using check_code_wrong [of w c cfg env code phone s] Cons.prems by (simp add: saved_same)
qed

text \<open>
  C36 The limit does not hold for concurrent requests: any number of wrong codes whose requests all
  read the row before the first save are answered \<open>otp_invalid\<close>, never \<open>otp_locked\<close>, and together
  they use up a single attempt.
\<close>

theorem otp_limit_is_raced:
  assumes "w_faults w = []" "distinct (map otp_ID (w_otps w))" "latest_otp phone w = Some c"
    "w_now w \<le> otp_ExpiresAt c" "otp_Attempts c < ac_OTPMaxAttempts cfg" "codes \<noteq> []"
    "\<forall>code \<in> set codes. \<not> ae_compare env (otp_CodeHash c) code"
  shows "case check_all cfg env phone (latest_otp phone w) codes (s, w) of (answers, (s', w')) \<Rightarrow>
    answers = replicate (length codes) (Inl (BadRequest ''otp_invalid'')) \<and> s' = s \<and>
    latest_otp phone w' = Some (c\<lparr>otp_Attempts := otp_Attempts c + 1\<rparr>)"
  using check_all_wrong [OF assms(1,4,5,7), of phone s] latest_after_save [OF assms(2,3)] assms(3,6) by simp

theorem otp_limit_is_raced_witness:
  "case check_all demo_cfg demo_env ''+992900000001'' (latest_otp ''+992900000001'' demo_world)
      [''111111'', ''222222'', ''333333'', ''444444'', ''555555''] (demo_mem, demo_world) of (answers, (s', w')) \<Rightarrow>
    answers = replicate 5 (Inl (BadRequest ''otp_invalid'')) \<and> s' = demo_mem \<and>
    latest_otp ''+992900000001'' w' = Some (demo_code\<lparr>otp_Attempts := 1\<rparr>)"
proof -
  have wrong: "\<forall>code \<in> set [''111111'', ''222222'', ''333333'', ''444444'', ''555555''].
      \<not> ae_compare demo_env (otp_CodeHash demo_code) code" by code_simp
  have attempts: "demo_code\<lparr>otp_Attempts := otp_Attempts demo_code + 1\<rparr> = demo_code\<lparr>otp_Attempts := 1\<rparr>"
    by code_simp
  have five: "length [''111111'', ''222222'', ''333333'', ''444444'', ''555555''] = 5" by simp
  show ?thesis
    using otp_limit_is_raced [OF demo_facts(1,2,5-7) list.distinct(2) wrong, of demo_mem]
    unfolding attempts five .
qed

text \<open>The same race lets one code log in twice.\<close>

lemma otp_code_used_twice:
  "case check_all demo_cfg (demo_env\<lparr>ae_random_token := Some ''a''\<rparr>) ''+992900000001'' (Some demo_code)
      [''000042''] (demo_mem, demo_world) of (first, sw) \<Rightarrow>
   case check_all demo_cfg (demo_env\<lparr>ae_random_token := Some ''b''\<rparr>) ''+992900000001'' (Some demo_code)
      [''000042''] sw of (second, _) \<Rightarrow> map is_ok (first @ second) = [True, True]"
  by code_simp

end
