(* ===== verification/AuthTokens.thy ===== *)
theory AuthTokens
  imports AuthProps
begin

text \<open>
  Sessions: what a successful verification, refresh, password change and login leave in the
  tables, rotation of refresh tokens under interleaving, and the round trip of an access token
  through \<open>RequireAuth\<close>.
\<close>

section \<open>Issuing a pair\<close>

text \<open>\<open>issued\<close>: exactly one token row was added for \<open>u\<close>; accounts, codes and time are as before.\<close>

definition issued :: "AuthConfig \<Rightarrow> auth_env \<Rightarrow> User \<Rightarrow> TokenPair \<Rightarrow> world \<Rightarrow> world \<Rightarrow> bool" where
  "issued cfg env u p w w' \<longleftrightarrow> tp_User p = u \<and> w_users w' = w_users w \<and> w_otps w' = w_otps w \<and>
     w_now w' = w_now w \<and> ae_hmac env (tp_RefreshToken p) \<notin> rt_TokenHash ` set (w_tokens w) \<and>
     w_tokens w' = w_tokens w @ [\<lparr>rt_ID = w_next w, rt_UserID = u_ID u,
       rt_TokenHash = ae_hmac env (tp_RefreshToken p), rt_ExpiresAt = w_now w + ac_RefreshTokenTTL cfg,
       rt_RevokedAt = None, rt_CreatedAt = w_now w\<rparr>] \<and> w_next w' = w_next w + 1"

lemma CreateRefreshToken_Inr:
  assumes "CreateRefreshToken t w = (Inr x, w')"
  shows "rt_TokenHash t \<notin> rt_TokenHash ` set (w_tokens w)"
    "w_tokens w' = w_tokens w @ [t\<lparr>rt_ID := w_next w, rt_CreatedAt := w_now w\<rparr>]"
    "w_users w' = w_users w" "w_otps w' = w_otps w" "w_now w' = w_now w" "w_next w' = w_next w + 1"
  using assms by (auto simp: CreateRefreshToken_def Let_def elim!: statement_Inr split: if_splits)

lemma issueTokenPair_Inr:
  assumes "issueTokenPair cfg env u (s, w) = (Inr p, (s', w'))"
  shows "s' = s" "issued cfg env u p w w'"
    "Generate cfg env (w_now w) (user_claims env u) = Some (tp_AccessToken p, tp_AccessTokenExpiresAt p)"
proof -
  obtain access exp refresh x where a: "Generate cfg env (w_now w) (user_claims env u) = Some (access, exp)"
    and create: "CreateRefreshToken \<lparr>rt_ID = uuid_Nil, rt_UserID = u_ID u, rt_TokenHash = ae_hmac env refresh,
        rt_ExpiresAt = w_now w + ac_RefreshTokenTTL cfg, rt_RevokedAt = None, rt_CreatedAt = ZeroTime\<rparr> w = (Inr x, w')"
    and p: "s' = s" "p = \<lparr>tp_AccessToken = access, tp_AccessTokenExpiresAt = exp, tp_RefreshToken = refresh,
        tp_RefreshTokenExpiresAt = w_now w + ac_RefreshTokenTTL cfg, tp_User = u\<rparr>"
    using assms by (auto simp: issueTokenPair_def on_db_Inr split: option.splits elim!: bindE_InrE)
  show "s' = s" by (rule p)
  show "issued cfg env u p w w'" using CreateRefreshToken_Inr [OF create] by (simp add: issued_def p)
  show "Generate cfg env (w_now w) (user_claims env u) = Some (tp_AccessToken p, tp_AccessTokenExpiresAt p)"
    using a by (simp add: p)
qed

section \<open>A verified code\<close>

lemma SaveOTPCode_Inr:
  assumes "SaveOTPCode c w = (Inr x, w')"
  shows "w_otps w' = w_otps (saved c w)" "w_users w' = w_users w" "w_tokens w' = w_tokens w" "w_now w' = w_now w"
  using assms by (auto simp: SaveOTPCode_def saved_def elim!: exec_Inr)

lemma findOrCreateUser_Inr:
  assumes "findOrCreateUser phone w = (Inr u, w')"
  shows "u_PhoneNumber u = Some phone" "w_otps w' = w_otps w" "w_tokens w' = w_tokens w" "w_now w' = w_now w"
proof -
  obtain r w1 where find: "UserRepo_FindByPhone phone w = (r, w1)" by (cases "UserRepo_FindByPhone phone w")
  have "read_only (UserRepo_FindByPhone phone)" by (simp add: UserRepo_FindByPhone_def read_only_first_or)
  from read_onlyD [OF this find] have "same_tables w w1" .
  note same = same_tablesD [OF this]
  have "u_PhoneNumber u = Some phone \<and> w_otps w' = w_otps w1 \<and> w_tokens w' = w_tokens w1 \<and> w_now w' = w_now w1"
  proof (cases r)
    case (Inl e)
    then show ?thesis
      using assms find
      by (auto simp: findOrCreateUser_def catchE_def UserRepo_Create_def Let_def elim!: statement_Inr split: if_splits)
  next
    case (Inr v)
    then show ?thesis
      using assms find
      by (auto simp: findOrCreateUser_def catchE_def UserRepo_FindByPhone_def find_Some_iff elim!: first_or_Inr)
  qed
  then show "u_PhoneNumber u = Some phone" "w_otps w' = w_otps w" "w_tokens w' = w_tokens w" "w_now w' = w_now w"
    using same by simp_all
qed

lemma loginByPhone_Inr:
  assumes "loginByPhone cfg env phone now (s, w) = (Inr p, (s', w'))"
  shows "s' = s" "u_PhoneNumber (tp_User p) = Some phone" "w_otps w' = w_otps w"
    "\<exists>t. w_tokens w' = w_tokens w @ [t] \<and> rt_UserID t = u_ID (tp_User p) \<and>
       rt_TokenHash t = ae_hmac env (tp_RefreshToken p) \<and> rt_RevokedAt t = None \<and>
       rt_ExpiresAt t = w_now w + ac_RefreshTokenTTL cfg"
proof -
  obtain u w1 w2 where u: "findOrCreateUser phone w = (Inr u, w1)"
    and last_login: "UpdateLastLogin (u_ID u) now w1 = (Inr (), w2)"
    and issue: "issueTokenPair cfg env (u\<lparr>u_LastLoginAt := Some now\<rparr>) (s, w2) = (Inr p, (s', w'))"
    using assms by (auto simp: loginByPhone_def on_db_Inr elim!: bindE_InrE)
  have w2: "w_otps w2 = w_otps w1" "w_tokens w2 = w_tokens w1" "w_now w2 = w_now w1"
    using last_login by (auto simp: UpdateLastLogin_def elim!: exec_Inr)
  note u' = findOrCreateUser_Inr [OF u] and i = issueTokenPair_Inr(2) [OF issue, unfolded issued_def]
  show "s' = s" by (rule issueTokenPair_Inr(1) [OF issue])
  show "u_PhoneNumber (tp_User p) = Some phone" "w_otps w' = w_otps w" using i u' w2 by simp_all
  show "\<exists>t. w_tokens w' = w_tokens w @ [t] \<and> rt_UserID t = u_ID (tp_User p) \<and>
       rt_TokenHash t = ae_hmac env (tp_RefreshToken p) \<and> rt_RevokedAt t = None \<and>
       rt_ExpiresAt t = w_now w + ac_RefreshTokenTTL cfg"
    using i u' w2 by simp
qed

lemma latest_otp_fault [simp]: "latest_otp phone (w\<lparr>w_faults := fs\<rparr>) = latest_otp phone w"
  by (simp add: latest_otp_def)

lemma LatestActiveOTPCode_Inr:
  assumes "LatestActiveOTPCode phone w = (Inr x, w')"
  shows "x = latest_otp phone w" "same_tables w w'"
  using assms by (auto simp: LatestActiveOTPCode_def elim!: query_Inr)

text \<open>
  A verification succeeds only with the code of the latest unused row of that phone, before its
  expiry and with attempts left; whatever statement of the call could have failed, success means
  that this row is now consumed, and that one session of the account with that phone was opened.
\<close>

theorem VerifyOTP_success:
  assumes "VerifyOTP cfg env phone code (s, w) = (Inr p, (s', w'))" "\<not> isReviewPhone cfg phone"
  shows "\<exists>c t. latest_otp phone w = Some c \<and> ae_compare env (otp_CodeHash c) code \<and>
    w_now w \<le> otp_ExpiresAt c \<and> otp_Attempts c < ac_OTPMaxAttempts cfg \<and>
    w_otps w' = update_where (\<lambda>r. otp_ID r = otp_ID c)
      (\<lambda>_. c\<lparr>otp_Attempts := otp_Attempts c + 1, otp_ConsumedAt := Some (w_now w)\<rparr>) (w_otps w) \<and>
    u_PhoneNumber (tp_User p) = Some phone \<and>
    w_tokens w' = w_tokens w @ [t] \<and> rt_UserID t = u_ID (tp_User p) \<and> rt_RevokedAt t = None \<and>
    rt_TokenHash t = ae_hmac env (tp_RefreshToken p) \<and> rt_ExpiresAt t = w_now w + ac_RefreshTokenTTL cfg"
proof -
  obtain x w1 where x: "LatestActiveOTPCode phone w = (Inr x, w1)"
    and check: "check_code cfg env phone code x (s, w1) = (Inr p, (s', w'))"
    using assms by (auto simp: VerifyOTP_def on_db_Inr elim!: bindE_InrE split: sum.splits if_splits)
  note latest = LatestActiveOTPCode_Inr(1) [OF x] and same = same_tablesD [OF LatestActiveOTPCode_Inr(2) [OF x]]
  obtain c where c: "x = Some c" using check by (cases x) (auto simp: check_code_def)
  let ?c = "c\<lparr>otp_Attempts := otp_Attempts c + 1, otp_ConsumedAt := Some (w_now w1)\<rparr>"
  obtain w2 where ok: "w_now w1 \<le> otp_ExpiresAt c" "otp_Attempts c < ac_OTPMaxAttempts cfg"
      "ae_compare env (otp_CodeHash c) code"
    and save: "SaveOTPCode ?c w1 = (Inr (), w2)"
    and login: "loginByPhone cfg env phone (w_now w1) (s, w2) = (Inr p, (s', w'))"
    using check unfolding c
    by (auto simp: check_code_def on_db_Inr Let_def elim!: bindE_InrE split: if_splits)
  note saved = SaveOTPCode_Inr [OF save] and logged = loginByPhone_Inr [OF login]
  have "w_otps w' = update_where (\<lambda>r. otp_ID r = otp_ID c) (\<lambda>_. ?c) (w_otps w)"
    using saved(1) logged(3) same by (simp add: saved_def)
  moreover obtain t where "w_tokens w' = w_tokens w @ [t]" "rt_UserID t = u_ID (tp_User p)"
    "rt_TokenHash t = ae_hmac env (tp_RefreshToken p)" "rt_RevokedAt t = None"
    "rt_ExpiresAt t = w_now w + ac_RefreshTokenTTL cfg"
    using logged(4) saved(3,4) same by auto
  ultimately show ?thesis
    using c ok logged(2) latest same by (intro exI [of _ c] exI [of _ t]) simp
qed


theorem VerifyOTP_success_witness:
  "\<exists>p sw'. VerifyOTP demo_cfg demo_env ''+992900000001'' ''000042'' (demo_mem, demo_world) = (Inr p, sw') \<and>
     u_PhoneNumber (tp_User p) = Some ''+992900000001'' \<and> latest_otp ''+992900000001'' (snd sw') = None"
proof -
  have "is_ok (fst (VerifyOTP demo_cfg demo_env ''+992900000001'' ''000042'' (demo_mem, demo_world)))" by code_simp
  then obtain p sw' where run: "VerifyOTP demo_cfg demo_env ''+992900000001'' ''000042'' (demo_mem, demo_world) = (Inr p, sw')"
    by (rule is_ok_fstE)
  from VerifyOTP_success [of demo_cfg demo_env _ _ demo_mem demo_world p "fst sw'" "snd sw'"] run demo_facts(4)
  have phone: "u_PhoneNumber (tp_User p) = Some ''+992900000001''" by auto
  have "(case VerifyOTP demo_cfg demo_env ''+992900000001'' ''000042'' (demo_mem, demo_world) of
      (_, sw') \<Rightarrow> latest_otp ''+992900000001'' (snd sw') = None)" by code_simp
  with run phone show ?thesis by simp
qed

section \<open>Refresh tokens\<close>

definition tokens_ok :: "world \<Rightarrow> bool" where
  "tokens_ok w \<longleftrightarrow> distinct (map rt_ID (w_tokens w)) \<and> distinct (map rt_TokenHash (w_tokens w)) \<and>
     (\<forall>t \<in> set (w_tokens w). rt_ID t < w_next w)"

lemma tokens_ok_table: "table_property tokens_ok"
  by (rule table_propertyI) (auto simp: tokens_ok_def)

lemma map_revoke_where [simp]:
  "map rt_ID (w_tokens (revoke_where p w)) = map rt_ID (w_tokens w)"
  "map rt_TokenHash (w_tokens (revoke_where p w)) = map rt_TokenHash (w_tokens w)"
  "w_next (revoke_where p w) = w_next w" "w_users (revoke_where p w) = w_users w"
  "w_now (revoke_where p w) = w_now w" "w_faults (revoke_where p w) = w_faults w"
  by (simp_all add: revoke_where_def update_where_def)

lemma set_revoke_where:
  "set (w_tokens (revoke_where p w)) =
     (\<lambda>t. if p t \<and> rt_RevokedAt t = None then t\<lparr>rt_RevokedAt := Some (w_now w)\<rparr> else t) ` set (w_tokens w)"
  by (simp add: revoke_where_def update_where_def)

lemma tokens_ok_revoke: "tokens_ok w \<Longrightarrow> tokens_ok (revoke_where p w)"
  unfolding tokens_ok_def by (auto simp: set_revoke_where)

text \<open>The statements of concurrent requests on the token table, in the order the database runs them.\<close>

datatype token_call =
    CallRotate uuid
  | CallRevoke uuid
  | CallRevokeUser uuid
  | CallCreate RefreshToken
  | CallClock time

definition call_action :: "token_call \<Rightarrow> bool db" where
  "call_action call =
     (case call of
        CallRotate tid \<Rightarrow> RevokeRefreshTokenIfActive tid
      | CallRevoke tid \<Rightarrow> bindE (RevokeRefreshToken tid) (\<lambda>_. return_ok False)
      | CallRevokeUser uid \<Rightarrow> bindE (RevokeAllRefreshTokensForUser uid) (\<lambda>_. return_ok False)
      | CallCreate t \<Rightarrow> bindE (CreateRefreshToken t) (\<lambda>_. return_ok False)
      | CallClock t \<Rightarrow> bindE (writes (\<lambda>w. w\<lparr>w_now := t\<rparr>)) (\<lambda>_. return_ok False))"

primrec token_run :: "token_call list \<Rightarrow> world \<Rightarrow> (token_call \<times> (apperror + bool)) list" where
  "token_run [] w = []"
| "token_run (call # calls) w =
     (case call_action call w of (r, w') \<Rightarrow> (call, r) # token_run calls w')"

definition granted :: "uuid \<Rightarrow> (token_call \<times> (apperror + bool)) list \<Rightarrow> nat" where
  "granted tid trace = length (filter (\<lambda>x. x = (CallRotate tid, Inr True)) trace)"

lemma granted_simps [simp]:
  "granted tid [] = 0"
  "granted tid (x # xs) = (if x = (CallRotate tid, Inr True) then 1 else 0) + granted tid xs"
  by (simp_all add: granted_def)

definition token_dead :: "uuid \<Rightarrow> world \<Rightarrow> bool" where
  "token_dead tid w \<longleftrightarrow> tid < w_next w \<and> (\<forall>t \<in> set (w_tokens w). rt_ID t = tid \<longrightarrow> rt_RevokedAt t \<noteq> None)"

lemma token_dead_table: "table_property (token_dead tid)"
  by (rule table_propertyI) (auto simp: token_dead_def)

lemma token_dead_revoke: "token_dead tid w \<Longrightarrow> token_dead tid (revoke_where p w)"
  by (auto simp: token_dead_def set_revoke_where)

lemma call_action_keeps:
  "preserves tokens_ok (call_action call)" "preserves (token_dead tid) (call_action call)"
proof -
  have create: "preserves I (CreateRefreshToken t)"
    if h: "table_property I" "\<And>w. I w \<Longrightarrow> \<forall>r \<in> set (w_tokens w). rt_TokenHash r \<noteq> rt_TokenHash t \<Longrightarrow>
        I (w\<lparr>w_tokens := w_tokens w @ [t\<lparr>rt_ID := w_next w, rt_CreatedAt := w_now w\<rparr>], w_next := Suc (w_next w)\<rparr>)"
    for I t
    unfolding CreateRefreshToken_def
    by (rule preserves_statement [OF h(1)], rule preservesI)
      (auto simp: Let_def intro: h(2) table_property_next [OF h(1)])
  have ok: "preserves tokens_ok (CreateRefreshToken t)" for t
    by (rule create [OF tokens_ok_table]) (auto simp: tokens_ok_def less_Suc_eq)
  have dead: "preserves (token_dead tid) (CreateRefreshToken t)" for t
    by (rule create [OF token_dead_table]) (auto simp: token_dead_def)
  have rotate: "preserves I (RevokeRefreshTokenIfActive k)"
    if h: "table_property I" "\<And>w p. I w \<Longrightarrow> I (revoke_where p w)" for I k
    unfolding RevokeRefreshTokenIfActive_def
    by (rule preserves_statement [OF h(1)], rule preservesI) (simp add: h(2))
  have clock: "preserves tokens_ok (writes (\<lambda>w. w\<lparr>w_now := t\<rparr>))"
    "preserves (token_dead tid) (writes (\<lambda>w. w\<lparr>w_now := t\<rparr>))" for t
    by (rule preserves_writes; simp add: tokens_ok_def token_dead_def)+
  show "preserves tokens_ok (call_action call)"
    unfolding call_action_def RevokeRefreshToken_def RevokeAllRefreshTokensForUser_def
    by (cases call) (simp_all add: rotate tokens_ok_table tokens_ok_revoke ok clock preserves_bindE
        preserves_pure preserves_exec)
  show "preserves (token_dead tid) (call_action call)"
    unfolding call_action_def RevokeRefreshToken_def RevokeAllRefreshTokensForUser_def
    by (cases call) (simp_all add: rotate token_dead_table token_dead_revoke dead clock preserves_bindE
        preserves_pure preserves_exec)
qed

lemma rotate_granted:
  assumes "RevokeRefreshTokenIfActive tid w = (Inr True, w')" "tokens_ok w"
  shows "token_dead tid w'" "\<not> token_dead tid w"
proof -
  obtain fs where one: "length (filter (\<lambda>t. rt_ID t = tid \<and> rt_RevokedAt t = None) (w_tokens w)) = 1"
    and w': "w' = revoke_where (\<lambda>t. rt_ID t = tid) (w\<lparr>w_faults := fs\<rparr>)"
    using assms(1) by (auto simp: RevokeRefreshTokenIfActive_def elim!: statement_Inr)
  obtain t where "t \<in> set (w_tokens w)" "rt_ID t = tid" "rt_RevokedAt t = None"
    using one by (metis (mono_tags, lifting) filter_False list.size(3) zero_neq_one)
  with assms(2) show "\<not> token_dead tid w" "token_dead tid w'"
    by (auto simp: token_dead_def tokens_ok_def w' set_revoke_where)
qed

lemma dead_never_granted:
  assumes "tokens_ok w" "token_dead tid w"
  shows "granted tid (token_run calls w) = 0"
  using assms
proof (induction calls arbitrary: w)
  case (Cons call calls)
  obtain r w' where run: "call_action call w = (r, w')" by (cases "call_action call w")
  have "tokens_ok w'" "token_dead tid w'"
    using call_action_keeps [THEN preservesD, OF _ run] Cons.prems by blast+
  moreover have "(call, r) \<noteq> (CallRotate tid, Inr True)"
    using rotate_granted(2) [of tid w w'] Cons.prems run by (auto simp: call_action_def)
  ultimately show ?case using Cons.IH run by simp
qed simp

text \<open>
  C37 However the statements of concurrent requests interleave and whichever of them the database
  fails, one refresh token is rotated at most once, and never after it was revoked.
\<close>

theorem token_rotated_at_most_once:
  assumes "tokens_ok w"
  shows "granted tid (token_run calls w) \<le> (if token_dead tid w then 0 else 1)"
  using assms
proof (induction calls arbitrary: w)
  case (Cons call calls)
  obtain r w' where run: "call_action call w = (r, w')" by (cases "call_action call w")
  have ok: "tokens_ok w'" by (rule preservesD [OF call_action_keeps(1) Cons.prems run])
  show ?case
  proof (cases "(call, r) = (CallRotate tid, Inr True)")
    case True
    then have rotate: "RevokeRefreshTokenIfActive tid w = (Inr True, w')" using run by (simp add: call_action_def)
    note dead = rotate_granted [OF rotate Cons.prems]
    from dead_never_granted [OF ok dead(1)] dead(2) run True show ?thesis by simp
  next
    case False
    then show ?thesis
      using Cons.IH [OF ok] run dead_never_granted [OF Cons.prems, of tid "call # calls"]
      by (cases "token_dead tid w") (auto split: if_splits)
  qed
qed simp

theorem token_rotated_at_most_once_witness:
  "granted 3 (token_run [CallRotate 3, CallRotate 3, CallRevokeUser 2, CallRotate 3] demo_world) \<le> 1"
proof -
  have "tokens_ok demo_world" by code_simp
  from token_rotated_at_most_once [OF this, of 3 "[CallRotate 3, CallRotate 3, CallRevokeUser 2, CallRotate 3]"]
  show ?thesis by (simp only: split: if_splits)
qed


lemma FindActiveRefreshTokenByHash_Inr:
  assumes "FindActiveRefreshTokenByHash hash w = (Inr x, w')"
  shows "x = active_token hash w" "same_tables w w'" "w_next w' = w_next w"
  using assms by (auto simp: FindActiveRefreshTokenByHash_def active_token_def elim!: query_Inr)

lemma RevokeRefreshTokenIfActive_Inr:
  assumes "RevokeRefreshTokenIfActive tid w = (Inr b, w')"
  shows "w_tokens w' = w_tokens (revoke_where (\<lambda>t. rt_ID t = tid) w)" "w_users w' = w_users w"
    "w_now w' = w_now w" "w_next w' = w_next w"
  using assms by (auto simp: RevokeRefreshTokenIfActive_def revoke_where_def elim!: statement_Inr)

lemma RevokeAll_Inr:
  assumes "RevokeAllRefreshTokensForUser uid w = (Inr u, w')"
  shows "w_tokens w' = w_tokens (revoke_where (\<lambda>t. rt_UserID t = uid) w)" "w_users w' = w_users w"
    "w_now w' = w_now w"
  using assms by (auto simp: RevokeAllRefreshTokensForUser_def revoke_where_def elim!: exec_Inr)

lemma UserRepo_FindByID_Inr:
  assumes "UserRepo_FindByID uid w = (Inr u, w')"
  shows "u \<in> set (w_users w)" "u_ID u = uid" "find_row u_ID uid (w_users w) = Some u" "same_tables w w'"
    "w_next w' = w_next w"
  using assms by (auto simp: UserRepo_FindByID_def elim!: first_or_Inr dest: find_row_SomeD)

lemma active_token_SomeD:
  assumes "active_token hash w = Some t"
  shows "t \<in> set (w_tokens w)" "rt_TokenHash t = hash" "rt_RevokedAt t = None" "w_now w < rt_ExpiresAt t"
  using assms by (auto simp: active_token_def find_Some_iff)

text \<open>
  A successful refresh was given an active token; it revokes that row and adds one row for the
  same account, touches no other session, and the presented token is of no use afterwards.
\<close>

theorem Refresh_rotates:
  assumes "Refresh cfg env refreshToken (s, w) = (Inr p, (s', w'))" "tokens_ok w"
  shows "\<exists>old new. active_token (ae_hmac env refreshToken) w = Some old \<and> u_ID (tp_User p) = rt_UserID old \<and>
    tp_User p \<in> set (w_users w) \<and>
    w_tokens w' = update_where (\<lambda>t. rt_ID t = rt_ID old) (\<lambda>t. t\<lparr>rt_RevokedAt := Some (w_now w)\<rparr>) (w_tokens w) @ [new] \<and>
    rt_UserID new = rt_UserID old \<and> rt_RevokedAt new = None \<and>
    rt_TokenHash new = ae_hmac env (tp_RefreshToken p) \<and> rt_ExpiresAt new = w_now w + ac_RefreshTokenTTL cfg \<and>
    w_users w' = w_users w \<and> active_token (ae_hmac env refreshToken) w' = None"
proof -
  obtain x w1 where x: "FindActiveRefreshTokenByHash (ae_hmac env refreshToken) w = (Inr x, w1)"
    and after: "(case x of
           None \<Rightarrow> bindE (logRevokedRefreshReuse (ae_hmac env refreshToken)) (\<lambda>_. fail_with (Unauthorized ''invalid_refresh_token''))
         | Some t \<Rightarrow>
             bindE (on_db (RevokeRefreshTokenIfActive (rt_ID t))) (\<lambda>revoked.
             bindE (require revoked (Unauthorized ''invalid_refresh_token'')) (\<lambda>_.
             bindE (on_db (UserRepo_FindByID (rt_UserID t))) (\<lambda>u.
             issueTokenPair cfg env u)))) (s, w1) = (Inr p, (s', w'))"
    using assms(1) by (auto simp: Refresh_def on_db_Inr Let_def elim!: bindE_InrE)
  note found = FindActiveRefreshTokenByHash_Inr(1) [OF x] and s1 = same_tablesD [OF FindActiveRefreshTokenByHash_Inr(2) [OF x]]
  obtain old where old: "x = Some old" using after by (cases x) (auto elim!: bindE_InrE)
  obtain w2 u w3 where rotate: "RevokeRefreshTokenIfActive (rt_ID old) w1 = (Inr True, w2)"
    and u: "UserRepo_FindByID (rt_UserID old) w2 = (Inr u, w3)"
    and issue: "issueTokenPair cfg env u (s, w3) = (Inr p, (s', w'))"
    using after unfolding old by (auto simp: on_db_Inr elim!: bindE_InrE split: if_splits)
  note r = RevokeRefreshTokenIfActive_Inr [OF rotate] and s3 = same_tablesD [OF UserRepo_FindByID_Inr(4) [OF u]]
    and i = issueTokenPair_Inr(2) [OF issue, unfolded issued_def]
  note active = active_token_SomeD [OF found [symmetric, unfolded old]]
  have same_row: "t = old" if "t \<in> set (w_tokens w)" "rt_ID t = rt_ID old \<or> rt_TokenHash t = rt_TokenHash old" for t
    using that active(1) assms(2) by (auto simp: tokens_ok_def distinct_map dest: inj_onD)
  let ?gone = "update_where (\<lambda>t. rt_ID t = rt_ID old) (\<lambda>t. t\<lparr>rt_RevokedAt := Some (w_now w)\<rparr>) (w_tokens w)"
  have gone: "w_tokens (revoke_where (\<lambda>t. rt_ID t = rt_ID old) w1) = ?gone"
  proof -
    have "rt_ID t = rt_ID old \<and> rt_RevokedAt t = None \<longleftrightarrow> rt_ID t = rt_ID old" if "t \<in> set (w_tokens w)" for t
      using same_row [OF that] active(3) by metis
    then show ?thesis by (simp add: revoke_where_def update_where_def s1(11) [symmetric] s1(15) [symmetric])
  qed
  obtain new where new: "w_tokens w' = ?gone @ [new]" "rt_UserID new = u_ID u" "rt_RevokedAt new = None"
      "rt_TokenHash new = ae_hmac env (tp_RefreshToken p)" "rt_ExpiresAt new = w_now w + ac_RefreshTokenTTL cfg"
      "rt_TokenHash new \<notin> rt_TokenHash ` set ?gone"
    using i s1 s3 r gone by simp
  have hashes: "rt_TokenHash ` set ?gone = rt_TokenHash ` set (w_tokens w)"
    unfolding set_map [symmetric] by (subst update_where_keys) simp_all
  have "rt_TokenHash new \<noteq> ae_hmac env refreshToken" using new(6) hashes active(1,2) by (metis imageI)
  moreover have "rt_RevokedAt t \<noteq> None" if "t \<in> set ?gone" "rt_TokenHash t = ae_hmac env refreshToken" for t
    using that same_row active(2) by (auto simp: update_where_def split: if_splits)
  ultimately have "active_token (ae_hmac env refreshToken) w' = None"
    using new(1) by (auto simp: active_token_def find_None_iff)
  then show ?thesis
    using found old new i r s1 s3 UserRepo_FindByID_Inr [OF u] by (intro exI [of _ old] exI [of _ new]) simp
qed

theorem Refresh_rotates_witness:
  "\<exists>p sw'. Refresh demo_cfg demo_env ''old'' (demo_mem, demo_world) = (Inr p, sw') \<and>
     u_ID (tp_User p) = 2 \<and> active_token ''old'' (snd sw') = None"
proof -
  have "is_ok (fst (Refresh demo_cfg demo_env ''old'' (demo_mem, demo_world)))" by code_simp
  then obtain p sw' where run: "Refresh demo_cfg demo_env ''old'' (demo_mem, demo_world) = (Inr p, sw')"
    by (rule is_ok_fstE)
  have facts: "tokens_ok demo_world" "active_token ''old'' demo_world = Some demo_token"
    "ae_hmac demo_env ''old'' = ''old''" "rt_UserID demo_token = 2" by code_simp+
  from Refresh_rotates [of demo_cfg demo_env _ demo_mem demo_world p "fst sw'" "snd sw'", OF _ facts(1)] run facts(2-4)
  have "u_ID (tp_User p) = 2 \<and> active_token ''old'' (snd sw') = None" by force
  with run show ?thesis by blast
qed


section \<open>Passwords\<close>

lemma SetCredentials_Inr:
  assumes "SetCredentials uid name hash w = (Inr x, w')"
  shows "w_users w' = update_where (\<lambda>u. u_ID u = uid)
      (\<lambda>u. u\<lparr>u_Username := Some name, u_PasswordHash := Some hash\<rparr>) (w_users w)"
    "w_tokens w' = w_tokens w" "w_now w' = w_now w"
  using assms by (auto simp: SetCredentials_def elim!: statement_Inr split: if_splits)

text \<open>
  C38 A successful password change was given the old password and a new one that satisfies the
  policy; the stored hash is the new one's, no other account is touched, and of the account's
  sessions only the one just issued is left, while the sessions of every other account stay.
\<close>

theorem ChangePassword_success:
  assumes "ChangePassword cfg env uid old new (s, w) = (Inr p, (s', w'))"
  shows "\<exists>u hash. find_row u_ID uid (w_users w) = Some u \<and> ValidatePasswordPolicy new = Inr () \<and>
    ae_hash env new = Some hash \<and>
    (\<exists>h. u_PasswordHash u = Some h \<and> ae_compare env h old) \<and>
    w_users w' = update_where (\<lambda>v. u_ID v = uid)
      (\<lambda>v. v\<lparr>u_Username := Some (case u_Username u of None \<Rightarrow> [] | Some n \<Rightarrow> n), u_PasswordHash := Some hash\<rparr>) (w_users w) \<and>
    filter (\<lambda>t. rt_UserID t = uid \<and> rt_RevokedAt t = None) (w_tokens w') = [last (w_tokens w')] \<and>
    rt_TokenHash (last (w_tokens w')) = ae_hmac env (tp_RefreshToken p) \<and>
    filter (\<lambda>t. rt_UserID t \<noteq> uid) (w_tokens w') = filter (\<lambda>t. rt_UserID t \<noteq> uid) (w_tokens w)"
proof -
  obtain u w1 where u: "UserRepo_FindByID uid w = (Inr u, w1)"
    and after: "(case u_PasswordHash u of
       None \<Rightarrow> fail_with (Forbidden ''forbidden'')
     | Some h \<Rightarrow>
         bindE (require (ae_compare env h old) invalidCredentials) (\<lambda>_.
         bindE (lift_result (ValidatePasswordPolicy new)) (\<lambda>_.
         case ae_hash env new of
           None \<Rightarrow> fail_with Internal
         | Some hash \<Rightarrow>
             bindE (on_db (SetCredentials (u_ID u) (case u_Username u of None \<Rightarrow> [] | Some n \<Rightarrow> n) hash)) (\<lambda>_.
             bindE (on_db (RevokeAllRefreshTokensForUser (u_ID u))) (\<lambda>_.
             issueTokenPair cfg env u))))) (s, w1) = (Inr p, (s', w'))"
    using assms by (auto simp: ChangePassword_def on_db_Inr elim!: bindE_InrE)
  note found = UserRepo_FindByID_Inr [OF u] and s1 = same_tablesD [OF UserRepo_FindByID_Inr(4) [OF u]]
  obtain h hash w2 w3 where ok: "u_PasswordHash u = Some h" "ae_compare env h old" "ValidatePasswordPolicy new = Inr ()"
      "ae_hash env new = Some hash"
    and set: "SetCredentials (u_ID u) (case u_Username u of None \<Rightarrow> [] | Some n \<Rightarrow> n) hash w1 = (Inr (), w2)"
    and revoke: "RevokeAllRefreshTokensForUser (u_ID u) w2 = (Inr (), w3)"
    and issue: "issueTokenPair cfg env u (s, w3) = (Inr p, (s', w'))"
    using after by (auto simp: on_db_Inr elim!: bindE_InrE split: option.splits if_splits sum.splits)
  note c = SetCredentials_Inr [OF set] and r = RevokeAll_Inr [OF revoke]
    and i = issueTokenPair_Inr(2) [OF issue, unfolded issued_def]
  let ?rows = "w_tokens (revoke_where (\<lambda>t. rt_UserID t = uid) w2)"
  obtain t where t: "w_tokens w' = ?rows @ [t]" "rt_UserID t = uid" "rt_RevokedAt t = None"
      "rt_TokenHash t = ae_hmac env (tp_RefreshToken p)"
    using i r found(2) by auto
  have "filter (\<lambda>t. rt_UserID t = uid \<and> rt_RevokedAt t = None) ?rows = []"
    unfolding filter_empty_conv set_revoke_where by (rule ballI, erule imageE) simp
  then have own: "filter (\<lambda>t. rt_UserID t = uid \<and> rt_RevokedAt t = None) (w_tokens w') = [last (w_tokens w')]"
    using t(2,3) unfolding t(1) filter_append by simp
  have "filter (\<lambda>t. rt_UserID t \<noteq> uid) (update_where (\<lambda>t. rt_UserID t = uid \<and> rt_RevokedAt t = None) f rows) =
      filter (\<lambda>t. rt_UserID t \<noteq> uid) rows" if "\<And>t. rt_UserID (f t) = rt_UserID t" for f and rows :: "RefreshToken list"
    using that by (induction rows) auto
  then have others: "filter (\<lambda>t. rt_UserID t \<noteq> uid) (w_tokens w') = filter (\<lambda>t. rt_UserID t \<noteq> uid) (w_tokens w)"
    using c(2) s1(11) by (simp add: revoke_where_def t)
  have users: "w_users w' = update_where (\<lambda>v. u_ID v = uid)
      (\<lambda>v. v\<lparr>u_Username := Some (case u_Username u of None \<Rightarrow> [] | Some n \<Rightarrow> n), u_PasswordHash := Some hash\<rparr>) (w_users w)"
    using c(1) r(2) i found(2) s1(1) by simp
  have "rt_TokenHash (last (w_tokens w')) = ae_hmac env (tp_RefreshToken p)" by (simp add: t)
  with own others users ok found(3) show ?thesis by blast
qed

theorem ChangePassword_success_witness:
  "\<exists>p sw'. ChangePassword demo_cfg demo_env 2 ''Secret123'' ''Better456'' (demo_mem, demo_world) = (Inr p, sw') \<and>
     filter (\<lambda>t. rt_UserID t = 2 \<and> rt_RevokedAt t = None) (w_tokens (snd sw')) = [last (w_tokens (snd sw'))]"
proof -
  have "is_ok (fst (ChangePassword demo_cfg demo_env 2 ''Secret123'' ''Better456'' (demo_mem, demo_world)))" by code_simp
  then obtain p sw' where run: "ChangePassword demo_cfg demo_env 2 ''Secret123'' ''Better456'' (demo_mem, demo_world) = (Inr p, sw')"
    by (rule is_ok_fstE)
  with ChangePassword_success [of demo_cfg demo_env 2 _ _ demo_mem demo_world p "fst sw'" "snd sw'"]
  show ?thesis by auto
qed

definition bad_credentials :: "auth_env \<Rightarrow> string \<Rightarrow> string \<Rightarrow> world \<Rightarrow> bool" where
  "bad_credentials env username password w \<longleftrightarrow>
     (case find (\<lambda>u. u_Username u = Some username) (w_users w) of
        None \<Rightarrow> True
      | Some u \<Rightarrow> (case u_PasswordHash u of None \<Rightarrow> True | Some h \<Rightarrow> \<not> ae_compare env h password))"

text \<open>
  C39 A failed password login reveals nothing about the accounts: for an unknown user name, an
  account without a password and a wrong password alike, the answer and the state left behind are
  determined by the lockout state, the user name and the time, and the tables stay as they were.
\<close>

theorem failed_login_reveals_nothing:
  assumes "w_faults w = []" "bad_credentials env username password w"
  shows "LoginWithPassword cfg env username password (s, w) =
    (if fst (Locked (w_now w) (ToLower username) (am_loginLockout s))
     then (Inl (TooManyRequests ''login_locked''), (s, w))
     else (Inl (Unauthorized ''invalid_credentials''),
           (s\<lparr>am_loginLockout := Fail (w_now w) (ToLower username) (am_loginLockout s)\<rparr>, w)))"
proof (cases "find (\<lambda>u. u_Username u = Some username) (w_users w)")
  case None
  then have "UserRepo_FindByUsername username w = (Inl (NotFound ''user_not_found''), w)"
    using assms(1) by (simp add: UserRepo_FindByUsername_def)
  then show ?thesis
    by (simp add: LoginWithPassword_def Let_def attempt_def bindE_def on_db_apply lock_fail_def invalidCredentials_def
        NotFound_def)
next
  case (Some u)
  then have found: "UserRepo_FindByUsername username w = (Inr u, w)"
    using assms(1) by (simp add: UserRepo_FindByUsername_def)
  have "case u_PasswordHash u of None \<Rightarrow> True | Some h \<Rightarrow> \<not> ae_compare env h password"
    using assms(2) Some by (simp add: bad_credentials_def)
  then show ?thesis
    by (simp add: LoginWithPassword_def Let_def attempt_def bindE_def on_db_apply found lock_fail_def invalidCredentials_def)
qed

theorem failed_login_reveals_nothing_witness:
  "fst (LoginWithPassword demo_cfg demo_env ''ali'' ''wrong'' (demo_mem, demo_world)) =
   fst (LoginWithPassword demo_cfg demo_env ''nobody'' ''wrong'' (demo_mem, demo_world))"
proof -
  have "w_faults demo_world = []" "bad_credentials demo_env ''ali'' ''wrong'' demo_world"
    "bad_credentials demo_env ''nobody'' ''wrong'' demo_world" by code_simp+
  note r = failed_login_reveals_nothing [OF this(1,2), of demo_cfg demo_mem]
    failed_login_reveals_nothing [OF this(1,3), of demo_cfg demo_mem]
  have "\<not> fst (Locked (w_now demo_world) (ToLower ''ali'') (am_loginLockout demo_mem))"
    "\<not> fst (Locked (w_now demo_world) (ToLower ''nobody'') (am_loginLockout demo_mem))" by code_simp+
  with r show ?thesis by simp
qed

section \<open>Access tokens\<close>

text \<open>
  C40 Whoever presents an issued access token before the whole second of its expiry is authenticated
  as the account it was issued to, with its role and washing point; the life of the token is the
  shorter one for every role but customer when one is configured. The laws of the JWT and UUID
  libraries it needs: parsing a signed token gives its claims until the expiry in whole seconds,
  and parsing a printed UUID gives it back.
\<close>

theorem issued_token_authenticates:
  assumes "issueTokenPair cfg env u (s, w) = (Inr p, sw')"
    and "\<forall>c iat exp token t. ae_sign env c iat exp = Some token \<longrightarrow>
      token \<noteq> [] \<and> (t < exp div Second * Second \<longrightarrow> jwt_parse t token = Some c)"
    and "\<forall>k. uuid_parse (ae_uuid_string env k) = Some k"
    and "t < tp_AccessTokenExpiresAt p div Second * Second"
  shows "RequireAuth uuid_parse (jwt_parse t) (''Bearer '' @ tp_AccessToken p) =
      Inr \<lparr>au_id = u_ID u, au_role = u_Role u, au_wp = u_WashingPointID u\<rparr> \<and>
    tp_AccessTokenExpiresAt p = w_now w +
      (if u_Role u \<noteq> RoleCustomer \<and> 0 < ac_StaffAccessTokenTTL cfg then ac_StaffAccessTokenTTL cfg
       else ac_AccessTokenTTL cfg)"
proof -
  have "Generate cfg env (w_now w) (user_claims env u) = Some (tp_AccessToken p, tp_AccessTokenExpiresAt p)"
    by (rule issueTokenPair_Inr(3) [of cfg env u s w p "fst sw'" "snd sw'"]) (simp add: assms(1))
  then have sign: "ae_sign env (user_claims env u) (w_now w) (tp_AccessTokenExpiresAt p) = Some (tp_AccessToken p)"
    and exp: "tp_AccessTokenExpiresAt p = w_now w +
      (if u_Role u \<noteq> RoleCustomer \<and> 0 < ac_StaffAccessTokenTTL cfg then ac_StaffAccessTokenTTL cfg
       else ac_AccessTokenTTL cfg)"
    by (auto simp: Generate_def Let_def user_claims_def customerRole_def RoleCustomer_def)
  have "tp_AccessToken p \<noteq> []" "jwt_parse t (tp_AccessToken p) = Some (user_claims env u)"
    using assms(2) sign assms(4) by blast+
  then have "RequireAuth uuid_parse (jwt_parse t) (''Bearer '' @ tp_AccessToken p) =
      Inr \<lparr>au_id = u_ID u, au_role = u_Role u, au_wp = u_WashingPointID u\<rparr>"
    using assms(3) by (simp add: RequireAuth_def HasPrefix_def user_claims_def split: option.split)
  with exp show ?thesis by blast
qed

text \<open>A signer that signs the tokens of one account only, with identifiers in unary.\<close>

definition unary_env :: auth_env where
  "unary_env = demo_env\<lparr>ae_uuid_string := (\<lambda>k. replicate k CHR ''x''),
     ae_sign := (\<lambda>c iat exp. if c = \<lparr>cl_uid = ''xx'', cl_role = RoleStaff, cl_wpid = None\<rparr> \<and> exp = 3 * Second
       then Some ''jwt'' else None)\<rparr>"

theorem issued_token_authenticates_witness:
  "\<exists>p sw'. issueTokenPair (demo_cfg\<lparr>ac_StaffAccessTokenTTL := 3 * Second - 150\<rparr>) unary_env demo_user (demo_mem, demo_world) = (Inr p, sw') \<and>
     RequireAuth (\<lambda>k. Some (length k))
       (\<lambda>token. if token = ''jwt'' then Some \<lparr>cl_uid = ''xx'', cl_role = RoleStaff, cl_wpid = None\<rparr> else None)
       (''Bearer '' @ tp_AccessToken p) = Inr \<lparr>au_id = 2, au_role = RoleStaff, au_wp = None\<rparr>"
proof -
  let ?cfg = "demo_cfg\<lparr>ac_StaffAccessTokenTTL := 3 * Second - 150\<rparr>"
  let ?parse = "\<lambda>(t::time) token. if token = ''jwt''
      then Some \<lparr>cl_uid = ''xx'', cl_role = RoleStaff, cl_wpid = None\<rparr> else None"
  have "is_ok (fst (issueTokenPair ?cfg unary_env demo_user (demo_mem, demo_world)))" by code_simp
  then obtain p sw' where run: "issueTokenPair ?cfg unary_env demo_user (demo_mem, demo_world) = (Inr p, sw')"
    by (rule is_ok_fstE)
  have jwt: "\<forall>c iat exp token t. ae_sign unary_env c iat exp = Some token \<longrightarrow>
      token \<noteq> [] \<and> (t < exp div Second * Second \<longrightarrow> ?parse t token = Some c)"
    by (simp add: unary_env_def)
  have uuid: "\<forall>k. Some (length (ae_uuid_string unary_env k)) = Some k" by (simp add: unary_env_def)
  have user: "u_ID demo_user = 2" "u_Role demo_user = RoleStaff" "u_WashingPointID demo_user = None"
    by (simp_all add: demo_user_def)
  have "RequireAuth (\<lambda>k. Some (length k)) (?parse (tp_AccessTokenExpiresAt p div Second * Second - 1))
      (''Bearer '' @ tp_AccessToken p) = Inr \<lparr>au_id = 2, au_role = RoleStaff, au_wp = None\<rparr>"
    using issued_token_authenticates [OF run jwt uuid, of "tp_AccessTokenExpiresAt p div Second * Second - 1"] user
    by simp
  with run show ?thesis by blast
qed

end
