(* ===== verification/Provision.thy ===== *)
theory Provision
  imports Users
begin

text \<open>
  \<open>internal/user/provision.go\<close> and \<open>internal/platform/password\<close>: the staff and worker logins of a
  washing point. The random source and bcrypt are the fields of \<open>prov_env\<close>: \<open>pe_draw k i\<close> is the
  \<open>i\<close>-th number drawn for the password of the account whose identifier will be \<open>k\<close>, below the
  length of the alphabet, or \<open>None\<close> when the source fails.
\<close>

section \<open>Passwords\<close>

record prov_env =
  pe_draw :: "uuid \<Rightarrow> nat \<Rightarrow> nat option"
  pe_hash :: "string \<Rightarrow> string option"

definition charset :: string where
  "charset = ''23456789ABCDEFGHJKLMNPQRSTUVWXYZabcdefghijkmnopqrstuvwxyz''"

definition GenerateRandom :: "(nat \<Rightarrow> nat option) \<Rightarrow> string option" where
  "GenerateRandom draw =
     (if list_ex (\<lambda>i. draw i = None) [0..<16] then None
      else Some (map (\<lambda>i. charset ! (case draw i of None \<Rightarrow> 0 | Some n \<Rightarrow> n)) [0..<16]))"

record Credential =
  cd_Username :: string
  cd_Password :: string

record PointAccounts =
  pa_Staff :: Credential
  pa_Worker :: Credential

section \<open>User names\<close>

definition slug_char :: "char \<Rightarrow> bool" where
  "slug_char c \<longleftrightarrow> (let n = of_char c :: nat in 97 \<le> n \<and> n \<le> 122 \<or> 48 \<le> n \<and> n \<le> 57)"

text \<open>
  \<open>strings.ToLower\<close> as far as the slug sees it: besides the ASCII capitals only two characters have
  an ASCII lower case, the dotted capital I (C4 B0) and the Kelvin sign (E2 84 AA); every other
  character outside ASCII stays outside.
\<close>

fun slug_lower :: "string \<Rightarrow> string" where
  "slug_lower (a # b # c # cs) =
     (if a = CHR 0xE2 \<and> b = CHR 0x84 \<and> c = CHR 0xAA then CHR ''k'' # slug_lower cs
      else if a = CHR 0xC4 \<and> b = CHR 0xB0 then CHR ''i'' # slug_lower (c # cs)
      else lower_char a # slug_lower (b # c # cs))"
| "slug_lower [a, b] = (if a = CHR 0xC4 \<and> b = CHR 0xB0 then [CHR ''i''] else [lower_char a, lower_char b])"
| "slug_lower [a] = [lower_char a]"
| "slug_lower [] = []"

function slug_runs :: "string \<Rightarrow> string" where
  "slug_runs [] = []"
| "slug_runs (c # cs) =
     (if slug_char c then c # slug_runs cs else CHR ''-'' # slug_runs (dropWhile (\<lambda>c. \<not> slug_char c) cs))"
  by pat_completeness auto
termination by (relation "measure length") (auto simp: less_Suc_eq_le length_dropWhile_le)

definition trim_dashes :: "string \<Rightarrow> string" where
  "trim_dashes s = rev (dropWhile (\<lambda>c. c = CHR ''-'') (rev (dropWhile (\<lambda>c. c = CHR ''-'') s)))"

definition slugify :: "string \<Rightarrow> string" where
  "slugify name =
     (let s = trim_dashes (slug_runs (slug_lower name)) in if s = [] then ''point'' else s)"

definition candidate :: "string \<Rightarrow> nat \<Rightarrow> string" where
  "candidate base i = (if i > 1 then base @ ''-'' @ Itoa (int i) else base)"

definition username_taken :: "string \<Rightarrow> world \<Rightarrow> bool" where
  "username_taken name w \<longleftrightarrow> length (filter (\<lambda>u. u_Username u = Some name) (w_users w)) \<noteq> 0"

text \<open>
  The loop over the candidates, with fuel: the number of accounts plus one is enough, since the
  candidates differ (\<open>find_username_run\<close> below).
\<close>

primrec find_username :: "nat \<Rightarrow> string \<Rightarrow> nat \<Rightarrow> string db" where
  "find_username 0 base i = fail_with Internal"
| "find_username (Suc fuel) base i =
     bindE (query (username_taken (candidate base i))) (\<lambda>taken.
     if \<not> taken then return_ok (candidate base i) else find_username fuel base (i + 1))"

definition uniqueUsername :: "string \<Rightarrow> string db" where
  "uniqueUsername base = (\<lambda>w. find_username (Suc (length (w_users w))) base 1 w)"

section \<open>Accounts\<close>

definition draw_password :: "prov_env \<Rightarrow> string db" where
  "draw_password env =
     (\<lambda>w. case GenerateRandom (pe_draw env (w_next w)) of
            None \<Rightarrow> (Inl Internal, w) | Some p \<Rightarrow> (Inr p, w))"

definition hash_password :: "prov_env \<Rightarrow> string \<Rightarrow> string db" where
  "hash_password env p = (case pe_hash env p of None \<Rightarrow> fail_with Internal | Some h \<Rightarrow> return_ok h)"

definition newCredential :: "prov_env \<Rightarrow> uuid \<Rightarrow> string \<Rightarrow> string \<Rightarrow> Credential db" where
  "newCredential env pid role usernameBase =
     bindE (uniqueUsername usernameBase) (\<lambda>username.
     bindE (draw_password env) (\<lambda>plaintext.
     bindE (hash_password env plaintext) (\<lambda>hash.
     bindE (UserRepo_Create \<lparr>u_ID = uuid_Nil, u_PhoneNumber = None, u_Name = None, u_Role = role,
       u_WashingPointID = Some pid, u_LastLoginAt = None, u_Username = Some username,
       u_PasswordHash = Some hash, u_CreatedAt = ZeroTime\<rparr>) (\<lambda>_.
     return_ok \<lparr>cd_Username = username, cd_Password = plaintext\<rparr>))))"

definition ProvisionPointAccounts :: "prov_env \<Rightarrow> uuid \<Rightarrow> string \<Rightarrow> PointAccounts db" where
  "ProvisionPointAccounts env pid pointName =
     (let base = slugify pointName
      in bindE (newCredential env pid RoleStaff base) (\<lambda>staff.
         bindE (newCredential env pid RoleWorker (base @ ''-worker'')) (\<lambda>worker.
         return_ok \<lparr>pa_Staff = staff, pa_Worker = worker\<rparr>)))"

definition ResetPassword :: "prov_env \<Rightarrow> User \<Rightarrow> string db" where
  "ResetPassword env u =
     bindE (draw_password env) (\<lambda>plaintext.
     bindE (hash_password env plaintext) (\<lambda>hash.
     bindE (SetCredentials (u_ID u) (case u_Username u of None \<Rightarrow> [] | Some n \<Rightarrow> n) hash) (\<lambda>_.
     return_ok plaintext)))"

definition ProvisionAccount :: "prov_env \<Rightarrow> uuid \<Rightarrow> string \<Rightarrow> string \<Rightarrow> Credential db" where
  "ProvisionAccount env pid role pointName =
     (let base = (if role = RoleWorker then slugify pointName @ ''-worker'' else slugify pointName)
      in transaction (newCredential env pid role base))"

section \<open>The search for a free user name ends\<close>

lemma candidate_inject:
  assumes "1 \<le> i" "1 \<le> j" "candidate base i = candidate base j"
  shows "i = j"
  using assms by (auto simp: candidate_def Itoa_def split: if_splits)

lemma username_taken_mem: "username_taken name w \<longleftrightarrow> Some name \<in> u_Username ` set (w_users w)"
proof -
  have "username_taken name w \<longleftrightarrow> (\<exists>u \<in> set (w_users w). u_Username u = Some name)"
    by (auto simp: username_taken_def filter_empty_conv)
  then show ?thesis by (metis image_iff)
qed

lemma username_taken_fault [simp]: "username_taken name (w\<lparr>w_faults := fs\<rparr>) = username_taken name w"
  by (simp add: username_taken_def)

text \<open>Some candidate among the first \<open>n + 1\<close> is free when there are \<open>n\<close> accounts.\<close>

lemma free_candidate:
  "\<exists>i \<in> {1..Suc (length (w_users w))}. \<not> username_taken (candidate base i) w"
proof (rule ccontr)
  let ?n = "length (w_users w)"
  assume "\<not> ?thesis"
  then have "(\<lambda>i. Some (candidate base i)) ` {1..Suc ?n} \<subseteq> u_Username ` set (w_users w)"
    by (auto simp: username_taken_mem)
  moreover have "inj_on (\<lambda>i. Some (candidate base i)) {1..Suc ?n}"
    by (rule inj_onI, rule candidate_inject [where base = base]) auto
  ultimately have "Suc ?n \<le> card (u_Username ` set (w_users w))"
    by (metis card_atLeastAtMost card_image card_mono diff_Suc_1 finite_imageI finite_set)
  also have "\<dots> \<le> ?n" by (meson card_image_le card_length finite_set le_trans)
  finally show False by simp
qed

definition first_free :: "string \<Rightarrow> world \<Rightarrow> nat" where
  "first_free base w = (LEAST i. 1 \<le> i \<and> \<not> username_taken (candidate base i) w)"

lemma first_free:
  "1 \<le> first_free base w" "\<not> username_taken (candidate base (first_free base w)) w"
  "first_free base w \<le> Suc (length (w_users w))"
  "1 \<le> j \<Longrightarrow> j < first_free base w \<Longrightarrow> username_taken (candidate base j) w"
proof -
  obtain i where i: "1 \<le> i" "i \<le> Suc (length (w_users w))" "\<not> username_taken (candidate base i) w"
    using free_candidate [of w base] by auto
  let ?P = "\<lambda>i. 1 \<le> i \<and> \<not> username_taken (candidate base i) w"
  have P: "?P i" using i by simp
  from LeastI [of ?P i, OF P]
  show "1 \<le> first_free base w" "\<not> username_taken (candidate base (first_free base w)) w"
    unfolding first_free_def by blast+
  have "first_free base w \<le> i" unfolding first_free_def by (rule Least_le [of ?P i, OF P])
  then show "first_free base w \<le> Suc (length (w_users w))" using i(2) by simp
  show "1 \<le> j \<Longrightarrow> j < first_free base w \<Longrightarrow> username_taken (candidate base j) w"
    using not_less_Least [of j ?P] unfolding first_free_def by blast
qed

lemma first_free_fault [simp]: "first_free base (w\<lparr>w_faults := fs\<rparr>) = first_free base w"
  by (simp add: first_free_def)

text \<open>With enough fuel the loop never runs out: it answers the first free name or a database error.\<close>

lemma find_username_run:
  assumes "1 \<le> i" "i \<le> first_free base w" "first_free base w < i + fuel"
  shows "\<exists>fs. find_username fuel base i w = (Inr (candidate base (first_free base w)), w\<lparr>w_faults := fs\<rparr>) \<or>
    find_username fuel base i w = (Inl Internal, w\<lparr>w_faults := fs\<rparr>) \<and> True \<in> set (w_faults w)"
  using assms
proof (induction fuel arbitrary: i w)
  case 0
  then have False by linarith
  then show ?case ..
next
  case (Suc fuel)
  let ?q = "query (username_taken (candidate base i)) :: bool db"
  show ?case
  proof (cases "?q w")
    case (Pair r w1)
    show ?thesis
    proof (cases r)
      case (Inl e)
      from query_Inl [OF Pair [unfolded Inl]] obtain fs
        where w1: "w1 = w\<lparr>w_faults := fs\<rparr>" "e = Internal" "w_faults w = True # fs" .
      have "find_username (Suc fuel) base i w = (Inl Internal, w\<lparr>w_faults := fs\<rparr>)"
        using bindE_Inl [where m = ?q, OF Pair [unfolded Inl]] w1(1,2) by simp
      then show ?thesis using w1(3) by auto
    next
      case (Inr taken)
      from query_Inr [OF Pair [unfolded Inr]]
      obtain fs where w1: "w1 = w\<lparr>w_faults := fs\<rparr>"
        and val: "taken = username_taken (candidate base i) (w\<lparr>w_faults := fs\<rparr>)"
        and fs: "w_faults w = [] \<and> fs = [] \<or> w_faults w = False # fs" .
      have taken: "taken = username_taken (candidate base i) w" using val by simp
      have sub: "set fs \<subseteq> set (w_faults w)" using fs by auto
      show ?thesis
      proof (cases "i = first_free base w")
        case True
        then have "\<not> taken" using taken first_free(2) by simp
        then show ?thesis using Pair Inr w1 True by (auto simp: bindE_def)
      next
        case False
        then have later: "i < first_free base w" using Suc.prems(2) by simp
        then have taken: taken using taken first_free(4) [OF Suc.prems(1)] by simp
        from Suc.IH [of "i + 1" w1] later Suc.prems w1
        obtain fs' where "find_username fuel base (i + 1) w1 = (Inr (candidate base (first_free base w)), w1\<lparr>w_faults := fs'\<rparr>) \<or>
          find_username fuel base (i + 1) w1 = (Inl Internal, w1\<lparr>w_faults := fs'\<rparr>) \<and> True \<in> set (w_faults w1)"
          by auto
        then show ?thesis using Pair Inr w1 taken sub by (auto simp: bindE_def)
      qed
    qed
  qed
qed

lemma find_username_more:
  assumes "1 \<le> i" "i \<le> first_free base w" "first_free base w < i + fuel"
  shows "find_username (fuel + extra) base i w = find_username fuel base i w"
  using assms
proof (induction fuel arbitrary: i w)
  case 0
  then have False by linarith
  then show ?case ..
next
  case (Suc fuel)
  let ?q = "query (username_taken (candidate base i)) :: bool db"
  have "find_username (fuel + extra) base (i + 1) w1 = find_username fuel base (i + 1) w1"
    if run: "?q w = (Inr taken, w1)" and taken for taken w1
  proof -
    from query_Inr [OF run] obtain fs where w1: "w1 = w\<lparr>w_faults := fs\<rparr>"
      and val: "taken = username_taken (candidate base i) (w\<lparr>w_faults := fs\<rparr>)" .
    have "username_taken (candidate base i) w" using val \<open>taken\<close> by simp
    then have "i \<noteq> first_free base w" using first_free(2) by metis
    with Suc.prems w1 show ?thesis by (intro Suc.IH) simp_all
  qed
  then show ?case by (auto simp: bindE_def split: sum.splits prod.splits)
qed

lemma uniqueUsername_run:
  "\<exists>fs. uniqueUsername base w = (Inr (candidate base (first_free base w)), w\<lparr>w_faults := fs\<rparr>) \<or>
    uniqueUsername base w = (Inl Internal, w\<lparr>w_faults := fs\<rparr>) \<and> True \<in> set (w_faults w)"
proof -
  have "first_free base w < 1 + Suc (length (w_users w))" using first_free(3) [of base w] by simp
  from find_username_run [of 1 base w "Suc (length (w_users w))", OF order_refl first_free(1) this]
  show ?thesis unfolding uniqueUsername_def .
qed

text \<open>
  C11 The search for a free user name ends. Whatever the accounts are, the loop answers within as
  many statements as there are accounts plus one, so that allowing it more changes nothing: with the
  first candidate, which no account has, or, only if the database failed, with its error; and it
  never changes a row.
\<close>

theorem uniqueUsername_total:
  "find_username (Suc (length (w_users w)) + extra) base 1 w = uniqueUsername base w \<and>
   \<not> username_taken (candidate base (first_free base w)) w \<and>
   (\<exists>fs. uniqueUsername base w = (Inr (candidate base (first_free base w)), w\<lparr>w_faults := fs\<rparr>) \<or>
     uniqueUsername base w = (Inl Internal, w\<lparr>w_faults := fs\<rparr>) \<and> True \<in> set (w_faults w))"
proof -
  have "first_free base w < 1 + Suc (length (w_users w))" using first_free(3) [of base w] by simp
  from find_username_more [of 1 base w "Suc (length (w_users w))", OF order_refl first_free(1) this]
    uniqueUsername_run [of base w] first_free(2) [of base w]
  show ?thesis unfolding uniqueUsername_def by blast
qed

lemma uniqueUsername_Inr:
  assumes "uniqueUsername base w = (Inr name, w')"
  shows "name = candidate base (first_free base w)" "\<not> username_taken name w" "\<exists>fs. w' = w\<lparr>w_faults := fs\<rparr>"
  using uniqueUsername_run [of base w] first_free(2) [of base w] assms by auto

section \<open>New accounts\<close>

definition account :: "uuid \<Rightarrow> uuid \<Rightarrow> string \<Rightarrow> string \<Rightarrow> string \<Rightarrow> time \<Rightarrow> User" where
  "account k pid role username hash now =
     \<lparr>u_ID = k, u_PhoneNumber = None, u_Name = None, u_Role = role, u_WashingPointID = Some pid,
      u_LastLoginAt = None, u_Username = Some username, u_PasswordHash = Some hash, u_CreatedAt = now\<rparr>"

lemma UserRepo_Create_Inr:
  assumes "UserRepo_Create u w = (Inr x, w')"
  shows "\<exists>fs. w' = w\<lparr>w_faults := fs, w_users := w_users w @ [u\<lparr>u_ID := w_next w, u_CreatedAt := w_now w\<rparr>],
      w_next := w_next w + 1\<rparr>"
    "user_row_ok (u\<lparr>u_ID := w_next w, u_CreatedAt := w_now w\<rparr>) (w_users w)"
  using assms by (auto simp: UserRepo_Create_def Let_def elim!: statement_Inr split: if_splits)

lemma newCredential_Inr:
  assumes "newCredential env pid role base w = (Inr c, w')"
  obtains hash fs where "pe_hash env (cd_Password c) = Some hash"
    "cd_Username c = candidate base (first_free base w)" "\<not> username_taken (cd_Username c) w"
    "rune_count (cd_Username c) \<le> 50"
    "w' = w\<lparr>w_faults := fs, w_users := w_users w @ [account (w_next w) pid role (cd_Username c) hash (w_now w)],
        w_next := w_next w + 1\<rparr>"
proof -
  obtain name w1 plain hash x where name: "uniqueUsername base w = (Inr name, w1)"
    and hash: "pe_hash env plain = Some hash"
    and create: "UserRepo_Create \<lparr>u_ID = uuid_Nil, u_PhoneNumber = None, u_Name = None, u_Role = role,
       u_WashingPointID = Some pid, u_LastLoginAt = None, u_Username = Some name,
       u_PasswordHash = Some hash, u_CreatedAt = ZeroTime\<rparr> w1 = (Inr x, w')"
    and c: "c = \<lparr>cd_Username = name, cd_Password = plain\<rparr>"
    using assms
    by (auto simp: newCredential_def draw_password_def hash_password_def elim!: bindE_InrE split: option.splits)
  obtain fs where w1: "w1 = w\<lparr>w_faults := fs\<rparr>" using uniqueUsername_Inr(3) [OF name] by blast
  obtain fs' where w': "w' = w1\<lparr>w_faults := fs', w_users := w_users w1 @ [account (w_next w1) pid role name hash (w_now w1)],
      w_next := w_next w1 + 1\<rparr>"
    using UserRepo_Create_Inr(1) [OF create] by (auto simp: account_def)
  have "rune_count name \<le> 50" using UserRepo_Create_Inr(2) [OF create] by (simp add: user_row_ok_def)
  with that [of hash fs'] hash c uniqueUsername_Inr(1,2) [OF name] w' show ?thesis by (simp add: w1)
qed

lemma uniqueUsername_keeps: "table_property I \<Longrightarrow> preserves I (uniqueUsername base)"
proof (rule preservesI)
  fix w assume I: "table_property I" "I w"
  obtain fs where "snd (uniqueUsername base w) = w\<lparr>w_faults := fs\<rparr>"
    using uniqueUsername_run [of base w] by auto
  with table_property_faults [OF I] show "I (snd (uniqueUsername base w))" by simp
qed

lemma draw_password_keeps [simp]: "preserves I (draw_password env)"
  by (simp add: preserves_def draw_password_def split: option.split)

lemma hash_password_keeps [simp]: "preserves I (hash_password env p)"
  by (simp add: preserves_def hash_password_def split: option.split)

lemma newCredential_users_ok: "preserves users_ok (newCredential env pid role base)"
  unfolding newCredential_def
  by (intro preserves_bindE uniqueUsername_keeps users_ok_table draw_password_keeps hash_password_keeps
      UserRepo_Create_ok preserves_pure)

end
