(* ===== verification/Points.thy ===== *)
theory Points
  imports Provision Schedule Boxes WpRepo AuthTokens Endpoints
begin

text \<open>
  \<open>internal/washingpoint/handler.go\<close> and \<open>CreateWithAccounts\<close> of the repository: the public list of
  washing points, creation with accounts, schedule and boxes, updates, and the credentials of a
  point. Latitude and longitude are rationals: JSON has neither NaN nor infinities, and the code
  only compares them.
\<close>

section \<open>Creation with accounts\<close>

text \<open>\<open>apperror.Internal(err)\<close> around a call.\<close>

definition as_internal :: "'a db \<Rightarrow> 'a db" where
  "as_internal m = catchE m (\<lambda>_. fail_with Internal)"

definition CreateWithAccounts :: "prov_env \<Rightarrow> WashingPoint \<Rightarrow> (WashingPoint \<times> PointAccounts) db" where
  "CreateWithAccounts env p =
     as_internal (transaction
       (bindE (WpRepo_Create p) (\<lambda>wp.
        bindE (ProvisionPointAccounts env (wp_ID wp) (wp_Name wp)) (\<lambda>accounts.
        return_ok (wp, accounts)))))"

section \<open>Responses\<close>

definition wp_status_string :: "wp_status \<Rightarrow> string" where
  "wp_status_string s =
     (case s of WpActive \<Rightarrow> ''active'' | WpPaused \<Rightarrow> ''paused'' | WpPendingReview \<Rightarrow> ''pending_review'')"

definition parse_wp_status :: "string \<Rightarrow> wp_status option" where
  "parse_wp_status s = find (\<lambda>st. wp_status_string st = s) [WpActive, WpPaused, WpPendingReview]"

definition isValidStatus :: "string \<Rightarrow> bool" where
  "isValidStatus s \<longleftrightarrow> s = ''active'' \<or> s = ''paused'' \<or> s = ''pending_review''"

record wp_response =
  wr_id :: uuid
  wr_owner_id :: "uuid option"
  wr_name :: string
  wr_address :: string
  wr_latitude :: rat
  wr_longitude :: rat
  wr_boxes_count :: int
  wr_open_time :: string
  wr_close_time :: string
  wr_status :: string
  wr_description :: "string option"
  wr_amenities :: "string list"

definition wp_toResponse :: "WashingPoint \<Rightarrow> wp_response" where
  "wp_toResponse wp =
     \<lparr>wr_id = wp_ID wp, wr_owner_id = wp_OwnerID wp, wr_name = wp_Name wp, wr_address = wp_Address wp,
      wr_latitude = wp_Latitude wp, wr_longitude = wp_Longitude wp, wr_boxes_count = wp_BoxesCount wp,
      wr_open_time = wp_OpenTime wp, wr_close_time = wp_CloseTime wp, wr_status = wp_status_string (wp_Status wp),
      wr_description = wp_Description wp, wr_amenities = wp_Amenities wp\<rparr>"

definition wp_list :: "wp_response list db" where
  "wp_list = bindE WpRepo_List (\<lambda>points. return_ok (map wp_toResponse points))"

definition wp_get :: "(string \<Rightarrow> uuid option) \<Rightarrow> string \<Rightarrow> wp_response db" where
  "wp_get uuid_parse rawID =
     bindE (lift_result (ParseUUIDParam uuid_parse rawID)) (\<lambda>k.
     bindE (WpRepo_FindByID k) (\<lambda>wp.
     return_ok (wp_toResponse wp)))"

section \<open>Creation and update\<close>

definition wp_validate ::
  "string \<Rightarrow> string \<Rightarrow> rat \<Rightarrow> rat \<Rightarrow> int \<Rightarrow> string \<Rightarrow> string \<Rightarrow> apperror + unit" where
  "wp_validate name address lat lon boxesCount openTime closeTime =
     (if name = [] \<or> length name > 255 then Inl (BadRequest ''invalid_name'')
      else if address = [] \<or> length address > 500 then Inl (BadRequest ''invalid_address'')
      else if lat < -90 \<or> lat > 90 then Inl (BadRequest ''invalid_latitude'')
      else if lon < -180 \<or> lon > 180 then Inl (BadRequest ''invalid_longitude'')
      else if boxesCount < 1 then Inl (BadRequest ''invalid_boxes_count'')
      else if \<not> timeFormatRegexp openTime then Inl (BadRequest ''invalid_open_time'')
      else if \<not> timeFormatRegexp closeTime then Inl (BadRequest ''invalid_close_time'')
      else if closeTime \<le> openTime then Inl (BadRequest ''invalid_hours'')
      else Inr ())"

record wp_create_request =
  wc_OwnerID :: "string option"
  wc_Name :: string
  wc_Address :: string
  wc_Latitude :: rat
  wc_Longitude :: rat
  wc_BoxesCount :: "int option"
  wc_OpenTime :: "string option"
  wc_CloseTime :: "string option"
  wc_Status :: "string option"
  wc_Description :: "string option"
  wc_Amenities :: "string list"

definition or_default :: "'a \<Rightarrow> 'a option \<Rightarrow> 'a" where
  "or_default d v = (case v of None \<Rightarrow> d | Some x \<Rightarrow> x)"

definition parse_owner :: "(string \<Rightarrow> uuid option) \<Rightarrow> string option \<Rightarrow> apperror + uuid option" where
  "parse_owner uuid_parse raw =
     (case raw of
        None \<Rightarrow> Inr None
      | Some s \<Rightarrow> (case uuid_parse s of None \<Rightarrow> Inl (BadRequest ''invalid_owner_id'') | Some k \<Rightarrow> Inr (Some k)))"

definition parse_status :: "wp_status \<Rightarrow> string option \<Rightarrow> apperror + wp_status" where
  "parse_status d raw =
     (case raw of
        None \<Rightarrow> Inr d
      | Some s \<Rightarrow> (case parse_wp_status s of None \<Rightarrow> Inl (BadRequest ''invalid_status'') | Some st \<Rightarrow> Inr st))"

record wp_create_response =
  wcr_point :: wp_response
  wcr_accounts :: PointAccounts

definition wp_create ::
  "prov_env \<Rightarrow> (string \<Rightarrow> uuid option) \<Rightarrow> AuthUser option \<Rightarrow> apperror + wp_create_request \<Rightarrow> wp_create_response db" where
  "wp_create env uuid_parse ctx body =
     bindE (lift_result (AuthUserFrom ctx)) (\<lambda>authUser.
     bindE (require (au_role authUser = ''admin'') (Forbidden ''forbidden'')) (\<lambda>_.
     bindE (lift_result body) (\<lambda>req.
     let name = TrimSpace (wc_Name req); address = TrimSpace (wc_Address req);
         boxesCount = or_default 2 (wc_BoxesCount req);
         openTime = or_default ''08:00'' (wc_OpenTime req);
         closeTime = or_default ''20:00'' (wc_CloseTime req)
     in bindE (lift_result (wp_validate name address (wc_Latitude req) (wc_Longitude req) boxesCount openTime closeTime)) (\<lambda>_.
        bindE (lift_result (parse_owner uuid_parse (wc_OwnerID req))) (\<lambda>ownerID.
        bindE (lift_result (parse_status WpActive (wc_Status req))) (\<lambda>status.
        bindE (CreateWithAccounts env
          \<lparr>wp_ID = uuid_Nil, wp_OwnerID = ownerID, wp_Name = name, wp_Address = address,
           wp_Latitude = wc_Latitude req, wp_Longitude = wc_Longitude req, wp_BoxesCount = boxesCount,
           wp_OpenTime = openTime, wp_CloseTime = closeTime, wp_Status = status,
           wp_Description = wc_Description req, wp_Amenities = wc_Amenities req, wp_CreatedAt = ZeroTime\<rparr>)
          (\<lambda>(wp, accounts).
        bindE (as_internal (Schedule_SeedDefault (wp_ID wp) openTime closeTime)) (\<lambda>_.
        bindE (as_internal (Box_SeedDefault (wp_ID wp) boxesCount)) (\<lambda>_.
        return_ok \<lparr>wcr_point = wp_toResponse wp, wcr_accounts = accounts\<rparr>)))))))))"

record wp_update_request =
  wu_OwnerID :: "string option"
  wu_Name :: "string option"
  wu_Address :: "string option"
  wu_Latitude :: "rat option"
  wu_Longitude :: "rat option"
  wu_BoxesCount :: "int option"
  wu_OpenTime :: "string option"
  wu_CloseTime :: "string option"
  wu_Status :: "string option"
  wu_Description :: "string option"
  wu_Amenities :: "string list option"

text \<open>The owner of an update: an empty string clears it.\<close>

definition update_owner :: "(string \<Rightarrow> uuid option) \<Rightarrow> uuid option \<Rightarrow> string option \<Rightarrow> apperror + uuid option" where
  "update_owner uuid_parse old raw =
     (case raw of None \<Rightarrow> Inr old | Some s \<Rightarrow> if s = [] then Inr None else parse_owner uuid_parse raw)"

definition patch_point ::
  "(string \<Rightarrow> uuid option) \<Rightarrow> wp_update_request \<Rightarrow> WashingPoint \<Rightarrow> apperror + WashingPoint" where
  "patch_point uuid_parse req wp =
     (case parse_status (wp_Status wp) (wu_Status req) of
        Inl e \<Rightarrow> Inl e
      | Inr status \<Rightarrow>
          (case update_owner uuid_parse (wp_OwnerID wp) (wu_OwnerID req) of
             Inl e \<Rightarrow> Inl e
           | Inr ownerID \<Rightarrow>
               (let wp' = wp\<lparr>wp_OwnerID := ownerID,
                     wp_Name := (case wu_Name req of None \<Rightarrow> wp_Name wp | Some n \<Rightarrow> TrimSpace n),
                     wp_Address := (case wu_Address req of None \<Rightarrow> wp_Address wp | Some a \<Rightarrow> TrimSpace a),
                     wp_Latitude := or_default (wp_Latitude wp) (wu_Latitude req),
                     wp_Longitude := or_default (wp_Longitude wp) (wu_Longitude req),
                     wp_BoxesCount := or_default (wp_BoxesCount wp) (wu_BoxesCount req),
                     wp_OpenTime := or_default (wp_OpenTime wp) (wu_OpenTime req),
                     wp_CloseTime := or_default (wp_CloseTime wp) (wu_CloseTime req),
                     wp_Status := status,
                     wp_Description := (case wu_Description req of None \<Rightarrow> wp_Description wp | Some d \<Rightarrow> Some d),
                     wp_Amenities := or_default (wp_Amenities wp) (wu_Amenities req)\<rparr>
                in case wp_validate (wp_Name wp') (wp_Address wp') (wp_Latitude wp') (wp_Longitude wp')
                          (wp_BoxesCount wp') (wp_OpenTime wp') (wp_CloseTime wp') of
                     Inl e \<Rightarrow> Inl e | Inr _ \<Rightarrow> Inr wp')))"

definition wp_update ::
  "(string \<Rightarrow> uuid option) \<Rightarrow> AuthUser option \<Rightarrow> string \<Rightarrow> apperror + wp_update_request \<Rightarrow> wp_response db" where
  "wp_update uuid_parse ctx rawID body =
     bindE (lift_result (AuthUserFrom ctx)) (\<lambda>authUser.
     bindE (lift_result (ParseUUIDParam uuid_parse rawID)) (\<lambda>k.
     guarded (WpRepo_FindByID k) (\<lambda>wp. OwnsWashingPoint authUser (wp_ID wp)) (NotFound ''washing_point_not_found'') (\<lambda>wp.
     bindE (lift_result body) (\<lambda>req.
     bindE (require (\<not> (au_role authUser \<noteq> ''admin'' \<and> (wu_Status req \<noteq> None \<or> wu_OwnerID req \<noteq> None)))
       (Forbidden ''forbidden'')) (\<lambda>_.
     bindE (lift_result (patch_point uuid_parse req wp)) (\<lambda>wp'.
     bindE (WpRepo_Update wp') (\<lambda>_.
     return_ok (wp_toResponse wp'))))))))"

definition wp_deactivate :: "(string \<Rightarrow> uuid option) \<Rightarrow> AuthUser option \<Rightarrow> string \<Rightarrow> unit db" where
  "wp_deactivate uuid_parse ctx rawID =
     bindE (lift_result (AuthUserFrom ctx)) (\<lambda>authUser.
     bindE (lift_result (ParseUUIDParam uuid_parse rawID)) (\<lambda>k.
     guarded (WpRepo_FindByID k) (\<lambda>wp. OwnsWashingPoint authUser (wp_ID wp)) (NotFound ''washing_point_not_found'') (\<lambda>_.
     WpRepo_Deactivate k)))"

section \<open>Credentials\<close>

definition findCredentialUsername :: "uuid \<Rightarrow> string \<Rightarrow> string option db" where
  "findCredentialUsername pid role =
     catchE (bindE (FindByWashingPointAndRole pid role) (\<lambda>u. return_ok (u_Username u)))
       (\<lambda>e. if err_code e = ''user_not_found'' then return_ok None else fail_with e)"

definition getCredentials ::
  "(string \<Rightarrow> uuid option) \<Rightarrow> AuthUser option \<Rightarrow> string \<Rightarrow> (string option \<times> string option) db" where
  "getCredentials uuid_parse ctx rawID =
     bindE (lift_result (AuthUserFrom ctx)) (\<lambda>authUser.
     bindE (lift_result (ParseUUIDParam uuid_parse rawID)) (\<lambda>pid.
     bindE (require (OwnsWashingPoint authUser pid) (NotFound ''washing_point_not_found'')) (\<lambda>_.
     bindE (findCredentialUsername pid RoleStaff) (\<lambda>staff.
     bindE (findCredentialUsername pid RoleWorker) (\<lambda>worker.
     return_ok (staff, worker))))))"

definition parse_role :: "string \<Rightarrow> apperror + string" where
  "parse_role raw =
     (if raw = ''staff'' then Inr RoleStaff else if raw = ''worker'' then Inr RoleWorker
      else Inl (BadRequest ''invalid_role''))"

definition createCredentials ::
  "prov_env \<Rightarrow> (string \<Rightarrow> uuid option) \<Rightarrow> AuthUser option \<Rightarrow> string \<Rightarrow> string \<Rightarrow> Credential db" where
  "createCredentials env uuid_parse ctx rawID rawRole =
     bindE (lift_result (AuthUserFrom ctx)) (\<lambda>authUser.
     bindE (lift_result (ParseUUIDParam uuid_parse rawID)) (\<lambda>pid.
     bindE (require (OwnsWashingPoint authUser pid) (NotFound ''washing_point_not_found'')) (\<lambda>_.
     bindE (lift_result (parse_role rawRole)) (\<lambda>role.
     bindE (WpRepo_FindByID pid) (\<lambda>wp.
     bindE (findCredentialUsername pid role) (\<lambda>existing.
     bindE (require (existing = None) (Conflict ''credentials_exist'')) (\<lambda>_.
     as_internal (ProvisionAccount env pid role (wp_Name wp)))))))))"

definition resetCredentials ::
  "prov_env \<Rightarrow> (string \<Rightarrow> uuid option) \<Rightarrow> AuthUser option \<Rightarrow> string \<Rightarrow> string \<Rightarrow> Credential db" where
  "resetCredentials env uuid_parse ctx rawID rawRole =
     bindE (lift_result (AuthUserFrom ctx)) (\<lambda>authUser.
     bindE (lift_result (ParseUUIDParam uuid_parse rawID)) (\<lambda>pid.
     bindE (require (OwnsWashingPoint authUser pid) (NotFound ''washing_point_not_found'')) (\<lambda>_.
     bindE (lift_result (parse_role rawRole)) (\<lambda>role.
     bindE (FindByWashingPointAndRole pid role) (\<lambda>u.
     bindE (as_internal (ResetPassword env u)) (\<lambda>plaintext.
     bindE (RevokeAllRefreshTokensForUser (u_ID u)) (\<lambda>_.
     return_ok \<lparr>cd_Username = (case u_Username u of None \<Rightarrow> [] | Some n \<Rightarrow> n), cd_Password = plaintext\<rparr>)))))))"


section \<open>What creation leaves behind\<close>

lemma parse_wp_status_valid: "parse_wp_status s \<noteq> None \<longleftrightarrow> isValidStatus s"
  by (auto simp: parse_wp_status_def isValidStatus_def wp_status_string_def)

lemma parse_wp_status_roundtrip: "parse_wp_status (wp_status_string st) = Some st"
  by (cases st) (simp_all add: parse_wp_status_def wp_status_string_def)

lemma as_internal_Inr: "as_internal m w = (Inr x, w') \<longleftrightarrow> m w = (Inr x, w')"
  by (auto simp: as_internal_def catchE_def split: prod.splits sum.splits)

lemma as_internal_Inl: "as_internal m w = (Inl e, w') \<Longrightarrow> e = Internal \<and> (\<exists>e'. m w = (Inl e', w'))"
  by (auto simp: as_internal_def catchE_def split: prod.splits sum.splits)

lemma preserves_as_internal: "preserves I m \<Longrightarrow> preserves I (as_internal m)"
  unfolding as_internal_def by (intro preserves_catchE preserves_pure)

lemma WpRepo_Create_Inr:
  assumes "WpRepo_Create p w = (Inr row, w')"
  shows "row = p\<lparr>wp_ID := w_next w, wp_CreatedAt := w_now w\<rparr>"
    "\<exists>fs. w' = w\<lparr>w_faults := fs, w_next := Suc (w_next w), w_points := w_points w @ [row]\<rparr>" "point_row_ok row"
  using assms
  by (auto simp: WpRepo_Create_def fresh_id_def time_Now_def bindE_def Let_def elim!: statement_Inr split: if_splits)

text \<open>
  Two accounts were added for the point, a staff and a worker login with the returned passwords;
  their user names were free and differ.
\<close>

definition point_accounts :: "prov_env \<Rightarrow> uuid \<Rightarrow> PointAccounts \<Rightarrow> world \<Rightarrow> world \<Rightarrow> bool" where
  "point_accounts env pid acc w w' \<longleftrightarrow>
     (\<exists>k h1 h2. w_users w' = w_users w @
        [account k pid RoleStaff (cd_Username (pa_Staff acc)) h1 (w_now w),
         account (k + 1) pid RoleWorker (cd_Username (pa_Worker acc)) h2 (w_now w)] \<and>
        pe_hash env (cd_Password (pa_Staff acc)) = Some h1 \<and> pe_hash env (cd_Password (pa_Worker acc)) = Some h2 \<and>
        \<not> username_taken (cd_Username (pa_Staff acc)) w \<and> \<not> username_taken (cd_Username (pa_Worker acc)) w \<and>
        cd_Username (pa_Staff acc) \<noteq> cd_Username (pa_Worker acc) \<and>
        rune_count (cd_Username (pa_Staff acc)) \<le> 50 \<and> rune_count (cd_Username (pa_Worker acc)) \<le> 50)"

lemma username_taken_snoc:
  "username_taken name (w\<lparr>w_users := w_users w @ [u]\<rparr>) \<longleftrightarrow> username_taken name w \<or> u_Username u = Some name"
  by (auto simp: username_taken_def)

lemma username_taken_cong: "w_users w' = w_users w \<Longrightarrow> username_taken name w' = username_taken name w"
  by (simp add: username_taken_def)

lemma ProvisionPointAccounts_Inr:
  assumes "ProvisionPointAccounts env pid name w = (Inr acc, w')"
  shows "point_accounts env pid acc w w'" "\<exists>fs us n. w' = w\<lparr>w_faults := fs, w_users := us, w_next := n\<rparr>"
proof -
  obtain staff w1 worker where s: "newCredential env pid RoleStaff (slugify name) w = (Inr staff, w1)"
    and k: "newCredential env pid RoleWorker (slugify name @ ''-worker'') w1 = (Inr worker, w')"
    and acc: "acc = \<lparr>pa_Staff = staff, pa_Worker = worker\<rparr>"
    using assms by (auto simp: ProvisionPointAccounts_def Let_def elim!: bindE_InrE)
  obtain h1 fs1 where n1: "pe_hash env (cd_Password staff) = Some h1" "\<not> username_taken (cd_Username staff) w"
      "rune_count (cd_Username staff) \<le> 50"
    and w1: "w1 = w\<lparr>w_faults := fs1, w_users := w_users w @ [account (w_next w) pid RoleStaff (cd_Username staff) h1 (w_now w)],
        w_next := w_next w + 1\<rparr>"
    by (rule newCredential_Inr [OF s])
  obtain h2 fs2 where n2: "pe_hash env (cd_Password worker) = Some h2" "\<not> username_taken (cd_Username worker) w1"
      "rune_count (cd_Username worker) \<le> 50"
    and w2: "w' = w1\<lparr>w_faults := fs2, w_users := w_users w1 @ [account (w_next w1) pid RoleWorker (cd_Username worker) h2 (w_now w1)],
        w_next := w_next w1 + 1\<rparr>"
    by (rule newCredential_Inr [OF k])
  have "username_taken (cd_Username worker) w1 \<longleftrightarrow>
      username_taken (cd_Username worker) w \<or> cd_Username staff = cd_Username worker"
    unfolding w1 by (auto simp: username_taken_def account_def)
  then show "point_accounts env pid acc w w'"
    using n1 n2 unfolding point_accounts_def acc w2
    by (intro exI [of _ "w_next w"] exI [of _ h1] exI [of _ h2]) (auto simp: w1)
  show "\<exists>fs us n. w' = w\<lparr>w_faults := fs, w_users := us, w_next := n\<rparr>"
    by (rule exI [of _ fs2], rule exI, rule exI) (simp add: w2 w1)
qed

lemma point_accounts_cong:
  "w_users u = w_users w \<Longrightarrow> w_now u = w_now w \<Longrightarrow> point_accounts env pid acc u v = point_accounts env pid acc w v"
  by (simp add: point_accounts_def username_taken_def)

lemma CreateWithAccounts_Inr:
  assumes "CreateWithAccounts env p w = (Inr (wp, acc), w')"
  shows "\<exists>k. wp = p\<lparr>wp_ID := k, wp_CreatedAt := w_now w\<rparr> \<and> k = w_next w" "point_row_ok wp"
    "w_points w' = w_points w @ [wp]" "point_accounts env (wp_ID wp) acc w w'"
    "w_boxes w' = w_boxes w" "w_schedules w' = w_schedules w" "w_now w' = w_now w"
    "w_owners w' = w_owners w" "w_requests w' = w_requests w"
proof -
  let ?m = "bindE (WpRepo_Create p) (\<lambda>wp. bindE (ProvisionPointAccounts env (wp_ID wp) (wp_Name wp)) (\<lambda>accounts.
        return_ok (wp, accounts)))"
  have "transaction ?m w = (Inr (wp, acc), w')"
    using assms by (simp add: CreateWithAccounts_def as_internal_Inr)
  then obtain u v where t: "query (\<lambda>_. ()) w = (Inr (), u)" "?m u = (Inr (wp, acc), v)" "query (\<lambda>_. ()) v = (Inr (), w')"
    by (rule transaction_Inr)
  obtain fs where u: "u = w\<lparr>w_faults := fs\<rparr>" using t(1) by (auto elim!: query_Inr)
  obtain fs' where w': "w' = v\<lparr>w_faults := fs'\<rparr>" using t(3) by (auto elim!: query_Inr)
  obtain w1 where c: "WpRepo_Create p u = (Inr wp, w1)"
    and pr: "ProvisionPointAccounts env (wp_ID wp) (wp_Name wp) w1 = (Inr acc, v)"
    using t(2) by (auto elim!: bindE_InrE)
  obtain fs1 where w1: "w1 = u\<lparr>w_faults := fs1, w_next := Suc (w_next u), w_points := w_points u @ [wp]\<rparr>"
    using WpRepo_Create_Inr(2) [OF c] by blast
  obtain fs2 us n where v: "v = w1\<lparr>w_faults := fs2, w_users := us, w_next := n\<rparr>"
    using ProvisionPointAccounts_Inr(2) [OF pr] by blast
  show "\<exists>k. wp = p\<lparr>wp_ID := k, wp_CreatedAt := w_now w\<rparr> \<and> k = w_next w" "point_row_ok wp"
    using WpRepo_Create_Inr(1,3) [OF c] by (simp_all add: u)
  have "point_accounts env (wp_ID wp) acc w1 v" by (rule ProvisionPointAccounts_Inr(1) [OF pr])
  then show "point_accounts env (wp_ID wp) acc w w'"
    by (simp add: w' w1 u point_accounts_def username_taken_def)
  show "w_points w' = w_points w @ [wp]" "w_boxes w' = w_boxes w" "w_schedules w' = w_schedules w"
    "w_now w' = w_now w" "w_owners w' = w_owners w" "w_requests w' = w_requests w"
    by (simp_all add: w' v w1 u)
qed

lemma CreateWithAccounts_Inl:
  assumes "CreateWithAccounts env p w = (Inl e, w')"
  shows "e = Internal" "same_tables w w'"
  using as_internal_Inl [OF assms [unfolded CreateWithAccounts_def]] by (auto dest: transaction_atomic)


text \<open>The seeds write schedules and boxes only.\<close>

definition same_people :: "world \<Rightarrow> world \<Rightarrow> bool" where
  "same_people v w \<longleftrightarrow> w_points w = w_points v \<and> w_users w = w_users v \<and> w_owners w = w_owners v \<and>
     w_requests w = w_requests v \<and> w_now w = w_now v"

lemma same_people_table: "table_property (same_people v)"
  by (rule table_propertyI) (auto simp: same_people_def)

lemma same_people_refl [simp]: "same_people w w"
  by (simp add: same_people_def)

lemma Schedule_SeedDefault_people: "preserves (same_people v) (Schedule_SeedDefault pid o' c)"
proof -
  have "preserves (same_people v) (insert_schedules rows)" for rows
    unfolding insert_schedules_def
    by (rule preserves_statement [OF same_people_table], rule preservesI) (simp add: same_people_def Let_def)
  then show ?thesis
    unfolding Schedule_SeedDefault_def ReplaceAll_def Let_def
    by (intro preserves_transaction [OF same_people_table] preserves_bindE preserves_exec [OF same_people_table])
      (simp add: same_people_def)
qed

lemma Box_SeedDefault_people: "preserves (same_people v) (Box_SeedDefault pid n)"
proof -
  have "preserves (same_people v) (BoxRepo_Create b)" for b
    unfolding BoxRepo_Create_def Let_def
    by (intro preserves_statement [OF same_people_table] preserves_bindE preserves_fresh_id [OF same_people_table]
        preserves_pure preserves_writes) (simp add: same_people_def)
  then show ?thesis
    unfolding Box_SeedDefault_def seed_box_def by (intro preserves_forE preserves_bindE preserves_pure)
qed

lemma seeds_people:
  assumes "as_internal (Schedule_SeedDefault pid o' c) w = (r, w')"
  shows "same_people w w'"
  by (rule preservesD [OF preserves_as_internal [OF Schedule_SeedDefault_people] same_people_refl assms])

lemma box_seed_people:
  assumes "as_internal (Box_SeedDefault pid n) w = (r, w')"
  shows "same_people w w'"
  by (rule preservesD [OF preserves_as_internal [OF Box_SeedDefault_people] same_people_refl assms])

lemma same_people_trans: "same_people u v \<Longrightarrow> same_people v w \<Longrightarrow> same_people u w"
  by (simp add: same_people_def)

lemma wp_validate_Inr:
  assumes "wp_validate name address lat lon n openTime closeTime = Inr ()"
  shows "timeFormatRegexp openTime" "timeFormatRegexp closeTime" "openTime < closeTime" "1 \<le> n"
    "name \<noteq> []" "length name \<le> 255"
  using assms by (auto simp: wp_validate_def split: if_splits)

text \<open>The state after the point and its seeds; both ways to a new point (creation, approval) share it.\<close>

definition seed_point :: "prov_env \<Rightarrow> WashingPoint \<Rightarrow> (WashingPoint \<times> PointAccounts) db" where
  "seed_point env p =
     bindE (CreateWithAccounts env p) (\<lambda>(wp, accounts).
     bindE (as_internal (Schedule_SeedDefault (wp_ID wp) (wp_OpenTime p) (wp_CloseTime p))) (\<lambda>_.
     bindE (as_internal (Box_SeedDefault (wp_ID wp) (wp_BoxesCount p))) (\<lambda>_.
     return_ok (wp, accounts))))"

definition boxes_have_points :: "world \<Rightarrow> bool" where
  "boxes_have_points w \<longleftrightarrow> (\<forall>b \<in> set (w_boxes w). bx_WashingPointID b \<in> wp_ID ` set (w_points w))"

definition ready_point :: "prov_env \<Rightarrow> WashingPoint \<Rightarrow> PointAccounts \<Rightarrow> world \<Rightarrow> world \<Rightarrow> bool" where
  "ready_point env wp accounts w w' \<longleftrightarrow>
     w_points w' = w_points w @ [wp] \<and> wp_ID wp \<notin> wp_ID ` set (w_points w) \<and>
     point_accounts env (wp_ID wp) accounts w w' \<and> complete_week (wp_ID wp) w' \<and>
     map bx_Number (point_boxes (wp_ID wp) w') = [1..wp_BoxesCount wp] \<and>
     (\<forall>b \<in> set (point_boxes (wp_ID wp) w'). bx_IsOpen b)"

lemma seed_point_ready:
  assumes run: "seed_point env p w = (Inr (wp, accounts), w')"
    and ok: "points_ok w" "boxes_have_points w"
    and hours: "timeFormatRegexp (wp_OpenTime p)" "timeFormatRegexp (wp_CloseTime p)" "wp_OpenTime p < wp_CloseTime p"
  shows "ready_point env wp accounts w w'" "wp = p\<lparr>wp_ID := wp_ID wp, wp_CreatedAt := w_now w\<rparr>"
    "w_owners w' = w_owners w" "w_requests w' = w_requests w" "w_now w' = w_now w"
proof -
  obtain w1 w2 where c: "CreateWithAccounts env p w = (Inr (wp, accounts), w1)"
    and sch: "as_internal (Schedule_SeedDefault (wp_ID wp) (wp_OpenTime p) (wp_CloseTime p)) w1 = (Inr (), w2)"
    and box: "as_internal (Box_SeedDefault (wp_ID wp) (wp_BoxesCount p)) w2 = (Inr (), w')"
    using run by (auto simp: seed_point_def elim!: bindE_InrE)
  note created = CreateWithAccounts_Inr [OF c]
  have same: "same_people w1 w'"
    by (rule same_people_trans [OF seeds_people [OF sch] box_seed_people [OF box]])
  show wp: "wp = p\<lparr>wp_ID := wp_ID wp, wp_CreatedAt := w_now w\<rparr>" using created(1) by auto
  have fields: "wp_BoxesCount wp = wp_BoxesCount p" by (subst wp) simp
  have fresh: "wp_ID wp \<notin> wp_ID ` set (w_points w)" using created(1) ok(1) by (auto simp: points_ok_def)
  have week2: "complete_week (wp_ID wp) w2"
    by (rule SeedDefault_week(1) [OF sch [unfolded as_internal_Inr] hours])
  note seeded = seed_numbers [OF box [unfolded as_internal_Inr Box_SeedDefault_def]]
  have week: "complete_week (wp_ID wp) w'"
    using week2 seeded by (simp add: complete_week_def point_rows_def)
  have "w_boxes w2 = w_boxes w"
    using sch created(5) unfolding as_internal_Inr Schedule_SeedDefault_def by (auto elim: ReplaceAll_Inr)
  then have none: "point_boxes (wp_ID wp) w2 = []"
    using fresh ok(2) by (simp add: point_boxes_def boxes_have_points_def filter_empty_conv) metis
  note numbers = Box_SeedDefault_numbers [OF box [unfolded as_internal_Inr] none]
  show "ready_point env wp accounts w w'"
    using created(3,4) same fresh week numbers fields
    by (simp add: ready_point_def same_people_def point_accounts_def)
  show "w_owners w' = w_owners w" "w_requests w' = w_requests w" "w_now w' = w_now w"
    using same created(7-9) by (simp_all add: same_people_def)
qed

lemma seed_point_failed:
  assumes "seed_point env p w = (Inl e, w')"
  shows "e = Internal" "same_tables w w' \<or> (\<exists>wp accounts. w_points w' = w_points w @ [wp] \<and>
    wp = p\<lparr>wp_ID := wp_ID wp, wp_CreatedAt := w_now w\<rparr> \<and> point_accounts env (wp_ID wp) accounts w w' \<and>
    w_owners w' = w_owners w \<and> w_requests w' = w_requests w \<and> w_now w' = w_now w)"
proof -
  have "e = Internal \<and> (same_tables w w' \<or> (\<exists>wp accounts. w_points w' = w_points w @ [wp] \<and>
    wp = p\<lparr>wp_ID := wp_ID wp, wp_CreatedAt := w_now w\<rparr> \<and> point_accounts env (wp_ID wp) accounts w w' \<and>
    w_owners w' = w_owners w \<and> w_requests w' = w_requests w \<and> w_now w' = w_now w))"
    using assms unfolding seed_point_def
  proof (cases rule: bindE_cases)
    case (stop e')
    then show ?thesis using CreateWithAccounts_Inl by auto
  next
    case (go x w1)
    obtain wp accounts where x: "x = (wp, accounts)" by (cases x)
    note created = CreateWithAccounts_Inr [OF go(1) [unfolded x]]
    have failed: "e = Internal \<and> same_people w1 w'"
      using go(2) unfolding x prod.case
    proof (cases rule: bindE_cases)
      case (stop e')
      then show ?thesis using seeds_people [OF stop(1)] as_internal_Inl [OF stop(1)] by simp
    next
      case go': (go y w2)
      from go'(2) show ?thesis
      proof (cases rule: bindE_cases)
        case (stop e')
        then show ?thesis
          using same_people_trans [OF seeds_people [OF go'(1)] box_seed_people [OF stop(1)]]
            as_internal_Inl [OF stop(1)] by simp
      qed simp
    qed
    then have same: "e = Internal" "same_people w1 w'" by simp_all
    have "wp = p\<lparr>wp_ID := wp_ID wp, wp_CreatedAt := w_now w\<rparr>" using created(1) by auto
    moreover have "w_points w' = w_points w @ [wp]" "point_accounts env (wp_ID wp) accounts w w'"
        "w_owners w' = w_owners w" "w_requests w' = w_requests w" "w_now w' = w_now w"
      using created same(2) by (simp_all add: same_people_def point_accounts_def)
    ultimately show ?thesis using same(1) by blast
  qed
  then show "e = Internal" "same_tables w w' \<or> (\<exists>wp accounts. w_points w' = w_points w @ [wp] \<and>
    wp = p\<lparr>wp_ID := wp_ID wp, wp_CreatedAt := w_now w\<rparr> \<and> point_accounts env (wp_ID wp) accounts w w' \<and>
    w_owners w' = w_owners w \<and> w_requests w' = w_requests w \<and> w_now w' = w_now w)" by blast+
qed


lemma bindE_return_ok: "bindE (return_ok x) f = f x"
  by (simp add: fun_eq_iff)

definition new_point :: "uuid option \<Rightarrow> wp_status \<Rightarrow> wp_create_request \<Rightarrow> WashingPoint" where
  "new_point ownerID status req =
     \<lparr>wp_ID = uuid_Nil, wp_OwnerID = ownerID, wp_Name = TrimSpace (wc_Name req),
      wp_Address = TrimSpace (wc_Address req), wp_Latitude = wc_Latitude req,
      wp_Longitude = wc_Longitude req, wp_BoxesCount = or_default 2 (wc_BoxesCount req),
      wp_OpenTime = or_default ''08:00'' (wc_OpenTime req),
      wp_CloseTime = or_default ''20:00'' (wc_CloseTime req), wp_Status = status,
      wp_Description = wc_Description req, wp_Amenities = wc_Amenities req, wp_CreatedAt = ZeroTime\<rparr>"

lemma wp_create_seeds:
  "wp_create env uuid_parse ctx body w =
     (case AuthUserFrom ctx of
        Inl e \<Rightarrow> (Inl e, w)
      | Inr authUser \<Rightarrow>
          if au_role authUser \<noteq> ''admin'' then (Inl (Forbidden ''forbidden''), w)
          else case body of
            Inl e \<Rightarrow> (Inl e, w)
          | Inr req \<Rightarrow>
              (case wp_validate (TrimSpace (wc_Name req)) (TrimSpace (wc_Address req)) (wc_Latitude req) (wc_Longitude req)
                  (or_default 2 (wc_BoxesCount req)) (or_default ''08:00'' (wc_OpenTime req)) (or_default ''20:00'' (wc_CloseTime req)) of
                 Inl e \<Rightarrow> (Inl e, w)
               | Inr _ \<Rightarrow>
                   (case parse_owner uuid_parse (wc_OwnerID req) of
                      Inl e \<Rightarrow> (Inl e, w)
                    | Inr ownerID \<Rightarrow>
                        (case parse_status WpActive (wc_Status req) of
                           Inl e \<Rightarrow> (Inl e, w)
                         | Inr status \<Rightarrow>
                             bindE (seed_point env
                               (new_point ownerID status req))
                               (\<lambda>(wp, accounts). return_ok \<lparr>wcr_point = wp_toResponse wp, wcr_accounts = accounts\<rparr>) w))))"
  by (auto simp: wp_create_def new_point_def seed_point_def Let_def bindE_assoc bindE_return_ok case_prod_unfold split: sum.split)
    (simp add: return_ok_def)

lemma wp_create_cases [case_names refused seeded]:
  assumes "wp_create env uuid_parse ctx body w = (r, w')"
  obtains e where "r = Inl e" "w' = w"
    | u p where "AuthUserFrom ctx = Inr u" "au_role u = ''admin''" "timeFormatRegexp (wp_OpenTime p)"
        "timeFormatRegexp (wp_CloseTime p)" "wp_OpenTime p < wp_CloseTime p"
        "bindE (seed_point env p)
           (\<lambda>(wp, accounts). return_ok \<lparr>wcr_point = wp_toResponse wp, wcr_accounts = accounts\<rparr>) w = (r, w')"
proof (cases "r = Inl (projl r) \<and> w' = w")
  case True
  then show ?thesis using that(1) by blast
next
  case False
  then obtain u req ownerID status where *: "AuthUserFrom ctx = Inr u" "au_role u = ''admin''"
    and valid: "wp_validate (TrimSpace (wc_Name req)) (TrimSpace (wc_Address req)) (wc_Latitude req) (wc_Longitude req)
      (or_default 2 (wc_BoxesCount req)) (or_default ''08:00'' (wc_OpenTime req)) (or_default ''20:00'' (wc_CloseTime req)) = Inr ()"
    and run: "bindE (seed_point env (new_point ownerID status req))
           (\<lambda>(wp, accounts). return_ok \<lparr>wcr_point = wp_toResponse wp, wcr_accounts = accounts\<rparr>) w = (r, w')"
    using assms unfolding wp_create_seeds by (auto split: sum.splits if_splits)
  show ?thesis
    by (rule that(2) [OF * _ _ _ run]) (use wp_validate_Inr [OF valid] in \<open>simp_all add: new_point_def\<close>)
qed

text \<open>
  C8 A washing point the creation endpoint reports is ready to take bookings: the caller is an
  administrator, exactly one point was added under a fresh identifier with the fields of the
  response, it has usable hours on every weekday and the open boxes 1 to \<open>boxes_count\<close>, and its staff
  and worker can log in with the returned user names, which no account had, and passwords.
\<close>

theorem created_point_ready:
  assumes "wp_create env uuid_parse (Some u) body w = (Inr r, w')" "points_ok w" "boxes_have_points w"
  shows "au_role u = ''admin'' \<and>
    (\<exists>wp. wcr_point r = wp_toResponse wp \<and> ready_point env wp (wcr_accounts r) w w' \<and> point_row_ok wp)"
  using assms(1)
proof (cases rule: wp_create_cases)
  case (seeded u' p)
  then obtain wp accounts where seed: "seed_point env p w = (Inr (wp, accounts), w')"
    and r: "r = \<lparr>wcr_point = wp_toResponse wp, wcr_accounts = accounts\<rparr>"
    by (auto elim!: bindE_InrE)
  obtain w1 where "CreateWithAccounts env p w = (Inr (wp, accounts), w1)"
    using seed by (auto simp: seed_point_def elim!: bindE_InrE)
  from CreateWithAccounts_Inr(2) [OF this] seed_point_ready(1) [OF seed assms(2,3) seeded(3-5)] seeded(1,2) r
  show ?thesis by (auto simp: AuthUserFrom_def)
qed simp

text \<open>
  A failed creation either changed nothing or is an internal error after the point and its two
  accounts were committed: the schedule and the boxes are written outside that transaction, so the
  point stays without them, and the passwords of its accounts are lost.
\<close>

theorem failed_creation_outcomes:
  assumes "wp_create env uuid_parse ctx body w = (Inl e, w')"
  shows "same_tables w w' \<or> e = Internal \<and>
    (\<exists>wp accounts. w_points w' = w_points w @ [wp] \<and> point_accounts env (wp_ID wp) accounts w w')"
  using assms
proof (cases rule: wp_create_cases)
  case (seeded u p)
  then have "seed_point env p w = (Inl e, w')" by (auto elim!: bindE_cases split: prod.splits)
  from seed_point_failed [OF this] show ?thesis by blast
qed simp


text \<open>
  A point whose name has a long Latin form can never be created: the names of its accounts are
  cut from it without a limit, the column holds 50 characters, so every attempt ends in an internal
  error and changes nothing, although the name satisfies the endpoint's own check.
\<close>

theorem long_names_never_created:
  assumes "43 < rune_count (slugify (wp_Name p))"
  shows "\<exists>w'. CreateWithAccounts env p w = (Inl Internal, w') \<and> same_tables w w'"
proof (cases "CreateWithAccounts env p w")
  case (Pair r w')
  show ?thesis
  proof (cases r)
    case (Inl e)
    then show ?thesis using CreateWithAccounts_Inl [of env p w e w'] Pair by blast
  next
    case (Inr x)
    obtain wp acc where x: "x = (wp, acc)" by (cases x)
    let ?m = "bindE (WpRepo_Create p) (\<lambda>wp. bindE (ProvisionPointAccounts env (wp_ID wp) (wp_Name wp)) (\<lambda>accounts.
          return_ok (wp, accounts)))"
    have "transaction ?m w = (Inr (wp, acc), w')"
      using Pair Inr x by (simp add: CreateWithAccounts_def as_internal_Inr)
    then obtain u v where "?m u = (Inr (wp, acc), v)" by (rule transaction_Inr)
    then obtain u1 where create: "WpRepo_Create p u = (Inr wp, u1)"
      and "ProvisionPointAccounts env (wp_ID wp) (wp_Name wp) u1 = (Inr acc, v)" by (auto elim!: bindE_InrE)
    then obtain worker u2 where "newCredential env (wp_ID wp) RoleWorker (slugify (wp_Name wp) @ ''-worker'') u2 = (Inr worker, v)"
      by (auto simp: ProvisionPointAccounts_def Let_def elim!: bindE_InrE)
    then have "rune_count (candidate (slugify (wp_Name wp) @ ''-worker'') (first_free (slugify (wp_Name wp) @ ''-worker'') u2)) \<le> 50"
      by (rule newCredential_Inr) simp
    moreover have "wp_Name wp = wp_Name p" using WpRepo_Create_Inr(1) [OF create] by simp
    ultimately have False using assms by (simp add: candidate_def rune_count_def split: if_splits)
    then show ?thesis ..
  qed
qed

theorem long_names_never_created_witness:
  "wp_validate (replicate 44 CHR ''a'') ''Somoni 1'' 38 68 2 ''08:00'' ''20:00'' = Inr () \<and>
   (\<exists>w'. CreateWithAccounts \<lparr>pe_draw = (\<lambda>k i. Some 0), pe_hash = Some\<rparr>
      \<lparr>wp_ID = 0, wp_OwnerID = None, wp_Name = replicate 44 CHR ''a'', wp_Address = ''Somoni 1'', wp_Latitude = 38,
       wp_Longitude = 68, wp_BoxesCount = 2, wp_OpenTime = ''08:00'', wp_CloseTime = ''20:00'', wp_Status = WpActive,
       wp_Description = None, wp_Amenities = [], wp_CreatedAt = 0\<rparr> (empty_world 0) = (Inl Internal, w') \<and>
     same_tables (empty_world 0) w')"
proof -
  have "wp_validate (replicate 44 CHR ''a'') ''Somoni 1'' 38 68 2 ''08:00'' ''20:00'' = Inr ()" by code_simp
  moreover have "43 < rune_count (slugify (replicate 44 CHR ''a''))" by code_simp
  ultimately show ?thesis
    using long_names_never_created [of
        "\<lparr>wp_ID = 0, wp_OwnerID = None, wp_Name = replicate 44 CHR ''a'', wp_Address = ''Somoni 1'', wp_Latitude = 38,
         wp_Longitude = 68, wp_BoxesCount = 2, wp_OpenTime = ''08:00'', wp_CloseTime = ''20:00'', wp_Status = WpActive,
         wp_Description = None, wp_Amenities = [], wp_CreatedAt = 0\<rparr>"
        "\<lparr>pe_draw = (\<lambda>k i. Some 0), pe_hash = Some\<rparr>" "empty_world 0"]
    by (simp only: WashingPoint.select_convs)
qed

definition opening_request :: wp_create_request where
  "opening_request = \<lparr>wc_OwnerID = None, wc_Name = '' Moika 1 '', wc_Address = ''Somoni 1'', wc_Latitude = 38, wc_Longitude = 68,
     wc_BoxesCount = None, wc_OpenTime = None, wc_CloseTime = Some ''21:30'', wc_Status = None, wc_Description = None,
     wc_Amenities = []\<rparr>"

definition opening_env :: prov_env where
  "opening_env = \<lparr>pe_draw = (\<lambda>k i. Some i), pe_hash = Some\<rparr>"

definition opening_admin :: AuthUser where
  "opening_admin = \<lparr>au_id = 9, au_role = ''admin'', au_wp = None\<rparr>"

theorem created_point_ready_witness:
  "\<exists>r w' wp. wp_create opening_env (\<lambda>_. None) (Some opening_admin) (Inr opening_request) (empty_world 0) = (Inr r, w') \<and>
     wcr_point r = wp_toResponse wp \<and> ready_point opening_env wp (wcr_accounts r) (empty_world 0) w'"
proof -
  have "is_ok (fst (wp_create opening_env (\<lambda>_. None) (Some opening_admin) (Inr opening_request) (empty_world 0)))"
    by code_simp
  then obtain r w' where run: "wp_create opening_env (\<lambda>_. None) (Some opening_admin) (Inr opening_request) (empty_world 0) = (Inr r, w')"
    by (rule is_ok_fstE)
  have ok: "points_ok (empty_world 0)" "boxes_have_points (empty_world 0)"
    by (simp_all add: points_ok_def boxes_have_points_def empty_world_def)
  from created_point_ready [OF run ok] run show ?thesis by blast
qed

text \<open>The schedule insert of this run fails: the third statement of the second transaction.\<close>

definition failing_world :: world where
  "failing_world = (empty_world 0)\<lparr>w_faults := replicate 9 False @ [True]\<rparr>"

theorem failed_creation_outcomes_witness:
  "\<exists>e w' wp accounts. wp_create opening_env (\<lambda>_. None) (Some opening_admin) (Inr opening_request) failing_world = (Inl e, w') \<and>
     e = Internal \<and> w_points w' = w_points failing_world @ [wp] \<and>
     point_accounts opening_env (wp_ID wp) accounts failing_world w'"
proof -
  let ?run = "wp_create opening_env (\<lambda>_. None) (Some opening_admin) (Inr opening_request) failing_world"
  have shape: "case ?run of (r, w') \<Rightarrow> \<not> is_ok r \<and> length (w_points w') = 1" by code_simp
  then obtain e w' where run: "?run = (Inl e, w')" by (cases ?run; cases "fst ?run") auto
  have "length (w_points w') = 1" using shape unfolding run by simp
  then have "\<not> same_tables failing_world w'"
    by (auto simp: failing_world_def empty_world_def dest: same_tablesD(3))
  with failed_creation_outcomes [OF run] run show ?thesis by blast
qed


section \<open>Updates\<close>

lemma WpRepo_FindByID_Inr:
  assumes "WpRepo_FindByID k w = (Inr p, w')"
  shows "find_row wp_ID k (w_points w) = Some p" "wp_ID p = k" "same_tables w w'"
  using assms by (auto simp: WpRepo_FindByID_def point_by_id_def elim!: first_or_Inr dest: find_row_SomeD)

lemma WpRepo_Update_Inr:
  assumes "WpRepo_Update p w = (Inr x, w')" "wp_ID p \<in> wp_ID ` set (w_points w)"
  shows "w_points w' = update_where (\<lambda>r. wp_ID r = wp_ID p) (\<lambda>_. p) (w_points w)" "point_row_ok p"
  using assms by (auto simp: WpRepo_Update_def elim!: statement_Inr split: if_splits)

lemma patch_point_Inr:
  assumes "patch_point uuid_parse req wp = Inr wp'"
  shows "wp_ID wp' = wp_ID wp" "wu_Status req = None \<Longrightarrow> wp_Status wp' = wp_Status wp"
    "wu_OwnerID req = None \<Longrightarrow> wp_OwnerID wp' = wp_OwnerID wp" "wp_CreatedAt wp' = wp_CreatedAt wp"
  using assms
  by (auto simp: patch_point_def Let_def parse_status_def update_owner_def split: sum.splits option.splits)

text \<open>
  C14 A successful update was made by someone who owns the point, rewrites that row and no other,
  keeps its identifier and the table's checks, and a caller who is not an administrator cannot
  change the status (approve a point under review) or the owner.
\<close>

theorem update_respects_owner:
  assumes "wp_update uuid_parse (Some u) rawID body w = (Inr r, w')"
  shows "\<exists>k old new. uuid_parse rawID = Some k \<and> OwnsWashingPoint u k \<and>
    find_row wp_ID k (w_points w) = Some old \<and> wp_ID new = k \<and> r = wp_toResponse new \<and> point_row_ok new \<and>
    w_points w' = update_where (\<lambda>p. wp_ID p = k) (\<lambda>_. new) (w_points w) \<and>
    (au_role u = ''admin'' \<or> wp_Status new = wp_Status old \<and> wp_OwnerID new = wp_OwnerID old)"
proof -
  obtain k where k: "uuid_parse rawID = Some k"
    using assms by (auto simp: wp_update_def ParseUUIDParam_def AuthUserFrom_def split: option.splits)
  obtain old w1 req new where find: "WpRepo_FindByID k w = (Inr old, w1)"
    and owns: "OwnsWashingPoint u (wp_ID old)"
    and admin: "au_role u = ''admin'' \<or> wu_Status req = None \<and> wu_OwnerID req = None"
    and patch: "patch_point uuid_parse req old = Inr new"
    and update: "WpRepo_Update new w1 = (Inr (), w')" and r: "r = wp_toResponse new"
    using assms k
    by (auto simp: wp_update_def ParseUUIDParam_def AuthUserFrom_def guarded_def elim!: bindE_InrE
        split: sum.splits if_splits)
  note f = WpRepo_FindByID_Inr [OF find] and p = patch_point_Inr [OF patch]
  have points: "w_points w1 = w_points w" using same_tablesD(3) [OF f(3)] by simp
  have "wp_ID new \<in> wp_ID ` set (w_points w1)" using f(1,2) p(1) points by (auto dest: find_row_SomeD)
  from WpRepo_Update_Inr [OF update this] points
  show ?thesis using k owns f p admin r by (intro exI [of _ k] exI [of _ old] exI [of _ new]) auto
qed

definition staffed_world :: world where
  "staffed_world = (empty_world 0)\<lparr>w_points :=
     [\<lparr>wp_ID = 1, wp_OwnerID = None, wp_Name = ''Moika'', wp_Address = ''Somoni 1'', wp_Latitude = 38, wp_Longitude = 68,
       wp_BoxesCount = 2, wp_OpenTime = ''08:00'', wp_CloseTime = ''20:00'', wp_Status = WpPendingReview,
       wp_Description = None, wp_Amenities = [], wp_CreatedAt = 0\<rparr>],
     w_users := [account 2 1 RoleStaff ''moika'' ''old'' 0],
     w_tokens := [\<lparr>rt_ID = 3, rt_UserID = 2, rt_TokenHash = ''t'', rt_ExpiresAt = 100, rt_RevokedAt = None, rt_CreatedAt = 0\<rparr>],
     w_next := 4\<rparr>"

definition rename_request :: wp_update_request where
  "rename_request = \<lparr>wu_OwnerID = None, wu_Name = Some ''Moika 2'', wu_Address = None, wu_Latitude = None, wu_Longitude = None,
     wu_BoxesCount = None, wu_OpenTime = None, wu_CloseTime = None, wu_Status = None, wu_Description = None, wu_Amenities = None\<rparr>"

definition point_staff :: AuthUser where
  "point_staff = \<lparr>au_id = 2, au_role = ''staff'', au_wp = Some 1\<rparr>"

theorem update_respects_owner_witness:
  "\<exists>r w' new. wp_update (\<lambda>_. Some 1) (Some point_staff) ''1'' (Inr rename_request) staffed_world = (Inr r, w') \<and>
     w_points w' = [new] \<and> wp_Status new = WpPendingReview \<and> point_row_ok new"
proof -
  let ?run = "wp_update (\<lambda>_. Some 1) (Some point_staff) ''1'' (Inr rename_request) staffed_world"
  have "is_ok (fst ?run)" by code_simp
  then obtain r w' where run: "?run = (Inr r, w')" by (rule is_ok_fstE)
  obtain old new where upd: "find_row wp_ID 1 (w_points staffed_world) = Some old"
      "w_points w' = update_where (\<lambda>p. wp_ID p = 1) (\<lambda>_. new) (w_points staffed_world)" "point_row_ok new"
      "au_role point_staff = ''admin'' \<or> wp_Status new = wp_Status old \<and> wp_OwnerID new = wp_OwnerID old"
    using update_respects_owner [OF run] by auto
  have "au_role point_staff \<noteq> ''admin''" by code_simp
  moreover have "wp_Status old = WpPendingReview" using upd(1) by (auto simp: staffed_world_def split: if_splits)
  moreover have "w_points w' = [new]" using upd(2) by (simp add: staffed_world_def)
  ultimately show ?thesis using run upd(3,4) by auto
qed

section \<open>Credentials of a point\<close>

lemma ResetPassword_Inr:
  assumes "ResetPassword env u w = (Inr plain, w')"
  shows "\<exists>hash. pe_hash env plain = Some hash \<and> w_users w' = update_where (\<lambda>v. u_ID v = u_ID u)
      (\<lambda>v. v\<lparr>u_Username := Some (case u_Username u of None \<Rightarrow> [] | Some n \<Rightarrow> n), u_PasswordHash := Some hash\<rparr>) (w_users w) \<and>
    w_tokens w' = w_tokens w \<and> w_now w' = w_now w"
proof -
  obtain hash where "pe_hash env plain = Some hash"
    and "SetCredentials (u_ID u) (case u_Username u of None \<Rightarrow> [] | Some n \<Rightarrow> n) hash w = (Inr (), w')"
    using assms
    by (auto simp: ResetPassword_def draw_password_def hash_password_def elim!: bindE_InrE split: option.splits)
  from this(1) SetCredentials_Inr [OF this(2)] show ?thesis by blast
qed

lemma FindByWashingPointAndRole_Inr:
  assumes "FindByWashingPointAndRole pid role w = (Inr u, w')"
  shows "u \<in> set (w_users w)" "u_WashingPointID u = Some pid" "u_Role u = role" "u_Username u \<noteq> None" "same_tables w w'"
proof -
  let ?rows = "filter (\<lambda>u. u_WashingPointID u = Some pid \<and> u_Role u = role \<and> u_Username u \<noteq> None)"
  from first_or_Inr [OF assms [unfolded FindByWashingPointAndRole_def]]
  obtain fs where w': "w' = w\<lparr>w_faults := fs\<rparr>"
    and some': "(case sort_key u_CreatedAt (?rows (w_users (w\<lparr>w_faults := fs\<rparr>))) of [] \<Rightarrow> None | u # _ \<Rightarrow> Some u) = Some u" .
  have same: "w_users (w\<lparr>w_faults := fs\<rparr>) = w_users w" by simp
  note some = some' [unfolded same]
  obtain rest where "sort_key u_CreatedAt (?rows (w_users w)) = u # rest"
    using some by (auto split: list.splits)
  then have "u \<in> set (sort_key u_CreatedAt (?rows (w_users w)))" by (simp only: list.set_intros)
  then have "u \<in> set (?rows (w_users w))" by (simp only: set_sort)
  then show "u \<in> set (w_users w)" "u_WashingPointID u = Some pid" "u_Role u = role" "u_Username u \<noteq> None" by auto
  show "same_tables w w'" by (simp add: w')
qed

text \<open>
  Resetting the credentials of a role gives the caller's own point a new password for an account
  of that role, whose stored hash is the returned password's; every session of that account ends and
  every other account and session stays.
\<close>

theorem reset_ends_sessions:
  assumes "resetCredentials env uuid_parse (Some caller) rawID rawRole w = (Inr c, w')"
  shows "\<exists>pid u hash. uuid_parse rawID = Some pid \<and> OwnsWashingPoint caller pid \<and>
    u \<in> set (w_users w) \<and> u_WashingPointID u = Some pid \<and> u_Role u = rawRole \<and> rawRole \<in> {''staff'', ''worker''} \<and>
    u_Username u = Some (cd_Username c) \<and> pe_hash env (cd_Password c) = Some hash \<and>
    w_users w' = update_where (\<lambda>v. u_ID v = u_ID u) (\<lambda>v. v\<lparr>u_Username := u_Username u, u_PasswordHash := Some hash\<rparr>) (w_users w) \<and>
    w_tokens w' = update_where (\<lambda>t. rt_UserID t = u_ID u \<and> rt_RevokedAt t = None)
      (\<lambda>t. t\<lparr>rt_RevokedAt := Some (w_now w)\<rparr>) (w_tokens w)"
proof -
  obtain pid role u w1 plain w2 where parse: "uuid_parse rawID = Some pid" "OwnsWashingPoint caller pid"
      "parse_role rawRole = Inr role"
    and find: "FindByWashingPointAndRole pid role w = (Inr u, w1)"
    and reset: "as_internal (ResetPassword env u) w1 = (Inr plain, w2)"
    and revoke: "RevokeAllRefreshTokensForUser (u_ID u) w2 = (Inr (), w')"
    and c: "c = \<lparr>cd_Username = (case u_Username u of None \<Rightarrow> [] | Some n \<Rightarrow> n), cd_Password = plain\<rparr>"
    using assms
    by (auto simp: resetCredentials_def ParseUUIDParam_def AuthUserFrom_def elim!: bindE_InrE
        split: sum.splits if_splits option.splits)
  note f = FindByWashingPointAndRole_Inr [OF find] and same = same_tablesD [OF FindByWashingPointAndRole_Inr(5) [OF find]]
    and r = RevokeAll_Inr [OF revoke]
  obtain name where name: "u_Username u = Some name" using f(4) by auto
  obtain hash where h: "pe_hash env plain = Some hash" "w_users w2 = update_where (\<lambda>v. u_ID v = u_ID u)
      (\<lambda>v. v\<lparr>u_Username := Some name, u_PasswordHash := Some hash\<rparr>) (w_users w1)"
      "w_tokens w2 = w_tokens w1" "w_now w2 = w_now w1"
    using ResetPassword_Inr [OF reset [unfolded as_internal_Inr]] name by auto
  have role: "role = rawRole" "rawRole \<in> {''staff'', ''worker''}"
    using parse(3) by (auto simp: parse_role_def RoleStaff_def RoleWorker_def split: if_splits)
  have tokens: "w_tokens w' = update_where (\<lambda>t. rt_UserID t = u_ID u \<and> rt_RevokedAt t = None)
      (\<lambda>t. t\<lparr>rt_RevokedAt := Some (w_now w)\<rparr>) (w_tokens w)"
    using r(1) h(3,4) same by (simp add: revoke_where_def)
  show ?thesis
    by (intro exI [of _ pid] exI [of _ u] exI [of _ hash])
      (use parse f role name h r(2) same tokens c in simp)
qed

theorem reset_ends_sessions_witness:
  "\<exists>c w'. resetCredentials opening_env (\<lambda>_. Some 1) (Some point_staff) ''1'' ''staff'' staffed_world = (Inr c, w') \<and>
     cd_Username c = ''moika'' \<and> w_tokens w' \<noteq> w_tokens staffed_world"
proof -
  let ?run = "resetCredentials opening_env (\<lambda>_. Some 1) (Some point_staff) ''1'' ''staff'' staffed_world"
  have "is_ok (fst ?run)" by code_simp
  then obtain c w' where run: "?run = (Inr c, w')" by (rule is_ok_fstE)
  obtain u where u: "u \<in> set (w_users staffed_world)" "u_Username u = Some (cd_Username c)"
      "w_tokens w' = update_where (\<lambda>t. rt_UserID t = u_ID u \<and> rt_RevokedAt t = None)
        (\<lambda>t. t\<lparr>rt_RevokedAt := Some (w_now staffed_world)\<rparr>) (w_tokens staffed_world)"
    using reset_ends_sessions [OF run] by blast
  then have "u = account 2 1 RoleStaff ''moika'' ''old'' 0" by (simp add: staffed_world_def)
  with u run show ?thesis by (auto simp: staffed_world_def account_def)
qed

end
