(* ===== verification/Onboarding.thy ===== *)
theory Onboarding
  imports Points
begin

text \<open>
  \<open>internal/owner\<close> and \<open>internal/connectionrequest\<close>: the businesses that own washing points, and the
  queue of applications that an administrator completes, approves (which creates an owner and a
  point under review) or rejects.
\<close>

section \<open>Owners\<close>

text \<open>The columns hold 255, 255, 32 and 255 characters.\<close>

definition fits :: "nat \<Rightarrow> string option \<Rightarrow> bool" where
  "fits n v = (case v of None \<Rightarrow> True | Some s \<Rightarrow> rune_count s \<le> n)"

definition owner_row_ok :: "Owner \<Rightarrow> bool" where
  "owner_row_ok ow \<longleftrightarrow> rune_count (ow_Name ow) \<le> 255 \<and> fits 255 (ow_ContactName ow) \<and>
     fits 32 (ow_ContactPhone ow) \<and> fits 255 (ow_ContactEmail ow)"

definition OwnerRepo_List :: "Owner list db" where
  "OwnerRepo_List = query (\<lambda>w. sort_key ow_Name (w_owners w))"

definition OwnerRepo_FindByID :: "uuid \<Rightarrow> Owner db" where
  "OwnerRepo_FindByID k = first_or (NotFound ''owner_not_found'') (\<lambda>w. find_row ow_ID k (w_owners w))"

definition owner_by_phone :: "string \<Rightarrow> world \<Rightarrow> Owner option" where
  "owner_by_phone phone w =
     (case sort_key ow_ID (filter (\<lambda>ow. ow_ContactPhone ow = Some phone) (w_owners w)) of
        [] \<Rightarrow> None | ow # _ \<Rightarrow> Some ow)"

definition OwnerRepo_FindByPhone :: "string \<Rightarrow> Owner option db" where
  "OwnerRepo_FindByPhone phone = query (owner_by_phone phone)"

definition OwnerRepo_Create :: "Owner \<Rightarrow> Owner db" where
  "OwnerRepo_Create ow =
     statement (\<lambda>w. let row = ow\<lparr>ow_ID := w_next w, ow_CreatedAt := w_now w\<rparr>
       in if owner_row_ok row
          then (Inr row, w\<lparr>w_owners := w_owners w @ [row], w_next := w_next w + 1\<rparr>)
          else (Inl Internal, w\<lparr>w_next := w_next w + 1\<rparr>))"

definition OwnerRepo_Update :: "Owner \<Rightarrow> unit db" where
  "OwnerRepo_Update ow =
     statement (bindE (require (owner_row_ok ow) Internal) (\<lambda>_.
       writes (\<lambda>w. w\<lparr>w_owners := update_where (\<lambda>r. ow_ID r = ow_ID ow) (\<lambda>_. ow) (w_owners w)\<rparr>)))"

record owner_response =
  owr_id :: uuid
  owr_name :: string
  owr_contact_name :: "string option"
  owr_contact_phone :: "string option"
  owr_contact_email :: "string option"

definition owner_toResponse :: "Owner \<Rightarrow> owner_response" where
  "owner_toResponse ow =
     \<lparr>owr_id = ow_ID ow, owr_name = ow_Name ow, owr_contact_name = ow_ContactName ow,
      owr_contact_phone = ow_ContactPhone ow, owr_contact_email = ow_ContactEmail ow\<rparr>"

definition trimPtr :: "string option \<Rightarrow> string option" where
  "trimPtr s =
     (case s of None \<Rightarrow> None | Some v \<Rightarrow> let trimmed = TrimSpace v in if trimmed = [] then None else Some trimmed)"

definition validateName :: "string \<Rightarrow> apperror + unit" where
  "validateName name =
     (if name = [] \<or> length name > 255 then Inl (BadRequest ''invalid_name'') else Inr ())"

definition owner_list :: "owner_response list db" where
  "owner_list = bindE OwnerRepo_List (\<lambda>owners. return_ok (map owner_toResponse owners))"

definition owner_get :: "(string \<Rightarrow> uuid option) \<Rightarrow> string \<Rightarrow> owner_response db" where
  "owner_get uuid_parse rawID =
     bindE (lift_result (ParseUUIDParam uuid_parse rawID)) (\<lambda>k.
     bindE (OwnerRepo_FindByID k) (\<lambda>ow. return_ok (owner_toResponse ow)))"

record owner_create_request =
  oc_Name :: string
  oc_ContactName :: "string option"
  oc_ContactPhone :: "string option"
  oc_ContactEmail :: "string option"

definition owner_create :: "apperror + owner_create_request \<Rightarrow> owner_response db" where
  "owner_create body =
     bindE (lift_result body) (\<lambda>req.
     let name = TrimSpace (oc_Name req)
     in bindE (lift_result (validateName name)) (\<lambda>_.
        bindE (OwnerRepo_Create
          \<lparr>ow_ID = uuid_Nil, ow_Name = name, ow_ContactName = trimPtr (oc_ContactName req),
           ow_ContactPhone = trimPtr (oc_ContactPhone req), ow_ContactEmail = trimPtr (oc_ContactEmail req),
           ow_CreatedAt = ZeroTime\<rparr>) (\<lambda>ow.
        return_ok (owner_toResponse ow))))"

record owner_update_request =
  ou_Name :: "string option"
  ou_ContactName :: "string option"
  ou_ContactPhone :: "string option"
  ou_ContactEmail :: "string option"

definition patch_owner :: "owner_update_request \<Rightarrow> Owner \<Rightarrow> apperror + Owner" where
  "patch_owner req ow =
     (case (case ou_Name req of None \<Rightarrow> Inr () | Some n \<Rightarrow> validateName (TrimSpace n)) of
        Inl e \<Rightarrow> Inl e
      | Inr _ \<Rightarrow> Inr (ow\<lparr>ow_Name := (case ou_Name req of None \<Rightarrow> ow_Name ow | Some n \<Rightarrow> TrimSpace n),
          ow_ContactName := (if ou_ContactName req = None then ow_ContactName ow else trimPtr (ou_ContactName req)),
          ow_ContactPhone := (if ou_ContactPhone req = None then ow_ContactPhone ow else trimPtr (ou_ContactPhone req)),
          ow_ContactEmail := (if ou_ContactEmail req = None then ow_ContactEmail ow else trimPtr (ou_ContactEmail req))\<rparr>))"

definition owner_update ::
  "(string \<Rightarrow> uuid option) \<Rightarrow> string \<Rightarrow> apperror + owner_update_request \<Rightarrow> owner_response db" where
  "owner_update uuid_parse rawID body =
     bindE (lift_result (ParseUUIDParam uuid_parse rawID)) (\<lambda>k.
     bindE (OwnerRepo_FindByID k) (\<lambda>ow.
     bindE (lift_result body) (\<lambda>req.
     bindE (lift_result (patch_owner req ow)) (\<lambda>ow'.
     bindE (OwnerRepo_Update ow') (\<lambda>_.
     return_ok (owner_toResponse ow'))))))"

section \<open>Requests\<close>

definition request_row_ok :: "ConnectionRequest \<Rightarrow> world \<Rightarrow> bool" where
  "request_row_ok c w \<longleftrightarrow> rune_count (cr_BusinessName c) \<le> 255 \<and> fits 255 (cr_ContactName c) \<and>
     rune_count (cr_ContactPhone c) \<le> 32 \<and> fits 500 (cr_Address c) \<and>
     (case cr_BoxesCount c of None \<Rightarrow> True | Some n \<Rightarrow> 0 < n \<and> n < 2 ^ 31) \<and>
     (case cr_ReviewedBy c of None \<Rightarrow> True | Some k \<Rightarrow> k \<in> u_ID ` set (w_users w))"

definition RequestRepo_List :: "request_status option \<Rightarrow> ConnectionRequest list db" where
  "RequestRepo_List status =
     query (\<lambda>w. sort_key (\<lambda>c. - cr_CreatedAt c)
       (filter (\<lambda>c. case status of None \<Rightarrow> True | Some st \<Rightarrow> cr_Status c = st) (w_requests w)))"

definition RequestRepo_FindByID :: "uuid \<Rightarrow> ConnectionRequest db" where
  "RequestRepo_FindByID k =
     first_or (NotFound ''connection_request_not_found'') (\<lambda>w. find_row cr_ID k (w_requests w))"

definition RequestRepo_Create :: "ConnectionRequest \<Rightarrow> ConnectionRequest db" where
  "RequestRepo_Create c =
     statement (\<lambda>w. let row = c\<lparr>cr_ID := w_next w, cr_CreatedAt := w_now w\<rparr>
       in if request_row_ok row w
          then (Inr row, w\<lparr>w_requests := w_requests w @ [row], w_next := w_next w + 1\<rparr>)
          else (Inl Internal, w\<lparr>w_next := w_next w + 1\<rparr>))"

definition RequestRepo_Update :: "ConnectionRequest \<Rightarrow> unit db" where
  "RequestRepo_Update c =
     statement (bindE (reads (request_row_ok c)) (\<lambda>ok. bindE (require ok Internal) (\<lambda>_.
       writes (\<lambda>w. w\<lparr>w_requests := update_where (\<lambda>r. cr_ID r = cr_ID c) (\<lambda>_. c) (w_requests w)\<rparr>))))"

definition ExistsNewByPhone :: "string \<Rightarrow> bool db" where
  "ExistsNewByPhone phone =
     query (\<lambda>w. 0 < length (filter (\<lambda>c. cr_ContactPhone c = phone \<and> cr_Status c = ReqNew) (w_requests w)))"

section \<open>Manager\<close>

definition pending_point :: "uuid \<Rightarrow> ConnectionRequest \<Rightarrow> string \<Rightarrow> int \<Rightarrow> WashingPoint" where
  "pending_point ownerID c address boxes =
     \<lparr>wp_ID = uuid_Nil, wp_OwnerID = Some ownerID, wp_Name = cr_BusinessName c, wp_Address = address,
      wp_Latitude = 0, wp_Longitude = 0, wp_BoxesCount = boxes, wp_OpenTime = ''08:00'', wp_CloseTime = ''20:00'',
      wp_Status = WpPendingReview, wp_Description = None, wp_Amenities = [], wp_CreatedAt = ZeroTime\<rparr>"

definition reviewed :: "request_status \<Rightarrow> uuid \<Rightarrow> time \<Rightarrow> ConnectionRequest \<Rightarrow> ConnectionRequest" where
  "reviewed st reviewerID now c = c\<lparr>cr_Status := st, cr_ReviewedBy := Some reviewerID, cr_ReviewedAt := Some now\<rparr>"

text \<open>\<open>Approve\<close> after the request was read and found new and complete.\<close>

definition approve_read ::
  "prov_env \<Rightarrow> ConnectionRequest \<Rightarrow> uuid \<Rightarrow> string \<Rightarrow> int \<Rightarrow> (ConnectionRequest \<times> WashingPoint \<times> PointAccounts) db" where
  "approve_read env c reviewerID address boxes =
     bindE (OwnerRepo_FindByPhone (cr_ContactPhone c)) (\<lambda>found.
     bindE (case found of
              Some own \<Rightarrow> return_ok own
            | None \<Rightarrow> OwnerRepo_Create
                \<lparr>ow_ID = uuid_Nil, ow_Name = cr_BusinessName c, ow_ContactName = cr_ContactName c,
                 ow_ContactPhone = Some (cr_ContactPhone c), ow_ContactEmail = None, ow_CreatedAt = ZeroTime\<rparr>) (\<lambda>own.
     bindE (CreateWithAccounts env (pending_point (ow_ID own) c address boxes)) (\<lambda>(wp, accounts).
     bindE (as_internal (Schedule_SeedDefault (wp_ID wp) (wp_OpenTime wp) (wp_CloseTime wp))) (\<lambda>_.
     bindE (as_internal (Box_SeedDefault (wp_ID wp) (wp_BoxesCount wp))) (\<lambda>_.
     bindE time_Now (\<lambda>now.
     let c' = reviewed ReqApproved reviewerID now c
     in bindE (RequestRepo_Update c') (\<lambda>_.
        return_ok (c', wp, accounts))))))))"

definition Approve ::
  "prov_env \<Rightarrow> uuid \<Rightarrow> uuid \<Rightarrow> (ConnectionRequest \<times> WashingPoint \<times> PointAccounts) db" where
  "Approve env requestID reviewerID =
     bindE (RequestRepo_FindByID requestID) (\<lambda>c.
     bindE (require (cr_Status c = ReqNew) (Conflict ''connection_request_already_reviewed'')) (\<lambda>_.
     case (cr_Address c, cr_BoxesCount c) of
       (Some address, Some boxes) \<Rightarrow> approve_read env c reviewerID address boxes
     | _ \<Rightarrow> fail_with (Conflict ''connection_request_incomplete'')))"

definition Reject :: "uuid \<Rightarrow> uuid \<Rightarrow> ConnectionRequest db" where
  "Reject requestID reviewerID =
     bindE (RequestRepo_FindByID requestID) (\<lambda>c.
     bindE (require (cr_Status c = ReqNew) (Conflict ''connection_request_already_reviewed'')) (\<lambda>_.
     bindE time_Now (\<lambda>now.
     let c' = reviewed ReqRejected reviewerID now c
     in bindE (RequestRepo_Update c') (\<lambda>_. return_ok c'))))"

section \<open>Handlers\<close>

definition request_status_string :: "request_status \<Rightarrow> string" where
  "request_status_string st = (case st of ReqNew \<Rightarrow> ''new'' | ReqApproved \<Rightarrow> ''approved'' | ReqRejected \<Rightarrow> ''rejected'')"

record request_response =
  rr_id :: uuid
  rr_business_name :: string
  rr_contact_name :: "string option"
  rr_contact_phone :: string
  rr_address :: "string option"
  rr_boxes_count :: "int option"
  rr_note :: "string option"
  rr_status :: string
  rr_reviewed_by :: "uuid option"
  rr_reviewed_at :: "time option"
  rr_created_at :: time

definition request_toResponse :: "ConnectionRequest \<Rightarrow> request_response" where
  "request_toResponse c =
     \<lparr>rr_id = cr_ID c, rr_business_name = cr_BusinessName c, rr_contact_name = cr_ContactName c,
      rr_contact_phone = cr_ContactPhone c, rr_address = cr_Address c, rr_boxes_count = cr_BoxesCount c,
      rr_note = cr_Note c, rr_status = request_status_string (cr_Status c), rr_reviewed_by = cr_ReviewedBy c,
      rr_reviewed_at = cr_ReviewedAt c, rr_created_at = cr_CreatedAt c\<rparr>"

definition request_list :: "string \<Rightarrow> request_response list db" where
  "request_list raw =
     bindE (if raw = [] then return_ok None
            else case find (\<lambda>st. request_status_string st = raw) [ReqNew, ReqApproved, ReqRejected] of
                   None \<Rightarrow> fail_with (BadRequest ''invalid_status'') | Some st \<Rightarrow> return_ok (Some st)) (\<lambda>status.
     bindE (RequestRepo_List status) (\<lambda>items. return_ok (map request_toResponse items)))"

definition request_get :: "(string \<Rightarrow> uuid option) \<Rightarrow> string \<Rightarrow> request_response db" where
  "request_get uuid_parse rawID =
     bindE (lift_result (ParseUUIDParam uuid_parse rawID)) (\<lambda>k.
     bindE (RequestRepo_FindByID k) (\<lambda>c. return_ok (request_toResponse c)))"

definition request_validate :: "string \<Rightarrow> string \<Rightarrow> string \<Rightarrow> string \<Rightarrow> int \<Rightarrow> apperror + unit" where
  "request_validate businessName contactName contactPhone address boxesCount =
     (if businessName = [] \<or> length businessName > 255 then Inl (BadRequest ''invalid_business_name'')
      else if contactName = [] \<or> length contactName > 255 then Inl (BadRequest ''invalid_contact_name'')
      else if contactPhone = [] \<or> length contactPhone > 32 then Inl (BadRequest ''invalid_contact_phone'')
      else if address = [] \<or> length address > 500 then Inl (BadRequest ''invalid_address'')
      else if boxesCount < 1 then Inl (BadRequest ''invalid_boxes_count'')
      else Inr ())"

definition parse_note :: "string option \<Rightarrow> apperror + string option" where
  "parse_note raw =
     (case raw of
        None \<Rightarrow> Inr None
      | Some n \<Rightarrow>
          (let trimmed = TrimSpace n
           in if length trimmed > 2000 then Inl (BadRequest ''invalid_note'')
              else Inr (if trimmed \<noteq> [] then Some trimmed else None)))"

record request_body =
  rb_BusinessName :: string
  rb_ContactName :: string
  rb_ContactPhone :: string
  rb_Address :: string
  rb_BoxesCount :: int
  rb_Note :: "string option"

definition request_create :: "apperror + request_body \<Rightarrow> request_response db" where
  "request_create body =
     bindE (lift_result body) (\<lambda>req.
     let businessName = TrimSpace (rb_BusinessName req); contactName = TrimSpace (rb_ContactName req);
         contactPhone = TrimSpace (rb_ContactPhone req); address = TrimSpace (rb_Address req)
     in bindE (lift_result (request_validate businessName contactName contactPhone address (rb_BoxesCount req))) (\<lambda>_.
        bindE (lift_result (parse_note (rb_Note req))) (\<lambda>note'.
        bindE (RequestRepo_Create
          \<lparr>cr_ID = uuid_Nil, cr_BusinessName = businessName, cr_ContactName = Some contactName,
           cr_ContactPhone = contactPhone, cr_Address = Some address, cr_BoxesCount = Some (rb_BoxesCount req),
           cr_Note = note', cr_Status = ReqNew, cr_ReviewedBy = None, cr_ReviewedAt = None, cr_CreatedAt = ZeroTime\<rparr>) (\<lambda>c.
        return_ok (request_toResponse c)))))"

definition maxApplyBoxes :: int where "maxApplyBoxes = 100"

definition validPhone :: "string \<Rightarrow> bool" where
  "validPhone s \<longleftrightarrow> list_all (\<lambda>c. is_digit c \<or> c \<in> {CHR ''+'', CHR '' '', CHR ''-'', CHR ''('', CHR '')''}) s \<and>
     9 \<le> length (filter is_digit s) \<and> length (filter is_digit s) \<le> 15"

definition nilIfEmpty :: "string \<Rightarrow> string option" where
  "nilIfEmpty s = (if s = [] then None else Some s)"

definition apply_validate :: "string \<Rightarrow> string \<Rightarrow> string \<Rightarrow> string \<Rightarrow> int \<Rightarrow> apperror + unit" where
  "apply_validate businessName contactName contactPhone address boxesCount =
     (if businessName = [] then Inl (BadRequest ''invalid_business_name'')
      else if length businessName > 255 then Inl (BadRequest ''invalid_business_name'')
      else if length contactName > 255 then Inl (BadRequest ''invalid_contact_name'')
      else if \<not> validPhone contactPhone \<or> length contactPhone > 32 then Inl (BadRequest ''invalid_contact_phone'')
      else if length address > 500 then Inl (BadRequest ''invalid_address'')
      else if boxesCount < 0 \<or> boxesCount > maxApplyBoxes then Inl (BadRequest ''invalid_boxes_count'')
      else Inr ())"

definition request_apply :: "apperror + request_body \<times> string \<Rightarrow> unit db" where
  "request_apply body =
     bindE (lift_result body) (\<lambda>(req, website).
     if TrimSpace website \<noteq> [] then return_ok ()
     else
       let contactName = TrimSpace (rb_ContactName req);
           businessName = (if TrimSpace (rb_BusinessName req) = [] then contactName else TrimSpace (rb_BusinessName req));
           contactPhone = TrimSpace (rb_ContactPhone req); address = TrimSpace (rb_Address req)
       in bindE (lift_result (apply_validate businessName contactName contactPhone address (rb_BoxesCount req))) (\<lambda>_.
          bindE (lift_result (parse_note (rb_Note req))) (\<lambda>note'.
          bindE (ExistsNewByPhone contactPhone) (\<lambda>exists.
          if exists then return_ok ()
          else bindE (RequestRepo_Create
            \<lparr>cr_ID = uuid_Nil, cr_BusinessName = businessName, cr_ContactName = nilIfEmpty contactName,
             cr_ContactPhone = contactPhone, cr_Address = nilIfEmpty address,
             cr_BoxesCount = (if rb_BoxesCount req > 0 then Some (rb_BoxesCount req) else None),
             cr_Note = note', cr_Status = ReqNew, cr_ReviewedBy = None, cr_ReviewedAt = None, cr_CreatedAt = ZeroTime\<rparr>) (\<lambda>_.
            return_ok ())))))"

record request_edit =
  re_Status :: string
  re_BusinessName :: "string option"
  re_ContactName :: "string option"
  re_ContactPhone :: "string option"
  re_Address :: "string option"
  re_BoxesCount :: "int option"
  re_Note :: "string option"

definition hasEdits :: "request_edit \<Rightarrow> bool" where
  "hasEdits u \<longleftrightarrow> re_BusinessName u \<noteq> None \<or> re_ContactName u \<noteq> None \<or> re_ContactPhone u \<noteq> None \<or>
     re_Address u \<noteq> None \<or> re_BoxesCount u \<noteq> None \<or> re_Note u \<noteq> None"

text \<open>One optional field: absent it stays, present it is checked and stored.\<close>

definition edit_field :: "'a option \<Rightarrow> ('a \<Rightarrow> bool) \<Rightarrow> string \<Rightarrow> ('a \<Rightarrow> 'c \<Rightarrow> 'c) \<Rightarrow> apperror + 'c \<Rightarrow> apperror + 'c" where
  "edit_field v ok code put r =
     (case r of
        Inl e \<Rightarrow> Inl e
      | Inr c \<Rightarrow> (case v of None \<Rightarrow> Inr c | Some x \<Rightarrow> if ok x then Inr (put x c) else Inl (BadRequest code)))"

definition applyEdits :: "request_edit \<Rightarrow> ConnectionRequest \<Rightarrow> apperror + ConnectionRequest" where
  "applyEdits req c =
     edit_field (map_option TrimSpace (re_Note req)) (\<lambda>v. \<not> length v > 2000) ''invalid_note''
       (\<lambda>v c. c\<lparr>cr_Note := nilIfEmpty v\<rparr>)
     (edit_field (re_BoxesCount req) (\<lambda>n. \<not> n < 1) ''invalid_boxes_count'' (\<lambda>n c. c\<lparr>cr_BoxesCount := Some n\<rparr>)
     (edit_field (map_option TrimSpace (re_Address req)) (\<lambda>v. \<not> length v > 500) ''invalid_address''
       (\<lambda>v c. c\<lparr>cr_Address := nilIfEmpty v\<rparr>)
     (edit_field (map_option TrimSpace (re_ContactPhone req)) (\<lambda>v. \<not> (v = [] \<or> length v > 32)) ''invalid_contact_phone''
       (\<lambda>v c. c\<lparr>cr_ContactPhone := v\<rparr>)
     (edit_field (map_option TrimSpace (re_ContactName req)) (\<lambda>v. \<not> length v > 255) ''invalid_contact_name''
       (\<lambda>v c. c\<lparr>cr_ContactName := nilIfEmpty v\<rparr>)
     (edit_field (map_option TrimSpace (re_BusinessName req)) (\<lambda>v. \<not> (v = [] \<or> length v > 255)) ''invalid_business_name''
       (\<lambda>v c. c\<lparr>cr_BusinessName := v\<rparr>) (Inr c))))))"

record request_update_response =
  rur_request :: request_response
  rur_accounts :: "PointAccounts option"

definition save_edits :: "uuid \<Rightarrow> request_edit \<Rightarrow> ConnectionRequest option db" where
  "save_edits k req =
     (if hasEdits req
      then bindE (RequestRepo_FindByID k) (\<lambda>c.
           bindE (require (cr_Status c = ReqNew) (Conflict ''connection_request_already_reviewed'')) (\<lambda>_.
           bindE (lift_result (applyEdits req c)) (\<lambda>c'.
           bindE (RequestRepo_Update c') (\<lambda>_. return_ok (Some c')))))
      else return_ok None)"

definition request_update ::
  "prov_env \<Rightarrow> (string \<Rightarrow> uuid option) \<Rightarrow> AuthUser option \<Rightarrow> string \<Rightarrow> apperror + request_edit \<Rightarrow> request_update_response db" where
  "request_update env uuid_parse ctx rawID body =
     bindE (lift_result (AuthUserFrom ctx)) (\<lambda>authUser.
     bindE (lift_result (ParseUUIDParam uuid_parse rawID)) (\<lambda>k.
     bindE (lift_result body) (\<lambda>req.
     bindE (require (re_Status req \<in> {'''', ''approved'', ''rejected''}) (BadRequest ''invalid_status'')) (\<lambda>_.
     bindE (require (\<not> (re_Status req = [] \<and> \<not> hasEdits req)) (BadRequest ''invalid_body'')) (\<lambda>_.
     bindE (save_edits k req) (\<lambda>current.
     if re_Status req = ''approved''
     then bindE (Approve env k (au_id authUser)) (\<lambda>(c, wp, accounts).
          return_ok \<lparr>rur_request = request_toResponse c, rur_accounts = Some accounts\<rparr>)
     else if re_Status req = ''rejected''
     then bindE (Reject k (au_id authUser)) (\<lambda>c.
          return_ok \<lparr>rur_request = request_toResponse c, rur_accounts = None\<rparr>)
     else case current of
            Some c \<Rightarrow> return_ok \<lparr>rur_request = request_toResponse c, rur_accounts = None\<rparr>
          | None \<Rightarrow> fail_with Internal))))))"


section \<open>Approval\<close>

lemma RequestRepo_FindByID_Inr:
  assumes "RequestRepo_FindByID k w = (Inr c, w')"
  shows "find_row cr_ID k (w_requests w) = Some c" "c \<in> set (w_requests w)" "cr_ID c = k" "same_tables w w'"
    "w_next w' = w_next w"
  using assms by (auto simp: RequestRepo_FindByID_def elim!: first_or_Inr dest: find_row_SomeD)

lemma RequestRepo_Update_Inr:
  assumes "RequestRepo_Update c w = (Inr x, w')"
  shows "w_requests w' = update_where (\<lambda>r. cr_ID r = cr_ID c) (\<lambda>_. c) (w_requests w)"
    "w_points w' = w_points w" "w_users w' = w_users w" "w_owners w' = w_owners w"
    "w_schedules w' = w_schedules w" "w_boxes w' = w_boxes w" "w_now w' = w_now w"
  using assms by (auto simp: RequestRepo_Update_def elim!: statement_Inr split: if_splits)

lemma RequestRepo_Update_Inl:
  assumes "RequestRepo_Update c w = (Inl e, w')"
  shows "e = Internal" "same_tables w w'"
  using assms by (auto simp: RequestRepo_Update_def elim!: statement_Inl split: if_splits)

lemma OwnerRepo_Create_Inr:
  assumes "OwnerRepo_Create ow w = (Inr r, w')"
  shows "\<exists>fs. w' = w\<lparr>w_faults := fs, w_owners := w_owners w @ [r], w_next := Suc (w_next w)\<rparr>"
    "r = ow\<lparr>ow_ID := w_next w, ow_CreatedAt := w_now w\<rparr>"
  using assms by (auto simp: OwnerRepo_Create_def Let_def elim!: statement_Inr split: if_splits)

lemma OwnerRepo_Create_Inl:
  assumes "OwnerRepo_Create ow w = (Inl e, w')"
  shows "e = Internal" "same_tables w w'"
  using assms by (auto simp: OwnerRepo_Create_def Let_def same_tables_def elim!: statement_Inl split: if_splits)

lemma owner_by_phone_SomeD: "owner_by_phone phone w = Some ow \<Longrightarrow> ow \<in> set (w_owners w) \<and> ow_ContactPhone ow = Some phone"
proof -
  let ?rows = "filter (\<lambda>ow. ow_ContactPhone ow = Some phone) (w_owners w)"
  assume "owner_by_phone phone w = Some ow"
  then obtain rest where "sort_key ow_ID ?rows = ow # rest" by (auto simp: owner_by_phone_def split: list.splits)
  then have "ow \<in> set (sort_key ow_ID ?rows)" by (simp only: list.set_intros)
  then have "ow \<in> set ?rows" by (simp only: set_sort)
  then show ?thesis by simp
qed

lemma OwnerRepo_FindByPhone_Inr:
  assumes "OwnerRepo_FindByPhone phone w = (Inr found, w')"
  shows "found = owner_by_phone phone w" "\<exists>fs. w' = w\<lparr>w_faults := fs\<rparr>"
proof -
  have "\<And>fs. owner_by_phone phone (w\<lparr>w_faults := fs\<rparr>) = owner_by_phone phone w" by (simp add: owner_by_phone_def)
  from query_eq [OF assms [unfolded OwnerRepo_FindByPhone_def] this]
  show "found = owner_by_phone phone w" "\<exists>fs. w' = w\<lparr>w_faults := fs\<rparr>" by simp_all
qed

text \<open>The owner step: an owner with the phone is reused, otherwise exactly one is added.\<close>

definition owner_step :: "ConnectionRequest \<Rightarrow> Owner db" where
  "owner_step c =
     bindE (OwnerRepo_FindByPhone (cr_ContactPhone c)) (\<lambda>found.
     case found of
       Some own \<Rightarrow> return_ok own
     | None \<Rightarrow> OwnerRepo_Create
         \<lparr>ow_ID = uuid_Nil, ow_Name = cr_BusinessName c, ow_ContactName = cr_ContactName c,
          ow_ContactPhone = Some (cr_ContactPhone c), ow_ContactEmail = None, ow_CreatedAt = ZeroTime\<rparr>)"

definition owner_for :: "ConnectionRequest \<Rightarrow> Owner \<Rightarrow> world \<Rightarrow> world \<Rightarrow> bool" where
  "owner_for c own w w' \<longleftrightarrow> ow_ContactPhone own = Some (cr_ContactPhone c) \<and>
     (case owner_by_phone (cr_ContactPhone c) w of
        Some ow \<Rightarrow> own = ow \<and> w_owners w' = w_owners w
      | None \<Rightarrow> ow_Name own = cr_BusinessName c \<and> w_owners w' = w_owners w @ [own])"

lemma owner_step_Inr:
  assumes "owner_step c w = (Inr own, w')"
  shows "owner_for c own w w'" "\<exists>fs os n. w' = w\<lparr>w_faults := fs, w_owners := os, w_next := n\<rparr> \<and> w_next w \<le> n"
proof -
  obtain found w1 where found: "OwnerRepo_FindByPhone (cr_ContactPhone c) w = (Inr found, w1)"
    and rest: "(case found of
       Some own \<Rightarrow> return_ok own
     | None \<Rightarrow> OwnerRepo_Create
         \<lparr>ow_ID = uuid_Nil, ow_Name = cr_BusinessName c, ow_ContactName = cr_ContactName c,
          ow_ContactPhone = Some (cr_ContactPhone c), ow_ContactEmail = None, ow_CreatedAt = ZeroTime\<rparr>) w1 = (Inr own, w')"
    using assms by (auto simp: owner_step_def elim!: bindE_InrE)
  obtain fs where w1: "w1 = w\<lparr>w_faults := fs\<rparr>" and f: "found = owner_by_phone (cr_ContactPhone c) w"
    using OwnerRepo_FindByPhone_Inr [OF found] by blast
  show "owner_for c own w w'" "\<exists>fs os n. w' = w\<lparr>w_faults := fs, w_owners := os, w_next := n\<rparr> \<and> w_next w \<le> n"
  proof (atomize(full), cases found)
    case None
    with rest have create: "OwnerRepo_Create
         \<lparr>ow_ID = uuid_Nil, ow_Name = cr_BusinessName c, ow_ContactName = cr_ContactName c,
          ow_ContactPhone = Some (cr_ContactPhone c), ow_ContactEmail = None, ow_CreatedAt = ZeroTime\<rparr> w1 = (Inr own, w')"
      by simp
    obtain fs' where w': "w' = w1\<lparr>w_faults := fs', w_owners := w_owners w1 @ [own], w_next := Suc (w_next w1)\<rparr>"
      using OwnerRepo_Create_Inr(1) [OF create] by blast
    have "owner_for c own w w'"
      using OwnerRepo_Create_Inr(2) [OF create] f None w' by (simp add: owner_for_def w1)
    moreover have "w' = w\<lparr>w_faults := fs', w_owners := w_owners w1 @ [own], w_next := Suc (w_next w)\<rparr> \<and> w_next w \<le> Suc (w_next w)"
      by (simp add: w' w1)
    ultimately show "owner_for c own w w' \<and> (\<exists>fs os n. w' = w\<lparr>w_faults := fs, w_owners := os, w_next := n\<rparr> \<and> w_next w \<le> n)"
      by blast
  next
    case (Some own')
    then have same: "own' = own" "w' = w\<lparr>w_faults := fs\<rparr>" using rest w1 by simp_all
    have "owner_for c own w w'"
      using Some f same owner_by_phone_SomeD [of "cr_ContactPhone c" w own] by (simp add: owner_for_def)
    moreover have "w' = w\<lparr>w_faults := fs, w_owners := w_owners w, w_next := w_next w\<rparr>" using same(2) by simp
    ultimately show "owner_for c own w w' \<and> (\<exists>fs os n. w' = w\<lparr>w_faults := fs, w_owners := os, w_next := n\<rparr> \<and> w_next w \<le> n)"
      by blast
  qed
qed

lemma owner_step_Inl:
  assumes "owner_step c w = (Inl e, w')"
  shows "e = Internal" "same_tables w w'"
proof -
  have "e = Internal \<and> same_tables w w'"
    using assms unfolding owner_step_def
  proof (cases rule: bindE_cases)
    case (stop e')
    then show ?thesis by (auto simp: OwnerRepo_FindByPhone_def elim!: query_Inl)
  next
    case (go found w1)
    then have same: "same_tables w w1" using OwnerRepo_FindByPhone_Inr(2) [OF go(1)] by auto
    show ?thesis
      using go(2) OwnerRepo_Create_Inl same same_tables_trans by (auto split: option.splits)
  qed
  then show "e = Internal" "same_tables w w'" by simp_all
qed

lemma approve_read_steps:
  "approve_read env c reviewerID address boxes =
     bindE (owner_step c) (\<lambda>own.
     bindE (seed_point env (pending_point (ow_ID own) c address boxes)) (\<lambda>(wp, accounts).
     bindE time_Now (\<lambda>now.
     bindE (RequestRepo_Update (reviewed ReqApproved reviewerID now c)) (\<lambda>_.
       return_ok (reviewed ReqApproved reviewerID now c, wp, accounts)))))"
proof -
  have same: "bindE (CreateWithAccounts env p) (\<lambda>(wp, accounts).
       bindE (as_internal (Schedule_SeedDefault (wp_ID wp) (wp_OpenTime wp) (wp_CloseTime wp))) (\<lambda>_.
       bindE (as_internal (Box_SeedDefault (wp_ID wp) (wp_BoxesCount wp))) (\<lambda>_. f wp accounts))) w =
     bindE (CreateWithAccounts env p) (\<lambda>(wp, accounts).
       bindE (as_internal (Schedule_SeedDefault (wp_ID wp) (wp_OpenTime p) (wp_CloseTime p))) (\<lambda>_.
       bindE (as_internal (Box_SeedDefault (wp_ID wp) (wp_BoxesCount p))) (\<lambda>_. f wp accounts))) w"
    for p f and w :: world
  proof (cases "CreateWithAccounts env p w")
    case (Pair r w1)
    show ?thesis
    proof (cases r)
      case (Inr x)
      obtain wp acc where x: "x = (wp, acc)" by (cases x)
      then obtain k where "wp = p\<lparr>wp_ID := k, wp_CreatedAt := w_now w\<rparr>"
        using CreateWithAccounts_Inr(1) [of env p w wp acc w1] Pair Inr by auto
      then have "wp_OpenTime wp = wp_OpenTime p" "wp_CloseTime wp = wp_CloseTime p" "wp_BoxesCount wp = wp_BoxesCount p"
        by simp_all
      then show ?thesis using Pair Inr x by (simp add: bindE_def split: prod.split sum.split)
    qed (use Pair in \<open>simp add: bindE_def\<close>)
  qed
  have point: "bindE (CreateWithAccounts env p) (\<lambda>x.
       bindE (as_internal (Schedule_SeedDefault (wp_ID (fst x)) (wp_OpenTime (fst x)) (wp_CloseTime (fst x)))) (\<lambda>_.
       bindE (as_internal (Box_SeedDefault (wp_ID (fst x)) (wp_BoxesCount (fst x)))) (\<lambda>_. f x))) =
     bindE (CreateWithAccounts env p) (\<lambda>x.
       bindE (as_internal (Schedule_SeedDefault (wp_ID (fst x)) (wp_OpenTime p) (wp_CloseTime p))) (\<lambda>_.
       bindE (as_internal (Box_SeedDefault (wp_ID (fst x)) (wp_BoxesCount p))) (\<lambda>_. f x)))"
    for p and f :: "WashingPoint \<times> PointAccounts \<Rightarrow> (ConnectionRequest \<times> WashingPoint \<times> PointAccounts) db"
    by (rule ext) (use same [of p "\<lambda>wp acc. f (wp, acc)"] in \<open>simp add: case_prod_unfold\<close>)
  show ?thesis
    unfolding approve_read_def owner_step_def seed_point_def bindE_assoc Let_def case_prod_unfold point
    by (simp add: bindE_return_ok)
qed


lemma ready_point_cong:
  assumes "w_points u = w_points w" "w_users u = w_users w" "w_now u = w_now w"
    "w_points v = w_points w'" "w_users v = w_users w'" "w_schedules v = w_schedules w'" "w_boxes v = w_boxes w'"
  shows "ready_point env wp acc u v = ready_point env wp acc w w'"
  using assms
  by (simp add: ready_point_def point_accounts_def username_taken_def complete_week_def point_rows_def point_boxes_def)

text \<open>
  C7 An approval that succeeds was of a new, complete request. It adds exactly one washing point,
  under review and ready otherwise (hours, boxes, two accounts), that belongs to the owner with the
  applicant's phone, an existing one when there is one; and the request is marked approved with the
  reviewer and the time.
\<close>

theorem approval_success:
  assumes "Approve env k reviewer w = (Inr (c', wp, accounts), w')" "points_ok w" "boxes_have_points w"
  shows "\<exists>c own. find_row cr_ID k (w_requests w) = Some c \<and> cr_Status c = ReqNew \<and>
    c' = reviewed ReqApproved reviewer (w_now w) c \<and>
    w_requests w' = update_where (\<lambda>r. cr_ID r = k) (\<lambda>_. c') (w_requests w) \<and>
    owner_for c own w w' \<and> wp_OwnerID wp = Some (ow_ID own) \<and> wp_Status wp = WpPendingReview \<and>
    wp_Name wp = cr_BusinessName c \<and> Some (wp_Address wp) = cr_Address c \<and> Some (wp_BoxesCount wp) = cr_BoxesCount c \<and>
    ready_point env wp accounts w w'"
proof -
  obtain c w1 address boxes where find: "RequestRepo_FindByID k w = (Inr c, w1)" and new: "cr_Status c = ReqNew"
    and complete: "cr_Address c = Some address" "cr_BoxesCount c = Some boxes"
    and run: "approve_read env c reviewer address boxes w1 = (Inr (c', wp, accounts), w')"
    using assms(1) by (auto simp: Approve_def elim!: bindE_InrE split: if_splits option.splits)
  note f = RequestRepo_FindByID_Inr [OF find] and same1 = same_tablesD [OF RequestRepo_FindByID_Inr(4) [OF find]]
  obtain own w2 w3 where owner: "owner_step c w1 = (Inr own, w2)"
    and seed: "seed_point env (pending_point (ow_ID own) c address boxes) w2 = (Inr (wp, accounts), w3)"
    and update: "RequestRepo_Update (reviewed ReqApproved reviewer (w_now w3) c) w3 = (Inr (), w')"
    and c': "c' = reviewed ReqApproved reviewer (w_now w3) c"
    using run unfolding approve_read_steps by (auto simp: time_Now_def elim!: bindE_InrE)
  obtain fs os n where w2: "w2 = w1\<lparr>w_faults := fs, w_owners := os, w_next := n\<rparr>" "w_next w1 \<le> n"
    using owner_step_Inr(2) [OF owner] by blast
  have ok2: "points_ok w2" "boxes_have_points w2"
    using assms(2,3) w2 same1 f(5) by (force simp: points_ok_def boxes_have_points_def)+
  let ?p = "pending_point (ow_ID own) c address boxes"
  have hours: "timeFormatRegexp (wp_OpenTime ?p)" "timeFormatRegexp (wp_CloseTime ?p)" "wp_OpenTime ?p < wp_CloseTime ?p"
    by (simp_all add: pending_point_def) code_simp+
  note ready = seed_point_ready [OF seed ok2 hours]
  note upd = RequestRepo_Update_Inr [OF update]
  have now: "w_now w3 = w_now w" using ready(5) w2 same1 by simp
  have "ready_point env wp accounts w w'"
    using ready(1) ready_point_cong [of w2 w w3 w' env wp accounts] w2 same1 upd by simp
  moreover have "wp_OwnerID wp = Some (ow_ID own)" "wp_Status wp = WpPendingReview" "wp_Name wp = cr_BusinessName c"
      "wp_Address wp = address" "wp_BoxesCount wp = boxes"
    by (subst ready(2), simp add: pending_point_def)+
  moreover have "owner_for c own w w'"
    using owner_step_Inr(1) [OF owner] ready(3) upd(4) same1
    by (auto simp: owner_for_def owner_by_phone_def split: option.splits list.splits)
  moreover have "w_requests w' = update_where (\<lambda>r. cr_ID r = k) (\<lambda>_. c') (w_requests w)"
    using upd(1) ready(4) w2 same1 f(3) c' by (simp add: reviewed_def)
  ultimately show ?thesis
    using f(1) new complete c' now by (intro exI [of _ c] exI [of _ own]) simp
qed

definition applied_request :: ConnectionRequest where
  "applied_request = \<lparr>cr_ID = 1, cr_BusinessName = ''Moika'', cr_ContactName = Some ''Ali'', cr_ContactPhone = ''+992900000001'',
     cr_Address = Some ''Somoni 1'', cr_BoxesCount = Some 2, cr_Note = None, cr_Status = ReqNew, cr_ReviewedBy = None,
     cr_ReviewedAt = None, cr_CreatedAt = 0\<rparr>"

definition applied_world :: world where
  "applied_world = (empty_world 5)\<lparr>w_requests := [applied_request], w_next := 3,
     w_users := [\<lparr>u_ID = 2, u_PhoneNumber = None, u_Name = None, u_Role = RoleAdmin, u_WashingPointID = None,
       u_LastLoginAt = None, u_Username = Some ''admin'', u_PasswordHash = None, u_CreatedAt = 0\<rparr>]\<rparr>"

theorem approval_success_witness:
  "\<exists>c' wp accounts w' own. Approve opening_env 1 2 applied_world = (Inr (c', wp, accounts), w') \<and>
     c' = reviewed ReqApproved 2 5 applied_request \<and> w_requests w' = [c'] \<and>
     owner_for applied_request own applied_world w' \<and> wp_OwnerID wp = Some (ow_ID own) \<and>
     ready_point opening_env wp accounts applied_world w'"
proof -
  have "is_ok (fst (Approve opening_env 1 2 applied_world))" by code_simp
  then obtain x w' where "Approve opening_env 1 2 applied_world = (Inr x, w')" by (rule is_ok_fstE)
  moreover obtain c' wp accounts where "x = (c', wp, accounts)" by (cases x)
  ultimately have run: "Approve opening_env 1 2 applied_world = (Inr (c', wp, accounts), w')" by simp
  have ok: "points_ok applied_world" "boxes_have_points applied_world"
    by (simp_all add: points_ok_def boxes_have_points_def applied_world_def empty_world_def)
  obtain c own where r: "find_row cr_ID 1 (w_requests applied_world) = Some c"
      "c' = reviewed ReqApproved 2 (w_now applied_world) c"
      "w_requests w' = update_where (\<lambda>r. cr_ID r = 1) (\<lambda>_. c') (w_requests applied_world)"
      "owner_for c own applied_world w'" "wp_OwnerID wp = Some (ow_ID own)"
      "ready_point opening_env wp accounts applied_world w'"
    using approval_success [OF run ok] by blast
  have c: "c = applied_request" and now: "w_now applied_world = 5"
    using r(1) by (simp_all add: applied_world_def applied_request_def empty_world_def split: if_splits)
  have "w_requests w' = [c']" using r(3) by (simp add: applied_world_def applied_request_def)
  then show ?thesis using run r(2,4,5,6) [unfolded c now] by blast
qed

text \<open>
  C16 An approval that fails leaves every request as it was, so a new request stays new; but unless
  nothing changed at all the error is an internal one, and the owner, or the point with its two
  accounts, may already have been committed: approving again creates a second point.
\<close>

theorem failed_approval_outcomes:
  assumes "Approve env k reviewer w = (Inl e, w')"
  shows "w_requests w' = w_requests w \<and> (same_tables w w' \<or> e = Internal \<and> (w_points w' = w_points w \<or>
    (\<exists>wp accounts. w_points w' = w_points w @ [wp] \<and> wp_Status wp = WpPendingReview \<and>
       point_accounts env (wp_ID wp) accounts w w')))"
  using assms unfolding Approve_def
proof (cases rule: bindE_cases)
  case (stop e')
  then have "same_tables w w'"
    using read_onlyD [of "RequestRepo_FindByID k" w "Inl e'" w'] by (simp add: RequestRepo_FindByID_def read_only_first_or)
  then show ?thesis using same_tablesD [of w w'] by simp
next
  case (go c w1)
  note same1 = RequestRepo_FindByID_Inr(4) [OF go(1)]
  note tables1 = same_tablesD [OF same1]
  show ?thesis
  proof (cases "cr_Status c = ReqNew \<and> cr_Address c \<noteq> None \<and> cr_BoxesCount c \<noteq> None")
    case False
    then have "w' = w1" using go(2) by (auto split: if_splits option.splits)
    then show ?thesis using same1 tables1 by simp
  next
    case True
    then obtain address boxes where run: "approve_read env c reviewer address boxes w1 = (Inl e, w')"
      using go(2) by auto
    from run show ?thesis unfolding approve_read_steps
    proof (cases rule: bindE_cases)
      case (stop e')
      then have same: "same_tables w w'" using owner_step_Inl [of c w1] same1 same_tables_trans by blast
      then show ?thesis using same_tablesD [OF same] by simp
    next
      case owner: (go own w2)
      obtain fs os n where w2: "w2 = w1\<lparr>w_faults := fs, w_owners := os, w_next := n\<rparr>"
        using owner_step_Inr(2) [OF owner(1)] by blast
      let ?p = "pending_point (ow_ID own) c address boxes"
      from owner(2) show ?thesis
      proof (cases rule: bindE_cases)
        case (stop e')
        have e: "e = Internal" using seed_point_failed(1) [OF stop(1)] stop(2) by simp
        from seed_point_failed(2) [OF stop(1)]
        consider "same_tables w2 w'" | wp accounts where "w_points w' = w_points w2 @ [wp]"
            "wp = ?p\<lparr>wp_ID := wp_ID wp, wp_CreatedAt := w_now w2\<rparr>" "point_accounts env (wp_ID wp) accounts w2 w'"
            "w_requests w' = w_requests w2"
          by blast
        then show ?thesis
        proof cases
          case 1
          from same_tablesD [OF this] e tables1 show ?thesis by (simp add: w2)
        next
          case 2
          have "wp_Status wp = WpPendingReview" by (subst 2(2)) (simp add: pending_point_def)
          moreover have "point_accounts env (wp_ID wp) accounts w w'"
            using 2(3) tables1 by (simp add: w2 point_accounts_def username_taken_def)
          ultimately show ?thesis using 2(1,4) e tables1 by (auto simp: w2)
        qed
      next
        case seed: (go x w3)
        obtain wp accounts where x: "x = (wp, accounts)" by (cases x)
        obtain w4 where created: "CreateWithAccounts env ?p w2 = (Inr (wp, accounts), w4)" and people: "same_people w4 w3"
        proof -
          from seed(1) obtain t ta where t: "CreateWithAccounts env ?p w2 = (Inr (wp, accounts), t)"
              "as_internal (Schedule_SeedDefault (wp_ID wp) (wp_OpenTime ?p) (wp_CloseTime ?p)) t = (Inr (), ta)"
              "as_internal (Box_SeedDefault (wp_ID wp) (wp_BoxesCount ?p)) ta = (Inr (), w3)"
            unfolding x by (auto simp: seed_point_def elim!: bindE_InrE)
          show thesis using that [OF t(1)] same_people_trans [OF seeds_people [OF t(2)] box_seed_people [OF t(3)]] .
        qed
        note point = CreateWithAccounts_Inr [OF created]
        have failed: "RequestRepo_Update (reviewed ReqApproved reviewer (w_now w3) c) w3 = (Inl e, w')"
          using seed(2) unfolding x by (auto simp: time_Now_def bindE_def split: prod.splits sum.splits)
        note same = same_tablesD [OF RequestRepo_Update_Inl(2) [OF failed]]
        have "wp_Status wp = WpPendingReview" using point(1) by (auto simp: pending_point_def)
        moreover have "point_accounts env (wp_ID wp) accounts w w'"
          using point(4) people same tables1
          by (simp add: w2 point_accounts_def username_taken_def same_people_def)
        moreover have "w_points w' = w_points w @ [wp]" "w_requests w' = w_requests w"
          using point(3,9) people same tables1 by (simp_all add: w2 same_people_def)
        ultimately show ?thesis using RequestRepo_Update_Inl(1) [OF failed] by blast
      qed
    qed
  qed
qed

text \<open>The schedule insert of this approval fails, after the point and its accounts were committed.\<close>

definition interrupted_world :: world where
  "interrupted_world = applied_world\<lparr>w_faults := replicate 12 False @ [True]\<rparr>"

theorem failed_approval_outcomes_witness:
  "\<exists>e w' wp accounts. Approve opening_env 1 2 interrupted_world = (Inl e, w') \<and> e = Internal \<and>
     w_requests w' = [applied_request] \<and> w_points w' = [wp] \<and> wp_Status wp = WpPendingReview \<and>
     point_accounts opening_env (wp_ID wp) accounts interrupted_world w'"
proof -
  let ?run = "Approve opening_env 1 2 interrupted_world"
  have shape: "case ?run of (r, w') \<Rightarrow> \<not> is_ok r \<and> length (w_points w') = 1" by code_simp
  then obtain e w' where run: "?run = (Inl e, w')" by (cases ?run; cases "fst ?run") auto
  have one: "length (w_points w') = 1" using shape unfolding run by simp
  have start: "w_points interrupted_world = []" "w_requests interrupted_world = [applied_request]"
    by (simp_all add: interrupted_world_def applied_world_def empty_world_def)
  then have changed: "\<not> same_tables interrupted_world w'" "w_points w' \<noteq> w_points interrupted_world"
    using one by (auto dest: same_tablesD(3))
  from failed_approval_outcomes [OF run] changed show ?thesis
    unfolding start by (intro exI [of _ e] exI [of _ w']) (use run in auto)
qed

text \<open>
  Approving that request once more, now that the database answers, succeeds and leaves two points of the
  same business.
\<close>

lemma retried_approval_duplicates_point:
  "case Approve opening_env 1 2 interrupted_world of (_, w') \<Rightarrow>
     case Approve opening_env 1 2 w' of (r, w'') \<Rightarrow>
       is_ok r \<and> map wp_Name (w_points w'') = [''Moika'', ''Moika''] \<and> map cr_Status (w_requests w'') = [ReqApproved]"
  by code_simp

text \<open>
  Two administrators whose reads both saw the request new: the second approval does not look again, and both
  points are created.
\<close>

lemma concurrent_approvals_duplicate_point:
  "case approve_read opening_env applied_request 2 ''Somoni 1'' 2 applied_world of (r, w') \<Rightarrow>
     case approve_read opening_env applied_request 3 ''Somoni 1'' 2
         (w'\<lparr>w_users := w_users w' @ [(hd (w_users applied_world))\<lparr>u_ID := 3, u_Username := Some ''admin2''\<rparr>]\<rparr>) of (r', w'') \<Rightarrow>
       is_ok r \<and> is_ok r' \<and> length (w_points w'') = 2"
  by code_simp

end
