(* ===== verification/Float64.thy ===== *)
theory Float64
  imports Clock Complex_Main "HOL-Library.Log_Nat"
begin

text \<open>
  Go's \<open>float64\<close> as far as the reports, the dashboard and the configuration use it: quotients of integers below \<open>2^63\<close>, their products with
  100, and durations in hours and minutes. Such values are zero or have binary exponents between -64
  and 70, far from the limits of the format, so every operation is the exact result rounded to 53
  bits, ties to even (\<open>fl\<close>); there is no overflow, no subnormal number and no NaN.
\<close>

section \<open>Rounding\<close>

definition round_even :: "rat \<Rightarrow> int" where
  "round_even z =
     (let n = \<lfloor>z\<rfloor>; r = z - of_int n
      in if r < 1 / 2 then n else if r > 1 / 2 then n + 1 else if even n then n else n + 1)"

text \<open>The binary exponent of a positive number: \<open>2^k \<le> x < 2^(k+1)\<close>.\<close>

definition binexp :: "rat \<Rightarrow> int" where
  "binexp x =
     (let (p, q) = quotient_of x; k = bitlen p - bitlen q
      in if x < 2 powi k then k - 1 else k)"

definition fl_abs :: "rat \<Rightarrow> rat" where
  "fl_abs x =
     (if x = 0 then 0 else let e = binexp x - 52 in of_int (round_even (x / 2 powi e)) * 2 powi e)"

definition fl :: "rat \<Rightarrow> rat" where
  "fl x = (if x < 0 then - fl_abs (- x) else fl_abs x)"

text \<open>\<open>int(f)\<close>, truncation toward zero.\<close>

definition truncate_float :: "rat \<Rightarrow> int" where
  "truncate_float x = (if x < 0 then - \<lfloor>- x\<rfloor> else \<lfloor>x\<rfloor>)"

lemma round_even_near: "\<bar>of_int (round_even z) - z\<bar> \<le> 1 / 2"
proof -
  have "of_int \<lfloor>z\<rfloor> \<le> z" "z < of_int \<lfloor>z\<rfloor> + 1" by linarith+
  then show ?thesis by (auto simp: round_even_def Let_def)
qed

lemma round_even_between:
  "of_int a \<le> z \<Longrightarrow> a \<le> round_even z"
  "z \<le> of_int b \<Longrightarrow> round_even z \<le> b"
proof -
  show "of_int a \<le> z \<Longrightarrow> a \<le> round_even z"
    by (auto simp: round_even_def Let_def le_floor_iff [symmetric])
  assume b: "z \<le> of_int b"
  show "round_even z \<le> b"
  proof (cases "z = of_int b")
    case False
    with b have "\<lfloor>z\<rfloor> < b" by (simp add: floor_less_iff)
    then show ?thesis by (simp add: round_even_def Let_def)
  qed (simp add: round_even_def)
qed

lemma bitlen_pos_bounds:
  assumes "0 < n"
  shows "(2::rat) powi (bitlen n - 1) \<le> of_int n" "of_int n < (2::rat) powi (bitlen n)"
proof -
  have n: "2 ^ nat (bitlen n - 1) \<le> n" "n < 2 ^ nat (bitlen n)" using bitlen_bounds [OF assms] by auto
  have b: "1 \<le> bitlen n" using assms bitlen_ge_iff_power [of 1 n] by simp
  have "(2::rat) powi (bitlen n - 1) = of_int (2 ^ nat (bitlen n - 1))" using b by (simp add: power_int_def)
  then show "(2::rat) powi (bitlen n - 1) \<le> of_int n" using n(1) by (simp only: of_int_le_iff)
  have "(2::rat) powi (bitlen n) = of_int (2 ^ nat (bitlen n))" using b by (simp add: power_int_def)
  then show "of_int n < (2::rat) powi (bitlen n)" using n(2) by (simp only: of_int_less_iff)
qed

lemma binexp_bounds:
  assumes "0 < x"
  shows "2 powi (binexp x) \<le> x" "x < 2 powi (binexp x + 1)"
proof -
  obtain p q where pq: "quotient_of x = (p, q)" by force
  have q: "0 < q" by (rule quotient_of_denom_pos [OF pq])
  have x: "x = of_int p / of_int q" by (rule quotient_of_div [OF pq])
  have p: "0 < p" using assms q by (simp add: x zero_less_divide_iff)
  note bp = bitlen_pos_bounds [OF p] and bq = bitlen_pos_bounds [OF q]
  let ?k = "bitlen p - bitlen q"
  have "2 powi (?k - 1) = 2 powi (bitlen p - 1) / (2::rat) powi (bitlen q)"
    by (simp add: power_int_diff [symmetric] algebra_simps)
  also have "\<dots> \<le> of_int p / of_int q"
    using bp bq p q by (intro frac_le) auto
  finally have low: "2 powi (?k - 1) \<le> x" by (simp add: x)
  have "x < 2 powi (bitlen p) / 2 powi (bitlen q - 1)"
    unfolding x using bp bq p q by (intro frac_less) auto
  also have "\<dots> = 2 powi (?k + 1)" by (simp add: power_int_diff [symmetric] algebra_simps)
  finally have "x < 2 powi (?k + 1)" .
  with low show "2 powi (binexp x) \<le> x" "x < 2 powi (binexp x + 1)"
    by (auto simp: binexp_def pq not_less Let_def)
qed

lemma powi_int: "0 \<le> e \<Longrightarrow> \<exists>m::int. (2::rat) powi e = of_int m \<and> 0 < m"
  by (intro exI [of _ "2 ^ nat e"]) (simp add: power_int_def)

text \<open>The relative error is at most \<open>2^-53\<close>.\<close>

lemma fl_error:
  assumes "0 \<le> x"
  shows "\<bar>fl x - x\<bar> \<le> x / 2 ^ 53"
proof (cases "x = 0")
  case False
  with assms have x: "0 < x" by simp
  define e where "e = binexp x - 52"
  have p: "(0::rat) < 2 powi e" by simp
  have "fl x - x = (of_int (round_even (x / 2 powi e)) - x / 2 powi e) * 2 powi e"
    using x p by (simp add: fl_def fl_abs_def e_def [symmetric] left_diff_distrib Let_def)
  then have "\<bar>fl x - x\<bar> = \<bar>of_int (round_even (x / 2 powi e)) - x / 2 powi e\<bar> * 2 powi e"
    using p by (simp add: abs_mult)
  also have "\<dots> \<le> 1 / 2 * 2 powi e" using round_even_near p by (intro mult_right_mono) auto
  also have "\<dots> = 2 powi (binexp x) / 2 ^ 53"
    using power_int_diff [of "2::rat" "binexp x" 52] by (simp add: e_def)
  also have "\<dots> \<le> x / 2 ^ 53" using binexp_bounds(1) [OF x] by (simp add: divide_right_mono)
  finally show ?thesis .
qed (simp add: fl_def fl_abs_def)

text \<open>Rounding does not cross an integer of at most 53 bits.\<close>

lemma fl_between:
  assumes "0 < x"
  shows "of_int a \<le> x \<Longrightarrow> 0 \<le> a \<Longrightarrow> a \<le> 2 ^ 53 \<Longrightarrow> of_int a \<le> fl x"
    "x \<le> of_int b \<Longrightarrow> b \<le> 2 ^ 53 \<Longrightarrow> fl x \<le> of_int b"
proof -
  define e where "e = binexp x - 52"
  have p: "(0::rat) < 2 powi e" by simp
  have fl: "fl x = of_int (round_even (x / 2 powi e)) * 2 powi e"
    using assms by (simp add: fl_def fl_abs_def e_def Let_def)
  have big: "1 \<le> e \<Longrightarrow> 2 ^ 53 \<le> x"
    using binexp_bounds(1) [OF assms] power_int_increasing [of 53 "binexp x" "2::rat"]
    by (simp add: e_def power_int_def)
  have shift: "of_int c / (2::rat) powi e = of_int (c * 2 ^ nat (- e))" if "e \<le> 0" for c :: int
  proof -
    define k where "k = nat (- e)"
    then have e: "e = - int k" using that by simp
    then have "(2::rat) powi e = inverse (2 ^ k)" by (simp add: power_int_minus)
    then show ?thesis by (simp add: e divide_inverse)
  qed
  { assume a: "of_int a \<le> x" "0 \<le> a" "a \<le> 2 ^ 53"
    show "of_int a \<le> fl x"
    proof (cases "e \<le> 0")
      case True
      have "of_int (a * 2 ^ nat (- e)) \<le> x / 2 powi e"
        using a(1) p unfolding shift [OF True, symmetric] by (simp add: divide_right_mono)
      then have "a * 2 ^ nat (- e) \<le> round_even (x / 2 powi e)" by (rule round_even_between(1))
      then have "of_int a / 2 powi e \<le> (of_int (round_even (x / 2 powi e)) :: rat)"
        unfolding shift [OF True] by (simp only: of_int_le_iff)
      then show ?thesis using p by (simp add: fl pos_divide_le_eq)
    next
      case False
      have "2 ^ 52 * 2 powi e \<le> x"
        using binexp_bounds(1) [OF assms] power_int_add [of "2::rat" 52 e] by (simp add: e_def)
      then have "of_int (2 ^ 52) \<le> x / 2 powi e" using p by (simp add: pos_le_divide_eq)
      then have "2 ^ 52 \<le> round_even (x / 2 powi e)" by (rule round_even_between(1))
      then have "of_int (2 ^ 52) \<le> (of_int (round_even (x / 2 powi e)) :: rat)" by (simp only: of_int_le_iff)
      then have "2 ^ 52 * 2 powi e \<le> fl x" using p by (simp add: fl)
      moreover have "(2::rat) ^ 53 \<le> 2 ^ 52 * 2 powi e"
        using False power_int_increasing [of 1 e "2::rat"] by simp
      moreover have "of_int a \<le> (2::rat) ^ 53"
      proof -
        have "of_int a \<le> (of_int (2 ^ 53) :: rat)" using a(3) by (simp only: of_int_le_iff)
        then show ?thesis by simp
      qed
      ultimately show ?thesis by linarith
    qed }
  { assume b: "x \<le> of_int b" "b \<le> 2 ^ 53"
    show "fl x \<le> of_int b"
    proof (cases "e \<le> 0")
      case True
      have "x / 2 powi e \<le> of_int (b * 2 ^ nat (- e))"
        using b(1) p unfolding shift [OF True, symmetric] by (simp add: divide_right_mono)
      then have "round_even (x / 2 powi e) \<le> b * 2 ^ nat (- e)" by (rule round_even_between(2))
      then have "(of_int (round_even (x / 2 powi e)) :: rat) \<le> of_int b / 2 powi e"
        unfolding shift [OF True] by (simp only: of_int_le_iff)
      then show ?thesis using p by (simp add: fl pos_le_divide_eq)
    next
      case False
      have "of_int b \<le> (of_int (2 ^ 53) :: rat)" using b(2) by (simp only: of_int_le_iff)
      then have x: "x = 2 ^ 53" "(of_int b :: rat) = 2 ^ 53" using big False b(1) by simp_all
      have "fl (2 ^ 53) = 2 ^ 53" by code_simp
      then show ?thesis by (simp add: x)
    qed }
qed

lemma fl_0 [simp]: "fl 0 = 0"
  by (simp add: fl_def fl_abs_def)

lemma fl_nonneg [simp]: "0 \<le> x \<Longrightarrow> 0 \<le> fl x"
  using fl_between(1) [of x 0] by (cases "x = 0") auto

lemma fl_int [simp]:
  assumes "\<bar>n\<bar> \<le> 2 ^ 53"
  shows "fl (of_int n) = of_int n"
proof -
  have pos: "fl (of_int n) = of_int n" if "0 < n" "n \<le> 2 ^ 53" for n :: int
    using fl_between(1) [of "of_int n" n] fl_between(2) [of "of_int n" n] that by (intro antisym) auto
  have "fl (of_int n) = - fl (of_int (- n))" if "n < 0"
    using that by (simp add: fl_def)
  with pos [of n] pos [of "- n"] assms show ?thesis
    by (cases "0 < n"; cases "n = 0") auto
qed


section \<open>Durations\<close>

text \<open>\<open>Duration.Hours\<close> and \<open>Duration.Minutes\<close> of a duration that is not negative.\<close>

definition in_units :: "duration \<Rightarrow> duration \<Rightarrow> rat" where
  "in_units u d = fl (fl (of_int (d div u)) + fl (of_int (d mod u) / of_int u))"

definition Hours :: "duration \<Rightarrow> rat" where
  "Hours d = in_units Hour d"

definition Minutes :: "duration \<Rightarrow> rat" where
  "Minutes d = in_units Minute d"

lemma in_units_near:
  assumes "0 \<le> d" "0 < u" "u * (d div u + 3) \<le> 2 ^ 53"
  shows "of_int (d div u) \<le> in_units u d" "in_units u d < of_int (d div u) + 1"
    "in_units u d \<le> of_int (d div u) + of_int (d mod u) / of_int u + (of_int (d div u) + 2) / 2 ^ 53"
proof -
  define m r where "m = d div u" and "r = d mod u"
  have m: "0 \<le> m" using assms(1,2) by (simp add: m_def pos_imp_zdiv_nonneg_iff)
  have r: "0 \<le> r" "r \<le> u - 1" using assms(2) by (simp_all add: r_def)
  have "m + 3 \<le> u * (m + 3)" using m assms(2) by (simp add: mult_le_cancel_right1)
  then have m53: "m + 3 \<le> 2 ^ 53" using assms(3) by (simp add: m_def)
  define q E :: rat where "q = of_int r / of_int u" and "E = 1 / 2 ^ 53"
  have E: "0 < E" by (simp add: E_def)
  have u: "0 < (of_int u :: rat)" using assms(2) by simp
  have "(of_int r :: rat) \<le> of_int (u - 1)" using r(2) by (simp only: of_int_le_iff)
  then have "of_int r \<le> (of_int u :: rat) - 1" by simp
  then have "q \<le> (of_int u - 1) / of_int u" unfolding q_def by (rule divide_right_mono) (use u in simp)
  then have q1: "q \<le> 1 - 1 / of_int u" using assms(2) by (simp add: diff_divide_distrib)
  have "0 \<le> 1 / (of_int u :: rat)" using u by simp
  with q1 have q2: "q \<le> 1" by linarith
  have q0: "0 \<le> q" using r(1) u by (simp add: q_def)
  have fq0: "0 \<le> fl q" by (rule fl_nonneg [OF q0])
  have fq1: "fl q \<le> 1" using fl_between(2) [of q 1] q0 q2 by (cases "q = 0") auto
  have "q * E \<le> E" using q2 E mult_right_mono [of q 1 E] by simp
  have err: "\<bar>fl x - x\<bar> \<le> x * E" if "0 \<le> x" for x
    using fl_error [OF that] by (simp only: E_def times_divide_eq_right mult_1_right)
  have fq: "fl q \<le> q + E" using err [OF q0] \<open>q * E \<le> E\<close> by (simp add: abs_le_iff)
  define y where "y = of_int m + fl q"
  have m': "0 \<le> (of_int m :: rat)" using m by simp
  have y0: "of_int m \<le> y" "0 \<le> y" "y \<le> of_int m + 1" "y \<le> of_int m + q + E"
    using fq fq0 fq1 m' by (simp_all add: y_def)
  have i: "in_units u d = fl y"
    using m m53 by (simp add: in_units_def y_def q_def m_def [symmetric] r_def [symmetric])
  show "of_int (d div u) \<le> in_units u d"
    using fl_between(1) [of y m] y0 m m53 unfolding i m_def [symmetric] by (cases "y = 0") auto
  have "y * E \<le> (of_int m + 1) * E" using y0(3) E by (simp add: mult_right_mono)
  then have fy: "fl y \<le> of_int m + q + (of_int m + 2) * E"
    using err [OF y0(2)] y0(4) by (simp add: abs_le_iff ring_distribs)
  then show "in_units u d \<le> of_int (d div u) + of_int (d mod u) / of_int u + (of_int (d div u) + 2) / 2 ^ 53"
    unfolding i m_def [symmetric] r_def [symmetric] q_def [symmetric] by (simp add: E_def)
  have "of_int (u * (m + 3)) \<le> (of_int (2 ^ 53) :: rat)"
    using assms(3) unfolding m_def [symmetric] by (simp only: of_int_le_iff)
  then have "of_int u * ((of_int m + 3) * E) \<le> 1" by (simp add: E_def)
  then have "(of_int m + 3) * E \<le> 1 / of_int u" using u by (simp add: pos_le_divide_eq mult.commute)
  then have "(of_int m + 2) * E < 1 / of_int u" using E by (simp add: ring_distribs)
  then show "in_units u d < of_int (d div u) + 1" using fy q1 unfolding i m_def [symmetric] by linarith
qed

lemma truncate_floatI:
  assumes "0 \<le> m" "of_int m \<le> x" "x < of_int m + 1"
  shows "truncate_float x = m"
proof -
  have "(0::rat) \<le> of_int m" using assms(1) by simp
  with assms(2) have "0 \<le> x" by linarith
  moreover have "\<lfloor>x\<rfloor> = m" using assms(2,3) by (simp add: floor_eq_iff)
  ultimately show ?thesis by (simp add: truncate_float_def)
qed

text \<open>For up to a hundred days the truncated floating-point values are the integer quotients.\<close>

lemma truncated_units:
  assumes "0 \<le> d" "0 < u" "u * (d div u + 3) \<le> 2 ^ 53"
  shows "truncate_float (in_units u d) = d div u"
  using in_units_near [OF assms] assms by (intro truncate_floatI) (auto simp: pos_imp_zdiv_nonneg_iff)

lemma units_bound:
  fixes d :: duration
  assumes "0 \<le> d" "d \<le> 100 * Day"
  shows "Hour * (d div Hour + 3) \<le> 2 ^ 53" "Minute * (d div Minute + 3) \<le> 2 ^ 53"
proof -
  have "Hour * (d div Hour) \<le> d" "Minute * (d div Minute) \<le> d"
    by (simp_all add: duration_defs mult.commute [of _ "d div _"] div_times_less_eq_dividend)
  then show "Hour * (d div Hour + 3) \<le> 2 ^ 53" "Minute * (d div Minute + 3) \<le> 2 ^ 53"
    using assms(2) by (simp_all add: duration_defs)
qed

lemma truncated_Hours:
  assumes "0 \<le> d" "d \<le> 100 * Day"
  shows "truncate_float (Hours d) = d div Hour"
  unfolding Hours_def by (rule truncated_units) (use assms units_bound in \<open>auto simp: duration_defs\<close>)

lemma truncated_Minutes:
  assumes "0 \<le> d" "d \<le> 100 * Day"
  shows "truncate_float (Minutes d) = d div Minute"
  unfolding Minutes_def by (rule truncated_units) (use assms units_bound in \<open>auto simp: duration_defs\<close>)

text \<open>The number of whole days as \<open>int(d.Hours() / 24)\<close>.\<close>

lemma truncated_day_index:
  assumes "0 \<le> d" "d < 8 * Day"
  shows "truncate_float (fl (Hours d / 24)) = d div Day"
proof (rule truncate_floatI)
  define k m r where "k = d div Day" and "m = d div Hour" and "r = d mod Hour"
  define E :: rat where "E = 1 / 2 ^ 53"
  have E: "0 < E" "E * 2 ^ 53 = 1" by (simp_all add: E_def)
  have k: "0 \<le> k" "k \<le> 7" "k * Day \<le> d" "d < (k + 1) * Day"
    using assms by (auto simp: k_def duration_defs)
  have mr: "d = m * Hour + r" by (simp add: m_def r_def)
  have m: "0 \<le> m" "24 * k \<le> m" "m \<le> 191" using assms by (auto simp: m_def k_def duration_defs)
  have "d \<le> 100 * Day" using assms by (simp add: duration_defs)
  note near = in_units_near [OF assms(1) _ units_bound(1) [OF assms(1) this], folded Hours_def m_def r_def]
  have H: "of_int m \<le> Hours d" "Hours d \<le> of_int m + of_int r / of_int Hour + (of_int m + 2) * E"
    using near by (simp_all add: E_def duration_defs)
  have "of_int d / of_int Hour = (of_int m :: rat) + of_int r / of_int Hour"
    by (simp add: mr duration_defs add_divide_distrib)
  moreover have "(of_int d :: rat) \<le> of_int ((k + 1) * Day - 1)" using k(4) by (simp only: of_int_le_iff)
  then have "of_int d / of_int Hour \<le> (24 * (of_int k + 1) :: rat) - 1 / of_int Hour"
    by (simp add: duration_defs field_simps)
  moreover have "(of_int m :: rat) \<le> of_int 191" using m(3) by (simp only: of_int_le_iff)
  then have "(of_int m + 2) * E \<le> 193 * E" using E by (intro mult_right_mono) auto
  ultimately have H': "Hours d \<le> 24 * (of_int k + 1) - 1 / of_int Hour + 193 * E" using H(2) by linarith
  define x where "x = Hours d / 24"
  have "(of_int (24 * k) :: rat) \<le> of_int m" using m(2) by (simp only: of_int_le_iff)
  then have low: "of_int k \<le> x" using H(1) by (simp add: x_def)
  have k0: "0 \<le> (of_int k :: rat)" using k(1) by simp
  show "of_int (d div Day) \<le> fl (Hours d / 24)"
    using fl_between(1) [of x k] low k k0 unfolding x_def [symmetric] k_def [symmetric] by (cases "x = 0") auto
  have high: "x \<le> of_int k + 1 - 1 / of_int Day + 9 * E"
    using H' E(1) by (simp add: x_def duration_defs)
  have "(of_int k :: rat) \<le> of_int 7" using k(2) by (simp only: of_int_le_iff)
  then have x9: "x \<le> 9" using high by (simp add: E_def duration_defs)
  have "\<bar>fl x - x\<bar> \<le> x * E"
    using fl_error [of x] low k0 by (simp only: E_def times_divide_eq_right mult_1_right)
  moreover have "x * E \<le> 9 * E" using x9 E(1) by (intro mult_right_mono) auto
  ultimately have "fl x \<le> of_int k + 1 - 1 / of_int Day + 18 * E" using high by linarith
  then show "fl (Hours d / 24) < of_int (d div Day) + 1"
    unfolding x_def [symmetric] k_def [symmetric] by (simp add: E_def duration_defs)
  show "0 \<le> d div Day" using k(1) by (simp add: k_def)
qed

section \<open>Percentages\<close>

text \<open>\<open>int(float64(n) / float64(d) * 100)\<close>.\<close>

definition float_percent :: "int \<Rightarrow> int \<Rightarrow> int" where
  "float_percent n d = truncate_float (fl (fl (fl (of_int n) / fl (of_int d)) * 100))"

text \<open>
  For amounts up to \<open>2^40\<close> the result is the exact percentage rounded down, except that an exact integer
  percentage may come out one lower.
\<close>

lemma float_percent_near:
  assumes "0 \<le> n" "n \<le> d" "0 < d" "d \<le> 2 ^ 40"
  shows "float_percent n d = 100 * n div d \<or> d dvd 100 * n \<and> float_percent n d = 100 * n div d - 1"
proof -
  define E :: rat where "E = 1 / 2 ^ 53"
  have E: "0 < E" "E * 2 ^ 53 = 1" by (simp_all add: E_def)
  have err: "\<bar>fl x - x\<bar> \<le> x * E" if "0 \<le> x" for x
    using fl_error [OF that] by (simp only: E_def times_divide_eq_right mult_1_right)
  have exact: "fl (of_int n) = of_int n" "fl (of_int d) = of_int d" using assms by (auto intro!: fl_int)
  define a :: rat where "a = of_int n / of_int d"
  have dr: "0 < (of_int d :: rat)" using assms(3) by simp
  have "(of_int n :: rat) \<le> of_int d" using assms(2) by (simp only: of_int_le_iff)
  then have a: "0 \<le> a" "a \<le> 1" using assms(1) dr by (simp_all add: a_def)
  define b where "b = fl a"
  have "a * E \<le> E" using a E mult_right_mono [of a 1 E] by simp
  then have ab: "a - E \<le> b" "b \<le> a + E" using err [OF a(1)] unfolding b_def by (auto simp: abs_le_iff)
  have b: "0 \<le> b" using a(1) by (simp add: b_def)
  have "E \<le> 1" by (simp add: E_def)
  then have b2: "b * 100 \<le> 200" using ab(2) a(2) by linarith
  define y where "y = fl (b * 100)"
  have "b * 100 * E \<le> 200 * E" using b2 E by (intro mult_right_mono) auto
  then have y: "100 * a - 300 * E \<le> y" "y \<le> 100 * a + 300 * E"
  proof -
    have "\<bar>y - b * 100\<bar> \<le> 200 * E" 
      unfolding y_def by (rule order_trans [OF err \<open>b * 100 * E \<le> 200 * E\<close>]) (use b in simp)
    then have "y - b * 100 \<le> 200 * E" "b * 100 - y \<le> 200 * E" by linarith+
    with ab show "100 * a - 300 * E \<le> y" "y \<le> 100 * a + 300 * E" by linarith+
  qed
  have y0: "0 \<le> y" using b by (simp add: y_def)
  have f: "float_percent n d = \<lfloor>y\<rfloor>"
    using y0 by (simp add: float_percent_def exact a_def b_def y_def truncate_float_def)
  define q r where "q = 100 * n div d" and "r = 100 * n mod d"
  have qr: "100 * n = q * d + r" "0 \<le> r" "r < d" using assms(3) by (simp_all add: q_def r_def)
  have "(of_int (100 * n) :: rat) = of_int (q * d + r)" using qr(1) by simp
  then have x: "100 * a = of_int q + of_int r / of_int d" using dr by (simp add: a_def field_simps)
  have small: "300 * E < 1 / of_int d"
  proof -
    have "(of_int d :: rat) \<le> of_int (2 ^ 40)" using assms(4) by (simp only: of_int_le_iff)
    then have "of_int d * (300 * E) < 1" by (simp add: E_def)
    then show ?thesis using dr by (simp add: pos_less_divide_eq mult.commute)
  qed
  show ?thesis
  proof (cases "r = 0")
    case True
    have "1 / of_int d \<le> (1::rat)" using assms(3) by simp
    then have "of_int q - 1 < y" "y < of_int q + 1" using y x True small by auto
    then have "\<lfloor>y\<rfloor> = q \<or> \<lfloor>y\<rfloor> = q - 1" by linarith
    then show ?thesis using True f by (auto simp: q_def r_def)
  next
    case False
    then have "1 \<le> r" "r \<le> d - 1" using qr by auto
    then have "(of_int 1 :: rat) \<le> of_int r" "(of_int r :: rat) \<le> of_int (d - 1)"
      by (simp_all only: of_int_le_iff)
    then have "1 / of_int d \<le> (of_int r / of_int d :: rat)" "of_int r / of_int d \<le> (1 - 1 / of_int d :: rat)"
      using dr by (simp_all add: field_simps)
    then have "of_int q \<le> y" "y < of_int q + 1" using y x small by linarith+
    then have "\<lfloor>y\<rfloor> = q" by linarith
    then show ?thesis using f by (simp add: q_def)
  qed
qed

lemma float_percent_bounds:
  assumes "0 \<le> n" "n \<le> d" "0 < d" "d \<le> 2 ^ 40"
  shows "0 \<le> float_percent n d" "float_percent n d \<le> 100"
proof -
  have "0 \<le> fl (fl (fl (of_int n) / fl (of_int d)) * 100)" using assms by (simp add: divide_nonneg_pos)
  then show "0 \<le> float_percent n d" by (simp add: float_percent_def truncate_float_def)
  have "100 * n div d \<le> 100 * d div d" using assms by (intro zdiv_mono1) auto
  then have "100 * n div d \<le> 100" using assms(3) by simp
  then show "float_percent n d \<le> 100" using float_percent_near [OF assms] by linarith
qed

text \<open>29 of 100 is shown as 28 percent.\<close>

lemma float_percent_29: "float_percent 29 100 = 28"
  by code_simp

end
