(* ===== verification/Reports.thy ===== *)
theory Reports
  imports Float64 Board
begin

text \<open>
  \<open>internal/queue/reports.go\<close>: the revenue and utilisation report of a point for a day, the last seven
  days or the month to date. The order in which Go ranges over the map of the services is the
  parameter \<open>iterate\<close>, any permutation.
\<close>

section \<open>Periods\<close>

datatype reportPeriod = PeriodToday | PeriodWeek | PeriodMonth

definition period_string :: "reportPeriod \<Rightarrow> string" where
  "period_string p = (case p of PeriodToday \<Rightarrow> ''today'' | PeriodWeek \<Rightarrow> ''week'' | PeriodMonth \<Rightarrow> ''month'')"

definition parse_period :: "string \<Rightarrow> apperror + reportPeriod" where
  "parse_period raw =
     (if raw = [] then Inr PeriodToday
      else case find (\<lambda>p. period_string p = raw) [PeriodToday, PeriodWeek, PeriodMonth] of
             None \<Rightarrow> Inl (BadRequest ''invalid_period'') | Some p \<Rightarrow> Inr p)"

definition periodBounds :: "reportPeriod \<Rightarrow> time \<Rightarrow> time \<times> time" where
  "periodBounds period now =
     (let (todayStart, todayEnd) = DayBounds now
      in case period of
           PeriodWeek \<Rightarrow> (AddDate_days todayStart (- 6), todayEnd)
         | PeriodMonth \<Rightarrow> (let (y, m, d) = civil_from_days (local_day now) in (time_Date y m 1 0 0, todayEnd))
         | PeriodToday \<Rightarrow> (todayStart, todayEnd))"

definition previousPeriodBounds :: "time \<Rightarrow> time \<Rightarrow> time \<times> time" where
  "previousPeriodBounds start end' = (let span = end' - start in (start + (- span), start))"

definition ruMonthGenitive :: "string list" where
  "ruMonthGenitive =
     [utf8 [209, 143, 208, 189, 208, 178, 208, 176, 209, 128, 209, 143],
      utf8 [209, 132, 208, 181, 208, 178, 209, 128, 208, 176, 208, 187, 209, 143],
      utf8 [208, 188, 208, 176, 209, 128, 209, 130, 208, 176],
      utf8 [208, 176, 208, 191, 209, 128, 208, 181, 208, 187, 209, 143],
      utf8 [208, 188, 208, 176, 209, 143],
      utf8 [208, 184, 209, 142, 208, 189, 209, 143],
      utf8 [208, 184, 209, 142, 208, 187, 209, 143],
      utf8 [208, 176, 208, 178, 208, 179, 209, 131, 209, 129, 209, 130, 208, 176],
      utf8 [209, 129, 208, 181, 208, 189, 209, 130, 209, 143, 208, 177, 209, 128, 209, 143],
      utf8 [208, 190, 208, 186, 209, 130, 209, 143, 208, 177, 209, 128, 209, 143],
      utf8 [208, 189, 208, 190, 209, 143, 208, 177, 209, 128, 209, 143],
      utf8 [208, 180, 208, 181, 208, 186, 208, 176, 208, 177, 209, 128, 209, 143]]"

definition formatRuDate :: "time \<Rightarrow> string" where
  "formatRuDate t =
     (let (y, m, d) = civil_from_days (local_day t)
      in Itoa d @ '' '' @ ruMonthGenitive ! nat (m - 1) @ '' '' @ Itoa y)"

definition rangeLabel :: "reportPeriod \<Rightarrow> time \<Rightarrow> time \<Rightarrow> string" where
  "rangeLabel period start end' =
     (let lastDay = AddDate_days end' (- 1);
          (fy, fm, fd) = civil_from_days (local_day start);
          (ly, lm, ld) = civil_from_days (local_day lastDay)
      in if period = PeriodToday then formatRuDate lastDay
         else if fy = ly \<and> fm = lm
         then Itoa fd @ '' '' @ utf8 [226, 128, 147] @ '' '' @ Itoa ld @ '' '' @
           ruMonthGenitive ! nat (lm - 1) @ '' '' @ Itoa ly
         else formatRuDate start @ '' '' @ utf8 [226, 128, 147] @ '' '' @ formatRuDate lastDay)"

section \<open>Opening hours\<close>

text \<open>
  \<open>fmt.Sscanf(s, "%d:%d", ...)\<close>: spaces before a number are skipped, a sign is allowed, and what
  follows the second number is left unread.
\<close>

definition scan_int :: "string \<Rightarrow> (int \<times> string) option" where
  "scan_int s =
     (let s' = dropWhile (\<lambda>c. c = CHR '' '') s;
          neg = (s' \<noteq> [] \<and> hd s' = CHR ''-'');
          body = (if s' \<noteq> [] \<and> hd s' \<in> {CHR ''-'', CHR ''+''} then tl s' else s');
          ds = takeWhile is_digit body
      in if ds = [] then None
         else Some (if neg then - digits_value ds else digits_value ds, dropWhile is_digit body))"

definition parseHHMMMinutes :: "string \<Rightarrow> int option" where
  "parseHHMMMinutes s =
     (case scan_int s of
        Some (h, CHR '':'' # rest) \<Rightarrow> (case scan_int rest of None \<Rightarrow> None | Some (m, _) \<Rightarrow> Some (h * 60 + m))
      | _ \<Rightarrow> None)"

definition openHoursMinutes :: "string \<Rightarrow> string \<Rightarrow> int" where
  "openHoursMinutes openTime closeTime =
     (case (parseHHMMMinutes openTime, parseHHMMMinutes closeTime) of
        (Some openMin, Some closeMin) \<Rightarrow>
          (if closeMin \<le> openMin then closeMin + 24 * 60 else closeMin) - openMin
      | _ \<Rightarrow> 24 * 60)"

section \<open>Figures\<close>

definition percentInt :: "int \<Rightarrow> int \<Rightarrow> int" where
  "percentInt numerator denominator = (if denominator \<le> 0 then 0 else float_percent numerator denominator)"

definition deltaPct :: "int \<Rightarrow> int \<Rightarrow> int option" where
  "deltaPct current previous = (if previous \<le> 0 then None else Some (float_percent (current - previous) previous))"

definition deltaInt :: "int \<Rightarrow> int \<Rightarrow> int option" where
  "deltaInt current previous = Some (current - previous)"

definition deltaPP :: "int \<Rightarrow> int \<Rightarrow> int option" where
  "deltaPP currentPct previousPct = Some (currentPct - previousPct)"

definition safeDivInt :: "int \<Rightarrow> int \<Rightarrow> int" where
  "safeDivInt numerator denominator =
     (if denominator \<le> 0 then 0
      else if numerator < 0 then - ((- numerator) div denominator) else numerator div denominator)"

record reportAgg =
  ra_cars :: int
  ra_revenueCents :: int
  ra_bookedMinutes :: int

definition zero_agg :: reportAgg where
  "zero_agg = \<lparr>ra_cars = 0, ra_revenueCents = 0, ra_bookedMinutes = 0\<rparr>"

text \<open>\<open>m[k]\<close> of a Go map of counters: created empty when it is missing, then updated.\<close>

primrec bump_agg :: "'k \<Rightarrow> (reportAgg \<Rightarrow> reportAgg) \<Rightarrow> ('k \<times> reportAgg) list \<Rightarrow> ('k \<times> reportAgg) list" where
  "bump_agg k f [] = [(k, f zero_agg)]"
| "bump_agg k f (p # ps) = (if fst p = k then (k, f (snd p)) # ps else p # bump_agg k f ps)"

definition itemsOf :: "Queue \<Rightarrow> QueueItem list" where
  "itemsOf row =
     (if length (q_Items row) > 0 then q_Items row
      else [\<lparr>qi_ID = uuid_Nil, qi_QueueID = uuid_Nil, qi_ServiceID = q_ServiceID row,
             qi_PriceOptionID = q_PriceOptionID row, qi_Position = 0\<rparr>])"

definition bookingPrice :: "Queue \<Rightarrow> (uuid \<Rightarrow> int) \<Rightarrow> int" where
  "bookingPrice row priceByOption = foldl (\<lambda>total it. total + priceByOption (qi_PriceOptionID it)) 0 (itemsOf row)"

definition booked_minutes :: "Queue \<Rightarrow> int" where
  "booked_minutes row = truncate_float (Minutes (q_ScheduledEndAt row - q_ScheduledStartAt row))"

type_synonym report_sums = "reportAgg \<times> (uuid \<times> reportAgg) list \<times> (int \<times> reportAgg) list"

definition add_service :: "(uuid \<Rightarrow> int) \<Rightarrow> (uuid \<times> reportAgg) list \<Rightarrow> QueueItem \<Rightarrow> (uuid \<times> reportAgg) list" where
  "add_service priceByOption byService it =
     bump_agg (qi_ServiceID it) (\<lambda>svc. svc\<lparr>ra_cars := ra_cars svc + 1,
       ra_revenueCents := ra_revenueCents svc + priceByOption (qi_PriceOptionID it)\<rparr>) byService"

definition add_row :: "(uuid \<Rightarrow> int) \<Rightarrow> report_sums \<Rightarrow> Queue \<Rightarrow> report_sums" where
  "add_row priceByOption acc row =
     (let (total, byService, byBox) = acc
      in if q_Status row \<noteq> StatusReady then acc
         else
           let price = bookingPrice row priceByOption;
               minutes = booked_minutes row
           in (\<lparr>ra_cars = ra_cars total + 1, ra_revenueCents = ra_revenueCents total + price,
                ra_bookedMinutes = (if \<not> q_IsOverflow row then ra_bookedMinutes total + minutes else ra_bookedMinutes total)\<rparr>,
               foldl (add_service priceByOption) byService (itemsOf row),
               if q_IsOverflow row then byBox
               else bump_agg (q_BoxNumber row) (\<lambda>bx. \<lparr>ra_cars = ra_cars bx + 1,
                      ra_revenueCents = ra_revenueCents bx + price,
                      ra_bookedMinutes = ra_bookedMinutes bx + minutes\<rparr>) byBox))"

definition summarizeReportRows :: "Queue list \<Rightarrow> (uuid \<Rightarrow> int) \<Rightarrow> report_sums" where
  "summarizeReportRows rows priceByOption = foldl (add_row priceByOption) (zero_agg, [], []) rows"


section \<open>Bars\<close>

record reportsBar =
  rbr_timestamp :: time
  rbr_revenue_cents :: int
  rbr_highlighted :: bool

definition hourlyBuckets :: "time \<Rightarrow> (time \<times> int) list" where
  "hourlyBuckets dayStart = map (\<lambda>h. (dayStart + int h * Hour, 0)) [0..<24]"

definition span_days :: "time \<Rightarrow> time \<Rightarrow> int" where
  "span_days start t = truncate_float (Hours (t - start)) div 24"

definition dailyBuckets :: "time \<Rightarrow> time \<Rightarrow> (time \<times> int) list" where
  "dailyBuckets start end' = map (\<lambda>i. (AddDate_days start (int i), 0)) [0..<nat (span_days start end')]"

definition bucketIndex :: "reportPeriod \<Rightarrow> time \<Rightarrow> time \<Rightarrow> int" where
  "bucketIndex period start t = (if period = PeriodToday then local_Hour t else span_days start t)"

definition fill_bucket ::
  "reportPeriod \<Rightarrow> time \<Rightarrow> (uuid \<Rightarrow> int) \<Rightarrow> (time \<times> int) list \<Rightarrow> Queue \<Rightarrow> (time \<times> int) list" where
  "fill_bucket period start priceByOption buckets row =
     (if q_Status row \<noteq> StatusReady then buckets
      else
        let idx = bucketIndex period start (q_ScheduledStartAt row)
        in if idx < 0 \<or> idx \<ge> int (length buckets) then buckets
           else buckets[nat idx := (fst (buckets ! nat idx), snd (buckets ! nat idx) + bookingPrice row priceByOption)])"

definition sameDay :: "time \<Rightarrow> time \<Rightarrow> bool" where
  "sameDay a b \<longleftrightarrow> civil_from_days (local_day a) = civil_from_days (local_day b)"

definition reportBars ::
  "reportPeriod \<Rightarrow> time \<Rightarrow> time \<Rightarrow> time \<Rightarrow> Queue list \<Rightarrow> (uuid \<Rightarrow> int) \<Rightarrow> reportsBar list" where
  "reportBars period start end' now rows priceByOption =
     (let buckets = (if period = PeriodToday then hourlyBuckets start else dailyBuckets start end');
          filled = foldl (fill_bucket period start priceByOption) buckets rows
      in map (\<lambda>(ts, revenue).
           \<lparr>rbr_timestamp = ts, rbr_revenue_cents = revenue,
            rbr_highlighted =
              (if period = PeriodToday then local_Hour ts = local_Hour now \<and> sameDay ts now else sameDay ts now)\<rparr>) filled)"

section \<open>The report\<close>

record reportsKPIs =
  rk_revenue_cents :: int
  rk_revenue_delta_pct :: "int option"
  rk_cars :: int
  rk_cars_delta :: "int option"
  rk_avg_receipt_cents :: int
  rk_avg_receipt_delta_pct :: "int option"
  rk_box_utilization_pct :: int
  rk_box_utilization_delta_pp :: "int option"

record reportsServiceRow =
  rs_service_id :: uuid
  rs_name :: string
  rs_count :: int
  rs_revenue_cents :: int
  rs_share_pct :: int

record reportsBoxRow =
  rx_number :: int
  rx_label :: string
  rx_cars :: int
  rx_revenue_cents :: int
  rx_load_pct :: int

record reportsResponse =
  rp_period :: string
  rp_range_label :: string
  rp_kpis :: reportsKPIs
  rp_bars :: "reportsBar list"
  rp_services :: "reportsServiceRow list"
  rp_boxes :: "reportsBoxRow list"

text \<open>
  The insertion sort by swaps: the row at index \<open>j\<close> moves left past every neighbour of smaller revenue.
  The rows already sorted are kept in reverse.
\<close>

primrec sift_left :: "reportsServiceRow \<Rightarrow> reportsServiceRow list \<Rightarrow> reportsServiceRow list" where
  "sift_left x [] = [x]"
| "sift_left x (y # ys) = (if rs_revenue_cents x > rs_revenue_cents y then y # sift_left x ys else x # y # ys)"

definition sortServiceRowsByRevenueDesc :: "reportsServiceRow list \<Rightarrow> reportsServiceRow list" where
  "sortServiceRowsByRevenueDesc rows = rev (foldl (\<lambda>done x. sift_left x done) [] rows)"

definition add_prices :: "(uuid \<Rightarrow> int) \<Rightarrow> Service \<times> ServicePriceOption list \<Rightarrow> uuid \<Rightarrow> int" where
  "add_prices m s = foldl (\<lambda>m p. m(po_ID p := po_PriceCents p)) m (snd s)"

definition price_by_option :: "(Service \<times> ServicePriceOption list) list \<Rightarrow> uuid \<Rightarrow> int" where
  "price_by_option services = foldl add_prices (\<lambda>_. 0) services"

definition name_by_service :: "(Service \<times> ServicePriceOption list) list \<Rightarrow> uuid \<Rightarrow> string" where
  "name_by_service services = foldl (\<lambda>m s. m(sv_ID (fst s) := sv_Name (fst s))) (\<lambda>_. []) services"

definition service_row ::
  "(uuid \<Rightarrow> string) \<Rightarrow> reportAgg \<Rightarrow> uuid \<times> reportAgg \<Rightarrow> reportsServiceRow" where
  "service_row nameByService current entry =
     (let (k, agg) = entry
      in \<lparr>rs_service_id = k, rs_name = nameByService k, rs_count = ra_cars agg,
          rs_revenue_cents = ra_revenueCents agg,
          rs_share_pct = percentInt (ra_revenueCents agg) (ra_revenueCents current)\<rparr>)"

definition box_row :: "(int \<times> reportAgg) list \<Rightarrow> int \<Rightarrow> Box \<Rightarrow> reportsBoxRow" where
  "box_row boxAgg boxAvailable b =
     (let agg = (case map_of boxAgg (bx_Number b) of None \<Rightarrow> zero_agg | Some a \<Rightarrow> a);
          label = (case bx_Label b of
                     Some l \<Rightarrow> if l \<noteq> [] then l else utf8 [208, 145, 208, 190, 208, 186, 209, 129, 32] @ Itoa (bx_Number b)
                   | None \<Rightarrow> utf8 [208, 145, 208, 190, 208, 186, 209, 129, 32] @ Itoa (bx_Number b))
      in \<lparr>rx_number = bx_Number b, rx_label = label, rx_cars = ra_cars agg,
          rx_revenue_cents = ra_revenueCents agg, rx_load_pct = percentInt (ra_bookedMinutes agg) boxAvailable\<rparr>)"

definition report_of ::
  "((uuid \<times> reportAgg) list \<Rightarrow> (uuid \<times> reportAgg) list) \<Rightarrow> WashingPoint \<Rightarrow> reportPeriod \<Rightarrow> time \<Rightarrow>
   Queue list \<Rightarrow> Queue list \<Rightarrow> (Service \<times> ServicePriceOption list) list \<Rightarrow> Box list \<Rightarrow> reportsResponse" where
  "report_of iterate wp period now rows prevRows services boxes =
     (let (start, end') = periodBounds period now;
          priceByOption = price_by_option services;
          openBoxes = length (filter bx_IsOpen boxes);
          days = span_days start end';
          openMinutes = openHoursMinutes (wp_OpenTime wp) (wp_CloseTime wp);
          availableMinutes = int openBoxes * openMinutes * days;
          (current, serviceAgg, boxAgg) = summarizeReportRows rows priceByOption;
          (previous, _, _) = summarizeReportRows prevRows priceByOption;
          avgReceipt = safeDivInt (ra_revenueCents current) (ra_cars current);
          prevAvgReceipt = safeDivInt (ra_revenueCents previous) (ra_cars previous);
          currentLoadPct = percentInt (ra_bookedMinutes current) availableMinutes;
          previousLoadPct = percentInt (ra_bookedMinutes previous) availableMinutes
      in \<lparr>rp_period = period_string period, rp_range_label = rangeLabel period start end',
          rp_kpis =
            \<lparr>rk_revenue_cents = ra_revenueCents current,
             rk_revenue_delta_pct = deltaPct (ra_revenueCents current) (ra_revenueCents previous),
             rk_cars = ra_cars current, rk_cars_delta = deltaInt (ra_cars current) (ra_cars previous),
             rk_avg_receipt_cents = avgReceipt, rk_avg_receipt_delta_pct = deltaPct avgReceipt prevAvgReceipt,
             rk_box_utilization_pct = currentLoadPct,
             rk_box_utilization_delta_pp = deltaPP currentLoadPct previousLoadPct\<rparr>,
          rp_bars = reportBars period start end' now rows priceByOption,
          rp_services = sortServiceRowsByRevenueDesc
            (map (service_row (name_by_service services) current) (iterate serviceAgg)),
          rp_boxes = map (box_row boxAgg (openMinutes * days)) boxes\<rparr>)"

definition buildReportsResponse ::
  "((uuid \<times> reportAgg) list \<Rightarrow> (uuid \<times> reportAgg) list) \<Rightarrow> WashingPoint \<Rightarrow> reportPeriod \<Rightarrow> time \<Rightarrow> reportsResponse db" where
  "buildReportsResponse iterate wp period now =
     (let (start, end') = periodBounds period now;
          (prevStart, prevEnd) = previousPeriodBounds start end'
      in bindE (FindByWashingPointAndRange (wp_ID wp) start end') (\<lambda>rows.
         bindE (FindByWashingPointAndRange (wp_ID wp) prevStart prevEnd) (\<lambda>prevRows.
         bindE (ServiceRepo_ListByWashingPoint (wp_ID wp)) (\<lambda>services.
         bindE (BoxRepo_ListByWashingPoint (wp_ID wp)) (\<lambda>boxes.
         return_ok (report_of iterate wp period now rows prevRows services boxes))))))"

definition reports ::
  "((uuid \<times> reportAgg) list \<Rightarrow> (uuid \<times> reportAgg) list) \<Rightarrow>
   (string \<Rightarrow> uuid option) \<Rightarrow> AuthUser option \<Rightarrow> string \<Rightarrow> string \<Rightarrow> reportsResponse db" where
  "reports iterate uuid_parse ctx rawID rawPeriod =
     bindE (ownWashingPointID uuid_parse ctx rawID) (\<lambda>pid.
     bindE (lift_result (parse_period rawPeriod)) (\<lambda>period.
     bindE (WpRepo_FindByID pid) (\<lambda>wp.
     bindE time_Now (\<lambda>now.
     buildReportsResponse iterate wp period now))))"

section \<open>Sorting the services\<close>

lemma sift_left_mset: "mset (sift_left x ys) = add_mset x (mset ys)"
  by (induction ys) auto

lemma sift_left_sorted:
  "sorted (map rs_revenue_cents ys) \<Longrightarrow> sorted (map rs_revenue_cents (sift_left x ys))"
proof (induction ys)
  case (Cons y ys)
  have "set (sift_left x ys) = insert x (set ys)"
    by (metis set_mset_add_mset_insert set_mset_mset sift_left_mset)
  with Cons show ?case by auto
qed simp

lemma sift_left_stable:
  "filter (\<lambda>z. rs_revenue_cents z = k) (sift_left x ys) =
   (if rs_revenue_cents x = k then x # filter (\<lambda>z. rs_revenue_cents z = k) ys
    else filter (\<lambda>z. rs_revenue_cents z = k) ys)"
  by (induction ys) auto

lemma sift_rows:
  "mset (foldl (\<lambda>done x. sift_left x done) ys xs) = mset ys + mset xs"
  "sorted (map rs_revenue_cents ys) \<Longrightarrow> sorted (map rs_revenue_cents (foldl (\<lambda>done x. sift_left x done) ys xs))"
  "filter (\<lambda>z. rs_revenue_cents z = k) (foldl (\<lambda>done x. sift_left x done) ys xs) =
   rev (filter (\<lambda>z. rs_revenue_cents z = k) xs) @ filter (\<lambda>z. rs_revenue_cents z = k) ys"
  by (induction xs arbitrary: ys) (simp_all add: sift_left_mset sift_left_sorted sift_left_stable)

text \<open>The insertion sort is the library's stable sort by descending revenue.\<close>

lemma sortServiceRows_sort_key: "sortServiceRowsByRevenueDesc rows = sort_key (\<lambda>r. - rs_revenue_cents r) rows"
proof (rule properties_for_sort_key [symmetric])
  show "mset (sortServiceRowsByRevenueDesc rows) = mset rows"
    by (simp add: sortServiceRowsByRevenueDesc_def sift_rows(1))
  have "sorted (map rs_revenue_cents (foldl (\<lambda>done x. sift_left x done) [] rows))"
    by (rule sift_rows(2)) simp
  then show "sorted (map (\<lambda>r. - rs_revenue_cents r) (sortServiceRowsByRevenueDesc rows))"
    by (simp add: sortServiceRowsByRevenueDesc_def sorted_wrt_rev sorted_wrt_map)
  show "filter (\<lambda>x. - rs_revenue_cents k = - rs_revenue_cents x) (sortServiceRowsByRevenueDesc rows) =
      filter (\<lambda>x. - rs_revenue_cents k = - rs_revenue_cents x) rows" for k
    using sift_rows(3) [of "rs_revenue_cents k" "[]" rows]
    by (simp add: sortServiceRowsByRevenueDesc_def rev_filter [symmetric] eq_commute [of "rs_revenue_cents k"])
qed

section \<open>Sums\<close>

definition agg_at :: "('k \<times> reportAgg) list \<Rightarrow> 'k \<Rightarrow> reportAgg" where
  "agg_at m k = (case map_of m k of None \<Rightarrow> zero_agg | Some a \<Rightarrow> a)"

lemma agg_at_bump: "agg_at (bump_agg k f m) k' = (if k' = k then f (agg_at m k) else agg_at m k')"
  by (induction m) (auto simp: agg_at_def)

lemma bump_sum:
  assumes "\<And>a. g (f a) = g a + c" "g zero_agg = 0"
  shows "(\<Sum>a\<leftarrow>bump_agg k f m. g (snd a)) = (\<Sum>a\<leftarrow>m. g (snd a)) + (c :: int)"
  using assms by (induction m) auto

lemma bookingPrice_sum: "bookingPrice row price = sum_list (map (\<lambda>it. price (qi_PriceOptionID it)) (itemsOf row))"
proof -
  have "foldl (\<lambda>total it. total + price (qi_PriceOptionID it)) a its =
      a + sum_list (map (\<lambda>it. price (qi_PriceOptionID it)) its)" for a its
    by (induction its arbitrary: a) simp_all
  from this [of 0] show ?thesis by (simp add: bookingPrice_def)
qed

lemma add_services_revenue:
  "(\<Sum>a\<leftarrow>foldl (add_service price) m its. ra_revenueCents (snd a)) =
   (\<Sum>a\<leftarrow>m. ra_revenueCents (snd a)) + sum_list (map (\<lambda>it. price (qi_PriceOptionID it)) its)"
proof (induction its arbitrary: m)
  case (Cons it its)
  have "(\<Sum>a\<leftarrow>add_service price m it. ra_revenueCents (snd a)) =
      (\<Sum>a\<leftarrow>m. ra_revenueCents (snd a)) + price (qi_PriceOptionID it)"
    unfolding add_service_def by (rule bump_sum) (simp_all add: zero_agg_def)
  then show ?case using Cons by (simp add: o_def)
qed simp

abbreviation finished_rows :: "Queue list \<Rightarrow> Queue list" where
  "finished_rows rows \<equiv> filter (\<lambda>q. q_Status q = StatusReady) rows"

definition in_box :: "int \<Rightarrow> Queue \<Rightarrow> bool" where
  "in_box n q \<longleftrightarrow> \<not> q_IsOverflow q \<and> q_BoxNumber q = n"

lemma add_rows:
  assumes "foldl (add_row price) (t0, s0, b0) rows = (t, sv, bx)"
  shows "ra_cars t = ra_cars t0 + int (length (finished_rows rows))"
    "ra_revenueCents t = ra_revenueCents t0 + sum_list (map (\<lambda>q. bookingPrice q price) (finished_rows rows))"
    "ra_bookedMinutes t = ra_bookedMinutes t0 +
       sum_list (map booked_minutes (filter (\<lambda>q. \<not> q_IsOverflow q) (finished_rows rows)))"
    "(\<Sum>a\<leftarrow>sv. ra_revenueCents (snd a)) = (\<Sum>a\<leftarrow>s0. ra_revenueCents (snd a)) +
       sum_list (map (\<lambda>q. bookingPrice q price) (finished_rows rows))"
    "ra_cars (agg_at bx n) = ra_cars (agg_at b0 n) + int (length (filter (in_box n) (finished_rows rows)))"
    "ra_revenueCents (agg_at bx n) = ra_revenueCents (agg_at b0 n) +
       sum_list (map (\<lambda>q. bookingPrice q price) (filter (in_box n) (finished_rows rows)))"
    "ra_bookedMinutes (agg_at bx n) = ra_bookedMinutes (agg_at b0 n) +
       sum_list (map booked_minutes (filter (in_box n) (finished_rows rows)))"
proof -
  have "ra_cars t = ra_cars t0 + int (length (finished_rows rows)) \<and>
    ra_revenueCents t = ra_revenueCents t0 + sum_list (map (\<lambda>q. bookingPrice q price) (finished_rows rows)) \<and>
    ra_bookedMinutes t = ra_bookedMinutes t0 +
       sum_list (map booked_minutes (filter (\<lambda>q. \<not> q_IsOverflow q) (finished_rows rows))) \<and>
    (\<Sum>a\<leftarrow>sv. ra_revenueCents (snd a)) = (\<Sum>a\<leftarrow>s0. ra_revenueCents (snd a)) +
       sum_list (map (\<lambda>q. bookingPrice q price) (finished_rows rows)) \<and>
    ra_cars (agg_at bx n) = ra_cars (agg_at b0 n) + int (length (filter (in_box n) (finished_rows rows))) \<and>
    ra_revenueCents (agg_at bx n) = ra_revenueCents (agg_at b0 n) +
       sum_list (map (\<lambda>q. bookingPrice q price) (filter (in_box n) (finished_rows rows))) \<and>
    ra_bookedMinutes (agg_at bx n) = ra_bookedMinutes (agg_at b0 n) +
       sum_list (map booked_minutes (filter (in_box n) (finished_rows rows)))"
    using assms
  proof (induction rows arbitrary: t0 s0 b0)
    case (Cons q rows)
    show ?case
    proof (cases "q_Status q = StatusReady")
      case False
      then have "add_row price (t0, s0, b0) q = (t0, s0, b0)" by (simp add: add_row_def)
      with Cons.prems have "foldl (add_row price) (t0, s0, b0) rows = (t, sv, bx)" by simp
      with Cons.IH show ?thesis using False by simp
    next
      case True
      obtain t1 s1 b1 where step: "add_row price (t0, s0, b0) q = (t1, s1, b1)" by (metis prod_cases3)
      with Cons.prems have "foldl (add_row price) (t1, s1, b1) rows = (t, sv, bx)" by simp
      note IH = Cons.IH [OF this]
      from step True
      have one: "ra_cars t1 = ra_cars t0 + 1" "ra_revenueCents t1 = ra_revenueCents t0 + bookingPrice q price"
        "ra_bookedMinutes t1 = ra_bookedMinutes t0 + (if q_IsOverflow q then 0 else booked_minutes q)"
        "s1 = foldl (add_service price) s0 (itemsOf q)"
        "agg_at b1 n = (if in_box n q then \<lparr>ra_cars = ra_cars (agg_at b0 n) + 1,
            ra_revenueCents = ra_revenueCents (agg_at b0 n) + bookingPrice q price,
            ra_bookedMinutes = ra_bookedMinutes (agg_at b0 n) + booked_minutes q\<rparr> else agg_at b0 n)"
        by (auto simp: add_row_def Let_def in_box_def agg_at_bump)
      show ?thesis using IH True
        by (simp add: one add_services_revenue bookingPrice_sum [symmetric])
    qed
  qed simp
  then show "ra_cars t = ra_cars t0 + int (length (finished_rows rows))"
    "ra_revenueCents t = ra_revenueCents t0 + sum_list (map (\<lambda>q. bookingPrice q price) (finished_rows rows))"
    "ra_bookedMinutes t = ra_bookedMinutes t0 +
       sum_list (map booked_minutes (filter (\<lambda>q. \<not> q_IsOverflow q) (finished_rows rows)))"
    "(\<Sum>a\<leftarrow>sv. ra_revenueCents (snd a)) = (\<Sum>a\<leftarrow>s0. ra_revenueCents (snd a)) +
       sum_list (map (\<lambda>q. bookingPrice q price) (finished_rows rows))"
    "ra_cars (agg_at bx n) = ra_cars (agg_at b0 n) + int (length (filter (in_box n) (finished_rows rows)))"
    "ra_revenueCents (agg_at bx n) = ra_revenueCents (agg_at b0 n) +
       sum_list (map (\<lambda>q. bookingPrice q price) (filter (in_box n) (finished_rows rows)))"
    "ra_bookedMinutes (agg_at bx n) = ra_bookedMinutes (agg_at b0 n) +
       sum_list (map booked_minutes (filter (in_box n) (finished_rows rows)))"
    by simp_all
qed

lemmas summarized = add_rows [where ?t0.0 = zero_agg and ?s0.0 = "[]" and ?b0.0 = "[]", folded summarizeReportRows_def]

section \<open>Bars cover the period\<close>

lemma period_span:
  assumes "periodBounds period now = (start, end')"
  obtains k where "start = local_day now * Day - BusinessLocation - k * Day"
    "end' = (local_day now + 1) * Day - BusinessLocation" "0 \<le> k" "k \<le> 30"
    "period = PeriodToday \<Longrightarrow> k = 0"
proof (cases period)
  case PeriodToday
  then show ?thesis using assms that [of 0] by (auto simp: periodBounds_def DayBounds_eq)
next
  case PeriodWeek
  then show ?thesis using assms that [of 6] by (auto simp: periodBounds_def DayBounds_eq AddDate_days_eq)
next
  case PeriodMonth
  obtain y m d where c: "civil_from_days (local_day now) = (y, m, d)" by (metis prod_cases3)
  have "days_from_civil y m 1 = local_day now - (d - 1)"
    using days_from_civil_shift [of y m d "1 - d"] days_civil_inverse(1) [OF c] by simp
  then have "start = local_day now * Day - BusinessLocation - (d - 1) * Day"
    using PeriodMonth assms c by (auto simp: periodBounds_def DayBounds_eq time_Date_def left_diff_distrib)
  then show ?thesis
    using that [of "d - 1"] days_civil_inverse(4,5) [OF c] PeriodMonth assms
    by (auto simp: periodBounds_def DayBounds_eq c)
qed

lemma span_days_eq:
  assumes "0 \<le> t - start" "t - start \<le> 100 * Day"
  shows "span_days start t = (t - start) div Day"
  using truncated_Hours [OF assms] zdiv_zmult2_eq [of 24 "t - start" Hour]
  by (simp add: span_days_def Day_def mult.commute)

definition buckets_of :: "reportPeriod \<Rightarrow> time \<Rightarrow> time \<Rightarrow> (time \<times> int) list" where
  "buckets_of period start end' = (if period = PeriodToday then hourlyBuckets start else dailyBuckets start end')"

lemma fill_times: "map fst (foldl (fill_bucket period start price) buckets rows) = map fst buckets"
proof (induction rows arbitrary: buckets)
  case (Cons q rows)
  have "map fst (fill_bucket period start price buckets q) = map fst buckets"
    by (auto simp: fill_bucket_def Let_def map_update not_less not_le intro!: list_update_same_conv [THEN iffD2])
  with Cons show ?case by simp
qed simp

lemma fill_sum:
  assumes "\<And>q. q \<in> set rows \<Longrightarrow> q_Status q = StatusReady \<Longrightarrow>
    0 \<le> bucketIndex period start (q_ScheduledStartAt q) \<and>
    bucketIndex period start (q_ScheduledStartAt q) < int (length buckets)"
  shows "(\<Sum>b\<leftarrow>foldl (fill_bucket period start price) buckets rows. snd b) =
    (\<Sum>b\<leftarrow>buckets. snd b) + (\<Sum>q\<leftarrow>finished_rows rows. bookingPrice q price)"
  using assms
proof (induction rows arbitrary: buckets)
  case (Cons q rows)
  have len: "length (fill_bucket period start price buckets q) = length buckets"
    by (simp add: fill_bucket_def Let_def)
  have step: "(\<Sum>b\<leftarrow>fill_bucket period start price buckets q. snd b) =
      (\<Sum>b\<leftarrow>buckets. snd b) + (if q_Status q = StatusReady then bookingPrice q price else 0)"
    using Cons.prems [of q] by (auto simp: fill_bucket_def Let_def sum_list_update_int)
  show ?case
    using Cons.IH [of "fill_bucket period start price buckets q"] Cons.prems by (simp add: len step)
qed simp

lemma bucket_in_range:
  assumes "periodBounds period now = (start, end')" "start \<le> t" "t < end'"
  shows "0 \<le> bucketIndex period start t" "bucketIndex period start t < int (length (buckets_of period start end'))"
proof -
  obtain k where k: "start = local_day now * Day - BusinessLocation - k * Day"
      "end' = (local_day now + 1) * Day - BusinessLocation" "0 \<le> k" "k \<le> 30"
    using period_span [OF assms(1)] by metis
  have width: "end' - start = (k + 1) * Day" by (simp add: k(1,2) ring_distribs)
  have "(k + 1) * Day \<le> 31 * Day" using k(4) Day_pos by (intro mult_right_mono) auto
  then have small: "end' - start \<le> 100 * Day" using width Day_pos by linarith
  have "0 \<le> bucketIndex period start t \<and> bucketIndex period start t < int (length (buckets_of period start end'))"
  proof (cases "period = PeriodToday")
    case True
    have "0 \<le> local_Hour t \<and> local_Hour t < 24"
      using local_clock_bounds [of t] by (auto simp: local_Hour_def duration_defs)
    then show ?thesis by (simp add: bucketIndex_def buckets_of_def hourlyBuckets_def True)
  next
    case False
    have "span_days start t = (t - start) div Day" by (rule span_days_eq) (use assms small in auto)
    moreover have "span_days start end' = k + 1"
      using span_days_eq [of end' start] small width k(3) Day_pos by simp
    moreover have "(t - start) div Day < k + 1"
    proof -
      have "(t - start) div Day * Day \<le> t - start" by (simp add: div_times_less_eq_dividend duration_defs)
      then have "(t - start) div Day * Day < (k + 1) * Day" using assms(3) width by linarith
      then show ?thesis using Day_pos by (simp add: mult_less_cancel_right_disj)
    qed
    ultimately show ?thesis
      using False assms(2) Day_pos k(3)
      by (simp add: bucketIndex_def buckets_of_def dailyBuckets_def pos_imp_zdiv_nonneg_iff)
  qed
  then show "0 \<le> bucketIndex period start t" "bucketIndex period start t < int (length (buckets_of period start end'))"
    by simp_all
qed

lemma bars_sum:
  assumes "periodBounds period now = (start, end')"
    and "\<And>q. q \<in> set rows \<Longrightarrow> start \<le> q_ScheduledStartAt q \<and> q_ScheduledStartAt q < end'"
  shows "(\<Sum>b\<leftarrow>reportBars period start end' now rows price. rbr_revenue_cents b) =
    (\<Sum>q\<leftarrow>finished_rows rows. bookingPrice q price)"
proof -
  have "(\<Sum>b\<leftarrow>reportBars period start end' now rows price. rbr_revenue_cents b) =
      (\<Sum>b\<leftarrow>foldl (fill_bucket period start price) (buckets_of period start end') rows. snd b)"
    by (simp add: reportBars_def buckets_of_def Let_def o_def case_prod_unfold)
  also have "\<dots> = (\<Sum>b\<leftarrow>buckets_of period start end'. snd b) + (\<Sum>q\<leftarrow>finished_rows rows. bookingPrice q price)"
    by (rule fill_sum) (use assms bucket_in_range [OF assms(1)] in blast)
  also have "(\<Sum>b\<leftarrow>buckets_of period start end'. snd b) = 0"
    by (simp add: buckets_of_def hourlyBuckets_def dailyBuckets_def o_def)
  finally show ?thesis by simp
qed

section \<open>The figures agree\<close>

text \<open>The bookings a report counts: finished, of the point, starting within the period.\<close>

definition finished :: "WashingPoint \<Rightarrow> reportPeriod \<Rightarrow> time \<Rightarrow> world \<Rightarrow> Queue list" where
  "finished wp period now w =
     filter (\<lambda>q. q_Status q = StatusReady \<and> q_WashingPointID q = wp_ID wp \<and>
       fst (periodBounds period now) \<le> q_ScheduledStartAt q \<and>
       q_ScheduledStartAt q < snd (periodBounds period now)) (w_queue w)"

lemma filter_map_items:
  assumes "\<And>q its. P (q\<lparr>q_Items := its\<rparr>) = P q"
  shows "filter P (map (\<lambda>q. q\<lparr>q_Items := f (q_ID q)\<rparr>) rows) = map (\<lambda>q. q\<lparr>q_Items := f (q_ID q)\<rparr>) (filter P rows)"
  by (induction rows) (simp_all add: assms)

lemma buildReportsResponse_Inr:
  assumes "buildReportsResponse iterate wp period now w = (Inr r, w')"
  obtains rows prevRows services boxes f where
    "r = report_of iterate wp period now rows prevRows services boxes"
    "rows = map (\<lambda>q. q\<lparr>q_Items := f (q_ID q)\<rparr>) (sort_key q_ScheduledStartAt
       (filter (\<lambda>q. q_WashingPointID q = wp_ID wp \<and> q_ScheduledStartAt q \<ge> fst (periodBounds period now) \<and>
         q_ScheduledStartAt q < snd (periodBounds period now)) (w_queue w)))"
    "boxes = sort_key bx_Number (point_boxes (wp_ID wp) w)"
    "\<And>s p. s \<in> set services \<Longrightarrow> p \<in> set (snd s) \<Longrightarrow> p \<in> set (w_options w)"
    "same_tables w w'"
proof -
  obtain start end' where b: "periodBounds period now = (start, end')" by (metis surj_pair)
  obtain ps pe where pb: "previousPeriodBounds start end' = (ps, pe)" by (metis surj_pair)
  obtain rows w1 prevRows w2 services w3 boxes
    where rows: "FindByWashingPointAndRange (wp_ID wp) start end' w = (Inr rows, w1)"
      and prev: "FindByWashingPointAndRange (wp_ID wp) ps pe w1 = (Inr prevRows, w2)"
      and services: "ServiceRepo_ListByWashingPoint (wp_ID wp) w2 = (Inr services, w3)"
      and boxes: "BoxRepo_ListByWashingPoint (wp_ID wp) w3 = (Inr boxes, w')"
      and r: "r = report_of iterate wp period now rows prevRows services boxes"
    using assms unfolding buildReportsResponse_def b pb Let_def prod.case by (auto elim!: bindE_InrE)
  obtain f where f: "rows = map (\<lambda>q. q\<lparr>q_Items := f (q_ID q)\<rparr>) (sort_key q_ScheduledStartAt
       (filter (\<lambda>q. q_WashingPointID q = wp_ID wp \<and> q_ScheduledStartAt q \<ge> start \<and> q_ScheduledStartAt q < end')
         (w_queue w)))" and s1: "same_tables w w1"
    using find_rows_Inr [OF rows [unfolded FindByWashingPointAndRange_def]] by blast
  have s2: "same_tables w1 w2"
    using find_rows_Inr [OF prev [unfolded FindByWashingPointAndRange_def]] by blast
  have opts: "same_tables w2 w3 \<and> (\<forall>s \<in> set services. \<forall>p \<in> set (snd s). p \<in> set (w_options w2))"
    using services unfolding ServiceRepo_ListByWashingPoint_def
    by (auto simp: same_tables_def options_of_def split: if_splits elim!: bindE_InrE query_Inr)
  have "boxes = sort_key bx_Number (point_boxes (wp_ID wp) w3) \<and> same_tables w3 w'"
    using boxes unfolding BoxRepo_ListByWashingPoint_def
    by (auto simp: same_tables_def point_boxes_def elim!: query_Inr)
  moreover have w3: "same_tables w w3" using s1 s2 opts same_tables_trans by blast
  moreover note t = same_tablesD [OF w3] same_tablesD [OF same_tables_trans [OF s1 s2]]
  ultimately show ?thesis
    using that [OF r, of f] f b opts same_tables_trans by (simp add: point_boxes_def)
qed

lemma report_of_figures:
  assumes "r = report_of iterate wp period now rows prevRows services boxes"
    and "mset (iterate (fst (snd (summarizeReportRows rows (price_by_option services))))) =
      mset (fst (snd (summarizeReportRows rows (price_by_option services))))"
  shows "rk_cars (rp_kpis r) = int (length (finished_rows rows))"
    "rk_revenue_cents (rp_kpis r) = (\<Sum>q\<leftarrow>finished_rows rows. bookingPrice q (price_by_option services))"
    "(\<Sum>s\<leftarrow>rp_services r. rs_revenue_cents s) = rk_revenue_cents (rp_kpis r)"
    "map (\<lambda>x. (rx_number x, rx_cars x)) (rp_boxes r) =
       map (\<lambda>b. (bx_Number b, int (length (filter (in_box (bx_Number b)) (finished_rows rows))))) boxes"
    "rp_bars r = reportBars period (fst (periodBounds period now)) (snd (periodBounds period now)) now rows
       (price_by_option services)"
    "set (rp_services r) = service_row (name_by_service services)
       (fst (summarizeReportRows rows (price_by_option services))) `
       set (fst (snd (summarizeReportRows rows (price_by_option services))))"
    "rk_revenue_cents (rp_kpis r) = ra_revenueCents (fst (summarizeReportRows rows (price_by_option services)))"
proof -
  let ?price = "price_by_option services"
  obtain t sv bx where agg: "summarizeReportRows rows ?price = (t, sv, bx)" by (metis prod_cases3)
  note sums = summarized [OF agg]
  have perm: "mset (iterate sv) = mset sv" using assms(2) agg by simp
  note r = assms(1) [unfolded report_of_def agg Let_def]
  show "rk_cars (rp_kpis r) = int (length (finished_rows rows))"
    "rk_revenue_cents (rp_kpis r) = (\<Sum>q\<leftarrow>finished_rows rows. bookingPrice q ?price)"
    "rp_bars r = reportBars period (fst (periodBounds period now)) (snd (periodBounds period now)) now rows ?price"
    "rk_revenue_cents (rp_kpis r) = ra_revenueCents (fst (summarizeReportRows rows ?price))"
    using sums(1,2) by (simp_all add: r agg zero_agg_def case_prod_unfold)
  have services: "rp_services r = sortServiceRowsByRevenueDesc (map (service_row (name_by_service services) t) (iterate sv))"
    by (simp add: r case_prod_unfold)
  have "mset (map rs_revenue_cents (rp_services r)) = mset (map (\<lambda>a. ra_revenueCents (snd a)) sv)"
    unfolding services mset_map sortServiceRows_sort_key mset_sort perm [symmetric]
    by (simp add: service_row_def case_prod_unfold image_mset.compositionality o_def)
  then have "(\<Sum>s\<leftarrow>rp_services r. rs_revenue_cents s) = (\<Sum>a\<leftarrow>sv. ra_revenueCents (snd a))"
    by (metis sum_mset_sum_list)
  then show "(\<Sum>s\<leftarrow>rp_services r. rs_revenue_cents s) = rk_revenue_cents (rp_kpis r)"
    using sums(2,4) by (simp add: r zero_agg_def case_prod_unfold)
  have "set (iterate sv) = set sv" by (metis perm set_mset_mset)
  then show "set (rp_services r) = service_row (name_by_service services)
       (fst (summarizeReportRows rows ?price)) ` set (fst (snd (summarizeReportRows rows ?price)))"
    unfolding services sortServiceRows_sort_key by (simp add: agg)
  have "ra_cars (case map_of bx n of None \<Rightarrow> zero_agg | Some a \<Rightarrow> a) =
      int (length (filter (in_box n) (finished_rows rows)))" for n
    using sums(5) [of n] by (simp add: agg_at_def zero_agg_def)
  then show "map (\<lambda>x. (rx_number x, rx_cars x)) (rp_boxes r) =
      map (\<lambda>b. (bx_Number b, int (length (filter (in_box (bx_Number b)) (finished_rows rows))))) boxes"
    by (simp add: r case_prod_unfold box_row_def Let_def)
qed

lemma int_sum: "int (\<Sum>x\<leftarrow>xs. f x) = (\<Sum>x\<leftarrow>xs. int (f x))"
  by (induction xs) simp_all

text \<open>Every booking is in the row of its box, apart from those outside the boxes.\<close>

definition outside_boxes :: "int list \<Rightarrow> Queue \<Rightarrow> bool" where
  "outside_boxes ns q \<longleftrightarrow> q_IsOverflow q \<or> q_BoxNumber q \<notin> set ns"

lemma length_by_box:
  assumes "distinct ns"
  shows "(\<Sum>n\<leftarrow>ns. length (filter (in_box n) qs)) + length (filter (outside_boxes ns) qs) = length qs"
  using assms
proof (induction ns)
  case Nil
  then show ?case by (simp add: outside_boxes_def)
next
  case (Cons n ns)
  then have "n \<notin> set ns" by simp
  then have "length (filter (outside_boxes ns) qs) =
      length (filter (in_box n) qs) + length (filter (outside_boxes (n # ns)) qs)"
    by (induction qs) (auto simp: outside_boxes_def in_box_def)
  with Cons show ?case by simp
qed

text \<open>
  C10 The figures of a report agree. It counts exactly the finished bookings of the point that start
  within the period; its revenue is the sum of its bars and the sum of its service rows, in whatever
  order the map of services is visited. The row of a box counts exactly the bookings of that box, and
  the rows add up to the total short of the bookings outside the boxes: the overflow bookings and
  those of boxes that no longer exist.
\<close>

theorem report_figures_agree:
  assumes "buildReportsResponse iterate wp period now w = (Inr r, w')" "\<And>xs. mset (iterate xs) = mset xs"
    and "distinct (map bx_Number (point_boxes (wp_ID wp) w))"
  shows "rk_cars (rp_kpis r) = int (length (finished wp period now w)) \<and>
    rk_revenue_cents (rp_kpis r) = (\<Sum>b\<leftarrow>rp_bars r. rbr_revenue_cents b) \<and>
    rk_revenue_cents (rp_kpis r) = (\<Sum>s\<leftarrow>rp_services r. rs_revenue_cents s) \<and>
    map (\<lambda>x. (rx_number x, rx_cars x)) (rp_boxes r) =
      map (\<lambda>b. (bx_Number b, int (length (filter (in_box (bx_Number b)) (finished wp period now w)))))
        (sort_key bx_Number (point_boxes (wp_ID wp) w)) \<and>
    rk_cars (rp_kpis r) = (\<Sum>x\<leftarrow>rp_boxes r. rx_cars x) +
      int (length (filter (outside_boxes (map bx_Number (point_boxes (wp_ID wp) w))) (finished wp period now w)))"
proof -
  obtain rows prevRows services boxes f where
    r: "r = report_of iterate wp period now rows prevRows services boxes"
    and rows: "rows = map (\<lambda>q. q\<lparr>q_Items := f (q_ID q)\<rparr>) (sort_key q_ScheduledStartAt
       (filter (\<lambda>q. q_WashingPointID q = wp_ID wp \<and> q_ScheduledStartAt q \<ge> fst (periodBounds period now) \<and>
         q_ScheduledStartAt q < snd (periodBounds period now)) (w_queue w)))"
    and boxes: "boxes = sort_key bx_Number (point_boxes (wp_ID wp) w)"
    by (rule buildReportsResponse_Inr [OF assms(1)]) blast
  note figures = report_of_figures [OF r assms(2)]
  have "finished_rows rows = map (\<lambda>q. q\<lparr>q_Items := f (q_ID q)\<rparr>) (sort_key q_ScheduledStartAt (finished wp period now w))"
    unfolding rows by (subst filter_map_items) (simp_all add: filter_sort finished_def conj_ac)
  then have len: "length (finished_rows rows) = length (finished wp period now w)"
    "length (filter (in_box n) (finished_rows rows)) = length (filter (in_box n) (finished wp period now w))" for n
    by (simp_all add: filter_map_items in_box_def filter_sort del: filter_filter)
  have "(\<Sum>b\<leftarrow>rp_bars r. rbr_revenue_cents b) = (\<Sum>q\<leftarrow>finished_rows rows. bookingPrice q (price_by_option services))"
    unfolding figures(5)
  proof (rule bars_sum)
    show "periodBounds period now = (fst (periodBounds period now), snd (periodBounds period now))" by simp
    show "fst (periodBounds period now) \<le> q_ScheduledStartAt q \<and> q_ScheduledStartAt q < snd (periodBounds period now)"
      if "q \<in> set rows" for q
      using that by (auto simp: rows)
  qed
  moreover have rows: "map (\<lambda>x. (rx_number x, rx_cars x)) (rp_boxes r) =
      map (\<lambda>b. (bx_Number b, int (length (filter (in_box (bx_Number b)) (finished wp period now w))))) boxes"
    unfolding figures(4) len(2) ..
  moreover have "(\<Sum>x\<leftarrow>rp_boxes r. rx_cars x) +
      int (length (filter (outside_boxes (map bx_Number (point_boxes (wp_ID wp) w))) (finished wp period now w))) =
      int (length (finished wp period now w))"
  proof -
    let ?ns = "map bx_Number boxes" and ?qs = "finished wp period now w"
    have "distinct ?ns" "set ?ns = set (map bx_Number (point_boxes (wp_ID wp) w))"
      using assms(3) by (simp_all add: boxes distinct_map)
    then have "(\<Sum>n\<leftarrow>?ns. length (filter (in_box n) ?qs)) +
        length (filter (outside_boxes (map bx_Number (point_boxes (wp_ID wp) w))) ?qs) = length ?qs"
      using length_by_box [of ?ns ?qs] by (simp add: outside_boxes_def [abs_def])
    moreover have "map rx_cars (rp_boxes r) = map (\<lambda>n. int (length (filter (in_box n) ?qs))) ?ns"
      using arg_cong [OF rows, of "map snd"] by (simp add: o_def)
    then have "(\<Sum>x\<leftarrow>rp_boxes r. rx_cars x) = int (\<Sum>n\<leftarrow>?ns. length (filter (in_box n) ?qs))"
      by (simp only: int_sum)
    ultimately show ?thesis by linarith
  qed
  ultimately show ?thesis using figures(1-3) len(1) boxes by simp
qed

lemma option_prices_nonneg:
  assumes "0 \<le> m k" "\<And>p. p \<in> set ps \<Longrightarrow> 0 \<le> po_PriceCents p"
  shows "0 \<le> foldl (\<lambda>m p. m(po_ID p := po_PriceCents p)) m ps k"
  using assms by (induction ps arbitrary: m) auto

lemma service_prices_nonneg:
  assumes "0 \<le> m k" "\<forall>s \<in> set services. \<forall>p \<in> set (snd s). 0 \<le> po_PriceCents p"
  shows "0 \<le> foldl add_prices m services k"
  using assms
proof (induction services arbitrary: m)
  case (Cons s services)
  have "0 \<le> add_prices m s k"
    using option_prices_nonneg [of m k "snd s"] Cons.prems unfolding add_prices_def by simp
  with Cons show ?case by simp
qed simp

lemma price_by_option_nonneg:
  "\<forall>s \<in> set services. \<forall>p \<in> set (snd s). 0 \<le> po_PriceCents p \<Longrightarrow> 0 \<le> price_by_option services k"
  unfolding price_by_option_def by (rule service_prices_nonneg) simp_all

lemma bump_members:
  "a \<in> set (bump_agg k f m) \<Longrightarrow> a \<in> set m \<or> snd a = f zero_agg \<or> (\<exists>b \<in> set m. snd a = f (snd b))"
  by (induction m) (auto split: if_splits)

lemma add_services_nonneg:
  assumes "\<And>k. 0 \<le> price k" "\<And>a. a \<in> set m \<Longrightarrow> 0 \<le> ra_revenueCents (snd a)" "a \<in> set (foldl (add_service price) m its)"
  shows "0 \<le> ra_revenueCents (snd a)"
  using assms(2,3)
proof (induction its arbitrary: m)
  case (Cons it its)
  have "0 \<le> ra_revenueCents (snd a)" if "a \<in> set (add_service price m it)" for a
  proof -
    have old: "\<forall>b \<in> set m. 0 \<le> ra_revenueCents (snd b)" using Cons.prems(1) by blast
    from bump_members [OF that [unfolded add_service_def]] old assms(1) [of "qi_PriceOptionID it"]
    show ?thesis by (auto simp: zero_agg_def simp del: split_paired_All)
  qed
  then show ?case using Cons.IH [of "add_service price m it"] Cons.prems(2) by simp
qed simp

lemma add_rows_nonneg:
  assumes "\<And>k. 0 \<le> price k" "\<And>a. a \<in> set s0 \<Longrightarrow> 0 \<le> ra_revenueCents (snd a)"
    "a \<in> set (fst (snd (foldl (add_row price) (t0, s0, b0) rows)))"
  shows "0 \<le> ra_revenueCents (snd a)"
  using assms(2,3)
proof (induction rows arbitrary: t0 s0 b0)
  case (Cons q rows)
  obtain t1 s1 b1 where step: "add_row price (t0, s0, b0) q = (t1, s1, b1)" by (metis prod_cases3)
  then have "s1 = s0 \<or> s1 = foldl (add_service price) s0 (itemsOf q)"
    by (auto simp: add_row_def Let_def split: if_splits)
  then have "\<And>a. a \<in> set s1 \<Longrightarrow> 0 \<le> ra_revenueCents (snd a)"
    using Cons.prems(1) add_services_nonneg [where price = price, OF assms(1)] by metis
  from Cons.IH [where ?t0.0 = t1 and ?b0.0 = b1, OF this] Cons.prems(2) step show ?case by simp
qed simp

lemma member_le_sum:
  fixes f :: "'a \<Rightarrow> int"
  shows "(\<And>x. x \<in> set xs \<Longrightarrow> 0 \<le> f x) \<Longrightarrow> x \<in> set xs \<Longrightarrow> f x \<le> (\<Sum>x\<leftarrow>xs. f x)"
proof (induction xs)
  case (Cons y ys)
  have "0 \<le> (\<Sum>x\<leftarrow>ys. f x)" using Cons.prems(1) by (intro sum_list_nonneg) auto
  moreover have "0 \<le> f y" using Cons.prems(1) by simp
  ultimately show ?case using Cons by fastforce
qed simp

text \<open>
  The share of a service is between 0 and 100 percent. For a revenue up to \<open>2^40\<close> it is the exact
  percentage rounded down, except that the floating-point arithmetic may show an exact percentage one
  lower.
\<close>

theorem report_shares:
  assumes "buildReportsResponse iterate wp period now w = (Inr r, w')" "\<And>xs. mset (iterate xs) = mset xs"
    and "\<And>p. p \<in> set (w_options w) \<Longrightarrow> option_row_ok p"
    and "0 < rk_revenue_cents (rp_kpis r)" "rk_revenue_cents (rp_kpis r) \<le> 2 ^ 40"
  shows "\<forall>s \<in> set (rp_services r). 0 \<le> rs_share_pct s \<and> rs_share_pct s \<le> 100 \<and>
    (rs_share_pct s = 100 * rs_revenue_cents s div rk_revenue_cents (rp_kpis r) \<or>
     rk_revenue_cents (rp_kpis r) dvd 100 * rs_revenue_cents s \<and>
     rs_share_pct s = 100 * rs_revenue_cents s div rk_revenue_cents (rp_kpis r) - 1)"
proof
  fix s assume s: "s \<in> set (rp_services r)"
  obtain rows prevRows services boxes where
    r: "r = report_of iterate wp period now rows prevRows services boxes"
    and opts: "\<And>s p. s \<in> set services \<Longrightarrow> p \<in> set (snd s) \<Longrightarrow> p \<in> set (w_options w)"
    by (rule buildReportsResponse_Inr [OF assms(1)]) blast
  note figures = report_of_figures [OF r assms(2)]
  let ?price = "price_by_option services"
  have price: "0 \<le> ?price k" for k
    
    using opts assms(3) unfolding option_row_ok_def by (intro price_by_option_nonneg) blast
  obtain t sv bx where agg: "summarizeReportRows rows ?price = (t, sv, bx)" by (metis prod_cases3)
  have nonneg: "0 \<le> ra_revenueCents (snd a)" if "a \<in> set sv" for a
    
    by (rule add_rows_nonneg [where price = ?price and ?s0.0 = "[]" and ?t0.0 = zero_agg and ?b0.0 = "[]" and rows = rows, OF price])
      (use that agg in \<open>simp_all add: summarizeReportRows_def\<close>)
  have total: "(\<Sum>a\<leftarrow>sv. ra_revenueCents (snd a)) = ra_revenueCents t"
    using summarized(2,4) [OF agg] by (simp add: zero_agg_def)
  have rev: "rk_revenue_cents (rp_kpis r) = ra_revenueCents t" using figures(7) agg by simp
  obtain a where a: "a \<in> set sv" "s = service_row (name_by_service services) t a"
    using s figures(6) agg by auto
  have le: "ra_revenueCents (snd a) \<le> ra_revenueCents t"
    using member_le_sum [of sv "\<lambda>a. ra_revenueCents (snd a)" a] nonneg a(1) total by simp
  have fields: "rs_revenue_cents s = ra_revenueCents (snd a)"
    "rs_share_pct s = float_percent (ra_revenueCents (snd a)) (ra_revenueCents t)"
    using a(2) assms(4) rev by (simp_all add: service_row_def case_prod_unfold percentInt_def)
  note ok = nonneg [OF a(1)] le assms(4,5) [unfolded rev]
  show "0 \<le> rs_share_pct s \<and> rs_share_pct s \<le> 100 \<and>
      (rs_share_pct s = 100 * rs_revenue_cents s div rk_revenue_cents (rp_kpis r) \<or>
       rk_revenue_cents (rp_kpis r) dvd 100 * rs_revenue_cents s \<and>
       rs_share_pct s = 100 * rs_revenue_cents s div rk_revenue_cents (rp_kpis r) - 1)"
    using float_percent_bounds [OF ok] float_percent_near [OF ok] unfolding rev fields by blast
qed

section \<open>The highlighted bar\<close>

lemma sameDay_iff: "sameDay a b \<longleftrightarrow> local_day a = local_day b"
proof -
  have "m = n" if "civil_from_days m = civil_from_days n" for m n
    using days_civil_inverse(1) [of m] days_civil_inverse(1) [of n] that
    by (cases "civil_from_days m" rule: prod_cases3) metis
  then show ?thesis by (auto simp: sameDay_def)
qed

text \<open>The highlighted bar of a report is the one whose hour or day contains the current instant.\<close>

theorem report_highlight:
  assumes "buildReportsResponse iterate wp period now w = (Inr r, w')"
  defines "width \<equiv> if period = PeriodToday then Hour else Day"
  shows "(\<forall>b \<in> set (rp_bars r). rbr_highlighted b \<longleftrightarrow> rbr_timestamp b \<le> now \<and> now < rbr_timestamp b + width) \<and>
    length (filter rbr_highlighted (rp_bars r)) = 1"
proof -
  obtain rows prevRows services boxes where r: "r = report_of iterate wp period now rows prevRows services boxes"
    by (rule buildReportsResponse_Inr [OF assms(1)]) blast
  obtain start end' where b: "periodBounds period now = (start, end')" by (metis surj_pair)
  obtain k where k: "start = local_day now * Day - BusinessLocation - k * Day"
      "end' = (local_day now + 1) * Day - BusinessLocation" "0 \<le> k" "k \<le> 30" "period = PeriodToday \<Longrightarrow> k = 0"
    using period_span [OF b] by metis
  define filled where "filled = foldl (fill_bucket period start (price_by_option services)) (buckets_of period start end') rows"
  define lit where "lit ts \<longleftrightarrow> (if period = PeriodToday then local_Hour ts = local_Hour now \<and> sameDay ts now else sameDay ts now)" for ts
  have bars: "rp_bars r = map (\<lambda>p. \<lparr>rbr_timestamp = fst p, rbr_revenue_cents = snd p, rbr_highlighted = lit (fst p)\<rparr>) filled"
    by (simp add: r report_of_def b reportBars_def filled_def buckets_of_def lit_def Let_def case_prod_unfold)
  have times: "map fst filled = map fst (buckets_of period start end')" unfolding filled_def by (rule fill_times)
  define n :: nat where "n = (if period = PeriodToday then 24 else nat (k + 1))"
  define i0 :: int where "i0 = (if period = PeriodToday then local_Hour now else k)"
  have "end' - start = (k + 1) * Day" by (simp add: k(1,2) ring_distribs)
  moreover have "(k + 1) * Day \<le> 31 * Day" using k(4) Day_pos by (intro mult_right_mono) auto
  ultimately have "span_days start end' = k + 1"
    using span_days_eq [of end' start] k(3) Day_pos by simp
  then have buckets: "map fst (buckets_of period start end') = map (\<lambda>i. start + int i * width) [0..<n]"
    by (simp add: buckets_of_def hourlyBuckets_def dailyBuckets_def n_def width_def AddDate_days_eq o_def)
  have now: "now = local_day now * Day - BusinessLocation + local_clock now" using local_split [of now] by simp
  note clock = local_clock_bounds [of now]
  have hour: "local_Hour now * Hour \<le> local_clock now" "local_clock now < (local_Hour now + 1) * Hour"
    "0 \<le> local_Hour now" "local_Hour now < 24"
    using clock by (auto simp: local_Hour_def duration_defs)
  have i0: "0 \<le> i0" "i0 < int n" using hour k by (auto simp: i0_def n_def)
  have bar: "lit (start + int i * width) \<longleftrightarrow> int i = i0"
    "start + int i * width \<le> now \<and> now < start + int i * width + width \<longleftrightarrow> int i = i0" if "i < n" for i
  proof -
    show "lit (start + int i * width) \<longleftrightarrow> int i = i0"
    proof (cases "period = PeriodToday")
      case True
      have c: "0 \<le> int i * Hour" "int i * Hour < Day" using that True by (auto simp: n_def duration_defs)
      have "start + int i * width = local_day now * Day + int i * Hour - BusinessLocation"
        using True k by (simp add: width_def)
      then show ?thesis using local_day_of_clock [OF c, of "local_day now"] True
        by (auto simp: lit_def sameDay_iff i0_def local_Hour_def duration_defs)
    next
      case False
      have "start + int i * width = (local_day now - k + int i) * Day + 0 - BusinessLocation"
        using False k by (simp add: width_def algebra_simps)
      then have "local_day (start + int i * width) = local_day now - k + int i"
        using local_day_of_clock(1) [of 0 "local_day now - k + int i"] Day_pos by simp
      then show ?thesis using False by (auto simp: lit_def sameDay_iff i0_def)
    qed
    show "start + int i * width \<le> now \<and> now < start + int i * width + width \<longleftrightarrow> int i = i0"
    proof (cases "period = PeriodToday")
      case True
      then show ?thesis using now k hour by (auto simp: width_def i0_def duration_defs)
    next
      case False
      then show ?thesis using now k clock by (auto simp: width_def i0_def duration_defs)
    qed
  qed
  have members: "b \<in> set (rp_bars r) \<Longrightarrow> \<exists>i<n. rbr_timestamp b = start + int i * width \<and> rbr_highlighted b = lit (rbr_timestamp b)" for b
  proof -
    assume "b \<in> set (rp_bars r)"
    then obtain p where p: "p \<in> set filled" "rbr_timestamp b = fst p" "rbr_highlighted b = lit (fst p)"
      unfolding bars by auto
    have "fst p \<in> set (map fst filled)" using p(1) by simp
    then show ?thesis using p(2,3) unfolding times buckets by auto
  qed
  have "filter rbr_highlighted (rp_bars r) = map (\<lambda>p. \<lparr>rbr_timestamp = fst p, rbr_revenue_cents = snd p, rbr_highlighted = lit (fst p)\<rparr>)
      (filter (\<lambda>p. lit (fst p)) filled)"
    unfolding bars by (simp add: filter_map o_def)
  then have "length (filter rbr_highlighted (rp_bars r)) = length (filter lit (map fst filled))"
    by (simp add: filter_map o_def)
  also have "\<dots> = card {i. i < n \<and> lit (start + int i * width)}"
    unfolding times buckets length_filter_conv_card by (rule arg_cong [where f = card]) auto
  also have "{i. i < n \<and> lit (start + int i * width)} = {nat i0}" using bar(1) i0 bar(1) [of "nat i0"] by auto
  finally have one: "length (filter rbr_highlighted (rp_bars r)) = 1" by simp
  show ?thesis
  proof
    show "\<forall>b \<in> set (rp_bars r). rbr_highlighted b \<longleftrightarrow> rbr_timestamp b \<le> now \<and> now < rbr_timestamp b + width"
      using members bar by metis
  qed (rule one)
qed

section \<open>A day with two services\<close>

definition report_point :: WashingPoint where
  "report_point = \<lparr>wp_ID = 1, wp_OwnerID = None, wp_Name = ''Moika'', wp_Address = ''Somoni 1'', wp_Latitude = 0,
     wp_Longitude = 0, wp_BoxesCount = 1, wp_OpenTime = ''08:00'', wp_CloseTime = ''20:00'', wp_Status = WpActive,
     wp_Description = None, wp_Amenities = [], wp_CreatedAt = 0\<rparr>"

definition report_service :: "uuid \<Rightarrow> Service" where
  "report_service k = \<lparr>sv_ID = k, sv_WashingPointID = 1, sv_Name = ''Wash'', sv_Description = None,
     sv_DurationMinutes = 30, sv_QueueMinutes = None, sv_PictureURL = None, sv_IsActive = True, sv_CreatedAt = 0\<rparr>"

definition report_option :: "uuid \<Rightarrow> uuid \<Rightarrow> int \<Rightarrow> ServicePriceOption" where
  "report_option k sid cents = \<lparr>po_ID = k, po_ServiceID = sid, po_Name = ''Sedan'', po_PriceCents = cents,
     po_IsDefault = True, po_CreatedAt = 0\<rparr>"

definition report_booking :: "uuid \<Rightarrow> uuid \<Rightarrow> uuid \<Rightarrow> time \<Rightarrow> Queue" where
  "report_booking k sid oid start = \<lparr>q_ID = k, q_Status = StatusReady, q_UserID = 9, q_CarID = None, q_ServiceID = sid,
     q_PriceOptionID = oid, q_WashingPointID = 1, q_BoxNumber = 1, q_IsOverflow = False, q_ScheduledStartAt = start,
     q_ScheduledEndAt = start + 30 * Minute, q_Notes = None, q_Source = SourceApp, q_CanceledAt = None,
     q_PausedAt = None, q_CreatedAt = 0, q_Items = []\<rparr>"

definition report_world :: world where
  "report_world = (empty_world (5 * Hour))\<lparr>w_points := [report_point],
     w_services := [report_service 2, report_service 3],
     w_options := [report_option 4 2 7100, report_option 5 3 2900],
     w_boxes := [\<lparr>bx_ID = 6, bx_WashingPointID = 1, bx_Number = 1, bx_Label = None, bx_IsOpen = True\<rparr>],
     w_queue := [report_booking 7 2 4 (3 * Hour), report_booking 8 3 5 (4 * Hour)], w_next := 10\<rparr>"

lemma report_steps:
  "periodBounds PeriodToday (5 * Hour) = (-5 * Hour, 19 * Hour)"
  "previousPeriodBounds (-5 * Hour) (19 * Hour) = (-29 * Hour, -5 * Hour)"
  "FindByWashingPointAndRange 1 (-5 * Hour) (19 * Hour) report_world =
     (Inr [report_booking 7 2 4 (3 * Hour), report_booking 8 3 5 (4 * Hour)], report_world)"
  "FindByWashingPointAndRange 1 (-29 * Hour) (-5 * Hour) report_world = (Inr [], report_world)"
  "ServiceRepo_ListByWashingPoint 1 report_world =
     (Inr [(report_service 2, [report_option 4 2 7100]), (report_service 3, [report_option 5 3 2900])], report_world)"
  "BoxRepo_ListByWashingPoint 1 report_world = (Inr (w_boxes report_world), report_world)"
       apply code_simp
      apply code_simp
     apply code_simp
    apply code_simp
   apply code_simp
  apply code_simp
  done

lemma report_run:
  "buildReportsResponse iterate report_point PeriodToday (5 * Hour) report_world =
     (Inr (report_of iterate report_point PeriodToday (5 * Hour)
        [report_booking 7 2 4 (3 * Hour), report_booking 8 3 5 (4 * Hour)] []
        [(report_service 2, [report_option 4 2 7100]), (report_service 3, [report_option 5 3 2900])]
        (w_boxes report_world)), report_world)"
proof -
  have "wp_ID report_point = 1" by (simp add: report_point_def)
  then show ?thesis
    by (simp only: buildReportsResponse_def report_steps bindE_def Let_def prod.case sum.case return_ok_apply)
qed

lemma report_run_revenue:
  assumes "r = report_of (\<lambda>xs. xs) report_point PeriodToday (5 * Hour)
        [report_booking 7 2 4 (3 * Hour), report_booking 8 3 5 (4 * Hour)] []
        [(report_service 2, [report_option 4 2 7100]), (report_service 3, [report_option 5 3 2900])]
        (w_boxes report_world)"
  shows "rk_revenue_cents (rp_kpis r) = 10000" "rk_cars (rp_kpis r) = 2"
  unfolding report_of_figures(1,2) [OF assms refl]
  by (simp_all add: report_booking_def bookingPrice_def itemsOf_def price_by_option_def add_prices_def report_option_def)

theorem report_figures_agree_witness:
  "\<exists>r. buildReportsResponse rev report_point PeriodToday (5 * Hour) report_world = (Inr r, report_world) \<and>
     rk_cars (rp_kpis r) = 2 \<and> rk_revenue_cents (rp_kpis r) = (\<Sum>b\<leftarrow>rp_bars r. rbr_revenue_cents b)"
proof -
  have "length (finished report_point PeriodToday (5 * Hour) report_world) = 2"
    "distinct (map bx_Number (point_boxes (wp_ID report_point) report_world))" by code_simp+
  with report_figures_agree [OF report_run, of rev] show ?thesis using report_run [of rev] by auto
qed

theorem report_shares_witness:
  "\<exists>r. buildReportsResponse (\<lambda>xs. xs) report_point PeriodToday (5 * Hour) report_world = (Inr r, report_world) \<and>
     rk_revenue_cents (rp_kpis r) = 10000 \<and> (\<forall>s \<in> set (rp_services r). 0 \<le> rs_share_pct s \<and> rs_share_pct s \<le> 100)"
proof -
  have ok: "\<And>p. p \<in> set (w_options report_world) \<Longrightarrow> option_row_ok p"
    by (auto simp: report_world_def report_option_def option_row_ok_def varchar_def rune_count_def int4_def)
  note revenue = report_run_revenue(1) [OF refl]
  from report_shares [OF report_run [of "\<lambda>xs. xs"] refl ok] revenue report_run [of "\<lambda>xs. xs"] show ?thesis by auto
qed

theorem report_highlight_witness:
  "\<exists>r. buildReportsResponse (\<lambda>xs. xs) report_point PeriodToday (5 * Hour) report_world = (Inr r, report_world) \<and>
     length (filter rbr_highlighted (rp_bars r)) = 1"
  using report_highlight [OF report_run [of "\<lambda>xs. xs"]] report_run [of "\<lambda>xs. xs"] by blast
end
