(* ===== verification/QRCodes.thy ===== *)
theory QRCodes
  imports QueueRepo WpRepo Platform Endpoints GoStrings Float64
begin

text \<open>
  \<open>internal/qrcode\<close>: the pool of printed stickers, their assignment to washing points, the public
  scan endpoint and the scan statistics. The random source of the tokens is the parameter \<open>draw\<close>:
  \<open>draw k\<close> are the sixteen bytes read for the code whose identifier will be \<open>k\<close>, or \<open>None\<close> when the
  source fails. Links are given by the identifier of the point they lead to.
\<close>

section \<open>Sticker numbers and tokens\<close>

definition Code :: "QRCode \<Rightarrow> string" where
  "Code c = ''QW-'' @ pad_zeros 4 (nat (qr_Seq c))"

definition ParseCode :: "string \<Rightarrow> int option" where
  "ParseCode code =
     (let trimmed = TrimSpace code;
          t1 = TrimPrefix (ToUpper trimmed) ''QW-'';
          t2 = TrimPrefix t1 ''QW''
      in ParseInt (dropWhile (\<lambda>c. c = CHR ''-'' \<or> c = CHR '' '') t2))"

definition base64_char :: "nat \<Rightarrow> char" where
  "base64_char n = ''ABCDEFGHIJKLMNOPQRSTUVWXYZabcdefghijklmnopqrstuvwxyz0123456789-_'' ! n"

fun RawURLEncoding :: "nat list \<Rightarrow> string" where
  "RawURLEncoding (a # b # c # rest) =
     [base64_char (a div 4), base64_char (a mod 4 * 16 + b div 16), base64_char (b mod 16 * 4 + c div 64),
      base64_char (c mod 64)] @ RawURLEncoding rest"
| "RawURLEncoding [a, b] = [base64_char (a div 4), base64_char (a mod 4 * 16 + b div 16), base64_char (b mod 16 * 4)]"
| "RawURLEncoding [a] = [base64_char (a div 4), base64_char (a mod 4 * 16)]"
| "RawURLEncoding [] = []"

definition generateToken :: "nat list option \<Rightarrow> string option" where
  "generateToken bytes = map_option RawURLEncoding bytes"

section \<open>Repository\<close>

definition QrRepo_List :: "qr_status option \<Rightarrow> QRCode list db" where
  "QrRepo_List status =
     query (\<lambda>w. filter (\<lambda>c. case status of None \<Rightarrow> True | Some st \<Rightarrow> qr_Status c = st) (sort_key qr_Seq (w_qrcodes w)))"

definition QrRepo_FindByID :: "uuid \<Rightarrow> QRCode db" where
  "QrRepo_FindByID k = first_or (NotFound ''qr_code_not_found'') (\<lambda>w. find_row qr_ID k (w_qrcodes w))"

definition FindByToken :: "string \<Rightarrow> QRCode db" where
  "FindByToken token =
     first_or (NotFound ''qr_code_not_found'') (\<lambda>w. find_row qr_Token token (sort_key qr_ID (w_qrcodes w)))"

definition FindByWashingPointID :: "uuid \<Rightarrow> QRCode db" where
  "FindByWashingPointID pid =
     first_or (NotFound ''qr_code_not_found'') (\<lambda>w. find_row qr_WashingPointID (Some pid) (sort_key qr_ID (w_qrcodes w)))"

text \<open>The constraints: unique numbers, tokens and points, a label of at most 255 characters, an existing point.\<close>

definition qr_clash :: "QRCode \<Rightarrow> QRCode \<Rightarrow> bool" where
  "qr_clash c r \<longleftrightarrow> qr_Seq c = qr_Seq r \<or> qr_Token c = qr_Token r \<or>
     qr_WashingPointID c \<noteq> None \<and> qr_WashingPointID c = qr_WashingPointID r"

definition qr_row_ok :: "QRCode \<Rightarrow> world \<Rightarrow> bool" where
  "qr_row_ok c w \<longleftrightarrow> rune_count (qr_BatchLabel c) \<le> 255 \<and>
     (case qr_WashingPointID c of None \<Rightarrow> True | Some p \<Rightarrow> p \<in> wp_ID ` set (w_points w)) \<and>
     (\<forall>r \<in> set (w_qrcodes w). qr_ID r \<noteq> qr_ID c \<longrightarrow> \<not> qr_clash c r)"

definition batch_rows :: "QRCode list \<Rightarrow> world \<Rightarrow> QRCode list" where
  "batch_rows codes w =
     map (\<lambda>(i, c). c\<lparr>qr_ID := w_next w + i, qr_Seq := w_seq w + int i, qr_CreatedAt := w_now w\<rparr>)
       (enumerate 0 codes)"

definition CreateBatch :: "QRCode list \<Rightarrow> QRCode list db" where
  "CreateBatch codes =
     statement (\<lambda>w.
       let rows = batch_rows codes w; n = length codes;
           w' = w\<lparr>w_next := w_next w + n, w_seq := w_seq w + int n\<rparr>
       in if (\<forall>c \<in> set rows. qr_row_ok c w) \<and> distinct (map qr_Token rows)
          then (Inr rows, w'\<lparr>w_qrcodes := w_qrcodes w @ rows\<rparr>)
          else (Inl Internal, w'))"

definition QrRepo_Update :: "QRCode \<Rightarrow> unit db" where
  "QrRepo_Update c =
     statement (bindE (reads (qr_row_ok c)) (\<lambda>ok. bindE (require ok Internal) (\<lambda>_.
       writes (\<lambda>w. w\<lparr>w_qrcodes := update_where (\<lambda>r. qr_ID r = qr_ID c) (\<lambda>_. c) (w_qrcodes w)\<rparr>))))"

definition CreateScan :: "uuid \<Rightarrow> unit db" where
  "CreateScan k =
     bindE time_Now (\<lambda>now.
     statement (bindE fresh_id (\<lambda>i.
       bindE (reads (\<lambda>w. k \<in> qr_ID ` set (w_qrcodes w))) (\<lambda>known.
       bindE (require known Internal) (\<lambda>_.
       writes (\<lambda>w. w\<lparr>w_scans := w_scans w @ [\<lparr>scan_ID = i, scan_QRCodeID = k, scan_ScannedAt = now\<rparr>]\<rparr>))))))"

definition scans_since :: "uuid \<Rightarrow> time \<Rightarrow> world \<Rightarrow> QRScan list" where
  "scans_since k since w = filter (\<lambda>s. scan_QRCodeID s = k \<and> since \<le> scan_ScannedAt s) (w_scans w)"

definition CountScans :: "uuid \<Rightarrow> time \<Rightarrow> nat db" where
  "CountScans k since = query (\<lambda>w. length (scans_since k since w))"

definition ScanTimesSince :: "uuid \<Rightarrow> time \<Rightarrow> time list db" where
  "ScanTimesSince k since = query (\<lambda>w. map scan_ScannedAt (sort_key scan_ScannedAt (scans_since k since w)))"

section \<open>Manager\<close>

definition bookingAttributionWindow :: duration where
  "bookingAttributionWindow = 30 * Minute"

definition new_code :: "string \<Rightarrow> string \<Rightarrow> QRCode" where
  "new_code token batchLabel =
     \<lparr>qr_ID = uuid_Nil, qr_Seq = 0, qr_Token = token, qr_BatchLabel = batchLabel, qr_Status = QrFree,
      qr_WashingPointID = None, qr_AssignedAt = None, qr_DisabledAt = None, qr_ReplacementRequestedAt = None,
      qr_CreatedAt = ZeroTime\<rparr>"

definition draw_token :: "(uuid \<Rightarrow> nat list option) \<Rightarrow> nat \<Rightarrow> string db" where
  "draw_token draw i =
     bindE (reads w_next) (\<lambda>k.
     case generateToken (draw (k + i)) of None \<Rightarrow> fail_with Internal | Some t \<Rightarrow> return_ok t)"

definition GenerateBatch :: "(uuid \<Rightarrow> nat list option) \<Rightarrow> int \<Rightarrow> string \<Rightarrow> QRCode list db" where
  "GenerateBatch draw num batchLabel =
     bindE (require (\<not> (num < 1 \<or> num > 500)) (BadRequest ''invalid_count'')) (\<lambda>_.
     bindE (mapE (\<lambda>i. bindE (draw_token draw i) (\<lambda>token. return_ok (new_code token batchLabel))) [0..<nat num]) (\<lambda>codes.
     CreateBatch codes))"

definition released :: "QRCode \<Rightarrow> QRCode" where
  "released c = c\<lparr>qr_Status := QrFree, qr_WashingPointID := None, qr_AssignedAt := None, qr_ReplacementRequestedAt := None\<rparr>"

definition assigned_to :: "uuid \<Rightarrow> time \<Rightarrow> QRCode \<Rightarrow> QRCode" where
  "assigned_to pid now c =
     c\<lparr>qr_Status := QrAssigned, qr_WashingPointID := Some pid, qr_AssignedAt := Some now, qr_ReplacementRequestedAt := None\<rparr>"

text \<open>The code now at the point; not finding one is not an error.\<close>

definition existing_code :: "uuid \<Rightarrow> QRCode option db" where
  "existing_code pid =
     catchE (bindE (FindByWashingPointID pid) (\<lambda>e. return_ok (Some e)))
       (\<lambda>err. if err_status err \<noteq> 404 then fail_with err else return_ok None)"

definition Assign :: "uuid \<Rightarrow> uuid \<Rightarrow> QRCode db" where
  "Assign qrCodeID pid =
     bindE (QrRepo_FindByID qrCodeID) (\<lambda>c.
     bindE (require (qr_Status c \<noteq> QrDisabled) (Conflict ''qr_code_disabled'')) (\<lambda>_.
     bindE (WpRepo_FindByID pid) (\<lambda>_.
     bindE (existing_code pid) (\<lambda>existing.
     bindE (case existing of
              None \<Rightarrow> return_ok ()
            | Some e \<Rightarrow> if qr_ID e \<noteq> qr_ID c then QrRepo_Update (released e) else return_ok ()) (\<lambda>_.
     bindE time_Now (\<lambda>now.
     let c' = assigned_to pid now c
     in bindE (QrRepo_Update c') (\<lambda>_. return_ok c')))))))"

definition Unassign :: "uuid \<Rightarrow> QRCode db" where
  "Unassign qrCodeID =
     bindE (QrRepo_FindByID qrCodeID) (\<lambda>c.
     let c' = released c in bindE (QrRepo_Update c') (\<lambda>_. return_ok c'))"

definition Disable :: "uuid \<Rightarrow> QRCode db" where
  "Disable qrCodeID =
     bindE (QrRepo_FindByID qrCodeID) (\<lambda>c.
     bindE time_Now (\<lambda>now.
     let c' = c\<lparr>qr_Status := QrDisabled, qr_WashingPointID := None, qr_DisabledAt := Some now\<rparr>
     in bindE (QrRepo_Update c') (\<lambda>_. return_ok c')))"

definition RequestReplacement :: "uuid \<Rightarrow> QRCode db" where
  "RequestReplacement qrCodeID =
     bindE (QrRepo_FindByID qrCodeID) (\<lambda>c.
     bindE (require (qr_Status c = QrAssigned) (Conflict ''qr_code_not_assigned'')) (\<lambda>_.
     bindE time_Now (\<lambda>now.
     let c' = c\<lparr>qr_ReplacementRequestedAt := Some now\<rparr>
     in bindE (QrRepo_Update c') (\<lambda>_. return_ok c'))))"

section \<open>Statistics\<close>

record DayCount =
  dc_Date :: string
  dc_Count :: int

record Stats =
  st_ScansToday :: int
  st_Scans7d :: int
  st_ScansByDay :: "DayCount list"
  st_BookingsViaQR :: int

definition format_date :: "time \<Rightarrow> string" where
  "format_date t =
     (let (y, m, d) = civil_from_days (local_day t)
      in pad_zeros 4 (nat y) @ ''-'' @ pad_zeros 2 (nat m) @ ''-'' @ pad_zeros 2 (nat d))"

definition day_index :: "time \<Rightarrow> time \<Rightarrow> int" where
  "day_index sevenDaysAgo t = truncate_float (fl (Hours (t - sevenDaysAgo) / 24))"

definition count_day :: "time \<Rightarrow> DayCount list \<Rightarrow> time \<Rightarrow> DayCount list" where
  "count_day sevenDaysAgo byDay t =
     (let idx = day_index sevenDaysAgo t
      in if 0 \<le> idx \<and> idx < 7
         then byDay[nat idx := (byDay ! nat idx)\<lparr>dc_Count := dc_Count (byDay ! nat idx) + 1\<rparr>]
         else byDay)"

definition empty_days :: "time \<Rightarrow> DayCount list" where
  "empty_days sevenDaysAgo = map (\<lambda>i. \<lparr>dc_Date = format_date (AddDate_days sevenDaysAgo (int i)), dc_Count = 0\<rparr>) [0..<7]"

definition code_stats :: "QRCode \<Rightarrow> Stats db" where
  "code_stats c =
     bindE time_Now (\<lambda>now.
     let dayStart = fst (DayBounds now); sevenDaysAgo = AddDate_days dayStart (- 6)
     in bindE (CountScans (qr_ID c) dayStart) (\<lambda>scansToday.
        bindE (CountScans (qr_ID c) sevenDaysAgo) (\<lambda>scans7d.
        bindE (ScanTimesSince (qr_ID c) sevenDaysAgo) (\<lambda>scanTimes.
        let byDay = foldl (count_day sevenDaysAgo) (empty_days sevenDaysAgo) scanTimes
        in bindE (case qr_WashingPointID c of
                    Some pid \<Rightarrow>
                      if length scanTimes > 0 then CountCreatedNearTimes pid scanTimes bookingAttributionWindow
                      else return_ok 0
                  | None \<Rightarrow> return_ok 0) (\<lambda>bookingsViaQR.
           return_ok \<lparr>st_ScansToday = int scansToday, st_Scans7d = int scans7d, st_ScansByDay = byDay,
             st_BookingsViaQR = int bookingsViaQR\<rparr>)))))"

section \<open>Handlers\<close>

record qr_response =
  qrr_id :: uuid
  qrr_code :: string
  qrr_token :: string
  qrr_status :: string
  qrr_batch_label :: string
  qrr_washing_point_id :: "uuid option"
  qrr_washing_point_name :: "string option"
  qrr_assigned_at :: "time option"
  qrr_disabled_at :: "time option"
  qrr_replacement_requested_at :: "time option"
  qrr_created_at :: time
  qrr_stats :: "Stats option"

definition qr_status_string :: "qr_status \<Rightarrow> string" where
  "qr_status_string st = (case st of QrFree \<Rightarrow> ''free'' | QrAssigned \<Rightarrow> ''assigned'' | QrDisabled \<Rightarrow> ''disabled'')"

definition qr_toResponse :: "QRCode \<Rightarrow> string option \<Rightarrow> Stats option \<Rightarrow> qr_response" where
  "qr_toResponse c wpName stats =
     \<lparr>qrr_id = qr_ID c, qrr_code = Code c, qrr_token = qr_Token c, qrr_status = qr_status_string (qr_Status c),
      qrr_batch_label = qr_BatchLabel c, qrr_washing_point_id = qr_WashingPointID c,
      qrr_washing_point_name = (if qr_WashingPointID c = None then None else wpName),
      qrr_assigned_at = qr_AssignedAt c, qrr_disabled_at = qr_DisabledAt c,
      qrr_replacement_requested_at = qr_ReplacementRequestedAt c, qrr_created_at = qr_CreatedAt c,
      qrr_stats = stats\<rparr>"

definition detail :: "QRCode \<Rightarrow> qr_response db" where
  "detail c =
     bindE (case qr_WashingPointID c of
              None \<Rightarrow> return_ok None
            | Some pid \<Rightarrow> bindE (WpRepo_FindByID pid) (\<lambda>wp. return_ok (Some (wp_Name wp)))) (\<lambda>wpName.
     bindE (code_stats c) (\<lambda>stats.
     return_ok (qr_toResponse c wpName (Some stats))))"

record generate_request =
  gr_Count :: int
  gr_BatchLabel :: string

definition qr_generate :: "(uuid \<Rightarrow> nat list option) \<Rightarrow> apperror + generate_request \<Rightarrow> qr_response list db" where
  "qr_generate draw body =
     bindE (lift_result body) (\<lambda>req.
     let batchLabel = TrimSpace (gr_BatchLabel req)
     in bindE (require (\<not> (batchLabel = [] \<or> length batchLabel > 255)) (BadRequest ''invalid_batch_label'')) (\<lambda>_.
        bindE (GenerateBatch draw (gr_Count req) batchLabel) (\<lambda>codes.
        return_ok (map (\<lambda>c. qr_toResponse c None None) codes))))"

record poolStats =
  ps_Total :: int
  ps_Free :: int
  ps_Assigned :: int
  ps_Disabled :: int

definition pool_stats :: "QRCode list \<Rightarrow> poolStats" where
  "pool_stats all =
     (let num = (\<lambda>st. int (length (filter (\<lambda>c. qr_Status c = st) all)))
      in \<lparr>ps_Total = int (length all), ps_Free = num QrFree, ps_Assigned = num QrAssigned,
          ps_Disabled = num QrDisabled\<rparr>)"

text \<open>\<open>strings.Contains\<close>.\<close>

definition Contains_str :: "string \<Rightarrow> string \<Rightarrow> bool" where
  "Contains_str s sub \<longleftrightarrow> list_ex (\<lambda>i. HasPrefix (drop i s) sub) [0..<Suc (length s)]"

text \<open>
  \<open>strings.ToUpper\<close> of the search text, as far as a code or token can contain it: besides ASCII, the
  dotless i (C4 B1) and the long s (C5 BF) have ASCII capitals, every other character stays outside ASCII.
\<close>

fun search_upper :: "string \<Rightarrow> string" where
  "search_upper (a # b # cs) =
     (if a = CHR 0xC4 \<and> b = CHR 0xB1 then CHR ''I'' # search_upper cs
      else if a = CHR 0xC5 \<and> b = CHR 0xBF then CHR ''S'' # search_upper cs
      else upper_char a # search_upper (b # cs))"
| "search_upper [a] = [upper_char a]"
| "search_upper [] = []"

definition qr_matches :: "qr_status option \<Rightarrow> string \<Rightarrow> QRCode \<Rightarrow> bool" where
  "qr_matches statusFilter search c \<longleftrightarrow>
     \<not> (statusFilter \<noteq> None \<and> statusFilter \<noteq> Some (qr_Status c)) \<and>
     \<not> (search \<noteq> [] \<and> \<not> Contains_str (ToUpper (Code c)) search \<and> \<not> Contains_str (ToUpper (qr_Token c)) search)"

text \<open>One row of the listing; \<open>names\<close> is the cache of point names.\<close>

definition list_row ::
  "qr_status option \<Rightarrow> string \<Rightarrow> (uuid \<times> string) list \<times> qr_response list \<Rightarrow> QRCode \<Rightarrow>
   ((uuid \<times> string) list \<times> qr_response list) db" where
  "list_row statusFilter search acc c =
     (case acc of (names, items) \<Rightarrow>
        if \<not> qr_matches statusFilter search c then return_ok (names, items)
        else case qr_WashingPointID c of
               None \<Rightarrow> return_ok (names, items @ [qr_toResponse c None None])
             | Some pid \<Rightarrow>
                 (case map_of names pid of
                    Some name \<Rightarrow> return_ok (names, items @ [qr_toResponse c (Some name) None])
                  | None \<Rightarrow> bindE (WpRepo_FindByID pid) (\<lambda>wp.
                      return_ok ((pid, wp_Name wp) # names, items @ [qr_toResponse c (Some (wp_Name wp)) None]))))"

definition parse_qr_status :: "string \<Rightarrow> apperror + qr_status option" where
  "parse_qr_status raw =
     (if raw = [] then Inr None
      else case find (\<lambda>st. qr_status_string st = raw) [QrFree, QrAssigned, QrDisabled] of
             None \<Rightarrow> Inl (BadRequest ''invalid_status'') | Some st \<Rightarrow> Inr (Some st))"

definition qr_list :: "string \<Rightarrow> string \<Rightarrow> (qr_response list \<times> poolStats) db" where
  "qr_list rawStatus rawSearch =
     bindE (QrRepo_List None) (\<lambda>all.
     bindE (lift_result (parse_qr_status rawStatus)) (\<lambda>statusFilter.
     bindE (foldE (list_row statusFilter (search_upper (TrimSpace rawSearch))) ([], []) all) (\<lambda>(names, items).
     return_ok (items, pool_stats all))))"

definition qr_get :: "(string \<Rightarrow> uuid option) \<Rightarrow> string \<Rightarrow> qr_response db" where
  "qr_get uuid_parse rawID =
     bindE (lift_result (ParseUUIDParam uuid_parse rawID)) (\<lambda>k. bindE (QrRepo_FindByID k) detail)"

definition qr_assign :: "(string \<Rightarrow> uuid option) \<Rightarrow> string \<Rightarrow> apperror + string \<Rightarrow> qr_response db" where
  "qr_assign uuid_parse rawID body =
     bindE (lift_result (ParseUUIDParam uuid_parse rawID)) (\<lambda>k.
     bindE (lift_result body) (\<lambda>rawPoint.
     case uuid_parse rawPoint of
       None \<Rightarrow> fail_with (BadRequest ''invalid_washing_point_id'')
     | Some pid \<Rightarrow> bindE (Assign k pid) detail))"

definition qr_unassign :: "(string \<Rightarrow> uuid option) \<Rightarrow> string \<Rightarrow> qr_response db" where
  "qr_unassign uuid_parse rawID =
     bindE (lift_result (ParseUUIDParam uuid_parse rawID)) (\<lambda>k. bindE (Unassign k) detail)"

definition qr_disable :: "(string \<Rightarrow> uuid option) \<Rightarrow> string \<Rightarrow> qr_response db" where
  "qr_disable uuid_parse rawID =
     bindE (lift_result (ParseUUIDParam uuid_parse rawID)) (\<lambda>k. bindE (Disable k) detail)"

text \<open>The code of the caller's own point.\<close>

definition own_code :: "AuthUser option \<Rightarrow> QRCode db" where
  "own_code ctx =
     bindE (lift_result (AuthUserFrom ctx)) (\<lambda>authUser.
     case au_wp authUser of
       None \<Rightarrow> fail_with (BadRequest ''no_washing_point'')
     | Some pid \<Rightarrow> FindByWashingPointID pid)"

definition qr_getMine :: "AuthUser option \<Rightarrow> qr_response db" where
  "qr_getMine ctx = bindE (own_code ctx) detail"

definition requestReplacement :: "AuthUser option \<Rightarrow> qr_response db" where
  "requestReplacement ctx =
     bindE (own_code ctx) (\<lambda>c. bindE (RequestReplacement (qr_ID c)) detail)"

record scanPageData =
  sp_Heading :: string
  sp_Subtext :: string
  sp_DeepLink :: "uuid option"

definition invalid_page :: scanPageData where
  "invalid_page =
          \<lparr>sp_Heading = utf8 [208, 154, 208, 190, 208, 180, 32, 208, 189, 208, 181, 208, 180, 208, 181, 208, 185,
        209, 129, 209, 130, 208, 178, 208, 184, 209, 130, 208, 181, 208, 187, 208, 181, 208, 189],
            sp_Subtext = utf8 [208, 173, 209, 130, 208, 176, 32, 208, 189, 208, 176, 208, 186, 208, 187, 208, 181, 208,
        185, 208, 186, 208, 176, 32, 208, 189, 208, 181, 32, 208, 176, 208, 186, 209, 130, 208, 184, 208, 178, 208, 189,
        208, 176, 46, 32, 208, 158, 208, 177, 209, 128, 208, 176, 209, 130, 208, 184, 209, 130, 208, 181, 209, 129, 209,
        140, 32, 208, 186, 32, 208, 191, 208, 181, 209, 128, 209, 129, 208, 190, 208, 189, 208, 176, 208, 187, 209, 131,
        32, 208, 188, 208, 190, 208, 185, 208, 186, 208, 184, 46],
      sp_DeepLink = None\<rparr>"

definition scan_page :: scanPageData where
  "scan_page =
          \<lparr>sp_Heading = utf8 [208, 161, 208, 186, 208, 176, 208, 189, 208, 184, 209, 128, 209, 131, 208, 185,
        209, 130, 208, 181, 44, 32, 209, 135, 209, 130, 208, 190, 208, 177, 209, 139, 32, 208, 183, 208, 176, 208, 189,
        209, 143, 209, 130, 209, 140, 32, 208, 190, 209, 135, 208, 181, 209, 128, 208, 181, 208, 180, 209, 140],
            sp_Subtext = utf8 [209, 131, 209, 129, 208, 187, 209, 131, 208, 179, 208, 184, 32, 194, 183, 32, 208, 183,
        208, 176, 208, 191, 208, 184, 209, 129, 209, 140, 32, 194, 183, 32, 208, 182, 208, 184, 208, 178, 208, 176, 209,
        143, 32, 208, 190, 209, 135, 208, 181, 209, 128, 208, 181, 208, 180, 209, 140],
      sp_DeepLink = None\<rparr>"

definition qr_scan :: "string \<Rightarrow> scanPageData db" where
  "qr_scan token =
     bindE (attempt (FindByToken token)) (\<lambda>found.
     case found of
       None \<Rightarrow> return_ok invalid_page
     | Some c \<Rightarrow>
         if qr_Status c = QrDisabled then return_ok invalid_page
         else
           bindE (attempt (CreateScan (qr_ID c))) (\<lambda>_.
           case qr_WashingPointID c of
             None \<Rightarrow> return_ok scan_page
           | Some pid \<Rightarrow> bindE (attempt (WpRepo_FindByID pid)) (\<lambda>wp.
               return_ok (case wp of
                 None \<Rightarrow> scan_page
               | Some p \<Rightarrow> scan_page\<lparr>sp_Heading := wp_Name p, sp_DeepLink := Some (wp_ID p)\<rparr>))))"

section \<open>Sticker numbers read back\<close>

lemma ToUpper_digits: "list_all is_digit s \<Longrightarrow> ToUpper s = s"
  by (induction s) (auto simp: ToUpper_def upper_char_def is_digit_def digit_value_def Let_def)

text \<open>A typed sticker number reads back: \<open>ParseCode\<close> returns the number that \<open>Code\<close> prints, in either case.\<close>

theorem ParseCode_Code:
  assumes "0 \<le> qr_Seq c" "qr_Seq c < 2 ^ 63"
  shows "ParseCode (Code c) = Some (qr_Seq c) \<and> ParseCode (ToLower (Code c)) = Some (qr_Seq c)"
proof -
  let ?d = "pad_zeros 4 (nat (qr_Seq c))"
  have ne: "?d \<noteq> []" by (simp add: pad_zeros_def)
  note d = pad_zeros_digits [of 4 "nat (qr_Seq c)"] ne digits_value_pad [of 4 "nat (qr_Seq c)"]
  have last: "last ?d \<notin> set space_bytes" using d(1,2) not_space_bytes(1) by (simp add: list_all_iff)
  have low: "lower_char x = x" if "is_digit x" for x
    using that by (auto simp: lower_char_def is_digit_def digit_value_def Let_def)
  have "ToLower ''QW-'' = ''qw-''" by code_simp
  then have lower: "ToLower (Code c) = ''qw-'' @ ?d"
    using d(1) low by (simp add: Code_def ToLower_def list_all_iff map_idI)
  have "CHR ''Q'' \<notin> set space_bytes" "CHR ''q'' \<notin> set space_bytes" by code_simp+
  then have trim: "TrimSpace (''QW-'' @ ?d) = ''QW-'' @ ?d" "TrimSpace (''qw-'' @ ?d) = ''qw-'' @ ?d"
    using last ne TrimSpace_id [of "''QW-'' @ ?d"] TrimSpace_id [of "''qw-'' @ ?d"] by simp_all
  have "ToUpper ''QW-'' = ''QW-''" "ToUpper ''qw-'' = ''QW-''" by code_simp+
  then have upper: "ToUpper (''QW-'' @ ?d) = ''QW-'' @ ?d" "ToUpper (''qw-'' @ ?d) = ''QW-'' @ ?d"
    using ToUpper_digits [OF d(1)] by (simp_all add: ToUpper_def)
  have t1: "TrimPrefix (''QW-'' @ ?d) ''QW-'' = ?d" by (simp add: TrimPrefix_def HasPrefix_def)
  obtain x xs where x: "?d = x # xs" using d(2) by (cases ?d) auto
  have xd: "is_digit x" using d(1) x by simp
  then have t2: "TrimPrefix ?d ''QW'' = ?d" "dropWhile (\<lambda>c. c = CHR ''-'' \<or> c = CHR '' '') ?d = ?d"
    by (auto simp: x TrimPrefix_def HasPrefix_def is_digit_def digit_value_def)
  have "ParseInt ?d = Some (qr_Seq c)" using ParseInt_digits [OF d(1,2)] d(3) assms by simp
  then show ?thesis
    unfolding lower by (simp add: ParseCode_def Code_def trim upper t1 t2 Let_def del: append_Cons)
qed

theorem ParseCode_Code_witness:
  "ParseCode ''QW-0031'' = Some 31 \<and> ParseCode ''qw-0031'' = Some 31"
proof -
  let ?c = "(new_code ''t'' ''b'')\<lparr>qr_Seq := 31\<rparr>"
  have "Code ?c = ''QW-0031''" "ToLower (Code ?c) = ''qw-0031''" "qr_Seq ?c = 31" by code_simp+
  with ParseCode_Code [of ?c] show ?thesis by simp
qed

section \<open>The pool stays consistent\<close>

definition qr_consistent :: "QRCode \<Rightarrow> bool" where
  "qr_consistent c \<longleftrightarrow> (qr_Status c = QrAssigned \<longleftrightarrow> qr_WashingPointID c \<noteq> None)"

text \<open>
  Unique identifiers, numbers and tokens, at most one code per point, and a point exactly for the
  assigned codes.
\<close>

definition codes_ok :: "world \<Rightarrow> bool" where
  "codes_ok w \<longleftrightarrow> distinct (map qr_ID (w_qrcodes w)) \<and>
     (\<forall>c \<in> set (w_qrcodes w). qr_ID c < w_next w \<and> qr_consistent c) \<and>
     (\<forall>c \<in> set (w_qrcodes w). \<forall>r \<in> set (w_qrcodes w). qr_ID r \<noteq> qr_ID c \<longrightarrow> \<not> qr_clash c r)"

lemma codes_ok_table: "table_property codes_ok"
  by (rule table_propertyI) (force simp: codes_ok_def)

lemma qr_consistent_simps [simp]:
  "qr_consistent (released c)" "qr_consistent (assigned_to pid now c)" "qr_consistent (new_code t b)"
  "qr_consistent (c\<lparr>qr_Status := QrDisabled, qr_WashingPointID := None, qr_DisabledAt := d\<rparr>)"
  "qr_consistent (c\<lparr>qr_ReplacementRequestedAt := d\<rparr>) = qr_consistent c"
  "qr_consistent (c\<lparr>qr_ID := i, qr_Seq := s, qr_CreatedAt := t0\<rparr>) = qr_consistent c"
  by (simp_all add: qr_consistent_def released_def assigned_to_def new_code_def)

lemma qr_clash_sym: "qr_clash c r = qr_clash r c"
  unfolding qr_clash_def by metis

lemma save_keys: "map key (update_where (\<lambda>r. key r = key c) (\<lambda>_. c) rows) = map key rows"
  by (simp add: update_where_def)

text \<open>Every write of a consistent row keeps the pool consistent, however old the row is.\<close>

lemma QrRepo_Update_ok: "qr_consistent c \<Longrightarrow> preserves codes_ok (QrRepo_Update c)"
  unfolding QrRepo_Update_def
proof (rule preserves_statement [OF codes_ok_table], rule preservesI)
  fix w assume c: "qr_consistent c" and ok: "codes_ok w"
  have "codes_ok (w\<lparr>w_qrcodes := update_where (\<lambda>r. qr_ID r = qr_ID c) (\<lambda>_. c) (w_qrcodes w)\<rparr>)"
    if row: "qr_row_ok c w"
  proof -
    have clash: "\<not> qr_clash c r" "\<not> qr_clash r c" if "r \<in> set (w_qrcodes w)" "qr_ID r \<noteq> qr_ID c" for r
      using row that qr_clash_sym by (auto simp: qr_row_ok_def)
    show ?thesis using ok c clash by (auto simp: codes_ok_def set_update_where save_keys)
  qed
  with ok show "codes_ok (snd (bindE (reads (qr_row_ok c)) (\<lambda>ok. bindE (require ok Internal) (\<lambda>_.
      writes (\<lambda>w. w\<lparr>w_qrcodes := update_where (\<lambda>r. qr_ID r = qr_ID c) (\<lambda>_. c) (w_qrcodes w)\<rparr>))) w))"
    by (simp add: bindE_def)
qed

lemma batch_rows_nth:
  "i < length codes \<Longrightarrow> batch_rows codes w ! i =
    (codes ! i)\<lparr>qr_ID := w_next w + i, qr_Seq := w_seq w + int i, qr_CreatedAt := w_now w\<rparr>"
  by (simp add: batch_rows_def nth_enumerate_eq)

lemma length_batch_rows [simp]: "length (batch_rows codes w) = length codes"
  by (simp add: batch_rows_def)

lemma CreateBatch_ok:
  assumes "\<forall>c \<in> set codes. qr_consistent c \<and> qr_WashingPointID c = None"
  shows "preserves codes_ok (CreateBatch codes)"
  unfolding CreateBatch_def
proof (rule preserves_statement [OF codes_ok_table], rule preservesI)
  fix w assume ok: "codes_ok w"
  let ?rows = "batch_rows codes w" and ?w = "w\<lparr>w_next := w_next w + length codes, w_seq := w_seq w + int (length codes)\<rparr>"
  have "codes_ok (?w\<lparr>w_qrcodes := w_qrcodes w @ ?rows\<rparr>)"
    if rows: "\<forall>c \<in> set ?rows. qr_row_ok c w" and tokens: "distinct (map qr_Token ?rows)"
  proof -
    have new: "qr_ID (?rows ! i) = w_next w + i \<and> qr_Seq (?rows ! i) = w_seq w + int i \<and>
        qr_WashingPointID (?rows ! i) = None \<and> qr_consistent (?rows ! i)" if "i < length codes" for i
      using that assms by (simp add: batch_rows_nth)
    have ids: "distinct (map qr_ID ?rows)"
      unfolding distinct_conv_nth using new by simp
    have apart: "\<not> qr_clash (?rows ! i) (?rows ! j)" if "i < length codes" "j < length codes" "i \<noteq> j" for i j
    proof -
      have "qr_Token (?rows ! i) \<noteq> qr_Token (?rows ! j)"
        using tokens that by (auto simp: distinct_conv_nth)
      then show ?thesis using new that by (simp add: qr_clash_def)
    qed
    have inside: "\<not> qr_clash c r" if cr: "c \<in> set ?rows" "r \<in> set ?rows" "qr_ID r \<noteq> qr_ID c" for c r
    proof -
      obtain i j where "i < length codes" "j < length codes" "c = ?rows ! i" "r = ?rows ! j"
        using cr(1,2) by (auto simp: in_set_conv_nth)
      moreover from this have "i \<noteq> j" using cr(3) by auto
      ultimately show ?thesis using apart by simp
    qed
    have bounds: "w_next w \<le> qr_ID c \<and> qr_ID c < w_next w + length codes \<and> qr_consistent c" if c: "c \<in> set ?rows" for c
    proof -
      obtain i where "i < length codes" "c = ?rows ! i" using c by (auto simp: in_set_conv_nth)
      with new show ?thesis by simp
    qed
    have old: "\<not> qr_clash c r \<and> \<not> qr_clash r c" if cr: "c \<in> set ?rows" "r \<in> set (w_qrcodes w)" for c r
    proof -
      have "qr_ID r < w_next w" using cr(2) ok by (simp add: codes_ok_def)
      then have "qr_ID r \<noteq> qr_ID c" using bounds [OF cr(1)] by simp
      then have "\<not> qr_clash c r" using rows cr by (auto simp: qr_row_ok_def)
      then show ?thesis using qr_clash_sym by blast
    qed
    show ?thesis unfolding codes_ok_def
    proof (intro conjI)
      show "distinct (map qr_ID (w_qrcodes (?w\<lparr>w_qrcodes := w_qrcodes w @ ?rows\<rparr>)))"
        using ok ids bounds by (force simp: codes_ok_def)
      show "\<forall>c \<in> set (w_qrcodes (?w\<lparr>w_qrcodes := w_qrcodes w @ ?rows\<rparr>)).
          qr_ID c < w_next (?w\<lparr>w_qrcodes := w_qrcodes w @ ?rows\<rparr>) \<and> qr_consistent c"
        using ok bounds by (force simp: codes_ok_def)
      show "\<forall>c \<in> set (w_qrcodes (?w\<lparr>w_qrcodes := w_qrcodes w @ ?rows\<rparr>)).
          \<forall>r \<in> set (w_qrcodes (?w\<lparr>w_qrcodes := w_qrcodes w @ ?rows\<rparr>)). qr_ID r \<noteq> qr_ID c \<longrightarrow> \<not> qr_clash c r"
        using ok inside old by (simp add: codes_ok_def ball_Un)
    qed
  qed
  moreover have "codes_ok ?w" using ok by (force simp: codes_ok_def)
  ultimately show "codes_ok (snd (let rows = batch_rows codes w; n = length codes;
      w' = w\<lparr>w_next := w_next w + n, w_seq := w_seq w + int n\<rparr>
    in if (\<forall>c \<in> set rows. qr_row_ok c w) \<and> distinct (map qr_Token rows)
       then (Inr rows, w'\<lparr>w_qrcodes := w_qrcodes w @ rows\<rparr>) else (Inl Internal, w')))"
    by (simp add: Let_def)
qed

lemma codes_ok_scans: "codes_ok (w\<lparr>w_scans := ss\<rparr>) = codes_ok w"
  by (simp add: codes_ok_def)

lemma CreateScan_ok: "preserves codes_ok (CreateScan k)"
  unfolding CreateScan_def time_Now_def
  by (intro db_preserves preserves_statement [OF codes_ok_table] preserves_fresh_id [OF codes_ok_table]
      preserves_writes) (simp add: codes_ok_scans)

lemma QrRepo_FindByID_Inr:
  assumes "QrRepo_FindByID k w = (Inr c, w')"
  shows "find_row qr_ID k (w_qrcodes w) = Some c" "c \<in> set (w_qrcodes w)" "qr_ID c = k" "\<exists>fs. w' = w\<lparr>w_faults := fs\<rparr>"
  using assms by (auto simp: QrRepo_FindByID_def elim!: first_or_Inr dest: find_row_SomeD)

lemma RequestReplacement_ok: "preserves codes_ok (RequestReplacement k)"
proof (rule preservesI)
  fix w assume ok: "codes_ok w"
  let ?f = "\<lambda>c. bindE (require (qr_Status c = QrAssigned) (Conflict ''qr_code_not_assigned'')) (\<lambda>_.
     bindE time_Now (\<lambda>now. let c' = c\<lparr>qr_ReplacementRequestedAt := Some now\<rparr> in bindE (QrRepo_Update c') (\<lambda>_. return_ok c')))"
  show "codes_ok (snd (RequestReplacement k w))"
  proof (cases "QrRepo_FindByID k w")
    case (Pair r w1)
    have ok1: "codes_ok w1"
      using preservesD [OF preserves_first_or [OF codes_ok_table] ok] Pair unfolding QrRepo_FindByID_def by blast
    show ?thesis
    proof (cases r)
      case (Inl e)
      then show ?thesis using Pair ok1 by (simp add: RequestReplacement_def bindE_def)
    next
      case (Inr c)
      have "qr_consistent c"
        using QrRepo_FindByID_Inr(2) [OF Pair [unfolded Inr]] ok by (simp add: codes_ok_def)
      then have "preserves codes_ok (?f c)"
        unfolding time_Now_def Let_def by (intro db_preserves QrRepo_Update_ok) simp
      from preservesI [THEN preservesD] this ok1 show ?thesis
        using Pair Inr by (simp add: RequestReplacement_def bindE_Inr preserves_def)
    qed
  qed
qed

lemmas qr_reads_ok = preserves_query [OF codes_ok_table] preserves_first_or [OF codes_ok_table]

lemma preserves_case_list:
  "preserves I m \<Longrightarrow> (\<And>x xs. preserves I (f x xs)) \<Longrightarrow> preserves I (case v of [] \<Rightarrow> m | x # xs \<Rightarrow> f x xs)"
  by (cases v) simp_all

lemma code_stats_ok: "preserves codes_ok (code_stats c)"
  unfolding code_stats_def CountScans_def ScanTimesSince_def CountCreatedNearTimes_def time_Now_def Let_def
  by (intro db_preserves qr_reads_ok preserves_case_list preserves_case_prod)

lemma detail_ok: "preserves codes_ok (detail c)"
  unfolding detail_def WpRepo_FindByID_def by (intro db_preserves qr_reads_ok code_stats_ok)

lemma Assign_ok: "preserves codes_ok (Assign k pid)"
  unfolding Assign_def QrRepo_FindByID_def WpRepo_FindByID_def existing_code_def FindByWashingPointID_def time_Now_def Let_def
  by (intro db_preserves qr_reads_ok QrRepo_Update_ok) simp_all

lemma Unassign_ok: "preserves codes_ok (Unassign k)"
  unfolding Unassign_def QrRepo_FindByID_def Let_def by (intro db_preserves qr_reads_ok QrRepo_Update_ok) simp_all

lemma Disable_ok: "preserves codes_ok (Disable k)"
  unfolding Disable_def QrRepo_FindByID_def time_Now_def Let_def
  by (intro db_preserves qr_reads_ok QrRepo_Update_ok) simp_all

lemma qr_scan_ok: "preserves codes_ok (qr_scan token)"
  unfolding qr_scan_def FindByToken_def WpRepo_FindByID_def
  by (intro db_preserves preserves_attempt qr_reads_ok CreateScan_ok)

lemma draw_tokens:
  "foldE (\<lambda>acc x. bindE (bindE (draw_token draw x) (\<lambda>token. return_ok (new_code token label))) (\<lambda>y. return_ok (acc @ [y]))) cs xs w = (r, w') \<Longrightarrow>
    \<forall>c \<in> set cs. qr_consistent c \<and> qr_WashingPointID c = None \<Longrightarrow>
    w' = w \<and> (\<forall>codes. r = Inr codes \<longrightarrow> (\<forall>c \<in> set codes. qr_consistent c \<and> qr_WashingPointID c = None))"
proof (induction xs arbitrary: cs)
  case (Cons x xs)
  show ?case
  proof (cases "generateToken (draw (w_next w + x))")
    case None
    then show ?thesis using Cons.prems by (auto simp: draw_token_def bindE_def)
  next
    case (Some t)
    have "\<forall>c \<in> set (cs @ [new_code t label]). qr_consistent c \<and> qr_WashingPointID c = None"
      using Cons.prems(2) by auto (simp add: new_code_def)
    with Cons.IH [of "cs @ [new_code t label]"] Cons.prems(1) Some show ?thesis
      by (simp add: draw_token_def bindE_def)
  qed
qed auto

lemma GenerateBatch_ok: "preserves codes_ok (GenerateBatch draw num label)"
proof -
  let ?draw = "mapE (\<lambda>i. bindE (draw_token draw i) (\<lambda>token. return_ok (new_code token label))) [0..<nat num]"
  have "preserves codes_ok (bindE ?draw CreateBatch)"
  proof (rule preserves_bindE_value)
    show "preserves codes_ok ?draw"
      unfolding mapE_def preserves_def using draw_tokens [of draw label "[]"] by (metis empty_iff list.set(1) prod.collapse)
    show "preserves codes_ok (CreateBatch codes)" if "?draw w = (Inr codes, w')" for w codes w'
      using draw_tokens [OF that [unfolded mapE_def]] by (intro CreateBatch_ok) simp
  qed
  then show ?thesis unfolding GenerateBatch_def by (rule preserves_bindE [OF preserves_pure(4)])
qed

text \<open>
  C9 No sticker operation, under any database fault, breaks the pool: identifiers, numbers and tokens
  stay unique, a washing point has at most one code, and a code has a point exactly when its status is
  assigned.
\<close>

theorem sticker_pool_consistent:
  "preserves codes_ok (qr_generate draw gen) \<and> preserves codes_ok (qr_assign uuid_parse rawID raw) \<and>
   preserves codes_ok (qr_unassign uuid_parse rawID) \<and> preserves codes_ok (qr_disable uuid_parse rawID) \<and>
   preserves codes_ok (requestReplacement ctx) \<and> preserves codes_ok (qr_scan token)"
proof (intro conjI)
  show "preserves codes_ok (qr_generate draw gen)"
    unfolding qr_generate_def Let_def by (intro db_preserves GenerateBatch_ok)
  show "preserves codes_ok (qr_assign uuid_parse rawID raw)"
    unfolding qr_assign_def by (intro db_preserves Assign_ok detail_ok)
  show "preserves codes_ok (qr_unassign uuid_parse rawID)"
    unfolding qr_unassign_def by (intro db_preserves Unassign_ok detail_ok)
  show "preserves codes_ok (qr_disable uuid_parse rawID)"
    unfolding qr_disable_def by (intro db_preserves Disable_ok detail_ok)
  show "preserves codes_ok (requestReplacement ctx)"
    unfolding requestReplacement_def own_code_def FindByWashingPointID_def
    by (intro db_preserves qr_reads_ok RequestReplacement_ok detail_ok)
qed (rule qr_scan_ok)

section \<open>Assignment\<close>

lemma QrRepo_Update_Inr:
  assumes "QrRepo_Update c w = (Inr x, w')"
  shows "\<exists>fs. w' = w\<lparr>w_faults := fs, w_qrcodes := update_where (\<lambda>r. qr_ID r = qr_ID c) (\<lambda>_. c) (w_qrcodes w)\<rparr>"
  using assms by (auto simp: QrRepo_Update_def elim!: statement_Inr bindE_InrE split: if_splits)

lemma QrRepo_Update_Inl:
  assumes "QrRepo_Update c w = (Inl e, w')"
  shows "e = Internal" "\<exists>fs. w' = w\<lparr>w_faults := fs\<rparr>"
  using assms by (auto simp: QrRepo_Update_def bindE_def elim!: statement_Inl split: if_splits)

lemma existing_code_result:
  assumes "existing_code pid w = (r, w')"
  shows "\<exists>fs. w' = w\<lparr>w_faults := fs\<rparr>"
    "r = Inr found \<Longrightarrow> found = find_row qr_WashingPointID (Some pid) (sort_key qr_ID (w_qrcodes w))"
proof -
  obtain s w1 where s: "FindByWashingPointID pid w = (s, w1)" by (cases "FindByWashingPointID pid w")
  have "(\<exists>fs. w' = w\<lparr>w_faults := fs\<rparr>) \<and>
      (r = Inr found \<longrightarrow> found = find_row qr_WashingPointID (Some pid) (sort_key qr_ID (w_qrcodes w)))"
  proof (cases s)
    case (Inr e)
    from s [unfolded Inr] have "(\<exists>fs. w1 = w\<lparr>w_faults := fs\<rparr>) \<and> find_row qr_WashingPointID (Some pid) (sort_key qr_ID (w_qrcodes w)) = Some e"
      unfolding FindByWashingPointID_def by (rule first_or_Inr) auto
    then show ?thesis using assms s Inr by (auto simp: existing_code_def catchE_def bindE_def)
  next
    case (Inl e)
    from s [unfolded Inl] have e: "(\<exists>fs. w1 = w\<lparr>w_faults := fs\<rparr>) \<and>
        (e = Internal \<or> e = NotFound ''qr_code_not_found'' \<and>
          find_row qr_WashingPointID (Some pid) (sort_key qr_ID (w_qrcodes w)) = None)"
      unfolding FindByWashingPointID_def first_or_def
      by (cases rule: bindE_cases) (auto elim!: query_Inl query_Inr split: option.splits)
    then show ?thesis using assms s Inl by (auto simp: existing_code_def catchE_def bindE_def split: if_splits)
  qed
  then show "\<exists>fs. w' = w\<lparr>w_faults := fs\<rparr>"
    "r = Inr found \<Longrightarrow> found = find_row qr_WashingPointID (Some pid) (sort_key qr_ID (w_qrcodes w))" by auto
qed

text \<open>At most one code is at a point, so the search by point finds all of them.\<close>

lemma code_at_point:
  assumes "codes_ok w" "find_row qr_WashingPointID (Some pid) (sort_key qr_ID (w_qrcodes w)) = found" "r \<in> set (w_qrcodes w)"
  shows "qr_WashingPointID r = Some pid \<longleftrightarrow> found = Some r"
proof
  assume r: "qr_WashingPointID r = Some pid"
  then have "Some pid \<in> qr_WashingPointID ` set (sort_key qr_ID (w_qrcodes w))" using assms(3) by (metis imageI set_sort)
  then have "found \<noteq> None" using assms(2) find_row_None by metis
  then obtain e where e: "found = Some e" by blast
  then have "e \<in> set (w_qrcodes w)" "qr_WashingPointID e = Some pid"
    using assms(2) find_row_SomeD [of qr_WashingPointID "Some pid" "sort_key qr_ID (w_qrcodes w)" e] by simp_all
  then have "qr_clash e r" using r by (simp add: qr_clash_def)
  then have "qr_ID r = qr_ID e"
    using assms(1,3) \<open>e \<in> set (w_qrcodes w)\<close> unfolding codes_ok_def by blast
  then have "r = e"
    using assms(1,3) \<open>e \<in> set (w_qrcodes w)\<close> by (auto simp: codes_ok_def distinct_map inj_on_def)
  then show "found = Some r" using e by simp
next
  assume "found = Some r"
  then show "qr_WashingPointID r = Some pid" using assms(2) by (auto dest: find_row_SomeD)
qed

definition freed_at :: "uuid \<Rightarrow> uuid \<Rightarrow> QRCode \<Rightarrow> QRCode" where
  "freed_at pid k r = (if qr_WashingPointID r = Some pid \<and> qr_ID r \<noteq> k then released r else r)"

lemma release_step:
  assumes "codes_ok w" "find_row qr_WashingPointID (Some pid) (sort_key qr_ID (w_qrcodes w)) = found"
    "(case found of None \<Rightarrow> return_ok ()
      | Some e \<Rightarrow> if qr_ID e \<noteq> k then QrRepo_Update (released e) else return_ok ()) v = (Inr u, v')"
    "v = w\<lparr>w_faults := fs\<rparr>"
  shows "\<exists>fs'. v' = w\<lparr>w_faults := fs', w_qrcodes := map (freed_at pid k) (w_qrcodes w)\<rparr>"
proof (cases "\<exists>e. found = Some e \<and> qr_ID e \<noteq> k")
  case True
  then obtain e where e: "found = Some e" "qr_ID e \<noteq> k" by blast
  have mem: "e \<in> set (w_qrcodes w)"
    using assms(2) e(1) find_row_SomeD [of qr_WashingPointID "Some pid" "sort_key qr_ID (w_qrcodes w)" e] by simp
  obtain fs' where v': "v' = v\<lparr>w_faults := fs', w_qrcodes := update_where (\<lambda>r. qr_ID r = qr_ID e) (\<lambda>_. released e) (w_qrcodes v)\<rparr>"
    using QrRepo_Update_Inr [of "released e" v u v'] assms(3) e by (auto simp: released_def)
  have "update_where (\<lambda>r. qr_ID r = qr_ID e) (\<lambda>_. released e) (w_qrcodes w) = map (freed_at pid k) (w_qrcodes w)"
    unfolding update_where_def
  proof (rule map_cong [OF refl])
    fix r assume r: "r \<in> set (w_qrcodes w)"
    have "qr_ID r = qr_ID e \<longleftrightarrow> r = e"
      using assms(1) r mem by (auto simp: codes_ok_def distinct_map inj_on_def)
    then show "(if qr_ID r = qr_ID e then released e else r) = freed_at pid k r"
      using code_at_point [OF assms(1,2) r] e by (auto simp: freed_at_def)
  qed
  then show ?thesis using v' assms(4) by auto
next
  case False
  have "map (freed_at pid k) (w_qrcodes w) = w_qrcodes w"
    using False code_at_point [OF assms(1,2)] by (intro map_idI) (auto simp: freed_at_def)
  moreover have "v' = v" using assms(3) False by (auto split: option.splits if_splits)
  ultimately show ?thesis using assms(4) by (intro exI [of _ fs]) simp
qed

lemma Assign_steps:
  assumes "Assign k pid w = (r, w')" "codes_ok w"
  obtains e where "r = Inl e" "same_tables w w'"
    | c fs e where "find_row qr_ID k (w_qrcodes w) = Some c" "qr_Status c \<noteq> QrDisabled" "r = Inl e" "e = Internal"
      "w' = w\<lparr>w_faults := fs, w_qrcodes := map (freed_at pid k) (w_qrcodes w)\<rparr>"
    | c fs where "find_row qr_ID k (w_qrcodes w) = Some c" "qr_Status c \<noteq> QrDisabled"
      "r = Inr (assigned_to pid (w_now w) c)"
      "w' = w\<lparr>w_faults := fs, w_qrcodes := update_where (\<lambda>r. qr_ID r = k) (\<lambda>_. assigned_to pid (w_now w) c)
        (map (freed_at pid k) (w_qrcodes w))\<rparr>"
proof -
  have reads1: "read_only (QrRepo_FindByID k)" "read_only (WpRepo_FindByID pid)"
    unfolding QrRepo_FindByID_def WpRepo_FindByID_def by (simp_all add: read_only_first_or)
  from assms(1) show ?thesis unfolding Assign_def
  proof (cases rule: bindE_cases)
    case (stop e)
    then show ?thesis using that(1) read_onlyD [OF reads1(1) stop(1)] by simp
  next
    case find: (go c w1)
    note f = QrRepo_FindByID_Inr [OF find(1)]
    obtain f1 where w1: "w1 = w\<lparr>w_faults := f1\<rparr>" using f(4) by blast
    show ?thesis
    proof (cases "qr_Status c = QrDisabled")
      case True
      then have "r = Inl (Conflict ''qr_code_disabled'')" "w' = w1" using find(2) by simp_all
      then show ?thesis using that(1) w1 by simp
    next
      case False
      with find(2) have "bindE (WpRepo_FindByID pid) (\<lambda>_.
         bindE (existing_code pid) (\<lambda>existing.
         bindE (case existing of None \<Rightarrow> return_ok ()
           | Some e \<Rightarrow> if qr_ID e \<noteq> qr_ID c then QrRepo_Update (released e) else return_ok ()) (\<lambda>_.
         bindE time_Now (\<lambda>now. let c' = assigned_to pid now c in bindE (QrRepo_Update c') (\<lambda>_. return_ok c'))))) w1 = (r, w')"
        by simp
      then show ?thesis
      proof (cases rule: bindE_cases)
        case (stop e)
        have "same_tables w1 w'" by (rule read_onlyD [OF reads1(2) stop(1)])
        then show ?thesis using that(1) stop(2) w1 same_tables_trans [OF same_tables_update(2) ] by blast
      next
        case point: (go wp w2)
        have "\<exists>f2. w2 = w1\<lparr>w_faults := f2\<rparr>"
          using point(1) unfolding WpRepo_FindByID_def by (auto elim!: first_or_Inr)
        then obtain f2 where w2: "w2 = w\<lparr>w_faults := f2\<rparr>" using w1 by auto
        from point(2) show ?thesis
        proof (cases rule: bindE_cases)
          case (stop e)
          then show ?thesis using that(1) existing_code_result(1) [OF stop(1)] w2 by auto
        next
          case ex: (go found w3)
          obtain f3 where w3: "w3 = w\<lparr>w_faults := f3\<rparr>" using existing_code_result(1) [OF ex(1)] w2 by auto
          have found: "find_row qr_WashingPointID (Some pid) (sort_key qr_ID (w_qrcodes w)) = found"
            using existing_code_result(2) [OF ex(1) refl] w2 by simp
          note at = code_at_point [OF assms(2) found]
          have id: "qr_ID c = k" by (rule f(3))
          from ex(2) show ?thesis
          proof (cases rule: bindE_cases)
            case (stop e)
            then have "\<exists>fs. w' = w3\<lparr>w_faults := fs\<rparr>"
              by (auto split: option.splits if_splits dest: QrRepo_Update_Inl)
            then show ?thesis using that(1) stop(2) w3 by auto
          next
            case free: (go u w4)
            obtain f4 where w4: "w4 = w\<lparr>w_faults := f4, w_qrcodes := map (freed_at pid k) (w_qrcodes w)\<rparr>"
              using release_step [OF assms(2) found free(1) [unfolded id] w3] by blast
            have row: "map (freed_at pid k) (w_qrcodes w) = w_qrcodes w4" "w_now w4 = w_now w" by (simp_all add: w4)
            from free(2) have "bindE (QrRepo_Update (assigned_to pid (w_now w) c)) (\<lambda>_. return_ok (assigned_to pid (w_now w) c)) w4 = (r, w')"
              by (simp add: time_Now_def row Let_def)
            then show ?thesis
            proof (cases rule: bindE_cases)
              case (stop e)
              obtain f5 where "w' = w4\<lparr>w_faults := f5\<rparr>" using QrRepo_Update_Inl(2) [OF stop(1)] by blast
              then have "w' = w\<lparr>w_faults := f5, w_qrcodes := map (freed_at pid k) (w_qrcodes w)\<rparr>" by (simp add: w4)
              then show ?thesis using that(2) [OF f(1) False stop(2) QrRepo_Update_Inl(1) [OF stop(1)]] by blast
            next
              case (go x w5)
              have "qr_ID (assigned_to pid (w_now w) c) = k" by (simp add: assigned_to_def id)
              with QrRepo_Update_Inr [OF go(1)] go(2) show ?thesis
                using that(3) [OF f(1) False] w4 by auto
            qed
          qed
        qed
      qed
    qed
  qed
qed

text \<open>
  C15 Assigning a code that succeeds was of a code not disabled; afterwards that code, and no other, is at
  the point, the code that was there before went back to the pool, and no other row changed.
\<close>

theorem Assign_effect:
  assumes "Assign k pid w = (Inr c', w')" "codes_ok w"
  shows "\<exists>c. find_row qr_ID k (w_qrcodes w) = Some c \<and> qr_Status c \<noteq> QrDisabled \<and> c' = assigned_to pid (w_now w) c \<and>
    w_qrcodes w' = update_where (\<lambda>r. qr_ID r = k) (\<lambda>_. c') (map (freed_at pid k) (w_qrcodes w)) \<and>
    (\<forall>r \<in> set (w_qrcodes w'). qr_WashingPointID r = Some pid \<longleftrightarrow> r = c')"
  using assms(1,2)
proof (cases rule: Assign_steps)
  case (3 c fs)
  have c: "c \<in> set (w_qrcodes w)" "qr_ID c = k" using find_row_SomeD [OF 3(1)] by simp_all
  have c': "c' = assigned_to pid (w_now w) c" using 3(3) by simp
  have at: "qr_WashingPointID (freed_at pid k r) \<noteq> Some pid" if "qr_ID r \<noteq> k" for r
    using that by (simp add: freed_at_def released_def)
  have key: "qr_ID (freed_at pid k r) = qr_ID r" for r by (simp add: freed_at_def released_def)
  have "\<forall>r \<in> set (w_qrcodes w'). qr_WashingPointID r = Some pid \<longleftrightarrow> r = c'"
    using at by (auto simp: 3(4) set_update_where key c' assigned_to_def)
  then show ?thesis using 3 c' by auto
qed auto

text \<open>
  A failed assignment changes nothing, unless the database failed between the two writes: then the
  error is internal and the code that was at the point has already gone back to the pool, so the point
  is left without a code.
\<close>

theorem failed_Assign_outcomes:
  assumes "Assign k pid w = (Inl e, w')" "codes_ok w"
  shows "same_tables w w' \<or> e = Internal \<and> w_qrcodes w' = map (freed_at pid k) (w_qrcodes w)"
  using assms by (cases rule: Assign_steps) auto

definition sticker :: "uuid \<Rightarrow> uuid option \<Rightarrow> QRCode" where
  "sticker k p = (new_code (Itoa (int k)) ''batch'')\<lparr>qr_ID := k, qr_Seq := int k, qr_WashingPointID := p,
     qr_Status := (if p = None then QrFree else QrAssigned)\<rparr>"

definition sticker_world :: world where
  "sticker_world = (empty_world 100)\<lparr>w_qrcodes := [sticker 2 (Some 1), sticker 3 None], w_next := 10,
     w_points := [\<lparr>wp_ID = 1, wp_OwnerID = None, wp_Name = ''Moika'', wp_Address = ''Somoni 1'', wp_Latitude = 0,
       wp_Longitude = 0, wp_BoxesCount = 1, wp_OpenTime = ''08:00'', wp_CloseTime = ''20:00'', wp_Status = WpActive,
       wp_Description = None, wp_Amenities = [], wp_CreatedAt = 0\<rparr>]\<rparr>"

lemma sticker_world_ok: "codes_ok sticker_world" "codes_ok (sticker_world\<lparr>w_faults := fs\<rparr>)"
proof -
  have t: "Itoa 2 = ''2''" "Itoa 3 = ''3''" by code_simp+
  show "codes_ok sticker_world" "codes_ok (sticker_world\<lparr>w_faults := fs\<rparr>)"
    by (auto simp: codes_ok_def sticker_world_def sticker_def new_code_def qr_consistent_def qr_clash_def t)
qed

theorem Assign_effect_witness:
  "\<exists>c' w'. Assign 3 1 sticker_world = (Inr c', w') \<and> c' = assigned_to 1 100 (sticker 3 None) \<and>
     w_qrcodes w' = [released (sticker 2 (Some 1)), c']"
proof -
  have "is_ok (fst (Assign 3 1 sticker_world))" by code_simp
  then obtain c' w' where run: "Assign 3 1 sticker_world = (Inr c', w')" by (rule is_ok_fstE)
  obtain c where c: "find_row qr_ID 3 (w_qrcodes sticker_world) = Some c" "c' = assigned_to 1 (w_now sticker_world) c"
      "w_qrcodes w' = update_where (\<lambda>r. qr_ID r = 3) (\<lambda>_. c') (map (freed_at 1 3) (w_qrcodes sticker_world))"
    using Assign_effect [OF run sticker_world_ok(1)] by blast
  have "c = sticker 3 None" using c(1) by (simp add: sticker_world_def sticker_def split: if_splits)
  then have "c' = assigned_to 1 100 (sticker 3 None)" using c(2) by (simp add: sticker_world_def empty_world_def)
  moreover have "w_qrcodes w' = [released (sticker 2 (Some 1)), c']"
    using c(3) by (simp add: sticker_world_def freed_at_def sticker_def released_def)
  ultimately show ?thesis using run by blast
qed

theorem failed_Assign_outcomes_witness:
  "\<exists>w'. Assign 3 1 (sticker_world\<lparr>w_faults := replicate 4 False @ [True]\<rparr>) = (Inl Internal, w') \<and>
     w_qrcodes w' = [released (sticker 2 (Some 1)), sticker 3 None]"
proof -
  let ?w = "sticker_world\<lparr>w_faults := replicate 4 False @ [True]\<rparr>"
  have shape: "case Assign 3 1 ?w of (r, w') \<Rightarrow> \<not> is_ok r \<and> map qr_WashingPointID (w_qrcodes w') = [None, None]"
    by code_simp
  then obtain e w' where run: "Assign 3 1 ?w = (Inl e, w')" by (cases "Assign 3 1 ?w"; cases "fst (Assign 3 1 ?w)") auto
  have "map qr_WashingPointID (w_qrcodes w') = [None, None]" using shape unfolding run by simp
  moreover have "map qr_WashingPointID (w_qrcodes ?w) = [Some 1, None]" by (simp add: sticker_world_def sticker_def)
  ultimately have "\<not> same_tables ?w w'" using same_tablesD(12) [of ?w w'] by auto
  with failed_Assign_outcomes [OF run sticker_world_ok(2)] have "e = Internal" "w_qrcodes w' = map (freed_at 1 3) (w_qrcodes ?w)"
    by auto
  with run show ?thesis by (auto simp: sticker_world_def freed_at_def sticker_def released_def)
qed

text \<open>
  A disabled code is never assigned and its page is never counted; but releasing it puts it back into the
  pool, from where it can be assigned again.
\<close>

lemma Assign_disabled:
  "w_faults w = [] \<Longrightarrow> find_row qr_ID k (w_qrcodes w) = Some c \<Longrightarrow> qr_Status c = QrDisabled \<Longrightarrow>
   Assign k pid w = (Inl (Conflict ''qr_code_disabled''), w)"
  by (simp add: Assign_def QrRepo_FindByID_def bindE_def)

lemma unassign_revives_disabled:
  "case Disable 3 sticker_world of (_, w1) \<Rightarrow> case Unassign 3 w1 of (_, w2) \<Rightarrow> case Assign 3 1 w2 of (r, w3) \<Rightarrow>
     map qr_Status (w_qrcodes w1) = [QrAssigned, QrDisabled] \<and> is_ok r \<and>
     map qr_Status (w_qrcodes w3) = [QrFree, QrAssigned]"
  by code_simp

section \<open>The statistics add up\<close>

lemma length_count_days [simp]: "length (foldl (count_day s) days ts) = length days"
proof (induction ts arbitrary: days)
  case (Cons t ts)
  have "length (count_day s days t) = length days" by (simp add: count_day_def Let_def)
  with Cons show ?case by simp
qed simp

lemma count_days_nth:
  assumes "length days = 7" "i < 7"
  shows "dc_Count (foldl (count_day s) days ts ! i) =
    dc_Count (days ! i) + int (length (filter (\<lambda>t. day_index s t = int i) ts))"
  using assms(1)
proof (induction ts arbitrary: days)
  case (Cons t ts)
  have len: "length (count_day s days t) = 7" using Cons.prems by (simp add: count_day_def Let_def)
  have "dc_Count (count_day s days t ! i) = dc_Count (days ! i) + (if day_index s t = int i then 1 else 0)"
    using Cons.prems assms(2) by (auto simp: count_day_def Let_def nth_list_update)
  with Cons.IH [OF len] show ?case by simp
qed simp

lemma count_days_sum:
  assumes "length days = 7" "\<forall>t \<in> set ts. 0 \<le> day_index s t \<and> day_index s t < 7"
  shows "(\<Sum>d\<leftarrow>foldl (count_day s) days ts. dc_Count d) = (\<Sum>d\<leftarrow>days. dc_Count d) + int (length ts)"
  using assms
proof (induction ts arbitrary: days)
  case (Cons t ts)
  have len: "length (count_day s days t) = 7" using Cons.prems(1) by (simp add: count_day_def Let_def)
  have "(\<Sum>d\<leftarrow>count_day s days t. dc_Count d) = (\<Sum>d\<leftarrow>days. dc_Count d) + 1"
  proof -
    have "nat (day_index s t) < length days" using Cons.prems by auto
    from sum_list_update_int [OF this, of dc_Count] Cons.prems show ?thesis by (simp add: count_day_def Let_def)
  qed
  with Cons.IH [OF len] Cons.prems(2) show ?case by simp
qed simp

lemma code_stats_Inr:
  assumes "code_stats c w = (Inr st, w')"
  defines "s \<equiv> AddDate_days (fst (DayBounds (w_now w))) (- 6)"
  shows "st_ScansToday st = int (length (scans_since (qr_ID c) (fst (DayBounds (w_now w))) w))"
    "st_Scans7d st = int (length (scans_since (qr_ID c) s w))"
    "st_ScansByDay st = foldl (count_day s) (empty_days s) (map scan_ScannedAt (sort_key scan_ScannedAt (scans_since (qr_ID c) s w)))"
proof -
  let ?day = "fst (DayBounds (w_now w))" and ?since = "\<lambda>t. scans_since (qr_ID c) t w"
  obtain a w1 b w2 ts w3 n where a: "CountScans (qr_ID c) ?day w = (Inr a, w1)"
    and b: "CountScans (qr_ID c) s w1 = (Inr b, w2)" and ts: "ScanTimesSince (qr_ID c) s w2 = (Inr ts, w3)"
    and st: "st = \<lparr>st_ScansToday = int a, st_Scans7d = int b, st_ScansByDay = foldl (count_day s) (empty_days s) ts,
      st_BookingsViaQR = n\<rparr>"
    using assms(1) unfolding code_stats_def time_Now_def Let_def s_def by (auto elim!: bindE_InrE)
  have scans: "scans_since k t (v\<lparr>w_faults := fs\<rparr>) = scans_since k t v" for k t v fs
    by (simp add: scans_since_def)
  obtain f1 where 1: "a = length (?since ?day)" "w1 = w\<lparr>w_faults := f1\<rparr>"
    using query_eq [OF a [unfolded CountScans_def]] scans by auto
  obtain f2 where 2: "b = length (?since s)" "w2 = w1\<lparr>w_faults := f2\<rparr>"
    using query_eq [OF b [unfolded CountScans_def]] scans 1(2) by auto
  have "ts = map scan_ScannedAt (sort_key scan_ScannedAt (?since s))"
    using query_eq(1) [OF ts [unfolded ScanTimesSince_def]] scans 1(2) 2(2) by simp
  with 1 2 st show "st_ScansToday st = int (length (?since ?day))" "st_Scans7d st = int (length (?since s))"
    "st_ScansByDay st = foldl (count_day s) (empty_days s) (map scan_ScannedAt (sort_key scan_ScannedAt (?since s)))"
    by simp_all
qed

text \<open>
  The statistics of a code add up: the seven daily counts sum to the seven-day count and the last of
  them is today's count, although the day of a scan is computed in floating point.
\<close>

theorem code_stats_add_up:
  assumes "code_stats c w = (Inr st, w')" "\<And>x. x \<in> set (w_scans w) \<Longrightarrow> scan_ScannedAt x \<le> w_now w"
  shows "length (st_ScansByDay st) = 7 \<and> (\<Sum>d\<leftarrow>st_ScansByDay st. dc_Count d) = st_Scans7d st \<and>
    dc_Count (st_ScansByDay st ! 6) = st_ScansToday st"
proof -
  obtain day day' where b: "DayBounds (w_now w) = (day, day')" by (metis surj_pair)
  note bounds = DayBounds_day(1-3) [OF b]
  define s where "s = AddDate_days day (- 6)"
  have s: "s = day - 6 * Day" by (simp add: s_def AddDate_days_eq)
  note st = code_stats_Inr [OF assms(1), unfolded b fst_conv, folded s_def]
  let ?scans = "scans_since (qr_ID c) s w"
  let ?ts = "map scan_ScannedAt (sort_key scan_ScannedAt ?scans)"
  have recent: "0 \<le> t - s \<and> t - s < 7 * Day" if "t \<in> set ?ts" for t
    using that assms(2) bounds s by (fastforce simp: scans_since_def)
  have index: "day_index s t = (t - s) div Day" if "t \<in> set ?ts" for t
    unfolding day_index_def by (rule truncated_day_index) (use recent [OF that] Day_pos in auto)
  have range: "\<forall>t \<in> set ?ts. 0 \<le> day_index s t \<and> day_index s t < 7"
  proof
    fix t assume t: "t \<in> set ?ts"
    show "0 \<le> day_index s t \<and> day_index s t < 7"
      using recent [OF t] unfolding index [OF t] by (auto simp: duration_defs)
  qed
  have days: "length (empty_days s) = 7" "(\<Sum>d\<leftarrow>empty_days s. dc_Count d) = 0" "dc_Count (empty_days s ! 6) = 0"
    by (simp_all add: empty_days_def o_def)
  have last: "day_index s t = 6 \<longleftrightarrow> day \<le> t" if "t \<in> set ?ts" for t
    using recent [OF that] s unfolding index [OF that] by (auto simp: duration_defs)
  have "filter (\<lambda>t. day_index s t = 6) ?ts = filter (\<lambda>t. day \<le> t) ?ts"
    by (rule filter_cong [OF refl]) (use last in blast)
  also have "\<dots> = map scan_ScannedAt (sort_key scan_ScannedAt (filter (\<lambda>x. day \<le> scan_ScannedAt x) ?scans))"
    by (simp add: filter_map o_def filter_sort)
  also have "filter (\<lambda>x. day \<le> scan_ScannedAt x) ?scans = scans_since (qr_ID c) day w"
    using Day_pos s by (auto simp: scans_since_def intro!: filter_cong)
  finally have "length (filter (\<lambda>t. day_index s t = int 6) ?ts) = length (scans_since (qr_ID c) day w)" by simp
  then have "dc_Count (st_ScansByDay st ! 6) = st_ScansToday st"
    using count_days_nth [OF days(1), of 6 s ?ts] days(3) st(1,3) by simp
  moreover have "(\<Sum>d\<leftarrow>st_ScansByDay st. dc_Count d) = st_Scans7d st"
    using count_days_sum [OF days(1) range] days(2) st(2,3) by simp
  ultimately show ?thesis using st(3) days(1) by simp
qed

definition scanned_world :: world where
  "scanned_world = sticker_world\<lparr>w_now := 8 * Day, w_scans :=
     [\<lparr>scan_ID = 5, scan_QRCodeID = 2, scan_ScannedAt = 8 * Day\<rparr>, \<lparr>scan_ID = 6, scan_QRCodeID = 2, scan_ScannedAt = 3 * Day\<rparr>,
      \<lparr>scan_ID = 7, scan_QRCodeID = 3, scan_ScannedAt = 0\<rparr>]\<rparr>"

theorem code_stats_add_up_witness:
  "\<exists>st w'. code_stats (sticker 2 (Some 1)) scanned_world = (Inr st, w') \<and> length (st_ScansByDay st) = 7 \<and>
     (\<Sum>d\<leftarrow>st_ScansByDay st. dc_Count d) = st_Scans7d st \<and> dc_Count (st_ScansByDay st ! 6) = st_ScansToday st"
proof -
  have "w_faults scanned_world = []" by (simp add: scanned_world_def sticker_world_def empty_world_def)
  then have "is_ok (fst (code_stats (sticker 2 (Some 1)) scanned_world))"
    by (simp add: code_stats_def time_Now_def CountScans_def ScanTimesSince_def CountCreatedNearTimes_def Let_def
        bindE_def sticker_def split: list.splits prod.splits)
  then obtain st w' where run: "code_stats (sticker 2 (Some 1)) scanned_world = (Inr st, w')" by (rule is_ok_fstE)
  have "scan_ScannedAt x \<le> w_now scanned_world" if "x \<in> set (w_scans scanned_world)" for x
    using that by (auto simp: scanned_world_def duration_defs)
  from code_stats_add_up [OF run this] run show ?thesis by blast
qed

end
