(* ===== verification/Notifications.thy ===== *)
theory Notifications
  imports Booking Users WpRepo GoStrings Endpoints
begin

text \<open>
  \<open>internal/device\<close>, \<open>internal/notification\<close> and \<open>internal/platform/push\<close>: the push tokens of the
  customers' phones, the notifications of a booking's stages, the scheduler that sends the reminder
  and the late notice, and the free text messages of the staff.

  What the push provider and the SMS gateway answer are parameters: \<open>push token message\<close> is the
  outcome of one push, \<open>sms phone text\<close> tells whether the gateway took a message. Everything handed
  to either of them is kept in \<open>w_outbox\<close>. \<open>errors.Join\<close> of the failures of one stage is the
  internal error it would be answered with; the callers only log it.
\<close>

section \<open>Devices\<close>

definition PlatformAndroid :: string where "PlatformAndroid = ''android''"
definition PlatformIOS :: string where "PlatformIOS = ''ios''"

definition Platform_Valid :: "string \<Rightarrow> bool" where
  "Platform_Valid p \<longleftrightarrow> p = PlatformAndroid \<or> p = PlatformIOS"

definition has_user :: "uuid \<Rightarrow> world \<Rightarrow> bool" where
  "has_user userID w \<longleftrightarrow> (\<exists>u \<in> set (w_users w). u_ID u = userID)"

text \<open>The upsert on the unique token; the user must exist and the platform is checked.\<close>

definition upsert_device :: "uuid \<Rightarrow> string \<Rightarrow> string \<Rightarrow> world \<Rightarrow> DeviceToken list" where
  "upsert_device userID token platform w =
     (if token \<in> dt_Token ` set (w_devices w)
      then update_where (\<lambda>d. dt_Token d = token) (\<lambda>d. d\<lparr>dt_UserID := userID, dt_Platform := platform\<rparr>) (w_devices w)
      else w_devices w @
        [\<lparr>dt_ID = w_next w, dt_UserID = userID, dt_Token = token, dt_Platform = platform, dt_CreatedAt = w_now w\<rparr>])"

definition Upsert :: "uuid \<Rightarrow> string \<Rightarrow> string \<Rightarrow> unit db" where
  "Upsert userID token platform =
     statement (\<lambda>w.
       if has_user userID w \<and> Platform_Valid platform
       then (Inr (), w\<lparr>w_devices := upsert_device userID token platform w, w_next := w_next w + 1\<rparr>)
       else (Inl Internal, w\<lparr>w_next := w_next w + 1\<rparr>))"

definition DeleteOwned :: "uuid \<Rightarrow> string \<Rightarrow> unit db" where
  "DeleteOwned userID token =
     exec (\<lambda>w. w\<lparr>w_devices := delete_where (\<lambda>d. dt_UserID d = userID \<and> dt_Token d = token) (w_devices w)\<rparr>)"

definition DeleteByToken :: "string \<Rightarrow> unit db" where
  "DeleteByToken token =
     exec (\<lambda>w. w\<lparr>w_devices := delete_where (\<lambda>d. dt_Token d = token) (w_devices w)\<rparr>)"

definition user_devices :: "uuid \<Rightarrow> world \<Rightarrow> DeviceToken list" where
  "user_devices userID w = filter (\<lambda>d. dt_UserID d = userID) (w_devices w)"

definition Device_ListByUser :: "uuid \<Rightarrow> DeviceToken list db" where
  "Device_ListByUser userID = query (user_devices userID)"

record registerRequest =
  rr_Token :: string
  rr_Platform :: string

definition maxTokenLen :: nat where "maxTokenLen = 4096"

definition device_register :: "AuthUser option \<Rightarrow> apperror + registerRequest \<Rightarrow> unit db" where
  "device_register ctx body =
     bindE (lift_result (AuthUserFrom ctx)) (\<lambda>authUser.
     bindE (lift_result body) (\<lambda>req.
     let token = TrimSpace (rr_Token req)
     in bindE (require (\<not> (token = [] \<or> length token > maxTokenLen)) (BadRequest ''invalid_token'')) (\<lambda>_.
        bindE (require (Platform_Valid (rr_Platform req)) (BadRequest ''invalid_platform'')) (\<lambda>_.
        Upsert (au_id authUser) token (rr_Platform req)))))"

definition device_unregister :: "AuthUser option \<Rightarrow> string \<Rightarrow> unit db" where
  "device_unregister ctx token =
     bindE (lift_result (AuthUserFrom ctx)) (\<lambda>authUser. DeleteOwned (au_id authUser) token)"

section \<open>The notifications table\<close>

text \<open>The foreign keys of a row, and the unique index on the booking and the kind.\<close>

definition notification_fks :: "Notification \<Rightarrow> world \<Rightarrow> bool" where
  "notification_fks n w \<longleftrightarrow> has_user (nt_UserID n) w \<and>
     (case nt_QueueID n of None \<Rightarrow> True | Some qid \<Rightarrow> (\<exists>q \<in> set (w_queue w). q_ID q = qid))"

definition stage_of :: "Notification \<Rightarrow> (uuid \<times> notification_kind) option" where
  "stage_of n = (case (nt_QueueID n, nt_Kind n) of (Some qid, Some k) \<Rightarrow> Some (qid, k) | _ \<Rightarrow> None)"

definition stage_recorded :: "Notification \<Rightarrow> world \<Rightarrow> bool" where
  "stage_recorded n w \<longleftrightarrow> stage_of n \<noteq> None \<and> (\<exists>m \<in> set (w_notifications w). stage_of m = stage_of n)"

definition stored :: "Notification \<Rightarrow> world \<Rightarrow> Notification" where
  "stored n w = n\<lparr>nt_ID := w_next w, nt_CreatedAt := w_now w\<rparr>"

definition NotificationRepo_Create :: "Notification \<Rightarrow> Notification db" where
  "NotificationRepo_Create n =
     statement (\<lambda>w.
       if notification_fks n w \<and> \<not> stage_recorded n w
       then (Inr (stored n w), w\<lparr>w_notifications := w_notifications w @ [stored n w], w_next := w_next w + 1\<rparr>)
       else (Inl Internal, w\<lparr>w_next := w_next w + 1\<rparr>))"

text \<open>
  \<open>ON CONFLICT DO NOTHING\<close>: the identifier the row was to get, and whether it was created. The
  conflict is found before the foreign keys are checked.
\<close>

definition CreateOnce :: "Notification \<Rightarrow> (uuid \<times> bool) db" where
  "CreateOnce n =
     statement (\<lambda>w.
       if stage_recorded n w then (Inr (w_next w, False), w\<lparr>w_next := w_next w + 1\<rparr>)
       else if notification_fks n w
       then (Inr (w_next w, True), w\<lparr>w_notifications := w_notifications w @ [stored n w], w_next := w_next w + 1\<rparr>)
       else (Inl Internal, w\<lparr>w_next := w_next w + 1\<rparr>))"

definition delivered_as :: "notification_status \<Rightarrow> time option \<Rightarrow> Notification \<Rightarrow> Notification" where
  "delivered_as status sentAt n = n\<lparr>nt_Status := status, nt_SentAt := sentAt\<rparr>"

definition UpdateDeliveryResult :: "uuid \<Rightarrow> notification_status \<Rightarrow> time option \<Rightarrow> unit db" where
  "UpdateDeliveryResult nid status sentAt =
     exec (\<lambda>w. w\<lparr>w_notifications :=
       update_where (\<lambda>n. nt_ID n = nid) (delivered_as status sentAt) (w_notifications w)\<rparr>)"

definition user_notifications :: "uuid \<Rightarrow> world \<Rightarrow> Notification list" where
  "user_notifications userID w = filter (\<lambda>n. nt_UserID n = userID) (w_notifications w)"

definition Notification_ListByUser :: "uuid \<Rightarrow> int \<Rightarrow> int \<Rightarrow> (Notification list \<times> nat) db" where
  "Notification_ListByUser userID offs limt =
     bindE (query (\<lambda>w. length (user_notifications userID w))) (\<lambda>cnt.
     bindE (query (\<lambda>w. take (nat limt) (drop (nat offs)
       (sort_key (\<lambda>n. - nt_CreatedAt n) (user_notifications userID w))))) (\<lambda>rows.
     return_ok (rows, cnt)))"

section \<open>Due stages\<close>

record dueWindow =
  dw_from :: duration
  dw_until :: duration
  dw_needsLeadTime :: bool

text \<open>The map \<open>dueWindows\<close>; a kind that is not in it has the zero window.\<close>

definition dueWindows :: "notification_kind \<Rightarrow> dueWindow" where
  "dueWindows kind =
     (case kind of
        KindReminder \<Rightarrow> \<lparr>dw_from = - Hour, dw_until = 0, dw_needsLeadTime = True\<rparr>
      | KindLate \<Rightarrow> \<lparr>dw_from = 5 * Minute, dw_until = 2 * Hour, dw_needsLeadTime = False\<rparr>
      | _ \<Rightarrow> \<lparr>dw_from = 0, dw_until = 0, dw_needsLeadTime = False\<rparr>)"

definition due :: "notification_kind \<Rightarrow> time \<Rightarrow> world \<Rightarrow> Queue \<Rightarrow> bool" where
  "due kind now w q \<longleftrightarrow>
     q_Status q \<in> {StatusQueue, StatusWaiting} \<and>
     q_ScheduledStartAt q + dw_from (dueWindows kind) \<le> now \<and>
     q_ScheduledStartAt q + dw_until (dueWindows kind) > now \<and>
     (\<exists>d \<in> set (w_devices w). dt_UserID d = q_UserID q) \<and>
     \<not> (\<exists>n \<in> set (w_notifications w). nt_QueueID n = Some (q_ID q) \<and> nt_Kind n = Some kind) \<and>
     (dw_needsLeadTime (dueWindows kind) \<longrightarrow>
       q_CreatedAt q \<le> q_ScheduledStartAt q + dw_from (dueWindows kind))"

definition due_rows :: "notification_kind \<Rightarrow> time \<Rightarrow> world \<Rightarrow> Queue list" where
  "due_rows kind now w = sort_key q_ScheduledStartAt (filter (due kind now w) (w_queue w))"

definition FindDue :: "notification_kind \<Rightarrow> time \<Rightarrow> Queue list db" where
  "FindDue kind now = query (due_rows kind now)"

section \<open>Messages\<close>

text \<open>\<open>start.In(clock.BusinessLocation).Format("15:04")\<close>.\<close>

definition format_15_04 :: "time \<Rightarrow> string" where
  "format_15_04 t =
     pad_zeros 2 (nat (local_clock t div Hour)) @ '':'' @ pad_zeros 2 (nat (local_clock t mod Hour div Minute))"

primrec kind_string :: "notification_kind \<Rightarrow> string" where
  "kind_string KindReminder = ''reminder_1h''"
| "kind_string KindLate = ''late_5m''"
| "kind_string KindStarted = ''started''"
| "kind_string KindFinished = ''finished''"

lemma kind_string_inject [simp]: "kind_string k = kind_string l \<longleftrightarrow> k = l"
  by (cases k; cases l) simp_all

text \<open>Title and body of a stage.\<close>

definition stageMessage :: "notification_kind \<Rightarrow> string \<Rightarrow> int \<Rightarrow> time \<Rightarrow> string \<times> string" where
  "stageMessage kind pointName boxNumber start =
     (let dot = utf8 [32, 194, 183, 32]
      in case kind of
        KindReminder \<Rightarrow>
          (utf8 [208, 161, 208, 186, 208, 190, 209, 128, 208, 190, 32, 208, 188, 208, 190, 208, 185,
                208, 186, 208, 176],
           utf8 [208, 167, 208, 181, 209, 128, 208, 181, 208, 183, 32, 209, 135, 208, 176, 209, 129,
                32, 194, 183, 32] @
           format_15_04 start @ '', '' @ pointName)
      | KindLate \<Rightarrow>
          (utf8 [208, 146, 208, 176, 209, 129, 32, 208, 182, 208, 180, 209, 131, 209, 130],
           utf8 [208, 146, 209, 128, 208, 181, 208, 188, 209, 143, 32, 208, 183, 208, 176, 208, 191,
                208, 184, 209, 129, 208, 184, 32, 209, 131, 208, 182, 208, 181, 32, 208, 189, 208, 176,
                209, 135, 208, 176, 208, 187, 208, 190, 209, 129, 209, 140, 32, 226, 128, 148, 32, 208,
                191, 208, 190, 208, 180, 209, 138, 208, 181, 208, 183, 208, 182, 208, 176, 208, 185, 209,
                130, 208, 181, 32, 208, 186, 32, 208, 177, 208, 190, 208, 186, 209, 129, 209, 131, 32] @
           Itoa boxNumber @ dot @ pointName)
      | KindStarted \<Rightarrow>
          (utf8 [208, 156, 208, 190, 208, 185, 208, 186, 208, 176, 32, 208, 189, 208, 176, 209, 135,
                208, 176, 208, 187, 208, 176, 209, 129, 209, 140],
           utf8 [208, 145, 208, 190, 208, 186, 209, 129, 32] @ Itoa boxNumber @ dot @ pointName)
      | KindFinished \<Rightarrow>
          (utf8 [208, 156, 208, 176, 209, 136, 208, 184, 208, 189, 208, 176, 32, 208, 179, 208, 190,
                209, 130, 208, 190, 208, 178, 208, 176],
           utf8 [208, 156, 208, 190, 208, 182, 208, 189, 208, 190, 32, 208, 183, 208, 176, 208, 177,
                208, 184, 209, 128, 208, 176, 209, 130, 209, 140, 32, 194, 183, 32] @ pointName))"

definition stage_push :: "notification_kind \<Rightarrow> string \<Rightarrow> Queue \<Rightarrow> push_message" where
  "stage_push kind pointName q =
     (let (title, body) = stageMessage kind pointName (q_BoxNumber q) (q_ScheduledStartAt q)
      in \<lparr>pm_Title = title, pm_Body = body, pm_Type = ''booking_stage'', pm_Kind = kind_string kind,
          pm_QueueID = q_ID q\<rparr>)"

definition kindForStatus :: "Status \<Rightarrow> notification_kind option" where
  "kindForStatus s = (case s of StatusWashing \<Rightarrow> Some KindStarted | StatusReady \<Rightarrow> Some KindFinished | _ \<Rightarrow> None)"

section \<open>The push provider\<close>

datatype push_outcome = PushOk | PushUnregistered | PushFailed

text \<open>
  \<open>FCM.Send\<close>: what it makes of the provider's response, a status code with the status and the
  error codes of the JSON body (empty when it cannot be parsed), or no response at all. A request
  is the token with the message.
\<close>

record fcm_response =
  fr_StatusCode :: int
  fr_Status :: string
  fr_ErrorCodes :: "string list"

definition FCM_Send :: "(string \<Rightarrow> push_message \<Rightarrow> fcm_response option) \<Rightarrow> string \<Rightarrow> push_message \<Rightarrow> push_outcome" where
  "FCM_Send transport deviceToken msg =
     (case transport deviceToken msg of
        None \<Rightarrow> PushFailed
      | Some resp \<Rightarrow>
          if fr_StatusCode resp = 200 then PushOk
          else if fr_StatusCode resp = 404 \<or> fr_Status resp = ''NOT_FOUND'' then PushUnregistered
          else if ''UNREGISTERED'' \<in> set (fr_ErrorCodes resp) then PushUnregistered
          else PushFailed)"

definition Noop_Send :: "string \<Rightarrow> push_message \<Rightarrow> push_outcome" where
  "Noop_Send deviceToken msg = PushOk"

section \<open>Sending a stage\<close>

definition hand_over :: "outbound \<Rightarrow> unit db" where
  "hand_over m = writes (\<lambda>w. w\<lparr>w_outbox := w_outbox w @ [m]\<rparr>)"

text \<open>One round of the loop over the tokens: whether a push was delivered, whether an error was met.\<close>

definition push_one ::
  "(string \<Rightarrow> push_message \<Rightarrow> push_outcome) \<Rightarrow> push_message \<Rightarrow> bool \<times> bool \<Rightarrow> DeviceToken \<Rightarrow> (bool \<times> bool) db" where
  "push_one push msg acc t =
     bindE (hand_over (Push (dt_Token t) msg)) (\<lambda>_.
     case push (dt_Token t) msg of
       PushOk \<Rightarrow> return_ok (True, snd acc)
     | PushUnregistered \<Rightarrow> bindE (attempt (DeleteByToken (dt_Token t))) (\<lambda>r. return_ok (fst acc, snd acc \<or> r = None))
     | PushFailed \<Rightarrow> return_ok (fst acc, True))"

definition stage_row :: "notification_kind \<Rightarrow> push_message \<Rightarrow> Queue \<Rightarrow> time \<Rightarrow> Notification" where
  "stage_row kind msg q now =
     \<lparr>nt_ID = uuid_Nil, nt_UserID = q_UserID q, nt_QueueID = Some (q_ID q), nt_Status = NotPending,
      nt_Channel = ChannelPush, nt_Kind = Some kind, nt_Text = pm_Title msg @ '': '' @ pm_Body msg,
      nt_SendAt = now, nt_SentAt = None, nt_CreatedAt = ZeroTime\<rparr>"

definition send_stage ::
  "(string \<Rightarrow> push_message \<Rightarrow> push_outcome) \<Rightarrow> push_message \<Rightarrow> DeviceToken list \<Rightarrow> uuid \<Rightarrow> unit db" where
  "send_stage push msg tokens nid =
     bindE (foldE (push_one push msg) (False, False) tokens) (\<lambda>(delivered, failed).
     bindE time_Now (\<lambda>now.
     bindE (attempt (UpdateDeliveryResult nid (if delivered then NotSent else NotFailed) (Some now))) (\<lambda>r.
     if failed \<or> r = None then fail_with Internal else return_ok ())))"

definition NotifyStage :: "(string \<Rightarrow> push_message \<Rightarrow> push_outcome) \<Rightarrow> Queue \<Rightarrow> notification_kind \<Rightarrow> unit db" where
  "NotifyStage push q kind =
     (if q_IsOverflow q then return_ok ()
      else
        bindE (Device_ListByUser (q_UserID q)) (\<lambda>tokens.
        if length tokens = 0 then return_ok ()
        else
          bindE (WpRepo_FindByID (q_WashingPointID q)) (\<lambda>wp.
          let msg = stage_push kind (wp_Name wp) q
          in bindE time_Now (\<lambda>now.
             bindE (CreateOnce (stage_row kind msg q now)) (\<lambda>(nid, created).
             if \<not> created then return_ok () else send_stage push msg tokens nid)))))"

text \<open>
  The notifier of \<open>Manager.UpdateStatus\<close>. The goroutine it starts is run to its end here; a late
  start is the interleaving of the next theory.
\<close>

definition NotifyStatus :: "(string \<Rightarrow> push_message \<Rightarrow> push_outcome) \<Rightarrow> Queue \<Rightarrow> world \<Rightarrow> world" where
  "NotifyStatus push q w =
     (case kindForStatus (q_Status q) of None \<Rightarrow> w | Some kind \<Rightarrow> snd (NotifyStage push q kind w))"

section \<open>The scheduler\<close>

definition timeBasedKinds :: "notification_kind list" where
  "timeBasedKinds = [KindReminder, KindLate]"

definition notify_due ::
  "(string \<Rightarrow> push_message \<Rightarrow> push_outcome) \<Rightarrow> notification_kind \<Rightarrow> bool \<Rightarrow> Queue \<Rightarrow> bool db" where
  "notify_due push kind failed q =
     bindE (attempt (NotifyStage push q kind)) (\<lambda>r. return_ok (failed \<or> r = None))"

definition tick_kind ::
  "(string \<Rightarrow> push_message \<Rightarrow> push_outcome) \<Rightarrow> time \<Rightarrow> bool \<Rightarrow> notification_kind \<Rightarrow> bool db" where
  "tick_kind push now failed kind =
     bindE (attempt (FindDue kind now)) (\<lambda>r.
     case r of
       None \<Rightarrow> return_ok True
     | Some rows \<Rightarrow> foldE (notify_due push kind) failed rows)"

definition Tick :: "(string \<Rightarrow> push_message \<Rightarrow> push_outcome) \<Rightarrow> time \<Rightarrow> unit db" where
  "Tick push now =
     bindE (foldE (tick_kind push now) False timeBasedKinds) (\<lambda>failed.
     if failed then fail_with Internal else return_ok ())"

section \<open>Messages of the staff\<close>

record CreateInput =
  ci_UserID :: uuid
  ci_QueueID :: "uuid option"
  ci_Text :: string
  ci_SendAt :: time
  ci_Caller :: AuthUser

definition attemptSend :: "(string \<Rightarrow> string \<Rightarrow> bool) \<Rightarrow> string \<Rightarrow> Notification \<Rightarrow> Notification db" where
  "attemptSend sms phoneNumber n =
     bindE time_Now (\<lambda>now.
     bindE (hand_over (Sms phoneNumber (nt_Text n))) (\<lambda>_.
     let status = (if sms phoneNumber (nt_Text n) then NotSent else NotFailed)
     in bindE (attempt (UpdateDeliveryResult (nt_ID n) status (Some now))) (\<lambda>r.
        return_ok (case r of None \<Rightarrow> n | Some _ \<Rightarrow> delivered_as status (Some now) n))))"

definition check_booking :: "AuthUser \<Rightarrow> User \<Rightarrow> uuid option \<Rightarrow> unit db" where
  "check_booking caller target queueID =
     (case queueID of
        None \<Rightarrow> return_ok ()
      | Some qid \<Rightarrow>
          bindE (QueueRepo_FindByID qid) (\<lambda>q.
          bindE (require (q_UserID q = u_ID target) (BadRequest ''queue_user_mismatch'')) (\<lambda>_.
          require (OwnsWashingPoint caller (q_WashingPointID q)) (NotFound ''queue_not_found''))))"

definition Notification_Create :: "(string \<Rightarrow> string \<Rightarrow> bool) \<Rightarrow> CreateInput \<Rightarrow> Notification db" where
  "Notification_Create sms i =
     bindE (require (\<not> (ci_QueueID i = None \<and> au_role (ci_Caller i) \<noteq> RoleAdmin)) (BadRequest ''queue_id_required'')) (\<lambda>_.
     bindE (UserRepo_FindByID (ci_UserID i)) (\<lambda>target.
     bindE (check_booking (ci_Caller i) target (ci_QueueID i)) (\<lambda>_.
     bindE (NotificationRepo_Create
       \<lparr>nt_ID = uuid_Nil, nt_UserID = ci_UserID i, nt_QueueID = ci_QueueID i, nt_Status = NotPending,
        nt_Channel = ChannelSMS, nt_Kind = None, nt_Text = ci_Text i, nt_SendAt = ci_SendAt i,
        nt_SentAt = None, nt_CreatedAt = ZeroTime\<rparr>) (\<lambda>n.
     bindE time_Now (\<lambda>now.
     if \<not> ci_SendAt i > now then attemptSend sms (PhoneOrEmpty target) n else return_ok n)))))"

section \<open>Endpoints\<close>

record notification_response =
  nr_id :: uuid
  nr_user_id :: uuid
  nr_queue_id :: "uuid option"
  nr_status :: string
  nr_channel :: string
  nr_text :: string
  nr_send_at :: time
  nr_sent_at :: "time option"
  nr_created_at :: time

primrec notification_status_string :: "notification_status \<Rightarrow> string" where
  "notification_status_string NotPending = ''pending''"
| "notification_status_string NotSent = ''sent''"
| "notification_status_string NotFailed = ''failed''"

primrec channel_string :: "notification_channel \<Rightarrow> string" where
  "channel_string ChannelSMS = ''sms''"
| "channel_string ChannelPush = ''push''"

definition notification_toResponse :: "Notification \<Rightarrow> notification_response" where
  "notification_toResponse n =
     \<lparr>nr_id = nt_ID n, nr_user_id = nt_UserID n, nr_queue_id = nt_QueueID n,
      nr_status = notification_status_string (nt_Status n), nr_channel = channel_string (nt_Channel n),
      nr_text = nt_Text n, nr_send_at = nt_SendAt n, nr_sent_at = nt_SentAt n, nr_created_at = nt_CreatedAt n\<rparr>"

record notification_request =
  nq_user_id :: string
  nq_queue_id :: "string option"
  nq_text :: string
  nq_send_at :: "string option"

definition parse_queue_id :: "(string \<Rightarrow> uuid option) \<Rightarrow> string option \<Rightarrow> apperror + uuid option" where
  "parse_queue_id uuid_parse raw =
     (case raw of
        None \<Rightarrow> Inr None
      | Some s \<Rightarrow> (case uuid_parse s of None \<Rightarrow> Inl (BadRequest ''invalid_queue_id'') | Some k \<Rightarrow> Inr (Some k)))"

definition parse_send_at :: "(string \<Rightarrow> time option) \<Rightarrow> time \<Rightarrow> string option \<Rightarrow> apperror + time" where
  "parse_send_at parse_RFC3339 now raw =
     (case raw of
        None \<Rightarrow> Inr now
      | Some s \<Rightarrow> (case parse_RFC3339 s of None \<Rightarrow> Inl (BadRequest ''invalid_send_at'') | Some t \<Rightarrow> Inr t))"

definition notification_create ::
  "(string \<Rightarrow> string \<Rightarrow> bool) \<Rightarrow> (string \<Rightarrow> uuid option) \<Rightarrow> (string \<Rightarrow> time option) \<Rightarrow> AuthUser option \<Rightarrow>
   apperror + notification_request \<Rightarrow> notification_response db" where
  "notification_create sms uuid_parse parse_RFC3339 ctx body =
     bindE (lift_result (AuthUserFrom ctx)) (\<lambda>authUser.
     bindE (lift_result body) (\<lambda>req.
     bindE (case uuid_parse (nq_user_id req) of
              None \<Rightarrow> fail_with (BadRequest ''invalid_user_id'') | Some k \<Rightarrow> return_ok k) (\<lambda>userID.
     bindE (lift_result (parse_queue_id uuid_parse (nq_queue_id req))) (\<lambda>queueID.
     let txt = TrimSpace (nq_text req)
     in bindE (require (\<not> (txt = [] \<or> length txt > 2000)) (BadRequest ''invalid_text'')) (\<lambda>_.
        bindE time_Now (\<lambda>now.
        bindE (lift_result (parse_send_at parse_RFC3339 now (nq_send_at req))) (\<lambda>sendAt.
        bindE (Notification_Create sms
          \<lparr>ci_UserID = userID, ci_QueueID = queueID, ci_Text = txt, ci_SendAt = sendAt, ci_Caller = authUser\<rparr>) (\<lambda>n.
        return_ok (notification_toResponse n)))))))))"

definition notification_list ::
  "AuthUser option \<Rightarrow> string \<Rightarrow> string \<Rightarrow> (notification_response list \<times> Pagination \<times> nat) db" where
  "notification_list ctx rawPage rawSize =
     bindE (lift_result (AuthUserFrom ctx)) (\<lambda>authUser.
     let pagination = ParsePagination rawPage rawSize
     in bindE (Notification_ListByUser (au_id authUser) (Offset pagination) (Limit pagination)) (\<lambda>(rows, cnt).
        return_ok (map notification_toResponse rows, pagination, cnt)))"

end
