(* ===== verification/Reminders.thy ===== *)
theory Reminders
  imports Notifications
begin

text \<open>
  What the scheduler and the staff messages achieve. A tick on a database that answers leaves no
  stage due, and hands the message of every stage that was due to the provider for every device of
  the customer. A message of the staff reaches only the customer of a booking of their own point.
\<close>

section \<open>A database that answers\<close>

definition stages :: "world \<Rightarrow> (uuid \<times> notification_kind) set" where
  "stages w = {s. \<exists>n \<in> set (w_notifications w). stage_of n = Some s}"

text \<open>What was handed over after the first \<open>n\<close> messages.\<close>

definition sent :: "nat \<Rightarrow> world \<Rightarrow> outbound set" where
  "sent n w = set (drop n (w_outbox w))"

text \<open>The provider said the token of the device is gone when it was handed a message.\<close>

definition gone :: "(string \<Rightarrow> push_message \<Rightarrow> push_outcome) \<Rightarrow> nat \<Rightarrow> DeviceToken \<Rightarrow> world \<Rightarrow> bool" where
  "gone push n d w \<longleftrightarrow> (\<exists>msg. Push (dt_Token d) msg \<in> sent n w \<and> push (dt_Token d) msg = PushUnregistered)"

text \<open>How a world may follow another while stages are sent and no statement fails.\<close>

definition later :: "(string \<Rightarrow> push_message \<Rightarrow> push_outcome) \<Rightarrow> nat \<Rightarrow> world \<Rightarrow> world \<Rightarrow> bool" where
  "later push n u v \<longleftrightarrow> w_faults v = [] \<and> w_queue v = w_queue u \<and> w_users v = w_users u \<and> w_points v = w_points u \<and>
     w_now v = w_now u \<and> set (w_devices v) \<subseteq> set (w_devices u) \<and>
     (\<forall>d \<in> set (w_devices u). d \<in> set (w_devices v) \<or> gone push n d v) \<and>
     n \<le> length (w_outbox u) \<and> (\<exists>ms. w_outbox v = w_outbox u @ ms) \<and> stages u \<subseteq> stages v"

lemma later_refl [simp]: "w_faults w = [] \<Longrightarrow> n \<le> length (w_outbox w) \<Longrightarrow> later push n w w"
  by (simp add: later_def)

lemma later_outbox: "later push n u v \<Longrightarrow> m \<in> sent n u \<Longrightarrow> m \<in> sent n v"
  by (auto simp: later_def sent_def)

lemma later_length: "later push n u v \<Longrightarrow> n \<le> length (w_outbox v)"
  by (auto simp: later_def)

lemma later_gone: "later push n u v \<Longrightarrow> gone push n d u \<Longrightarrow> gone push n d v"
  by (auto simp: gone_def dest: later_outbox)

lemma later_trans: "later push n u v \<Longrightarrow> later push n v x \<Longrightarrow> later push n u x"
  using later_gone [of push n v x] by (auto simp: later_def)

lemma laterD:
  assumes "later push n u v"
  shows "w_faults v = []" "w_queue v = w_queue u" "w_users v = w_users u" "w_points v = w_points u"
    "set (w_devices v) \<subseteq> set (w_devices u)" "stages u \<subseteq> stages v"
    "d \<in> set (w_devices u) \<Longrightarrow> d \<in> set (w_devices v) \<or> gone push n d v"
  using assms by (auto simp: later_def)

lemma attempt_run: "m w = (r, w') \<Longrightarrow> attempt m w = (Inr (case r of Inl _ \<Rightarrow> None | Inr x \<Rightarrow> Some x), w')"
  by (cases r) (simp_all add: attempt_def bindE_def catchE_def)

text \<open>The loop over the tokens.\<close>

lemma push_loop:
  assumes "w_faults w = []" "n \<le> length (w_outbox w)"
  shows "\<exists>acc' w'. foldE (push_one push msg) acc ts w = (Inr acc', w') \<and> later push n w w' \<and>
    w_notifications w' = w_notifications w \<and> w_next w' = w_next w \<and>
    (\<forall>t \<in> set ts. Push (dt_Token t) msg \<in> sent n w')"
  using assms
proof (induction ts arbitrary: acc w)
  case (Cons t ts)
  let ?w1 = "w\<lparr>w_outbox := w_outbox w @ [Push (dt_Token t) msg]\<rparr>"
  obtain acc1 w1 where one: "push_one push msg acc t w = (Inr acc1, w1)" "later push n w w1"
    "w_notifications w1 = w_notifications w" "w_next w1 = w_next w" "Push (dt_Token t) msg \<in> sent n w1"
  proof (cases "push (dt_Token t) msg")
    case PushUnregistered
    let ?w2 = "?w1\<lparr>w_devices := delete_where (\<lambda>d. dt_Token d = dt_Token t) (w_devices w)\<rparr>"
    show ?thesis
    proof (rule that [of acc ?w2])
      show "push_one push msg acc t w = (Inr acc, ?w2)"
        using Cons.prems PushUnregistered
        by (simp add: push_one_def hand_over_def bindE_def attempt_def catchE_def DeleteByToken_def)
      show "later push n w ?w2"
        using Cons.prems PushUnregistered by (auto simp: later_def gone_def sent_def stages_def set_delete_where)
    qed (use Cons.prems in \<open>simp_all add: sent_def\<close>)
  next
    case PushOk
    then show ?thesis
      using Cons.prems
      by (intro that [of "(True, snd acc)" ?w1]) (auto simp: push_one_def hand_over_def bindE_def later_def sent_def stages_def)
  next
    case PushFailed
    then show ?thesis
      using Cons.prems
      by (intro that [of "(fst acc, True)" ?w1]) (auto simp: push_one_def hand_over_def bindE_def later_def sent_def stages_def)
  qed
  from Cons.IH [OF laterD(1) [OF one(2)] later_length [OF one(2)], of acc1] obtain acc' w' where rest: "foldE (push_one push msg) acc1 ts w1 = (Inr acc', w')"
    "later push n w1 w'" "w_notifications w' = w_notifications w1" "w_next w' = w_next w1"
    "\<forall>t \<in> set ts. Push (dt_Token t) msg \<in> sent n w'" by blast
  show ?case
    using one rest later_trans [OF one(2) rest(2)] later_outbox [OF rest(2) one(5)]
    by (auto simp: bindE_Inr [where m = "push_one push msg acc t", OF one(1)])
qed auto

definition point_name :: "Queue \<Rightarrow> world \<Rightarrow> string" where
  "point_name q w = (case find_row wp_ID (q_WashingPointID q) (w_points w) of None \<Rightarrow> [] | Some p \<Rightarrow> wp_Name p)"

text \<open>The foreign keys of a booking: its customer and its washing point exist.\<close>

definition booking_placed :: "world \<Rightarrow> Queue \<Rightarrow> bool" where
  "booking_placed w q \<longleftrightarrow> q \<in> set (w_queue w) \<and> has_user (q_UserID q) w \<and>
     find_row wp_ID (q_WashingPointID q) (w_points w) \<noteq> None"

definition handled :: "(string \<Rightarrow> push_message \<Rightarrow> push_outcome) \<Rightarrow> nat \<Rightarrow> notification_kind \<Rightarrow> Queue \<Rightarrow> world \<Rightarrow> world \<Rightarrow> bool" where
  "handled push n kind q u v \<longleftrightarrow> q_IsOverflow q \<or>
     ((q_ID q, kind) \<in> stages v \<or> user_devices (q_UserID q) v = []) \<and>
     (\<forall>d \<in> set (user_devices (q_UserID q) u).
        Push (dt_Token d) (stage_push kind (point_name q u) q) \<in> sent n v \<or> gone push n d v)"

lemma stage_of_delivered [simp]: "stage_of (delivered_as st t n) = stage_of n"
  by (simp add: stage_of_def delivered_as_def)

lemma stages_delivered: "stages (w\<lparr>w_notifications := update_where p (delivered_as st t) (w_notifications w)\<rparr>) = stages w"
proof -
  let ?f = "delivered_as st t"
  have map: "map stage_of (update_where p ?f rows) = map stage_of rows" for rows
    by (rule update_where_keys) simp
  have "stages v = {s. Some s \<in> set (map stage_of (w_notifications v))}" for v
    by (auto simp: stages_def) (metis imageI)
  then show ?thesis by (simp del: set_map add: map)
qed

lemma stage_recorded_iff: "stage_of n = Some s \<Longrightarrow> stage_recorded n w \<longleftrightarrow> s \<in> stages w"
  by (auto simp: stage_recorded_def stages_def)

lemma send_stage_no_fault:
  assumes "w_faults w = []" "n \<le> length (w_outbox w)" "send_stage push msg tokens nid w = (r, w')"
  shows "later push n w w'" "stages w' = stages w" "\<forall>t \<in> set tokens. Push (dt_Token t) msg \<in> sent n w'"
proof -
  obtain acc' v where loop: "foldE (push_one push msg) (False, False) tokens w = (Inr acc', v)" "later push n w v"
    "w_notifications v = w_notifications w" "\<forall>t \<in> set tokens. Push (dt_Token t) msg \<in> sent n v"
    using push_loop [OF assms(1,2), of push msg "(False, False)" tokens] by blast
  have v: "w_faults v = []" using laterD(1) [OF loop(2)] .
  have w': "w' = v\<lparr>w_notifications := update_where (\<lambda>n. nt_ID n = nid)
      (delivered_as (if fst acc' then NotSent else NotFailed) (Some (w_now v))) (w_notifications v)\<rparr>"
    using assms(3) v
    unfolding send_stage_def bindE_Inr [where m = "foldE (push_one push msg) (False, False) tokens", OF loop(1)]
    by (auto simp: time_Now_def bindE_def attempt_def catchE_def UpdateDeliveryResult_def split: prod.splits if_splits)
  have st: "stages w' = stages v" unfolding w' by (rule stages_delivered)
  have "stages v = stages w" by (simp add: stages_def loop(3))
  with st show stages: "stages w' = stages w" by simp
  show "later push n w w'" using loop(2) stages by (auto simp: later_def w' gone_def sent_def)
  show "\<forall>t \<in> set tokens. Push (dt_Token t) msg \<in> sent n w'" using loop(4) by (simp add: w' sent_def)
qed

lemma NotifyStage_no_fault:
  assumes "w_faults w = []" "n \<le> length (w_outbox w)" "booking_placed w q" "(q_ID q, kind) \<notin> stages w" "NotifyStage push q kind w = (r, w')"
  shows "later push n w w'" "handled push n kind q w w'" "stages w' \<subseteq> insert (q_ID q, kind) (stages w)"
proof -
  let ?ts = "user_devices (q_UserID q) w"
  have goal: "later push n w w' \<and> handled push n kind q w w' \<and> stages w' \<subseteq> insert (q_ID q, kind) (stages w)"
  proof (cases "q_IsOverflow q \<or> ?ts = []")
    case True
    then have "w' = w" using assms(1,5)
      by (auto simp: NotifyStage_def Device_ListByUser_def bindE_no_fault split: if_splits)
    then show ?thesis using True assms(1,2) by (auto simp: handled_def)
  next
    case False
    obtain p where p: "find_row wp_ID (q_WashingPointID q) (w_points w) = Some p"
      using assms(3) by (auto simp: booking_placed_def)
    let ?msg = "stage_push kind (point_name q w) q"
    let ?row = "stage_row kind ?msg q (w_now w)"
    let ?w1 = "w\<lparr>w_notifications := w_notifications w @ [stored ?row w], w_next := w_next w + 1\<rparr>"
    have st: "stage_of ?row = Some (q_ID q, kind)" "stage_of (stored ?row w) = Some (q_ID q, kind)"
      by (simp_all add: stage_row_def stored_def stage_of_def)
    have fk: "notification_fks ?row w" using assms(3) by (auto simp: notification_fks_def stage_row_def booking_placed_def)
    have fresh: "\<not> stage_recorded ?row w" using stage_recorded_iff [OF st(1)] assms(4) by simp
    have name: "point_name q w = wp_Name p" by (simp add: point_name_def p)
    have once: "CreateOnce ?row w = (Inr (w_next w, True), ?w1)"
      using assms(1) fk fresh by (simp add: CreateOnce_def)
    have send: "send_stage push ?msg ?ts (w_next w) ?w1 = (r, w')"
      using assms(1,5) False p once
      by (simp add: NotifyStage_def Device_ListByUser_def bindE_no_fault WpRepo_FindByID_def point_by_id_def bindE_def
          time_Now_def Let_def name [symmetric] del: name split: prod.splits)
    have w1: "w_faults ?w1 = []" using assms(1) by simp
    have n1: "n \<le> length (w_outbox ?w1)" using assms(2) by simp
    note sent = send_stage_no_fault [OF w1 n1 send]
    have l1: "later push n w ?w1" using assms(1,2) by (auto simp: later_def stages_def)
    have s1: "stages ?w1 = insert (q_ID q, kind) (stages w)" using st(2) by (auto simp: stages_def)
    show ?thesis
      using later_trans [OF l1 sent(1)] sent(2,3) s1 by (auto simp: handled_def)
  qed
  then show "later push n w w'" "handled push n kind q w w'" "stages w' \<subseteq> insert (q_ID q, kind) (stages w)" by blast+
qed

section \<open>A tick\<close>

lemma later_devices: "later push n u v \<Longrightarrow> set (user_devices k v) \<subseteq> set (user_devices k u)"
  by (auto simp: later_def user_devices_def)

lemma later_no_devices: "later push n u v \<Longrightarrow> user_devices k u = [] \<Longrightarrow> user_devices k v = []"
  using later_devices [of push n u v k] by simp

lemma later_user_device:
  assumes "later push n u v" "d \<in> set (user_devices k u)"
  shows "d \<in> set (user_devices k v) \<or> gone push n d v"
  using assms laterD(7) [OF assms(1), of d] by (auto simp: user_devices_def)

lemma later_placed: "later push n u v \<Longrightarrow> booking_placed v q = booking_placed u q"
  by (simp add: later_def booking_placed_def has_user_def)

lemma handled_mono:
  assumes "later push n u u1" "later push n u1 v1" "later push n v1 v" "handled push n kind q u1 v1"
  shows "handled push n kind q u v"
proof (cases "q_IsOverflow q")
  case False
  have name: "point_name q u1 = point_name q u" by (simp add: point_name_def laterD(4) [OF assms(1)])
  have "Push (dt_Token d) (stage_push kind (point_name q u) q) \<in> sent n v \<or> gone push n d v"
    if d: "d \<in> set (user_devices (q_UserID q) u)" for d
    using later_user_device [OF assms(1) d]
  proof
    assume "d \<in> set (user_devices (q_UserID q) u1)"
    then have "Push (dt_Token d) (stage_push kind (point_name q u) q) \<in> sent n v1 \<or> gone push n d v1"
      using assms(4) False by (simp add: handled_def name)
    then show ?thesis using later_outbox [OF assms(3)] later_gone [OF assms(3)] by blast
  next
    assume "gone push n d u1"
    then show ?thesis using later_gone [OF assms(2)] later_gone [OF assms(3)] by blast
  qed
  moreover have "(q_ID q, kind) \<in> stages v \<or> user_devices (q_UserID q) v = []"
    using assms(4) False laterD(6) [OF assms(3)] later_no_devices [OF assms(3)] by (auto simp: handled_def)
  ultimately show ?thesis by (simp add: handled_def)
qed (simp add: handled_def)

lemma notify_rows:
  assumes "w_faults u = []" "n \<le> length (w_outbox u)" "\<forall>q \<in> set rows. booking_placed u q" "distinct (map q_ID rows)"
    "\<forall>q \<in> set rows. (q_ID q, kind) \<notin> stages u" "foldE (notify_due push kind) failed rows u = (r, v)"
  shows "later push n u v \<and> (\<forall>q \<in> set rows. handled push n kind q u v) \<and>
    stages v \<subseteq> stages u \<union> (\<lambda>q. (q_ID q, kind)) ` set rows \<and> is_ok r"
  using assms
proof (induction rows arbitrary: u failed)
  case (Cons q rows)
  obtain res u1 where run: "NotifyStage push q kind u = (res, u1)" by (cases "NotifyStage push q kind u")
  have placed: "booking_placed u q" and new: "(q_ID q, kind) \<notin> stages u" using Cons.prems by simp_all
  note one = NotifyStage_no_fault [OF Cons.prems(1,2) placed new run]
  have later: "later push n u u1" and f1: "w_faults u1 = []" using one(1) laterD(1) [OF one(1)] .
  have step: "notify_due push kind failed q u = (Inr (failed \<or> \<not> is_ok res), u1)"
    using attempt_run [where m = "NotifyStage push q kind", OF run]
    by (cases res) (simp_all add: notify_due_def bindE_def)
  have rest: "foldE (notify_due push kind) (failed \<or> \<not> is_ok res) rows u1 = (r, v)"
    using Cons.prems(6) by (simp add: bindE_Inr [where m = "notify_due push kind failed q", OF step])
  have "\<forall>q' \<in> set rows. (q_ID q', kind) \<notin> stages u1"
    using one(3) Cons.prems(4,5) by (auto simp: image_iff) (metis insertE prod.inject subsetD)
  moreover have "\<forall>q' \<in> set rows. booking_placed u1 q'" using later_placed [OF later] Cons.prems(3) by simp
  ultimately have IH: "later push n u1 v \<and> (\<forall>q \<in> set rows. handled push n kind q u1 v) \<and>
    stages v \<subseteq> stages u1 \<union> (\<lambda>q. (q_ID q, kind)) ` set rows \<and> is_ok r"
    using Cons.IH [OF f1 later_length [OF later] _ _ _ rest] Cons.prems(4) by simp
  then have l2: "later push n u1 v" and fv: "w_faults v = []" using laterD(1) by blast+
  have "handled push n kind q u v" by (rule handled_mono [OF _ one(1) l2 one(2)]) (simp_all add: Cons.prems(1,2))
  moreover have "handled push n kind q' u v" if "q' \<in> set rows" for q'
    using IH that by (intro handled_mono [OF later l2 later_refl [OF fv later_length [OF l2]]]) simp
  ultimately show ?case using later_trans [OF later l2] IH one(3) by auto
qed auto

definition bookings_placed :: "world \<Rightarrow> bool" where
  "bookings_placed w \<longleftrightarrow> distinct (map q_ID (w_queue w)) \<and> (\<forall>q \<in> set (w_queue w). booking_placed w q)"

lemma later_bookings: "later push n u v \<Longrightarrow> bookings_placed v = bookings_placed u"
  by (simp add: bookings_placed_def later_placed laterD(2))

lemma due_iff:
  "due kind now w q \<longleftrightarrow> q_Status q \<in> {StatusQueue, StatusWaiting} \<and>
     q_ScheduledStartAt q + dw_from (dueWindows kind) \<le> now \<and> q_ScheduledStartAt q + dw_until (dueWindows kind) > now \<and>
     (dw_needsLeadTime (dueWindows kind) \<longrightarrow> q_CreatedAt q \<le> q_ScheduledStartAt q + dw_from (dueWindows kind)) \<and>
     user_devices (q_UserID q) w \<noteq> [] \<and> (q_ID q, kind) \<notin> stages w"
proof -
  have "stage_of n = Some (q_ID q, kind) \<longleftrightarrow> nt_QueueID n = Some (q_ID q) \<and> nt_Kind n = Some kind" for n
    by (auto simp: stage_of_def split: option.splits)
  then have "(q_ID q, kind) \<in> stages w \<longleftrightarrow>
      (\<exists>n \<in> set (w_notifications w). nt_QueueID n = Some (q_ID q) \<and> nt_Kind n = Some kind)"
    by (simp add: stages_def)
  moreover have "user_devices (q_UserID q) w \<noteq> [] \<longleftrightarrow> (\<exists>d \<in> set (w_devices w). dt_UserID d = q_UserID q)"
    by (auto simp: user_devices_def filter_empty_conv)
  ultimately show ?thesis unfolding due_def by blast
qed

lemma set_due_rows: "q \<in> set (due_rows kind now w) \<longleftrightarrow> q \<in> set (w_queue w) \<and> due kind now w q"
  by (simp add: due_rows_def)

lemma tick_kind_no_fault:
  assumes "w_faults u = []" "n \<le> length (w_outbox u)" "bookings_placed u" "tick_kind push now failed kind u = (r, v)"
  shows "later push n u v" "\<forall>q \<in> set (due_rows kind now u). handled push n kind q u v"
    "stages v \<subseteq> stages u \<union> UNIV \<times> {kind}" "is_ok r"
proof -
  let ?rows = "due_rows kind now u"
  have run: "foldE (notify_due push kind) failed ?rows u = (r, v)"
    using assms(1,4) by (simp add: tick_kind_def FindDue_def bindE_def attempt_def catchE_def)
  have "distinct (map q_ID ?rows)"
    using assms(3) by (simp add: due_rows_def bookings_placed_def distinct_map inj_on_def)
  moreover have "\<forall>q \<in> set ?rows. booking_placed u q" "\<forall>q \<in> set ?rows. (q_ID q, kind) \<notin> stages u"
    using assms(3) by (simp_all add: bookings_placed_def set_due_rows due_iff)
  ultimately have "later push n u v \<and> (\<forall>q \<in> set ?rows. handled push n kind q u v) \<and>
      stages v \<subseteq> stages u \<union> (\<lambda>q. (q_ID q, kind)) ` set ?rows \<and> is_ok r"
    using notify_rows [OF assms(1,2) _ _ _ run] by blast
  then show "later push n u v" "\<forall>q \<in> set ?rows. handled push n kind q u v"
    "stages v \<subseteq> stages u \<union> UNIV \<times> {kind}" "is_ok r" by auto
qed

text \<open>A booking due at a later point of the tick was due before, and one due before is due or lost its devices.\<close>

lemma later_due: "later push n u v \<Longrightarrow> due kind now v q \<Longrightarrow> due kind now u q"
  using later_no_devices [of push n u v "q_UserID q"] laterD(6) [of push n u v] by (auto simp: due_iff)

lemma due_later:
  assumes "later push n u v" "due kind now u q" "(q_ID q, kind) \<notin> stages v" "\<not> due kind now v q"
  shows "user_devices (q_UserID q) v = []"
  using assms by (auto simp: due_iff)

lemma devices_lost:
  assumes "later push n u v" "user_devices (q_UserID q) v = []"
  shows "handled push n kind q u v"
  using later_user_device [OF assms(1), of _ "q_UserID q"] assms(2) by (auto simp: handled_def)

lemma Tick_kinds:
  assumes "Tick push now w = (r, w')"
  obtains f u r2 where "tick_kind push now False KindReminder w = (Inr f, u)" "tick_kind push now f KindLate u = (r2, w')"
    | e where "tick_kind push now False KindReminder w = (Inl e, w')"
proof -
  obtain r1 u where one: "tick_kind push now False KindReminder w = (r1, u)" by (cases "tick_kind push now False KindReminder w")
  show ?thesis
  proof (cases r1)
    case (Inl e)
    then show ?thesis
      using that(2) [of e] assms one by (simp add: Tick_def timeBasedKinds_def bindE_def)
  next
    case (Inr f)
    obtain r2 v where two: "tick_kind push now f KindLate u = (r2, v)" by (cases "tick_kind push now f KindLate u")
    have "w' = v" using assms one Inr two
      by (auto simp: Tick_def timeBasedKinds_def bindE_def split: sum.splits if_splits)
    then show ?thesis using that(1) [of f u r2] one Inr two by simp
  qed
qed

lemma Tick_no_fault:
  assumes "w_faults w = []" "n \<le> length (w_outbox w)" "bookings_placed w" "Tick push now w = (r, w')"
    "kind \<in> set timeBasedKinds"
  shows "later push n w w'" "\<forall>q \<in> set (due_rows kind now w). handled push n kind q w w'"
proof -
  have "later push n w w' \<and> (\<forall>q \<in> set (due_rows kind now w). handled push n kind q w w')"
    using assms(4)
  proof (cases rule: Tick_kinds)
    case (1 f u r2)
    note one = tick_kind_no_fault [OF assms(1-3) 1(1)]
    have u: "w_faults u = []" "n \<le> length (w_outbox u)" "bookings_placed u"
      using laterD(1) [OF one(1)] later_length [OF one(1)] later_bookings [OF one(1)] assms(3) by simp_all
    note two = tick_kind_no_fault [OF u 1(2)]
    have l: "later push n w w'" by (rule later_trans [OF one(1) two(1)])
    have end_refl: "later push n w' w'" using laterD(1) [OF l] later_length [OF l] by simp
    have "handled push n kind q w w'" if q: "q \<in> set (due_rows kind now w)" for q
    proof (cases "kind = KindReminder")
      case True
      then show ?thesis
        using one(2) q by (intro handled_mono [OF _ one(1) two(1)]) (simp_all add: assms(1,2))
    next
      case False
      then have late: "kind = KindLate" using assms(5) by (simp add: timeBasedKinds_def)
      have queue: "q \<in> set (w_queue u)" and due: "due kind now w q"
        using q laterD(2) [OF one(1)] by (simp_all add: set_due_rows)
      show ?thesis
      proof (cases "due kind now u q")
        case True
        then show ?thesis
          using two(2) late queue
          by (intro handled_mono [OF one(1) two(1) end_refl]) (simp add: set_due_rows)
      next
        case False
        have "(q_ID q, kind) \<notin> stages u" using one(3) due late by (auto simp: due_iff)
        from due_later [OF one(1) due this False] later_no_devices [OF two(1)]
        show ?thesis by (intro devices_lost [OF l]) simp
      qed
    qed
    with l show ?thesis by blast
  next
    case (2 e)
    from tick_kind_no_fault(4) [OF assms(1-3) 2] show ?thesis by simp
  qed
  then show "later push n w w'" "\<forall>q \<in> set (due_rows kind now w). handled push n kind q w w'" by blast+
qed

text \<open>
  C19 A tick on a database that answers leaves no stage of a booking in a box due: what is still selected
  afterwards are overflow bookings, which have no box to announce and are never recorded. For every
  stage of a booking in a box that was due, every device the customer had when the tick began was handed
  its message, unless the provider answered during the tick that the token of this device is gone;
  whatever else the provider answers, no booking stops the others.
\<close>

theorem Tick_serves_all_due:
  assumes "w_faults w = []" "bookings_placed w" "Tick push now w = (r, w')" "kind \<in> set timeBasedKinds"
  shows "(\<forall>q \<in> set (due_rows kind now w'). q_IsOverflow q) \<and>
    (\<forall>q \<in> set (due_rows kind now w). \<not> q_IsOverflow q \<longrightarrow> (\<forall>d \<in> set (user_devices (q_UserID q) w).
       Push (dt_Token d) (stage_push kind (point_name q w) q) \<in> sent (length (w_outbox w)) w' \<or>
       gone push (length (w_outbox w)) d w'))"
proof -
  note tick = Tick_no_fault [OF assms(1) order_refl assms(2-4)]
  have "q_IsOverflow q" if q: "q \<in> set (due_rows kind now w')" for q
  proof -
    have "q \<in> set (due_rows kind now w)"
      using q later_due [OF tick(1)] laterD(2) [OF tick(1)] by (auto simp: set_due_rows)
    with tick(2) show ?thesis using q by (auto simp: handled_def set_due_rows due_iff)
  qed
  with tick(2) show ?thesis by (auto simp: handled_def)
qed

text \<open>A customer with two phones, one of which no longer has the application.\<close>

definition phone_gone :: "string \<Rightarrow> push_message \<Rightarrow> push_outcome" where
  "phone_gone token msg = (if token = ''old'' then PushUnregistered else PushOk)"

definition waiting_booking :: Queue where
  "waiting_booking = \<lparr>q_ID = 50, q_Status = StatusWaiting, q_UserID = 7, q_CarID = None, q_ServiceID = 1,
     q_PriceOptionID = 2, q_WashingPointID = 5, q_BoxNumber = 1, q_IsOverflow = False,
     q_ScheduledStartAt = 3 * Hour, q_ScheduledEndAt = 4 * Hour, q_Notes = None, q_Source = SourceApp,
     q_CanceledAt = None, q_PausedAt = None, q_CreatedAt = 0, q_Items = []\<rparr>"

definition waiting_world :: world where
  "waiting_world = town_world\<lparr>w_queue := [waiting_booking],
     w_devices := [\<lparr>dt_ID = 60, dt_UserID = 7, dt_Token = ''old'', dt_Platform = ''android'', dt_CreatedAt = 0\<rparr>,
       \<lparr>dt_ID = 61, dt_UserID = 7, dt_Token = ''new'', dt_Platform = ''ios'', dt_CreatedAt = 0\<rparr>]\<rparr>"

lemma waiting_world_facts:
  "w_faults waiting_world = []" "w_outbox waiting_world = []" "bookings_placed waiting_world"
  "due_rows KindReminder (2 * Hour) waiting_world = [waiting_booking]"
  "map dt_Token (user_devices (q_UserID waiting_booking) waiting_world) = [''old'', ''new'']"
  "point_name waiting_booking waiting_world = ''A''"
proof -
  show "w_faults waiting_world = []" "w_outbox waiting_world = []"
    by (simp_all add: waiting_world_def town_world_def empty_world_def)
  show "bookings_placed waiting_world"
    by (simp add: waiting_world_def town_world_def empty_world_def bookings_placed_def booking_placed_def
        has_user_def waiting_booking_def)
  show "due_rows KindReminder (2 * Hour) waiting_world = [waiting_booking]"
    by (simp add: waiting_world_def town_world_def empty_world_def due_rows_def due_def waiting_booking_def
        dueWindows_def Hour_def Minute_def Second_def)
  show "map dt_Token (user_devices (q_UserID waiting_booking) waiting_world) = [''old'', ''new'']" by code_simp
  show "point_name waiting_booking waiting_world = ''A''" by code_simp
qed

lemma Tick_serves_all_due_witness:
  "\<exists>w'. Tick phone_gone (2 * Hour) waiting_world = (Inr (), w') \<and>
     (\<forall>q \<in> set (due_rows KindReminder (2 * Hour) w'). q_IsOverflow q) \<and>
     Push ''new'' (stage_push KindReminder ''A'' waiting_booking) \<in> set (w_outbox w')"
proof -
  have "is_ok (fst (Tick phone_gone (2 * Hour) waiting_world))" by code_simp
  then obtain x w' where "Tick phone_gone (2 * Hour) waiting_world = (Inr x, w')" by (rule is_ok_fstE)
  then have run: "Tick phone_gone (2 * Hour) waiting_world = (Inr (), w')" by simp
  have kind: "KindReminder \<in> set timeBasedKinds" by (simp add: timeBasedKinds_def)
  note served = Tick_serves_all_due [OF waiting_world_facts(1,3) run kind]
  obtain d where d: "d \<in> set (user_devices (q_UserID waiting_booking) waiting_world)" "dt_Token d = ''new''"
  proof -
    have "''new'' \<in> set (map dt_Token (user_devices (q_UserID waiting_booking) waiting_world))"
      unfolding waiting_world_facts(5) by simp
    then show ?thesis using that by (metis (no_types) imageE list.set_map)
  qed
  have "\<not> gone phone_gone 0 d w'" by (simp add: gone_def phone_gone_def d(2))
  moreover have "\<not> q_IsOverflow waiting_booking" by (simp add: waiting_booking_def)
  ultimately have "Push ''new'' (stage_push KindReminder ''A'' waiting_booking) \<in> sent 0 w'"
    using served d by (auto simp: waiting_world_facts)
  then show ?thesis using run served by (auto simp: sent_def)
qed

text \<open>An overflow booking is selected by every tick of its window: it is skipped without a record.\<close>

definition overflow_world :: world where
  "overflow_world = waiting_world\<lparr>w_queue := [waiting_booking\<lparr>q_IsOverflow := True, q_BoxNumber := 0\<rparr>]\<rparr>"

lemma overflow_stays_due:
  "due_rows KindReminder (2 * Hour) overflow_world = w_queue overflow_world \<and>
   due_rows KindReminder (2 * Hour) (snd (Tick phone_gone (2 * Hour) overflow_world)) = w_queue overflow_world"
  by code_simp

section \<open>Messages of the staff\<close>

lemma NotificationRepo_Create_cases:
  assumes "NotificationRepo_Create n w = (r, w')"
  obtains e where "r = Inl e" "same_tables w w'"
    | fs where "r = Inr (stored n w)"
      "w' = w\<lparr>w_faults := fs, w_notifications := w_notifications w @ [stored n w], w_next := w_next w + 1\<rparr>"
  using assms unfolding NotificationRepo_Create_def
proof (cases rule: statement_cases [where w = w and m = "\<lambda>w. if notification_fks n w \<and> \<not> stage_recorded n w
       then (Inr (stored n w), w\<lparr>w_notifications := w_notifications w @ [stored n w], w_next := w_next w + 1\<rparr>)
       else (Inl Internal, w\<lparr>w_next := w_next w + 1\<rparr>)"])
  case (fault fs)
  then show ?thesis using assms that(1) by (auto simp: NotificationRepo_Create_def)
next
  case (runs fs)
  have "stored n (w\<lparr>w_faults := fs\<rparr>) = stored n w" by (simp add: stored_def)
  then show ?thesis
    using assms runs(1) that by (auto simp: NotificationRepo_Create_def same_tables_def split: if_splits)
qed

lemma attemptSend_cases:
  assumes "attemptSend sms phone n w = (r, w')"
  obtains fs where "w' = w\<lparr>w_outbox := w_outbox w @ [Sms phone (nt_Text n)], w_faults := fs\<rparr>"
    | fs st where "w' = w\<lparr>w_outbox := w_outbox w @ [Sms phone (nt_Text n)], w_faults := fs,
        w_notifications := update_where (\<lambda>m. nt_ID m = nt_ID n) (delivered_as st (Some (w_now w))) (w_notifications w)\<rparr>"
proof -
  let ?st = "if sms phone (nt_Text n) then NotSent else NotFailed"
  let ?w1 = "w\<lparr>w_outbox := w_outbox w @ [Sms phone (nt_Text n)]\<rparr>"
  obtain res where "UpdateDeliveryResult (nt_ID n) ?st (Some (w_now w)) ?w1 = (res, w')"
    using assms
    by (auto simp: attemptSend_def hand_over_def time_Now_def bindE_def attempt_def catchE_def Let_def
        split: prod.splits sum.splits if_splits)
  then show ?thesis
    unfolding UpdateDeliveryResult_def
  proof (cases res)
    case (Inl e)
    then show ?thesis
      using \<open>UpdateDeliveryResult _ _ _ _ = _\<close> that(1)
      by (auto simp: UpdateDeliveryResult_def exec_def elim!: statement_Inl)
  next
    case (Inr x)
    then show ?thesis
      using \<open>UpdateDeliveryResult _ _ _ _ = _\<close> that(2)
      by (auto simp: UpdateDeliveryResult_def elim!: exec_Inr)
  qed
qed

text \<open>What the checks of \<open>Manager.Create\<close> let through.\<close>

definition may_notify :: "AuthUser \<Rightarrow> User \<Rightarrow> uuid option \<Rightarrow> world \<Rightarrow> bool" where
  "may_notify caller target queueID w \<longleftrightarrow> target \<in> set (w_users w) \<and>
     (au_role caller = ''admin'' \<or> (\<exists>q \<in> set (w_queue w). queueID = Some (q_ID q) \<and>
        q_UserID q = u_ID target \<and> OwnsWashingPoint caller (q_WashingPointID q)))"

lemma check_booking_Inr:
  assumes "check_booking caller target (Some qid) w = (Inr x, w')"
  shows "\<exists>q \<in> set (w_queue w). q_ID q = qid \<and> q_UserID q = u_ID target \<and> OwnsWashingPoint caller (q_WashingPointID q)"
proof -
  obtain q u where f: "QueueRepo_FindByID qid w = (Inr q, u)" and q: "q_UserID q = u_ID target"
    "OwnsWashingPoint caller (q_WashingPointID q)"
    using assms by (auto simp: check_booking_def elim!: bindE_InrE split: if_splits)
  obtain r its where r: "booking qid w = Some r" "q = r\<lparr>q_Items := its\<rparr>" by (rule QueueRepo_FindByID_Inr [OF f])
  from booking_SomeD [OF r(1)] q r(2) show ?thesis by auto
qed

lemma read_only_check_booking: "read_only (check_booking caller target queueID)"
  unfolding check_booking_def by (intro read_only_intros read_only_FindByID)

definition addressed :: "Notification \<Rightarrow> uuid \<times> uuid option \<times> string" where
  "addressed n = (nt_UserID n, nt_QueueID n, nt_Text n)"

lemma addressed_delivered: "map addressed (update_where p (delivered_as st t) rows) = map addressed rows"
  by (rule update_where_keys) (simp add: addressed_def delivered_as_def)

definition message_added :: "AuthUser \<Rightarrow> world \<Rightarrow> world \<Rightarrow> bool" where
  "message_added caller w w' \<longleftrightarrow> (\<exists>target queueID txt. may_notify caller target queueID w \<and>
     map addressed (w_notifications w') = map addressed (w_notifications w) @ [(u_ID target, queueID, txt)] \<and>
     w_devices w' = w_devices w \<and>
     (w_outbox w' = w_outbox w \<or> w_outbox w' = w_outbox w @ [Sms (PhoneOrEmpty target) txt]))"

lemma Notification_Create_cases:
  assumes "Notification_Create sms i w = (r, w')"
  shows "same_tables w w' \<or> message_added (ci_Caller i) w w'"
  using assms unfolding Notification_Create_def
proof (cases rule: bindE_cases)
  case (go x w1)
  then have role: "ci_QueueID i \<noteq> None \<or> au_role (ci_Caller i) = ''admin''" "w1 = w"
    by (auto simp: RoleAdmin_def split: if_splits)
  have ro: "read_only (UserRepo_FindByID (ci_UserID i))" by (simp add: UserRepo_FindByID_def read_only_first_or)
  from ro go(2) [unfolded role(2)] show ?thesis
  proof (cases rule: bindE_read_only)
    case (2 target w2)
    have target: "target \<in> set (w_users w)" "u_ID target = ci_UserID i"
      using 2(1) by (auto simp: UserRepo_FindByID_def elim!: first_or_Inr dest: find_row_SomeD)
    from read_only_check_booking 2(3) show ?thesis
    proof (cases rule: bindE_read_only)
      case (2 y w3)
      have "may_notify (ci_Caller i) target (ci_QueueID i) w2" if "ci_QueueID i = Some qid" for qid
        using check_booking_Inr [OF 2(1) [unfolded that]] target(1) same_tablesD(1) [OF \<open>same_tables w w2\<close>]
        by (auto simp: may_notify_def that)
      then have may: "may_notify (ci_Caller i) target (ci_QueueID i) w"
        using role(1) target(1) same_tablesD(1,8) [OF \<open>same_tables w w2\<close>]
        by (cases "ci_QueueID i") (auto simp: may_notify_def)
      have w3: "same_tables w w3" using same_tables_trans \<open>same_tables w w2\<close> 2(2) by blast
      from 2(3) show ?thesis
      proof (cases rule: bindE_cases)
        case (stop e)
        from stop(1) show ?thesis
          by (rule NotificationRepo_Create_cases) (use same_tables_trans [OF w3] in auto)
      next
        case (go n w4)
        from go(1) obtain fs where n: "addressed n = (u_ID target, ci_QueueID i, nt_Text n)"
          and w4: "w4 = w3\<lparr>w_faults := fs, w_notifications := w_notifications w3 @ [n], w_next := w_next w3 + 1\<rparr>"
        proof (rule NotificationRepo_Create_cases)
          fix fs
          let ?row = "\<lparr>nt_ID = uuid_Nil, nt_UserID = ci_UserID i, nt_QueueID = ci_QueueID i, nt_Status = NotPending,
            nt_Channel = ChannelSMS, nt_Kind = None, nt_Text = ci_Text i, nt_SendAt = ci_SendAt i,
            nt_SentAt = None, nt_CreatedAt = ZeroTime\<rparr>"
          assume a: "Inr n = (Inr (stored ?row w3) :: apperror + Notification)"
            "w4 = w3\<lparr>w_faults := fs, w_notifications := w_notifications w3 @ [stored ?row w3], w_next := w_next w3 + 1\<rparr>"
          have n: "n = stored ?row w3" using a(1) by simp
          have "addressed n = (u_ID target, ci_QueueID i, nt_Text n)"
            unfolding n by (simp add: stored_def addressed_def target(2))
          with a(2) show ?thesis unfolding n [symmetric] by (rule that [rotated])
        qed simp
        have base: "map addressed (w_notifications w4) = map addressed (w_notifications w) @ [(u_ID target, ci_QueueID i, nt_Text n)]"
          "w_devices w4 = w_devices w" "w_outbox w4 = w_outbox w"
          using same_tablesD [OF w3] by (simp_all add: w4 n)
        show ?thesis
        proof (cases "ci_SendAt i > w_now w4")
          case True
          then have "w' = w4" using go(2) by (simp add: time_Now_def bindE_def)
          then show ?thesis using may base unfolding message_added_def by blast
        next
          case False
          then have "attemptSend sms (PhoneOrEmpty target) n w4 = (r, w')"
            using go(2) by (simp add: time_Now_def bindE_def)
          then have "map addressed (w_notifications w') = map addressed (w_notifications w4)"
            "w_devices w' = w_devices w4" "w_outbox w' = w_outbox w4 @ [Sms (PhoneOrEmpty target) (nt_Text n)]"
            by (rule attemptSend_cases, simp_all add: addressed_delivered)+
          then show ?thesis using may base unfolding message_added_def by metis
        qed
      qed
    qed (use 2(2) same_tables_trans in blast)
  qed blast
qed (auto split: if_splits)

text \<open>
  C20 Whatever a request to send a message does, it never reaches a stranger. Either nothing changed,
  or one row was added for one account and at most one SMS was handed over, to the phone of that
  account; and the caller is an administrator, or the account has a booking at a point of the caller.
\<close>

theorem staff_notify_own_customers:
  assumes "notification_create sms uuid_parse parse_RFC3339 (Some u) body w = (r, w')"
  shows "same_tables w w' \<or>
    (\<exists>target queueID txt. target \<in> set (w_users w) \<and>
       map addressed (w_notifications w') = map addressed (w_notifications w) @ [(u_ID target, queueID, txt)] \<and>
       w_devices w' = w_devices w \<and>
       (w_outbox w' = w_outbox w \<or> w_outbox w' = w_outbox w @ [Sms (PhoneOrEmpty target) txt]) \<and>
       (au_role u = ''admin'' \<or> (\<exists>q \<in> set (w_queue w). queueID = Some (q_ID q) \<and>
          q_UserID q = u_ID target \<and> OwnsWashingPoint u (q_WashingPointID q))))"
proof -
  have "same_tables w w' \<or> (\<exists>i r'. ci_Caller i = u \<and> Notification_Create sms i w = (r', w'))"
    using assms
    by (auto simp: notification_create_def AuthUserFrom_def Let_def time_Now_def elim!: bindE_cases
        split: if_splits option.splits sum.splits)
  then show ?thesis
    using Notification_Create_cases unfolding message_added_def may_notify_def by metis
qed

text \<open>Staff of point 5 write to the customer who waits there.\<close>

definition point_staff :: AuthUser where
  "point_staff = \<lparr>au_id = 9, au_role = ''staff'', au_wp = Some 5\<rparr>"

definition demo_uuid :: "string \<Rightarrow> uuid option" where
  "demo_uuid s = (if s = ''customer'' then Some 7 else if s = ''booking'' then Some 50 else None)"

definition staff_message :: notification_request where
  "staff_message = \<lparr>nq_user_id = ''customer'', nq_queue_id = Some ''booking'', nq_text = ''come'', nq_send_at = None\<rparr>"

lemma staff_notify_own_customers_witness:
  "\<exists>r w'. notification_create (\<lambda>_ _. True) demo_uuid (\<lambda>_. None) (Some point_staff) (Inr staff_message) waiting_world = (Inr r, w') \<and>
     w_outbox w' = [Sms ''+992900000001'' ''come''] \<and>
     (\<exists>q \<in> set (w_queue waiting_world). q_UserID q = 7 \<and> OwnsWashingPoint point_staff (q_WashingPointID q))"
proof -
  let ?run = "notification_create (\<lambda>_ _. True) demo_uuid (\<lambda>_. None) (Some point_staff) (Inr staff_message) waiting_world"
  have "case ?run of (r, w') \<Rightarrow> is_ok r \<and> w_outbox w' = [Sms ''+992900000001'' ''come''] \<and> length (w_notifications w') = 1"
    by code_simp
  then obtain r w' where run: "?run = (Inr r, w')" and out: "w_outbox w' = [Sms ''+992900000001'' ''come'']"
    and rows: "length (w_notifications w') = 1"
    by (auto simp: is_ok_def split: prod.splits sum.splits)
  have "w_notifications waiting_world = []" by (simp add: waiting_world_def town_world_def empty_world_def)
  then have "\<not> same_tables waiting_world w'" using rows same_tablesD(22) by force
  moreover have "au_role point_staff \<noteq> ''admin''" by (simp add: point_staff_def)
  moreover have users: "target \<in> set (w_users waiting_world) \<Longrightarrow> u_ID target = 7" for target
    by (auto simp: waiting_world_def town_world_def)
  ultimately have "\<exists>q \<in> set (w_queue waiting_world). q_UserID q = 7 \<and> OwnsWashingPoint point_staff (q_WashingPointID q)"
    using staff_notify_own_customers [OF run] by metis
  with run out show ?thesis by blast
qed

text \<open>
  The owner of the booking is compared before the point: a foreign booking is told from a missing
  one by addressing it to anybody else.
\<close>

lemma foreign_booking_told_apart:
  assumes "w_faults w = []" "find_row u_ID (ci_UserID i) (w_users w) = Some target" "ci_QueueID i = Some qid"
    "\<And>q. booking qid w = Some q \<Longrightarrow> q_UserID q \<noteq> ci_UserID i"
  shows "Notification_Create sms i w =
     (case booking qid w of
        None \<Rightarrow> (Inl (NotFound ''queue_not_found''), w)
      | Some q \<Rightarrow> (Inl (BadRequest ''queue_user_mismatch''), w))"
proof -
  have t: "u_ID target = ci_UserID i" using find_row_SomeD [OF assms(2)] by simp
  show ?thesis
    using assms
    by (auto simp: Notification_Create_def bindE_def UserRepo_FindByID_def check_booking_def
        QueueRepo_FindByID_no_fault t split: option.split)
qed

end
