(* ===== verification/NotifySteps.thy ===== *)
theory NotifySteps
  imports Reminders
begin

text \<open>
  Stage notifications under concurrency. A status change starts a goroutine per booking and several
  API instances may run the scheduler at once, so any number of calls of \<open>NotifyStage\<close> are in
  flight: each has read the tokens, then claims the stage with \<open>CreateOnce\<close>, then pushes to one
  token after the other. The step relation takes these statements one by one and lets devices be
  registered and removed, staff messages be sent, senders die and every other table change in between.
\<close>

section \<open>Senders in flight\<close>

datatype job =
    Claiming Queue notification_kind push_message "DeviceToken list"
  | Sending uuid push_message "string list"

text \<open>Which device gets which stage of which booking: what a push is for.\<close>

type_synonym push_key = "string \<times> uuid \<times> string"

primrec push_key :: "outbound \<Rightarrow> push_key option" where
  "push_key (Push t m) = Some (t, pm_QueueID m, pm_Kind m)"
| "push_key (Sms p txt) = None"

definition pushes :: "world \<Rightarrow> push_key list" where
  "pushes w = List.map_filter push_key (w_outbox w)"

primrec pending :: "job \<Rightarrow> push_key list" where
  "pending (Claiming q k m ts) = []"
| "pending (Sending nid m ts) = map (\<lambda>t. (t, pm_QueueID m, pm_Kind m)) ts"

inductive notify_step :: "world \<times> job list \<Rightarrow> world \<times> job list \<Rightarrow> bool" where
  read: "Device_ListByUser (q_UserID q) w = (Inr ts, w') \<Longrightarrow>
    notify_step (w, js) (w', js @ [Claiming q k (stage_push k name q) ts])"
| claim: "CreateOnce (stage_row k m q now) w = (Inr (nid, True), w') \<Longrightarrow>
    notify_step (w, js @ Claiming q k m ts # js') (w', js @ Sending nid m (map dt_Token ts) # js')"
| lose: "CreateOnce (stage_row k m q now) w = (r, w') \<Longrightarrow> r \<noteq> Inr (nid, True) \<Longrightarrow>
    notify_step (w, js @ Claiming q k m ts # js') (w', js @ js')"
| send: "hand_over (Push t m) w = (r, w') \<Longrightarrow>
    notify_step (w, js @ Sending nid m (t # ts) # js') (w', js @ Sending nid m ts # js')"
| die: "notify_step (w, js @ j # js') (w, js @ js')"
| result: "UpdateDeliveryResult nid st at' w = (r, w') \<Longrightarrow> notify_step (w, js) (w', js)"
| unregister: "DeleteByToken t w = (r, w') \<Longrightarrow> notify_step (w, js) (w', js)"
| logout: "DeleteOwned u t w = (r, w') \<Longrightarrow> notify_step (w, js) (w', js)"
| register: "Upsert u t p w = (r, w') \<Longrightarrow> notify_step (w, js) (w', js)"
| message: "NotificationRepo_Create n w = (r, w') \<Longrightarrow> notify_step (w, js) (w', js)"
| sms: "hand_over (Sms p txt) w = (r, w') \<Longrightarrow> notify_step (w, js) (w', js)"
| other: "w_devices w' = w_devices w \<Longrightarrow> w_notifications w' = w_notifications w \<Longrightarrow> w_outbox w' = w_outbox w \<Longrightarrow>
    notify_step (w, js) (w', js)"

text \<open>Pushed or about to be pushed, each stage to each device at most once, and only when recorded.\<close>

definition in_flight :: "world \<times> job list \<Rightarrow> push_key list" where
  "in_flight s = pushes (fst s) @ concat (map pending (snd s))"

definition recorded :: "world \<Rightarrow> push_key \<Rightarrow> bool" where
  "recorded w x \<longleftrightarrow> (\<exists>kind. snd (snd x) = kind_string kind \<and> (fst (snd x), kind) \<in> stages w)"

primrec claim_ok :: "job \<Rightarrow> bool" where
  "claim_ok (Claiming q k m ts) \<longleftrightarrow>
     distinct (map dt_Token ts) \<and> pm_QueueID m = q_ID q \<and> pm_Kind m = kind_string k"
| "claim_ok (Sending nid m ts) \<longleftrightarrow> True"

definition notify_ok :: "world \<times> job list \<Rightarrow> bool" where
  "notify_ok s \<longleftrightarrow> distinct (map dt_Token (w_devices (fst s))) \<and> distinct (in_flight s) \<and>
     (\<forall>x \<in> set (in_flight s). recorded (fst s) x) \<and> (\<forall>j \<in> set (snd s). claim_ok j)"

lemma pushes_snoc: "pushes (w\<lparr>w_outbox := w_outbox w @ [m]\<rparr>) = pushes w @ (case push_key m of None \<Rightarrow> [] | Some k \<Rightarrow> [k])"
  by (simp add: pushes_def List.map_filter_def split: option.split)

lemma recorded_mono: "stages w \<subseteq> stages w' \<Longrightarrow> recorded w x \<Longrightarrow> recorded w' x"
  by (auto simp: recorded_def)

text \<open>One job taken out of the list.\<close>

lemma notify_ok_split:
  "notify_ok (w, js @ j # js') \<longleftrightarrow>
     notify_ok (w, js @ js') \<and> claim_ok j \<and> distinct (pending j) \<and>
     set (pending j) \<inter> set (in_flight (w, js @ js')) = {} \<and> (\<forall>x \<in> set (pending j). recorded w x)"
proof -
  have perm: "mset (in_flight (w, js @ j # js')) = mset (pending j @ in_flight (w, js @ js'))"
    by (simp add: in_flight_def)
  from mset_eq_imp_distinct_iff [OF perm] mset_eq_setD [OF perm] show ?thesis
    by (auto simp: notify_ok_def)
qed

text \<open>The invariant depends on three parts of the world; removing devices or adding rows keeps it.\<close>

lemma notify_ok_world:
  assumes "notify_ok (w, js)" "distinct (map dt_Token (w_devices w'))" "w_outbox w' = w_outbox w" "stages w \<subseteq> stages w'"
  shows "notify_ok (w', js)"
  using assms recorded_mono [OF assms(4)] by (auto simp: notify_ok_def in_flight_def pushes_def)

lemma stages_cong: "w_notifications v = w_notifications w \<Longrightarrow> stages v = stages w"
  by (simp add: stages_def)

lemma stages_append: "stages (w\<lparr>w_notifications := w_notifications w @ [n]\<rparr>) = stages w \<union> set_option (stage_of n)"
  by (auto simp: stages_def)

lemma statement_faults:
  assumes "statement m w = (r, w')"
  obtains fs where "r = Inl Internal" "w' = w\<lparr>w_faults := fs\<rparr>" | fs where "m (w\<lparr>w_faults := fs\<rparr>) = (r, w')"
  using assms by (cases rule: statement_cases [where w = w and m = m]) auto

text \<open>What each statement does to the three parts.\<close>

lemma CreateOnce_effect:
  assumes "CreateOnce n w = (r, w')"
  shows "w_devices w' = w_devices w" "w_outbox w' = w_outbox w" "stages w \<subseteq> stages w'"
    "r = Inr (nid, True) \<Longrightarrow> stage_of n = Some s \<Longrightarrow> s \<notin> stages w \<and> s \<in> stages w'"
proof -
  have "w_devices w' = w_devices w \<and> w_outbox w' = w_outbox w \<and> stages w \<subseteq> stages w' \<and>
      (r = Inr (nid, True) \<longrightarrow> stage_of n = Some s \<longrightarrow> s \<notin> stages w \<and> s \<in> stages w')"
    using assms unfolding CreateOnce_def
  proof (rule statement_faults)
    fix fs
    assume "(if stage_recorded n (w\<lparr>w_faults := fs\<rparr>) then (Inr (w_next (w\<lparr>w_faults := fs\<rparr>), False), (w\<lparr>w_faults := fs\<rparr>)\<lparr>w_next := w_next (w\<lparr>w_faults := fs\<rparr>) + 1\<rparr>)
       else if notification_fks n (w\<lparr>w_faults := fs\<rparr>)
       then (Inr (w_next (w\<lparr>w_faults := fs\<rparr>), True), (w\<lparr>w_faults := fs\<rparr>)\<lparr>w_notifications := w_notifications (w\<lparr>w_faults := fs\<rparr>) @ [stored n (w\<lparr>w_faults := fs\<rparr>)], w_next := w_next (w\<lparr>w_faults := fs\<rparr>) + 1\<rparr>)
       else (Inl Internal, (w\<lparr>w_faults := fs\<rparr>)\<lparr>w_next := w_next (w\<lparr>w_faults := fs\<rparr>) + 1\<rparr>)) = (r, w')"
    then show ?thesis
      by (auto simp: stages_def stage_recorded_def stage_of_def stored_def split: if_splits option.splits)
  qed (simp add: stages_def)
  then show "w_devices w' = w_devices w" "w_outbox w' = w_outbox w" "stages w \<subseteq> stages w'"
    "r = Inr (nid, True) \<Longrightarrow> stage_of n = Some s \<Longrightarrow> s \<notin> stages w \<and> s \<in> stages w'" by blast+
qed

lemma Create_effect:
  assumes "NotificationRepo_Create n w = (r, w')"
  shows "w_devices w' = w_devices w" "w_outbox w' = w_outbox w" "stages w \<subseteq> stages w'"
proof -
  have "w_devices w' = w_devices w \<and> w_outbox w' = w_outbox w \<and> stages w \<subseteq> stages w'"
    using assms
  proof (rule NotificationRepo_Create_cases)
    fix e assume "same_tables w w'"
    from same_tablesD(17,21,22) [OF this] show ?thesis by (simp add: stages_def)
  qed (auto simp: stages_def)
  then show "w_devices w' = w_devices w" "w_outbox w' = w_outbox w" "stages w \<subseteq> stages w'" by blast+
qed

lemma exec_effect:
  assumes "exec f w = (r, w')"
  obtains fs where "w' = w\<lparr>w_faults := fs\<rparr>" | fs where "w' = f (w\<lparr>w_faults := fs\<rparr>)"
  using assms unfolding exec_def by (rule statement_faults) auto

lemma UpdateDeliveryResult_effect:
  assumes "UpdateDeliveryResult nid st at' w = (r, w')"
  shows "w_devices w' = w_devices w" "w_outbox w' = w_outbox w" "stages w' = stages w"
proof -
  have "w_devices w' = w_devices w \<and> w_outbox w' = w_outbox w \<and> stages w' = stages w"
    using assms unfolding UpdateDeliveryResult_def
  proof (rule exec_effect)
    fix fs assume "w' = w\<lparr>w_faults := fs\<rparr>"
    then show ?thesis by (simp add: stages_cong [of "w\<lparr>w_faults := fs\<rparr>" w])
  next
    fix fs assume w': "w' = (\<lambda>w. w\<lparr>w_notifications :=
       update_where (\<lambda>n. nt_ID n = nid) (delivered_as st at') (w_notifications w)\<rparr>) (w\<lparr>w_faults := fs\<rparr>)"
    have "stages w' = stages (w\<lparr>w_faults := fs\<rparr>)" unfolding w' by (rule stages_delivered)
    then show ?thesis by (simp add: w' stages_cong [of "w\<lparr>w_faults := fs\<rparr>" w])
  qed
  then show "w_devices w' = w_devices w" "w_outbox w' = w_outbox w" "stages w' = stages w" by blast+
qed

lemma device_statements:
  assumes "DeleteByToken t w = (r, w') \<or> DeleteOwned u t w = (r, w') \<or> Upsert u t p w = (r, w')"
    "distinct (map dt_Token (w_devices w))"
  shows "distinct (map dt_Token (w_devices w'))" "w_outbox w' = w_outbox w" "stages w' = stages w"
proof -
  have up: "distinct (map dt_Token (upsert_device u t p (w\<lparr>w_faults := fs\<rparr>)))" for fs
    using assms(2) by (auto simp: upsert_device_def image_iff)
  have "distinct (map dt_Token (w_devices w')) \<and> w_outbox w' = w_outbox w \<and> stages w' = stages w"
    using assms(1)
  proof (elim disjE)
    assume "Upsert u t p w = (r, w')"
    then show ?thesis
      unfolding Upsert_def by (rule statement_faults) (use up assms(2) in \<open>auto simp: stages_def split: if_splits\<close>)
  qed (unfold DeleteByToken_def DeleteOwned_def,
      (erule exec_effect; use assms(2) in \<open>simp add: stages_def distinct_map_delete_where\<close>)+)
  then show "distinct (map dt_Token (w_devices w'))" "w_outbox w' = w_outbox w" "stages w' = stages w" by blast+
qed

lemma notify_step_ok: "notify_step s s' \<Longrightarrow> notify_ok s \<Longrightarrow> notify_ok s'"
proof (induction rule: notify_step.induct)
  case (read q w ts w' js k name)
  have same: "user_devices (q_UserID q) (w\<lparr>w_faults := fs\<rparr>) = user_devices (q_UserID q) w" for fs
    by (simp add: user_devices_def)
  note result = query_eq [OF read(1) [unfolded Device_ListByUser_def], OF same]
  then obtain fs where fs: "ts = user_devices (q_UserID q) w" "w' = w\<lparr>w_faults := fs\<rparr>" by blast
  have "distinct (map dt_Token ts)"
    using read(2) by (simp add: fs(1) user_devices_def notify_ok_def distinct_map_filter)
  moreover have "notify_ok (w', js)"
    using read(2) by (rule notify_ok_world) (use read(2) in \<open>simp_all add: fs(2) notify_ok_def stages_def\<close>)
  ultimately show ?case
    using notify_ok_split [of w' js "Claiming q k (stage_push k name q) ts" "[]"]
    by (simp add: stage_push_def split: prod.split)
next
  case (claim k m q now w nid w' js ts js')
  have st: "stage_of (stage_row k m q now) = Some (q_ID q, k)" by (simp add: stage_row_def stage_of_def)
  note eff = CreateOnce_effect(1-3) [OF claim(1)]
  have new: "(q_ID q, k) \<notin> stages w" "(q_ID q, k) \<in> stages w'"
    using CreateOnce_effect(4) [OF claim(1) refl st] by blast+
  have old: "notify_ok (w, js @ js')" and c: "claim_ok (Claiming q k m ts)"
    using claim(2) unfolding notify_ok_split by blast+
  have ok: "notify_ok (w', js @ js')"
    using old by (rule notify_ok_world) (use eff old in \<open>simp_all add: notify_ok_def\<close>)
  have "set (in_flight (w', js @ js')) = set (in_flight (w, js @ js'))" by (simp add: in_flight_def pushes_def eff(2))
  moreover have "x \<notin> set (in_flight (w, js @ js'))" if "snd x = (q_ID q, kind_string k)" for x
    using old new(1) that by (auto simp: notify_ok_def recorded_def)
  moreover have "recorded w' x" if "snd x = (q_ID q, kind_string k)" for x
    using new(2) that by (auto simp: recorded_def)
  ultimately show ?case
    unfolding notify_ok_split using ok c by (auto simp: distinct_map inj_on_def)
next
  case (lose k m q now w r w' nid js ts js')
  note eff = CreateOnce_effect(1-3) [OF lose(1)]
  have old: "notify_ok (w, js @ js')" using lose(3) unfolding notify_ok_split by blast
  then show ?case by (rule notify_ok_world) (use eff old in \<open>simp_all add: notify_ok_def\<close>)
next
  case (send t m w r w' js nid ts js')
  have w': "w' = w\<lparr>w_outbox := w_outbox w @ [Push t m]\<rparr>" using send(1) by (simp add: hand_over_def)
  have "mset (in_flight (w', js @ Sending nid m ts # js')) = mset (in_flight (w, js @ Sending nid m (t # ts) # js'))"
    by (simp add: in_flight_def w' pushes_snoc)
  from mset_eq_imp_distinct_iff [OF this] mset_eq_setD [OF this] show ?case
    using send(2) by (auto simp: notify_ok_def w' recorded_def stages_def)
next
  case (die w js j js')
  then show ?case unfolding notify_ok_split by blast
next
  case (result nid st at' w r w' js)
  note eff = UpdateDeliveryResult_effect [OF result(1)]
  show ?case using result(2) by (rule notify_ok_world) (use eff result(2) in \<open>simp_all add: notify_ok_def\<close>)
next
  case (unregister t w r w' js)
  have d: "distinct (map dt_Token (w_devices w))" using unregister(2) by (simp add: notify_ok_def)
  note eff = device_statements [OF disjI1 [OF unregister(1)] d]
  show ?case using unregister(2) by (rule notify_ok_world) (use eff in simp_all)
next
  case (logout u t w r w' js)
  have d: "distinct (map dt_Token (w_devices w))" using logout(2) by (simp add: notify_ok_def)
  note eff = device_statements [OF disjI2 [OF disjI1 [OF logout(1)]] d]
  show ?case using logout(2) by (rule notify_ok_world) (use eff in simp_all)
next
  case (register u t p w r w' js)
  have d: "distinct (map dt_Token (w_devices w))" using register(2) by (simp add: notify_ok_def)
  note eff = device_statements [OF disjI2 [OF disjI2 [OF register(1)]] d]
  show ?case using register(2) by (rule notify_ok_world) (use eff in simp_all)
next
  case (message n w r w' js)
  note eff = Create_effect [OF message(1)]
  show ?case using message(2) by (rule notify_ok_world) (use eff message(2) in \<open>simp_all add: notify_ok_def\<close>)
next
  case (sms p s w r w' js)
  have w': "w' = w\<lparr>w_outbox := w_outbox w @ [Sms p s]\<rparr>" using sms(1) by (simp add: hand_over_def)
  show ?case using sms(2) by (auto simp: notify_ok_def in_flight_def w' pushes_snoc recorded_def stages_def)
next
  case (other w' w js)
  have "stages w' = stages w" by (simp add: stages_def other(2))
  with other show ?case by (intro notify_ok_world [OF other(4)]) (simp_all add: notify_ok_def)
qed

lemma notify_steps_ok: "notify_step\<^sup>*\<^sup>* s s' \<Longrightarrow> notify_ok s \<Longrightarrow> notify_ok s'"
  by (induction rule: rtranclp_induct) (auto intro: notify_step_ok)

section \<open>The code takes these steps\<close>

text \<open>A statement that only reads is a step of something else.\<close>

lemma read_only_step:
  assumes "same_tables w w'"
  shows "notify_step (w, js) (w', js)"
  using same_tablesD(17,21,22) [OF assms] by (intro notify_step.other) simp_all

lemma attempt_snd: "snd (attempt m w) = snd (m w)"
  by (cases "m w") (simp add: attempt_run)

lemma push_one_steps:
  "notify_step\<^sup>*\<^sup>* (w, js @ [Sending nid m (dt_Token t # ts)]) (snd (push_one push m acc t w), js @ [Sending nid m ts]) \<and>
   is_ok (fst (push_one push m acc t w))"
proof -
  let ?w1 = "w\<lparr>w_outbox := w_outbox w @ [Push (dt_Token t) m]\<rparr>"
  have send: "notify_step (w, js @ [Sending nid m (dt_Token t # ts)]) (?w1, js @ [Sending nid m ts])"
    by (rule notify_step.send [of "dt_Token t" m w _ ?w1 js nid ts "[]", simplified]) (simp add: hand_over_def)
  show ?thesis
  proof (cases "push (dt_Token t) m = PushUnregistered")
    case True
    obtain r w2 where del: "DeleteByToken (dt_Token t) ?w1 = (r, w2)" by (cases "DeleteByToken (dt_Token t) ?w1")
    have "push_one push m acc t w = (Inr (fst acc, snd acc \<or> \<not> is_ok r), w2)"
      using True del by (cases r) (simp_all add: push_one_def hand_over_def bindE_def attempt_run [where m = "DeleteByToken _", OF del])
    with send notify_step.unregister [OF del, of "js @ [Sending nid m ts]"] show ?thesis by auto
  next
    case False
    then have "\<exists>acc'. push_one push m acc t w = (Inr acc', ?w1)"
      by (cases "push (dt_Token t) m") (auto simp: push_one_def hand_over_def bindE_def)
    with send show ?thesis by auto
  qed
qed

lemma push_loop_steps:
  "notify_step\<^sup>*\<^sup>* (w, js @ [Sending nid m (map dt_Token ts)])
     (snd (foldE (push_one push m) acc ts w), js @ [Sending nid m []]) \<and> is_ok (fst (foldE (push_one push m) acc ts w))"
proof (induction ts arbitrary: acc w)
  case (Cons t ts)
  obtain r w1 where one: "push_one push m acc t w = (r, w1)" by (cases "push_one push m acc t w")
  have steps: "notify_step\<^sup>*\<^sup>* (w, js @ [Sending nid m (map dt_Token (t # ts))]) (w1, js @ [Sending nid m (map dt_Token ts)])"
    and ok: "is_ok r"
    using push_one_steps [of w js nid m t "map dt_Token ts" push acc] one by simp_all
  obtain acc' where r: "r = Inr acc'" using ok by (auto simp: is_ok_def split: sum.splits)
  show ?case
    using rtranclp_trans [OF steps] Cons.IH [of w1 acc']
    by (simp add: bindE_Inr [where m = "push_one push m acc t", OF one [unfolded r]])
qed simp

lemma NotifyStage_steps: "notify_step\<^sup>*\<^sup>* (w, js) (snd (NotifyStage push q k w), js)"
proof (cases "q_IsOverflow q")
  case True
  then show ?thesis by (simp add: NotifyStage_def)
next
  case False
  obtain r1 w1 where list: "Device_ListByUser (q_UserID q) w = (r1, w1)" by (cases "Device_ListByUser (q_UserID q) w")
  have s1: "notify_step (w, js) (w1, js)"
    by (rule read_only_step, rule read_onlyD [where m = "Device_ListByUser (q_UserID q)", OF _ list])
      (simp add: Device_ListByUser_def read_only_query)
  show ?thesis
  proof (cases r1)
    case (Inl e)
    then show ?thesis using False list s1 by (simp add: NotifyStage_def bindE_def)
  next
    case (Inr ts)
    show ?thesis
    proof (cases "ts = []")
      case True
      then show ?thesis using False list s1 Inr by (simp add: NotifyStage_def bindE_def)
    next
      case ts: False
      obtain r2 w2 where wp: "WpRepo_FindByID (q_WashingPointID q) w1 = (r2, w2)"
        by (cases "WpRepo_FindByID (q_WashingPointID q) w1")
      have same: "same_tables w1 w2"
        by (rule read_onlyD [where m = "WpRepo_FindByID (q_WashingPointID q)", OF _ wp]) (simp add: WpRepo_FindByID_def read_only_first_or)
      show ?thesis
      proof (cases r2)
        case (Inl e)
        then have "snd (NotifyStage push q k w) = w2"
          using False ts list Inr wp by (simp add: NotifyStage_def bindE_def)
        with s1 read_only_step [OF same, of js] show ?thesis by auto
      next
        case wpr: (Inr p)
        let ?m = "stage_push k (wp_Name p) q" and ?c = "Claiming q k (stage_push k (wp_Name p) q) ts"
        have s2: "notify_step\<^sup>*\<^sup>* (w, js) (w2, js @ [?c])"
          using notify_step.read [OF list [unfolded Inr], of js k "wp_Name p"] read_only_step [OF same, of "js @ [?c]"]
          by auto
        obtain r3 w3 where once: "CreateOnce (stage_row k ?m q (w_now w2)) w2 = (r3, w3)"
          by (cases "CreateOnce (stage_row k ?m q (w_now w2)) w2")
        show ?thesis
        proof (cases "\<exists>nid. r3 = Inr (nid, True)")
          case True
          then obtain nid where r3: "r3 = Inr (nid, True)" by blast
          have s3: "notify_step (w2, js @ [?c]) (w3, js @ [Sending nid ?m (map dt_Token ts)])"
            using notify_step.claim [OF once [unfolded r3], of js ts "[]"] by simp
          obtain r4 w4 where loop: "foldE (push_one push ?m) (False, False) ts w3 = (r4, w4)"
            by (cases "foldE (push_one push ?m) (False, False) ts w3")
          have s4: "notify_step\<^sup>*\<^sup>* (w3, js @ [Sending nid ?m (map dt_Token ts)]) (w4, js @ [Sending nid ?m []])"
            and ok: "is_ok r4"
            using push_loop_steps [of w3 js nid ?m ts push "(False, False)"] loop by simp_all
          obtain d f where r4: "r4 = Inr (d, f)" using ok by (cases r4) auto
          let ?upd = "UpdateDeliveryResult nid (if d then NotSent else NotFailed) (Some (w_now w4))"
          obtain r5 w5 where upd: "?upd w4 = (r5, w5)" by (cases "?upd w4")
          have s5: "notify_step (w4, js @ [Sending nid ?m []]) (w5, js @ [Sending nid ?m []])"
            by (rule notify_step.result [OF upd])
          have s6: "notify_step (w5, js @ [Sending nid ?m []]) (w5, js)"
            using notify_step.die [of w5 js "Sending nid ?m []" "[]"] by simp
          have "snd (send_stage push ?m ts nid w3) = w5"
            unfolding send_stage_def bindE_Inr [where m = "foldE (push_one push ?m) (False, False) ts", OF loop [unfolded r4]]
            using upd by (cases r5) (simp_all add: time_Now_def bindE_def attempt_run [where m = ?upd, OF upd])
          then have "snd (NotifyStage push q k w) = w5"
            using False ts list Inr wp wpr once r3 by (simp add: NotifyStage_def bindE_def time_Now_def Let_def)
          then show ?thesis using s2 s3 s4 s5 s6 by (metis (no_types, lifting) rtranclp.rtrancl_into_rtrancl rtranclp_trans)
        next
          case no: False
          have s3: "notify_step (w2, js @ [?c]) (w3, js)"
            using notify_step.lose [OF once, of 0 js ts "[]"] no by auto
          have "snd (NotifyStage push q k w) = w3"
            using False ts list Inr wp wpr once no
            by (auto simp: NotifyStage_def bindE_def time_Now_def Let_def split: sum.splits prod.splits)
          then show ?thesis using s2 s3 by (metis rtranclp.rtrancl_into_rtrancl)
        qed
      qed
    qed
  qed
qed

lemma notify_due_steps:
  "notify_step\<^sup>*\<^sup>* (w, js) (snd (foldE (notify_due push kind) failed rows w), js) \<and>
   is_ok (fst (foldE (notify_due push kind) failed rows w))"
proof (induction rows arbitrary: failed w)
  case (Cons q rows)
  obtain r w1 where one: "NotifyStage push q kind w = (r, w1)" by (cases "NotifyStage push q kind w")
  have step: "notify_due push kind failed q w = (Inr (failed \<or> \<not> is_ok r), w1)"
    using attempt_run [where m = "NotifyStage push q kind", OF one]
    by (cases r) (simp_all add: notify_due_def bindE_def)
  show ?case
    using rtranclp_trans [OF NotifyStage_steps [of w js push q kind]] one Cons.IH [of w1 "failed \<or> \<not> is_ok r"]
    by (simp add: bindE_Inr [where m = "notify_due push kind failed q", OF step])
qed simp

lemma tick_kind_steps:
  "notify_step\<^sup>*\<^sup>* (w, js) (snd (tick_kind push now failed kind w), js) \<and> is_ok (fst (tick_kind push now failed kind w))"
proof -
  obtain r w1 where fd: "FindDue kind now w = (r, w1)" by (cases "FindDue kind now w")
  have s1: "notify_step (w, js) (w1, js)"
    by (rule read_only_step, rule read_onlyD [where m = "FindDue kind now", OF _ fd]) (simp add: FindDue_def read_only_query)
  show ?thesis
  proof (cases r)
    case (Inl e)
    then show ?thesis using s1 attempt_run [where m = "FindDue kind now", OF fd] by (simp add: tick_kind_def bindE_def)
  next
    case (Inr rows)
    have "tick_kind push now failed kind w = foldE (notify_due push kind) failed rows w1"
      using attempt_run [where m = "FindDue kind now", OF fd] Inr by (simp add: tick_kind_def bindE_def)
    then show ?thesis using s1 notify_due_steps [of w1 js push kind failed rows]
      by (simp add: converse_rtranclp_into_rtranclp)
  qed
qed

lemma Tick_steps: "notify_step\<^sup>*\<^sup>* (w, js) (snd (Tick push now w), js)"
proof -
  obtain r w' where run: "Tick push now w = (r, w')" by (cases "Tick push now w")
  from this show ?thesis
  proof (cases rule: Tick_kinds)
    case (1 f u r2)
    then show ?thesis
      using tick_kind_steps [of w js push now False KindReminder] tick_kind_steps [of u js push now f KindLate] run
      by (metis rtranclp_trans snd_conv)
  next
    case (2 e)
    then show ?thesis using tick_kind_steps [of w js push now False KindReminder] run by (metis snd_conv)
  qed
qed

lemma NotifyStatus_steps: "notify_step\<^sup>*\<^sup>* (w, js) (NotifyStatus push q w, js)"
  using NotifyStage_steps by (auto simp: NotifyStatus_def split: option.split)

text \<open>
  C18 No customer is notified twice. However many instances of the API run, and whatever happens
  between their statements, every device is handed the message of each stage of each booking at most
  once; and this stays so when a further tick or a status notification runs to its end.
\<close>

theorem stage_pushed_at_most_once:
  assumes "notify_step\<^sup>*\<^sup>* (w0, []) (w, js)" "notify_ok (w0, [])"
  shows "distinct (pushes w) \<and> distinct (pushes (snd (Tick push now w))) \<and> distinct (pushes (NotifyStatus push q w))"
proof -
  have "notify_ok (w, js)" by (rule notify_steps_ok [OF assms])
  from this notify_steps_ok [OF Tick_steps this] notify_steps_ok [OF NotifyStatus_steps this]
  show ?thesis by (simp add: notify_ok_def in_flight_def)
qed

lemma stage_pushed_at_most_once_witness:
  "\<exists>w. notify_step\<^sup>*\<^sup>* (waiting_world, []) (w, []) \<and>
     pushes w = [(''old'', 50, ''reminder_1h''), (''new'', 50, ''reminder_1h'')] \<and>
     distinct (pushes (snd (Tick phone_gone (2 * Hour) w)))"
proof -
  let ?w = "snd (NotifyStage phone_gone waiting_booking KindReminder waiting_world)"
  have "notify_ok (waiting_world, [])"
    by (simp add: notify_ok_def in_flight_def pushes_def waiting_world_def town_world_def empty_world_def
        List.map_filter_def)
  from stage_pushed_at_most_once [OF NotifyStage_steps this, of phone_gone waiting_booking KindReminder phone_gone "2 * Hour"]
  have "distinct (pushes (snd (Tick phone_gone (2 * Hour) ?w)))" by blast
  moreover have "pushes ?w = [(''old'', 50, ''reminder_1h''), (''new'', 50, ''reminder_1h'')]" by code_simp
  ultimately show ?thesis using NotifyStage_steps by blast
qed

end
