(* ===== verification/Photos.thy ===== *)
theory Photos
  imports SingleFlag WpRepo GoStrings Endpoints
begin

text \<open>
  \<open>internal/platform/storage\<close> and \<open>internal/photo\<close>: the uploaded files and the photos of a washing
  point. A stored file is its name in \<open>w_files\<close>; its bytes matter only for the sniffed type. A failed
  file operation takes an entry of the fault schedule, like a failed statement. The canonical text of
  a UUID is a parameter of the storage, with the facts the file names rest on in \<open>storage_ok\<close>.
\<close>

section \<open>Paths\<close>

text \<open>\<open>path.Base\<close>, \<open>filepath.Ext\<close> and \<open>strings.TrimSuffix(s, "/")\<close>.\<close>

definition path_Base :: "string \<Rightarrow> string" where
  "path_Base s =
     (if s = [] then ''.''
      else let t = rev (takeWhile (\<lambda>c. c \<noteq> CHR ''/'') (dropWhile (\<lambda>c. c = CHR ''/'') (rev s)))
           in if t = [] then ''/'' else t)"

fun ext_scan :: "string \<Rightarrow> string \<Rightarrow> string" where
  "ext_scan [] acc = []"
| "ext_scan (c # cs) acc =
     (if c = CHR ''/'' then [] else if c = CHR ''.'' then c # acc else ext_scan cs (c # acc))"

definition path_Ext :: "string \<Rightarrow> string" where
  "path_Ext s = ext_scan (rev s) []"

definition TrimSuffix_slash :: "string \<Rightarrow> string" where
  "TrimSuffix_slash s = (if s \<noteq> [] \<and> last s = CHR ''/'' then butlast s else s)"

section \<open>The local disk\<close>

record storage =
  st_baseURL :: string
  st_uuid :: "uuid \<Rightarrow> string"

definition NewLocalDisk :: "(uuid \<Rightarrow> string) \<Rightarrow> string \<Rightarrow> storage" where
  "NewLocalDisk uuid_string baseURL = \<lparr>st_baseURL = TrimSuffix_slash baseURL, st_uuid = uuid_string\<rparr>"

definition file_name :: "storage \<Rightarrow> uuid \<Rightarrow> string \<Rightarrow> string" where
  "file_name st k filename = st_uuid st k @ ToLower (path_Ext filename)"

definition file_url :: "storage \<Rightarrow> string \<Rightarrow> string" where
  "file_url st name = st_baseURL st @ ''/'' @ name"

text \<open>A failed write leaves no file: what was created is removed again.\<close>

definition Storage_Put :: "storage \<Rightarrow> string \<Rightarrow> string db" where
  "Storage_Put st filename =
     statement (\<lambda>w.
       let name = file_name st (w_next w) filename
       in (Inr (file_url st name), w\<lparr>w_files := w_files w @ [name], w_next := w_next w + 1\<rparr>))"

text \<open>Removing a file that is not there is not an error.\<close>

definition Storage_Delete :: "string \<Rightarrow> unit db" where
  "Storage_Delete url =
     (let name = path_Base url
      in if name = ''.'' \<or> name = ''/'' \<or> CHR ''/'' \<in> set name \<or> CHR 0x5C \<in> set name then fail_with Internal
         else exec (\<lambda>w. w\<lparr>w_files := filter (\<lambda>f. f \<noteq> name) (w_files w)\<rparr>))"

section \<open>Rows\<close>

definition point_photos :: "uuid \<Rightarrow> world \<Rightarrow> Photo list" where
  "point_photos pid w = filter (\<lambda>p. ph_WashingPointID p = pid) (w_photos w)"

definition Photo_ListByWashingPoint :: "uuid \<Rightarrow> Photo list db" where
  "Photo_ListByWashingPoint pid =
     query (\<lambda>w. sort_key ph_SortOrder (sort_key ph_CreatedAt (point_photos pid w)))"

definition Photo_FindByID :: "uuid \<Rightarrow> Photo db" where
  "Photo_FindByID k = first_or (NotFound ''photo_not_found'') (\<lambda>w. find_row ph_ID k (w_photos w))"

text \<open>The foreign key, the length of the URL column and the 32-bit sort order.\<close>

definition photo_row_ok :: "Photo \<Rightarrow> world \<Rightarrow> bool" where
  "photo_row_ok p w \<longleftrightarrow> point_by_id (ph_WashingPointID p) w \<noteq> None \<and> rune_count (ph_URL p) \<le> 500 \<and>
     - (2 ^ 31) \<le> ph_SortOrder p \<and> ph_SortOrder p < 2 ^ 31"

definition Photo_Create :: "Photo \<Rightarrow> Photo db" where
  "Photo_Create p =
     statement (\<lambda>w.
       let row = p\<lparr>ph_ID := w_next w, ph_CreatedAt := w_now w\<rparr>
       in if photo_row_ok row w
          then (Inr row, w\<lparr>w_photos := w_photos w @ [row], w_next := w_next w + 1\<rparr>)
          else (Inl Internal, w\<lparr>w_next := w_next w + 1\<rparr>))"

definition photo_update :: "Photo \<Rightarrow> Photo \<Rightarrow> Photo" where
  "photo_update p r = r\<lparr>ph_IsCover := ph_IsCover p, ph_SortOrder := ph_SortOrder p\<rparr>"

definition Photo_Update :: "Photo \<Rightarrow> unit db" where
  "Photo_Update p =
     statement (\<lambda>w.
       if - (2 ^ 31) \<le> ph_SortOrder p \<and> ph_SortOrder p < 2 ^ 31
       then (Inr (), w\<lparr>w_photos := update_where (\<lambda>r. ph_ID r = ph_ID p) (photo_update p) (w_photos w)\<rparr>)
       else (Inl Internal, w))"

definition Photo_Delete :: "uuid \<Rightarrow> unit db" where
  "Photo_Delete k = exec (\<lambda>w. w\<lparr>w_photos := delete_where (\<lambda>r. ph_ID r = k) (w_photos w)\<rparr>)"

definition set_cover :: "bool \<Rightarrow> Photo \<Rightarrow> Photo" where
  "set_cover b p = p\<lparr>ph_IsCover := b\<rparr>"

definition UnsetCover :: "uuid \<Rightarrow> unit db" where
  "UnsetCover pid = exec (\<lambda>w. w\<lparr>w_photos := unset_flags ph_WashingPointID ph_IsCover set_cover pid (w_photos w)\<rparr>)"

definition CountByWashingPoint :: "uuid \<Rightarrow> nat db" where
  "CountByWashingPoint pid = query (\<lambda>w. length (point_photos pid w))"

text \<open>A later row of the same point overwrites an earlier one in the map.\<close>

definition cover_urls :: "uuid list \<Rightarrow> world \<Rightarrow> uuid \<Rightarrow> string option" where
  "cover_urls pids w =
     foldl (\<lambda>m p. m(ph_WashingPointID p \<mapsto> ph_URL p)) (\<lambda>_. None)
       (filter (\<lambda>p. ph_WashingPointID p \<in> set pids \<and> ph_IsCover p) (w_photos w))"

definition FindCoverURLsByWashingPointIDs :: "uuid list \<Rightarrow> (uuid \<Rightarrow> string option) db" where
  "FindCoverURLsByWashingPointIDs pids = (if pids = [] then return_ok (\<lambda>_. None) else query (cover_urls pids))"

text \<open>gorm's \<open>First\<close> adds the primary key to the order.\<close>

definition first_photo_except :: "uuid \<Rightarrow> uuid \<Rightarrow> world \<Rightarrow> Photo option" where
  "first_photo_except pid exclude w =
     (case sort_key ph_SortOrder (sort_key ph_CreatedAt (sort_key ph_ID (filter (\<lambda>p. ph_ID p \<noteq> exclude) (point_photos pid w)))) of
        [] \<Rightarrow> None | p # _ \<Rightarrow> Some p)"

definition FirstExcept :: "uuid \<Rightarrow> uuid \<Rightarrow> Photo option db" where
  "FirstExcept pid exclude = query (first_photo_except pid exclude)"

section \<open>Manager\<close>

text \<open>The deferred clean-up: after an error the action runs and its own error is dropped.\<close>

definition cleanup_on_error :: "'a db \<Rightarrow> unit db \<Rightarrow> 'a db" where
  "cleanup_on_error m c = (\<lambda>w. case m w of (Inl e, w1) \<Rightarrow> (Inl e, snd (c w1)) | (Inr x, w1) \<Rightarrow> (Inr x, w1))"

definition new_photo :: "uuid \<Rightarrow> string \<Rightarrow> bool \<Rightarrow> nat \<Rightarrow> Photo" where
  "new_photo pid url isCover cnt =
     \<lparr>ph_ID = uuid_Nil, ph_WashingPointID = pid, ph_URL = url, ph_IsCover = isCover,
      ph_SortOrder = int cnt, ph_CreatedAt = ZeroTime\<rparr>"

definition add_photo :: "uuid \<Rightarrow> string \<Rightarrow> bool \<Rightarrow> Photo db" where
  "add_photo pid url isCover =
     bindE (CountByWashingPoint pid) (\<lambda>cnt.
     let isCover' = (if cnt = 0 then True else isCover)
     in bindE (if isCover' then UnsetCover pid else return_ok ()) (\<lambda>_.
        Photo_Create (new_photo pid url isCover' cnt)))"

definition Photo_Upload :: "storage \<Rightarrow> uuid \<Rightarrow> string \<Rightarrow> bool \<Rightarrow> Photo db" where
  "Photo_Upload st pid ext isCover =
     bindE (Storage_Put st (''photo'' @ ext)) (\<lambda>url.
     cleanup_on_error (add_photo pid url isCover) (Storage_Delete url))"

definition PhotoManager_Delete :: "Photo \<Rightarrow> unit db" where
  "PhotoManager_Delete p =
     bindE (Photo_Delete (ph_ID p)) (\<lambda>_.
     bindE (attempt (Storage_Delete (ph_URL p))) (\<lambda>_.
     if \<not> ph_IsCover p then return_ok ()
     else
       bindE (FirstExcept (ph_WashingPointID p) (ph_ID p)) (\<lambda>next.
       case next of
         None \<Rightarrow> return_ok ()
       | Some n \<Rightarrow> Photo_Update (set_cover True n))))"

definition SetCover :: "Photo \<Rightarrow> Photo db" where
  "SetCover p =
     bindE (UnsetCover (ph_WashingPointID p)) (\<lambda>_.
     let p' = set_cover True p
     in bindE (Photo_Update p') (\<lambda>_. return_ok p'))"

section \<open>Uploads\<close>

text \<open>
  What \<open>http.DetectContentType\<close> makes of the first 512 bytes, as far as the four allowed types go:
  no other signature it knows begins with the bytes of one of these.
\<close>

definition begins :: "nat list \<Rightarrow> nat list \<Rightarrow> bool" where
  "begins xs ys \<longleftrightarrow> take (length ys) xs = ys"

definition DetectImageType :: "nat list \<Rightarrow> string option" where
  "DetectImageType bs =
     (if begins bs [71, 73, 70, 56, 55, 97] \<or> begins bs [71, 73, 70, 56, 57, 97] then Some ''image/gif''
      else if begins bs [82, 73, 70, 70] \<and> length bs \<ge> 14 \<and> begins (drop 8 bs) [87, 69, 66, 80, 86, 80] then Some ''image/webp''
      else if begins bs [137, 80, 78, 71, 13, 10, 26, 10] then Some ''image/png''
      else if begins bs [255, 216, 255] then Some ''image/jpeg''
      else None)"

definition allowedContentTypes :: "string \<Rightarrow> string option" where
  "allowedContentTypes = map_of [(''image/jpeg'', ''.jpg''), (''image/png'', ''.png''),
     (''image/gif'', ''.gif''), (''image/webp'', ''.webp'')]"

text \<open>
  Reading the multipart body is a parameter: too large, not a form, or a form with the bytes of the
  field \<open>file\<close>, when it has one and they can be read, and the field \<open>is_cover\<close>.
\<close>

datatype upload_form = FormTooLarge | FormInvalid | Form "nat list option option" string

definition ParseImageUpload :: "upload_form \<Rightarrow> apperror + string" where
  "ParseImageUpload form =
     (case form of
        FormTooLarge \<Rightarrow> Inl (AppError 413 ''file_too_large'')
      | FormInvalid \<Rightarrow> Inl (BadRequest ''invalid_file'')
      | Form None _ \<Rightarrow> Inl (BadRequest ''invalid_file'')
      | Form (Some None) _ \<Rightarrow> Inl Internal
      | Form (Some (Some bs)) _ \<Rightarrow>
          (case Option.bind (DetectImageType (take 512 bs)) allowedContentTypes of
             None \<Rightarrow> Inl (BadRequest ''invalid_content_type'')
           | Some ext \<Rightarrow> Inr ext))"

definition form_is_cover :: "upload_form \<Rightarrow> bool" where
  "form_is_cover form = (case form of Form _ v \<Rightarrow> v = ''true'' | _ \<Rightarrow> False)"

section \<open>Endpoints\<close>

record photo_response =
  pr_id :: uuid
  pr_url :: string
  pr_is_cover :: bool
  pr_sort_order :: int

definition photo_toResponse :: "Photo \<Rightarrow> photo_response" where
  "photo_toResponse p = \<lparr>pr_id = ph_ID p, pr_url = ph_URL p, pr_is_cover = ph_IsCover p, pr_sort_order = ph_SortOrder p\<rparr>"

definition photo_list :: "(string \<Rightarrow> uuid option) \<Rightarrow> string \<Rightarrow> photo_response list db" where
  "photo_list uuid_parse rawID =
     bindE (lift_result (ParseUUIDParam uuid_parse rawID)) (\<lambda>pid.
     bindE (Photo_ListByWashingPoint pid) (\<lambda>photos.
     return_ok (map photo_toResponse photos)))"

definition photo_upload ::
  "storage \<Rightarrow> (string \<Rightarrow> uuid option) \<Rightarrow> AuthUser option \<Rightarrow> string \<Rightarrow> upload_form \<Rightarrow> photo_response db" where
  "photo_upload st uuid_parse ctx rawID form =
     bindE (lift_result (AuthUserFrom ctx)) (\<lambda>authUser.
     bindE (lift_result (ParseUUIDParam uuid_parse rawID)) (\<lambda>pid.
     bindE (WpRepo_FindByID pid) (\<lambda>_.
     bindE (require (OwnsWashingPoint authUser pid) (NotFound ''washing_point_not_found'')) (\<lambda>_.
     bindE (lift_result (ParseImageUpload form)) (\<lambda>ext.
     bindE (Photo_Upload st pid ext (form_is_cover form)) (\<lambda>p.
     return_ok (photo_toResponse p)))))))"

definition photo_findOwned :: "(string \<Rightarrow> uuid option) \<Rightarrow> AuthUser \<Rightarrow> string \<Rightarrow> string \<Rightarrow> Photo db" where
  "photo_findOwned uuid_parse authUser rawID rawPhotoID =
     bindE (lift_result (ParseUUIDParam uuid_parse rawID)) (\<lambda>pid.
     bindE (lift_result (ParseUUIDParam uuid_parse rawPhotoID)) (\<lambda>photoID.
     bindE (require (OwnsWashingPoint authUser pid) (NotFound ''photo_not_found'')) (\<lambda>_.
     bindE (Photo_FindByID photoID) (\<lambda>p.
     bindE (require (ph_WashingPointID p = pid) (NotFound ''photo_not_found'')) (\<lambda>_.
     return_ok p)))))"

record photo_update_request =
  pu_IsCover :: "bool option"
  pu_SortOrder :: "int option"

definition photo_patch ::
  "(string \<Rightarrow> uuid option) \<Rightarrow> AuthUser option \<Rightarrow> string \<Rightarrow> string \<Rightarrow> apperror + photo_update_request \<Rightarrow> photo_response db" where
  "photo_patch uuid_parse ctx rawID rawPhotoID body =
     bindE (lift_result (AuthUserFrom ctx)) (\<lambda>authUser.
     bindE (photo_findOwned uuid_parse authUser rawID rawPhotoID) (\<lambda>p.
     bindE (lift_result body) (\<lambda>req.
     bindE (if pu_IsCover req = Some True then SetCover p else return_ok p) (\<lambda>p1.
     bindE (case pu_SortOrder req of
              None \<Rightarrow> return_ok p1
            | Some n \<Rightarrow>
                bindE (require (\<not> n < 0) (BadRequest ''invalid_sort_order'')) (\<lambda>_.
                let p2 = p1\<lparr>ph_SortOrder := n\<rparr>
                in bindE (Photo_Update p2) (\<lambda>_. return_ok p2))) (\<lambda>p2.
     return_ok (photo_toResponse p2))))))"

definition photo_delete ::
  "(string \<Rightarrow> uuid option) \<Rightarrow> AuthUser option \<Rightarrow> string \<Rightarrow> string \<Rightarrow> unit db" where
  "photo_delete uuid_parse ctx rawID rawPhotoID =
     bindE (lift_result (AuthUserFrom ctx)) (\<lambda>authUser.
     bindE (photo_findOwned uuid_parse authUser rawID rawPhotoID) PhotoManager_Delete)"

end
