(* ===== verification/BookingPhotos.thy ===== *)
theory BookingPhotos
  imports Photos Booking
begin

text \<open>
  \<open>internal/bookingphoto\<close>: the photos the staff attaches to a booking while it is being washed, at
  most ten of them.
\<close>

section \<open>Rows\<close>

definition booking_photos :: "uuid \<Rightarrow> world \<Rightarrow> BookingPhoto list" where
  "booking_photos qid w = filter (\<lambda>p. bp_QueueID p = qid) (w_bphotos w)"

definition ListByQueue :: "uuid \<Rightarrow> BookingPhoto list db" where
  "ListByQueue qid = query (\<lambda>w. sort_key (\<lambda>p. (bp_CreatedAt p, bp_ID p)) (booking_photos qid w))"

definition BPhoto_FindByID :: "uuid \<Rightarrow> BookingPhoto db" where
  "BPhoto_FindByID k = first_or (NotFound ''photo_not_found'') (\<lambda>w. find_row bp_ID k (w_bphotos w))"

definition bphoto_row_ok :: "BookingPhoto \<Rightarrow> world \<Rightarrow> bool" where
  "bphoto_row_ok p w \<longleftrightarrow> booking (bp_QueueID p) w \<noteq> None \<and> rune_count (bp_URL p) \<le> 500"

definition BPhoto_Create :: "BookingPhoto \<Rightarrow> BookingPhoto db" where
  "BPhoto_Create p =
     statement (\<lambda>w.
       let row = p\<lparr>bp_ID := w_next w, bp_CreatedAt := w_now w\<rparr>
       in if bphoto_row_ok row w
          then (Inr row, w\<lparr>w_bphotos := w_bphotos w @ [row], w_next := w_next w + 1\<rparr>)
          else (Inl Internal, w\<lparr>w_next := w_next w + 1\<rparr>))"

definition BPhoto_Delete :: "uuid \<Rightarrow> unit db" where
  "BPhoto_Delete k = exec (\<lambda>w. w\<lparr>w_bphotos := delete_where (\<lambda>r. bp_ID r = k) (w_bphotos w)\<rparr>)"

definition CountByQueue :: "uuid \<Rightarrow> nat db" where
  "CountByQueue qid = query (\<lambda>w. length (booking_photos qid w))"

section \<open>Manager\<close>

definition maxPhotosPerBooking :: nat where "maxPhotosPerBooking = 10"

definition BPhoto_Upload :: "storage \<Rightarrow> uuid \<Rightarrow> string \<Rightarrow> BookingPhoto db" where
  "BPhoto_Upload st qid ext =
     bindE (CountByQueue qid) (\<lambda>cnt.
     bindE (require (\<not> cnt \<ge> maxPhotosPerBooking) (Conflict ''photo_limit_reached'')) (\<lambda>_.
     bindE (Storage_Put st (''photo'' @ ext)) (\<lambda>url.
     cleanup_on_error
       (BPhoto_Create \<lparr>bp_ID = uuid_Nil, bp_QueueID = qid, bp_URL = url, bp_CreatedAt = ZeroTime\<rparr>)
       (Storage_Delete url))))"

definition BPhotoManager_Delete :: "BookingPhoto \<Rightarrow> unit db" where
  "BPhotoManager_Delete p =
     bindE (BPhoto_Delete (bp_ID p)) (\<lambda>_.
     bindE (attempt (Storage_Delete (bp_URL p))) (\<lambda>_. return_ok ()))"

section \<open>Endpoints\<close>

record bphoto_response =
  br_id :: uuid
  br_url :: string

definition bphoto_toResponse :: "BookingPhoto \<Rightarrow> bphoto_response" where
  "bphoto_toResponse p = \<lparr>br_id = bp_ID p, br_url = bp_URL p\<rparr>"

definition findOwnedBooking :: "(string \<Rightarrow> uuid option) \<Rightarrow> AuthUser \<Rightarrow> string \<Rightarrow> Queue db" where
  "findOwnedBooking uuid_parse authUser rawID =
     bindE (lift_result (ParseUUIDParam uuid_parse rawID)) (\<lambda>qid.
     bindE (QueueRepo_FindByID qid) (\<lambda>q.
     bindE (require (OwnsWashingPoint authUser (q_WashingPointID q)) (NotFound ''queue_not_found'')) (\<lambda>_.
     return_ok q)))"

definition bphoto_list :: "(string \<Rightarrow> uuid option) \<Rightarrow> AuthUser option \<Rightarrow> string \<Rightarrow> bphoto_response list db" where
  "bphoto_list uuid_parse ctx rawID =
     bindE (lift_result (AuthUserFrom ctx)) (\<lambda>authUser.
     bindE (findOwnedBooking uuid_parse authUser rawID) (\<lambda>q.
     bindE (ListByQueue (q_ID q)) (\<lambda>photos.
     return_ok (map bphoto_toResponse photos))))"

definition bphoto_upload ::
  "storage \<Rightarrow> (string \<Rightarrow> uuid option) \<Rightarrow> AuthUser option \<Rightarrow> string \<Rightarrow> upload_form \<Rightarrow> bphoto_response db" where
  "bphoto_upload st uuid_parse ctx rawID form =
     bindE (lift_result (AuthUserFrom ctx)) (\<lambda>authUser.
     bindE (findOwnedBooking uuid_parse authUser rawID) (\<lambda>q.
     bindE (require (q_Status q = StatusWashing) (Conflict ''booking_not_washing'')) (\<lambda>_.
     bindE (lift_result (ParseImageUpload form)) (\<lambda>ext.
     bindE (BPhoto_Upload st (q_ID q) ext) (\<lambda>p.
     return_ok (bphoto_toResponse p))))))"

definition bphoto_delete ::
  "(string \<Rightarrow> uuid option) \<Rightarrow> AuthUser option \<Rightarrow> string \<Rightarrow> string \<Rightarrow> unit db" where
  "bphoto_delete uuid_parse ctx rawID rawPhotoID =
     bindE (lift_result (AuthUserFrom ctx)) (\<lambda>authUser.
     bindE (findOwnedBooking uuid_parse authUser rawID) (\<lambda>q.
     bindE (lift_result (ParseUUIDParam uuid_parse rawPhotoID)) (\<lambda>photoID.
     bindE (BPhoto_FindByID photoID) (\<lambda>p.
     bindE (require (bp_QueueID p = q_ID q) (NotFound ''photo_not_found'')) (\<lambda>_.
     BPhotoManager_Delete p)))))"

end
