(* ===== verification/PhotoProps.thy ===== *)
theory PhotoProps
  imports BookingPhotos
begin

text \<open>
  The covers: no photo endpoint gives a washing point a second cover. This holds after any sequence
  of requests and whatever statement or file operation fails; it is not safe from requests that
  overlap. The triples for statements are shared with \<open>PhotoFiles\<close>.
\<close>

section \<open>Triples for statements\<close>

lemma valid_statement:
  assumes "\<And>w fs. P w \<Longrightarrow> P (w\<lparr>w_faults := fs\<rparr>)" "\<And>w. P w \<Longrightarrow> E Internal w" "valid P m Q E"
  shows "valid P (statement m) Q E"
proof (rule validI)
  fix w x t assume P: "P w" and "statement m w = (Inr x, t)"
  from this(2) obtain fs where "m (w\<lparr>w_faults := fs\<rparr>) = (Inr x, t)" by (rule statement_Inr)
  from validD [OF assms(3) assms(1) [OF P] this] show "Q x t" .
next
  fix w e t assume P: "P w" and "statement m w = (Inl e, t)"
  from this(2) show "E e t"
  proof (rule statement_Inl)
    fix fs assume "m (w\<lparr>w_faults := fs\<rparr>) = (Inl e, t)"
    from validD_error [OF assms(3) assms(1) [OF P] this] show ?thesis .
  qed (use assms(1,2) P in auto)
qed

lemma valid_exec:
  assumes "\<And>w fs. P w \<Longrightarrow> P (w\<lparr>w_faults := fs\<rparr>)" "\<And>w. P w \<Longrightarrow> E Internal w" "\<And>w. P w \<Longrightarrow> Q () (f w)"
  shows "valid P (exec f) Q E"
  unfolding exec_def using assms by (intro valid_statement) (auto simp: valid_def)

lemma valid_query:
  assumes "\<And>w fs. P w \<Longrightarrow> P (w\<lparr>w_faults := fs\<rparr>)" "\<And>w. P w \<Longrightarrow> E Internal w" "\<And>w. P w \<Longrightarrow> Q (f w) w"
  shows "valid P (query f) Q E"
  unfolding query_def using assms by (intro valid_statement) (auto simp: valid_def)

lemma valid_bind:
  assumes "valid P m R E" "\<And>x. valid (R x) (f x) Q E"
  shows "valid P (bindE m f) Q E"
  using assms by (rule valid_bindE)

lemma valid_return: "(\<And>w. P w \<Longrightarrow> Q x w) \<Longrightarrow> valid P (return_ok x) Q E"
  by (simp add: valid_def)

lemma valid_require:
  assumes "\<And>w. P w \<Longrightarrow> \<not> b \<Longrightarrow> E e w" "b \<Longrightarrow> valid P (f ()) Q E"
  shows "valid P (bindE (require b e) f) Q E"
  using assms by (cases b) (auto simp: valid_def bindE_def)

lemma valid_lift:
  assumes "\<And>w e. P w \<Longrightarrow> E e w" "\<And>x. r = Inr x \<Longrightarrow> valid P (f x) Q E"
  shows "valid P (bindE (lift_result r) f) Q E"
  using assms by (cases r) (auto simp: valid_def bindE_def)

lemma valid_preserves: "valid I m (\<lambda>_. I) (\<lambda>_. I) \<longleftrightarrow> preserves I m"
proof -
  have "(case m s of (Inl e, t) \<Rightarrow> I t | (Inr x, t) \<Rightarrow> I t) = I (snd (m s))" for s
    by (simp split: prod.split sum.split)
  then show ?thesis by (simp add: valid_def preserves_def)
qed

lemma valid_attempt: "valid P m (\<lambda>_. Q) (\<lambda>_. Q) \<Longrightarrow> valid P (attempt m) (\<lambda>_. Q) E"
  by (auto simp: valid_def attempt_def catchE_def bindE_def split: prod.splits sum.splits)

section \<open>Covers\<close>

interpretation cover: single_flag ph_ID ph_WashingPointID ph_IsCover set_cover
  by unfold_locales (simp_all add: set_cover_def)

definition covers :: "uuid \<Rightarrow> world \<Rightarrow> Photo list" where
  "covers pid w = flagged ph_WashingPointID ph_IsCover pid (w_photos w)"

definition photos_ok :: "world \<Rightarrow> bool" where
  "photos_ok w \<longleftrightarrow> distinct (map ph_ID (w_photos w)) \<and> (\<forall>p \<in> set (w_photos w). ph_ID p < w_next w) \<and>
     at_most_one_flag ph_WashingPointID ph_IsCover (w_photos w)"

lemma photos_ok_table: "table_property photos_ok"
  by (rule table_propertyI) (auto simp: photos_ok_def)

lemma photos_ok_faults [simp]: "photos_ok (w\<lparr>w_faults := fs\<rparr>) = photos_ok w" "covers pid (w\<lparr>w_faults := fs\<rparr>) = covers pid w"
  by (simp_all add: photos_ok_def covers_def)

lemma photos_ok_files [simp]: "photos_ok (w\<lparr>w_files := f\<rparr>) = photos_ok w"
  by (simp add: photos_ok_def)

lemma photos_ok_covers: "photos_ok w \<Longrightarrow> length (covers pid w) \<le> 1"
  by (simp add: photos_ok_def at_most_one_flag_def covers_def)

lemma UnsetCover_valid:
  "valid photos_ok (UnsetCover pid) (\<lambda>_ w. photos_ok w \<and> covers pid w = []) (\<lambda>_. photos_ok)"
  unfolding UnsetCover_def
proof (rule valid_exec)
  fix w assume ok: "photos_ok w"
  have "ph_ID p < w_next w" if "p \<in> set (unset_flags ph_WashingPointID ph_IsCover set_cover pid (w_photos w))" for p
    using cover.unset_mem [OF that] ok by (auto simp: photos_ok_def set_cover_def)
  with ok show "photos_ok (w\<lparr>w_photos := unset_flags ph_WashingPointID ph_IsCover set_cover pid (w_photos w)\<rparr>) \<and>
      covers pid (w\<lparr>w_photos := unset_flags ph_WashingPointID ph_IsCover set_cover pid (w_photos w)\<rparr>) = []"
    by (simp add: photos_ok_def covers_def cover.unset_clears cover.unset_keys cover.unset_at_most_one)
qed simp_all

lemma Photo_Create_valid:
  "valid (\<lambda>w. photos_ok w \<and> (ph_IsCover p \<longrightarrow> covers (ph_WashingPointID p) w = [])) (Photo_Create p)
     (\<lambda>_. photos_ok) (\<lambda>_. photos_ok)"
  unfolding Photo_Create_def
proof (rule valid_statement)
  have "at_most_one_flag ph_WashingPointID ph_IsCover (w_photos w @ [p\<lparr>ph_ID := w_next w, ph_CreatedAt := w_now w\<rparr>])"
    if "photos_ok w" "ph_IsCover p \<longrightarrow> covers (ph_WashingPointID p) w = []" for w
    using that by (auto simp: photos_ok_def at_most_one_flag_def covers_def)
  then show "valid (\<lambda>w. photos_ok w \<and> (ph_IsCover p \<longrightarrow> covers (ph_WashingPointID p) w = []))
     (\<lambda>w. let row = p\<lparr>ph_ID := w_next w, ph_CreatedAt := w_now w\<rparr>
       in if photo_row_ok row w
          then (Inr row, w\<lparr>w_photos := w_photos w @ [row], w_next := w_next w + 1\<rparr>)
          else (Inl Internal, w\<lparr>w_next := w_next w + 1\<rparr>)) (\<lambda>_. photos_ok) (\<lambda>_. photos_ok)"
    by (fastforce simp: valid_def Let_def photos_ok_def)
qed simp_all

text \<open>Writing a row back is safe when its flag is what the table holds or the point has no cover.\<close>

definition may_write :: "Photo \<Rightarrow> world \<Rightarrow> bool" where
  "may_write p w \<longleftrightarrow> photos_ok w \<and> (\<forall>r \<in> set (w_photos w). ph_ID r = ph_ID p \<and> ph_IsCover p \<longrightarrow>
     ph_IsCover r \<or> covers (ph_WashingPointID r) w = [])"

lemma may_write_faults [simp]: "may_write p (w\<lparr>w_faults := fs\<rparr>) = may_write p w"
  by (simp add: may_write_def)

lemma photo_update_simps [simp]:
  "ph_ID (photo_update p r) = ph_ID r" "ph_WashingPointID (photo_update p r) = ph_WashingPointID r"
  "ph_IsCover (photo_update p r) = ph_IsCover p"
  by (simp_all add: photo_update_def)

lemma update_at_most_one:
  assumes "may_write p w"
  shows "at_most_one_flag ph_WashingPointID ph_IsCover (update_where (\<lambda>r. ph_ID r = ph_ID p) (photo_update p) (w_photos w))"
proof (cases "\<exists>r \<in> set (w_photos w). ph_ID r = ph_ID p")
  case True
  then obtain r where r: "r \<in> set (w_photos w)" "ph_ID r = ph_ID p" by blast
  let ?rows = "update_where (\<lambda>r. ph_ID r = ph_ID p) (photo_update p) (w_photos w)"
  have ok: "photos_ok w" using assms by (simp add: may_write_def)
  have only: "s = r" if "s \<in> set (w_photos w)" "ph_ID s = ph_ID p" for s
    using ok r that by (auto simp: photos_ok_def distinct_map inj_on_def)
  have le: "length (flagged ph_WashingPointID ph_IsCover g (w_photos w)) \<le> 1" for g
    using ok by (simp add: photos_ok_def at_most_one_flag_def)
  have other: "flagged ph_WashingPointID ph_IsCover g ?rows = flagged ph_WashingPointID ph_IsCover g (w_photos w)"
    if "g \<noteq> ph_WashingPointID r" for g
    using only that by (intro cover.rewrite_other [where g = "ph_WashingPointID r"]) auto
  have "length (flagged ph_WashingPointID ph_IsCover (ph_WashingPointID r) ?rows) \<le> 1"
  proof -
    consider (clear) "\<not> ph_IsCover p" | (keep) "ph_IsCover p" "ph_IsCover r" | (promote) "ph_IsCover p" "covers (ph_WashingPointID r) w = []"
      using assms r by (auto simp: may_write_def)
    then show ?thesis
    proof cases
      case clear
      have "length (flagged ph_WashingPointID ph_IsCover g (update_where (\<lambda>r. ph_ID r = ph_ID p) (photo_update p) rows)) \<le>
          length (flagged ph_WashingPointID ph_IsCover g rows)" for g rows
        using clear by (induction rows) auto
      then show ?thesis using le order_trans by blast
    next
      case keep
      then have "length (flagged ph_WashingPointID ph_IsCover (ph_WashingPointID r) ?rows) =
          length (flagged ph_WashingPointID ph_IsCover (ph_WashingPointID r) (w_photos w))"
        using only by (intro cover.rewrite_same) auto
      then show ?thesis using le by simp
    next
      case promote
      then have "length (flagged ph_WashingPointID ph_IsCover (ph_WashingPointID r) ?rows) = 1"
        using ok r by (intro cover.rewrite_set [where ?r0.0 = r]) (auto simp: photos_ok_def covers_def)
      then show ?thesis by simp
    qed
  qed
  with other le show ?thesis by (metis at_most_one_flag_def)
next
  case False
  then have "update_where (\<lambda>r. ph_ID r = ph_ID p) (photo_update p) (w_photos w) = w_photos w"
    by (intro update_where_none) auto
  then show ?thesis using assms by (simp add: may_write_def photos_ok_def)
qed

lemma Photo_Update_valid:
  "valid (may_write p) (Photo_Update p)
     (\<lambda>_ w. photos_ok w \<and> (\<forall>r \<in> set (w_photos w). ph_ID r = ph_ID p \<longrightarrow> ph_IsCover r = ph_IsCover p)) (\<lambda>_. photos_ok)"
  unfolding Photo_Update_def
proof (rule valid_statement)
  show "valid (may_write p) (\<lambda>w. if - (2 ^ 31) \<le> ph_SortOrder p \<and> ph_SortOrder p < 2 ^ 31
       then (Inr (), w\<lparr>w_photos := update_where (\<lambda>r. ph_ID r = ph_ID p) (photo_update p) (w_photos w)\<rparr>)
       else (Inl Internal, w))
     (\<lambda>_ w. photos_ok w \<and> (\<forall>r \<in> set (w_photos w). ph_ID r = ph_ID p \<longrightarrow> ph_IsCover r = ph_IsCover p)) (\<lambda>_. photos_ok)"
  proof (rule validI)
    fix w x t assume P: "may_write p w"
      and "(if - (2 ^ 31) \<le> ph_SortOrder p \<and> ph_SortOrder p < 2 ^ 31
       then (Inr (), w\<lparr>w_photos := update_where (\<lambda>r. ph_ID r = ph_ID p) (photo_update p) (w_photos w)\<rparr>)
       else (Inl Internal, w)) = (Inr x, t)"
    then have "t = w\<lparr>w_photos := update_where (\<lambda>r. ph_ID r = ph_ID p) (photo_update p) (w_photos w)\<rparr>"
      by (auto split: if_splits)
    then show "photos_ok t \<and> (\<forall>r \<in> set (w_photos t). ph_ID r = ph_ID p \<longrightarrow> ph_IsCover r = ph_IsCover p)"
      using P update_at_most_one [OF P] by (auto simp: may_write_def photos_ok_def set_update_where)
  qed (auto simp: may_write_def split: if_splits)
qed (simp_all add: may_write_def)

section \<open>At most one cover\<close>

lemma keeps_photos [simp]:
  "preserves photos_ok (Storage_Put st f)" "preserves photos_ok (Storage_Delete url)"
  "preserves photos_ok (CountByWashingPoint pid)" "preserves photos_ok (Photo_FindByID k)"
  "preserves photos_ok (Photo_ListByWashingPoint pid)" "preserves photos_ok (WpRepo_FindByID pid)"
proof -
  have "photos_ok (w\<lparr>w_files := f, w_next := w_next w + 1\<rparr>)" if "photos_ok w" for w f
    using that by (fastforce simp: photos_ok_def)
  then show "preserves photos_ok (Storage_Put st f)"
    unfolding Storage_Put_def by (intro preserves_statement photos_ok_table) (auto simp: preserves_def Let_def)
  show "preserves photos_ok (Storage_Delete url)"
    unfolding Storage_Delete_def Let_def by (intro db_preserves preserves_exec photos_ok_table) simp
  show "preserves photos_ok (CountByWashingPoint pid)" "preserves photos_ok (Photo_FindByID k)"
    "preserves photos_ok (Photo_ListByWashingPoint pid)" "preserves photos_ok (WpRepo_FindByID pid)"
    unfolding CountByWashingPoint_def Photo_FindByID_def Photo_ListByWashingPoint_def WpRepo_FindByID_def
    by (intro preserves_query preserves_first_or photos_ok_table)+
qed

lemma preserves_cleanup: "preserves I m \<Longrightarrow> preserves I c \<Longrightarrow> preserves I (cleanup_on_error m c)"
  by (auto simp: preserves_def cleanup_on_error_def split: prod.split sum.split)

lemma add_photo_ok: "preserves photos_ok (add_photo pid url isCover)"
proof -
  have "valid photos_ok (bindE (if c then UnsetCover pid else return_ok ()) (\<lambda>_. Photo_Create (new_photo pid url c cnt)))
      (\<lambda>_. photos_ok) (\<lambda>_. photos_ok)" for c cnt
  proof (cases c)
    case True
    then show ?thesis
      by (auto simp: new_photo_def intro!: valid_bind [OF UnsetCover_valid] valid_weaken [OF Photo_Create_valid])
  next
    case False
    then show ?thesis
      by (auto simp: new_photo_def intro!: valid_bind [OF valid_return [where Q = "\<lambda>_. photos_ok"]] valid_weaken [OF Photo_Create_valid])
  qed
  then show ?thesis
    unfolding add_photo_def Let_def valid_preserves by (rule preserves_bindE [OF keeps_photos(3)])
qed

text \<open>A photo that was read from the table, or is no longer there.\<close>

definition known_photo :: "Photo \<Rightarrow> world \<Rightarrow> bool" where
  "known_photo p w \<longleftrightarrow> photos_ok w \<and> (\<forall>r \<in> set (w_photos w). ph_ID r = ph_ID p \<longrightarrow>
     ph_WashingPointID r = ph_WashingPointID p \<and> ph_IsCover r = ph_IsCover p)"

lemma known_photo_faults [simp]: "known_photo p (w\<lparr>w_faults := fs\<rparr>) = known_photo p w"
  by (simp add: known_photo_def)

lemma SetCover_valid: "valid (known_photo p) (SetCover p) may_write (\<lambda>_. photos_ok)"
  unfolding SetCover_def Let_def
proof (intro valid_bind)
  have eq: "ph_ID (set_cover True p) = ph_ID p" by (simp add: set_cover_def)
  show "valid (known_photo p) (UnsetCover (ph_WashingPointID p)) (\<lambda>_. may_write (set_cover True p)) (\<lambda>_. photos_ok)"
  proof (rule validI)
    fix w x t assume P: "known_photo p w" and run: "UnsetCover (ph_WashingPointID p) w = (Inr x, t)"
    have t: "photos_ok t" "covers (ph_WashingPointID p) t = []"
      using validD [OF UnsetCover_valid _ run] P by (simp_all add: known_photo_def)
    obtain fs where "t = w\<lparr>w_faults := fs, w_photos := unset_flags ph_WashingPointID ph_IsCover set_cover (ph_WashingPointID p) (w_photos w)\<rparr>"
      using run unfolding UnsetCover_def by (rule exec_Inr) simp
    then have "ph_WashingPointID r = ph_WashingPointID p" if "r \<in> set (w_photos t)" "ph_ID r = ph_ID p" for r
      using cover.unset_mem [of r "ph_WashingPointID p" "w_photos w"] P that
      by (auto simp: known_photo_def set_cover_def)
    then show "may_write (set_cover True p) t" using t by (auto simp: may_write_def eq)
  qed (use validD_error [OF UnsetCover_valid] in \<open>auto simp: known_photo_def\<close>)
  show "valid (may_write (set_cover True p)) (Photo_Update (set_cover True p)) (\<lambda>_. may_write (set_cover True p)) (\<lambda>_. photos_ok)"
    by (rule valid_weaken [OF Photo_Update_valid]) (auto simp: may_write_def)
qed (simp add: valid_return)

lemma may_write_sort [simp]: "may_write (p\<lparr>ph_SortOrder := n\<rparr>) w = may_write p w"
  by (simp add: may_write_def)

lemma known_may_write: "known_photo p w \<Longrightarrow> may_write p w"
  by (auto simp: known_photo_def may_write_def)

definition held_photo :: "Photo \<Rightarrow> world \<Rightarrow> bool" where
  "held_photo p w \<longleftrightarrow> photos_ok w \<and> p \<in> set (w_photos w)"

lemma held_known: "held_photo p w \<Longrightarrow> known_photo p w"
  by (auto simp: held_photo_def known_photo_def photos_ok_def distinct_map inj_on_def)

lemma findOwned_held:
  "valid photos_ok (photo_findOwned uuid_parse u rawID rawPhotoID) held_photo (\<lambda>_. photos_ok)"
proof -
  have "valid photos_ok (Photo_FindByID k) held_photo (\<lambda>_. photos_ok)" for k
  proof (rule validI)
    fix w p t assume ok: "photos_ok w" and run: "Photo_FindByID k w = (Inr p, t)"
    obtain fs where "t = w\<lparr>w_faults := fs\<rparr>" "p \<in> set (w_photos w)"
      using run unfolding Photo_FindByID_def by (rule first_or_Inr) (auto dest: find_row_SomeD)
    then show "held_photo p t" using ok by (simp add: held_photo_def)
  qed (use preservesD [OF keeps_photos(4)] in blast)
  then show ?thesis
    unfolding photo_findOwned_def
    by (intro valid_lift valid_require valid_bind [where R = held_photo]) (auto simp: held_photo_def intro!: valid_return)
qed

lemma findOwned_known:
  "valid photos_ok (photo_findOwned uuid_parse u rawID rawPhotoID) known_photo (\<lambda>_. photos_ok)"
  by (rule valid_weaken [OF findOwned_held]) (auto intro: held_known)

lemma photo_patch_ok: "preserves photos_ok (photo_patch uuid_parse ctx rawID rawPhotoID body)"
  unfolding photo_patch_def valid_preserves [symmetric]
proof (intro valid_lift)
  fix authUser
  show "valid photos_ok (bindE (photo_findOwned uuid_parse authUser rawID rawPhotoID) (\<lambda>p.
     bindE (lift_result body) (\<lambda>req.
     bindE (if pu_IsCover req = Some True then SetCover p else return_ok p) (\<lambda>p1.
     bindE (case pu_SortOrder req of
              None \<Rightarrow> return_ok p1
            | Some n \<Rightarrow>
                bindE (require (\<not> n < 0) (BadRequest ''invalid_sort_order'')) (\<lambda>_.
                let p2 = p1\<lparr>ph_SortOrder := n\<rparr>
                in bindE (Photo_Update p2) (\<lambda>_. return_ok p2))) (\<lambda>p2.
     return_ok (photo_toResponse p2)))))) (\<lambda>_. photos_ok) (\<lambda>_. photos_ok)"
  proof (rule valid_bind [OF findOwned_known], rule valid_lift)
    fix p req
    show "valid (known_photo p) (bindE (if pu_IsCover req = Some True then SetCover p else return_ok p) (\<lambda>p1.
     bindE (case pu_SortOrder req of
              None \<Rightarrow> return_ok p1
            | Some n \<Rightarrow>
                bindE (require (\<not> n < 0) (BadRequest ''invalid_sort_order'')) (\<lambda>_.
                let p2 = p1\<lparr>ph_SortOrder := n\<rparr>
                in bindE (Photo_Update p2) (\<lambda>_. return_ok p2))) (\<lambda>p2.
     return_ok (photo_toResponse p2)))) (\<lambda>_. photos_ok) (\<lambda>_. photos_ok)"
    proof (rule valid_bind [where R = may_write])
      show "valid (known_photo p) (if pu_IsCover req = Some True then SetCover p else return_ok p) may_write (\<lambda>_. photos_ok)"
        by (auto simp: SetCover_valid known_may_write intro: valid_return)
      fix p1
      have "valid (may_write p1) (Photo_Update (p1\<lparr>ph_SortOrder := n\<rparr>)) (\<lambda>_. photos_ok) (\<lambda>_. photos_ok)" for n
        by (rule valid_weaken [OF Photo_Update_valid]) auto
      then have "valid (may_write p1) (bindE (Photo_Update (p1\<lparr>ph_SortOrder := n\<rparr>)) (\<lambda>_. return_ok (p1\<lparr>ph_SortOrder := n\<rparr>)))
          (\<lambda>_. photos_ok) (\<lambda>_. photos_ok)" for n
        by (rule valid_bind) (simp add: valid_return)
      then have "valid (may_write p1) (bindE (require (\<not> n < 0) e) (\<lambda>_.
          bindE (Photo_Update (p1\<lparr>ph_SortOrder := n\<rparr>)) (\<lambda>_. return_ok (p1\<lparr>ph_SortOrder := n\<rparr>))))
          (\<lambda>_. photos_ok) (\<lambda>_. photos_ok)" for n e
        by (intro valid_require) (simp_all add: may_write_def)
      moreover have "valid (may_write p1) (return_ok p1 :: Photo db) (\<lambda>_. photos_ok) (\<lambda>_. photos_ok)"
        by (rule valid_return) (simp add: may_write_def)
      ultimately show "valid (may_write p1) (bindE (case pu_SortOrder req of
              None \<Rightarrow> return_ok p1
            | Some n \<Rightarrow>
                bindE (require (\<not> n < 0) (BadRequest ''invalid_sort_order'')) (\<lambda>_.
                let p2 = p1\<lparr>ph_SortOrder := n\<rparr>
                in bindE (Photo_Update p2) (\<lambda>_. return_ok p2))) (\<lambda>p2.
          return_ok (photo_toResponse p2))) (\<lambda>_. photos_ok) (\<lambda>_. photos_ok)"
        unfolding Let_def
        by (intro valid_bind [where R = "\<lambda>_. photos_ok"]) (simp_all add: valid_return split: option.split)
    qed
  qed (simp add: known_photo_def)
qed simp

definition uncovered :: "Photo \<Rightarrow> world \<Rightarrow> bool" where
  "uncovered p w \<longleftrightarrow> photos_ok w \<and> (ph_IsCover p \<longrightarrow> covers (ph_WashingPointID p) w = [])"

lemma uncovered_simps [simp]:
  "uncovered p (w\<lparr>w_faults := fs\<rparr>) = uncovered p w" "uncovered p (w\<lparr>w_files := f\<rparr>) = uncovered p w"
  by (simp_all add: uncovered_def covers_def)

lemma uncovered_ok: "uncovered p w \<Longrightarrow> photos_ok w"
  by (simp add: uncovered_def)

lemma Photo_Delete_valid: "valid (held_photo p) (Photo_Delete (ph_ID p)) (\<lambda>_. uncovered p) (\<lambda>_. photos_ok)"
  unfolding Photo_Delete_def
proof (rule valid_exec)
  fix w assume held: "held_photo p w"
  have "covers (ph_WashingPointID p) (w\<lparr>w_photos := delete_where (\<lambda>r. ph_ID r = ph_ID p) (w_photos w)\<rparr>) = []"
    if c: "ph_IsCover p"
  proof -
    have "p \<in> set (covers (ph_WashingPointID p) w)" using held c by (simp add: covers_def set_flagged held_photo_def)
    then have "length (flagged ph_WashingPointID ph_IsCover (ph_WashingPointID p) (w_photos w)) = 1"
      using photos_ok_covers [of w "ph_WashingPointID p"] held
      by (cases "covers (ph_WashingPointID p) w") (auto simp: covers_def held_photo_def)
    from cover.delete_flagged [OF this, of p "ph_ID p"] held c show ?thesis
      by (simp add: covers_def held_photo_def)
  qed
  then show "uncovered p (w\<lparr>w_photos := delete_where (\<lambda>r. ph_ID r = ph_ID p) (w_photos w)\<rparr>)"
    using held by (auto simp: uncovered_def held_photo_def photos_ok_def distinct_map_delete_where
        cover.delete_at_most_one)
qed (simp_all add: held_photo_def)

lemma first_photo_SomeD: "first_photo_except pid k w = Some n \<Longrightarrow> n \<in> set (w_photos w) \<and> ph_WashingPointID n = pid"
proof -
  assume some: "first_photo_except pid k w = Some n"
  let ?xs = "sort_key ph_SortOrder (sort_key ph_CreatedAt (sort_key ph_ID (filter (\<lambda>p. ph_ID p \<noteq> k) (point_photos pid w))))"
  have "n \<in> set ?xs" using some by (cases ?xs) (simp_all add: first_photo_except_def)
  then show ?thesis by (simp add: point_photos_def)
qed

lemma PhotoManager_Delete_valid: "valid (held_photo p) (PhotoManager_Delete p) (\<lambda>_. photos_ok) (\<lambda>_. photos_ok)"
  unfolding PhotoManager_Delete_def
proof (intro valid_bind)
  show "valid (held_photo p) (Photo_Delete (ph_ID p)) (\<lambda>_. uncovered p) (\<lambda>_. photos_ok)" by (rule Photo_Delete_valid)
  have "preserves (uncovered p) (Storage_Delete (ph_URL p))"
    unfolding Storage_Delete_def Let_def
    by (intro db_preserves preserves_exec table_propertyI) (auto simp: uncovered_def photos_ok_def covers_def)
  then show "valid (uncovered p) (attempt (Storage_Delete (ph_URL p))) (\<lambda>_. uncovered p) (\<lambda>_. photos_ok)"
    by (intro valid_attempt) (simp add: valid_preserves)
  show "valid (uncovered p) (if \<not> ph_IsCover p then return_ok ()
     else bindE (FirstExcept (ph_WashingPointID p) (ph_ID p)) (\<lambda>next.
       case next of None \<Rightarrow> return_ok () | Some n \<Rightarrow> Photo_Update (set_cover True n))) (\<lambda>_. photos_ok) (\<lambda>_. photos_ok)"
  proof (cases "ph_IsCover p")
    case True
    have first: "valid (uncovered p) (FirstExcept (ph_WashingPointID p) (ph_ID p))
        (\<lambda>next w. photos_ok w \<and> (\<forall>n. next = Some n \<longrightarrow> may_write (set_cover True n) w)) (\<lambda>_. photos_ok)"
      unfolding FirstExcept_def
    proof (rule valid_query)
      fix w assume P: "uncovered p w"
      have "may_write (set_cover True n) w" if "first_photo_except (ph_WashingPointID p) (ph_ID p) w = Some n" for n
      proof -
        have n: "n \<in> set (w_photos w)" "ph_WashingPointID n = ph_WashingPointID p" using first_photo_SomeD [OF that] by auto
        have same: "r = n" if "r \<in> set (w_photos w)" "ph_ID r = ph_ID n" for r
          using P n(1) that by (auto simp: uncovered_def photos_ok_def distinct_map inj_on_def)
        have "covers (ph_WashingPointID r) w = []" if "r \<in> set (w_photos w)" "ph_ID r = ph_ID n" for r
          using same [OF that] P n(2) True by (simp add: uncovered_def)
        then show ?thesis using P by (simp add: may_write_def uncovered_def set_cover_def)
      qed
      then show "photos_ok w \<and> (\<forall>n. first_photo_except (ph_WashingPointID p) (ph_ID p) w = Some n \<longrightarrow>
          may_write (set_cover True n) w)" using P by (simp add: uncovered_ok)
    qed (simp_all add: uncovered_ok)
    have "valid (\<lambda>w. photos_ok w \<and> (\<forall>n. x = Some n \<longrightarrow> may_write (set_cover True n) w))
       (case x of None \<Rightarrow> return_ok () | Some n \<Rightarrow> Photo_Update (set_cover True n)) (\<lambda>_. photos_ok) (\<lambda>_. photos_ok)" for x
      by (cases x) (auto intro!: valid_return valid_weaken [OF Photo_Update_valid])
    with first True show ?thesis by (auto intro: valid_bind)
  qed (simp add: valid_return uncovered_ok)
qed

lemma photo_delete_ok: "preserves photos_ok (photo_delete uuid_parse ctx rawID rawPhotoID)"
  unfolding photo_delete_def valid_preserves [symmetric]
  by (intro valid_lift valid_bind [OF findOwned_held] PhotoManager_Delete_valid) simp

lemma photo_upload_ok: "preserves photos_ok (photo_upload st uuid_parse ctx rawID form)"
  unfolding photo_upload_def Photo_Upload_def
  by (intro db_preserves keeps_photos preserves_cleanup add_photo_ok)

text \<open>
  C22 A washing point never gets two covers from requests that run one after the other: every photo
  endpoint keeps the table's identifiers distinct and at most one cover per point, whichever statement
  or file operation fails.
\<close>

theorem at_most_one_cover:
  "preserves photos_ok (photo_upload st uuid_parse ctx rawID form) \<and>
   preserves photos_ok (photo_patch uuid_parse ctx rawID rawPhotoID body) \<and>
   preserves photos_ok (photo_delete uuid_parse ctx rawID rawPhotoID) \<and>
   preserves photos_ok (photo_list uuid_parse rawID)"
proof -
  have "preserves photos_ok (photo_list uuid_parse rawID)"
    unfolding photo_list_def by (intro db_preserves keeps_photos)
  then show ?thesis using photo_upload_ok photo_patch_ok photo_delete_ok by blast
qed

end
