(* ===== verification/PhotoFiles.thy ===== *)
theory PhotoFiles
  imports PhotoProps
begin

text \<open>
  The files behind the photos. Rows and files live in different places and are written in different
  orders: an upload writes the file first and removes it again when the row cannot be written, a
  deletion removes the row first. So at every moment each row has its file.
\<close>

section \<open>Names and URLs\<close>

text \<open>What the text of a UUID is relied on for: 36 hexadecimal digits and dashes, different for different ones.\<close>

definition storage_ok :: "storage \<Rightarrow> bool" where
  "storage_ok st \<longleftrightarrow> inj (st_uuid st) \<and>
     (\<forall>k. st_uuid st k \<noteq> [] \<and> CHR ''/'' \<notin> set (st_uuid st k) \<and> CHR ''.'' \<notin> set (st_uuid st k) \<and>
        CHR 0x5C \<notin> set (st_uuid st k))"

definition image_exts :: "string list" where
  "image_exts = [''.jpg'', ''.png'', ''.gif'', ''.webp'']"

lemma ParseImageUpload_ext: "ParseImageUpload form = Inr ext \<Longrightarrow> ext \<in> set image_exts"
  by (auto simp: ParseImageUpload_def image_exts_def allowedContentTypes_def Option.bind_eq_Some_conv
      split: upload_form.splits option.splits if_splits)

lemma photo_ext: "ext \<in> set image_exts \<Longrightarrow> ToLower (path_Ext (''photo'' @ ext)) = ext"
proof -
  have "\<forall>ext \<in> set image_exts. ToLower (path_Ext (''photo'' @ ext)) = ext" by code_simp
  then show "ext \<in> set image_exts \<Longrightarrow> ?thesis" by blast
qed

definition good_name :: "string \<Rightarrow> bool" where
  "good_name s \<longleftrightarrow> s \<noteq> [] \<and> s \<noteq> ''.'' \<and> CHR ''/'' \<notin> set s \<and> CHR 0x5C \<notin> set s"

lemma path_Base_url:
  assumes "good_name name"
  shows "path_Base (file_url st name) = name"
proof -
  have "takeWhile (\<lambda>c. c \<noteq> CHR ''/'') (rev name @ CHR ''/'' # xs) = rev name" for xs
    using assms by (intro takeWhile_append2 [of "rev name" _ "CHR ''/'' # xs", simplified, THEN trans]) (auto simp: good_name_def)
  moreover have "dropWhile (\<lambda>c. c = CHR ''/'') (rev name @ xs) = rev name @ xs" for xs
  proof -
    obtain c cs where c: "rev name = c # cs" using assms by (cases "rev name") (auto simp: good_name_def)
    then have "c \<in> set name" by (metis list.set_intros(1) set_rev)
    then have "c \<noteq> CHR ''/''" using assms by (auto simp: good_name_def)
    then show ?thesis by (simp add: c)
  qed
  ultimately show ?thesis using assms
    by (simp add: path_Base_def file_url_def Let_def good_name_def)
qed

lemma file_url_inject [simp]: "file_url st a = file_url st b \<longleftrightarrow> a = b"
  by (simp add: file_url_def)

definition name_of :: "storage \<Rightarrow> uuid \<Rightarrow> string \<Rightarrow> bool" where
  "name_of st k name \<longleftrightarrow> (\<exists>ext \<in> set image_exts. name = st_uuid st k @ ext)"

lemma name_of_good: "storage_ok st \<Longrightarrow> name_of st k name \<Longrightarrow> good_name name"
  by (auto simp: storage_ok_def name_of_def good_name_def image_exts_def append_eq_Cons_conv)

lemma name_of_inject:
  assumes "storage_ok st" "name_of st k name" "name_of st l name"
  shows "k = l"
proof -
  have take: "takeWhile (\<lambda>c. c \<noteq> CHR ''.'') name = st_uuid st k" if "name_of st k name" for k
  proof -
    have "\<forall>c \<in> set (st_uuid st k). c \<noteq> CHR ''.''" using assms(1) by (auto simp: storage_ok_def)
    then have cut: "takeWhile (\<lambda>c. c \<noteq> CHR ''.'') (st_uuid st k @ CHR ''.'' # ys) = st_uuid st k" for ys
      by simp
    obtain ext where "ext \<in> set image_exts" "name = st_uuid st k @ ext" using \<open>name_of st k name\<close> by (auto simp: name_of_def)
    then obtain ys where "name = st_uuid st k @ CHR ''.'' # ys" by (auto simp: image_exts_def)
    then show ?thesis using cut by simp
  qed
  from take [OF assms(2)] take [OF assms(3)] assms(1) show ?thesis by (auto simp: storage_ok_def inj_def)
qed

section \<open>Every row has its file\<close>

definition urls :: "world \<Rightarrow> string list" where
  "urls w = map ph_URL (w_photos w) @ map bp_URL (w_bphotos w)"

definition files_ok :: "storage \<Rightarrow> world \<Rightarrow> bool" where
  "files_ok st w \<longleftrightarrow> distinct (urls w) \<and> (\<forall>url \<in> set (urls w). \<exists>name \<in> set (w_files w). url = file_url st name) \<and>
     (\<forall>name \<in> set (w_files w). \<exists>k < w_next w. name_of st k name)"

definition spare :: "storage \<Rightarrow> string \<Rightarrow> world \<Rightarrow> bool" where
  "spare st url w \<longleftrightarrow> files_ok st w \<and> url \<notin> set (urls w) \<and> (\<exists>name. good_name name \<and> url = file_url st name)"

definition spare_file :: "storage \<Rightarrow> string \<Rightarrow> world \<Rightarrow> bool" where
  "spare_file st url w \<longleftrightarrow> spare st url w \<and> (\<exists>name \<in> set (w_files w). url = file_url st name)"

lemma files_table: "table_property (files_ok st)" "table_property (spare st url)" "table_property (spare_file st url)"
  by (rule table_propertyI, fastforce simp: spare_file_def spare_def files_ok_def urls_def dest: less_le_trans)+

lemma spareD: "spare_file st url w \<Longrightarrow> spare st url w" "spare st url w \<Longrightarrow> files_ok st w"
  by (simp_all add: spare_file_def spare_def)

lemma same_urls:
  assumes "urls w' = urls w" "w_files w' = w_files w" "w_next w' = w_next w"
  shows "files_ok st w' = files_ok st w" "spare st url w' = spare st url w" "spare_file st url w' = spare_file st url w"
  using assms by (simp_all add: files_ok_def spare_def spare_file_def)

lemma Put_valid:
  assumes "storage_ok st" "ext \<in> set image_exts"
  shows "valid (files_ok st) (Storage_Put st (''photo'' @ ext)) (spare_file st) (\<lambda>_. files_ok st)"
  unfolding Storage_Put_def
proof (rule valid_statement)
  show "valid (files_ok st) (\<lambda>w. let name = file_name st (w_next w) (''photo'' @ ext)
       in (Inr (file_url st name), w\<lparr>w_files := w_files w @ [name], w_next := w_next w + 1\<rparr>))
     (spare_file st) (\<lambda>_. files_ok st)"
  proof (rule validI)
    fix w x t assume ok: "files_ok st w"
      and run: "(let name = file_name st (w_next w) (''photo'' @ ext)
       in (Inr (file_url st name), w\<lparr>w_files := w_files w @ [name], w_next := w_next w + 1\<rparr>)) = (Inr x, t)"
    let ?name = "st_uuid st (w_next w) @ ext"
    have "file_name st (w_next w) (''photo'' @ ext) = ?name" by (simp only: file_name_def photo_ext [OF assms(2)])
    from run [unfolded this Let_def] have x: "x = file_url st ?name"
      and t: "t = w\<lparr>w_files := w_files w @ [?name], w_next := w_next w + 1\<rparr>" by auto
    have name: "name_of st (w_next w) ?name" using assms(2) by (auto simp: name_of_def)
    have "?name \<notin> set (w_files w)"
      using ok name_of_inject [OF assms(1) name] by (auto simp: files_ok_def)
    then have "x \<notin> set (urls w)" using ok by (auto simp: files_ok_def x)
    then show "spare_file st x t"
      using ok name name_of_good [OF assms(1) name]
      by (auto simp: spare_file_def spare_def files_ok_def urls_def t x) (metis less_SucI)
  qed (simp add: Let_def)
qed (use table_property_faults [OF files_table(1)] in auto)

lemma Storage_Delete_spare: "spare st url w \<Longrightarrow> files_ok st (snd (Storage_Delete url w))"
proof -
  assume spare: "spare st url w"
  then obtain name where name: "good_name name" "url = file_url st name" by (auto simp: spare_def)
  have "Storage_Delete url = exec (\<lambda>w. w\<lparr>w_files := filter (\<lambda>f. f \<noteq> name) (w_files w)\<rparr>)"
    using name path_Base_url [OF name(1), of st] by (auto simp: Storage_Delete_def Let_def good_name_def)
  moreover have "preserves (spare st url) (exec (\<lambda>w. w\<lparr>w_files := filter (\<lambda>f. f \<noteq> name) (w_files w)\<rparr>))"
  proof (rule preserves_exec [OF files_table(2)])
    fix v assume v: "spare st url v"
    have "\<exists>n \<in> set (filter (\<lambda>f. f \<noteq> name) (w_files v)). u = file_url st n" if u: "u \<in> set (urls v)" for u
    proof -
      obtain n where "n \<in> set (w_files v)" "u = file_url st n" using v u by (auto simp: spare_def files_ok_def)
      moreover have "n \<noteq> name" using v u calculation name(2) by (auto simp: spare_def)
      ultimately show ?thesis by auto
    qed
    then show "spare st url (v\<lparr>w_files := filter (\<lambda>f. f \<noteq> name) (w_files v)\<rparr>)"
      using v by (auto simp: spare_def files_ok_def urls_def)
  qed
  ultimately have "spare st url (snd (Storage_Delete url w))" using spare by (simp add: preserves_def)
  then show ?thesis by (rule spareD)
qed

text \<open>A statement that does not touch the URLs or the files.\<close>

lemma keeps_files:
  assumes "\<And>w. urls (f w) = urls w" "\<And>w. w_files (f w) = w_files w" "\<And>w. w_next (f w) = w_next w"
  shows "preserves (files_ok st) (exec f)" "preserves (spare_file st url) (exec f)"
  using same_urls [OF assms] by (intro preserves_exec files_table; simp)+

lemma keeps_files_simps [simp]:
  "preserves (files_ok st) (UnsetCover pid)" "preserves (spare_file st url) (UnsetCover pid)"
  "preserves (spare_file st url) (CountByWashingPoint pid)" "preserves (files_ok st) (Photo_Update p)"
  "preserves (files_ok st) (Photo_FindByID k)" "preserves (files_ok st) (BPhoto_FindByID k)"
  "preserves (files_ok st) (FirstExcept pid k)" "preserves (files_ok st) (WpRepo_FindByID pid)"
  "preserves (files_ok st) (QueueRepo_FindByID qid)" "preserves (files_ok st) (CountByQueue qid)"
  "preserves (files_ok st) (ListByQueue qid)" "preserves (files_ok st) (Photo_ListByWashingPoint pid)"
proof -
  have unset: "urls (w\<lparr>w_photos := unset_flags ph_WashingPointID ph_IsCover set_cover pid (w_photos w)\<rparr>) = urls w" for w
    by (simp add: urls_def unset_flags_def set_cover_def)
  show "preserves (files_ok st) (UnsetCover pid)" "preserves (spare_file st url) (UnsetCover pid)"
    unfolding UnsetCover_def by (rule keeps_files; simp add: unset)+
  have "urls (w\<lparr>w_photos := update_where P (photo_update p) (w_photos w)\<rparr>) = urls w" for w P
    by (simp add: urls_def photo_update_def)
  then have upd: "files_ok st (w\<lparr>w_photos := update_where P (photo_update p) (w_photos w)\<rparr>) = files_ok st w" for w P
    by (rule same_urls) simp_all
  show "preserves (files_ok st) (Photo_Update p)"
    unfolding Photo_Update_def by (intro preserves_statement files_table) (auto simp: preserves_def upd)
  show "preserves (spare_file st url) (CountByWashingPoint pid)"
    "preserves (files_ok st) (Photo_FindByID k)" "preserves (files_ok st) (BPhoto_FindByID k)"
    "preserves (files_ok st) (FirstExcept pid k)" "preserves (files_ok st) (WpRepo_FindByID pid)"
    "preserves (files_ok st) (QueueRepo_FindByID qid)" "preserves (files_ok st) (CountByQueue qid)"
    "preserves (files_ok st) (ListByQueue qid)" "preserves (files_ok st) (Photo_ListByWashingPoint pid)"
    unfolding CountByWashingPoint_def Photo_FindByID_def BPhoto_FindByID_def FirstExcept_def WpRepo_FindByID_def
      CountByQueue_def ListByQueue_def Photo_ListByWashingPoint_def
    by (intro preserves_query preserves_first_or preserves_QueueRepo_FindByID files_table)+
qed

text \<open>A row for a spare file; without the row the file is still spare.\<close>

lemma spare_used:
  assumes "spare_file st url w" "mset (urls w') = mset (url # urls w)" "w_files w' = w_files w" "w_next w \<le> w_next w'"
  shows "files_ok st w'"
proof -
  have w: "files_ok st w" "url \<notin> set (urls w)" "\<exists>name \<in> set (w_files w). url = file_url st name"
    using assms(1) by (simp_all add: spare_file_def spare_def)
  have "distinct (urls w')" using mset_eq_imp_distinct_iff [OF assms(2)] w(1,2) by (simp add: files_ok_def)
  moreover have "set (urls w') = insert url (set (urls w))" using mset_eq_setD [OF assms(2)] by simp
  moreover have "\<forall>name \<in> set (w_files w). \<exists>k < w_next w'. name_of st k name"
    using w(1) assms(4) less_le_trans by (fastforce simp: files_ok_def)
  ultimately show ?thesis using w(1,3) assms(3) by (simp add: files_ok_def)
qed

lemma spare_next: "spare_file st url w \<Longrightarrow> spare_file st url (w\<lparr>w_next := w_next w + 1\<rparr>)"
  using table_property_next [OF files_table(3), of st url w "w_next w + 1"] by simp

lemma Photo_Create_files:
  assumes "ph_URL p = url"
  shows "valid (spare_file st url) (Photo_Create p) (\<lambda>_. files_ok st) (\<lambda>_. spare_file st url)"
  unfolding Photo_Create_def
proof (rule valid_statement)
  have "files_ok st (w\<lparr>w_photos := w_photos w @ [p\<lparr>ph_ID := k, ph_CreatedAt := t\<rparr>], w_next := w_next w + 1\<rparr>)"
    if "spare_file st url w" for w k t
    by (rule spare_used [OF that]) (simp_all add: urls_def assms)
  then show "valid (spare_file st url) (\<lambda>w. let row = p\<lparr>ph_ID := w_next w, ph_CreatedAt := w_now w\<rparr>
       in if photo_row_ok row w
          then (Inr row, w\<lparr>w_photos := w_photos w @ [row], w_next := w_next w + 1\<rparr>)
          else (Inl Internal, w\<lparr>w_next := w_next w + 1\<rparr>)) (\<lambda>_. files_ok st) (\<lambda>_. spare_file st url)"
    using spare_next by (simp add: valid_def Let_def)
qed (use table_property_faults [OF files_table(3)] in auto)

lemma BPhoto_Create_files:
  assumes "bp_URL p = url"
  shows "valid (spare_file st url) (BPhoto_Create p) (\<lambda>_. files_ok st) (\<lambda>_. spare_file st url)"
  unfolding BPhoto_Create_def
proof (rule valid_statement)
  have "files_ok st (w\<lparr>w_bphotos := w_bphotos w @ [p\<lparr>bp_ID := k, bp_CreatedAt := t\<rparr>], w_next := w_next w + 1\<rparr>)"
    if "spare_file st url w" for w k t
    by (rule spare_used [OF that]) (simp_all add: urls_def assms)
  then show "valid (spare_file st url) (\<lambda>w. let row = p\<lparr>bp_ID := w_next w, bp_CreatedAt := w_now w\<rparr>
       in if bphoto_row_ok row w
          then (Inr row, w\<lparr>w_bphotos := w_bphotos w @ [row], w_next := w_next w + 1\<rparr>)
          else (Inl Internal, w\<lparr>w_next := w_next w + 1\<rparr>)) (\<lambda>_. files_ok st) (\<lambda>_. spare_file st url)"
    using spare_next by (simp add: valid_def Let_def)
qed (use table_property_faults [OF files_table(3)] in auto)

lemma add_photo_files: "valid (spare_file st url) (add_photo pid url c) (\<lambda>_. files_ok st) (\<lambda>_. spare_file st url)"
  unfolding add_photo_def Let_def
proof (intro valid_bind)
  show "valid (spare_file st url) (CountByWashingPoint pid) (\<lambda>_. spare_file st url) (\<lambda>_. spare_file st url)"
    by (simp add: valid_preserves)
  show "valid (spare_file st url) (if b then UnsetCover pid else return_ok ()) (\<lambda>_. spare_file st url) (\<lambda>_. spare_file st url)" for b
    by (simp add: valid_preserves preserves_pure)
qed (rule Photo_Create_files, simp add: new_photo_def)

lemma valid_cleanup:
  assumes "valid P m Q R" "\<And>e w. R e w \<Longrightarrow> E e (snd (c w))"
  shows "valid P (cleanup_on_error m c) Q E"
  using assms by (fastforce simp: valid_def cleanup_on_error_def split: prod.splits sum.splits)

text \<open>Put a file, then its row, or remove the file again.\<close>

lemma upload_files:
  assumes "storage_ok st" "ext \<in> set image_exts"
    and "\<And>url. valid (spare_file st url) (row url) (\<lambda>_. files_ok st) (\<lambda>_. spare_file st url)"
  shows "preserves (files_ok st) (bindE (Storage_Put st (''photo'' @ ext)) (\<lambda>url. cleanup_on_error (row url) (Storage_Delete url)))"
  unfolding valid_preserves [symmetric]
  by (rule valid_bind [OF Put_valid [OF assms(1,2)]], rule valid_cleanup [OF assms(3)])
    (auto intro: Storage_Delete_spare spareD)

text \<open>The row goes first, then its file; no other row has that file.\<close>

lemma row_gone:
  assumes "files_ok st w" "storage_ok st" "url \<in> set (urls w)" "set (urls w') \<subseteq> set (urls w) - {url}" "distinct (urls w')"
    "w_files w' = w_files w" "w_next w' = w_next w"
  shows "spare st url w'"
proof -
  obtain name where name: "name \<in> set (w_files w)" "url = file_url st name" using assms(1,3) by (auto simp: files_ok_def)
  then have "good_name name" using assms(1) name_of_good [OF assms(2)] by (auto simp: files_ok_def)
  then show ?thesis using assms name by (auto simp: spare_def files_ok_def)
qed

lemma Photo_Delete_files:
  assumes "storage_ok st"
  shows "valid (\<lambda>w. files_ok st w \<and> p \<in> set (w_photos w)) (Photo_Delete (ph_ID p)) (\<lambda>_. spare st (ph_URL p)) (\<lambda>_. files_ok st)"
  unfolding Photo_Delete_def
proof (rule valid_exec)
  fix w assume w: "files_ok st w \<and> p \<in> set (w_photos w)"
  then have "distinct (map ph_URL (w_photos w))" by (simp add: files_ok_def urls_def)
  then have "ph_URL q \<noteq> ph_URL p" if "q \<in> set (w_photos w)" "ph_ID q \<noteq> ph_ID p" for q
    using that w by (auto simp: distinct_map inj_on_def)
  then show "spare st (ph_URL p) (w\<lparr>w_photos := delete_where (\<lambda>r. ph_ID r = ph_ID p) (w_photos w)\<rparr>)"
    using w by (intro row_gone [where w = w] assms)
      (auto simp: files_ok_def urls_def set_delete_where distinct_map_delete_where)
qed (use table_property_faults [OF files_table(1)] in auto)

lemma BPhoto_Delete_files:
  assumes "storage_ok st"
  shows "valid (\<lambda>w. files_ok st w \<and> p \<in> set (w_bphotos w)) (BPhoto_Delete (bp_ID p)) (\<lambda>_. spare st (bp_URL p)) (\<lambda>_. files_ok st)"
  unfolding BPhoto_Delete_def
proof (rule valid_exec)
  fix w assume w: "files_ok st w \<and> p \<in> set (w_bphotos w)"
  then have "distinct (map bp_URL (w_bphotos w))" by (simp add: files_ok_def urls_def)
  then have "bp_URL q \<noteq> bp_URL p" if "q \<in> set (w_bphotos w)" "bp_ID q \<noteq> bp_ID p" for q
    using that w by (auto simp: distinct_map inj_on_def)
  then show "spare st (bp_URL p) (w\<lparr>w_bphotos := delete_where (\<lambda>r. bp_ID r = bp_ID p) (w_bphotos w)\<rparr>)"
    using w by (intro row_gone [where w = w] assms)
      (auto simp: files_ok_def urls_def set_delete_where distinct_map_delete_where)
qed (use table_property_faults [OF files_table(1)] in auto)

lemma delete_file: "valid (spare st url) (attempt (Storage_Delete url)) (\<lambda>_. files_ok st) (\<lambda>_. files_ok st)"
proof (rule valid_attempt, rule validI)
  fix w x t assume P: "spare st url w" and "Storage_Delete url w = (Inr x, t)"
  with Storage_Delete_spare [OF P] show "files_ok st t" by simp
next
  fix w e t assume P: "spare st url w" and "Storage_Delete url w = (Inl e, t)"
  with Storage_Delete_spare [OF P] show "files_ok st t" by simp
qed

lemma valid_first_or:
  assumes "\<And>w fs. P w \<Longrightarrow> P (w\<lparr>w_faults := fs\<rparr>)"
  shows "valid P (first_or e f) (\<lambda>x w. P w \<and> (\<exists>fs. f (w\<lparr>w_faults := fs\<rparr>) = Some x)) (\<lambda>_. P)"
proof (rule validI)
  fix w x t assume P: "P w" and "first_or e f w = (Inr x, t)"
  from this(2) obtain fs where "t = w\<lparr>w_faults := fs\<rparr>" "f (w\<lparr>w_faults := fs\<rparr>) = Some x" by (rule first_or_Inr)
  then show "P t \<and> (\<exists>fs. f (t\<lparr>w_faults := fs\<rparr>) = Some x)" using assms [OF P] by (auto intro: exI [of _ fs])
next
  fix w e' t assume P: "P w" and "first_or e f w = (Inl e', t)"
  then show "P t"
    unfolding first_or_def using assms
    by (auto elim!: bindE_cases query_Inl query_Inr split: option.splits)
qed

lemma photo_findOwned_files:
  "valid (files_ok st) (photo_findOwned uuid_parse u rawID rawPhotoID)
     (\<lambda>p w. files_ok st w \<and> p \<in> set (w_photos w)) (\<lambda>_. files_ok st)"
proof -
  have "valid (files_ok st) (Photo_FindByID k) (\<lambda>p w. files_ok st w \<and> p \<in> set (w_photos w)) (\<lambda>_. files_ok st)" for k
    unfolding Photo_FindByID_def
    by (rule valid_weaken [OF valid_first_or [where P = "files_ok st"]])
      (auto intro: table_property_faults [OF files_table(1)] dest: find_row_SomeD)
  then show ?thesis
    unfolding photo_findOwned_def
    by (intro valid_lift valid_require valid_bind [where R = "\<lambda>p w. files_ok st w \<and> p \<in> set (w_photos w)"])
      (auto intro!: valid_return)
qed

lemma bphoto_found_files:
  "valid (files_ok st) (BPhoto_FindByID k) (\<lambda>p w. files_ok st w \<and> p \<in> set (w_bphotos w)) (\<lambda>_. files_ok st)"
  unfolding BPhoto_FindByID_def
  by (rule valid_weaken [OF valid_first_or [where P = "files_ok st"]])
    (auto intro: table_property_faults [OF files_table(1)] dest: find_row_SomeD)

lemma keeps_bind:
  assumes "preserves I m" "\<And>x. valid I (f x) (\<lambda>_. I) (\<lambda>_. I)"
  shows "valid I (bindE m f) (\<lambda>_. I) (\<lambda>_. I)"
  using assms unfolding valid_preserves by (rule preserves_bindE)

lemmas file_steps = valid_lift valid_require keeps_bind keeps_files_simps valid_return preserves_pure

lemma photo_upload_files:
  assumes "storage_ok st"
  shows "preserves (files_ok st) (photo_upload st uuid_parse ctx rawID form)"
proof -
  have upload: "preserves (files_ok st) (Photo_Upload st pid ext c)" if "ParseImageUpload form = Inr ext" for pid ext c
    unfolding Photo_Upload_def by (rule upload_files [OF assms ParseImageUpload_ext [OF that] add_photo_files])
  show ?thesis
    unfolding photo_upload_def valid_preserves [symmetric] by (intro file_steps upload)
qed

lemma SetCover_files: "preserves (files_ok st) (SetCover p)"
  unfolding SetCover_def Let_def valid_preserves [symmetric] by (intro file_steps)

lemma findOwned_keeps_files: "preserves (files_ok st) (photo_findOwned uuid_parse u rawID rawPhotoID)"
  unfolding photo_findOwned_def valid_preserves [symmetric] by (intro file_steps)

lemma photo_patch_files: "preserves (files_ok st) (photo_patch uuid_parse ctx rawID rawPhotoID body)"
proof -
  have order: "preserves (files_ok st) (case n of None \<Rightarrow> return_ok p
      | Some n \<Rightarrow> bindE (require (\<not> n < 0) e) (\<lambda>_. bindE (Photo_Update (p\<lparr>ph_SortOrder := n\<rparr>)) (\<lambda>_. return_ok (p\<lparr>ph_SortOrder := n\<rparr>))))"
    for n p e
    unfolding valid_preserves [symmetric] by (cases n) (auto intro!: file_steps)
  have cover: "preserves (files_ok st) (if b then SetCover p else return_ok p)" for b p
    using SetCover_files by (simp add: preserves_def return_ok_def)
  show ?thesis
    unfolding photo_patch_def Let_def valid_preserves [symmetric]
    by (intro valid_lift keeps_bind findOwned_keeps_files cover order valid_return)
qed

lemma photo_delete_files:
  assumes "storage_ok st"
  shows "preserves (files_ok st) (photo_delete uuid_parse ctx rawID rawPhotoID)"
proof -
  have hand_over: "valid (files_ok st) (bindE (FirstExcept pid k) (\<lambda>next.
      case next of None \<Rightarrow> return_ok () | Some n \<Rightarrow> Photo_Update (set_cover True n))) (\<lambda>_. files_ok st) (\<lambda>_. files_ok st)" for pid k
    by (rule keeps_bind) (auto simp: valid_preserves preserves_pure split: option.split)
  have "valid (\<lambda>w. files_ok st w \<and> p \<in> set (w_photos w)) (PhotoManager_Delete p) (\<lambda>_. files_ok st) (\<lambda>_. files_ok st)" for p
    unfolding PhotoManager_Delete_def
    by (intro valid_bind [OF Photo_Delete_files [OF assms]] valid_bind [OF delete_file]) (auto intro: hand_over valid_return)
  then show ?thesis
    unfolding photo_delete_def valid_preserves [symmetric]
    by (intro valid_lift valid_bind [OF photo_findOwned_files])
qed

lemma findOwnedBooking_files: "preserves (files_ok st) (findOwnedBooking uuid_parse u rawID)"
  unfolding findOwnedBooking_def valid_preserves [symmetric] by (intro file_steps)

lemma bphoto_upload_files:
  assumes "storage_ok st"
  shows "preserves (files_ok st) (bphoto_upload st uuid_parse ctx rawID form)"
proof -
  have put: "preserves (files_ok st) (bindE (Storage_Put st (''photo'' @ ext)) (\<lambda>url. cleanup_on_error
      (BPhoto_Create \<lparr>bp_ID = k, bp_QueueID = qid, bp_URL = url, bp_CreatedAt = t\<rparr>) (Storage_Delete url)))"
    if "ParseImageUpload form = Inr ext" for ext k qid t
    by (rule upload_files [OF assms ParseImageUpload_ext [OF that] BPhoto_Create_files]) simp
  have "preserves (files_ok st) (BPhoto_Upload st qid ext)" if "ParseImageUpload form = Inr ext" for qid ext
    unfolding BPhoto_Upload_def valid_preserves [symmetric]
    by (intro keeps_bind [OF keeps_files_simps(10)] valid_require) (simp_all only: valid_preserves put [OF that])
  then have "valid (files_ok st) (bindE (BPhoto_Upload st qid ext) (\<lambda>p. return_ok (bphoto_toResponse p))) (\<lambda>_. files_ok st) (\<lambda>_. files_ok st)"
    if "ParseImageUpload form = Inr ext" for qid ext
    using that by (intro keeps_bind valid_return)
  then show ?thesis
    unfolding bphoto_upload_def valid_preserves [symmetric]
    by (intro valid_lift valid_require keeps_bind [OF findOwnedBooking_files])
qed

lemma bphoto_delete_files:
  assumes "storage_ok st"
  shows "preserves (files_ok st) (bphoto_delete uuid_parse ctx rawID rawPhotoID)"
proof -
  have "valid (\<lambda>w. files_ok st w \<and> p \<in> set (w_bphotos w)) (BPhotoManager_Delete p) (\<lambda>_. files_ok st) (\<lambda>_. files_ok st)" for p
    unfolding BPhotoManager_Delete_def
    by (intro valid_bind [OF BPhoto_Delete_files [OF assms]] valid_bind [OF delete_file] valid_return)
  then show ?thesis
    unfolding bphoto_delete_def valid_preserves [symmetric]
    by (intro valid_lift keeps_bind [OF findOwnedBooking_files] valid_bind [OF bphoto_found_files] valid_require) simp_all
qed

text \<open>
  C21 Every photo has its file. Whatever statement or file operation fails, no photo endpoint, of points
  or of bookings, leaves a row whose file is gone or two rows sharing a file: an upload writes the file
  before the row, a deletion drops the row before the file, and no file name is ever used twice.
\<close>

theorem every_photo_has_its_file:
  assumes "storage_ok st"
  shows "preserves (files_ok st) (photo_upload st uuid_parse ctx rawID form) \<and>
    preserves (files_ok st) (photo_patch uuid_parse ctx rawID rawPhotoID body) \<and>
    preserves (files_ok st) (photo_delete uuid_parse ctx rawID rawPhotoID) \<and>
    preserves (files_ok st) (bphoto_upload st uuid_parse ctx rawID form) \<and>
    preserves (files_ok st) (bphoto_delete uuid_parse ctx rawID rawPhotoID)"
  by (intro conjI photo_upload_files [OF assms] photo_patch_files photo_delete_files [OF assms]
      bphoto_upload_files [OF assms] bphoto_delete_files [OF assms])

text \<open>The first photo of a point, a PNG, on a disk whose file names count in unary.\<close>

definition unary_store :: storage where
  "unary_store = NewLocalDisk (\<lambda>k. replicate (Suc k) CHR ''a'') ''/uploads/''"

definition point_staff :: AuthUser where
  "point_staff = \<lparr>au_id = 3, au_role = ''staff'', au_wp = Some 5\<rparr>"

definition png_form :: upload_form where
  "png_form = Form (Some (Some [137, 80, 78, 71, 13, 10, 26, 10])) ''''"

lemma every_photo_has_its_file_witness:
  "storage_ok unary_store \<and> files_ok unary_store town_world \<and>
   files_ok unary_store (snd (photo_upload unary_store (\<lambda>_. Some 5) (Some point_staff) '''' png_form town_world)) \<and>
   length (w_photos (snd (photo_upload unary_store (\<lambda>_. Some 5) (Some point_staff) '''' png_form town_world))) = 1"
proof -
  have st: "storage_ok unary_store"
  proof -
    have "k = l" if "replicate (Suc k) CHR ''a'' = replicate (Suc l) CHR ''a''" for k l
      using that by (metis length_replicate nat.inject)
    then show ?thesis by (auto simp: storage_ok_def unary_store_def NewLocalDisk_def inj_def)
  qed
  have w: "files_ok unary_store town_world" by (simp add: files_ok_def urls_def town_world_def empty_world_def)
  have one: "length (w_photos (snd (photo_upload unary_store (\<lambda>_. Some 5) (Some point_staff) '''' png_form town_world))) = 1"
    by code_simp
  show ?thesis
    using every_photo_has_its_file [OF st, of "\<lambda>_. Some 5" "Some point_staff" "''''" png_form] st w one
    by (simp add: preserves_def)
qed

section \<open>What the photo endpoints do not keep\<close>

text \<open>
  Moving the cover is two statements outside a transaction: when the second fails, the point is left
  with photos and without a cover, and an invalid sort order is refused after the cover has moved.
\<close>

definition gallery_world :: world where
  "gallery_world = town_world\<lparr>w_photos :=
     [\<lparr>ph_ID = 50, ph_WashingPointID = 5, ph_URL = ''/uploads/a'', ph_IsCover = True, ph_SortOrder = 0, ph_CreatedAt = 0\<rparr>,
      \<lparr>ph_ID = 51, ph_WashingPointID = 5, ph_URL = ''/uploads/b'', ph_IsCover = False, ph_SortOrder = 1, ph_CreatedAt = 1\<rparr>]\<rparr>"

lemma moving_cover_can_lose_it:
  "covers 5 gallery_world \<noteq> []"
  "covers 5 (snd (photo_patch (\<lambda>s. if s = ''p'' then Some 5 else Some 51) (Some point_staff) ''p'' ''q''
     (Inr \<lparr>pu_IsCover = Some True, pu_SortOrder = None\<rparr>) (gallery_world\<lparr>w_faults := [False, False, True]\<rparr>))) = []"
  by code_simp+

lemma refused_order_still_moves_cover:
  "fst (photo_patch (\<lambda>s. if s = ''p'' then Some 5 else Some 51) (Some point_staff) ''p'' ''q''
     (Inr \<lparr>pu_IsCover = Some True, pu_SortOrder = Some (- 1)\<rparr>) gallery_world) = Inl (BadRequest ''invalid_sort_order'')"
  "map ph_ID (covers 5 (snd (photo_patch (\<lambda>s. if s = ''p'' then Some 5 else Some 51) (Some point_staff) ''p'' ''q''
     (Inr \<lparr>pu_IsCover = Some True, pu_SortOrder = Some (- 1)\<rparr>) gallery_world))) = [51]"
  by code_simp+

text \<open>Two first uploads whose statements interleave both become the cover: no index forbids it.\<close>

definition first_photo :: "string \<Rightarrow> Photo db" where
  "first_photo url = Photo_Create (new_photo 5 url True 0)"

lemma two_covers_from_a_race:
  "length (covers 5 (snd (bindE (UnsetCover 5) (\<lambda>_. bindE (UnsetCover 5) (\<lambda>_.
     bindE (first_photo ''/uploads/a'') (\<lambda>_. first_photo ''/uploads/b''))) town_world))) = 2"
  by code_simp

end
