(* ===== verification/Admin.thy ===== *)
theory Admin
  imports Reports Onboarding PhotoProps Services
begin

text \<open>
  \<open>internal/admin/handler.go\<close>: the network-wide list of washing points with owner, services and cover,
  and the figures of the dashboard. Both endpoints only read; their middleware admits administrators.
\<close>

section \<open>The list of points\<close>

record washingPointItem =
  ai_ID :: uuid
  ai_OwnerID :: "uuid option"
  ai_OwnerName :: "string option"
  ai_Name :: string
  ai_Address :: string
  ai_Status :: wp_status
  ai_BoxesCount :: int
  ai_ServicesCount :: nat
  ai_CoverURL :: "string option"
  ai_CreatedAt :: time

definition admin_item ::
  "(uuid \<Rightarrow> string option) \<Rightarrow> (uuid \<Rightarrow> nat) \<Rightarrow> (uuid \<Rightarrow> string option) \<Rightarrow> WashingPoint \<Rightarrow> washingPointItem" where
  "admin_item ownerNames serviceCounts coverURLs wp =
     \<lparr>ai_ID = wp_ID wp, ai_OwnerID = wp_OwnerID wp, ai_OwnerName = Option.bind (wp_OwnerID wp) ownerNames,
      ai_Name = wp_Name wp, ai_Address = wp_Address wp, ai_Status = wp_Status wp,
      ai_BoxesCount = wp_BoxesCount wp, ai_ServicesCount = serviceCounts (wp_ID wp),
      ai_CoverURL = coverURLs (wp_ID wp), ai_CreatedAt = wp_CreatedAt wp\<rparr>"

definition owner_names :: "Owner list \<Rightarrow> uuid \<Rightarrow> string option" where
  "owner_names owners = foldl (\<lambda>m ow. m(ow_ID ow \<mapsto> ow_Name ow)) (\<lambda>_. None) owners"

definition listWashingPoints :: "washingPointItem list db" where
  "listWashingPoints =
     bindE WpRepo_List (\<lambda>points.
     bindE OwnerRepo_List (\<lambda>owners.
     let pointIDs = map wp_ID points
     in bindE (CountActiveByWashingPointIDs pointIDs) (\<lambda>serviceCounts.
        bindE (FindCoverURLsByWashingPointIDs pointIDs) (\<lambda>coverURLs.
        return_ok (map (admin_item (owner_names owners) serviceCounts coverURLs) points)))))"

section \<open>The figures\<close>

record statsResponse =
  st_PointsTotal :: nat
  st_PointsActive :: nat
  st_BookingsToday :: nat
  st_CanceledToday :: nat
  st_AverageUtilization :: rat

definition parseHHMM :: "string \<Rightarrow> int option" where
  "parseHHMM s = (case parse_15_04 s of None \<Rightarrow> None | Some (h, mi) \<Rightarrow> Some (h * 60 + mi))"

text \<open>The box-minutes of one active point; a point whose hours do not parse or run past midnight has none.\<close>

definition add_available :: "WashingPoint \<Rightarrow> rat \<Rightarrow> rat" where
  "add_available wp availableMinutes =
     (case parseHHMM (wp_OpenTime wp) of
        None \<Rightarrow> availableMinutes
      | Some openMin \<Rightarrow>
          (case parseHHMM (wp_CloseTime wp) of
             None \<Rightarrow> availableMinutes
           | Some closeMin \<Rightarrow>
               if closeMin \<le> openMin then availableMinutes
               else fl (availableMinutes + fl (fl (of_int (wp_BoxesCount wp)) * fl (of_int (closeMin - openMin))))))"

fun sum_points :: "WashingPoint list \<Rightarrow> nat \<times> rat \<Rightarrow> nat \<times> rat" where
  "sum_points [] acc = acc"
| "sum_points (wp # points) (active, availableMinutes) =
     (if wp_Status wp \<noteq> WpActive then sum_points points (active, availableMinutes)
      else sum_points points (active + 1, add_available wp availableMinutes))"

definition clip :: "time \<Rightarrow> time \<Rightarrow> Queue \<Rightarrow> time \<times> time" where
  "clip dayStart dayEnd q =
     (if q_ScheduledStartAt q < dayStart then dayStart else q_ScheduledStartAt q,
      if q_ScheduledEndAt q > dayEnd then dayEnd else q_ScheduledEndAt q)"

fun sum_bookings :: "time \<Rightarrow> time \<Rightarrow> Queue list \<Rightarrow> nat \<times> nat \<times> rat \<Rightarrow> nat \<times> nat \<times> rat" where
  "sum_bookings dayStart dayEnd [] acc = acc"
| "sum_bookings dayStart dayEnd (q # qs) (today, canceled, bookedMinutes) =
     (if q_Status q = StatusCanceled \<or> q_Status q = StatusNoShow
      then sum_bookings dayStart dayEnd qs (today, canceled + 1, bookedMinutes)
      else if q_IsOverflow q then sum_bookings dayStart dayEnd qs (today + 1, canceled, bookedMinutes)
      else let (start, stop) = clip dayStart dayEnd q
           in sum_bookings dayStart dayEnd qs
                (today + 1, canceled,
                 if stop > start then fl (bookedMinutes + Minutes (stop - start)) else bookedMinutes))"

definition stats_response :: "time \<Rightarrow> WashingPoint list \<Rightarrow> Queue list \<Rightarrow> statsResponse" where
  "stats_response now points bookings =
     (let (dayStart, dayEnd) = DayBounds now;
          (active, availableMinutes) = sum_points points (0, 0);
          (today, canceled, bookedMinutes) = sum_bookings dayStart dayEnd bookings (0, 0, 0)
      in \<lparr>st_PointsTotal = length points, st_PointsActive = active, st_BookingsToday = today,
          st_CanceledToday = canceled,
          st_AverageUtilization = (if availableMinutes > 0 then fl (bookedMinutes / availableMinutes) else 0)\<rparr>)"

definition stats :: "statsResponse db" where
  "stats =
     bindE WpRepo_List (\<lambda>points.
     bindE time_Now (\<lambda>now.
     let (dayStart, dayEnd) = DayBounds now
     in bindE (FindScheduledInRangeNetworkWide dayStart dayEnd) (\<lambda>bookings.
        return_ok (stats_response now points bookings))))"

section \<open>What the list holds\<close>

lemma upd_fold:
  "foldl (\<lambda>m r. m(key r \<mapsto> val r)) m0 rows k =
     (case rev (filter (\<lambda>r. key r = k) rows) of [] \<Rightarrow> m0 k | r # _ \<Rightarrow> Some (val r))"
  by (induction rows rule: rev_induct) (auto split: list.splits)

lemma owner_names_find:
  assumes "distinct (map ow_ID owners)"
  shows "owner_names owners k = map_option ow_Name (find_row ow_ID k owners)"
proof (cases "find_row ow_ID k owners")
  case None
  then have "filter (\<lambda>ow. ow_ID ow = k) owners = []" by (auto simp: find_row_None filter_empty_conv)
  then show ?thesis by (simp add: owner_names_def upd_fold None)
next
  case (Some ow)
  then have ow: "ow \<in> set owners" "ow_ID ow = k" using find_row_SomeD by fast+
  have "x = ow" if "x \<in> set owners" "ow_ID x = k" for x
    using assms ow that by (metis distinct_map inj_onD)
  then have eq: "set (filter (\<lambda>x. ow_ID x = k) owners) = {ow}" unfolding set_filter using ow by blast
  define L where "L = rev (filter (\<lambda>x. ow_ID x = k) owners)"
  have L: "set L = {ow}" using eq by (simp only: L_def set_rev)
  then obtain y ys where y: "L = y # ys" by (cases L) auto
  with L have "y = ow" by auto
  then show ?thesis using y by (simp add: Some owner_names_def upd_fold L_def [symmetric])
qed

lemma find_row_same_rows:
  assumes "set xs = set ys" "distinct (map key xs)"
  shows "find_row key k xs = find_row key k ys"
proof (cases "find_row key k xs")
  case None
  then show ?thesis using assms(1) by (metis find_row_None)
next
  case (Some x)
  then have x: "x \<in> set ys" "key x = k" using find_row_SomeD assms(1) by fast+
  then obtain y where y: "find_row key k ys = Some y" by (metis find_row_None image_eqI not_Some_eq)
  then have "y \<in> set xs" "key y = k" using find_row_SomeD assms(1) by fast+
  then have "y = x" using assms x by (auto simp: distinct_map inj_on_def)
  then show ?thesis using Some y by simp
qed

lemma sort_key_distinct: "distinct (map key (sort_key f xs)) = distinct (map key xs)"
  by (metis mset_eq_imp_distinct_iff mset_map mset_sort)

definition cover_url :: "uuid \<Rightarrow> world \<Rightarrow> string option" where
  "cover_url pid w = (case covers pid w of [] \<Rightarrow> None | p # _ \<Rightarrow> Some (ph_URL p))"

lemma cover_urls_eq:
  assumes "photos_ok w" "pid \<in> set pids"
  shows "cover_urls pids w pid = cover_url pid w"
proof -
  have "filter (\<lambda>p. ph_WashingPointID p = pid) (filter (\<lambda>p. ph_WashingPointID p \<in> set pids \<and> ph_IsCover p) (w_photos w)) =
      covers pid w"
    using assms(2) by (auto simp: covers_def flagged_def intro!: filter_cong)
  moreover have "rev (covers pid w) = covers pid w"
    using photos_ok_covers [OF assms(1), of pid] by (cases "covers pid w") auto
  ultimately show ?thesis by (simp add: cover_urls_def upd_fold cover_url_def)
qed

text \<open>
  The network-wide list shows every point once, in the order of the names, each with its owner's
  name, the number of its active services and the URL of its one cover photo.
\<close>

theorem admin_list_exact:
  assumes "w_faults w = []" "photos_ok w" "distinct (map ow_ID (w_owners w))"
  shows "listWashingPoints w =
    (Inr (map (\<lambda>wp. \<lparr>ai_ID = wp_ID wp, ai_OwnerID = wp_OwnerID wp,
        ai_OwnerName = Option.bind (wp_OwnerID wp) (\<lambda>k. map_option ow_Name (find_row ow_ID k (w_owners w))),
        ai_Name = wp_Name wp, ai_Address = wp_Address wp, ai_Status = wp_Status wp, ai_BoxesCount = wp_BoxesCount wp,
        ai_ServicesCount = length (filter (\<lambda>s. sv_WashingPointID s = wp_ID wp \<and> sv_IsActive s) (w_services w)),
        ai_CoverURL = cover_url (wp_ID wp) w, ai_CreatedAt = wp_CreatedAt wp\<rparr>)
      (sort_key wp_Name (w_points w))), w)"
proof -
  let ?ids = "map wp_ID (sort_key wp_Name (w_points w))"
  have nil: "sort_key wp_Name (w_points w) = [] \<longleftrightarrow> w_points w = []" by (metis length_0_conv length_sort)
  have counts: "CountActiveByWashingPointIDs ?ids w = (Inr (\<lambda>pid. if pid \<in> set ?ids
      then length (filter (\<lambda>s. sv_WashingPointID s = pid \<and> sv_IsActive s) (w_services w)) else 0), w)"
    by (auto simp: CountActiveByWashingPointIDs_def assms(1) fun_eq_iff nil intro!: arg_cong [of _ _ length] filter_cong)
  have urls: "FindCoverURLsByWashingPointIDs ?ids w = (Inr (cover_urls ?ids w), w)"
    by (auto simp: FindCoverURLsByWashingPointIDs_def assms(1) cover_urls_def nil)
  have owners: "owner_names (sort_key ow_Name (w_owners w)) = (\<lambda>k. map_option ow_Name (find_row ow_ID k (w_owners w)))"
    using assms(3) find_row_same_rows [of "sort_key ow_Name (w_owners w)" "w_owners w" ow_ID]
    by (simp add: fun_eq_iff owner_names_find sort_key_distinct)
  have item: "admin_item (owner_names (sort_key ow_Name (w_owners w)))
      (\<lambda>pid. if pid \<in> set ?ids then length (filter (\<lambda>s. sv_WashingPointID s = pid \<and> sv_IsActive s) (w_services w)) else 0)
      (cover_urls ?ids w) wp =
     \<lparr>ai_ID = wp_ID wp, ai_OwnerID = wp_OwnerID wp,
        ai_OwnerName = Option.bind (wp_OwnerID wp) (\<lambda>k. map_option ow_Name (find_row ow_ID k (w_owners w))),
        ai_Name = wp_Name wp, ai_Address = wp_Address wp, ai_Status = wp_Status wp, ai_BoxesCount = wp_BoxesCount wp,
        ai_ServicesCount = length (filter (\<lambda>s. sv_WashingPointID s = wp_ID wp \<and> sv_IsActive s) (w_services w)),
        ai_CoverURL = cover_url (wp_ID wp) w, ai_CreatedAt = wp_CreatedAt wp\<rparr>" if "wp \<in> set (w_points w)" for wp
    using that cover_urls_eq [OF assms(2), of "wp_ID wp" ?ids] by (simp add: admin_item_def owners)
  have "listWashingPoints w = (Inr (map (admin_item (owner_names (sort_key ow_Name (w_owners w)))
      (\<lambda>pid. if pid \<in> set ?ids then length (filter (\<lambda>s. sv_WashingPointID s = pid \<and> sv_IsActive s) (w_services w)) else 0)
      (cover_urls ?ids w)) (sort_key wp_Name (w_points w))), w)"
    unfolding listWashingPoints_def WpRepo_List_def OwnerRepo_List_def
    by (simp only: bindE_no_fault(1) [OF assms(1)] Let_def 
        bindE_Inr [where m = "CountActiveByWashingPointIDs ?ids", OF counts]
        bindE_Inr [where m = "FindCoverURLsByWashingPointIDs ?ids", OF urls] return_ok_def)
  then show ?thesis using item by simp
qed

text \<open>The town's point with an owner and a cover photo.\<close>

definition admin_world :: world where
  "admin_world = town_world\<lparr>w_next := 200,
     w_points := map (\<lambda>wp. wp\<lparr>wp_OwnerID := Some 60\<rparr>) (w_points town_world),
     w_owners := [\<lparr>ow_ID = 60, ow_Name = ''Firuz'', ow_ContactName = None, ow_ContactPhone = None,
       ow_ContactEmail = None, ow_CreatedAt = 0\<rparr>],
     w_photos := [\<lparr>ph_ID = 50, ph_WashingPointID = 5, ph_URL = ''/uploads/a'', ph_IsCover = True,
       ph_SortOrder = 0, ph_CreatedAt = 0\<rparr>]\<rparr>"

lemma admin_list_exact_witness:
  "fst (listWashingPoints admin_world) =
    Inr [\<lparr>ai_ID = 5, ai_OwnerID = Some 60, ai_OwnerName = Some ''Firuz'', ai_Name = ''A'', ai_Address = ''B'',
      ai_Status = WpActive, ai_BoxesCount = 2, ai_ServicesCount = 1, ai_CoverURL = Some ''/uploads/a'', ai_CreatedAt = 0\<rparr>]"
proof -
  have "photos_ok admin_world"
    by (auto simp: photos_ok_def admin_world_def town_world_def empty_world_def at_most_one_flag_def flagged_def)
  then show ?thesis
    by (subst admin_list_exact) (simp_all add: admin_world_def town_world_def empty_world_def cover_url_def covers_def)
qed

section \<open>What the figures count\<close>

definition overlaps_today :: "time \<Rightarrow> Queue \<Rightarrow> bool" where
  "overlaps_today now q \<longleftrightarrow>
     local_day now * Day < q_ScheduledEndAt q + BusinessLocation \<and>
     q_ScheduledStartAt q + BusinessLocation < (local_day now + 1) * Day"

definition did_not_happen :: "Queue \<Rightarrow> bool" where
  "did_not_happen q \<longleftrightarrow> q_Status q = StatusCanceled \<or> q_Status q = StatusNoShow"

lemma sum_points_counts:
  "fst (sum_points points acc) = fst acc + length (filter (\<lambda>wp. wp_Status wp = WpActive) points)"
  by (induction points acc rule: sum_points.induct) auto

lemma sum_points_nonneg: "0 \<le> snd acc \<Longrightarrow> (\<forall>wp \<in> set points. 0 \<le> wp_BoxesCount wp) \<Longrightarrow> 0 \<le> snd (sum_points points acc)"
  by (induction points acc rule: sum_points.induct) (auto simp: add_available_def split: option.split)

lemma sum_bookings_counts:
  "fst (sum_bookings s e qs acc) = fst acc + length (filter (\<lambda>q. \<not> did_not_happen q) qs) \<and>
   fst (snd (sum_bookings s e qs acc)) = fst (snd acc) + length (filter did_not_happen qs)"
  by (induction s e qs acc rule: sum_bookings.induct) (auto simp: did_not_happen_def Let_def split: prod.split)

lemma Minutes_nonneg: "0 \<le> d \<Longrightarrow> 0 \<le> Minutes d"
  by (simp add: Minutes_def in_units_def duration_defs pos_imp_zdiv_nonneg_iff)

lemma sum_bookings_nonneg: "0 \<le> snd (snd acc) \<Longrightarrow> 0 \<le> snd (snd (sum_bookings s e qs acc))"
  by (induction s e qs acc rule: sum_bookings.induct) (auto simp: Let_def Minutes_nonneg split: prod.split)

text \<open>
  The dashboard counts what it names: all points, the active ones, and of the bookings that overlap the
  business day of the moment those that took or will take place and those that were called off.
\<close>

theorem dashboard_counts:
  assumes "stats w = (Inr r, w')"
  shows "st_PointsTotal r = length (w_points w) \<and>
    st_PointsActive r = length (filter (\<lambda>wp. wp_Status wp = WpActive) (w_points w)) \<and>
    st_BookingsToday r = length (filter (\<lambda>q. overlaps_today (w_now w) q \<and> \<not> did_not_happen q) (w_queue w)) \<and>
    st_CanceledToday r = length (filter (\<lambda>q. overlaps_today (w_now w) q \<and> did_not_happen q) (w_queue w)) \<and>
    0 \<le> st_AverageUtilization r \<and> same_tables w w'"
proof -
  let ?now = "w_now w" and ?points = "sort_key wp_Name (w_points w)"
  obtain s e where day: "DayBounds ?now = (s, e)" by force
  then have se: "s = local_day ?now * Day - BusinessLocation" "e = (local_day ?now + 1) * Day - BusinessLocation"
    by (simp_all add: DayBounds_eq)
  obtain ps u where q: "query (\<lambda>w. sort_key wp_Name (w_points w)) w = (Inr ps, u)"
    and rest: "bindE time_Now (\<lambda>now. let (dayStart, dayEnd) = DayBounds now
      in bindE (FindScheduledInRangeNetworkWide dayStart dayEnd) (\<lambda>bookings.
        return_ok (stats_response now ps bookings))) u = (Inr r, w')"
    using assms unfolding stats_def WpRepo_List_def by (rule bindE_InrE) blast
  obtain fs where u: "u = w\<lparr>w_faults := fs\<rparr>" using query_eq(2) [OF q] by auto
  have ps: "ps = ?points" using query_eq(1) [OF q] by simp
  have "bindE (FindScheduledInRangeNetworkWide s e) (\<lambda>bookings. return_ok (stats_response ?now ps bookings)) u = (Inr r, w')"
    using rest day by (simp add: time_Now_def bindE_def u cong: sum.case_cong)
  then obtain qs where f: "FindScheduledInRangeNetworkWide s e u = (Inr qs, w')" and r: "r = stats_response ?now ps qs"
    by (auto elim!: bindE_InrE)
  obtain g where qs: "qs = map (\<lambda>q. q\<lparr>q_Items := g (q_ID q)\<rparr>)
      (sort_key q_ScheduledStartAt (filter (\<lambda>q. q_ScheduledStartAt q < e \<and> q_ScheduledEndAt q > s) (w_queue u)))"
    and same: "same_tables u w'"
    using f unfolding FindScheduledInRangeNetworkWide_def by (rule find_rows_Inr)
  have cnt: "length (filter P qs) = length (filter (\<lambda>q. overlaps_today ?now q \<and> P q) (w_queue w))"
    if P: "\<And>q its. P (q\<lparr>q_Items := its\<rparr>) = P q" for P
  proof -
    have "length (filter P qs) = length (filter P (filter (\<lambda>q. q_ScheduledStartAt q < e \<and> q_ScheduledEndAt q > s) (w_queue w)))"
      by (simp add: qs filter_map comp_def P u filter_sort)
    also have "filter P (filter (\<lambda>q. q_ScheduledStartAt q < e \<and> q_ScheduledEndAt q > s) (w_queue w)) =
        filter (\<lambda>q. overlaps_today ?now q \<and> P q) (w_queue w)"
      by (auto simp: overlaps_today_def se intro!: filter_cong)
    finally show ?thesis .
  qed
  have active: "length (filter (\<lambda>wp. wp_Status wp = WpActive) ?points) = length (filter (\<lambda>wp. wp_Status wp = WpActive) (w_points w))"
    by (simp add: filter_sort)
  have "same_tables w w'" using same_tables_trans [OF _ same, of w] u by simp
  moreover have "0 \<le> st_AverageUtilization r"
    using sum_bookings_nonneg [of "(0, 0, 0)" s e qs]
    by (auto simp: r stats_response_def day split: prod.split)
  ultimately show ?thesis
    using sum_bookings_counts [of s e qs "(0, 0, 0)"] sum_points_counts [of ps "(0, 0)"] active
      cnt [of "\<lambda>q. \<not> did_not_happen q"] cnt [of did_not_happen]
    by (auto simp: r stats_response_def day ps did_not_happen_def split: prod.splits)
qed

lemma dashboard_counts_witness:
  "\<exists>r w'. stats admin_world = (Inr r, w') \<and> st_PointsTotal r = 1 \<and> st_PointsActive r = 1 \<and> st_BookingsToday r = 0"
proof -
  have "w_faults admin_world = []" by (simp add: admin_world_def town_world_def empty_world_def)
  then have "is_ok (fst (stats admin_world))"
    by (simp add: stats_def WpRepo_List_def bindE_def time_Now_def FindScheduledInRangeNetworkWide_def find_rows_def
        attachItems_def itemsFor_def split: prod.split)
  then obtain r w' where run: "stats admin_world = (Inr r, w')" by (rule is_ok_fstE)
  have "length (w_points admin_world) = 1" "w_queue admin_world = []"
    "filter (\<lambda>wp. wp_Status wp = WpActive) (w_points admin_world) = w_points admin_world"
    by (simp_all add: admin_world_def town_world_def empty_world_def)
  then show ?thesis using dashboard_counts [OF run] run by auto
qed

text \<open>
  The utilization is not a share: the minutes of every point's bookings are divided by the minutes of
  the active points in their nominal hours, so a paused point's bookings can take it beyond one.
\<close>

definition busy_paused :: "Queue list" where
  "busy_paused = map (\<lambda>n. \<lparr>q_ID = n, q_Status = StatusReady, q_UserID = 7, q_CarID = None, q_ServiceID = 1,
     q_PriceOptionID = 2, q_WashingPointID = 6, q_BoxNumber = int n, q_IsOverflow = False, q_ScheduledStartAt = 0,
     q_ScheduledEndAt = 15 * Hour, q_Notes = None, q_Source = SourceApp, q_CanceledAt = None, q_PausedAt = None,
     q_CreatedAt = 0, q_Items = []\<rparr>) [1, 2, 3]"

lemma utilization_above_one:
  "st_AverageUtilization (stats_response 0 (w_points town_world @ map (\<lambda>wp. wp\<lparr>wp_ID := 6, wp_Status := WpPaused\<rparr>)
     (w_points town_world)) busy_paused) \<ge> 2"
proof -
  have fl_num: "fl (numeral n) = numeral n" if "(numeral n :: int) \<le> 2 ^ 53" for n
    using fl_int [of "numeral n"] that by simp
  have minutes: "Minutes (15 * Hour) = 900"
    by (simp add: Minutes_def in_units_def duration_defs fl_num)
  have hours: "parseHHMM ''09:00'' = Some 540" "parseHHMM ''20:00'' = Some 1200" by code_simp+
  have day: "DayBounds 0 = (- (5 * Hour), 19 * Hour)" by (simp add: DayBounds_eq local_day_def BusinessLocation_def duration_defs)
  have points: "sum_points (w_points town_world @ map (\<lambda>wp. wp\<lparr>wp_ID := 6, wp_Status := WpPaused\<rparr>) (w_points town_world)) (0, 0) =
      (1, 1320)"
    by (simp add: town_world_def empty_world_def add_available_def hours fl_num)
  have bookings: "sum_bookings (- (5 * Hour)) (19 * Hour) busy_paused (0, 0, 0) = (3, 0, 2700)"
    using minutes by (simp add: busy_paused_def clip_def fl_num) (simp add: duration_defs)
  have "of_int 2 \<le> fl (2700 / 1320)" by (rule fl_between(1)) simp_all
  then show ?thesis by (simp add: stats_response_def day points bookings)
qed

end
