(* ===== verification/Streams.thy ===== *)
theory Streams
  imports Board
begin

text \<open>
  \<open>internal/platform/eventbus\<close> and the two event streams of \<open>internal/queue/handler.go\<close>: the bus with
  its one-place channels, the handlers as functions of what their \<open>select\<close> receives, and the step
  relation of a stream, the changes of its point and the other users of the bus.
\<close>

section \<open>The bus\<close>

text \<open>A channel of capacity one is full or empty; \<open>make\<close> returns a channel that is not in use.\<close>

type_synonym chan = nat

record bus =
  bus_subs :: "uuid \<Rightarrow> chan set option"
  bus_full :: "chan \<Rightarrow> bool"
  bus_next :: chan

definition Bus_New :: bus where
  "Bus_New = \<lparr>bus_subs = (\<lambda>_. None), bus_full = (\<lambda>_. False), bus_next = 0\<rparr>"

definition listeners :: "bus \<Rightarrow> uuid \<Rightarrow> chan set" where
  "listeners b pid = (case bus_subs b pid of None \<Rightarrow> {} | Some cs \<Rightarrow> cs)"

definition Bus_Publish :: "uuid \<Rightarrow> bus \<Rightarrow> bus" where
  "Bus_Publish pid b = b\<lparr>bus_full := (\<lambda>c. c \<in> listeners b pid \<or> bus_full b c)\<rparr>"

definition Bus_Subscribe :: "uuid \<Rightarrow> bus \<Rightarrow> chan \<times> bus" where
  "Bus_Subscribe pid b =
     (let c = bus_next b
      in (c, \<lparr>bus_subs = (bus_subs b)(pid \<mapsto> insert c (listeners b pid)), bus_full = (bus_full b)(c := False),
              bus_next = c + 1\<rparr>))"

definition Bus_Unsubscribe :: "uuid \<Rightarrow> chan \<Rightarrow> bus \<Rightarrow> bus" where
  "Bus_Unsubscribe pid c b =
     (let cs = listeners b pid - {c}
      in b\<lparr>bus_subs := (bus_subs b)(pid := if cs = {} then None else Some cs)\<rparr>)"

definition Bus_Receive :: "chan \<Rightarrow> bus \<Rightarrow> bus option" where
  "Bus_Receive c b = (if bus_full b c then Some (b\<lparr>bus_full := (bus_full b)(c := False)\<rparr>) else None)"

definition bus_ok :: "bus \<Rightarrow> bool" where
  "bus_ok b \<longleftrightarrow> (\<forall>pid. bus_subs b pid \<noteq> Some {}) \<and> (\<forall>pid. \<forall>c \<in> listeners b pid. c < bus_next b)"

lemma listeners_simps [simp]:
  "listeners (Bus_Publish pid b) = listeners b"
  "listeners (snd (Bus_Subscribe pid b)) pid' = (if pid' = pid then insert (bus_next b) (listeners b pid) else listeners b pid')"
  "listeners (Bus_Unsubscribe pid c b) pid' = (if pid' = pid then listeners b pid - {c} else listeners b pid')"
  by (auto simp: Bus_Publish_def Bus_Subscribe_def Bus_Unsubscribe_def listeners_def Let_def fun_eq_iff)

lemma Bus_Subscribe_fst [simp]: "fst (Bus_Subscribe pid b) = bus_next b"
  by (simp add: Bus_Subscribe_def Let_def)

lemma bus_full_simps [simp]:
  "bus_full (Bus_Publish pid b) c = (c \<in> listeners b pid \<or> bus_full b c)"
  "bus_full (snd (Bus_Subscribe pid b)) c = (c \<noteq> bus_next b \<and> bus_full b c)"
  "bus_full (Bus_Unsubscribe pid c' b) c = bus_full b c"
  by (auto simp: Bus_Publish_def Bus_Subscribe_def Bus_Unsubscribe_def Let_def)

lemma bus_next_simps [simp]:
  "bus_next (Bus_Publish pid b) = bus_next b" "bus_next (snd (Bus_Subscribe pid b)) = Suc (bus_next b)"
  "bus_next (Bus_Unsubscribe pid c b) = bus_next b"
  by (simp_all add: Bus_Publish_def Bus_Subscribe_def Bus_Unsubscribe_def Let_def)

lemma Bus_ReceiveE:
  assumes "Bus_Receive c b = Some b'"
  obtains "bus_full b c" "b' = b\<lparr>bus_full := (bus_full b)(c := False)\<rparr>"
  using assms by (auto simp: Bus_Receive_def split: if_splits)

lemma listeners_full [simp]: "listeners (b\<lparr>bus_full := f\<rparr>) = listeners b"
  by (simp add: listeners_def fun_eq_iff)

lemma bus_subs_nonempty:
  assumes "\<forall>pid. bus_subs b pid \<noteq> Some {}"
  shows "\<forall>p. bus_subs (Bus_Publish pid b) p \<noteq> Some {}" "\<forall>p. bus_subs (snd (Bus_Subscribe pid b)) p \<noteq> Some {}"
    "\<forall>p. bus_subs (Bus_Unsubscribe pid c b) p \<noteq> Some {}"
  using assms by (auto simp: Bus_Publish_def Bus_Subscribe_def Bus_Unsubscribe_def Let_def)

lemma bus_ops_ok:
  assumes "bus_ok b"
  shows "bus_ok (Bus_Publish pid b)" "bus_ok (snd (Bus_Subscribe pid b))" "bus_ok (Bus_Unsubscribe pid c b)"
    and "Bus_Receive c b = Some b' \<Longrightarrow> bus_ok b'"
  using assms bus_subs_nonempty [of b] by (auto simp: bus_ok_def less_SucI elim!: Bus_ReceiveE)

lemma listener_old: "bus_ok b \<Longrightarrow> c \<in> listeners b pid \<Longrightarrow> c < bus_next b"
  by (auto simp: bus_ok_def)

text \<open>An unsubscribed channel leaves nothing behind in the map.\<close>

lemma subscribe_unsubscribe:
  assumes "bus_ok b"
  shows "bus_subs (Bus_Unsubscribe pid (fst (Bus_Subscribe pid b)) (snd (Bus_Subscribe pid b))) = bus_subs b"
proof -
  have "bus_next b \<notin> listeners b pid" using listener_old [OF assms] by blast
  moreover have "listeners b pid = {} \<longleftrightarrow> bus_subs b pid = None"
    using assms by (cases "bus_subs b pid") (auto simp: bus_ok_def listeners_def)
  ultimately show ?thesis
    by (auto simp: Bus_Unsubscribe_def Bus_Subscribe_def Let_def listeners_def fun_eq_iff split: option.splits)
qed

section \<open>The handlers\<close>

text \<open>
  What \<open>select\<close> receives, in order: the client leaves, the heartbeat ticks, or a wake-up, whose snapshot
  reads the given world; the flag says whether the write to the client succeeds.
\<close>

datatype selected = Leaves | Heartbeat bool | Changed world bool

datatype 'a frame = Ping | Data 'a

definition board_snapshot :: "uuid \<Rightarrow> world \<Rightarrow> boardResponse option" where
  "board_snapshot pid w = (case fst (buildBoardResponse pid w) of Inl _ \<Rightarrow> None | Inr resp \<Rightarrow> Some resp)"

fun board_loop :: "uuid \<Rightarrow> selected list \<Rightarrow> boardResponse frame list" where
  "board_loop pid [] = []"
| "board_loop pid (Leaves # es) = []"
| "board_loop pid (Heartbeat ok # es) = (if ok then Ping # board_loop pid es else [])"
| "board_loop pid (Changed w ok # es) =
     (case board_snapshot pid w of
        None \<Rightarrow> []
      | Some resp \<Rightarrow> if ok then Data resp # board_loop pid es else [])"

definition boardEvents ::
  "(string \<Rightarrow> uuid option) \<Rightarrow> AuthUser option \<Rightarrow> string \<Rightarrow> bool \<Rightarrow> bool \<Rightarrow> selected list \<Rightarrow> boardResponse frame list db" where
  "boardEvents uuid_parse ctx rawID flusher ok es =
     bindE (ownWashingPointID uuid_parse ctx rawID) (\<lambda>pid.
     bindE (require flusher Internal) (\<lambda>_.
     reads (\<lambda>w. board_loop pid (Changed w ok # es))))"

definition stream_ends :: "Status \<Rightarrow> bool" where
  "stream_ends s \<longleftrightarrow> s = StatusReady \<or> s = StatusCanceled"

text \<open>One snapshot of the booking: the frame, if it was written, and whether the stream ends.\<close>

definition booking_snapshot :: "Queue \<Rightarrow> bool \<Rightarrow> world \<Rightarrow> bookingResponse frame list \<times> bool" where
  "booking_snapshot q ok w =
     (case fst (withPosition q w) of
        Inl _ \<Rightarrow> ([], True)
      | Inr resp \<Rightarrow> if ok then ([Data resp], stream_ends (q_Status q)) else ([], True))"

fun booking_loop :: "uuid \<Rightarrow> selected list \<Rightarrow> bookingResponse frame list" where
  "booking_loop qid [] = []"
| "booking_loop qid (Leaves # es) = []"
| "booking_loop qid (Heartbeat ok # es) = (if ok then Ping # booking_loop qid es else [])"
| "booking_loop qid (Changed w ok # es) =
     (case QueueRepo_FindByID qid w of
        (Inl _, _) \<Rightarrow> []
      | (Inr fresh, w1) \<Rightarrow>
          (case booking_snapshot fresh ok w1 of (frames, stop) \<Rightarrow> frames @ (if stop then [] else booking_loop qid es)))"

definition queue_events ::
  "(string \<Rightarrow> uuid option) \<Rightarrow> AuthUser option \<Rightarrow> string \<Rightarrow> bool \<Rightarrow> bool \<Rightarrow> selected list \<Rightarrow> bookingResponse frame list db" where
  "queue_events uuid_parse ctx rawID flusher ok es =
     bindE (lift_result (AuthUserFrom ctx)) (\<lambda>authUser.
     bindE (lift_result (ParseUUIDParam uuid_parse rawID)) (\<lambda>qid.
     guarded (QueueRepo_FindByID qid) (\<lambda>q. q_UserID q = au_id authUser) (NotFound ''queue_not_found'') (\<lambda>q.
     bindE (require flusher Internal) (\<lambda>_.
     reads (\<lambda>w. case booking_snapshot q ok w of (frames, stop) \<Rightarrow> frames @ (if stop then [] else booking_loop qid es))))))"

text \<open>
  C24 A booking stream never shows anything the caller could not have fetched: every data frame is the
  answer of the get endpoint at the moment of the opening or of a wake-up, as long as bookings do not
  change their owner.
\<close>

theorem stream_shows_gets:
  assumes "queue_events uuid_parse (Some u) rawID flusher ok es w = (Inr frames, w')" "Data resp \<in> set frames"
    and "\<And>v ok' qid q v1. Changed v ok' \<in> set es \<Longrightarrow> QueueRepo_FindByID qid v = (Inr q, v1) \<Longrightarrow> uuid_parse rawID = Some qid \<Longrightarrow>
      q_UserID q = au_id u"
  shows "\<exists>v. (v = w \<or> (\<exists>ok'. Changed v ok' \<in> set es)) \<and> fst (queue_get uuid_parse (Some u) rawID v) = Inr resp"
proof -
  obtain qid where qid: "uuid_parse rawID = Some qid"
    using assms(1) by (auto simp: queue_events_def bindE_def AuthUserFrom_def ParseUUIDParam_def split: option.splits)
  have get: "queue_get uuid_parse (Some u) rawID v = guarded (QueueRepo_FindByID qid) (sees_booking u) (NotFound ''queue_not_found'') withPosition v" for v
    by (simp add: queue_get_def bindE_def AuthUserFrom_def ParseUUIDParam_def qid)
  have shown: "fst (queue_get uuid_parse (Some u) rawID v) = Inr resp"
    if "QueueRepo_FindByID qid v = (Inr q, v1)" "q_UserID q = au_id u" "Data resp \<in> set (fst (booking_snapshot q k v1))" for v q v1 k
  proof -
    have "fst (withPosition q v1) = Inr resp" using that(3) by (auto simp: booking_snapshot_def split: sum.splits if_splits)
    then show ?thesis using that(1,2) by (simp add: get guarded_def bindE_def sees_booking_def)
  qed
  have loop: "\<exists>v. (\<exists>ok'. Changed v ok' \<in> set es') \<and> fst (queue_get uuid_parse (Some u) rawID v) = Inr resp"
    if "Data resp \<in> set (booking_loop qid es')" "set es' \<subseteq> set es" for es'
    using that
  proof (induction es')
    case (Cons e es')
    show ?case
    proof (cases e)
      case (Changed v k)
      obtain r v1 where r: "QueueRepo_FindByID qid v = (r, v1)" by force
      with Cons.prems(1) Changed obtain q where "r = Inr q" by (cases r) auto
      with r have q: "QueueRepo_FindByID qid v = (Inr q, v1)" by simp
      have "q_UserID q = au_id u" using assms(3) [of v k qid q v1] Cons.prems(2) Changed q qid by auto
      obtain fs stop where snap: "booking_snapshot q k v1 = (fs, stop)" by force
      from Cons.prems(1) consider "Data resp \<in> set fs" | "Data resp \<in> set (booking_loop qid es')"
        by (auto simp: Changed q snap split: if_splits)
      then show ?thesis
      proof cases
        case 1
        have "fst (queue_get uuid_parse (Some u) rawID v) = Inr resp"
          by (rule shown [OF q, where k = k]) (use 1 snap \<open>q_UserID q = au_id u\<close> in simp_all)
        then show ?thesis using Changed by (metis list.set_intros(1))
      next
        case 2
        then show ?thesis using Cons.IH Cons.prems(2) by (metis list.set_intros(2) subset_trans set_subset_Cons)
      qed
    qed (use Cons in \<open>auto split: if_splits\<close>)
  qed simp
  have run: "guarded (QueueRepo_FindByID qid) (\<lambda>q. q_UserID q = au_id u) (NotFound ''queue_not_found'') (\<lambda>q.
     bindE (require flusher Internal) (\<lambda>_.
     reads (\<lambda>w. case booking_snapshot q ok w of (frames, stop) \<Rightarrow> frames @ (if stop then [] else booking_loop qid es)))) w = (Inr frames, w')"
    using assms(1) by (simp add: queue_events_def bindE_def AuthUserFrom_def ParseUUIDParam_def qid)
  then obtain q w1 where q: "QueueRepo_FindByID qid w = (Inr q, w1)" "q_UserID q = au_id u"
    and frames: "(case booking_snapshot q ok w1 of (frames, stop) \<Rightarrow> frames @ (if stop then [] else booking_loop qid es)) = frames"
    unfolding guarded_def by (auto simp: bindE_def split: prod.splits sum.splits if_splits)
  show ?thesis
  proof (cases "Data resp \<in> set (fst (booking_snapshot q ok w1))")
    case True
    then show ?thesis using shown [OF q] by blast
  next
    case False
    then have "Data resp \<in> set (booking_loop qid es)"
      using assms(2) frames by (auto split: prod.splits if_splits)
    then show ?thesis using loop [of es] by blast
  qed
qed

text \<open>A booking that is being washed when the stream opens and ready at the first wake-up.\<close>

definition washing_booking :: Queue where
  "washing_booking = \<lparr>q_ID = 30, q_Status = StatusWashing, q_UserID = 7, q_CarID = Some 8, q_ServiceID = 1,
     q_PriceOptionID = 2, q_WashingPointID = 5, q_BoxNumber = 1, q_IsOverflow = False, q_ScheduledStartAt = 5 * Hour,
     q_ScheduledEndAt = 6 * Hour, q_Notes = None, q_Source = SourceApp, q_CanceledAt = None, q_PausedAt = None,
     q_CreatedAt = 0, q_Items = []\<rparr>"

definition washing_world :: world where
  "washing_world = town_world\<lparr>w_queue := [washing_booking]\<rparr>"

definition ready_world :: world where
  "ready_world = town_world\<lparr>w_queue := [washing_booking\<lparr>q_Status := StatusReady\<rparr>]\<rparr>"

definition town_customer :: AuthUser where
  "town_customer = \<lparr>au_id = 7, au_role = ''customer'', au_wp = None\<rparr>"

lemma stream_shows_gets_witness:
  "\<exists>frames w'. queue_events (\<lambda>_. Some 30) (Some town_customer) '''' True True
       [Heartbeat True, Changed ready_world True, Heartbeat True] washing_world = (Inr frames, w') \<and> length frames = 3 \<and>
     (\<forall>resp. Data resp \<in> set frames \<longrightarrow> (\<exists>v \<in> {washing_world, ready_world}.
        fst (queue_get (\<lambda>_. Some 30) (Some town_customer) '''' v) = Inr resp))"
proof -
  let ?es = "[Heartbeat True, Changed ready_world True, Heartbeat True]"
  let ?run = "queue_events (\<lambda>_. Some 30) (Some town_customer) '''' True True ?es washing_world"
  have "is_ok (fst ?run)" by code_simp
  then obtain frames w' where run: "?run = (Inr frames, w')" by (rule is_ok_fstE)
  have "(case fst ?run of Inl _ \<Rightarrow> 0 | Inr fs \<Rightarrow> length fs) = 3" by code_simp
  then have 3: "length frames = 3" by (simp add: run)
  have own: "q_UserID q = au_id town_customer"
    if "Changed v ok' \<in> set ?es" and found: "QueueRepo_FindByID qid v = (Inr q, v1)" for v ok' qid q v1
  proof -
    have v: "v = ready_world" using that(1) by simp
    obtain r its where "booking qid v = Some r" "q = r\<lparr>q_Items := its\<rparr>" using found by (rule QueueRepo_FindByID_Inr)
    then show ?thesis
      by (auto simp: v booking_def ready_world_def washing_booking_def town_customer_def split: if_splits)
  qed
  have "\<exists>v. (v = washing_world \<or> (\<exists>ok'. Changed v ok' \<in> set ?es)) \<and>
      fst (queue_get (\<lambda>_. Some 30) (Some town_customer) '''' v) = Inr resp" if "Data resp \<in> set frames" for resp
    by (rule stream_shows_gets [OF run that own])
  with run 3 show ?thesis by fastforce
qed

section \<open>Wake-ups\<close>

text \<open>
  A stream among the other activity. The point's announced changes are counted when they commit
  (\<open>lv_changes\<close>); a handler calls \<open>Publish\<close> only afterwards (\<open>lv_owed\<close> of them have not yet). What the stream
  has seen is the count at the moment the reads of its last snapshot begin.
\<close>

datatype phase = Opening | Opened | Listening chan | Reading chan | Closed

record live =
  lv_bus :: bus
  lv_changes :: nat
  lv_owed :: nat
  lv_phase :: phase
  lv_seen :: nat
  lv_first :: nat
  lv_base :: nat

definition live_start :: "bus \<Rightarrow> live" where
  "live_start b = \<lparr>lv_bus = b, lv_changes = 0, lv_owed = 0, lv_phase = Opening, lv_seen = 0, lv_first = 0, lv_base = 0\<rparr>"

definition own_chan :: "phase \<Rightarrow> chan option" where
  "own_chan p = (case p of Listening c \<Rightarrow> Some c | Reading c \<Rightarrow> Some c | _ \<Rightarrow> None)"

inductive stream_step :: "uuid \<Rightarrow> live \<Rightarrow> live \<Rightarrow> bool" for pid where
  first_snapshot: "lv_phase s = Opening \<Longrightarrow>
    stream_step pid s (s\<lparr>lv_phase := Opened, lv_seen := lv_changes s, lv_first := lv_changes s\<rparr>)"
| subscribe: "lv_phase s = Opened \<Longrightarrow> Bus_Subscribe pid (lv_bus s) = (c, b) \<Longrightarrow>
    stream_step pid s (s\<lparr>lv_bus := b, lv_phase := Listening c, lv_base := lv_changes s\<rparr>)"
| wake: "lv_phase s = Listening c \<Longrightarrow> Bus_Receive c (lv_bus s) = Some b \<Longrightarrow>
    stream_step pid s (s\<lparr>lv_bus := b, lv_phase := Reading c\<rparr>)"
| snapshot: "lv_phase s = Reading c \<Longrightarrow>
    stream_step pid s (s\<lparr>lv_phase := Listening c, lv_seen := lv_changes s\<rparr>)"
| leave: "own_chan (lv_phase s) = Some c \<Longrightarrow>
    stream_step pid s (s\<lparr>lv_bus := Bus_Unsubscribe pid c (lv_bus s), lv_phase := Closed\<rparr>)"
| change: "stream_step pid s (s\<lparr>lv_changes := lv_changes s + 1, lv_owed := lv_owed s + 1\<rparr>)"
| announce: "lv_owed s = Suc n \<Longrightarrow>
    stream_step pid s (s\<lparr>lv_bus := Bus_Publish pid (lv_bus s), lv_owed := n\<rparr>)"
| other_publish: "stream_step pid s (s\<lparr>lv_bus := Bus_Publish pid' (lv_bus s)\<rparr>)"
| other_subscribe: "stream_step pid s (s\<lparr>lv_bus := snd (Bus_Subscribe pid' (lv_bus s))\<rparr>)"
| other_unsubscribe: "own_chan (lv_phase s) \<noteq> Some c \<Longrightarrow>
    stream_step pid s (s\<lparr>lv_bus := Bus_Unsubscribe pid' c (lv_bus s)\<rparr>)"
| other_receive: "own_chan (lv_phase s) \<noteq> Some c \<Longrightarrow> Bus_Receive c (lv_bus s) = Some b \<Longrightarrow>
    stream_step pid s (s\<lparr>lv_bus := b\<rparr>)"

definition stream_ok :: "uuid \<Rightarrow> live \<Rightarrow> bool" where
  "stream_ok pid s \<longleftrightarrow> bus_ok (lv_bus s) \<and> lv_seen s \<le> lv_changes s \<and>
     (\<forall>c. own_chan (lv_phase s) = Some c \<longrightarrow>
        c \<in> listeners (lv_bus s) pid \<and> lv_first s \<le> lv_seen s \<and> lv_first s \<le> lv_base s \<and> lv_base s \<le> lv_changes s \<and>
        (lv_seen s = lv_first s \<or> lv_base s \<le> lv_seen s)) \<and>
     (lv_phase s = Opened \<longrightarrow> lv_first s = lv_seen s) \<and>
     (\<forall>c. lv_phase s = Listening c \<longrightarrow>
        bus_full (lv_bus s) c \<or> 0 < lv_owed s \<or> lv_seen s = lv_changes s \<or> lv_base s = lv_changes s \<and> lv_seen s = lv_first s)"

lemma own_chan_simps [simp]:
  "own_chan Opening = None" "own_chan Opened = None" "own_chan Closed = None"
  "own_chan (Listening c) = Some c" "own_chan (Reading c) = Some c"
  by (simp_all add: own_chan_def)

lemma stream_step_ok:
  assumes "stream_step pid s t" "stream_ok pid s"
  shows "stream_ok pid t"
  using assms
proof (induction rule: stream_step.cases)
  case (first_snapshot s)
  then show ?case by (simp add: stream_ok_def)
next
  case (subscribe s c b)
  have "c = bus_next (lv_bus s)" "b = snd (Bus_Subscribe pid (lv_bus s))"
    using subscribe(4) [THEN arg_cong [of _ _ fst]] subscribe(4) [THEN arg_cong [of _ _ snd]]
    by simp_all
  moreover have "stream_ok pid (s\<lparr>lv_bus := snd (Bus_Subscribe pid (lv_bus s)), lv_phase := Listening (bus_next (lv_bus s)),
      lv_base := lv_changes s\<rparr>)"
    using subscribe(1,3,5) bus_ops_ok(2) [of "lv_bus s" pid] by (auto simp: stream_ok_def)
  ultimately show ?case using subscribe(2) by simp
next
  case (wake s c b)
  then show ?case using bus_ops_ok(4) [of "lv_bus s" c b] by (auto simp: stream_ok_def elim!: Bus_ReceiveE)
next
  case (snapshot s c)
  then show ?case by (auto simp: stream_ok_def)
next
  case (leave s c)
  then show ?case by (auto simp: stream_ok_def bus_ops_ok)
next
  case (change s)
  then show ?case by (fastforce simp: stream_ok_def)
next
  case (announce s n)
  then show ?case by (auto simp: stream_ok_def bus_ops_ok)
next
  case (other_publish s pid')
  then show ?case by (auto simp: stream_ok_def bus_ops_ok)
next
  case (other_subscribe s pid')
  then have "own_chan (lv_phase s) \<noteq> Some (bus_next (lv_bus s))"
    using listener_old [of "lv_bus s" "bus_next (lv_bus s)" pid] by (auto simp: stream_ok_def)
  with other_subscribe show ?case by (auto simp: stream_ok_def bus_ops_ok)
next
  case (other_unsubscribe s c pid')
  then show ?case by (auto simp: stream_ok_def bus_ops_ok)
next
  case (other_receive s c b)
  then show ?case using bus_ops_ok(4) [of "lv_bus s" c b] by (auto simp: stream_ok_def elim!: Bus_ReceiveE)
qed

lemma stream_reachable_ok: "(stream_step pid)\<^sup>*\<^sup>* s t \<Longrightarrow> stream_ok pid s \<Longrightarrow> stream_ok pid t"
  by (induction rule: rtranclp_induct) (auto intro: stream_step_ok)

text \<open>
  C23 A stream that listens with no wake-up pending and no announcement outstanding has read everything,
  unless nothing has changed since it subscribed and it missed a change between its first snapshot and
  its subscription.
\<close>

theorem quiet_stream_is_current:
  assumes "bus_ok b" "(stream_step pid)\<^sup>*\<^sup>* (live_start b) s"
    and "lv_phase s = Listening c" "\<not> bus_full (lv_bus s) c" "lv_owed s = 0"
  shows "lv_seen s = lv_changes s \<or>
    lv_seen s = lv_first s \<and> lv_first s < lv_base s \<and> lv_base s = lv_changes s"
proof -
  have "stream_ok pid (live_start b)" using assms(1) by (simp add: stream_ok_def live_start_def)
  from stream_reachable_ok [OF assms(2) this] assms(3-5) show ?thesis
    by (auto simp: stream_ok_def)
qed

text \<open>A stream that opened on an idle bus.\<close>

lemma quiet_stream_is_current_witness:
  "\<exists>s. (stream_step 5)\<^sup>*\<^sup>* (live_start Bus_New) s \<and> lv_phase s = Listening 0 \<and> lv_seen s = lv_changes s"
proof -
  let ?s0 = "live_start Bus_New"
  let ?s1 = "?s0\<lparr>lv_phase := Opened, lv_seen := 0, lv_first := 0\<rparr>"
  let ?s2 = "?s1\<lparr>lv_bus := snd (Bus_Subscribe 5 Bus_New), lv_phase := Listening 0, lv_base := 0\<rparr>"
  have "stream_step 5 ?s0 ?s1" using first_snapshot [of ?s0 5] by (simp add: live_start_def)
  moreover have "stream_step 5 ?s1 ?s2"
    using subscribe [of ?s1 5 0 "snd (Bus_Subscribe 5 Bus_New)"]
    by (simp add: live_start_def Bus_Subscribe_def Bus_New_def Let_def)
  ultimately have run: "(stream_step 5)\<^sup>*\<^sup>* ?s0 ?s2" by (rule rtranclp.rtrancl_into_rtrancl [OF r_into_rtranclp])
  have "bus_ok Bus_New" by (simp add: bus_ok_def Bus_New_def listeners_def)
  moreover have "\<not> bus_full (lv_bus ?s2) 0" "lv_owed ?s2 = 0" "lv_phase ?s2 = Listening 0"
    by (simp_all add: Bus_New_def live_start_def)
  ultimately have "lv_seen ?s2 = lv_changes ?s2 \<or> lv_seen ?s2 = lv_first ?s2 \<and> lv_first ?s2 < lv_base ?s2 \<and> lv_base ?s2 = lv_changes ?s2"
    by (intro quiet_stream_is_current [OF _ run])
  then have "lv_seen ?s2 = lv_changes ?s2" by simp
  with run show ?thesis by (intro exI [of _ ?s2]) simp
qed

text \<open>
  The exception happens: a change that is committed and announced after the first snapshot and before
  the subscription wakes nobody, and the stream shows the old state until the next change.
\<close>

theorem first_change_can_be_lost:
  "\<exists>s c. (stream_step pid)\<^sup>*\<^sup>* (live_start Bus_New) s \<and> lv_phase s = Listening c \<and> \<not> bus_full (lv_bus s) c \<and>
     lv_owed s = 0 \<and> lv_seen s < lv_changes s"
proof -
  let ?s0 = "live_start Bus_New"
  let ?s1 = "?s0\<lparr>lv_phase := Opened, lv_seen := 0, lv_first := 0\<rparr>"
  let ?s2 = "?s1\<lparr>lv_changes := 1, lv_owed := 1\<rparr>"
  let ?s3 = "?s2\<lparr>lv_bus := Bus_Publish pid Bus_New, lv_owed := 0\<rparr>"
  let ?s4 = "?s3\<lparr>lv_bus := snd (Bus_Subscribe pid (Bus_Publish pid Bus_New)), lv_phase := Listening 0, lv_base := 1\<rparr>"
  have "stream_step pid ?s0 ?s1" using first_snapshot [of ?s0 pid] by (simp add: live_start_def)
  moreover have "stream_step pid ?s1 ?s2" using change [of pid ?s1] by (simp add: live_start_def)
  moreover have "stream_step pid ?s2 ?s3" using announce [of ?s2 0 pid] by (simp add: live_start_def)
  moreover have "stream_step pid ?s3 ?s4"
    using subscribe [of ?s3 pid 0 "snd (Bus_Subscribe pid (Bus_Publish pid Bus_New))"]
    by (simp add: live_start_def Bus_Subscribe_def Bus_Publish_def Bus_New_def Let_def)
  ultimately have "(stream_step pid)\<^sup>*\<^sup>* ?s0 ?s4" by (intro rtranclp.rtrancl_into_rtrancl [OF rtranclp.rtrancl_into_rtrancl [OF rtranclp.rtrancl_into_rtrancl [OF r_into_rtranclp]]])
  moreover have "\<not> bus_full (lv_bus ?s4) 0"
    by (simp add: Bus_New_def listeners_def)
  moreover have "lv_phase ?s4 = Listening 0" "lv_owed ?s4 = 0" "lv_seen ?s4 < lv_changes ?s4" by simp_all
  ultimately show ?thesis by blast
qed

end
