(* ===== verification/Config.thy ===== *)
theory Config
  imports Auth Float64
begin

text \<open>
  \<open>internal/config\<close>: the configuration read from the environment, its defaults and the checks that
  refuse to start an unsafe production deploy. The environment is a function from names to values and
  the file system one from paths to contents; the error messages are reduced to what they name.
\<close>

section \<open>Booleans and durations\<close>

text \<open>\<open>strconv.ParseBool\<close>.\<close>

definition ParseBool :: "string \<Rightarrow> bool option" where
  "ParseBool s =
     (if s \<in> {''1'', ''t'', ''T'', ''TRUE'', ''true'', ''True''} then Some True
      else if s \<in> {''0'', ''f'', ''F'', ''FALSE'', ''false'', ''False''} then Some False
      else None)"

text \<open>
  \<open>time.ParseDuration\<close>: an optional sign and a sequence of decimal numbers with units. The sums are
  \<open>uint64\<close>; a fraction is multiplied in floating point and cut down.
\<close>

definition unitMap :: "string \<Rightarrow> duration option" where
  "unitMap = map_of [(''ns'', 1), (''us'', 1000), (utf8 [0xC2, 0xB5, 0x73], 1000), (utf8 [0xCE, 0xBC, 0x73], 1000),
     (''ms'', 1000000), (''s'', Second), (''m'', Minute), (''h'', Hour)]"

fun leadingInt :: "string \<Rightarrow> int \<Rightarrow> (int \<times> string) option" where
  "leadingInt [] x = Some (x, [])"
| "leadingInt (c # s) x =
     (if \<not> is_digit c then Some (x, c # s)
      else if x > 2 ^ 63 div 10 then None
      else let y = x * 10 + digit_value c in if y > 2 ^ 63 then None else leadingInt s y)"

fun leadingFraction :: "string \<Rightarrow> int \<Rightarrow> int \<Rightarrow> bool \<Rightarrow> int \<times> int \<times> string" where
  "leadingFraction [] x scale overflow = (x, scale, [])"
| "leadingFraction (c # s) x scale overflow =
     (if \<not> is_digit c then (x, scale, c # s)
      else if overflow then leadingFraction s x scale True
      else if x > (2 ^ 63 - 1) div 10 then leadingFraction s x scale True
      else let y = x * 10 + digit_value c
           in if y > 2 ^ 63 then leadingFraction s x scale True else leadingFraction s y (scale * 10) False)"

definition is_unit_char :: "char \<Rightarrow> bool" where
  "is_unit_char c \<longleftrightarrow> c \<noteq> CHR ''.'' \<and> \<not> is_digit c"

definition optional_fraction :: "string \<Rightarrow> int \<times> int \<times> string \<times> bool" where
  "optional_fraction s =
     (case s of
        [] \<Rightarrow> (0, 1, s, False)
      | c # t \<Rightarrow>
          if c \<noteq> CHR ''.'' then (0, 1, s, False)
          else let (f, scale, rest) = leadingFraction t 0 1 False in (f, scale, rest, length rest \<noteq> length t))"

definition with_unit :: "int \<Rightarrow> int \<Rightarrow> int \<Rightarrow> string \<Rightarrow> int option" where
  "with_unit v f scale u =
     (case unitMap u of
        None \<Rightarrow> None
      | Some unit \<Rightarrow>
          if v > 2 ^ 63 div unit then None
          else
            let w = v * unit + (if f > 0 then truncate_float (fl (fl (of_int f) * fl (of_int unit / of_int scale))) else 0)
            in if w > 2 ^ 63 then None else Some w)"

text \<open>One number with its unit, in nanoseconds, and the rest.\<close>

definition duration_part :: "string \<Rightarrow> (int \<times> string) option" where
  "duration_part s =
     (if s = [] \<or> is_unit_char (hd s) then None
      else
        (case leadingInt s 0 of
           None \<Rightarrow> None
         | Some (v, s1) \<Rightarrow>
             (case optional_fraction s1 of
                (f, scale, s2, post) \<Rightarrow>
                  if length s1 = length s \<and> \<not> post then None
                  else if takeWhile is_unit_char s2 = [] then None
                  else
                    (case with_unit v f scale (takeWhile is_unit_char s2) of
                       None \<Rightarrow> None
                     | Some w \<Rightarrow> Some (w, dropWhile is_unit_char s2)))))"

lemma leadingInt_rest: "leadingInt s x = Some (v, t) \<Longrightarrow> length t \<le> length s"
  by (induction s x rule: leadingInt.induct) (auto simp: Let_def split: if_splits)

lemma leadingFraction_rest: "leadingFraction s x sc ov = (f, sc', t) \<Longrightarrow> length t \<le> length s"
  by (induction s x sc ov rule: leadingFraction.induct) (auto simp: Let_def split: if_splits)

lemma optional_fraction_rest: "optional_fraction s = (f, sc, t, post) \<Longrightarrow> length t \<le> length s"
  by (auto simp: optional_fraction_def split: list.splits if_splits prod.splits dest: leadingFraction_rest)

lemma takeWhile_some:
  assumes "takeWhile P s \<noteq> []"
  shows "length (dropWhile P s) < length s"
  using assms by (metis append_self_conv2 length_dropWhile_le nat_less_le takeWhile_dropWhile_id
      length_append add_cancel_right_left length_0_conv)

lemma duration_part_rest: "duration_part s = Some (w, t) \<Longrightarrow> length t < length s"
  unfolding duration_part_def
  by (auto split: option.splits if_splits prod.splits
      dest!: leadingInt_rest optional_fraction_rest takeWhile_some intro: less_le_trans)

function duration_sum :: "string \<Rightarrow> int \<Rightarrow> int option" where
  "duration_sum s d =
     (if s = [] then Some d
      else
        (case duration_part s of
           None \<Rightarrow> None
         | Some (v, t) \<Rightarrow> let d' = (d + v) mod 2 ^ 64 in if d' > 2 ^ 63 then None else duration_sum t d'))"
  by pat_completeness auto

termination
  by (relation "measure (length \<circ> fst)") (auto dest: duration_part_rest)

declare duration_sum.simps [simp del]

definition ParseDuration :: "string \<Rightarrow> duration option" where
  "ParseDuration str =
     (let (neg, s) = (case str of [] \<Rightarrow> (False, [])
                       | c # cs \<Rightarrow> if c = CHR ''-'' \<or> c = CHR ''+'' then (c = CHR ''-'', cs) else (False, str))
      in if s = ''0'' then Some 0
         else if s = [] then None
         else
           (case duration_sum s 0 of
              None \<Rightarrow> None
            | Some d \<Rightarrow> if neg then Some (- d) else if d > 2 ^ 63 - 1 then None else Some d))"

section \<open>The environment\<close>

text \<open>The zero \<open>RateLimitConfig\<close> limits nothing.\<close>

record RateLimitConfig =
  rl_LoginPerMinute :: int
  rl_LoginMaxFailures :: int
  rl_LoginLockout :: duration
  rl_OTPRequestPerHour :: int
  rl_OTPVerifyPerHour :: int
  rl_QRScanPerMinute :: int

record HTTPConfig =
  hc_Port :: string
  hc_TrustProxyHeaders :: bool
  hc_CORSAllowedOrigins :: "string list"

record DBConfig =
  dc_Host :: string
  dc_Port :: string
  dc_User :: string
  dc_Password :: string
  dc_Name :: string
  dc_SSLMode :: string

text \<open>The two secrets beside the part of \<open>AuthConfig\<close> the service uses.\<close>

record AuthSecrets = AuthConfig +
  ac_AccessTokenSecret :: string
  ac_RefreshTokenPepper :: string

record StorageConfig =
  sc_Dir :: string
  sc_BaseURL :: string

record PushConfig =
  pc_ProjectID :: string
  pc_ServiceAccountJSON :: string

record SMSConfig =
  sm_Provider :: string
  sm_PayomBaseURL :: string
  sm_PayomToken :: string
  sm_PayomSenderName :: string
  sm_PayomOTPTemplateID :: string

record Config =
  cfg_Env :: string
  cfg_HTTP :: HTTPConfig
  cfg_DB :: DBConfig
  cfg_Auth :: AuthSecrets
  cfg_Storage :: StorageConfig
  cfg_Push :: PushConfig
  cfg_SMS :: SMSConfig
  cfg_DSN :: string
  cfg_RateLimit :: RateLimitConfig

type_synonym env = "string \<Rightarrow> string option"

definition getEnv :: "env \<Rightarrow> string \<Rightarrow> string \<Rightarrow> string" where
  "getEnv env key fallback = (case env key of Some v \<Rightarrow> if v \<noteq> [] then v else fallback | None \<Rightarrow> fallback)"

datatype problem = DevDefault string | TooShort string

datatype config_error =
    UnreadableServiceAccount | InvalidDuration string | InvalidBoolean string | InvalidInteger string
  | ReviewLoginIncomplete | ReviewPhoneInvalid | ReviewOTPInvalid | NegativeRateLimit | UnsafeProduction "problem list"

definition getDuration :: "env \<Rightarrow> string \<Rightarrow> duration \<Rightarrow> config_error + duration" where
  "getDuration env key fallback =
     (case env key of
        None \<Rightarrow> Inr fallback
      | Some v \<Rightarrow> if v = [] then Inr fallback
                  else (case ParseDuration v of None \<Rightarrow> Inl (InvalidDuration key) | Some d \<Rightarrow> Inr d))"

definition getBool :: "env \<Rightarrow> string \<Rightarrow> bool \<Rightarrow> config_error + bool" where
  "getBool env key fallback =
     (case env key of
        None \<Rightarrow> Inr fallback
      | Some v \<Rightarrow> if v = [] then Inr fallback
                  else (case ParseBool v of None \<Rightarrow> Inl (InvalidBoolean key) | Some b \<Rightarrow> Inr b))"

definition getInt :: "env \<Rightarrow> string \<Rightarrow> int \<Rightarrow> config_error + int" where
  "getInt env key fallback =
     (case env key of
        None \<Rightarrow> Inr fallback
      | Some v \<Rightarrow> if v = [] then Inr fallback
                  else (case ParseInt v of None \<Rightarrow> Inl (InvalidInteger key) | Some n \<Rightarrow> Inr n))"

definition getCSV :: "env \<Rightarrow> string \<Rightarrow> string list \<Rightarrow> string list" where
  "getCSV env key fallback =
     (case env key of
        None \<Rightarrow> fallback
      | Some v \<Rightarrow>
          if v = [] then fallback
          else let out = filter (\<lambda>p. p \<noteq> []) (map TrimSpace (split_char (CHR '','') v))
               in if out = [] then fallback else out)"

section \<open>Validation\<close>

definition devAccessSecret :: string where "devAccessSecret = ''dev-access-secret-change-me''"
definition devRefreshPepper :: string where "devRefreshPepper = ''dev-refresh-pepper-change-me''"
definition devDBPassword :: string where "devDBPassword = ''pegasus''"
definition minSecretLen :: nat where "minSecretLen = 32"

definition IsProduction :: "Config \<Rightarrow> bool" where
  "IsProduction c \<longleftrightarrow> cfg_Env c = ''production''"

definition check_secret :: "string \<Rightarrow> string \<Rightarrow> string \<Rightarrow> problem list" where
  "check_secret name v devDefault =
     (if v = devDefault then [DevDefault name] else if length v < minSecretLen then [TooShort name] else [])"

text \<open>The patterns are those of the phone numbers and of the one-time codes.\<close>

definition validateReviewLogin :: "'a AuthConfig_scheme \<Rightarrow> config_error + unit" where
  "validateReviewLogin a =
     (if ac_ReviewPhone a = [] \<and> ac_ReviewOTP a = [] then Inr ()
      else if ac_ReviewPhone a = [] \<or> ac_ReviewOTP a = [] then Inl ReviewLoginIncomplete
      else if \<not> phoneRegexp (ac_ReviewPhone a) then Inl ReviewPhoneInvalid
      else if \<not> otpCodeRegexp (ac_ReviewOTP a) then Inl ReviewOTPInvalid
      else Inr ())"

definition validate_limits :: "RateLimitConfig \<Rightarrow> config_error + unit" where
  "validate_limits r =
     (if rl_LoginPerMinute r < 0 \<or> rl_LoginMaxFailures r < 0 \<or> rl_LoginLockout r < 0 \<or>
         rl_OTPRequestPerHour r < 0 \<or> rl_OTPVerifyPerHour r < 0 \<or> rl_QRScanPerMinute r < 0
      then Inl NegativeRateLimit else Inr ())"

text \<open>Errors as values, one step after the other.\<close>

definition and_then :: "'e + 'a \<Rightarrow> ('a \<Rightarrow> 'e + 'b) \<Rightarrow> 'e + 'b" where
  "and_then r f = (case r of Inl e \<Rightarrow> Inl e | Inr x \<Rightarrow> f x)"

lemma and_then_simps [simp]: "and_then (Inr x) f = f x" "and_then (Inl e) f = Inl e"
  by (simp_all add: and_then_def)

lemma and_then_InrE:
  assumes "and_then r f = Inr y"
  obtains x where "r = Inr x" "f x = Inr y"
  using assms by (cases r) auto

definition Validate :: "Config \<Rightarrow> config_error + unit" where
  "Validate c =
     and_then (validateReviewLogin (cfg_Auth c)) (\<lambda>_.
     and_then (validate_limits (cfg_RateLimit c)) (\<lambda>_.
     if \<not> IsProduction c then Inr ()
     else
       let problems = check_secret ''JWT_ACCESS_SECRET'' (ac_AccessTokenSecret (cfg_Auth c)) devAccessSecret @
                      check_secret ''REFRESH_TOKEN_PEPPER'' (ac_RefreshTokenPepper (cfg_Auth c)) devRefreshPepper @
                      (if dc_Password (cfg_DB c) = devDBPassword then [DevDefault ''DB_PASSWORD''] else [])
       in if problems \<noteq> [] then Inl (UnsafeProduction problems) else Inr ()))"

datatype warning = UnencryptedDB | ProxyHeadersOff | CORSOpen

definition Warnings :: "Config \<Rightarrow> warning list" where
  "Warnings c =
     (if IsProduction c
      then (if dc_SSLMode (cfg_DB c) = ''disable'' then [UnencryptedDB] else []) @
           (if \<not> hc_TrustProxyHeaders (cfg_HTTP c) then [ProxyHeadersOff] else []) @
           (if ''*'' \<in> set (hc_CORSAllowedOrigins (cfg_HTTP c)) then [CORSOpen] else [])
      else [])"

section \<open>Loading\<close>

definition load_push :: "env \<Rightarrow> (string \<Rightarrow> string option) \<Rightarrow> config_error + PushConfig" where
  "load_push env read_file =
     (let project = getEnv env ''FCM_PROJECT_ID'' []; inline = getEnv env ''FCM_SERVICE_ACCOUNT_JSON'' [];
          path = getEnv env ''FCM_SERVICE_ACCOUNT_FILE'' []
      in if inline \<noteq> [] then Inr \<lparr>pc_ProjectID = project, pc_ServiceAccountJSON = inline\<rparr>
         else if path \<noteq> [] then
           (case read_file path of
              None \<Rightarrow> Inl UnreadableServiceAccount
            | Some bytes \<Rightarrow> Inr \<lparr>pc_ProjectID = project, pc_ServiceAccountJSON = bytes\<rparr>)
         else Inr \<lparr>pc_ProjectID = project, pc_ServiceAccountJSON = []\<rparr>)"

definition load_auth :: "env \<Rightarrow> config_error + AuthSecrets" where
  "load_auth env =
     and_then (getDuration env ''JWT_ACCESS_TTL'' (15 * Minute)) (\<lambda>access.
     and_then (getDuration env ''JWT_STAFF_ACCESS_TTL'' (5 * Minute)) (\<lambda>staff.
     and_then (getDuration env ''JWT_REFRESH_TTL'' (30 * 24 * Hour)) (\<lambda>refresh.
     and_then (getDuration env ''OTP_TTL'' (5 * Minute)) (\<lambda>ttl.
     and_then (getDuration env ''OTP_COOLDOWN'' (60 * Second)) (\<lambda>cooldown.
     and_then (getInt env ''OTP_MAX_ATTEMPTS'' 5) (\<lambda>attempts.
     Inr \<lparr>ac_AccessTokenTTL = access, ac_StaffAccessTokenTTL = staff, ac_RefreshTokenTTL = refresh,
          ac_OTPTTL = ttl, ac_OTPCooldown = cooldown, ac_OTPMaxAttempts = attempts,
          ac_ReviewPhone = getEnv env ''REVIEW_PHONE'' [], ac_ReviewOTP = getEnv env ''REVIEW_OTP'' [],
          ac_AccessTokenSecret = getEnv env ''JWT_ACCESS_SECRET'' devAccessSecret,
          ac_RefreshTokenPepper = getEnv env ''REFRESH_TOKEN_PEPPER'' devRefreshPepper\<rparr>))))))"

definition load_limits :: "env \<Rightarrow> config_error + RateLimitConfig" where
  "load_limits env =
     and_then (getInt env ''RATE_LIMIT_LOGIN_PER_MINUTE'' 10) (\<lambda>logins.
     and_then (getInt env ''RATE_LIMIT_LOGIN_MAX_FAILURES'' 5) (\<lambda>failures.
     and_then (getInt env ''RATE_LIMIT_OTP_REQUEST_PER_HOUR'' 5) (\<lambda>requests.
     and_then (getInt env ''RATE_LIMIT_OTP_VERIFY_PER_HOUR'' 20) (\<lambda>verifies.
     and_then (getInt env ''RATE_LIMIT_QR_SCAN_PER_MINUTE'' 60) (\<lambda>scans.
     and_then (getDuration env ''RATE_LIMIT_LOGIN_LOCKOUT'' (15 * Minute)) (\<lambda>lockout.
     Inr \<lparr>rl_LoginPerMinute = logins, rl_LoginMaxFailures = failures, rl_LoginLockout = lockout,
          rl_OTPRequestPerHour = requests, rl_OTPVerifyPerHour = verifies, rl_QRScanPerMinute = scans\<rparr>))))))"

definition Load :: "env \<Rightarrow> (string \<Rightarrow> string option) \<Rightarrow> config_error + Config" where
  "Load env read_file =
     (let appEnv = getEnv env ''APP_ENV'' ''development''
      in and_then (load_push env read_file) (\<lambda>push.
         and_then (load_auth env) (\<lambda>auth.
         and_then (getBool env ''TRUST_PROXY_HEADERS'' (appEnv \<noteq> ''production'')) (\<lambda>trust.
         and_then (load_limits env) (\<lambda>limits.
         let cfg =
           \<lparr>cfg_Env = appEnv,
            cfg_HTTP = \<lparr>hc_Port = getEnv env ''HTTP_PORT'' ''8080'', hc_TrustProxyHeaders = trust,
              hc_CORSAllowedOrigins = getCSV env ''CORS_ALLOWED_ORIGINS'' [''*'']\<rparr>,
            cfg_DB = \<lparr>dc_Host = getEnv env ''DB_HOST'' ''localhost'', dc_Port = getEnv env ''DB_PORT'' ''5432'',
              dc_User = getEnv env ''DB_USER'' ''pegasus'', dc_Password = getEnv env ''DB_PASSWORD'' devDBPassword,
              dc_Name = getEnv env ''DB_NAME'' ''pegasus'', dc_SSLMode = getEnv env ''DB_SSLMODE'' ''disable''\<rparr>,
            cfg_Auth = auth,
            cfg_Storage = \<lparr>sc_Dir = getEnv env ''UPLOADS_DIR'' ''./uploads'',
              sc_BaseURL = getEnv env ''UPLOADS_BASE_URL'' ''/uploads''\<rparr>,
            cfg_Push = push,
            cfg_SMS = \<lparr>sm_Provider = getEnv env ''SMS_PROVIDER'' ''stub'', sm_PayomBaseURL = getEnv env ''PAYOM_BASE_URL'' [],
              sm_PayomToken = getEnv env ''PAYOM_API_TOKEN'' [], sm_PayomSenderName = getEnv env ''PAYOM_SENDER_NAME'' ''QWash'',
              sm_PayomOTPTemplateID = getEnv env ''PAYOM_OTP_TEMPLATE_ID'' []\<rparr>,
            cfg_DSN = getEnv env ''SENTRY_DSN'' [],
            cfg_RateLimit = limits\<rparr>
         in and_then (Validate cfg) (\<lambda>_. Inr cfg))))))"

section \<open>What a loaded configuration guarantees\<close>

lemma duration_sum_range:
  "duration_sum s d = Some r \<Longrightarrow> 0 \<le> d \<Longrightarrow> d \<le> 2 ^ 63 \<Longrightarrow> 0 \<le> r \<and> r \<le> 2 ^ 63"
proof (induction s d rule: duration_sum.induct)
  case (1 s d)
  show ?case
  proof (cases "s = []")
    case True
    then show ?thesis using 1 by (simp add: duration_sum.simps)
  next
    case False
    with "1.prems"(1) obtain v t where part: "duration_part s = Some (v, t)"
      by (subst (asm) duration_sum.simps) (auto split: option.splits)
    then have small: "\<not> (d + v) mod 2 ^ 64 > 2 ^ 63" and rest: "duration_sum t ((d + v) mod 2 ^ 64) = Some r"
      using "1.prems"(1) False by (subst (asm) duration_sum.simps, simp add: Let_def split: if_splits)+
    show ?thesis by (rule "1.IH" [OF False part refl refl small rest]) (use small in simp_all)
  qed
qed

lemma ParseDuration_range: "ParseDuration s = Some d \<Longrightarrow> - (2 ^ 63) \<le> d \<and> d < 2 ^ 63"
  by (auto simp: ParseDuration_def Let_def split: list.splits if_splits option.splits dest!: duration_sum_range)

lemma ParseDuration_examples:
  "ParseDuration ''15m'' = Some (15 * Minute)" "ParseDuration ''1h30m'' = Some (90 * Minute)"
  "ParseDuration ''-60s'' = Some (- 60 * Second)" "ParseDuration ''5'' = None" "ParseDuration ''m'' = None"
  by code_simp+

definition int64 :: "int \<Rightarrow> bool" where
  "int64 n \<longleftrightarrow> - (2 ^ 63) \<le> n \<and> n < 2 ^ 63"

lemma getDuration_int64: "getDuration env k f = Inr d \<Longrightarrow> int64 f \<Longrightarrow> int64 d"
  using ParseDuration_range by (auto simp: getDuration_def int64_def split: option.splits if_splits)

lemma getInt_int64: "getInt env k f = Inr n \<Longrightarrow> int64 f \<Longrightarrow> int64 n"
  by (auto simp: getInt_def int64_def ParseInt_def Let_def split: option.splits if_splits prod.splits)

lemma getCSV_entries: "f \<noteq> [] \<Longrightarrow> [] \<notin> set f \<Longrightarrow> getCSV env k f \<noteq> [] \<and> [] \<notin> set (getCSV env k f)"
  by (auto simp: getCSV_def Let_def split: option.splits)

definition auth_typed :: "AuthSecrets \<Rightarrow> bool" where
  "auth_typed a \<longleftrightarrow> (\<forall>d \<in> {ac_AccessTokenTTL a, ac_StaffAccessTokenTTL a, ac_RefreshTokenTTL a, ac_OTPTTL a,
       ac_OTPCooldown a, ac_OTPMaxAttempts a}. int64 d) \<and>
     (ac_ReviewPhone a = [] \<and> ac_ReviewOTP a = [] \<or> phoneRegexp (ac_ReviewPhone a) \<and> otpCodeRegexp (ac_ReviewOTP a))"

definition limits_typed :: "RateLimitConfig \<Rightarrow> bool" where
  "limits_typed r \<longleftrightarrow> (\<forall>n \<in> {rl_LoginPerMinute r, rl_LoginMaxFailures r, rl_LoginLockout r, rl_OTPRequestPerHour r,
       rl_OTPVerifyPerHour r, rl_QRScanPerMinute r}. 0 \<le> n \<and> int64 n)"

definition real_secret :: "string \<Rightarrow> string \<Rightarrow> bool" where
  "real_secret v devDefault \<longleftrightarrow> v \<noteq> devDefault \<and> 32 \<le> length v"

lemma load_auth_int64:
  assumes "load_auth env = Inr a"
  shows "\<forall>d \<in> {ac_AccessTokenTTL a, ac_StaffAccessTokenTTL a, ac_RefreshTokenTTL a, ac_OTPTTL a,
    ac_OTPCooldown a, ac_OTPMaxAttempts a}. int64 d"
proof -
  have d: "int64 (15 * Minute)" "int64 (5 * Minute)" "int64 (720 * Hour)" "int64 (60 * Second)" "int64 5"
    by (simp_all add: int64_def duration_defs)
  show ?thesis
    using assms unfolding load_auth_def
    by (auto elim!: and_then_InrE dest: getDuration_int64 [OF _ d(1)] getDuration_int64 [OF _ d(2)]
        getDuration_int64 [OF _ d(3)] getDuration_int64 [OF _ d(4)] getInt_int64 [OF _ d(5)])
qed

lemma load_limits_int64:
  assumes "load_limits env = Inr r"
  shows "\<forall>n \<in> {rl_LoginPerMinute r, rl_LoginMaxFailures r, rl_LoginLockout r, rl_OTPRequestPerHour r,
    rl_OTPVerifyPerHour r, rl_QRScanPerMinute r}. int64 n"
proof -
  have d: "int64 10" "int64 5" "int64 20" "int64 60" "int64 (15 * Minute)" by (simp_all add: int64_def duration_defs)
  show ?thesis
    using assms unfolding load_limits_def
    by (auto elim!: and_then_InrE dest: getInt_int64 [OF _ d(1)] getInt_int64 [OF _ d(2)] getInt_int64 [OF _ d(3)]
        getInt_int64 [OF _ d(4)] getDuration_int64 [OF _ d(5)])
qed

lemma Validate_ok:
  assumes "Validate c = Inr u"
  shows "validateReviewLogin (cfg_Auth c) = Inr ()" "validate_limits (cfg_RateLimit c) = Inr ()"
    "IsProduction c \<Longrightarrow> real_secret (ac_AccessTokenSecret (cfg_Auth c)) devAccessSecret \<and>
      real_secret (ac_RefreshTokenPepper (cfg_Auth c)) devRefreshPepper \<and> dc_Password (cfg_DB c) \<noteq> devDBPassword"
  using assms
  by (auto simp: Validate_def check_secret_def real_secret_def minSecretLen_def Let_def elim!: and_then_InrE split: if_splits)

text \<open>
  C25 A configuration the program starts with is well-formed: every number fits its type, no limit is
  negative, the reviewer login is off or complete, some origin is allowed, and in production both secrets
  are at least 32 characters long and neither they nor the database password are the built-in ones.
\<close>

theorem loaded_config_well_formed:
  assumes "Load env read_file = Inr c"
  shows "auth_typed (cfg_Auth c) \<and> limits_typed (cfg_RateLimit c) \<and>
    hc_CORSAllowedOrigins (cfg_HTTP c) \<noteq> [] \<and> [] \<notin> set (hc_CORSAllowedOrigins (cfg_HTTP c)) \<and>
    (cfg_Env c = ''production'' \<longrightarrow>
       real_secret (ac_AccessTokenSecret (cfg_Auth c)) devAccessSecret \<and>
       real_secret (ac_RefreshTokenPepper (cfg_Auth c)) devRefreshPepper \<and>
       dc_Password (cfg_DB c) \<noteq> devDBPassword)"
proof -
  obtain a r where "load_auth env = Inr a" "load_limits env = Inr r" "Validate c = Inr ()"
    and c: "cfg_Auth c = a" "cfg_RateLimit c = r"
      "hc_CORSAllowedOrigins (cfg_HTTP c) = getCSV env ''CORS_ALLOWED_ORIGINS'' [''*'']"
    using assms unfolding Load_def Let_def by (auto elim!: and_then_InrE)
  note valid = Validate_ok [OF \<open>Validate c = Inr ()\<close>]
    and ranges = load_auth_int64 [OF \<open>load_auth env = Inr a\<close>] load_limits_int64 [OF \<open>load_limits env = Inr r\<close>]
  have "auth_typed (cfg_Auth c)"
    using valid(1) ranges(1) unfolding auth_typed_def c validateReviewLogin_def by (auto split: if_splits)
  moreover have "limits_typed (cfg_RateLimit c)"
    using valid(2) ranges(2) unfolding limits_typed_def c validate_limits_def by (auto split: if_splits)
  moreover have "cfg_Env c = ''production'' \<Longrightarrow> IsProduction c" by (simp add: IsProduction_def)
  ultimately show ?thesis using valid(3) getCSV_entries [of "[''*'']" env] by (simp add: c(3))
qed

text \<open>A production environment that loads, and one that is refused.\<close>

definition production_env :: env where
  "production_env = map_of [(''APP_ENV'', ''production''), (''JWT_ACCESS_SECRET'', replicate 32 CHR ''a''),
     (''REFRESH_TOKEN_PEPPER'', replicate 40 CHR ''b''), (''DB_PASSWORD'', ''secret''), (''OTP_TTL'', ''90s'')]"

lemma loaded_config_well_formed_witness:
  "\<exists>c. Load production_env (\<lambda>_. None) = Inr c \<and> cfg_Env c = ''production'' \<and> ac_OTPTTL (cfg_Auth c) = 90 * Second \<and>
     real_secret (ac_AccessTokenSecret (cfg_Auth c)) devAccessSecret"
proof -
  have "(case Load production_env (\<lambda>_. None) of Inl _ \<Rightarrow> False
      | Inr c \<Rightarrow> cfg_Env c = ''production'' \<and> ac_OTPTTL (cfg_Auth c) = 90 * Second)" by code_simp
  then obtain c where c: "Load production_env (\<lambda>_. None) = Inr c" "cfg_Env c = ''production''"
    "ac_OTPTTL (cfg_Auth c) = 90 * Second" by (auto split: sum.splits)
  with loaded_config_well_formed [OF c(1)] show ?thesis by blast
qed

lemma bare_production_refused:
  "Load (map_of [(''APP_ENV'', ''production'')]) (\<lambda>_. None) =
   Inl (UnsafeProduction [DevDefault ''JWT_ACCESS_SECRET'', DevDefault ''REFRESH_TOKEN_PEPPER'', DevDefault ''DB_PASSWORD''])"
  by code_simp

end
