(* ===== verification/Edge.thy ===== *)
theory Edge
  imports Ratelimit GoStrings
begin

text \<open>
  The edge of the HTTP server, \<open>internal/platform/httpserver\<close>: the client address behind the trusted
  proxy (\<open>clientip.go\<close>), which the per-address limits of \<open>Ratelimit\<close> count by, the security headers
  (\<open>headers.go\<close>), the time limit with its exception for streams (\<open>router.go\<close>) and the static files
  without directory listings (\<open>static.go\<close>).
\<close>

section \<open>IP addresses\<close>

text \<open>\<open>net.ParseIP\<close>: dotted IPv4 without leading zeros, or IPv6 without a zone; only whether it parses matters.\<close>

definition ipv4_octet :: "string \<Rightarrow> bool" where
  "ipv4_octet s \<longleftrightarrow> s \<noteq> [] \<and> list_all is_digit s \<and> (hd s = CHR ''0'' \<longrightarrow> length s = 1) \<and> digits_value s \<le> 255"

definition parseIPv4 :: "string \<Rightarrow> bool" where
  "parseIPv4 s \<longleftrightarrow> (let parts = split_char (CHR ''.'') s in length parts = 4 \<and> list_all ipv4_octet parts)"

definition is_hex :: "char \<Rightarrow> bool" where
  "is_hex c \<longleftrightarrow> is_digit c \<or> c \<in> set ''abcdefABCDEF''"

text \<open>
  The loop over the 16-bit groups: \<open>n\<close> of them are filled, \<open>ellipsis\<close> tells whether \<open>::\<close> was seen. At the
  end all eight are filled, or fewer and an ellipsis stands for the rest.
\<close>

definition ipv6_complete :: "nat \<Rightarrow> bool \<Rightarrow> bool" where
  "ipv6_complete n ellipsis \<longleftrightarrow> (if n < 8 then ellipsis else \<not> ellipsis)"

function ipv6_groups :: "string \<Rightarrow> nat \<Rightarrow> bool \<Rightarrow> bool" where
  "ipv6_groups s n ellipsis =
     (if n \<ge> 8 then s = [] \<and> ipv6_complete n ellipsis
      else
        let ds = takeWhile is_hex s; rest = drop (length ds) s
        in if ds = [] \<or> length ds > 4 then False
           else
             (case rest of
                [] \<Rightarrow> ipv6_complete (n + 1) ellipsis
              | c # rest' \<Rightarrow>
                  if c = CHR ''.'' then
                    (ellipsis \<or> n = 6) \<and> n + 2 \<le> 8 \<and> parseIPv4 s \<and> ipv6_complete (n + 2) ellipsis
                  else if c \<noteq> CHR '':'' \<or> rest' = [] then False
                  else if hd rest' = CHR '':'' then
                    (if ellipsis then False
                     else if tl rest' = [] then ipv6_complete (n + 1) True
                     else ipv6_groups (tl rest') (n + 1) True)
                  else ipv6_groups rest' (n + 1) ellipsis))"
  by pat_completeness auto

termination
  by (relation "measure (\<lambda>(s, n, _). 8 - n)") auto

declare ipv6_groups.simps [simp del]

definition parseIPv6 :: "string \<Rightarrow> bool" where
  "parseIPv6 s \<longleftrightarrow>
     CHR ''%'' \<notin> set s \<and>
     (if HasPrefix s ''::'' then drop 2 s = [] \<or> ipv6_groups (drop 2 s) 0 True else ipv6_groups s 0 False)"

definition ParseIP :: "string \<Rightarrow> bool" where
  "ParseIP s =
     (case find (\<lambda>c. c = CHR ''.'' \<or> c = CHR '':'' \<or> c = CHR ''%'') s of
        None \<Rightarrow> False
      | Some c \<Rightarrow> if c = CHR ''.'' then parseIPv4 s else if c = CHR '':'' then parseIPv6 s else False)"

lemma ParseIP_examples:
  "ParseIP ''10.0.0.1''" "\<not> ParseIP ''10.0.0.256''" "\<not> ParseIP ''10.0.01.1''" "ParseIP ''2001:db8::1''" "ParseIP ''::''"
  "ParseIP ''::ffff:10.0.0.1''" "\<not> ParseIP ''1:2:3:4:5:6:7''" "\<not> ParseIP ''fe80::1%eth0''" "\<not> ParseIP ''localhost''"
  by code_simp+

section \<open>The client address\<close>

definition validIP :: "string \<Rightarrow> string" where
  "validIP s = (let t = TrimSpace s in if \<not> ParseIP t then [] else t)"

text \<open>The two headers; an absent one is empty.\<close>

definition clientIPFromHeaders :: "string \<Rightarrow> string \<Rightarrow> string" where
  "clientIPFromHeaders xff xRealIP =
     (let ip = (if xff \<noteq> [] then validIP (last (split_char (CHR '','') xff)) else [])
      in if ip \<noteq> [] then ip else validIP xRealIP)"

definition proxyClientIP :: "string \<Rightarrow> string \<Rightarrow> string \<Rightarrow> string" where
  "proxyClientIP xff xRealIP remoteAddr =
     (let ip = clientIPFromHeaders xff xRealIP in if ip \<noteq> [] then ip else remoteAddr)"

text \<open>\<open>net.SplitHostPort\<close>, whose host \<open>ratelimit.clientIP\<close> counts by; an address without a port is taken whole.\<close>

definition before_last_colon :: "string \<Rightarrow> string" where
  "before_last_colon s = rev (tl (dropWhile (\<lambda>c. c \<noteq> CHR '':'') (rev s)))"

definition split_host :: "string \<Rightarrow> string option" where
  "split_host s =
     (if CHR '':'' \<notin> set s then None
      else if hd s = CHR ''['' then
        (let inner = takeWhile (\<lambda>c. c \<noteq> CHR '']'') (tl s); rest = drop (length inner + 2) s
         in if CHR '']'' \<notin> set s then None
            else if before_last_colon s \<noteq> CHR ''['' # inner @ '']'' then None
            else if CHR ''['' \<in> set (tl s) \<or> CHR '']'' \<in> set rest then None
            else Some inner)
      else
        (let host = before_last_colon s
         in if CHR '':'' \<in> set host then None
            else if CHR ''['' \<in> set s \<or> CHR '']'' \<in> set s then None
            else Some host))"

definition clientIP :: "string \<Rightarrow> string" where
  "clientIP remoteAddr = (case split_host remoteAddr of None \<Rightarrow> remoteAddr | Some host \<Rightarrow> host)"

lemma clientIP_examples:
  "clientIP ''10.0.0.7:5123'' = ''10.0.0.7''" "clientIP ''[::1]:80'' = ''::1''" "clientIP ''::1'' = ''::1''"
  "clientIP ''10.0.0.7'' = ''10.0.0.7''"
  by code_simp+

section \<open>Headers, time limit and static files\<close>

definition securityHeaders :: "bool \<Rightarrow> (string \<times> string) list" where
  "securityHeaders production =
     [(''X-Content-Type-Options'', ''nosniff''), (''X-Frame-Options'', ''DENY''), (''Referrer-Policy'', ''no-referrer'')] @
     (if production then [(''Strict-Transport-Security'', ''max-age=31536000'')] else [])"

definition has_time_limit :: "string \<Rightarrow> bool" where
  "has_time_limit path \<longleftrightarrow> \<not> suffix ''/events'' path"

text \<open>A file system is a partial function to files and directories.\<close>

datatype node = File string | Dir

definition noListing_Open :: "(string \<Rightarrow> node option) \<Rightarrow> string \<Rightarrow> node option" where
  "noListing_Open fs name =
     (case fs name of
        None \<Rightarrow> None
      | Some (File content) \<Rightarrow> Some (File content)
      | Some Dir \<Rightarrow>
          (let stem = (if name \<noteq> [] \<and> last name = CHR ''/'' then butlast name else name)
           in case fs (stem @ ''/index.html'') of None \<Rightarrow> None | Some _ \<Rightarrow> Some Dir))"

text \<open>A directory is shown only through its index.\<close>

lemma no_listing:
  assumes "noListing_Open fs name = Some Dir"
  shows "\<exists>stem. fs (stem @ ''/index.html'') \<noteq> None \<and> (name = stem \<or> name = stem @ ''/'')"
proof (cases "name \<noteq> [] \<and> last name = CHR ''/''")
  case True
  then have "name = butlast name @ ''/''" using append_butlast_last_id [of name] by simp
  then show ?thesis
    using assms True by (intro exI [of _ "butlast name"])
      (auto simp: noListing_Open_def Let_def split: option.splits node.splits)
next
  case False
  then show ?thesis
    using assms by (intro exI [of _ name]) (auto simp: noListing_Open_def Let_def split: option.splits node.splits)
qed

section \<open>A client cannot choose its address\<close>

lemma split_char_last:
  assumes "sep \<notin> set b"
  shows "\<exists>ps. ps \<noteq> [] \<and> split_char sep (a @ sep # b) = ps @ [b]"
proof (induction a)
  case Nil
  have "split_char sep b = [b]" using assms by (induction b) auto
  then show ?case by (intro exI [of _ "[[]]"]) simp
next
  case (Cons c a)
  then obtain p ps where "split_char sep (a @ sep # b) = (p # ps) @ [b]" by (metis list.exhaust)
  then show ?case
    by (intro exI [of _ "if c = sep then [] # p # ps else (c # p) # ps"]) simp
qed

text \<open>A parsed address has no colon at all or at least two, so it is never split.\<close>

lemma ipv6_groups_step:
  assumes "ipv6_groups s n e" "n < 8"
  obtains ds where "s = ds" "ipv6_complete (n + 1) e"
  | ds t where "s = ds @ CHR ''.'' # t" "e \<or> n = 6"
  | ds t where "s = ds @ CHR '':'' # CHR '':'' # t" "\<not> e"
  | ds t where "s = ds @ CHR '':'' # t" "takeWhile is_hex s = ds" "ds \<noteq> []" "ipv6_groups t (n + 1) e"
proof -
  let ?ds = "takeWhile is_hex s"
  have s: "s = ?ds @ drop (length ?ds) s" by (metis takeWhile_dropWhile_id dropWhile_eq_drop)
  let ?rest = "drop (length ?ds) s"
  have eq: "if ?ds = [] \<or> 4 < length ?ds then False else (case ?rest of [] \<Rightarrow> ipv6_complete (n + 1) e
      | c # rest' \<Rightarrow> if c = CHR ''.'' then (e \<or> n = 6) \<and> n + 2 \<le> 8 \<and> parseIPv4 s \<and> ipv6_complete (n + 2) e
          else if c \<noteq> CHR '':'' \<or> rest' = [] then False
          else if hd rest' = CHR '':''
          then (if e then False else if tl rest' = [] then ipv6_complete (n + 1) True else ipv6_groups (tl rest') (n + 1) True)
          else ipv6_groups rest' (n + 1) e)"
  proof -
    have "B" if "P" "P = (if 8 \<le> n then A else B)" for P A B using that assms(2) by simp
    from this [OF assms(1) ipv6_groups.simps [of s n e, unfolded Let_def]] show ?thesis .
  qed
  have ds: "?ds \<noteq> []" and run: "case ?rest of [] \<Rightarrow> ipv6_complete (n + 1) e
      | c # rest' \<Rightarrow> if c = CHR ''.'' then (e \<or> n = 6) \<and> n + 2 \<le> 8 \<and> parseIPv4 s \<and> ipv6_complete (n + 2) e
          else if c \<noteq> CHR '':'' \<or> rest' = [] then False
          else if hd rest' = CHR '':''
          then (if e then False else if tl rest' = [] then ipv6_complete (n + 1) True else ipv6_groups (tl rest') (n + 1) True)
          else ipv6_groups rest' (n + 1) e"
    by (metis eq)+
  show ?thesis
  proof (cases "drop (length ?ds) s")
    case Nil
    then show ?thesis using that(1) [of s] run by simp
  next
    case (Cons c t)
    note run' = run [unfolded Cons list.case]
    have sc: "s = ?ds @ c # t" using s Cons by simp
    show ?thesis
    proof (cases "c = CHR ''.''")
      case True
      then show ?thesis using that(2) [of ?ds t] sc run' by simp
    next
      case False
      then have c: "c = CHR '':''" "t \<noteq> []" using run' by (auto split: if_splits)
      show ?thesis
      proof (cases "hd t = CHR '':''")
        case True
        then have "t = CHR '':'' # tl t" "\<not> e" using c run' by (cases t; auto split: if_splits)+
        then show ?thesis using that(3) [of ?ds "tl t"] sc c by metis
      next
        case False
        then show ?thesis using that(4) [of ?ds t] sc c run' ds by simp
      qed
    qed
  qed
qed

lemma ipv6_groups_colons: "ipv6_groups s n False \<Longrightarrow> min 2 (6 - n) \<le> count_list s (CHR '':'')"
proof (induction "8 - n" arbitrary: s n rule: less_induct)
  case less
  show ?case
  proof (cases "n < 8")
    case True
    from less.prems True show ?thesis
    proof (cases rule: ipv6_groups_step)
      case 1
      then have "n = 7" using True by (auto simp: ipv6_complete_def split: if_splits)
      then show ?thesis by simp
    next
      case (4 ds t)
      have "8 - (n + 1) < 8 - n" using True by simp
      from less.hyps [OF this 4(4)] 4(1) show ?thesis by (simp add: count_list_append)
    qed (auto simp: count_list_append)
  qed simp
qed

lemma ipv6_groups_hd:
  assumes "ipv6_groups s 0 e"
  shows "is_hex (hd s)"
proof -
  have "ds \<noteq> []" if "P" "P = (if 8 \<le> (0::nat) then A else if ds = [] \<or> 4 < length ds then False else B)" for P A B and ds :: string
    using that by auto
  from this [OF assms ipv6_groups.simps [of s 0 e, unfolded Let_def]] show ?thesis
    by (cases s) (auto split: if_splits)
qed

lemma two_colons_kept:
  assumes "2 \<le> count_list s (CHR '':'')"
  shows "CHR '':'' \<in> set (before_last_colon s)"
proof -
  let ?t = "dropWhile (\<lambda>c. c \<noteq> CHR '':'') (rev s)"
  have none: "count_list (takeWhile (\<lambda>c. c \<noteq> CHR '':'') (rev s)) (CHR '':'') = 0"
    by (auto simp: count_list_0_iff dest: set_takeWhileD)
  have "count_list (rev s) (CHR '':'') = count_list ?t (CHR '':'')"
    by (metis none add_0 count_list_append takeWhile_dropWhile_id)
  then have "2 \<le> count_list ?t (CHR '':'')" using assms by simp
  then have "1 \<le> count_list (tl ?t) (CHR '':'')" by (cases ?t) (auto split: if_splits)
  then have "CHR '':'' \<in> set (tl ?t)" by (metis count_list_0_iff not_one_le_zero)
  then show ?thesis by (simp add: before_last_colon_def)
qed

lemma split_char_sets: "c \<in> set s \<Longrightarrow> c = sep \<or> (\<exists>p \<in> set (split_char sep s). c \<in> set p)"
  by (induction s) (auto split: list.splits)

lemma ParseIP_unsplit:
  assumes "ParseIP s"
  shows "split_host s = None"
proof (cases "CHR '':'' \<in> set s")
  case True
  have "\<not> parseIPv4 s"
  proof
    assume "parseIPv4 s"
    then have "\<forall>p \<in> set (split_char (CHR ''.'') s). list_all is_digit p"
      by (auto simp: parseIPv4_def Let_def list_all_iff ipv4_octet_def)
    moreover have "\<not> is_digit (CHR '':'')" by code_simp
    ultimately show False using split_char_sets [OF True, of "CHR ''.''"] by (auto simp: list_all_iff)
  qed
  then have v6: "parseIPv6 s" using assms by (auto simp: ParseIP_def split: option.splits if_splits)
  have "2 \<le> count_list s (CHR '':'') \<and> hd s \<noteq> CHR ''[''"
  proof (cases "HasPrefix s ''::''")
    case True
    then have "s = ''::'' @ drop 2 s" by (metis HasPrefix_def append_take_drop_id length_Cons list.size(3) numeral_2_eq_2)
    then obtain t where "s = CHR '':'' # CHR '':'' # t" by simp
    then show ?thesis by simp
  next
    case False
    then have g: "ipv6_groups s 0 False" using v6 by (simp add: parseIPv6_def)
    have "\<not> is_hex (CHR ''['')" by code_simp
    then have "hd s \<noteq> CHR ''[''" using ipv6_groups_hd [OF g] by auto
    moreover have "2 \<le> count_list s (CHR '':'')" using ipv6_groups_colons [OF g] by simp
    ultimately show ?thesis by simp
  qed
  then show ?thesis using True two_colons_kept [of s] by (simp add: split_host_def Let_def)
qed (simp add: split_host_def)

text \<open>
  C26 Whatever a client puts in the forwarding headers, behind the trusted proxy the limits per address
  count it under the address the proxy appended, so a client cannot choose its bucket.
\<close>

theorem forged_headers_ignored:
  assumes "ParseIP (TrimSpace ip)" "CHR '','' \<notin> set ip"
  shows "clientIP (proxyClientIP (forged @ '','' @ ip) realIP peer) = TrimSpace ip \<and>
    clientIP (proxyClientIP ip realIP peer) = TrimSpace ip"
proof -
  have ne: "TrimSpace ip \<noteq> []" using assms(1) by (auto simp: ParseIP_def)
  then have "ip \<noteq> []" using TrimSpace_Nil by auto
  moreover have "split_char (CHR '','') ip = [ip]" using assms(2) by (induction ip) auto
  ultimately have "proxyClientIP (forged @ '','' @ ip) realIP peer = TrimSpace ip \<and> proxyClientIP ip realIP peer = TrimSpace ip"
    using split_char_last [OF assms(2), of forged] ne assms(1)
    by (auto simp: proxyClientIP_def clientIPFromHeaders_def validIP_def Let_def)
  then show ?thesis by (simp add: clientIP_def ParseIP_unsplit [OF assms(1)])
qed

lemma forged_headers_ignored_witness:
  "clientIP (proxyClientIP ''6.6.6.6, 2001:db8::7'' ''1.1.1.1'' ''172.17.0.1:80'') = ''2001:db8::7''"
proof -
  have "ParseIP (TrimSpace '' 2001:db8::7'')" "CHR '','' \<notin> set '' 2001:db8::7''" "TrimSpace '' 2001:db8::7'' = ''2001:db8::7''"
    by code_simp+
  then show ?thesis
    using forged_headers_ignored [of "'' 2001:db8::7''" "''6.6.6.6''" "''1.1.1.1''" "''172.17.0.1:80''"] by simp
qed

end
