(* ===== verification/Sms.thy ===== *)
theory Sms
  imports Phone Float64 Slots
begin

text \<open>
  \<open>internal/platform/sms\<close>: the text of a one-time code, the choice of the provider and the Payom.tj
  client. The HTTP exchange is a parameter: what comes back for a request to a URL with a token.
\<close>

section \<open>The message\<close>

definition OTPMessage :: "string \<Rightarrow> duration \<Rightarrow> string" where
  "OTPMessage code ttl =
     utf8 [81, 87, 97, 115, 104, 58, 32, 208, 186, 208, 190, 208, 180, 32, 208, 191, 208, 190, 208, 180, 209, 130, 208, 178,
       208, 181, 209, 128, 208, 182, 208, 180, 208, 181, 208, 189, 208, 184, 209, 143, 32] @ code @
     utf8 [46, 32, 208, 148, 208, 181, 208, 185, 209, 129, 209, 130, 208, 178, 209, 131, 208, 181, 209, 130, 32] @
     Itoa (truncate_float (Minutes ttl)) @ utf8 [32, 208, 188, 208, 184, 208, 189, 46]"

section \<open>Payom\<close>

record PayomConfig =
  py_BaseURL :: string
  py_Token :: string
  py_SenderName :: string
  py_OTPTemplateID :: string

datatype sms_error =
    PayomIncomplete | SenderNameInvalid | UnknownProvider string
  | NotTajik | BuildFailed | RequestFailed | Rejected string

definition payomPhoneRegexp :: "string \<Rightarrow> bool" where
  "payomPhoneRegexp s \<longleftrightarrow> take 4 s = ''+992'' \<and> length s = 13 \<and> list_all is_digit (drop 4 s)"

definition is_sender_char :: "char \<Rightarrow> bool" where
  "is_sender_char c \<longleftrightarrow> is_digit c \<or> c = CHR ''.'' \<or>
     (65 \<le> (of_char c :: nat) \<and> (of_char c :: nat) \<le> 90) \<or> (97 \<le> (of_char c :: nat) \<and> (of_char c :: nat) \<le> 122)"

definition payomSenderRegexp :: "string \<Rightarrow> bool" where
  "payomSenderRegexp s \<longleftrightarrow> 1 \<le> length s \<and> length s \<le> 11 \<and> list_all is_sender_char s"

definition TrimRight_slashes :: "string \<Rightarrow> string" where
  "TrimRight_slashes s = rev (dropWhile (\<lambda>c. c = CHR ''/'') (rev s))"

definition has_scheme :: "string \<Rightarrow> bool" where
  "has_scheme s \<longleftrightarrow> list_ex (\<lambda>i. HasPrefix (drop i s) ''://'') [0..<Suc (length s)]"

record PayomSender =
  ps_cfg :: PayomConfig
  ps_url :: string

definition NewPayomSender :: "PayomConfig \<Rightarrow> sms_error + PayomSender" where
  "NewPayomSender cfg =
     (let base = TrimRight_slashes (TrimSpace (py_BaseURL cfg))
      in if base = [] \<or> py_Token cfg = [] then Inl PayomIncomplete
         else if \<not> payomSenderRegexp (py_SenderName cfg) then Inl SenderNameInvalid
         else
           let base' = (if \<not> has_scheme base then ''https://'' @ base else base)
           in Inr \<lparr>ps_cfg = cfg, ps_url = base' @ ''/api/message''\<rparr>)"

text \<open>An empty text is left out of the body; a template carries its identifier and the code.\<close>

record payomRequest =
  prq_Telephone :: string
  prq_SenderName :: string
  prq_Type :: string
  prq_Text :: string
  prq_Template :: "(string \<times> string) option"

text \<open>
  What comes of a request: the URL does not parse, no answer, or a status with the fields \<open>detail\<close> and
  \<open>message\<close> of the body when it is JSON.
\<close>

datatype exchange = BadURL | NoAnswer | Answer int "(string \<times> string) option"

definition payomErrorDetail :: "int \<Rightarrow> (string \<times> string) option \<Rightarrow> string" where
  "payomErrorDetail status body =
     (let detail = (case body of None \<Rightarrow> [] | Some (d, m) \<Rightarrow> if d = [] then m else d)
      in if detail = [] then ''HTTP '' @ Itoa status else ''HTTP '' @ Itoa status @ '': '' @ detail)"

definition payom_request :: "PayomConfig \<Rightarrow> string \<Rightarrow> string \<Rightarrow> duration \<Rightarrow> payomRequest" where
  "payom_request cfg phone code ttl =
     \<lparr>prq_Telephone = phone, prq_SenderName = py_SenderName cfg, prq_Type = ''SMS'',
      prq_Text = (if py_OTPTemplateID cfg \<noteq> [] then [] else OTPMessage code ttl),
      prq_Template = (if py_OTPTemplateID cfg \<noteq> [] then Some (py_OTPTemplateID cfg, code) else None)\<rparr>"

definition Payom_SendOTP ::
  "(string \<Rightarrow> string \<Rightarrow> payomRequest \<Rightarrow> exchange) \<Rightarrow> PayomSender \<Rightarrow> string \<Rightarrow> string \<Rightarrow> duration \<Rightarrow> sms_error + unit" where
  "Payom_SendOTP http p phone code ttl =
     (if \<not> payomPhoneRegexp phone then Inl NotTajik
      else
        (case http (ps_url p) (py_Token (ps_cfg p)) (payom_request (ps_cfg p) phone code ttl) of
           BadURL \<Rightarrow> Inl BuildFailed
         | NoAnswer \<Rightarrow> Inl RequestFailed
         | Answer status body \<Rightarrow> if status = 201 then Inr () else Inl (Rejected (payomErrorDetail status body))))"

section \<open>The provider\<close>

text \<open>The stub only logs.\<close>

datatype otp_sender = Payom PayomSender | Stub

definition NewOTPSender :: "string \<Rightarrow> PayomConfig \<Rightarrow> sms_error + otp_sender" where
  "NewOTPSender provider cfg =
     (if provider = ''payom'' then (case NewPayomSender cfg of Inl e \<Rightarrow> Inl e | Inr p \<Rightarrow> Inr (Payom p))
      else if provider = [] \<or> provider = ''stub'' then Inr Stub
      else Inl (UnknownProvider provider))"

definition SendOTP ::
  "(string \<Rightarrow> string \<Rightarrow> payomRequest \<Rightarrow> exchange) \<Rightarrow> otp_sender \<Rightarrow> string \<Rightarrow> string \<Rightarrow> duration \<Rightarrow> sms_error + unit" where
  "SendOTP http s phone code ttl = (case s of Payom p \<Rightarrow> Payom_SendOTP http p phone code ttl | Stub \<Rightarrow> Inr ())"

section \<open>What is delivered\<close>

lemma rune_count_append: "rune_count (s @ t) = rune_count s + rune_count t"
  by (simp add: rune_count_def)

lemma digits_length: "n < 10 ^ Suc k \<Longrightarrow> length (digits n) \<le> Suc k"
proof (induction k arbitrary: n)
  case (Suc k)
  have "n div 10 < 10 ^ Suc k" using Suc.prems by (simp add: div_less_iff_less_mult mult.commute)
  from Suc.IH [OF this] show ?case by (subst digits.simps) simp
qed (simp add: digits.simps)

text \<open>
  The text of a six-digit code fits one 70-character SMS for every lifetime up to a hundred days.
\<close>

theorem otp_text_one_segment:
  assumes "length code = 6" "0 \<le> ttl" "ttl \<le> 100 * Day"
  shows "rune_count (OTPMessage code ttl) \<le> 70"
proof -
  have "ttl div Minute \<le> 100 * Day div Minute" using assms(3) by (intro zdiv_mono1) (simp_all add: duration_defs)
  then have "0 \<le> ttl div Minute" "ttl div Minute < 10 ^ Suc 5"
    using assms(2) by (simp_all add: duration_defs pos_imp_zdiv_nonneg_iff)
  then have "length (Itoa (ttl div Minute)) \<le> 6"
    using digits_length [of "nat (ttl div Minute)" 5] by (simp add: Itoa_def)
  moreover have "rune_count code \<le> 6" using rune_count_length [of code] assms(1) by simp
  moreover have "rune_count (utf8 [81, 87, 97, 115, 104, 58, 32, 208, 186, 208, 190, 208, 180, 32, 208, 191, 208, 190, 208,
      180, 209, 130, 208, 178, 208, 181, 209, 128, 208, 182, 208, 180, 208, 181, 208, 189, 208, 184, 209, 143, 32]) = 25"
    "rune_count (utf8 [46, 32, 208, 148, 208, 181, 208, 185, 209, 129, 209, 130, 208, 178, 209, 131, 208, 181, 209, 130, 32]) = 12"
    "rune_count (utf8 [32, 208, 188, 208, 184, 208, 189, 46]) = 5" by code_simp+
  ultimately show ?thesis
    using rune_count_length [of "Itoa (ttl div Minute)"]
    by (simp only: OTPMessage_def rune_count_append truncated_Minutes [OF assms(2,3)])
qed

lemma otp_text_one_segment_witness: "rune_count (OTPMessage ''123456'' (5 * Minute)) \<le> 70"
  using otp_text_one_segment [of "''123456''" "5 * Minute"] by (simp add: duration_defs)

text \<open>
  A code reported as sent by Payom was accepted by it: the number is Tajik, and Payom answered 201 to
  the one request that carries the code, in the text or as the template's variable, never both.
\<close>

theorem payom_success:
  assumes "NewOTPSender ''payom'' cfg = Inr s" "SendOTP http s phone code ttl = Inr ()"
  shows "\<exists>url body. suffix ''/api/message'' url \<and>
      payomPhoneRegexp phone \<and> http url (py_Token cfg) (payom_request cfg phone code ttl) = Answer 201 body \<and>
      (prq_Template (payom_request cfg phone code ttl) = None \<longleftrightarrow> py_OTPTemplateID cfg = []) \<and>
      (prq_Text (payom_request cfg phone code ttl) = [] \<longleftrightarrow> py_OTPTemplateID cfg \<noteq> [])"
proof -
  have nonempty: "OTPMessage code ttl \<noteq> []" by (simp add: OTPMessage_def utf8_def)
  obtain p where p: "NewPayomSender cfg = Inr p" "s = Payom p"
    using assms(1) by (auto simp: NewOTPSender_def split: sum.splits)
  then have url: "ps_cfg p = cfg" "suffix ''/api/message'' (ps_url p)"
    by (auto simp: NewPayomSender_def Let_def suffix_def split: if_splits)
  obtain body where "payomPhoneRegexp phone"
    "http (ps_url p) (py_Token cfg) (payom_request cfg phone code ttl) = Answer 201 body"
    using assms(2) by (auto simp: SendOTP_def Payom_SendOTP_def p url split: if_splits exchange.splits)
  then show ?thesis using url(2) nonempty by (auto simp: payom_request_def)
qed

definition demo_payom :: PayomConfig where
  "demo_payom = \<lparr>py_BaseURL = '' api.payom.tj/ '', py_Token = ''t'', py_SenderName = ''QWash'', py_OTPTemplateID = []\<rparr>"

lemma payom_success_witness:
  "\<exists>url body. suffix ''/api/message'' url \<and>
     (\<lambda>url token req. if prq_Telephone req = ''+992900000001'' then Answer 201 None else NoAnswer)
       url ''t'' (payom_request demo_payom ''+992900000001'' ''123456'' 0) = Answer 201 body"
proof -
  let ?http = "\<lambda>url token req. if prq_Telephone req = ''+992900000001'' then Answer 201 None else NoAnswer"
  have "(case NewOTPSender ''payom'' demo_payom of Inl _ \<Rightarrow> False | Inr s \<Rightarrow> True)" by code_simp
  then obtain s where s: "NewOTPSender ''payom'' demo_payom = Inr s" by (auto split: sum.splits)
  moreover have "(case NewOTPSender ''payom'' demo_payom of Inl _ \<Rightarrow> False
      | Inr s \<Rightarrow> SendOTP ?http s ''+992900000001'' ''123456'' 0 = Inr ())"
  proof -
    have "payomPhoneRegexp ''+992900000001''" by code_simp
    then show ?thesis using s by (auto simp: NewOTPSender_def SendOTP_def Payom_SendOTP_def payom_request_def split: sum.splits)
  qed
  ultimately have "SendOTP ?http s ''+992900000001'' ''123456'' 0 = Inr ()" by simp
  from payom_success [OF s this] show ?thesis by (auto simp: demo_payom_def)
qed

text \<open>
  The login accepts every E.164 number; with Payom a code for one outside Tajikistan is never sent, and
  a lifetime below a minute is announced as zero minutes.
\<close>

lemma foreign_number_never_served:
  "ValidatePhoneNumber ''+15551234567'' = Inr ()" "Payom_SendOTP http p ''+15551234567'' code ttl = Inl NotTajik"
  by (code_simp, simp add: Payom_SendOTP_def payomPhoneRegexp_def)

lemma short_lifetime_shown_as_zero: "truncate_float (Minutes (59 * Second)) = 0"
  by (subst truncated_Minutes) (simp_all add: duration_defs)

end
