(* ===== verification/Routes.thy ===== *)
theory Routes
  imports Edge Config
begin

text \<open>
  Who may call what: the routes every handler registers (\<open>RegisterRoutes\<close>) with the middlewares
  \<open>internal/app/app.go\<close> hands them, and how a request passes a chain of middlewares. Matching a path to
  a route belongs to the router library; a route is given by its method and pattern.
\<close>

section \<open>Middleware chains\<close>

datatype http_method = GET | POST | PATCH | DELETE | PUT

datatype limiter_name = LoginLimit | OTPRequestLimit | OTPVerifyLimit | ApplyLimit | ScanLimit

datatype guard = Limited limiter_name | Authenticated | InRole "string list"

record route =
  ro_Method :: http_method
  ro_Path :: string
  ro_Guards :: "guard list"

type_synonym limiters = "limiter_name \<Rightarrow> Limiter option"

text \<open>The limiters of one process; those of the configuration may be off, the one of the public form is not.\<close>

definition app_limiters :: "RateLimitConfig \<Rightarrow> limiters" where
  "app_limiters rl l =
     (case l of
        LoginLimit \<Rightarrow> PerIP (rl_LoginPerMinute rl) Minute
      | OTPRequestLimit \<Rightarrow> PerIP (rl_OTPRequestPerHour rl) Hour
      | OTPVerifyLimit \<Rightarrow> PerIP (rl_OTPVerifyPerHour rl) Hour
      | ApplyLimit \<Rightarrow> Some (New 10 Hour)
      | ScanLimit \<Rightarrow> PerIP (rl_QRScanPerMinute rl) Minute)"

record request =
  req_Now :: time
  req_RemoteAddr :: string
  req_Authorization :: string

fun run_guards ::
  "(string \<Rightarrow> uuid option) \<Rightarrow> (string \<Rightarrow> claims option) \<Rightarrow> request \<Rightarrow> guard list \<Rightarrow> AuthUser option \<times> limiters \<Rightarrow>
     (apperror + AuthUser option) \<times> limiters" where
  "run_guards uuid_parse jwt_parse rq [] (ctx, ls) = (Inr ctx, ls)"
| "run_guards uuid_parse jwt_parse rq (Limited l # gs) (ctx, ls) =
     (case ls l of
        None \<Rightarrow> run_guards uuid_parse jwt_parse rq gs (ctx, ls)
      | Some lm \<Rightarrow>
          (case Middleware (req_Now rq) (clientIP (req_RemoteAddr rq)) lm of
             (Inl (e, _), lm') \<Rightarrow> (Inl e, ls(l := Some lm'))
           | (Inr _, lm') \<Rightarrow> run_guards uuid_parse jwt_parse rq gs (ctx, ls(l := Some lm'))))"
| "run_guards uuid_parse jwt_parse rq (Authenticated # gs) (ctx, ls) =
     (case RequireAuth uuid_parse jwt_parse (req_Authorization rq) of
        Inl e \<Rightarrow> (Inl e, ls)
      | Inr u \<Rightarrow> run_guards uuid_parse jwt_parse rq gs (Some u, ls))"
| "run_guards uuid_parse jwt_parse rq (InRole roles # gs) (ctx, ls) =
     (case AuthUserFrom ctx of
        Inl e \<Rightarrow> (Inl e, ls)
      | Inr u \<Rightarrow>
          (case RequireRole roles u of
             Inl e \<Rightarrow> (Inl e, ls)
           | Inr _ \<Rightarrow> run_guards uuid_parse jwt_parse rq gs (ctx, ls)))"

definition requireAuth :: guard where "requireAuth = Authenticated"
definition requireStaff :: "guard list" where "requireStaff = [Authenticated, InRole [RoleStaff, RoleAdmin]]"
definition requireQueueOps :: "guard list" where "requireQueueOps = [Authenticated, InRole [RoleStaff, RoleWorker, RoleAdmin]]"
definition requireAdmin :: "guard list" where "requireAdmin = [Authenticated, InRole [RoleAdmin]]"

section \<open>The routes of each handler\<close>

text \<open>\<open>r.Route(base, ...)\<close>: the pattern of the group before that of each entry, \<open>"/"\<close> being the group itself.\<close>

definition under :: "string \<Rightarrow> (guard list \<times> http_method \<times> string) list \<Rightarrow> route list" where
  "under base entries =
     map (\<lambda>(gs, m, p). \<lparr>ro_Method = m, ro_Path = base @ (if p = ''/'' then [] else p), ro_Guards = gs\<rparr>) entries"

definition auth_public_routes :: "route list" where
  "auth_public_routes = under ''/auth''
     [([Limited OTPRequestLimit], POST, ''/otp/request''), ([Limited OTPVerifyLimit], POST, ''/otp/verify''),
      ([Limited LoginLimit], POST, ''/login''), ([], POST, ''/refresh'')]"

definition wp_routes :: "guard list \<Rightarrow> route list" where
  "wp_routes requireManage = under ''/washing-points''
     [([], GET, ''/''), ([], GET, ''/{id}''), (requireManage, POST, ''/''), (requireManage, PATCH, ''/{id}''),
      (requireManage, DELETE, ''/{id}''), (requireManage, GET, ''/{id}/credentials''),
      (requireManage, POST, ''/{id}/credentials/{role}''), (requireManage, POST, ''/{id}/credentials/{role}/reset'')]"

definition service_routes :: "guard list \<Rightarrow> route list" where
  "service_routes requireManage =
     under ''/washing-points/{washingPointID}/services'' [([], GET, ''/''), (requireManage, POST, ''/'')] @
     under ''/services/{id}'' [([], GET, ''/''), (requireManage, PATCH, ''/''), (requireManage, DELETE, ''/''),
       (requireManage, POST, ''/price-options'')] @
     under ''/price-options/{id}'' [(requireManage, PATCH, ''/''), (requireManage, DELETE, ''/'')]"

definition queue_routes :: "guard \<Rightarrow> guard list \<Rightarrow> guard list \<Rightarrow> route list" where
  "queue_routes auth staff queueOps =
     under ''/washing-points/{id}/availability'' [([], GET, ''/'')] @
     under ''/washing-points/{id}/queue'' [(queueOps, GET, ''/''), (queueOps, GET, ''/day''),
       (queueOps, POST, ''/manual''), (queueOps, GET, ''/overflow-slots'')] @
     under ''/washing-points/{id}/boxes/live'' [(queueOps, GET, ''/'')] @
     under ''/washing-points/{id}/board'' [(staff, GET, ''/''), (staff, GET, ''/events'')] @
     under ''/washing-points/{id}/reports'' [(staff, GET, ''/'')] @
     under ''/queue'' [(staff, GET, ''/''), ([auth], POST, ''/''), ([auth], GET, ''/{id}''), ([auth], GET, ''/{id}/events''),
       ([auth], PATCH, ''/{id}/cancel''), (queueOps, PATCH, ''/{id}/status''), (queueOps, PATCH, ''/{id}/pause''),
       (queueOps, PATCH, ''/{id}/resume'')] @
     under ''/me/queue'' [([auth], GET, ''/'')]"

definition notification_routes :: "guard \<Rightarrow> guard list \<Rightarrow> route list" where
  "notification_routes auth staff =
     under ''/notifications'' [(staff, POST, ''/'')] @ under ''/me/notifications'' [([auth], GET, ''/'')]"

definition owner_routes :: "guard list \<Rightarrow> route list" where
  "owner_routes admin = under ''/owners''
     [(admin, GET, ''/''), (admin, GET, ''/{id}''), (admin, POST, ''/''), (admin, PATCH, ''/{id}'')]"

definition request_routes :: "guard \<Rightarrow> guard list \<Rightarrow> route list" where
  "request_routes publicLimit admin = under ''/connection-requests''
     [([publicLimit], POST, ''/apply''), (admin, GET, ''/''), (admin, GET, ''/{id}''), (admin, POST, ''/''),
      (admin, PATCH, ''/{id}'')]"

definition admin_routes :: "guard list \<Rightarrow> route list" where
  "admin_routes admin = under ''/admin'' [(admin, GET, ''/washing-points''), (admin, GET, ''/stats'')]"

definition photo_routes :: "guard list \<Rightarrow> route list" where
  "photo_routes requireManage = under ''/washing-points/{id}/photos''
     [([], GET, ''/''), (requireManage, POST, ''/''), (requireManage, PATCH, ''/{photoId}''),
      (requireManage, DELETE, ''/{photoId}'')]"

definition bphoto_routes :: "guard list \<Rightarrow> route list" where
  "bphoto_routes queueOps = under ''/queue/{id}/photos''
     [(queueOps, GET, ''/''), (queueOps, POST, ''/''), (queueOps, DELETE, ''/{photoId}'')]"

definition schedule_routes :: "guard list \<Rightarrow> route list" where
  "schedule_routes requireManage = under ''/washing-points/{id}/schedule'' [([], GET, ''/''), (requireManage, PUT, ''/'')]"

definition box_routes :: "guard list \<Rightarrow> route list" where
  "box_routes requireManage = under ''/washing-points/{id}/boxes''
     [([], GET, ''/''), (requireManage, POST, ''/''), (requireManage, PATCH, ''/{boxId}''), (requireManage, DELETE, ''/{boxId}'')]"

definition qr_routes :: "guard list \<Rightarrow> guard list \<Rightarrow> guard \<Rightarrow> route list" where
  "qr_routes admin staff scanLimit = under ''/qr-codes''
     [(staff, GET, ''/mine''), (staff, POST, ''/mine/request-replacement''), ([scanLimit], GET, ''/scan/{token}''),
      (admin, POST, ''/generate''), (admin, GET, ''/''), (admin, GET, ''/{id}''), (admin, POST, ''/{id}/assign''),
      (admin, POST, ''/{id}/unassign''), (admin, POST, ''/{id}/disable'')]"

definition short_link_routes :: "guard \<Rightarrow> route list" where
  "short_link_routes scanLimit = [\<lparr>ro_Method = GET, ro_Path = ''/q/{token}'', ro_Guards = [scanLimit]\<rparr>]"

definition auth_own_routes :: "route list" where
  "auth_own_routes = under [] [([], POST, ''/auth/logout''), ([], PATCH, ''/auth/password'')]"

definition user_routes :: "route list" where
  "user_routes = under [] [([], GET, ''/me''), ([], PATCH, ''/me'')]"

definition car_routes :: "route list" where
  "car_routes = under ''/me/cars'' [([], GET, ''/''), ([], POST, ''/'')] @
     under ''/cars/{id}'' [([], PATCH, ''/''), ([], DELETE, ''/'')]"

definition device_routes :: "route list" where
  "device_routes = under ''/me/devices'' [([], PUT, ''/''), ([], DELETE, ''/{token}'')]"

text \<open>A group that puts a middleware before every route in it.\<close>

definition protected :: "guard \<Rightarrow> route list \<Rightarrow> route list" where
  "protected g rs = map (\<lambda>r. r\<lparr>ro_Guards := g # ro_Guards r\<rparr>) rs"

definition mounted :: "string \<Rightarrow> route list \<Rightarrow> route list" where
  "mounted base rs = map (\<lambda>r. r\<lparr>ro_Path := base @ ro_Path r\<rparr>) rs"

definition app_routes :: "route list" where
  "app_routes = mounted ''/api/v1''
     (auth_public_routes @ wp_routes requireStaff @ service_routes requireStaff @
      queue_routes requireAuth requireStaff requireQueueOps @ notification_routes requireAuth requireStaff @
      owner_routes requireAdmin @ request_routes (Limited ApplyLimit) requireAdmin @ admin_routes requireAdmin @
      photo_routes requireStaff @ bphoto_routes requireQueueOps @ schedule_routes requireStaff @ box_routes requireStaff @
      qr_routes requireAdmin requireStaff (Limited ScanLimit) @
      protected requireAuth (auth_own_routes @ user_routes @ car_routes @ device_routes)) @
     short_link_routes (Limited ScanLimit)"

definition serve ::
  "(string \<Rightarrow> uuid option) \<Rightarrow> (string \<Rightarrow> claims option) \<Rightarrow> request \<Rightarrow> route \<Rightarrow> limiters \<Rightarrow> (apperror + AuthUser option) \<times> limiters" where
  "serve uuid_parse jwt_parse rq r ls = run_guards uuid_parse jwt_parse rq (ro_Guards r) (None, ls)"

text \<open>The methods a browser of another origin may use (\<open>httpserver.NewRouter\<close>).\<close>

definition cors_methods :: "http_method list" where
  "cors_methods = [GET, POST, PATCH, DELETE]"

section \<open>The public surface\<close>

text \<open>The middlewares that look at the caller; the limiters only ever turn a request away.\<close>

definition checks :: "guard list \<Rightarrow> guard list" where
  "checks gs = filter (\<lambda>g. case g of Limited l \<Rightarrow> False | _ \<Rightarrow> True) gs"

lemma checks_simps [simp]:
  "checks [] = []" "checks (Limited l # gs) = checks gs" "checks (Authenticated # gs) = Authenticated # checks gs"
  "checks (InRole roles # gs) = InRole roles # checks gs"
  by (simp_all add: checks_def)

lemma run_checks:
  "run_guards uuid_parse jwt_parse rq gs (ctx, ls) = (Inr ctx', ls') \<Longrightarrow>
   run_guards uuid_parse jwt_parse rq (checks gs) (ctx, ls2) = (Inr ctx', ls2)"
proof (induction gs arbitrary: ctx ls)
  case (Cons g gs)
  then show ?case
    by (cases g) (auto split: option.splits prod.splits sum.splits)
qed simp

lemma run_unlimited:
  "run_guards uuid_parse jwt_parse rq gs (ctx, \<lambda>_. None) = run_guards uuid_parse jwt_parse rq (checks gs) (ctx, \<lambda>_. None)"
proof (induction gs arbitrary: ctx)
  case (Cons g gs)
  then show ?case by (cases g) (simp_all split: option.split sum.split)
qed simp

definition at_path :: "string list \<Rightarrow> route \<Rightarrow> bool" where
  "at_path ps r \<longleftrightarrow> list_ex (\<lambda>p. HasPrefix (ro_Path r) (''/api/v1'' @ p)) ps"

text \<open>
  The policy: what the program is meant to leave open, what any customer may use, and whose the rest is.
  Everything not named here belongs to the staff of the points, so a route that is forgotten is not open.
\<close>

datatype audience = Everyone | AnyUser | Roles "string list"

definition open_routes :: "(http_method \<times> string) list" where
  "open_routes =
     [(POST, ''/api/v1/auth/otp/request''), (POST, ''/api/v1/auth/otp/verify''), (POST, ''/api/v1/auth/login''),
      (POST, ''/api/v1/auth/refresh''), (POST, ''/api/v1/connection-requests/apply''),
      (GET, ''/api/v1/washing-points''), (GET, ''/api/v1/washing-points/{id}''),
      (GET, ''/api/v1/washing-points/{washingPointID}/services''), (GET, ''/api/v1/services/{id}''),
      (GET, ''/api/v1/washing-points/{id}/availability''), (GET, ''/api/v1/washing-points/{id}/photos''),
      (GET, ''/api/v1/washing-points/{id}/schedule''), (GET, ''/api/v1/washing-points/{id}/boxes''),
      (GET, ''/api/v1/qr-codes/scan/{token}''), (GET, ''/q/{token}'')]"

definition own_area :: "route \<Rightarrow> bool" where
  "own_area r \<longleftrightarrow> at_path [''/auth'', ''/me'', ''/cars''] r \<or>
     (ro_Method r, ro_Path r) \<in> {(POST, ''/api/v1/queue''), (GET, ''/api/v1/queue/{id}''),
       (GET, ''/api/v1/queue/{id}/events''), (PATCH, ''/api/v1/queue/{id}/cancel'')}"

definition admin_area :: "route \<Rightarrow> bool" where
  "admin_area r \<longleftrightarrow> at_path [''/owners'', ''/admin'', ''/connection-requests'', ''/qr-codes''] r \<and>
     \<not> at_path [''/qr-codes/mine''] r"

definition live_queue :: "route \<Rightarrow> bool" where
  "live_queue r \<longleftrightarrow> at_path [''/washing-points/{id}/queue'', ''/washing-points/{id}/boxes/live'', ''/queue/{id}/photos'',
     ''/queue/{id}/status'', ''/queue/{id}/pause'', ''/queue/{id}/resume''] r"

definition audience :: "route \<Rightarrow> audience" where
  "audience r =
     (if (ro_Method r, ro_Path r) \<in> set open_routes then Everyone
      else if own_area r then AnyUser
      else if admin_area r then Roles [RoleAdmin]
      else if live_queue r then Roles [RoleStaff, RoleWorker, RoleAdmin]
      else Roles [RoleStaff, RoleAdmin])"

definition needed :: "audience \<Rightarrow> guard list" where
  "needed a = (case a of Everyone \<Rightarrow> [] | AnyUser \<Rightarrow> [Authenticated] | Roles rs \<Rightarrow> [Authenticated, InRole rs])"

lemma routes_guarded: "list_all (\<lambda>r. checks (ro_Guards r) = needed (audience r)) app_routes"
  by code_simp

text \<open>What the answer of \<open>RequireAuth\<close> must be for a caller to belong to an audience, as whom it then acts.\<close>

definition belongs :: "audience \<Rightarrow> apperror + AuthUser \<Rightarrow> AuthUser option \<Rightarrow> bool" where
  "belongs a auth ctx \<longleftrightarrow>
     (case a of
        Everyone \<Rightarrow> ctx = None
      | AnyUser \<Rightarrow> (\<exists>u. auth = Inr u \<and> ctx = Some u)
      | Roles rs \<Rightarrow> (\<exists>u. auth = Inr u \<and> ctx = Some u \<and> au_role u \<in> set rs))"

lemma run_needed:
  "run_guards uuid_parse jwt_parse rq (needed a) (None, ls) = (Inr ctx, ls') \<longleftrightarrow>
     belongs a (RequireAuth uuid_parse jwt_parse (req_Authorization rq)) ctx \<and> ls' = ls"
  by (auto simp: needed_def belongs_def AuthUserFrom_def RequireRole_def split: audience.splits sum.splits if_splits)


definition owners_route :: route where
  "owners_route = \<lparr>ro_Method = GET, ro_Path = ''/api/v1/owners'', ro_Guards = requireAdmin\<rparr>"


text \<open>
  Two routes use PUT, the weekly hours and the device registration, but PUT is not among the methods a
  browser of another origin is allowed.
\<close>

lemma put_routes_blocked_by_cors:
  "map ro_Path (filter (\<lambda>r. ro_Method r \<notin> set cors_methods) app_routes) =
     [''/api/v1/washing-points/{id}/schedule'', ''/api/v1/me/devices'']"
  by code_simp

end
