(* ===== verification/ForeignBookings.thy ===== *)
theory ForeignBookings
  imports BookingPhotos Streams Routes
begin

text \<open>
  What a booking's identifier tells a caller it does not belong to, over the handlers of
  \<open>internal/queue\<close> and \<open>internal/bookingphoto\<close>: the endpoints under \<open>/queue/{id}\<close>.
\<close>

section \<open>The endpoints\<close>

text \<open>These are all the routes that take the identifier of a booking in their path.\<close>

lemma booking_routes:
  "map (\<lambda>r. (ro_Method r, drop (length ''/api/v1/queue/{id}'') (ro_Path r))) (filter (at_path [''/queue/{id}'']) app_routes) =
     [(GET, []), (GET, ''/events''), (PATCH, ''/cancel''), (PATCH, ''/status''), (PATCH, ''/pause''), (PATCH, ''/resume''),
      (GET, ''/photos''), (POST, ''/photos''), (DELETE, ''/photos/{photoId}'')]"
  by code_simp

text \<open>The guard of the booking photos, an inlined form of the one of \<open>Endpoints\<close>.\<close>

lemma findOwnedBooking_hidden:
  assumes "w_faults w = []" "uuid_parse rawID = Some qid"
    and "\<And>q. booking qid w = Some q \<Longrightarrow> \<not> OwnsWashingPoint u (q_WashingPointID q)"
  shows "findOwnedBooking uuid_parse u rawID w = (Inl (NotFound ''queue_not_found''), w)"
proof -
  have "findOwnedBooking uuid_parse u rawID w =
      guarded (QueueRepo_FindByID qid) (\<lambda>q. OwnsWashingPoint u (q_WashingPointID q)) (NotFound ''queue_not_found'') return_ok w"
    using assms(2) by (simp add: findOwnedBooking_def guarded_def ParseUUIDParam_def)
  then show ?thesis
    using assms(3) by (simp only:) (rule bg.foreign_like_missing [OF assms(1)], auto simp: full_booking_def)
qed

section \<open>A foreign booking looks like a missing one\<close>

text \<open>
  C17 A booking of somebody else is hidden on every endpoint that takes its identifier in the path: a
  caller who is neither its customer nor staff of its point is answered exactly as if it did not exist,
  with 404, and nothing changes, whether it reads, streams or cancels it, moves, pauses or resumes it, or
  lists, adds or deletes its photos. Moving, pausing, resuming and the photos are for the staff of its
  point only: its own customer is answered the same 404. Notifications, which name a booking in the
  body of the request, do tell a foreign booking from a missing one (\<open>foreign_booking_told_apart\<close>).
\<close>

theorem foreign_booking_hidden:
  assumes "w_faults w = []" "uuid_parse rawID = Some qid"
    and "\<And>q. booking qid w = Some q \<Longrightarrow> \<not> OwnsWashingPoint u (q_WashingPointID q)"
  shows "((\<forall>q. booking qid w = Some q \<longrightarrow> q_UserID q \<noteq> au_id u) \<longrightarrow>
      queue_get uuid_parse (Some u) rawID w = (Inl (NotFound ''queue_not_found''), w) \<and>
      queue_events uuid_parse (Some u) rawID flusher ok es w = (Inl (NotFound ''queue_not_found''), w) \<and>
      queue_cancel uuid_parse (Some u) rawID w = (Inl (NotFound ''queue_not_found''), w)) \<and>
    queue_pause uuid_parse (Some u) rawID w = (Inl (NotFound ''queue_not_found''), w) \<and>
    queue_resume uuid_parse (Some u) rawID w = (Inl (NotFound ''queue_not_found''), w) \<and>
    queue_updateStatus notifier uuid_parse (Some u) rawID body w = (Inl (NotFound ''queue_not_found''), w) \<and>
    bphoto_list uuid_parse (Some u) rawID w = (Inl (NotFound ''queue_not_found''), w) \<and>
    bphoto_upload st uuid_parse (Some u) rawID form w = (Inl (NotFound ''queue_not_found''), w) \<and>
    bphoto_delete uuid_parse (Some u) rawID rawPhotoID w = (Inl (NotFound ''queue_not_found''), w)"
proof -
  have pre: "bindE (lift_result (AuthUserFrom (Some u))) (\<lambda>au. bindE (lift_result (ParseUUIDParam uuid_parse rawID)) (f au)) w
      = f u qid w" for f :: "AuthUser \<Rightarrow> uuid \<Rightarrow> 'b db"
    using assms(2) by (simp add: AuthUserFrom_def ParseUUIDParam_def)
  have "queue_get uuid_parse (Some u) rawID w = (Inl (NotFound ''queue_not_found''), w) \<and>
      queue_events uuid_parse (Some u) rawID flusher ok es w = (Inl (NotFound ''queue_not_found''), w) \<and>
      queue_cancel uuid_parse (Some u) rawID w = (Inl (NotFound ''queue_not_found''), w)"
    if "\<forall>q. booking qid w = Some q \<longrightarrow> q_UserID q \<noteq> au_id u"
    unfolding queue_get_def queue_events_def queue_cancel_def pre
    using assms(3) that
    by (intro conjI bg.foreign_like_missing [OF assms(1)]) (auto simp: full_booking_def sees_booking_def)
  moreover have "queue_pause uuid_parse (Some u) rawID w = (Inl (NotFound ''queue_not_found''), w) \<and>
      queue_resume uuid_parse (Some u) rawID w = (Inl (NotFound ''queue_not_found''), w) \<and>
      queue_updateStatus notifier uuid_parse (Some u) rawID body w = (Inl (NotFound ''queue_not_found''), w)"
    unfolding queue_pause_def queue_resume_def togglePause_def queue_updateStatus_def pre
    using assms(3) by (intro conjI bg.foreign_like_missing [OF assms(1)]) (auto simp: full_booking_def)
  moreover note photos = findOwnedBooking_hidden [where uuid_parse = uuid_parse and rawID = rawID, OF assms]
  have "bphoto_list uuid_parse (Some u) rawID w = (Inl (NotFound ''queue_not_found''), w) \<and>
      bphoto_upload st uuid_parse (Some u) rawID form w = (Inl (NotFound ''queue_not_found''), w) \<and>
      bphoto_delete uuid_parse (Some u) rawID rawPhotoID w = (Inl (NotFound ''queue_not_found''), w)"
    by (simp add: bphoto_list_def bphoto_upload_def bphoto_delete_def AuthUserFrom_def bindE_def photos)
  ultimately show ?thesis by blast
qed

definition other_worker :: AuthUser where
  "other_worker = \<lparr>au_id = 9, au_role = ''worker'', au_wp = Some 6\<rparr>"

theorem foreign_booking_hidden_witness:
  "(\<exists>q. booking 100 town_booked = Some q) \<and>
   queue_get (\<lambda>_. Some 100) (Some other_worker) ''p'' town_booked = (Inl (NotFound ''queue_not_found''), town_booked) \<and>
   bphoto_list (\<lambda>_. Some 100) (Some other_worker) ''p'' town_booked = (Inl (NotFound ''queue_not_found''), town_booked)"
proof -
  have b: "case booking 100 town_booked of None \<Rightarrow> False | Some q \<Rightarrow> q_UserID q = 7 \<and> q_WashingPointID q = 5"
    "w_faults town_booked = []"
    by code_simp+
  have "\<exists>q. booking 100 town_booked = Some q" using b(1) by (auto split: option.splits)
  with foreign_booking_hidden [OF b(2), of "\<lambda>_. Some 100" "''p''" 100 other_worker] b(1)
  show ?thesis by (simp add: OwnsWashingPoint_def other_worker_def split: option.splits)
qed

end
