(* ===== verification/Spec2Isabelle.thy ===== *)
theory Spec2Isabelle
  imports Ratelimit Availability Schedule Boxes Services Users Cars QueueRepo Booking WalkIn QueueSteps
    Phone Slots BookingApi Board DayView Auth AuthProps AuthTokens Provision Points Onboarding
    Float64 Reports QRCodes Notifications Reminders NotifySteps
    Photos BookingPhotos PhotoProps PhotoFiles Admin
    Streams Config Edge Sms Routes ForeignBookings
begin

text \<open>
  Verification of q-wash-api, the backend of a network of car washes: an HTTP API in Go over a Postgres
  database. This file only collects the theories; their definitions follow the Go functions they are
  named after, and every theory opens with what it models.

  \<^bold>\<open>The program.\<close> Customers log in by a one-time code and book boxes of a washing point for a time;
  staff and workers of a point move bookings through their stages, enter walk-ins and manage schedule,
  boxes, services and photos; administrators run the network: owners, applications, stickers, figures.
  Handlers (\<open>handler.go\<close>) decode a request, check the caller and call managers (\<open>manager.go\<close>) and
  repositories (\<open>repository.go\<close>); a scheduler sends reminders; an in-memory bus wakes event streams.

  \<^bold>\<open>How it is modelled.\<close> A function that may fail or touches the database is an action: a function from a
  state to an error or a value together with the next state (\<open>Prelude\<close>: \<open>bindE\<close>). The state is the
  \<open>world\<close> of \<open>Model\<close>: the tables as lists of rows, the stored files, the clock of the request, the
  points announced on the bus, the messages handed to the providers, and a schedule of faults. Every
  statement takes an entry of the schedule and fails, changing nothing, when it is \<open>True\<close>; so a theorem
  about every schedule is one about every database and file error. Unique, check and exclusion
  constraints of the migrations are checks of the statements. An error is a value of \<open>apperror\<close> (status
  and code). Integers are \<open>int\<close> with the ranges of their columns checked and the wrap-around written out
  where it matters (\<open>wrap64\<close>), strings are byte lists, instants are nanoseconds, \<open>float64\<close> is the exact
  rational rounded to 53 bits (\<open>Float64\<close>). A request body is a decoded value or the error of decoding.

  \<^bold>\<open>Theories by part.\<close>
  \<^item> Shared: \<open>Prelude\<close>, \<open>Clock\<close> (time and \<open>platform/clock\<close>), \<open>GoStrings\<close>, \<open>Float64\<close>, \<open>Platform\<close>
    (\<open>apperror\<close>, \<open>httputil\<close>, \<open>reqctx\<close>, \<open>auth/middleware.go\<close>, \<open>audit\<close>), \<open>Model\<close> (the \<open>model.go\<close> files),
    \<open>Endpoints\<close> (load, check ownership, run), \<open>SingleFlag\<close> (at most one flagged row per group).
  \<^item> Bookings: \<open>Availability\<close> (\<open>queue/availability.go\<close>), \<open>QueueRepo\<close> (\<open>queue/repository.go\<close>), \<open>Booking\<close>
    and \<open>WalkIn\<close> (\<open>queue/manager.go\<close>), \<open>QueueSteps\<close> (interleaved requests), \<open>Slots\<close>, \<open>BookingApi\<close>,
    \<open>Board\<close>, \<open>DayView\<close>, \<open>Streams\<close> (\<open>queue/handler.go\<close>, \<open>helpers.go\<close>, \<open>handler_day.go\<close>,
    \<open>platform/eventbus\<close>), \<open>Reports\<close> (\<open>queue/reports.go\<close>).
  \<^item> Points: \<open>WpRepo\<close>, \<open>Points\<close> (\<open>washingpoint\<close>), \<open>Schedule\<close>, \<open>Boxes\<close>, \<open>Services\<close>, \<open>Photos\<close>,
    \<open>BookingPhotos\<close>, \<open>PhotoProps\<close>, \<open>PhotoFiles\<close> (\<open>photo\<close>, \<open>bookingphoto\<close>, \<open>platform/storage\<close>).
  \<^item> People: \<open>Users\<close>, \<open>Cars\<close>, \<open>Phone\<close>, \<open>Provision\<close> (\<open>user\<close>, \<open>car\<close>, \<open>platform/password\<close>), \<open>Auth\<close>,
    \<open>AuthProps\<close>, \<open>AuthTokens\<close> (\<open>auth\<close>, \<open>platform/jwt\<close>), \<open>Ratelimit\<close> (\<open>platform/ratelimit\<close>).
  \<^item> Network: \<open>Onboarding\<close> (\<open>owner\<close>, \<open>connectionrequest\<close>), \<open>QRCodes\<close> (\<open>qrcode\<close>), \<open>Admin\<close> (\<open>admin\<close>).
  \<^item> Messages: \<open>Notifications\<close>, \<open>Reminders\<close>, \<open>NotifySteps\<close> (\<open>device\<close>, \<open>notification\<close>,
    \<open>platform/push\<close>), \<open>Sms\<close> (\<open>platform/sms\<close>).
  \<^item> Edge: \<open>Config\<close> (\<open>config\<close>), \<open>Edge\<close> (\<open>platform/httpserver\<close>), \<open>Routes\<close> (\<open>app/app.go\<close> and every
    \<open>RegisterRoutes\<close>), \<open>ForeignBookings\<close> (what the endpoints under \<open>/queue/{id}\<close> tell a stranger).

  \<^bold>\<open>What is shown.\<close>
  \<^item> Bookings: acceptance is equivalent to an abstract specification (\<open>bookable\<close>); a start on the grid is
    accepted exactly when it is offered and the checks the offer leaves out hold (\<open>may_book\<close>), and no interleaving of reads, stale writes, transactions and failures books a box
    or a customer twice or leaves the status graph; failing operations change nothing.
  \<^item> Every part: what an operation does on each branch, invariants of its tables under every fault
    schedule, outcomes after a failure in the middle, and that foreign rows answer like missing ones
    (bookings on every endpoint that takes the identifier in its path).
  \<^item> Sessions: guesses of a code are bounded, refresh tokens are rotated at most once under any
    interleaving, a failed login does not tell which accounts exist.
  \<^item> Messages: a stage reaches a device at most once under any interleaving of senders; a tick on an
    answering database leaves nothing due but overflow bookings, which have no message.
  \<^item> Streams: frames are answers of the get endpoint; a quiet stream is current up to the gap between its
    first snapshot and its subscription.
  \<^item> Edge: a configuration that loads is well-formed and has no built-in secret in production; forged
    headers do not choose the counted address; every route admits its audience and nobody else.

  Where the code falls short of its comments the development states what it does instead, with a lemma
  on a concrete run.

  \<^bold>\<open>Interfaces.\<close> \<open>ownership_guard\<close> (\<open>Endpoints\<close>) is what a lookup behind an endpoint promises, \<open>single_flag\<close>
  is the contract of default options and covers; both are interpreted on the rows and finders of the
  model. \<open>preserves\<close>, \<open>valid\<close>, \<open>read_only\<close>, \<open>atomic\<close> and the lemmas about \<open>bindE\<close> carry the proofs.

  \<^bold>\<open>Bounds.\<close> The search for a free user name has fuel: the number of accounts plus one, shown to be enough.
  Durations in floating point are exact enough up to a hundred days, shares up to \<open>2^40\<close>. All other loops
  recurse on their data or on a decreasing measure.

  \<^bold>\<open>Parameters.\<close> bcrypt, HMAC, the signature and the parsing of tokens, random bytes, the text form of
  UUIDs, Postgres' \<open>lower\<close>, the order of ranging over a map, the answers of the push provider, of the SMS
  gateways and of the HTTP client, and reading multipart forms: they are arguments of the definitions.

  \<^bold>\<open>Not modelled.\<close> JSON encoding and the wording of error messages, logging, Sentry and the Swagger page,
  the HTML of the scan page, opening the database, process start and shutdown, signals and tickers: pure
  I/O. Matching a path to a route belongs to the router library. Transactions are steps of the
  interleaving models because the code takes a row lock in them. The seed commands fill development
  databases. The migrations enter as the constraints of the tables.
\<close>

end
